(* ===== verification/Prelude.thy ===== *)
theory Prelude
  imports Main "HOL-Library.Word" "HOL-Library.Monad_Syntax" "HOL-Library.Sublist"
begin

text \<open>
  Shared vocabulary of the development: the machine integers of the C sources, the mapped
  file as byte-addressed memory with little-endian loads and stores (the build is for i686),
  C strings, and the generic lemmas on lists, options, bytes and words that the component
  theories use through the collections \<open>mem_simps\<close> and \<open>u_simps\<close>.
\<close>

section \<open>Machine integers\<close>

type_synonym u8 = "8 word"
type_synonym u16 = "16 word"
type_synonym u32 = "32 word"
type_synonym u64 = "64 word"

text \<open>
  The mapped file is read and written through pointers \<open>fs + offset\<close>; an address of the
  model is that offset. Where C computes the offset in \<open>uint32_t\<close> arithmetic the model
  computes it in \<^typ>\<open>u32\<close> and converts with \<open>unat\<close>, so its wrap-around is kept.
\<close>

type_synonym mem = "nat \<Rightarrow> u8"

named_theorems mem_simps \<open>load and store equations, with their frame conditions\<close>
named_theorems u_simps \<open>conversions between words and natural numbers\<close>

section \<open>Little-endian encodings\<close>

fun le_bytes :: "nat \<Rightarrow> nat \<Rightarrow> u8 list" where
  "le_bytes 0 v = []"
| "le_bytes (Suc n) v = of_nat (v mod 256) # le_bytes n (v div 256)"

fun le_nat :: "u8 list \<Rightarrow> nat" where
  "le_nat [] = 0"
| "le_nat (b # bs) = unat b + 256 * le_nat bs"

definition load_bytes :: "mem \<Rightarrow> nat \<Rightarrow> nat \<Rightarrow> u8 list" where
  "load_bytes m a n = map (\<lambda>i. m (a + i)) [0..<n]"

definition store_bytes :: "mem \<Rightarrow> nat \<Rightarrow> u8 list \<Rightarrow> mem" where
  "store_bytes m a bs = (\<lambda>x. if a \<le> x \<and> x < a + length bs then bs ! (x - a) else m x)"

definition memset :: "mem \<Rightarrow> nat \<Rightarrow> u8 \<Rightarrow> nat \<Rightarrow> mem" where
  "memset m a v n = (\<lambda>x. if a \<le> x \<and> x < a + n then v else m x)"

definition load16 :: "mem \<Rightarrow> nat \<Rightarrow> u16" where
  "load16 m a = of_nat (le_nat (load_bytes m a 2))"

definition load32 :: "mem \<Rightarrow> nat \<Rightarrow> u32" where
  "load32 m a = of_nat (le_nat (load_bytes m a 4))"

definition store16 :: "mem \<Rightarrow> nat \<Rightarrow> u16 \<Rightarrow> mem" where
  "store16 m a w = store_bytes m a (le_bytes 2 (unat w))"

definition store32 :: "mem \<Rightarrow> nat \<Rightarrow> u32 \<Rightarrow> mem" where
  "store32 m a w = store_bytes m a (le_bytes 4 (unat w))"

text \<open>An array of \<open>uint32_t\<close> at an address, and its element-wise store (\<open>memcpy\<close>).\<close>

definition load32s :: "mem \<Rightarrow> nat \<Rightarrow> nat \<Rightarrow> u32 list" where
  "load32s m a n = map (\<lambda>i. load32 m (a + 4 * i)) [0..<n]"

fun store32s :: "mem \<Rightarrow> nat \<Rightarrow> u32 list \<Rightarrow> mem" where
  "store32s m a [] = m"
| "store32s m a (w # ws) = store32s (store32 m a w) (a + 4) ws"

text \<open>Two address ranges do not meet.\<close>

definition disj_range :: "nat \<Rightarrow> nat \<Rightarrow> nat \<Rightarrow> nat \<Rightarrow> bool" where
  "disj_range a n b k \<longleftrightarrow> a + n \<le> b \<or> b + k \<le> a"

section \<open>Lemmas: lists and options\<close>

lemma those_map_Some: "(\<And>x. x \<in> set xs \<Longrightarrow> f x = Some (g x)) \<Longrightarrow> those (map f xs) = Some (map g xs)"
  by (induction xs) auto

lemma length_filter_update:
  "i < length xs \<Longrightarrow> length (filter P (xs[i := y])) + (if P (xs ! i) then 1 else 0) =
    length (filter P xs) + (if P y then 1 else (0 :: nat))"
proof (induction xs arbitrary: i)
  case (Cons x xs)
  then show ?case by (cases i) (auto dest: Cons.IH)
qed simp

lemma upt_split: "a \<le> b \<Longrightarrow> b \<le> c \<Longrightarrow> [a..<c] = [a..<b] @ [b..<c]"
  using upt_add_eq_append [of a b "c - b"] by simp

lemma map_chunk:
  assumes "r \<le> k"
  shows "map (f q) [0..<r] = map (\<lambda>j. f (j div k) (j mod k)) [q * k..<q * k + r]"
proof -
  have "[q * k..<q * k + r] = map (\<lambda>i. i + q * k) [0..<r]"
    by (simp add: map_add_upt add.commute)
  then show ?thesis using assms by auto
qed

lemma concat_chunks_full:
  "concat (map (\<lambda>i. map (f i) [0..<k]) [0..<q]) = map (\<lambda>j. f (j div k) (j mod k)) [0..<q * k]"
proof (induction q)
  case (Suc q)
  have "[0..<Suc q * k] = [0..<q * k] @ [q * k..<q * k + k]"
    by (metis add.commute le0 mult_Suc upt_add_eq_append)
  then show ?case using Suc map_chunk [of k k f q] by simp
qed simp

lemma concat_chunks:
  assumes "0 < k"
  shows "concat (map (\<lambda>i. map (f i) [0..<k]) [0..<n div k]) @ map (f (n div k)) [0..<n mod k] =
    map (\<lambda>j. f (j div k) (j mod k)) [0..<n]"
proof -
  have "map (f (n div k)) [0..<n mod k] =
      map (\<lambda>j. f (j div k) (j mod k)) [n div k * k..<n div k * k + n mod k]"
    using assms by (intro map_chunk) (simp add: less_imp_le)
  moreover have "[0..<n] = [0..<n div k * k] @ [n div k * k..<n div k * k + n mod k]"
    by (metis div_mult_mod_eq le0 upt_add_eq_append)
  ultimately show ?thesis by (simp add: concat_chunks_full)
qed

section \<open>Lemmas: words and bytes\<close>

lemma unat_lt_u8 [u_simps]: "unat (w :: u8) < 256"
  using unsigned_less [of w] by simp

lemma unat_lt_u16 [u_simps]: "unat (w :: u16) < 65536"
  using unsigned_less [of w] by simp

lemma unat_lt_u32 [u_simps]: "unat (w :: u32) < 4294967296"
  using unsigned_less [of w] by simp

lemma unat_of_nat_u8 [u_simps]: "unat (of_nat n :: u8) = n mod 256"
  by (simp add: unat_of_nat)

lemma unat_of_nat_u16 [u_simps]: "unat (of_nat n :: u16) = n mod 65536"
  by (simp add: unat_of_nat)

lemma unat_of_nat_u32 [u_simps]: "unat (of_nat n :: u32) = n mod 4294967296"
  by (simp add: unat_of_nat)

lemma unat_ucast_u16 [u_simps]: "unat (ucast (w :: u16) :: u32) = unat w"
  using unat_lt_u16 [of w] by (simp add: unsigned_ucast_eq take_bit_eq_mod)

lemma unat_narrow_sub [u_simps]:
  assumes "(n :: u32) \<le> ucast (w :: u16)"
  shows "unat (ucast (ucast w - n) :: u16) = unat w - unat n"
proof -
  have "unat (ucast w - n :: u32) = unat w - unat n"
    using assms by (simp add: unat_sub unat_ucast_u16)
  then show ?thesis
    using unat_lt_u16 [of w] by (simp add: unsigned_ucast_eq take_bit_eq_mod)
qed

lemma length_le_bytes [simp]: "length (le_bytes n v) = n"
  by (induction n arbitrary: v) auto

lemma le_nat_le_bytes [simp]: "le_nat (le_bytes n v) = v mod 256 ^ n"
proof (induction n arbitrary: v)
  case (Suc n)
  have "v mod 256 ^ Suc n = v mod 256 + 256 * (v div 256 mod 256 ^ n)"
    by (simp add: mod_mult2_eq)
  with Suc show ?case by (simp add: u_simps)
qed simp

lemma le_nat_lt: "le_nat bs < 256 ^ length bs"
proof (induction bs)
  case (Cons b bs)
  have "unat b + 256 * le_nat bs < 256 + 256 * le_nat bs" by (simp add: u_simps)
  also have "\<dots> = 256 * Suc (le_nat bs)" by simp
  also have "\<dots> \<le> 256 * 256 ^ length bs" using Cons by (intro mult_le_mono) auto
  finally show ?case by simp
qed simp

lemma le_bytes_le_nat: "length bs = n \<Longrightarrow> le_bytes n (le_nat bs) = bs"
proof (induction bs arbitrary: n)
  case (Cons b bs)
  then show ?case by (cases n) (auto simp: u_simps)
qed simp

lemma le_bytes_inject: "v < 256 ^ n \<Longrightarrow> w < 256 ^ n \<Longrightarrow> le_bytes n v = le_bytes n w \<longleftrightarrow> v = w"
  by (metis le_nat_le_bytes mod_less)

section \<open>Lemmas: loads and stores\<close>

lemma length_load_bytes [simp]: "length (load_bytes m a n) = n"
  by (simp add: load_bytes_def)

lemma nth_load_bytes [simp]: "i < n \<Longrightarrow> load_bytes m a n ! i = m (a + i)"
  by (simp add: load_bytes_def)

lemma length_load32s [simp]: "length (load32s m a n) = n"
  by (simp add: load32s_def)

lemma nth_load32s [simp]: "i < n \<Longrightarrow> load32s m a n ! i = load32 m (a + 4 * i)"
  by (simp add: load32s_def)

lemma load_bytes_eqI: "(\<And>i. i < n \<Longrightarrow> m (a + i) = m' (b + i)) \<Longrightarrow> load_bytes m a n = load_bytes m' b n"
  by (auto simp: load_bytes_def)

lemma store_bytes_outside [mem_simps]:
  "disj_range a (length bs) x 1 \<Longrightarrow> store_bytes m a bs x = m x"
  by (auto simp: store_bytes_def disj_range_def)

lemma store_bytes_inside [mem_simps]:
  "i < length bs \<Longrightarrow> store_bytes m a bs (a + i) = bs ! i"
  by (simp add: store_bytes_def)

lemma load_bytes_store_same [mem_simps]:
  "n = length bs \<Longrightarrow> load_bytes (store_bytes m a bs) a n = bs"
  by (rule nth_equalityI) (auto simp: store_bytes_inside)

lemma load_bytes_store_frame [mem_simps]:
  "disj_range a (length bs) b n \<Longrightarrow> load_bytes (store_bytes m a bs) b n = load_bytes m b n"
  by (rule load_bytes_eqI) (auto simp: store_bytes_def disj_range_def)

lemma load_bytes_memset_frame [mem_simps]:
  "disj_range a k b n \<Longrightarrow> load_bytes (memset m a v k) b n = load_bytes m b n"
  by (rule load_bytes_eqI) (auto simp: memset_def disj_range_def)

lemma load_bytes_upd_frame [mem_simps]:
  "disj_range a 1 b n \<Longrightarrow> load_bytes (m(a := y)) b n = load_bytes m b n"
  by (rule load_bytes_eqI) (auto simp: disj_range_def)

lemma load16_store16_same [mem_simps]: "load16 (store16 m a w) a = w"
  by (simp add: load16_def store16_def load_bytes_store_same u_simps)

lemma load32_store32_same [mem_simps]: "load32 (store32 m a w) a = w"
  by (simp add: load32_def store32_def load_bytes_store_same u_simps)

lemma load_frames [mem_simps]:
  "disj_range a (length bs) b 2 \<Longrightarrow> load16 (store_bytes m a bs) b = load16 m b"
  "disj_range a (length bs) b 4 \<Longrightarrow> load32 (store_bytes m a bs) b = load32 m b"
  "disj_range a 2 b 2 \<Longrightarrow> load16 (store16 m a v) b = load16 m b"
  "disj_range a 2 b 4 \<Longrightarrow> load32 (store16 m a v) b = load32 m b"
  "disj_range a 4 b 2 \<Longrightarrow> load16 (store32 m a w) b = load16 m b"
  "disj_range a 4 b 4 \<Longrightarrow> load32 (store32 m a w) b = load32 m b"
  "disj_range a k b 2 \<Longrightarrow> load16 (memset m a x k) b = load16 m b"
  "disj_range a k b 4 \<Longrightarrow> load32 (memset m a x k) b = load32 m b"
  "disj_range a 2 b n \<Longrightarrow> load_bytes (store16 m a v) b n = load_bytes m b n"
  "disj_range a 4 b n \<Longrightarrow> load_bytes (store32 m a w) b n = load_bytes m b n"
  "disj_range a 1 b 2 \<Longrightarrow> load16 (m(a := y)) b = load16 m b"
  "disj_range a 1 b 4 \<Longrightarrow> load32 (m(a := y)) b = load32 m b"
  by (simp_all add: load16_def load32_def store16_def store32_def load_bytes_store_frame
      load_bytes_memset_frame load_bytes_upd_frame)

lemma byte_frames [mem_simps]:
  "disj_range a 2 b 1 \<Longrightarrow> store16 m a v b = m b"
  "disj_range a 4 b 1 \<Longrightarrow> store32 m a w b = m b"
  "disj_range a k b 1 \<Longrightarrow> memset m a x k b = m b"
  "a \<le> b \<Longrightarrow> b < a + k \<Longrightarrow> memset m a x k b = x"
  by (auto simp: store16_def store32_def store_bytes_def memset_def disj_range_def)

lemma load32_eqI: "(\<And>i. i < 4 \<Longrightarrow> m (a + i) = m' (b + i)) \<Longrightarrow> load32 m a = load32 m' b"
  using load_bytes_eqI [of 4 m a m' b] by (simp add: load32_def)

lemma load16_eqI: "(\<And>i. i < 2 \<Longrightarrow> m (a + i) = m' (b + i)) \<Longrightarrow> load16 m a = load16 m' b"
  using load_bytes_eqI [of 2 m a m' b] by (simp add: load16_def)

lemma store32s_outside: "disj_range a (4 * length ws) x 1 \<Longrightarrow> store32s m a ws x = m x"
  by (induction ws arbitrary: m a) (auto simp: mem_simps disj_range_def)

lemma load32_store32s_frame [mem_simps]:
  "disj_range a (4 * length ws) b 4 \<Longrightarrow> load32 (store32s m a ws) b = load32 m b"
  by (rule load32_eqI) (auto simp: store32s_outside disj_range_def)

lemma load16_store32s_frame [mem_simps]:
  "disj_range a (4 * length ws) b 2 \<Longrightarrow> load16 (store32s m a ws) b = load16 m b"
  by (rule load16_eqI) (auto simp: store32s_outside disj_range_def)

lemma load32_store32s_nth [mem_simps]:
  "i < length ws \<Longrightarrow> load32 (store32s m a ws) (a + 4 * i) = ws ! i"
proof (induction ws arbitrary: m a i)
  case (Cons w ws)
  show ?case
  proof (cases i)
    case 0
    then show ?thesis by (simp add: mem_simps disj_range_def)
  next
    case (Suc j)
    with Cons.prems Cons.IH [of j "store32 m a w" "a + 4"] show ?thesis
      by (simp add: algebra_simps)
  qed
qed simp

section \<open>C strings\<close>

text \<open>
  A NUL-terminated \<open>char*\<close> is a \<^typ>\<open>string\<close> without the terminator; \<open>strlen\<close> is
  \<open>length\<close>. Bytes and characters convert as C does between \<open>char\<close> and \<open>uint8_t\<close>.
\<close>

definition char_byte :: "char \<Rightarrow> u8" where
  "char_byte c = of_nat (of_char c)"

definition bytes_of_string :: "string \<Rightarrow> u8 list" where
  "bytes_of_string s = map char_byte s"

definition strncmp_eq :: "string \<Rightarrow> string \<Rightarrow> nat \<Rightarrow> bool" where
  \<comment> \<open>\<open>strncmp(a, b, n) == 0\<close>: equal up to \<open>n\<close> characters or the first terminator.\<close>
  "strncmp_eq a b n \<longleftrightarrow> take n a = take n b"

lemma unat_char_byte [u_simps]: "unat (char_byte c) = of_char c"
  by (simp add: char_byte_def u_simps)

lemma char_byte_inject [simp]: "char_byte c = char_byte d \<longleftrightarrow> c = d"
  by (metis unat_char_byte of_char_eq_iff)

lemma length_bytes_of_string [simp]: "length (bytes_of_string s) = length s"
  by (simp add: bytes_of_string_def)

lemma bytes_of_string_inject [simp]: "bytes_of_string s = bytes_of_string t \<longleftrightarrow> s = t"
  by (simp add: bytes_of_string_def inj_map_eq_map inj_def)

lemma strncmp_eq_same_length: "length a = length b \<Longrightarrow> strncmp_eq a b (length b) \<longleftrightarrow> a = b"
  by (simp add: strncmp_eq_def)

end
