(* ===== verification/Strings.thy ===== *)
theory Strings
  imports Prelude
begin

text \<open>
  \<^verbatim>\<open>rfs/commons/string.c\<close>, the path splitting of \<^verbatim>\<open>rfs/source_RFS/file_operations.c\<close>
  (\<open>split_path\<close>) and the last path component (\<open>active_file_get_file_name\<close> of
  \<^verbatim>\<open>server_threading.c\<close>). \<open>char*\<close> arguments are strings without their terminator.
\<close>

section \<open>The C library calls used\<close>

definition toupper :: "char \<Rightarrow> char" where
  "toupper c = (let n = (of_char c :: nat) in if 97 \<le> n \<and> n \<le> 122 then char_of (n - 32) else c)"

definition tolower :: "char \<Rightarrow> char" where
  "tolower c = (let n = (of_char c :: nat) in if 65 \<le> n \<and> n \<le> 90 then char_of (n + 32) else c)"

definition isblank :: "char \<Rightarrow> bool" where
  "isblank c \<longleftrightarrow> (of_char c :: nat) = 32 \<or> (of_char c :: nat) = 9"

definition isspace :: "char \<Rightarrow> bool" where
  "isspace c \<longleftrightarrow> (of_char c :: nat) = 32 \<or> 9 \<le> (of_char c :: nat) \<and> (of_char c :: nat) \<le> 13"

text \<open>\<open>strchr(s + i, c)\<close> as an index of \<open>s\<close>; \<open>None\<close> is \<open>NULL\<close>.\<close>

definition strchr :: "string \<Rightarrow> nat \<Rightarrow> char \<Rightarrow> nat option" where
  "strchr s i c = List.find (\<lambda>j. s ! j = c) [i..<length s]"

text \<open>The tokens that repeated calls of \<open>strtok_r\<close> return.\<close>

function strtok_tokens :: "string \<Rightarrow> string \<Rightarrow> string list" where
  "strtok_tokens separator text =
     (let rest = dropWhile (\<lambda>c. c \<in> set separator) text
      in if rest = [] then []
         else takeWhile (\<lambda>c. c \<notin> set separator) rest #
              strtok_tokens separator (dropWhile (\<lambda>c. c \<notin> set separator) rest))"
  by pat_completeness auto
termination
proof (relation "measure (\<lambda>(separator, text). length text)")
  fix separator t rest :: string
  assume rest: "rest = dropWhile (\<lambda>c. c \<in> set separator) t" and "rest \<noteq> []"
  then have "hd rest \<notin> set separator" using hd_dropWhile by metis
  then have "length (dropWhile (\<lambda>c. c \<notin> set separator) rest) < length rest"
    using \<open>rest \<noteq> []\<close> by (cases rest) (auto simp: le_imp_less_Suc length_dropWhile_le)
  also have "length rest \<le> length t" using rest by (simp add: length_dropWhile_le)
  finally show "((separator, dropWhile (\<lambda>c. c \<notin> set separator) rest), separator, t)
      \<in> measure (\<lambda>(separator, t). length t)" by simp
qed simp

declare strtok_tokens.simps [simp del]

lemma strtok_skip: "set s \<subseteq> set sep \<Longrightarrow> strtok_tokens sep (s @ rest) = strtok_tokens sep rest"
  by (subst (1 2) strtok_tokens.simps) (simp add: dropWhile_append2 subset_iff)

lemma strtok_none: "set s \<subseteq> set sep \<Longrightarrow> strtok_tokens sep s = []"
  using strtok_skip [of s sep "[]"] by (simp add: strtok_tokens.simps [of _ "[]"])

lemma strtok_token:
  assumes "tok \<noteq> []" and "set tok \<inter> set sep = {}" and "rest = [] \<or> hd rest \<in> set sep"
  shows "strtok_tokens sep (tok @ rest) = tok # strtok_tokens sep rest"
proof -
  have "takeWhile (\<lambda>x. x \<notin> set sep) (tok @ rest) = tok" "dropWhile (\<lambda>x. x \<notin> set sep) (tok @ rest) = rest"
    using assms(2,3) by (cases rest; auto simp: takeWhile_append dropWhile_append)+
  moreover have "dropWhile (\<lambda>x. x \<in> set sep) (tok @ rest) = tok @ rest"
    using assms(1,2) by (cases tok) auto
  ultimately show ?thesis using assms(1) by (subst strtok_tokens.simps) (simp add: Let_def)
qed

section \<open>commons/string.c\<close>

definition string_repeat :: "char \<Rightarrow> nat \<Rightarrow> string" where
  "string_repeat character count = replicate count character"

definition string_duplicate :: "string \<Rightarrow> string" where
  "string_duplicate original = original"

definition string_append :: "string \<Rightarrow> string \<Rightarrow> string" where
  "string_append original string_to_add = original @ string_to_add"

definition string_do :: "string \<Rightarrow> (char \<Rightarrow> char) \<Rightarrow> string" where
  "string_do text closure = map closure text"

definition string_to_upper :: "string \<Rightarrow> string" where
  "string_to_upper text = string_do text toupper"

definition string_to_lower :: "string \<Rightarrow> string" where
  "string_to_lower text = string_do text tolower"

definition string_is_empty :: "string \<Rightarrow> bool" where
  "string_is_empty text \<longleftrightarrow> length text = 0"

definition string_capitalized :: "string \<Rightarrow> string" where
  "string_capitalized text =
     (if \<not> string_is_empty text then
        let text' = toupper (text ! 0) # tl text
        in if length text' \<ge> 2 then hd text' # string_to_lower (tl text') else text'
      else text)"

definition string_trim_left :: "string \<Rightarrow> string" where
  "string_trim_left text = string_duplicate (dropWhile isblank text)"

definition string_trim_right :: "string \<Rightarrow> string" where
  "string_trim_right text = rev (dropWhile isspace (rev text))"

definition string_trim :: "string \<Rightarrow> string" where
  "string_trim text = string_trim_right (string_trim_left text)"

definition string_starts_with :: "string \<Rightarrow> string \<Rightarrow> bool" where
  "string_starts_with text begin' \<longleftrightarrow> strncmp_eq text begin' (length begin')"

definition string_ends_with :: "string \<Rightarrow> string \<Rightarrow> bool" where
  "string_ends_with text end' \<longleftrightarrow>
     (if length text < length end' then False else drop (length text - length end') text = end')"

definition string_equals_ignore_case :: "string \<Rightarrow> string \<Rightarrow> bool" where
  "string_equals_ignore_case actual expected \<longleftrightarrow> map tolower actual = map tolower expected"

definition string_split :: "string \<Rightarrow> string \<Rightarrow> string list" where
  "string_split text separator = strtok_tokens separator (string_duplicate text)"

section \<open>Paths\<close>

definition separator :: char where
  "separator = CHR ''/''"

fun split_path_loop :: "string \<Rightarrow> nat \<Rightarrow> nat \<Rightarrow> string list option" where
  "split_path_loop path p 0 = Some []"
| "split_path_loop path p (Suc n) = (case strchr path (p + 1) separator of
     None \<Rightarrow> None
   | Some q \<Rightarrow> (case split_path_loop path q n of
       None \<Rightarrow> None
     | Some tree \<Rightarrow> Some (take (q - 0 + 1) path # tree)))"

text \<open>
  \<open>None\<close> of the outer option is a dereference of \<open>NULL\<close>, \<open>Some None\<close> the \<open>NULL\<close> that
  \<open>split_path\<close> returns for a path without a leading separator. Intermediate components
  from the third on keep their trailing separator.
\<close>

definition split_path :: "string \<Rightarrow> string list option option" where
  "split_path path =
     (if \<not> strncmp_eq path [separator] 1 then Some None
      else
        let ocurrences = length (filter (\<lambda>c. c = separator) path)
        in if length path = 1 then Some (Some [''/''])
           else if ocurrences = 1 then Some (Some [''/'', path])
           else case strchr path 1 separator of
               None \<Rightarrow> None
             | Some p \<Rightarrow> (case split_path_loop path p (ocurrences - 2) of
                 None \<Rightarrow> None
               | Some tree \<Rightarrow>
                   let file_tree = ''/'' # take p path # tree
                   in Some (Some (if \<not> strncmp_eq path (last file_tree) (length path)
                                  then file_tree @ [path] else file_tree))))"

definition active_file_get_file_name :: "string \<Rightarrow> string option" where
  "active_file_get_file_name path =
     (if length path = 1 then Some path
      else let splitted_path = string_split path ''/''
        in if splitted_path = [] then None else Some (last splitted_path))"

section \<open>Splitting: lemmas\<close>

definition component_ok :: "string \<Rightarrow> bool" where
  "component_ok c \<longleftrightarrow> c \<noteq> [] \<and> separator \<notin> set c"

definition path_of :: "string list \<Rightarrow> string" where
  "path_of cs = concat (map (\<lambda>c. separator # c) cs)"

definition tree_of :: "string list \<Rightarrow> string list" where
  \<comment> \<open>What \<open>split_path\<close> returns after the root, for the path with components \<open>cs\<close>.\<close>
  "tree_of cs =
     (if length cs = 1 then [path_of cs]
      else path_of (take 1 cs) # map (\<lambda>k. path_of (take k cs) @ [separator]) [2..<length cs] @ [path_of cs])"

lemma path_of_simps [simp]:
  "path_of [] = []" "path_of (c # cs) = separator # c @ path_of cs" "path_of (as @ bs) = path_of as @ path_of bs"
  by (simp_all add: path_of_def)

lemma strchr_at: "c \<notin> set ys \<Longrightarrow> strchr (xs @ ys @ c # zs) (length xs) c = Some (length xs + length ys)"
  unfolding strchr_def find_Some_iff
  by (rule exI [of _ "length ys"]) (auto simp: nth_append in_set_conv_nth)

lemma filter_separator: "\<forall>c \<in> set cs. component_ok c \<Longrightarrow> length (filter (\<lambda>c. c = separator) (path_of cs)) = length cs"
  by (induction cs) (auto simp: component_ok_def filter_empty_conv)

lemma split_path_loop_tree:
  assumes "\<forall>c \<in> set bs. component_ok c" and "n < length bs"
  shows "split_path_loop (path_of as @ path_of bs) (length (path_of as)) n =
    Some (map (\<lambda>k. path_of (as @ take k bs) @ [separator]) [1..<Suc n])"
  using assms
proof (induction n arbitrary: as bs)
  case (Suc n)
  then obtain b b' bs' where bs: "bs = b # b' # bs'" by (cases bs; cases "tl bs") auto
  let ?p = "path_of as @ path_of bs"
  have "strchr ?p (length (path_of as) + 1) separator = Some (length (path_of (as @ [b])))"
    using strchr_at [of separator b "path_of as @ [separator]" "b' @ path_of bs'"] Suc.prems bs
    by (auto simp: component_ok_def)
  moreover have "split_path_loop ?p (length (path_of (as @ [b]))) n =
      Some (map (\<lambda>k. path_of ((as @ [b]) @ take k (b' # bs')) @ [separator]) [1..<Suc n])"
    using Suc.IH [of "b' # bs'" "as @ [b]"] Suc.prems bs by simp
  moreover have "[1..<Suc (Suc n)] = 1 # map Suc [1..<Suc n]"
    by (simp add: map_Suc_upt upt_conv_Cons)
  ultimately show ?case
    by (simp add: bs del: upt_Suc)
qed simp

lemma path_of_nth_not_prefix:
  assumes "\<forall>c \<in> set cs. component_ok c" and "k < length cs"
  shows "length (path_of (take k cs)) + 1 < length (path_of cs)"
proof -
  have "path_of cs = path_of (take k cs) @ path_of (cs ! k # drop (Suc k) cs)"
    using assms(2) by (metis append_take_drop_id Cons_nth_drop_Suc path_of_simps(3))
  moreover have "cs ! k \<noteq> []" using assms by (simp add: component_ok_def)
  ultimately show ?thesis by simp
qed

lemma split_path_tree:
  assumes ok: "\<forall>c \<in> set cs. component_ok c" and "cs \<noteq> []"
  shows "split_path (path_of cs) = Some (Some (''/'' # tree_of cs))"
proof (cases "length cs = 1")
  case True
  then obtain c where "cs = [c]" by (cases cs) auto
  with ok show ?thesis
    by (auto simp: split_path_def strncmp_eq_def component_ok_def filter_empty_conv tree_of_def)
next
  case False
  with assms(2) obtain c c' ds where cs: "cs = c # c' # ds" by (cases cs; cases "tl cs") auto
  let ?n = "length ds"
  have first: "strchr (path_of cs) 1 separator = Some (length (path_of [c]))"
    using strchr_at [of separator c "[separator]" "c' @ path_of ds"] ok cs by (simp add: component_ok_def)
  have loop: "split_path_loop (path_of cs) (length (path_of [c])) ?n =
      Some (map (\<lambda>k. path_of ([c] @ take k (c' # ds)) @ [separator]) [1..<Suc ?n])"
    using split_path_loop_tree [of "c' # ds" ?n "[c]"] ok cs by simp
  have tree: "map (\<lambda>k. path_of ([c] @ take k (c' # ds)) @ [separator]) [1..<Suc ?n] =
      map (\<lambda>k. path_of (take k cs) @ [separator]) [2..<length cs]"
  proof -
    have "[2..<length cs] = map Suc [1..<Suc ?n]" by (simp add: cs map_Suc_upt numeral_2_eq_2)
    then show ?thesis by (simp add: cs comp_def del: upt_Suc)
  qed
  have shorter: "length (last (path_of [c] # map (\<lambda>k. path_of (take k cs) @ [separator]) [2..<length cs])) < length (path_of cs)"
    using path_of_nth_not_prefix [OF ok, of 1] path_of_nth_not_prefix [OF ok, of "length cs - 1"] cs
    by (cases ds rule: rev_cases) (auto simp: last_map)
  then have "\<not> strncmp_eq (path_of cs) (last (path_of [c] # map (\<lambda>k. path_of (take k cs) @ [separator]) [2..<length cs])) (length (path_of cs))"
    unfolding strncmp_eq_def by (metis length_take min.absorb_iff2 nat_less_le take_all_iff order_refl)
  then show ?thesis
    using first loop tree filter_separator [OF ok] False cs
    by (simp add: split_path_def tree_of_def strncmp_eq_def [of _ "[separator]"] Let_def del: upt_Suc)
qed

lemma strtok_step:
  assumes "component_ok c" and "rest = [] \<or> hd rest = separator"
  shows "strtok_tokens ''/'' (separator # c @ rest) = c # strtok_tokens ''/'' rest"
  using strtok_skip [of "[separator]" "''/''" "c @ rest"] strtok_token [of c "''/''" rest] assms
  by (auto simp: component_ok_def separator_def)

lemma strtok_path_of:
  "\<forall>c \<in> set cs. component_ok c \<Longrightarrow> t = [] \<or> t = [separator] \<Longrightarrow> strtok_tokens ''/'' (path_of cs @ t) = cs"
proof (induction cs)
  case Nil
  then show ?case by (subst strtok_tokens.simps) (auto simp: separator_def)
next
  case (Cons c cs)
  moreover have "path_of cs @ t = [] \<or> hd (path_of cs @ t) = separator"
    using Cons.prems by (cases cs) auto
  ultimately show ?case using strtok_step [of c "path_of cs @ t"] by simp
qed

lemma file_name_path_of:
  assumes "\<forall>c \<in> set cs. component_ok c" and "cs \<noteq> []" and "t = [] \<or> t = [separator]"
  shows "active_file_get_file_name (path_of cs @ t) = Some (last cs)"
proof -
  have "length (path_of cs @ t) \<noteq> 1"
    using assms by (cases cs) (auto simp: component_ok_def)
  then show ?thesis
    using strtok_path_of [OF assms(1,3)] assms(2)
    by (simp add: active_file_get_file_name_def string_split_def string_duplicate_def)
qed

lemma tree_of_nth:
  assumes "i < length cs"
  shows "length (tree_of cs) = length cs"
    and "tree_of cs ! i = path_of (take (Suc i) cs) @ (if 0 < i \<and> Suc i < length cs then [separator] else [])"
proof -
  show "length (tree_of cs) = length cs" using assms by (auto simp: tree_of_def)
  consider "i = 0" | "0 < i" "Suc i < length cs" | "0 < i" "Suc i = length cs" using assms by linarith
  then show "tree_of cs ! i = path_of (take (Suc i) cs) @ (if 0 < i \<and> Suc i < length cs then [separator] else [])"
    using assms by cases (auto simp: tree_of_def nth_append nth_Cons')
qed

lemma tree_names:
  assumes ok: "\<forall>c \<in> set cs. component_ok c" and ne: "cs \<noteq> []"
  shows "map active_file_get_file_name (tree_of cs) = map Some cs"
proof (rule nth_equalityI)
  show "length (map active_file_get_file_name (tree_of cs)) = length (map Some cs)"
    using ne tree_of_nth(1) [of 0 cs] by simp
  fix i assume "i < length (map active_file_get_file_name (tree_of cs))"
  then have i: "i < length cs" using ne tree_of_nth(1) [of 0 cs] by simp
  have "last (take (Suc i) cs) = cs ! i" using i by (simp add: take_Suc_conv_app_nth)
  moreover have "\<forall>c \<in> set (take (Suc i) cs). component_ok c" using ok by (auto dest: in_set_takeD)
  ultimately show "map active_file_get_file_name (tree_of cs) ! i = map Some cs ! i"
    using i ne tree_of_nth [OF i] file_name_path_of [of "take (Suc i) cs"] by auto
qed

section \<open>Properties\<close>

text \<open>
  C34: for a path made of well-formed components, \<open>split_path\<close> returns the root and one entry
  per component, and the name taken from each entry is that component, so a lookup visits
  the components of the path in order; entries strictly between the first and the last
  component keep a trailing separator.
\<close>

theorem split_path_components:
  assumes "\<forall>c \<in> set cs. component_ok c" and "cs \<noteq> []"
  shows "\<exists>tree. split_path (path_of cs) = Some (Some (''/'' # tree)) \<and>
    map active_file_get_file_name tree = map Some cs \<and>
    (\<forall>i < length cs. tree ! i = path_of (take (Suc i) cs) @ (if 0 < i \<and> Suc i < length cs then [separator] else []))"
  using split_path_tree [OF assms] tree_names [OF assms] tree_of_nth(2) by blast

lemma split_path_components_witness:
  "split_path ''/a/b/c'' = Some (Some [''/'', ''/a'', ''/a/b/'', ''/a/b/c'']) \<and>
   (\<exists>tree. split_path (path_of [''a'', ''b'', ''c'']) = Some (Some (''/'' # tree)) \<and>
      map active_file_get_file_name tree = [Some ''a'', Some ''b'', Some ''c''])"
proof -
  have "\<forall>c \<in> set [''a'', ''b'', ''c'']. component_ok c" "[''a'', ''b'', ''c''] \<noteq> []"
    by (simp_all add: component_ok_def separator_def)
  note h = split_path_components [OF this]
  have "split_path ''/a/b/c'' = Some (Some [''/'', ''/a'', ''/a/b/'', ''/a/b/c''])" by code_simp
  with h show ?thesis by auto
qed

end
