(* ===== verification/Registro.thy ===== *)
theory Registro
  imports Strings
begin

text \<open>
  The log, \<^verbatim>\<open>rfs/commons/log.c\<close>, with \<^verbatim>\<open>temporal.c\<close> and \<^verbatim>\<open>error.c\<close>, and what these use of \<open>printf\<close>. What is
  written to the file and to the console is part of the state; a template without enough
  arguments and text that does not fit its buffer are executions C leaves undefined (\<open>None\<close>).
\<close>

section \<open>printf\<close>

datatype printf_arg = A_str string | A_int int | A_uint u32

fun dec_nat :: "nat \<Rightarrow> string" where
  "dec_nat n = (if n < 10 then [char_of (48 + n)] else dec_nat (n div 10) @ [char_of (48 + n mod 10)])"

declare dec_nat.simps [simp del]

definition decimal :: "int \<Rightarrow> string" where
  "decimal n = (if n < 0 then CHR ''-'' # dec_nat (nat (- n)) else dec_nat (nat n))"

fun hex_nat :: "nat \<Rightarrow> string" where
  "hex_nat n = (if n < 16 then [] else hex_nat (n div 16)) @ [char_of (if n mod 16 < 10 then 48 + n mod 16 else 55 + n mod 16)]"

declare hex_nat.simps [simp del]

definition conversion :: "char \<Rightarrow> printf_arg \<Rightarrow> string option" where
  "conversion c a = (case a of
       A_str s \<Rightarrow> if c = CHR ''s'' then Some s else None
     | A_int n \<Rightarrow> if c = CHR ''d'' then Some (decimal n) else None
     | A_uint w \<Rightarrow> if c = CHR ''X'' then Some (hex_nat (unat w)) else if c = CHR ''u'' then Some (dec_nat (unat w)) else None)"

text \<open>The conversions the program uses are \<open>%s\<close>, \<open>%d\<close>, \<open>%u\<close>, \<open>%X\<close> and \<open>%%\<close>.\<close>

fun vsprintf :: "string \<Rightarrow> printf_arg list \<Rightarrow> string option" where
  "vsprintf [] args = Some []"
| "vsprintf [c] args = (if c = CHR ''%'' then None else Some [c])"
| "vsprintf (c # d # template) args =
     (if c \<noteq> CHR ''%'' then map_option (Cons c) (vsprintf (d # template) args)
      else if d = CHR ''%'' then map_option (Cons c) (vsprintf template args)
      else case args of
          [] \<Rightarrow> None
        | a # args \<Rightarrow> do { s \<leftarrow> conversion d a; map_option (append s) (vsprintf template args) })"

lemma vsprintf_Cons: "c \<noteq> CHR ''%'' \<Longrightarrow> vsprintf (c # t) args = map_option (Cons c) (vsprintf t args)"
  by (cases t) auto

lemma vsprintf_plain: "CHR ''%'' \<notin> set s \<Longrightarrow> vsprintf (s @ t) args = map_option (append s) (vsprintf t args)"
  by (induction s; cases "vsprintf t args") (auto simp: vsprintf_Cons)

lemma dec_nat_bound: "n < 10 ^ k \<Longrightarrow> 0 < k \<Longrightarrow> length (dec_nat n) \<le> k"
proof (induction n arbitrary: k rule: dec_nat.induct)
  case (1 n)
  show ?case
  proof (cases "n < 10")
    case False
    then obtain j where j: "k = Suc j" "0 < j" using 1(2,3) by (cases k; cases "k - 1") auto
    then have "n div 10 < 10 ^ j" using 1(2) by (simp add: less_mult_imp_div_less mult.commute)
    with 1(1) [OF False this j(2)] False j show ?thesis by (simp add: dec_nat.simps [of n])
  qed (use 1(3) in \<open>simp add: dec_nat.simps [of n]\<close>)
qed

lemma decimal_bound: "- (2 ^ 31) \<le> n \<Longrightarrow> n < 2 ^ 32 \<Longrightarrow> length (decimal n) \<le> 11"
  using dec_nat_bound [of "nat (- n)" 10] dec_nat_bound [of "nat n" 10] by (cases "n < 0") (simp_all add: decimal_def nat_less_iff)

section \<open>error.c and temporal.c\<close>

definition error_show :: "string \<Rightarrow> string \<Rightarrow> printf_arg list \<Rightarrow> string option" where
  \<comment> \<open>What is on the console afterwards.\<close>
  "error_show consola message arguments = map_option (append consola) (vsprintf (string_append ''[[ERROR]]'' message) arguments)"

text \<open>\<open>%H:%M:%S\<close> of \<open>strftime\<close>.\<close>

definition two_digits :: "nat \<Rightarrow> string" where
  "two_digits n = [char_of (48 + n div 10 mod 10), char_of (48 + n mod 10)]"

text \<open>
  The clock: what \<open>localtime\<close> makes of \<open>time\<close> (hour, minute, second; \<open>None\<close> when \<open>time\<close> fails), and
  the milliseconds of \<open>ftime\<close> (\<open>None\<close> when it fails).
\<close>

type_synonym clock = "(nat \<times> nat \<times> nat) option \<times> u16 option"

definition temporal_get_string_time :: "clock \<Rightarrow> string \<Rightarrow> (string option \<times> string) option" where
  \<comment> \<open>The text, or \<open>NULL\<close>, and the console.\<close>
  "temporal_get_string_time clock consola = (case fst clock of
       None \<Rightarrow> map_option (Pair None) (error_show consola ''Error getting date!'' [])
     | Some (h, m, s) \<Rightarrow>
         (case snd clock of
            None \<Rightarrow> map_option (Pair None) (error_show consola ''Error getting time!'' [])
          | Some millitm \<Rightarrow>
              let partial_time = two_digits h @ '':'' @ two_digits m @ '':'' @ two_digits s;
                  str_time = partial_time @ '':'' @ dec_nat (unat millitm)
              in if length str_time \<le> 13 then Some (Some str_time, consola) else None))"

section \<open>log.c\<close>

type_synonym t_log_level = u32

abbreviation (input) LOG_LEVEL_TRACE :: t_log_level where "LOG_LEVEL_TRACE \<equiv> 0"
abbreviation (input) LOG_LEVEL_DEBUG :: t_log_level where "LOG_LEVEL_DEBUG \<equiv> 1"
abbreviation (input) LOG_LEVEL_INFO :: t_log_level where "LOG_LEVEL_INFO \<equiv> 2"
abbreviation (input) LOG_LEVEL_WARNING :: t_log_level where "LOG_LEVEL_WARNING \<equiv> 3"
abbreviation (input) LOG_LEVEL_ERROR :: t_log_level where "LOG_LEVEL_ERROR \<equiv> 4"

definition LOG_MAX_LENGTH_MESSAGE :: nat where
  "LOG_MAX_LENGTH_MESSAGE = 1024"

definition LOG_MAX_LENGTH_BUFFER :: nat where
  "LOG_MAX_LENGTH_BUFFER = LOG_MAX_LENGTH_MESSAGE + 100"

definition enum_names :: "string list" where
  "enum_names = [''TRACE'', ''DEBUG'', ''INFO'', ''WARNING'', ''ERROR'']"

text \<open>\<open>log_file\<close> is the content of the open file, \<open>None\<close> for \<open>NULL\<close>.\<close>

record t_log =
  log_file :: "string option"
  is_active_console :: bool
  detail :: t_log_level
  program_name :: string
  pid :: int

text \<open>\<open>fopen\<close> for appending gives what the file has, or fails; a logger that cannot be made is \<open>NULL\<close>.\<close>

definition log_create ::
  "(string \<Rightarrow> string option) \<Rightarrow> int \<Rightarrow> string option \<Rightarrow> string \<Rightarrow> bool \<Rightarrow> t_log_level \<Rightarrow> t_log option" where
  "log_create fopen getpid path name console level = (case path of
       None \<Rightarrow> Some \<lparr>log_file = None, is_active_console = console, detail = level, program_name = name, pid = getpid\<rparr>
     | Some path \<Rightarrow> do {
         opened \<leftarrow> fopen path;
         Some \<lparr>log_file = Some opened, is_active_console = console, detail = level, program_name = name, pid = getpid\<rparr> })"

definition log_destroy :: "t_log \<Rightarrow> string option" where
  \<comment> \<open>\<open>fclose\<close> of a logger without a file is undefined; the file keeps its content.\<close>
  "log_destroy logger = log_file logger"

definition log_level_as_string :: "t_log_level \<Rightarrow> string option" where
  "log_level_as_string level = (if unat level < length enum_names then Some (enum_names ! unat level) else None)"

definition log_level_from_string :: "string \<Rightarrow> t_log_level" where
  "log_level_from_string level =
     (case List.find (\<lambda>i. string_equals_ignore_case level (enum_names ! i)) [0..<length enum_names] of
        Some i \<Rightarrow> of_nat i
      | None \<Rightarrow> - 1)"

definition isEnableLevelInLogger :: "t_log \<Rightarrow> t_log_level \<Rightarrow> bool" where
  "isEnableLevelInLogger logger level \<longleftrightarrow> level \<ge> detail logger"

definition log_write_in_level ::
  "t_log \<Rightarrow> t_log_level \<Rightarrow> string \<Rightarrow> printf_arg list \<Rightarrow> clock \<Rightarrow> int \<Rightarrow> string \<Rightarrow> (t_log \<times> string) option" where
  "log_write_in_level logger level message_template arguments clock thread_id consola =
     (if isEnableLevelInLogger logger level then do {
        message \<leftarrow> vsprintf message_template arguments;
        _ \<leftarrow> (if length message \<le> LOG_MAX_LENGTH_MESSAGE then Some () else None);
        (time, consola) \<leftarrow> temporal_get_string_time clock consola;
        time \<leftarrow> time;
        name \<leftarrow> log_level_as_string level;
        buffer \<leftarrow> vsprintf (''[%s] %s %s/(%d:%d): %s'' @ [CHR 0x0A])
          [A_str name, A_str time, A_str (program_name logger), A_int (pid logger), A_int thread_id, A_str message];
        _ \<leftarrow> (if length buffer \<le> LOG_MAX_LENGTH_BUFFER then Some () else None);
        let logger = logger\<lparr>log_file := map_option (\<lambda>f. f @ buffer) (log_file logger)\<rparr>;
        Some (logger, if is_active_console logger then consola @ buffer else consola) }
      else Some (logger, consola))"

definition log_trace ::
  "t_log \<Rightarrow> string \<Rightarrow> printf_arg list \<Rightarrow> clock \<Rightarrow> int \<Rightarrow> string \<Rightarrow> (t_log \<times> string) option" where
  "log_trace logger = log_write_in_level logger LOG_LEVEL_TRACE"

definition log_debug ::
  "t_log \<Rightarrow> string \<Rightarrow> printf_arg list \<Rightarrow> clock \<Rightarrow> int \<Rightarrow> string \<Rightarrow> (t_log \<times> string) option" where
  "log_debug logger = log_write_in_level logger LOG_LEVEL_DEBUG"

definition log_info ::
  "t_log \<Rightarrow> string \<Rightarrow> printf_arg list \<Rightarrow> clock \<Rightarrow> int \<Rightarrow> string \<Rightarrow> (t_log \<times> string) option" where
  "log_info logger = log_write_in_level logger LOG_LEVEL_INFO"

definition log_warning ::
  "t_log \<Rightarrow> string \<Rightarrow> printf_arg list \<Rightarrow> clock \<Rightarrow> int \<Rightarrow> string \<Rightarrow> (t_log \<times> string) option" where
  "log_warning logger = log_write_in_level logger LOG_LEVEL_WARNING"

definition log_error ::
  "t_log \<Rightarrow> string \<Rightarrow> printf_arg list \<Rightarrow> clock \<Rightarrow> int \<Rightarrow> string \<Rightarrow> (t_log \<times> string) option" where
  "log_error logger = log_write_in_level logger LOG_LEVEL_ERROR"

section \<open>Lines of the log\<close>

definition clock_time :: "nat \<Rightarrow> nat \<Rightarrow> nat \<Rightarrow> u16 \<Rightarrow> string" where
  "clock_time h m s ms = two_digits h @ '':'' @ two_digits m @ '':'' @ two_digits s @ '':'' @ dec_nat (unat ms)"

definition log_line :: "t_log \<Rightarrow> t_log_level \<Rightarrow> string \<Rightarrow> int \<Rightarrow> string \<Rightarrow> string" where
  "log_line logger level time thread_id message =
     ''['' @ enum_names ! unat level @ ''] '' @ time @ '' '' @ program_name logger @ ''/('' @ decimal (pid logger) @ '':'' @
     decimal thread_id @ ''): '' @ message @ [CHR 0x0A]"

lemma log_template:
  "vsprintf (''[%s] %s %s/(%d:%d): %s'' @ [CHR 0x0A])
     [A_str name, A_str time, A_str prog, A_int p, A_int thread_id, A_str message] =
   Some (''['' @ name @ ''] '' @ time @ '' '' @ prog @ ''/('' @ decimal p @ '':'' @ decimal thread_id @ ''): '' @ message @ [CHR 0x0A])"
  by (simp add: conversion_def)

lemma level_name: "level \<le> LOG_LEVEL_ERROR \<Longrightarrow> log_level_as_string level = Some (enum_names ! unat level) \<and> length (enum_names ! unat level) \<le> 7"
proof -
  assume "level \<le> LOG_LEVEL_ERROR"
  then have "unat level \<in> {0, 1, 2, 3, 4}" by (auto simp: word_le_nat_alt)
  then show ?thesis by (auto simp: log_level_as_string_def enum_names_def)
qed

lemma clock_text:
  assumes "unat ms < 1000"
  shows "temporal_get_string_time (Some (h, m, s), Some ms) consola = Some (Some (clock_time h m s ms), consola)"
    and "length (clock_time h m s ms) \<le> 12"
  using dec_nat_bound [of "unat ms" 3] assms by (simp_all add: temporal_get_string_time_def clock_time_def two_digits_def)

lemma log_line_bound:
  assumes "level \<le> LOG_LEVEL_ERROR" and "length time \<le> 12" and "length (program_name logger) \<le> 48"
    and "- (2 ^ 31) \<le> pid logger" "pid logger < 2 ^ 31" "- (2 ^ 31) \<le> thread_id" "thread_id < 2 ^ 31" and "length message \<le> 1024"
  shows "length (log_line logger level time thread_id message) \<le> LOG_MAX_LENGTH_BUFFER"
  using decimal_bound [of "pid logger"] decimal_bound [of thread_id] conjunct2 [OF level_name [OF assms(1)]] assms(2-8)
  by (simp add: log_line_def LOG_MAX_LENGTH_BUFFER_def LOG_MAX_LENGTH_MESSAGE_def)

lemma level_names_read_back: "level \<le> LOG_LEVEL_ERROR \<Longrightarrow> log_level_from_string (string_to_lower (enum_names ! unat level)) = level"
proof -
  assume "level \<le> LOG_LEVEL_ERROR"
  then have "unat level \<in> {0, 1, 2, 3, 4}" by (auto simp: word_le_nat_alt)
  then have "level \<in> {0, 1, 2, 3, 4}" by (auto simp: word_unat_eq_iff)
  then show ?thesis
    by (auto simp: log_level_from_string_def enum_names_def string_equals_ignore_case_def tolower_def upt_rec string_to_lower_def string_do_def)
qed

lemma log_call:
  assumes "level \<le> LOG_LEVEL_ERROR" and "unat ms < 1000" and "length (program_name logger) \<le> 48"
    and "- (2 ^ 31) \<le> pid logger" "pid logger < 2 ^ 31" "- (2 ^ 31) \<le> thread_id" "thread_id < 2 ^ 31"
  shows "log_write_in_level logger level template args (Some (h, m, s), Some ms) thread_id consola =
    (if level < detail logger then Some (logger, consola)
     else case vsprintf template args of
         None \<Rightarrow> None
       | Some message \<Rightarrow>
           if length message \<le> 1024 then
             let line = log_line logger level (clock_time h m s ms) thread_id message
             in Some (logger\<lparr>log_file := map_option (\<lambda>f. f @ line) (log_file logger)\<rparr>,
                  if is_active_console logger then consola @ line else consola)
           else None)"
proof (cases "\<exists>message. vsprintf template args = Some message \<and> length message \<le> 1024")
  case True
  then obtain message where m: "vsprintf template args = Some message" "length message \<le> 1024" by blast
  note b = log_line_bound [OF assms(1) clock_text(2) [OF assms(2)] assms(3-7) m(2), unfolded log_line_def, of h m s]
  show ?thesis
    using m b unfolding log_write_in_level_def log_template
    by (simp add: isEnableLevelInLogger_def clock_text(1) [OF assms(2)] level_name [OF assms(1)] log_line_def Let_def LOG_MAX_LENGTH_MESSAGE_def not_less)
next
  case False
  then show ?thesis
    by (cases "vsprintf template args") (auto simp: log_write_in_level_def isEnableLevelInLogger_def LOG_MAX_LENGTH_MESSAGE_def)
qed

section \<open>Properties\<close>

text \<open>
  What a log call leaves behind. A call below the level of the logger changes nothing. With
  a working clock, a message of at most 1024 characters and a program name of at most 48, the
  line with level, time, program, process and thread is appended to the log file, and to the
  console when that is active, and every buffer is large enough. A longer message runs over
  the buffer, and a template that asks for arguments that are not there is undefined.
\<close>

theorem log_call_appends_line:
  assumes "level \<le> LOG_LEVEL_ERROR" and "unat ms < 1000" and "length (program_name logger) \<le> 48"
    and "- (2 ^ 31) \<le> pid logger" "pid logger < 2 ^ 31" "- (2 ^ 31) \<le> thread_id" "thread_id < 2 ^ 31"
  shows "log_write_in_level logger level template args (Some (h, m, s), Some ms) thread_id consola =
    (if level < detail logger then Some (logger, consola)
     else case vsprintf template args of
         None \<Rightarrow> None
       | Some message \<Rightarrow>
           if length message \<le> 1024 then
             let line = log_line logger level (clock_time h m s ms) thread_id message
             in Some (logger\<lparr>log_file := map_option (\<lambda>f. f @ line) (log_file logger)\<rparr>,
                  if is_active_console logger then consola @ line else consola)
           else None)"
  by (rule log_call [OF assms])

definition demo_log :: t_log where
  "demo_log = \<lparr>log_file = Some '''', is_active_console = True, detail = LOG_LEVEL_DEBUG, program_name = ''srv'', pid = 7\<rparr>"

lemma log_call_appends_line_witness:
  "log_write_in_level demo_log LOG_LEVEL_INFO ''%s %d'' [A_str ''read'', A_int 42] (Some (9, 5, 30), Some 250) 3 '''' =
     (let line = ''[INFO] 09:05:30:250 srv/(7:3): read 42'' @ [CHR 0x0A]
      in Some (demo_log\<lparr>log_file := Some line\<rparr>, line)) \<and>
   log_write_in_level demo_log LOG_LEVEL_TRACE ''%s %d'' [A_str ''read'', A_int 42] (Some (9, 5, 30), Some 250) 3 '''' = Some (demo_log, '''')"
proof -
  have small: "length (program_name demo_log) \<le> 48" "- (2 ^ 31) \<le> pid demo_log" "pid demo_log < 2 ^ 31" by (simp_all add: demo_log_def)
  note use = log_call_appends_line [OF _ _ small, where thread_id = 3 and template = "''%s %d''" and args = "[A_str ''read'', A_int 42]"
      and ms = 250 and h = 9 and m = 5 and s = 30 and consola = "''''"]
  show ?thesis
    using use [of LOG_LEVEL_INFO] use [of LOG_LEVEL_TRACE]
    by (simp add: demo_log_def conversion_def decimal_def dec_nat.simps log_line_def clock_time_def two_digits_def enum_names_def Let_def char_of_def bit_Suc_0_iff)
qed

end
