(* ===== verification/Dictionary.thy ===== *)
theory Dictionary
  imports Strings
begin

text \<open>
  \<^verbatim>\<open>rfs/commons/collections/dictionary.c\<close>, the hash table under \<^verbatim>\<open>commons/config.c\<close>, and the
  configuration reader itself. A chain of \<open>t_hash_element\<close> nodes belongs to one bucket only,
  so a bucket is a HOL list and \<open>NULL\<close> is the empty one; \<open>data\<close> is an option because the
  pointer a client stores may be \<open>NULL\<close>. The interface \<open>keyed_sequences\<close> states what the table
  promises: one first-in-first-out sequence of values for each hash code.
\<close>

unbundle bit_operations_syntax

section \<open>The hash table\<close>

record 'd t_hash_element =
  key :: string
  hashcode :: u32
  data :: "'d option"

record 'd t_dictionary =
  buckets :: "'d t_hash_element list list"
  table_max_size :: nat
  table_current_size :: int
  elements_amount :: int

definition DEFAULT_DICTIONARY_INITIAL_SIZE :: nat where
  "DEFAULT_DICTIONARY_INITIAL_SIZE = 20"

definition dictionary_create :: "'d t_dictionary" where
  "dictionary_create =
     \<lparr>buckets = replicate DEFAULT_DICTIONARY_INITIAL_SIZE [],
      table_max_size = DEFAULT_DICTIONARY_INITIAL_SIZE,
      table_current_size = 0, elements_amount = 0\<rparr>"

fun dictionary_hash_loop :: "string \<Rightarrow> u32 \<Rightarrow> u32" where
  "dictionary_hash_loop [] hash = hash"
| "dictionary_hash_loop (c # cs) hash =
     (let hash = hash + of_nat (of_char c);
          hash = hash + push_bit 10 hash;
          hash = hash XOR drop_bit 6 hash
      in dictionary_hash_loop cs hash)"

definition dictionary_hash :: "string \<Rightarrow> u32" where
  "dictionary_hash k =
     (let hash = dictionary_hash_loop k 0;
          hash = hash + push_bit 3 hash;
          hash = hash XOR drop_bit 11 hash
      in hash + push_bit 15 hash)"

definition dictionary_create_element :: "string \<Rightarrow> u32 \<Rightarrow> 'd option \<Rightarrow> 'd t_hash_element" where
  "dictionary_create_element k key_hash d = \<lparr>key = k, hashcode = key_hash, data = d\<rparr>"

text \<open>
  \<open>dictionary_resize\<close> walks the old buckets in order and hangs every element at the end of
  its chain in the new table; the first element of a chain counts as a used bucket.
\<close>

definition rehash_element ::
  "nat \<Rightarrow> 'd t_hash_element \<Rightarrow> 'd t_hash_element list list \<times> int \<Rightarrow> 'd t_hash_element list list \<times> int"
where
  "rehash_element new_max_size old_element = (\<lambda>(new_table, used).
     let new_index = unat (hashcode old_element) mod new_max_size;
         new_element = new_table ! new_index
     in (new_table[new_index := new_element @ [old_element]],
         if new_element = [] then used + 1 else used))"

definition dictionary_resize :: "'d t_dictionary \<Rightarrow> nat \<Rightarrow> 'd t_dictionary" where
  "dictionary_resize self new_max_size =
     (let (new_table, used) =
        fold (rehash_element new_max_size) (concat (buckets self)) (replicate new_max_size [], 0)
      in self\<lparr>buckets := new_table, table_max_size := new_max_size, table_current_size := used\<rparr>)"

definition dictionary_put :: "'d t_dictionary \<Rightarrow> string \<Rightarrow> 'd option \<Rightarrow> 'd t_dictionary" where
  "dictionary_put self k d =
     (let key_hash = dictionary_hash k;
          index = unat key_hash mod table_max_size self;
          new_element = dictionary_create_element k key_hash d;
          element = buckets self ! index;
          self = self\<lparr>buckets := (buckets self)[index := element @ [new_element]]\<rparr>;
          self =
            (if element = [] then
               let self = self\<lparr>table_current_size := table_current_size self + 1\<rparr>
               in if table_current_size self \<ge> int (table_max_size self)
                  then dictionary_resize self (table_max_size self * 2) else self
             else self)
      in self\<lparr>elements_amount := elements_amount self + 1\<rparr>)"

definition dictionary_get_element :: "'d t_dictionary \<Rightarrow> string \<Rightarrow> 'd t_hash_element option" where
  "dictionary_get_element self k =
     (let key_hash = dictionary_hash k;
          index = unat key_hash mod table_max_size self
      in List.find (\<lambda>e. hashcode e = key_hash) (buckets self ! index))"

definition dictionary_get :: "'d t_dictionary \<Rightarrow> string \<Rightarrow> 'd option" where
  "dictionary_get self k =
     (case dictionary_get_element self k of Some element \<Rightarrow> data element | None \<Rightarrow> None)"

fun unlink_after :: "u32 \<Rightarrow> 'd t_hash_element list \<Rightarrow> 'd option \<times> 'd t_hash_element list" where
  "unlink_after key_hash [] = (None, [])"
| "unlink_after key_hash (e # es) =
     (if hashcode e = key_hash then (data e, es)
      else let (d, es') = unlink_after key_hash es in (d, e # es'))"

definition dictionary_remove_element :: "'d t_dictionary \<Rightarrow> string \<Rightarrow> 'd option \<times> 'd t_dictionary" where
  "dictionary_remove_element self k =
     (let key_hash = dictionary_hash k;
          index = unat key_hash mod table_max_size self
      in case buckets self ! index of
           [] \<Rightarrow> (None, self)
         | element # next \<Rightarrow>
             if hashcode element = key_hash then
               let self = self\<lparr>buckets := (buckets self)[index := next]\<rparr>
               in (data element,
                   if next = [] then self\<lparr>table_current_size := table_current_size self - 1\<rparr>
                   else self)
             else
               let (d, next') = unlink_after key_hash next
               in (d, self\<lparr>buckets := (buckets self)[index := element # next']\<rparr>))"

definition dictionary_remove :: "'d t_dictionary \<Rightarrow> string \<Rightarrow> 'd option \<times> 'd t_dictionary" where
  "dictionary_remove self k =
     (let (d, self) = dictionary_remove_element self k
      in (d, if d \<noteq> None then self\<lparr>elements_amount := elements_amount self - 1\<rparr> else self))"

text \<open>The second component is what is handed to the destructor.\<close>

definition dictionary_remove_and_destroy ::
  "'d t_dictionary \<Rightarrow> string \<Rightarrow> 'd t_dictionary \<times> 'd option" where
  "dictionary_remove_and_destroy self k =
     (let (d, self) = dictionary_remove_element self k
      in if d \<noteq> None then (self\<lparr>elements_amount := elements_amount self - 1\<rparr>, d) else (self, None))"

text \<open>
  \<open>dictionary_iterator\<close> passes the element itself to the closure, not its data, and its loop never
  advances \<open>element\<close>: on a chain of two or more elements it calls the closure on the first one for
  ever (\<open>None\<close>).
\<close>

partial_function (option) iterate_chain ::
  "(string \<Rightarrow> 'd t_hash_element \<Rightarrow> 's \<Rightarrow> 's) \<Rightarrow> 'd t_hash_element list \<Rightarrow> 's \<Rightarrow> 's option" where
  "iterate_chain closure chain s =
     (case chain of [] \<Rightarrow> Some s
      | element # next_elements \<Rightarrow>
          let s = closure (key element) element s
          in if next_elements \<noteq> [] then iterate_chain closure chain s else Some s)"

fun dictionary_iterator_loop ::
  "(string \<Rightarrow> 'd t_hash_element \<Rightarrow> 's \<Rightarrow> 's) \<Rightarrow> 'd t_hash_element list list \<Rightarrow> 's \<Rightarrow> 's option" where
  "dictionary_iterator_loop closure [] s = Some s"
| "dictionary_iterator_loop closure (b # bs) s =
     Option.bind (iterate_chain closure b s) (dictionary_iterator_loop closure bs)"

definition dictionary_iterator ::
  "'d t_dictionary \<Rightarrow> (string \<Rightarrow> 'd t_hash_element \<Rightarrow> 's \<Rightarrow> 's) \<Rightarrow> 's \<Rightarrow> 's option" where
  "dictionary_iterator self closure s = dictionary_iterator_loop closure (buckets self) s"

text \<open>The second component lists what \<open>data_destroyer\<close> is called on, in order.\<close>

definition dictionary_clean :: "'d t_dictionary \<Rightarrow> 'd t_dictionary \<times> 'd option list" where
  "dictionary_clean self =
     (self\<lparr>buckets := map (\<lambda>_. []) (buckets self), table_current_size := 0, elements_amount := 0\<rparr>,
      map data (concat (buckets self)))"

definition dictionary_has_key :: "'d t_dictionary \<Rightarrow> string \<Rightarrow> bool" where
  "dictionary_has_key self k \<longleftrightarrow> dictionary_get_element self k \<noteq> None"

definition dictionary_is_empty :: "'d t_dictionary \<Rightarrow> bool" where
  "dictionary_is_empty self \<longleftrightarrow> elements_amount self = 0"

definition dictionary_size :: "'d t_dictionary \<Rightarrow> int" where
  "dictionary_size self = elements_amount self"

section \<open>commons/config.c\<close>

record t_config =
  conf_path :: string
  properties :: "string t_dictionary"

text \<open>
  \<open>add_cofiguration\<close> reads \<open>keyAndValue[0]\<close> and \<open>keyAndValue[1]\<close>. \<open>string_split\<close> returns a
  \<open>NULL\<close>-terminated array: a line with no \<open>=\<close> gives \<open>NULL\<close> as its value, and a line made of
  separators only has no key at all, which \<open>dictionary_put\<close> then dereferences (\<open>None\<close>).
\<close>

definition add_cofiguration :: "string \<Rightarrow> string t_dictionary \<Rightarrow> string t_dictionary option" where
  "add_cofiguration line props =
     (if \<not> string_starts_with line ''#'' then
        case string_split line ''='' of
          [] \<Rightarrow> None
        | [k] \<Rightarrow> Some (dictionary_put props k None)
        | k # v # _ \<Rightarrow> Some (dictionary_put props k (Some v))
      else Some props)"

fun string_iterate_lines ::
  "string list \<Rightarrow> (string \<Rightarrow> 's \<Rightarrow> 's option) \<Rightarrow> 's \<Rightarrow> 's option" where
  "string_iterate_lines [] closure s = Some s"
| "string_iterate_lines (l # ls) closure s = Option.bind (closure l s) (string_iterate_lines ls closure)"

text \<open>The second argument is the file's contents, \<open>None\<close> when it cannot be opened.\<close>

definition config_create :: "string \<Rightarrow> string option \<Rightarrow> t_config option" where
  "config_create p file =
     (case file of
        None \<Rightarrow> Some \<lparr>conf_path = p, properties = dictionary_create\<rparr>
      | Some buffer \<Rightarrow> do {
          props \<leftarrow> string_iterate_lines (string_split buffer [CHR 10]) add_cofiguration dictionary_create;
          Some \<lparr>conf_path = p, properties = props\<rparr>
        })"

definition config_has_property :: "t_config \<Rightarrow> string \<Rightarrow> bool" where
  "config_has_property self k \<longleftrightarrow> dictionary_has_key (properties self) k"

definition config_get_string_value :: "t_config \<Rightarrow> string \<Rightarrow> string option" where
  "config_get_string_value self k = dictionary_get (properties self) k"

text \<open>\<open>atoi\<close> and \<open>atol\<close>: blanks, an optional sign, then digits as long as there are any. A value
  that does not fit the C type is undefined there and unbounded here. A missing property is a
  \<open>NULL\<close> argument (\<open>None\<close>).\<close>

definition digit :: "char \<Rightarrow> bool" where
  "digit c \<longleftrightarrow> 48 \<le> (of_char c :: nat) \<and> (of_char c :: nat) \<le> 57"

definition digits_value :: "string \<Rightarrow> int" where
  "digits_value s = foldl (\<lambda>v c. 10 * v + (of_char c - 48)) 0 (takeWhile digit s)"

definition atoi :: "string \<Rightarrow> int" where
  "atoi s = (case dropWhile isspace s of
       [] \<Rightarrow> 0
     | c # cs \<Rightarrow>
         if c = CHR ''-'' then - digits_value cs
         else if c = CHR ''+'' then digits_value cs
         else digits_value (c # cs))"

definition config_get_int_value :: "t_config \<Rightarrow> string \<Rightarrow> int option" where
  "config_get_int_value self k = map_option atoi (config_get_string_value self k)"

definition config_get_long_value :: "t_config \<Rightarrow> string \<Rightarrow> int option" where
  "config_get_long_value self k = map_option atoi (config_get_string_value self k)"

definition config_keys_amount :: "t_config \<Rightarrow> int" where
  "config_keys_amount self = dictionary_size (properties self)"

section \<open>The table as keyed sequences\<close>

definition dict_ok :: "'d t_dictionary \<Rightarrow> bool" where
  "dict_ok self \<longleftrightarrow> 0 < table_max_size self \<and> length (buckets self) = table_max_size self \<and>
     (\<forall>i < table_max_size self. \<forall>e \<in> set (buckets self ! i). unat (hashcode e) mod table_max_size self = i) \<and>
     table_current_size self = int (length (filter (\<lambda>b. b \<noteq> []) (buckets self)))"

definition hash_sequence :: "'d t_dictionary \<Rightarrow> u32 \<Rightarrow> 'd option list" where
  "hash_sequence self h = map data (filter (\<lambda>e. hashcode e = h) (concat (buckets self)))"

lemma filter_concat_bucket:
  assumes "i < length bs" and "\<And>j. j < length bs \<Longrightarrow> j \<noteq> i \<Longrightarrow> filter P (bs ! j) = []"
  shows "filter P (concat bs) = filter P (bs ! i)"
proof -
  have "bs = take i bs @ bs ! i # drop (Suc i) bs" using assms(1) by (rule id_take_nth_drop)
  moreover have "filter P b = []" if "b \<in> set (take i bs) \<union> set (drop (Suc i) bs)" for b
    using that assms by (force simp: in_set_conv_nth)
  then have "filter P (concat (take i bs)) = []" "filter P (concat (drop (Suc i) bs)) = []"
    by (force simp: filter_empty_conv)+
  ultimately show ?thesis by (metis append.left_neutral append.right_neutral concat.simps(2) concat_append filter_append)
qed

lemma bucket_filter:
  assumes "dict_ok self"
  shows "filter (\<lambda>e. hashcode e = h) (concat (buckets self)) =
    filter (\<lambda>e. hashcode e = h) (buckets self ! (unat h mod table_max_size self))"
  using assms by (intro filter_concat_bucket) (auto simp: dict_ok_def filter_empty_conv)

lemma hash_sequence_bucket:
  "dict_ok self \<Longrightarrow> hash_sequence self h =
    map data (filter (\<lambda>e. hashcode e = h) (buckets self ! (unat h mod table_max_size self)))"
  by (simp add: hash_sequence_def bucket_filter)

lemma int_length_filter_update:
  "i < length xs \<Longrightarrow> int (length (filter P (xs[i := x]))) =
    int (length (filter P xs)) - (if P (xs ! i) then 1 else 0) + (if P x then 1 else 0)"
  using length_filter_update [of i xs P x] by (auto split: if_splits)

lemma rehash_fold:
  assumes "0 < n"
  shows "fold (rehash_element n) es (replicate n [], 0) =
    (map (\<lambda>i. filter (\<lambda>e. unat (hashcode e) mod n = i) es) [0..<n],
     int (length (filter (\<lambda>b. b \<noteq> []) (map (\<lambda>i. filter (\<lambda>e. unat (hashcode e) mod n = i) es) [0..<n]))))"
proof (induction es rule: rev_induct)
  case Nil
  then show ?case by (auto intro: nth_equalityI simp: filter_empty_conv)
next
  case (snoc e es)
  let ?t = "map (\<lambda>i. filter (\<lambda>e. unat (hashcode e) mod n = i) es) [0..<n]"
  let ?i = "unat (hashcode e) mod n"
  have i: "?i < n" using assms by simp
  have upd: "map (\<lambda>i. filter (\<lambda>e. unat (hashcode e) mod n = i) (es @ [e])) [0..<n] = ?t[?i := ?t ! ?i @ [e]]"
    using i by (auto intro!: nth_equalityI simp: nth_list_update)
  show ?case
    unfolding upd using snoc i
    by (simp add: rehash_element_def Let_def int_length_filter_update)
qed

lemma resize_ok:
  assumes "0 < n"
  shows "dict_ok (dictionary_resize self n)"
    and "hash_sequence (dictionary_resize self n) = hash_sequence self"
    and "elements_amount (dictionary_resize self n) = elements_amount self"
proof -
  let ?t = "map (\<lambda>i. filter (\<lambda>e. unat (hashcode e) mod n = i) (concat (buckets self))) [0..<n]"
  have r: "dictionary_resize self n = self\<lparr>buckets := ?t, table_max_size := n,
      table_current_size := int (length (filter (\<lambda>b. b \<noteq> []) ?t))\<rparr>"
    using assms by (simp add: dictionary_resize_def rehash_fold)
  show ok: "dict_ok (dictionary_resize self n)"
    unfolding r using assms by (simp add: dict_ok_def)
  show "elements_amount (dictionary_resize self n) = elements_amount self" by (simp add: r)
  show "hash_sequence (dictionary_resize self n) = hash_sequence self"
  proof
    fix h :: u32
    have "unat h mod n < n" using assms by simp
    then show "hash_sequence (dictionary_resize self n) h = hash_sequence self h"
      unfolding hash_sequence_bucket [OF ok] by (simp add: r hash_sequence_def cong: conj_cong)
        (metis (mono_tags, lifting))
  qed
qed

lemma bucket_update_ok:
  assumes "dict_ok self" and i: "i < table_max_size self"
    and "\<forall>e \<in> set b. unat (hashcode e) mod table_max_size self = i"
  shows "dict_ok (self\<lparr>buckets := (buckets self)[i := b],
    table_current_size := table_current_size self - (if buckets self ! i = [] then 0 else 1)
      + (if b = [] then 0 else 1)\<rparr>)"
  using assms unfolding dict_ok_def by (auto simp: nth_list_update int_length_filter_update)

lemma put_ok:
  assumes ok: "dict_ok self"
  shows "dict_ok (dictionary_put self k d)"
    and "hash_sequence (dictionary_put self k d) h =
      hash_sequence self h @ (if h = dictionary_hash k then [d] else [])"
    and "elements_amount (dictionary_put self k d) = elements_amount self + 1"
proof -
  let ?n = "table_max_size self" and ?h = "dictionary_hash k"
  let ?i = "unat ?h mod ?n" and ?e = "dictionary_create_element k ?h d"
  let ?used = "table_current_size self + (if buckets self ! ?i = [] then 1 else 0)"
  define s where "s = self\<lparr>buckets := (buckets self)[?i := buckets self ! ?i @ [?e]], table_current_size := ?used\<rparr>"
  have n: "0 < ?n" and i: "?i < ?n" and len: "length (buckets self) = ?n"
    using ok by (auto simp: dict_ok_def)
  have "\<forall>e \<in> set (buckets self ! ?i @ [?e]). unat (hashcode e) mod ?n = ?i"
    using ok i by (simp add: dict_ok_def dictionary_create_element_def)
  from bucket_update_ok [OF ok i this] have s_ok: "dict_ok s"
    by (cases "buckets self ! ?i = []") (simp_all add: s_def)
  have s_seq: "hash_sequence s h = hash_sequence self h @ (if h = ?h then [d] else [])" for h
    unfolding hash_sequence_bucket [OF s_ok] hash_sequence_bucket [OF ok]
    using i len by (auto simp: s_def nth_list_update dictionary_create_element_def)
  have put: "dictionary_put self k d =
      (if buckets self ! ?i = [] \<and> ?used \<ge> int ?n then dictionary_resize s (?n * 2) else s)
        \<lparr>elements_amount := elements_amount self + 1\<rparr>"
    using n by (cases "buckets self ! ?i = []") (simp_all add: dictionary_put_def Let_def s_def resize_ok(3))
  have amount: "dict_ok (t\<lparr>elements_amount := a\<rparr>) = dict_ok t"
    "hash_sequence (t\<lparr>elements_amount := a\<rparr>) h = hash_sequence t h" for t :: "'d t_dictionary" and a h
    by (simp_all add: dict_ok_def hash_sequence_def)
  show "dict_ok (dictionary_put self k d)" "elements_amount (dictionary_put self k d) = elements_amount self + 1"
    using s_ok resize_ok(1) [of "?n * 2" s] n by (simp_all add: put amount)
  show "hash_sequence (dictionary_put self k d) h =
      hash_sequence self h @ (if h = ?h then [d] else [])"
    using s_seq resize_ok(2) [of "?n * 2" s] n by (simp add: put amount)
qed

lemma unlink_after_filter:
  "fst (unlink_after h es) = (case filter (\<lambda>e. hashcode e = h) es of [] \<Rightarrow> None | e # _ \<Rightarrow> data e)"
  "filter (\<lambda>e. hashcode e = h) (snd (unlink_after h es)) = tl (filter (\<lambda>e. hashcode e = h) es)"
  "g \<noteq> h \<Longrightarrow> filter (\<lambda>e. hashcode e = g) (snd (unlink_after h es)) = filter (\<lambda>e. hashcode e = g) es"
  "set (snd (unlink_after h es)) \<subseteq> set es"
  by (induction es) (auto simp: case_prod_beta)

lemma remove_element_unlinks:
  "dictionary_remove_element self k =
    (let h = dictionary_hash k; i = unat h mod table_max_size self; b = buckets self ! i;
         b' = snd (unlink_after h b)
     in (fst (unlink_after h b),
         if b = [] then self
         else self\<lparr>buckets := (buckets self)[i := b'],
           table_current_size := table_current_size self - 1 + (if b' = [] then 0 else 1)\<rparr>))"
  by (auto simp: dictionary_remove_element_def Let_def case_prod_beta split: list.splits)

lemma remove_ok:
  assumes ok: "dict_ok self"
  shows "dict_ok (snd (dictionary_remove self k))"
    and "fst (dictionary_remove self k) =
      (case hash_sequence self (dictionary_hash k) of [] \<Rightarrow> None | d # _ \<Rightarrow> d)"
    and "hash_sequence (snd (dictionary_remove self k)) h =
      (if h = dictionary_hash k then tl (hash_sequence self h) else hash_sequence self h)"
proof -
  let ?h = "dictionary_hash k"
  let ?i = "unat ?h mod table_max_size self"
  let ?b = "buckets self ! ?i"
  define s where "s = snd (dictionary_remove_element self k)"
  have i: "?i < table_max_size self" and len: "length (buckets self) = table_max_size self"
    using ok by (auto simp: dict_ok_def)
  have sub: "\<forall>e \<in> set (snd (unlink_after ?h ?b)). unat (hashcode e) mod table_max_size self = ?i"
    using unlink_after_filter(4) [of ?h ?b] ok i by (auto simp: dict_ok_def)
  have s_ok: "dict_ok s"
    using bucket_update_ok [OF ok i sub] ok unfolding s_def remove_element_unlinks Let_def
    by (cases "?b = []"; cases "snd (unlink_after ?h ?b) = []") simp_all
  have amount: "dict_ok (t\<lparr>elements_amount := a\<rparr>) = dict_ok t"
    "hash_sequence (t\<lparr>elements_amount := a\<rparr>) h = hash_sequence t h" for t :: "'a t_dictionary" and a h
    by (simp_all add: dict_ok_def hash_sequence_def)
  show "dict_ok (snd (dictionary_remove self k))"
    using s_ok by (simp add: dictionary_remove_def case_prod_beta amount s_def)
  show "fst (dictionary_remove self k) = (case hash_sequence self ?h of [] \<Rightarrow> None | d # _ \<Rightarrow> d)"
    by (simp add: dictionary_remove_def case_prod_beta remove_element_unlinks Let_def
        unlink_after_filter hash_sequence_bucket [OF ok] split: list.splits)
  have "hash_sequence s h = (if h = ?h then tl (hash_sequence self h) else hash_sequence self h)"
    unfolding hash_sequence_bucket [OF s_ok] hash_sequence_bucket [OF ok]
    using i len by (auto simp: s_def remove_element_unlinks Let_def nth_list_update
        unlink_after_filter map_tl)
  then show "hash_sequence (snd (dictionary_remove self k)) h =
      (if h = ?h then tl (hash_sequence self h) else hash_sequence self h)"
    by (auto simp: dictionary_remove_def case_prod_beta amount s_def)
qed

lemma find_filter: "List.find P xs = (case filter P xs of [] \<Rightarrow> None | x # _ \<Rightarrow> Some x)"
  by (induction xs) auto

lemma get_sequence:
  assumes "dict_ok self"
  shows "dictionary_get self k = (case hash_sequence self (dictionary_hash k) of [] \<Rightarrow> None | d # _ \<Rightarrow> d)"
    and "dictionary_has_key self k \<longleftrightarrow> hash_sequence self (dictionary_hash k) \<noteq> []"
  by (simp_all add: dictionary_get_def dictionary_has_key_def dictionary_get_element_def Let_def
      hash_sequence_bucket [OF assms] find_filter split: list.splits)

section \<open>The interface\<close>

locale keyed_sequences =
  fixes create :: 't
    and put :: "'t \<Rightarrow> 'k \<Rightarrow> 'v option \<Rightarrow> 't"
    and get :: "'t \<Rightarrow> 'k \<Rightarrow> 'v option"
    and remove :: "'t \<Rightarrow> 'k \<Rightarrow> 'v option \<times> 't"
    and code :: "'k \<Rightarrow> 'h"
    and sequence :: "'t \<Rightarrow> 'h \<Rightarrow> 'v option list"
    and inv :: "'t \<Rightarrow> bool"
  assumes create_inv: "inv create" and create_sequence: "sequence create h = []"
    and put_inv: "inv t \<Longrightarrow> inv (put t k v)"
    and put_sequence: "inv t \<Longrightarrow> sequence (put t k v) h = sequence t h @ (if h = code k then [v] else [])"
    and get_first: "inv t \<Longrightarrow> get t k = (case sequence t (code k) of [] \<Rightarrow> None | v # _ \<Rightarrow> v)"
    and remove_inv: "inv t \<Longrightarrow> inv (snd (remove t k))"
    and remove_first_value: "inv t \<Longrightarrow> fst (remove t k) = get t k"
    and remove_sequence: "inv t \<Longrightarrow> sequence (snd (remove t k)) h =
      (if h = code k then tl (sequence t h) else sequence t h)"
begin

lemma put_all_inv: "inv t \<Longrightarrow> inv (foldl (\<lambda>t (k, v). put t k v) t kvs)"
  by (induction kvs arbitrary: t) (auto simp: put_inv)

lemma put_all_sequence:
  "inv t \<Longrightarrow> sequence (foldl (\<lambda>t (k, v). put t k v) t kvs) h = sequence t h @ map snd (filter (\<lambda>(k, v). h = code k) kvs)"
  by (induction kvs arbitrary: t) (auto simp: put_inv put_sequence)

lemma get_put_all:
  assumes "inv t" and "sequence t (code k) = []" and "(k, v) \<in> set kvs" and "distinct (map (code \<circ> fst) kvs)"
  shows "get (foldl (\<lambda>t (k, v). put t k v) t kvs) k = v"
proof -
  obtain xs ys where kvs: "kvs = xs @ (k, v) # ys" using split_list [OF assms(3)] by auto
  with assms(4) have "code k \<notin> (code \<circ> fst) ` set xs" "code k \<notin> (code \<circ> fst) ` set ys" by auto
  then have "filter (\<lambda>(k', v). code k = code k') xs = []" "filter (\<lambda>(k', v). code k = code k') ys = []"
    by (auto simp: filter_empty_conv image_iff)
  then have "filter (\<lambda>(k', v). code k = code k') kvs = [(k, v)]" by (simp add: kvs)
  then show ?thesis
    using assms(1,2) by (simp add: get_first put_all_inv put_all_sequence)
qed

lemma get_put_new: "inv t \<Longrightarrow> sequence t (code k) = [] \<Longrightarrow> get (put t k v) k = v"
  by (simp add: get_first put_inv put_sequence)

lemma get_put_other: "inv t \<Longrightarrow> code k \<noteq> code k' \<Longrightarrow> get (put t k v) k' = get t k'"
  by (simp add: get_first put_inv put_sequence)

lemma get_put_shadowed: "inv t \<Longrightarrow> sequence t (code k) \<noteq> [] \<Longrightarrow> get (put t k v) k = get t k"
  by (simp add: get_first put_inv put_sequence split: list.split)

lemma get_remove: "inv t \<Longrightarrow> get (snd (remove t k)) k =
    (case tl (sequence t (code k)) of [] \<Rightarrow> None | v # _ \<Rightarrow> v)"
  by (simp add: get_first remove_inv remove_sequence)

lemma get_remove_other: "inv t \<Longrightarrow> code k \<noteq> code k' \<Longrightarrow> get (snd (remove t k)) k' = get t k'"
  by (simp add: get_first remove_inv remove_sequence)

end

lemma create_empty:
  "dict_ok dictionary_create" "hash_sequence dictionary_create h = []"
  by (auto simp: dict_ok_def hash_sequence_def dictionary_create_def DEFAULT_DICTIONARY_INITIAL_SIZE_def
      filter_empty_conv)

interpretation dict: keyed_sequences dictionary_create dictionary_put dictionary_get dictionary_remove
  dictionary_hash hash_sequence dict_ok
  by unfold_locales (simp_all add: create_empty put_ok remove_ok get_sequence)

section \<open>Properties\<close>

text \<open>
  C29: the hash table implements one first-in-first-out sequence of values per hash code: the
  value of a new key is found again and no key of another hash code is affected, a second
  put under the same hash code is hidden by the first until that one is removed, and every
  operation keeps each element in the bucket of its hash code and the count of used buckets,
  also across the growth of the table.
\<close>

theorem dictionary_keyed_sequences:
  assumes "dict_ok d"
  shows "dict_ok (dictionary_put d k v) \<and> dict_ok (snd (dictionary_remove d k)) \<and>
    (\<not> dictionary_has_key d k \<longrightarrow> dictionary_get (dictionary_put d k v) k = v) \<and>
    (dictionary_has_key d k \<longrightarrow> dictionary_get (dictionary_put d k v) k = dictionary_get d k) \<and>
    fst (dictionary_remove d k) = dictionary_get d k \<and>
    (dictionary_hash k' \<noteq> dictionary_hash k \<longrightarrow>
      dictionary_get (dictionary_put d k v) k' = dictionary_get d k' \<and>
      dictionary_get (snd (dictionary_remove d k)) k' = dictionary_get d k') \<and>
    (\<not> dictionary_has_key d k \<longrightarrow>
      dictionary_get (snd (dictionary_remove (dictionary_put (dictionary_put d k v) k w) k)) k = w)"
  using assms by (cases "hash_sequence d (dictionary_hash k)") (simp_all add: get_sequence put_ok remove_ok)

lemma dictionary_keyed_sequences_witness:
  "dict_ok (dictionary_create :: nat t_dictionary) \<and>
   dictionary_get (dictionary_put dictionary_create ''ip'' (Some (7 :: nat))) ''ip'' = Some 7"
proof -
  have "\<not> dictionary_has_key (dictionary_create :: nat t_dictionary) ''ip''"
    by (simp add: get_sequence create_empty)
  then show ?thesis
    using dictionary_keyed_sequences [OF create_empty(1), of "''ip''" "Some (7 :: nat)" "''x''" None]
    by (simp add: create_empty)
qed

definition config_line :: "string \<times> string \<Rightarrow> string" where
  "config_line = (\<lambda>(k, v). k @ ''='' @ v @ [CHR 10])"

definition config_entry_ok :: "string \<times> string \<Rightarrow> bool" where
  "config_entry_ok = (\<lambda>(k, v). k \<noteq> [] \<and> v \<noteq> [] \<and> hd k \<noteq> CHR ''#'' \<and>
     set k \<inter> {CHR ''='', CHR 10} = {} \<and> set v \<inter> {CHR ''='', CHR 10} = {})"

lemma config_line_simps:
  "config_line (k, v) = k @ CHR ''='' # v @ [CHR 10]"
  "config_entry_ok (k, v) \<longleftrightarrow> k \<noteq> [] \<and> v \<noteq> [] \<and> hd k \<noteq> CHR ''#'' \<and>
     set k \<inter> {CHR ''='', CHR 10} = {} \<and> set v \<inter> {CHR ''='', CHR 10} = {}"
  by (simp_all add: config_line_def config_entry_ok_def)

lemma split_config_lines:
  "\<forall>kv \<in> set kvs. config_entry_ok kv \<Longrightarrow>
    strtok_tokens [CHR 10] (concat (map config_line kvs)) = map (\<lambda>(k, v). k @ CHR ''='' # v) kvs"
proof (induction kvs)
  case Nil
  then show ?case by (simp add: strtok_none)
next
  case (Cons kv kvs)
  obtain k v where kv: "kv = (k, v)" by (cases kv)
  have "strtok_tokens [CHR 10] ((k @ CHR ''='' # v) @ CHR 10 # concat (map config_line kvs)) =
      (k @ CHR ''='' # v) # strtok_tokens [CHR 10] (CHR 10 # concat (map config_line kvs))"
    using Cons.prems by (intro strtok_token) (auto simp: kv config_line_simps)
  with Cons strtok_skip [of "[CHR 10]" "[CHR 10]"] show ?case by (simp add: kv config_line_simps)
qed

lemma split_config_line:
  assumes "config_entry_ok (k, v)"
  shows "strtok_tokens ''='' (k @ CHR ''='' # v) = [k, v]"
proof -
  have "strtok_tokens ''='' (k @ CHR ''='' # v) = k # strtok_tokens ''='' (CHR ''='' # v)"
    using assms by (intro strtok_token) (auto simp: config_line_simps)
  also have "strtok_tokens ''='' (CHR ''='' # v) = [v]"
    using assms strtok_skip [of "''=''" "''=''" v] strtok_token [of v "''=''" "[]"]
    by (auto simp: config_line_simps strtok_none)
  finally show ?thesis .
qed

lemma add_cofiguration_entry:
  assumes "config_entry_ok (k, v)"
  shows "add_cofiguration (k @ CHR ''='' # v) props = Some (dictionary_put props k (Some v))"
  using assms split_config_line [OF assms]
  by (cases k) (auto simp: add_cofiguration_def string_split_def string_duplicate_def
      string_starts_with_def strncmp_eq_def config_line_simps)

lemma iterate_config_lines:
  "\<forall>kv \<in> set kvs. config_entry_ok kv \<Longrightarrow>
    string_iterate_lines (map (\<lambda>(k, v). k @ CHR ''='' # v) kvs) add_cofiguration props =
      Some (foldl (\<lambda>d (k, v). dictionary_put d k v) props (map (\<lambda>(k, v). (k, Some v)) kvs))"
  by (induction kvs arbitrary: props) (auto simp: add_cofiguration_entry)

lemma config_reading:
  assumes "\<forall>kv \<in> set kvs. config_entry_ok kv" and "distinct (map (dictionary_hash \<circ> fst) kvs)"
  shows "\<exists>c. config_create p (Some (concat (map config_line kvs))) = Some c \<and>
    (\<forall>(k, v) \<in> set kvs. config_get_string_value c k = Some v) \<and>
    (\<forall>k. dictionary_hash k \<notin> (dictionary_hash \<circ> fst) ` set kvs \<longrightarrow> config_get_string_value c k = None)"
proof -
  let ?kvs = "map (\<lambda>(k, v). (k, Some v)) kvs"
  let ?d = "foldl (\<lambda>d (k, v). dictionary_put d k v) dictionary_create ?kvs"
  have c: "config_create p (Some (concat (map config_line kvs))) = Some \<lparr>conf_path = p, properties = ?d\<rparr>"
    using assms(1) by (simp add: config_create_def string_split_def string_duplicate_def
        split_config_lines iterate_config_lines)
  have dist: "distinct (map (dictionary_hash \<circ> fst) ?kvs)"
    using assms(2) by (simp add: comp_def case_prod_beta)
  have "dictionary_get ?d k = Some v" if "(k, v) \<in> set kvs" for k v
    using dict.get_put_all [OF create_empty(1,2) _ dist] that by force
  moreover have "dictionary_get ?d k = None" if "dictionary_hash k \<notin> (dictionary_hash \<circ> fst) ` set kvs" for k
  proof -
    from that have "filter (\<lambda>(k', v). dictionary_hash k = dictionary_hash k') ?kvs = []"
      by (auto simp: filter_empty_conv image_iff)
    then show ?thesis
      by (simp add: dict.get_first dict.put_all_inv dict.put_all_sequence create_empty)
  qed
  ultimately show ?thesis using c by (auto simp: config_get_string_value_def)
qed

text \<open>
  C35: reading a configuration file made of \<open>key=value\<close> lines gives back every value, as long as
  no two keys collide in the hash function; a key that no line sets is \<open>NULL\<close>.
\<close>

theorem config_reads_back:
  assumes "\<forall>kv \<in> set kvs. config_entry_ok kv" and "distinct (map (dictionary_hash \<circ> fst) kvs)"
  shows "\<exists>c. config_create p (Some (concat (map config_line kvs))) = Some c \<and>
    (\<forall>(k, v) \<in> set kvs. config_get_string_value c k = Some v) \<and>
    (\<forall>k. dictionary_hash k \<notin> (dictionary_hash \<circ> fst) ` set kvs \<longrightarrow> config_get_string_value c k = None)"
  by (rule config_reading [OF assms])

lemma keys_differ: "dictionary_hash ''lru'' \<noteq> dictionary_hash ''scheme''"
  by code_simp

lemma config_reads_back_witness:
  "\<exists>c. config_create ''engine_config.ini'' (Some (''lru=1'' @ [CHR 10] @ ''scheme=BuddySystem'' @ [CHR 10])) = Some c \<and>
    config_get_string_value c ''scheme'' = Some ''BuddySystem''"
  using config_reads_back [of "[(''lru'', ''1''), (''scheme'', ''BuddySystem'')]" "''engine_config.ini''"]
  by (simp add: config_line_def config_entry_ok_def keys_differ) force

end
