(* ===== verification/Rc_Diccionario.thy ===== *)
theory Rc_Diccionario
  imports Prelude "HOL-Library.Log_Nat"
begin

text \<open>
  The item table of the remote cache, \<^verbatim>\<open>rc/headers/diccionario.h\<close> and \<^verbatim>\<open>rc/source/diccionario.c\<close>.
  Partitions are \<open>t_dict_element\<close> cells of a heap, addressed by their index: cell \<open>0\<close> is the
  array \<open>elements\<close> of one cell, cells \<open>1, 2, \<dots>\<close> are the array \<open>nodes\<close>. The fields \<open>prev\<close>
  and \<open>next\<close> link them into the list of partitions and the list of spare cells, \<open>None\<close> being
  \<open>NULL\<close>. A call that does not return is \<open>None\<close>: it dereferences \<open>NULL\<close>, divides by zero,
  writes outside a key buffer or loops for ever. The cached bytes live in one block \<open>mem\<close> and
  \<open>data\<close> is an offset in it.
\<close>

section \<open>Data\<close>

type_synonym ptr = "nat option"

record t_dict_element =
  prev_p :: ptr
  key :: "u8 list"
  nkey :: int
  data :: "nat option"
  hour :: int
  chunk_size :: int
  data_size :: u32
  ocupado :: bool
  flags :: int
  next_p :: ptr

record t_diccionario =
  heap :: "t_dict_element list"
  nodes :: ptr
  elements :: ptr
  table_max_size :: int
  table_current_size :: int
  slab_min_size :: int
  lru :: bool
  bestfit :: bool
  compactarMemoria :: int
  frecuenciaCompactacion :: int
  mem_size :: int
  mem_bytes :: mem

definition KEY_SIZE_MAX :: nat where
  "KEY_SIZE_MAX = 45"

definition cell :: "t_diccionario \<Rightarrow> nat \<Rightarrow> t_dict_element" where
  "cell self p = heap self ! p"

definition upd :: "nat \<Rightarrow> (t_dict_element \<Rightarrow> t_dict_element) \<Rightarrow> t_diccionario \<Rightarrow> t_diccionario" where
  "upd p f self = self\<lparr>heap := (heap self)[p := f (heap self ! p)]\<rparr>"

text \<open>\<open>if (p != NULL) p->... = ...\<close>\<close>

definition upd_if :: "ptr \<Rightarrow> (t_dict_element \<Rightarrow> t_dict_element) \<Rightarrow> t_diccionario \<Rightarrow> t_diccionario" where
  "upd_if p f self = (case p of None \<Rightarrow> self | Some q \<Rightarrow> upd q f self)"

text \<open>An \<open>unsigned\<close> result stored back into an \<open>int\<close>.\<close>

definition to_int :: "int \<Rightarrow> int" where
  "to_int x = sint (word_of_int x :: u32)"

section \<open>diccionario.c\<close>

definition max_int :: "int \<Rightarrow> int \<Rightarrow> int" where
  "max_int a b = (if a > b then a else b)"

text \<open>The rounding of \<open>log2\<close> is exact to the integer part for every \<open>int\<close>; it is undefined at \<open>0\<close>.\<close>

definition power_two_low :: "nat \<Rightarrow> nat" where
  "power_two_low un_numero = 2 ^ (floorlog 2 un_numero - 1)"

definition estaReservado :: "t_dict_element \<Rightarrow> bool" where
  "estaReservado item \<longleftrightarrow> \<not> ocupado item \<and> nkey item \<noteq> 0"

definition libre :: "t_dict_element \<Rightarrow> bool" where
  "libre item \<longleftrightarrow> \<not> ocupado item \<and> \<not> estaReservado item"

definition nodo_inicial :: "nat \<Rightarrow> t_dict_element \<Rightarrow> t_dict_element" where
  "nodo_inicial i n = n\<lparr>prev_p := (if i \<noteq> 0 then Some (1 + i - 1) else None), data := None, nkey := 0,
     data_size := 0, hour := 0, key := replicate KEY_SIZE_MAX 0, ocupado := False, chunk_size := 0,
     flags := 0, next_p := Some (1 + i + 1)\<rparr>"

text \<open>
  The loop sets \<open>nodes[0]\<close> to \<open>nodes[cant_max_el - 2]\<close>, the whole array; the statement after it
  stores through \<open>nodes[cant_max_el - 1]\<close>, one past the array, which the last node of the
  list of spare cells points to. That cell is part of the model's heap, with the contents the
  memory there happens to have.
\<close>

definition inicializarElementos :: "t_diccionario \<Rightarrow> nat \<Rightarrow> nat \<Rightarrow> t_diccionario" where
  "inicializarElementos self cant_max_el memory =
     (let self = fold (\<lambda>i. upd (1 + i) (nodo_inicial i)) [0..<cant_max_el - 1] self;
          self = upd (1 + (cant_max_el - 1)) (\<lambda>n. n\<lparr>next_p := None\<rparr>) self
      in upd 0 (\<lambda>e. e\<lparr>prev_p := None, chunk_size := table_max_size self, data := Some memory, nkey := 0,
           data_size := 0, flags := 0, hour := 0, key := replicate KEY_SIZE_MAX 0, next_p := None,
           ocupado := False\<rparr>) self)"

text \<open>\<open>while (p != NULL && !stop(p)) p = p->next;\<close>\<close>

partial_function (option) buscar ::
  "t_diccionario \<Rightarrow> (t_dict_element \<Rightarrow> bool) \<Rightarrow> ptr \<Rightarrow> ptr option" where
  "buscar self stop p = (case p of
     None \<Rightarrow> Some None
   | Some q \<Rightarrow> if stop (cell self q) then Some (Some q) else buscar self stop (next_p (cell self q)))"

definition key_matches :: "u8 list \<Rightarrow> int \<Rightarrow> t_dict_element \<Rightarrow> bool" where
  "key_matches k n it \<longleftrightarrow> nkey it \<noteq> 0 \<and> nkey it = n \<and> take (nat n) (key it) = take (nat n) k"

definition diccionario_obtener :: "t_diccionario \<Rightarrow> u8 list \<Rightarrow> int \<Rightarrow> ptr option" where
  "diccionario_obtener self k n = buscar self (key_matches k n) (elements self)"

text \<open>A walk that keeps the best cell so far: \<open>if (better(item, best)) best = item;\<close>\<close>

partial_function (option) mejor ::
  "t_diccionario \<Rightarrow> (t_dict_element \<Rightarrow> t_dict_element \<Rightarrow> bool) \<Rightarrow> ptr \<Rightarrow> nat \<Rightarrow> nat option" where
  "mejor self better p best = (case p of
     None \<Rightarrow> Some best
   | Some q \<Rightarrow> mejor self better (next_p (cell self q))
       (if better (cell self q) (cell self best) then q else best))"

text \<open>
  When no item has been stored the victim is \<open>NULL\<close>, and the log message reads \<open>victima->key\<close>.
\<close>

definition diccionario_elegirVictima :: "t_diccionario \<Rightarrow> nat option" where
  "diccionario_elegirVictima self = do {
     victima \<leftarrow> buscar self (\<lambda>e. hour e \<noteq> 0) (elements self);
     first \<leftarrow> victima;
     mejor self (\<lambda>item v. hour item \<noteq> 0 \<and> hour item < hour v) victima first
   }"

partial_function (option) diccionario_limpiar_loop ::
  "(t_diccionario \<Rightarrow> nat \<Rightarrow> (nat \<times> t_diccionario) option) \<Rightarrow> t_diccionario \<Rightarrow> ptr \<Rightarrow> t_diccionario option"
where
  "diccionario_limpiar_loop f_eliminar self item = (case item of
     None \<Rightarrow> Some self
   | Some p \<Rightarrow> do {
       (p, self) \<leftarrow> (if nkey (cell self p) \<noteq> 0 then f_eliminar self p else Some (p, self));
       diccionario_limpiar_loop f_eliminar self (next_p (cell self p))
     })"

definition diccionario_limpiar ::
  "(t_diccionario \<Rightarrow> nat \<Rightarrow> (nat \<times> t_diccionario) option) \<Rightarrow> t_diccionario \<Rightarrow> t_diccionario option" where
  "diccionario_limpiar f_eliminar self = diccionario_limpiar_loop f_eliminar self (elements self)"

text \<open>What both schemes do first with the item they free.\<close>

definition limpiar_item :: "nat \<Rightarrow> t_diccionario \<Rightarrow> t_diccionario" where
  "limpiar_item it self =
     (let self = self\<lparr>table_current_size := to_int (table_current_size self - uint (data_size (cell self it)))\<rparr>
      in upd it (\<lambda>e. e\<lparr>key := (key e)[0 := 0], hour := 0, nkey := 0, flags := 0, ocupado := False,
           data_size := 0\<rparr>) self)"

text \<open>Returning a cell to the list of spare cells.\<close>

definition devolver_nodo :: "nat \<Rightarrow> t_diccionario \<Rightarrow> t_diccionario" where
  "devolver_nodo p self =
     (let self = upd p (\<lambda>e. e\<lparr>prev_p := None, next_p := nodes self\<rparr>) self;
          self = upd_if (nodes self) (\<lambda>e. e\<lparr>prev_p := Some p\<rparr>) self
      in self\<lparr>nodes := Some p\<rparr>)"

text \<open>The first partition that is free and large enough, or the smallest such one.\<close>

definition elegir_particion :: "t_diccionario \<Rightarrow> int \<Rightarrow> ptr option" where
  "elegir_particion self aux_data_size = do {
     item \<leftarrow> buscar self (\<lambda>e. \<not> (ocupado e \<or> estaReservado e \<or> chunk_size e < aux_data_size)) (elements self);
     (case item of
        None \<Rightarrow> Some None
      | Some p \<Rightarrow>
          if bestfit self then
            map_option Some (mejor self (\<lambda>aux i. \<not> ocupado aux \<and> \<not> estaReservado aux \<and>
              chunk_size aux < chunk_size i \<and> chunk_size aux \<ge> aux_data_size) item p)
          else Some item)
   }"

end
