(* ===== verification/Rc_Dinamicas.thy ===== *)
theory Rc_Dinamicas
  imports Rc_Diccionario
begin

text \<open>
  Dynamic partitions, \<^verbatim>\<open>rc/source/diccionario_dinamicas.c\<close>: allocation by first or best fit with
  splitting, eviction and compaction, and release with merging of neighbours.
\<close>

section \<open>diccionario_dinamicas.c\<close>

text \<open>
  \<open>inicializarElementos\<close> writes one cell past the array of nodes, which has one cell less than the
  loop needs. What is there is the parameter \<open>outside\<close>: \<open>None\<close> where the memory after the array
  belongs to something else, and then the write is the access outside a buffer that it is; the
  cell that is there where the allocator left room for one more. The division and the array need
  at least one slab.
\<close>

definition celda_cero :: t_dict_element where
  "celda_cero = \<lparr>prev_p = None, key = [], nkey = 0, data = None, hour = 0, chunk_size = 0,
     data_size = 0, ocupado = False, flags = 0, next_p = None\<rparr>"

definition diccionario_crear ::
  "t_dict_element option \<Rightarrow> mem \<Rightarrow> nat \<Rightarrow> int \<Rightarrow> int \<Rightarrow> t_diccionario option" where
  "diccionario_crear outside contents memory table_max slab_size =
     (if slab_size = 0 \<or> table_max div slab_size < 1 then None
      else do {
        fuera \<leftarrow> outside;
        let cant_max_el = nat (table_max div slab_size);
        let self = \<lparr>heap = celda_cero # replicate (cant_max_el - 1) celda_cero @ [fuera],
                  nodes = Some 1, elements = Some 0, table_max_size = table_max, table_current_size = 0,
                  slab_min_size = slab_size, lru = False, bestfit = False, compactarMemoria = 0,
                  frecuenciaCompactacion = 0, mem_size = table_max, mem_bytes = contents\<rparr>;
        Some (inicializarElementos self cant_max_el memory)
      })"

partial_function (option) juntar_anterior :: "t_diccionario \<Rightarrow> nat \<Rightarrow> ptr \<Rightarrow> (nat \<times> t_diccionario) option" where
  "juntar_anterior self it anterior = (case anterior of
     None \<Rightarrow> Some (it, self)
   | Some a \<Rightarrow>
       if ocupado (cell self a) then Some (it, self)
       else let c = chunk_size (cell self it);
                self = upd a (\<lambda>e. e\<lparr>chunk_size := chunk_size e + c\<rparr>) self;
                self = upd it (\<lambda>e. e\<lparr>chunk_size := 0\<rparr>) self;
                n = next_p (cell self it);
                self = upd a (\<lambda>e. e\<lparr>next_p := n\<rparr>) self;
                self = upd_if (next_p (cell self it)) (\<lambda>e. e\<lparr>prev_p := Some a\<rparr>) self;
                self = devolver_nodo it self
            in juntar_anterior self a (prev_p (cell self a)))"

partial_function (option) juntar_posterior :: "t_diccionario \<Rightarrow> nat \<Rightarrow> ptr \<Rightarrow> (nat \<times> t_diccionario) option" where
  "juntar_posterior self it posterior = (case posterior of
     None \<Rightarrow> Some (it, self)
   | Some p \<Rightarrow>
       if ocupado (cell self p) then Some (it, self)
       else let c = chunk_size (cell self p);
                self = upd it (\<lambda>e. e\<lparr>chunk_size := chunk_size e + c\<rparr>) self;
                self = upd p (\<lambda>e. e\<lparr>chunk_size := 0\<rparr>) self;
                n = next_p (cell self p);
                self = upd it (\<lambda>e. e\<lparr>next_p := n\<rparr>) self;
                self = devolver_nodo p self
            in juntar_posterior self it (next_p (cell self it)))"

definition diccionario_eliminar :: "t_diccionario \<Rightarrow> nat \<Rightarrow> (nat \<times> t_diccionario) option" where
  "diccionario_eliminar self it = do {
     let self = limpiar_item it self;
     (it, self) \<leftarrow> juntar_anterior self it (prev_p (cell self it));
     juntar_posterior self it (next_p (cell self it))
   }"

text \<open>
  Compaction. \<open>absorber_libres\<close> is the inner loop that joins the free items after \<open>item_libre\<close>;
  \<open>mover_item\<close> swaps the free partition with the used one after it, copying the bytes to the
  front; the byte copy is that of a forward \<open>memcpy\<close>, the two areas may overlap.
\<close>

partial_function (option) absorber_libres ::
  "t_diccionario \<Rightarrow> nat \<Rightarrow> ptr \<Rightarrow> (ptr \<times> t_diccionario) option" where
  "absorber_libres self item_libre item = (case item of
     None \<Rightarrow> Some (None, self)
   | Some p \<Rightarrow>
       if libre (cell self p) then
         let c = chunk_size (cell self p); n = next_p (cell self p);
             self = upd item_libre (\<lambda>e. e\<lparr>chunk_size := chunk_size e + c\<rparr>) self;
             self = upd item_libre (\<lambda>e. e\<lparr>next_p := n\<rparr>) self;
             self = upd_if (next_p (cell self p)) (\<lambda>e. e\<lparr>prev_p := Some item_libre\<rparr>) self;
             self = devolver_nodo p self;
             self = upd_if (nodes self) (\<lambda>e. e\<lparr>chunk_size := 0\<rparr>) self
         in absorber_libres self item_libre (next_p (cell self item_libre))
       else Some (Some p, self))"

definition memcpy_bytes :: "mem \<Rightarrow> nat \<Rightarrow> nat \<Rightarrow> nat \<Rightarrow> mem" where
  "memcpy_bytes m dst src n = fold (\<lambda>i m. m(dst + i := m (src + i))) [0..<n] m"

definition mover_item :: "t_diccionario \<Rightarrow> nat \<Rightarrow> nat \<Rightarrow> t_diccionario option" where
  "mover_item self item_libre item = do {
     let espacioLibre = chunk_size (cell self item_libre);
     let n = chunk_size (cell self item);
     dst \<leftarrow> data (cell self item_libre);
     src \<leftarrow> data (cell self item);
     let e = cell self item;
     let self = self\<lparr>mem_bytes := memcpy_bytes (mem_bytes self) dst src (nat n)\<rparr>;
     let self = upd item_libre (\<lambda>l. l\<lparr>chunk_size := n\<rparr>) self;
     let self = upd item (\<lambda>i. i\<lparr>data := Some (dst + nat n)\<rparr>) self;
     let k = nat (nkey e) + 1;
     (if k \<le> KEY_SIZE_MAX then Some () else None);
     let self = upd item_libre (\<lambda>l. l\<lparr>data_size := data_size e, hour := hour e,
           key := take k (key e) @ drop k (key l), ocupado := True\<rparr>) self;
     Some (upd item (\<lambda>i. i\<lparr>prev_p := Some item_libre, chunk_size := espacioLibre, ocupado := False,
           key := (key i)[0 := 0], hour := 0, data_size := 0\<rparr>) self)
   }"

partial_function (option) compactar_desde ::
  "t_diccionario \<Rightarrow> ptr \<Rightarrow> ptr \<Rightarrow> t_diccionario option" where
  "compactar_desde self item_libre item = (case item of
     None \<Rightarrow> Some self
   | Some _ \<Rightarrow> do {
       l \<leftarrow> item_libre;
       (item, self) \<leftarrow> absorber_libres self l item;
       (case item of
          None \<Rightarrow> Some self
        | Some p \<Rightarrow> do {
            self \<leftarrow> mover_item self l p;
            compactar_desde self (next_p (cell self l)) (next_p (cell self p))
          })
     })"

text \<open>
  The outer loop runs its body once: the inner one leaves it with \<open>item\<close> \<open>NULL\<close>.
\<close>

definition diccionario_compactarMemoria :: "t_diccionario \<Rightarrow> t_diccionario option" where
  "diccionario_compactarMemoria self = do {
     item \<leftarrow> buscar self libre (elements self);
     (case item of
        None \<Rightarrow> Some self
      | Some l \<Rightarrow> compactar_desde self (Some l) (next_p (cell self l)))
   }"

text \<open>Splitting: the tail of the chosen partition goes to a spare cell.\<close>

definition dividir_particion :: "t_diccionario \<Rightarrow> nat \<Rightarrow> int \<Rightarrow> t_diccionario" where
  "dividir_particion self item aux_data_size =
     (case nodes self of
        None \<Rightarrow> self
      | Some nuevo_nodo \<Rightarrow>
          if chunk_size (cell self item) - aux_data_size \<ge> slab_min_size self then
            let self = self\<lparr>nodes := next_p (cell self nuevo_nodo)\<rparr>;
                self = upd_if (nodes self) (\<lambda>e. e\<lparr>prev_p := None\<rparr>) self;
                n = next_p (cell self item);
                self = upd nuevo_nodo (\<lambda>e. e\<lparr>next_p := n, prev_p := Some item\<rparr>) self;
                self = upd_if n (\<lambda>e. e\<lparr>prev_p := Some nuevo_nodo\<rparr>) self;
                self = upd item (\<lambda>e. e\<lparr>next_p := Some nuevo_nodo\<rparr>) self;
                c = chunk_size (cell self item);
                self = upd nuevo_nodo (\<lambda>e. e\<lparr>chunk_size := chunk_size e + (c - aux_data_size)\<rparr>) self;
                self = upd item (\<lambda>e. e\<lparr>chunk_size := aux_data_size\<rparr>) self;
                base = data (cell self item)
            in upd nuevo_nodo (\<lambda>e. e\<lparr>data := map_option (\<lambda>b. b + nat aux_data_size) base\<rparr>) self
          else self)"

definition reservar :: "t_diccionario \<Rightarrow> nat \<Rightarrow> u32 \<Rightarrow> t_diccionario" where
  "reservar self item n =
     (let self = upd item (\<lambda>e. e\<lparr>data_size := n\<rparr>) self
      in self\<lparr>table_current_size := to_int (table_current_size self + uint n)\<rparr>)"

text \<open>\<open>item == NULL\<close>: compact when it is due and worth it, else evict the oldest item.\<close>

definition hacer_lugar :: "t_diccionario \<Rightarrow> int \<Rightarrow> t_diccionario option" where
  "hacer_lugar self aux_data_size = do {
     let self = (if compactarMemoria self > 0 then self\<lparr>compactarMemoria := compactarMemoria self - 1\<rparr> else self);
     if compactarMemoria self = 0 \<and> table_max_size self - table_current_size self \<ge> aux_data_size then do {
       self \<leftarrow> diccionario_compactarMemoria self;
       Some (self\<lparr>compactarMemoria := frecuenciaCompactacion self\<rparr>)
     } else do {
       victima \<leftarrow> diccionario_elegirVictima self;
       (item, self) \<leftarrow> diccionario_eliminar self victima;
       Some self
     }
   }"

partial_function (option) obtenerDireccion_loop ::
  "t_diccionario \<Rightarrow> u32 \<Rightarrow> int \<Rightarrow> (ptr \<times> t_diccionario) option" where
  "obtenerDireccion_loop self n aux_data_size =
     (if aux_data_size \<le> table_max_size self then do {
        item \<leftarrow> elegir_particion self aux_data_size;
        (case item of
           None \<Rightarrow> do {
             self \<leftarrow> hacer_lugar self aux_data_size;
             obtenerDireccion_loop self n aux_data_size
           }
         | Some p \<Rightarrow> Some (Some p, reservar (dividir_particion self p aux_data_size) p n))
      } else Some (None, self))"

definition diccionario_obtenerDireccion :: "t_diccionario \<Rightarrow> u32 \<Rightarrow> (ptr \<times> t_diccionario) option" where
  "diccionario_obtenerDireccion self n = obtenerDireccion_loop self n (max_int (sint n) (slab_min_size self))"

end
