(* ===== verification/Rc_Buddy.thy ===== *)
theory Rc_Buddy
  imports Rc_Dinamicas
begin

text \<open>
  The buddy system, \<^verbatim>\<open>rc/source/diccionario_buddy.c\<close>: partitions are halved on allocation and
  joined with their sibling on release.
\<close>

section \<open>diccionario_buddy.c\<close>

text \<open>
  The fields that \<open>diccionario_crear_buddy\<close> leaves as \<open>malloc\<close> returned them come from
  \<open>uninit\<close>; the engine sets all of them but \<open>compactarMemoria\<close> before using the table.
  \<open>outside\<close> is, as in \<open>diccionario_crear\<close>, the cell past the array of nodes, if there is one.
\<close>

definition diccionario_crear_buddy ::
  "t_diccionario \<Rightarrow> t_dict_element option \<Rightarrow> mem \<Rightarrow> nat \<Rightarrow> int \<Rightarrow> int \<Rightarrow> t_diccionario option" where
  "diccionario_crear_buddy uninit outside contents memory table_max slab_size =
     (if slab_size = 0 \<or> table_max div slab_size < 1 then None
      else do {
        fuera \<leftarrow> outside;
        let cant_max_hojas = nat (table_max div slab_size);
        let self = uninit\<lparr>heap := celda_cero # replicate (cant_max_hojas - 1) celda_cero @ [fuera],
                  nodes := Some 1, elements := Some 0, table_max_size := table_max, table_current_size := 0,
                  slab_min_size := slab_size, mem_size := int (power_two_low (nat table_max)),
                  mem_bytes := contents\<rparr>;
        Some (inicializarElementos self cant_max_hojas memory)
      })"

definition agregarHijosDePadre :: "t_diccionario \<Rightarrow> nat \<Rightarrow> t_diccionario option" where
  "agregarHijosDePadre self padre = do {
     hno \<leftarrow> nodes self;
     let self = upd_if (next_p (cell self hno)) (\<lambda>e. e\<lparr>prev_p := None\<rparr>) self;
     let self = self\<lparr>nodes := next_p (cell self hno)\<rparr>;
     let n = next_p (cell self padre);
     let self = upd_if n (\<lambda>e. e\<lparr>prev_p := Some hno\<rparr>) self;
     let self = upd hno (\<lambda>e. e\<lparr>next_p := n, prev_p := Some padre\<rparr>) self;
     let self = upd padre (\<lambda>e. e\<lparr>next_p := Some hno\<rparr>) self;
     let c = chunk_size (cell self padre);
     let self = upd hno (\<lambda>e. e\<lparr>chunk_size := c div 2\<rparr>) self;
     let self = upd padre (\<lambda>e. e\<lparr>chunk_size := chunk_size e div 2\<rparr>) self;
     let base = data (cell self padre);
     Some (upd hno (\<lambda>e. e\<lparr>data := map_option (\<lambda>b. b + nat (c div 2)) base\<rparr>) self)
   }"

partial_function (option) dividir_hasta ::
  "t_diccionario \<Rightarrow> nat \<Rightarrow> int \<Rightarrow> t_diccionario option" where
  "dividir_hasta self item aux_data_size =
     (if chunk_size (cell self item) div 2 \<ge> aux_data_size \<and> nodes self \<noteq> None then do {
        self \<leftarrow> agregarHijosDePadre self item;
        dividir_hasta self item aux_data_size
      } else Some self)"

partial_function (option) contar_hermanos ::
  "t_diccionario \<Rightarrow> ptr \<Rightarrow> nat \<Rightarrow> int \<Rightarrow> int \<Rightarrow> int option" where
  "contar_hermanos self aux_item item cantidad subtamanio = (case aux_item of
     None \<Rightarrow> Some cantidad
   | Some p \<Rightarrow>
       if p = item then Some cantidad
       else if chunk_size (cell self item) = 0 then None
       else if chunk_size (cell self p) < chunk_size (cell self item) then
         let subtamanio = subtamanio + chunk_size (cell self p) mod chunk_size (cell self item)
         in if subtamanio = chunk_size (cell self item)
            then contar_hermanos self (next_p (cell self p)) item (cantidad + 1) 0
            else contar_hermanos self (next_p (cell self p)) item cantidad subtamanio
       else contar_hermanos self (next_p (cell self p)) item
              (cantidad + chunk_size (cell self p) div chunk_size (cell self item)) subtamanio)"

definition esElPrimerHermano :: "t_diccionario \<Rightarrow> nat \<Rightarrow> bool option" where
  "esElPrimerHermano self item =
     map_option (\<lambda>cantidad. cantidad mod 2 = 0) (contar_hermanos self (elements self) item 0 0)"

text \<open>The sibling of \<open>it\<close>, and the address of the first of the two.\<close>

definition hermano :: "t_diccionario \<Rightarrow> nat \<Rightarrow> nat option \<Rightarrow> (ptr \<times> nat option) option" where
  "hermano self it d = do {
     primero \<leftarrow> esElPrimerHermano self it;
     if primero then Some (next_p (cell self it), d)
     else do {
       hno \<leftarrow> prev_p (cell self it);
       Some (Some hno, data (cell self hno))
     }
   }"

partial_function (option) unir_hermanos ::
  "t_diccionario \<Rightarrow> nat \<Rightarrow> ptr \<Rightarrow> nat option \<Rightarrow> t_diccionario option" where
  "unir_hermanos self it hno d = (case hno of
     None \<Rightarrow> Some self
   | Some h \<Rightarrow>
       if libre (cell self h) \<and> chunk_size (cell self h) = chunk_size (cell self it) then do {
         let self = upd h (\<lambda>e. e\<lparr>chunk_size := 0, data := None\<rparr>) self;
         let n = next_p (cell self h);
         let self = (case prev_p (cell self h) of
              Some p \<Rightarrow> upd p (\<lambda>e. e\<lparr>next_p := n\<rparr>) self
            | None \<Rightarrow> self\<lparr>elements := n\<rparr>);
         let pr = prev_p (cell self h);
         let self = upd_if (next_p (cell self h)) (\<lambda>e. e\<lparr>prev_p := pr\<rparr>) self;
         let self = devolver_nodo h self;
         let self = upd it (\<lambda>e. e\<lparr>data := d, chunk_size := chunk_size e * 2\<rparr>) self;
         (hno, d) \<leftarrow> hermano self it d;
         unir_hermanos self it hno d
       } else Some self)"

definition diccionario_eliminar_buddy :: "t_diccionario \<Rightarrow> nat \<Rightarrow> (nat \<times> t_diccionario) option" where
  "diccionario_eliminar_buddy self it = do {
     (hno, d) \<leftarrow> hermano self it (data (cell self it));
     self \<leftarrow> unir_hermanos (limpiar_item it self) it hno d;
     Some (it, self)
   }"

partial_function (option) obtenerDireccion_buddy_loop ::
  "t_diccionario \<Rightarrow> u32 \<Rightarrow> int \<Rightarrow> (ptr \<times> t_diccionario) option" where
  "obtenerDireccion_buddy_loop self n aux_data_size =
     (if aux_data_size \<le> table_max_size self then do {
        item \<leftarrow> elegir_particion self aux_data_size;
        (case item of
           None \<Rightarrow> do {
             victima \<leftarrow> diccionario_elegirVictima self;
             (it, self) \<leftarrow> diccionario_eliminar_buddy self victima;
             obtenerDireccion_buddy_loop self n aux_data_size
           }
         | Some p \<Rightarrow> do {
             self \<leftarrow> dividir_hasta self p aux_data_size;
             Some (Some p, reservar self p n)
           })
      } else Some (None, self))"

definition diccionario_obtenerDireccion_buddy :: "t_diccionario \<Rightarrow> u32 \<Rightarrow> (ptr \<times> t_diccionario) option" where
  "diccionario_obtenerDireccion_buddy self n =
     obtenerDireccion_buddy_loop self n (max_int (sint n) (slab_min_size self))"

end
