(* ===== verification/Rc_Engine.thy ===== *)
theory Rc_Engine
  imports Dictionary Rc_Buddy
begin

text \<open>
  The storage engine that memcached loads, \<^verbatim>\<open>rc/source/justice_engine.c\<close>: the partition scheme it
  picks from its configuration and the operations memcached calls on it. The global lock is
  part of the state; \<open>time(NULL)\<close> is an argument, and log messages are left out.
\<close>

section \<open>State\<close>

datatype ENGINE_ERROR_CODE =
  ENGINE_SUCCESS | ENGINE_KEY_ENOENT | ENGINE_KEY_EEXISTS | ENGINE_ENOMEM | ENGINE_NOT_STORED |
  ENGINE_EINVAL | ENGINE_ENOTSUP | ENGINE_EWOULDBLOCK | ENGINE_E2BIG

datatype lock_state = unlocked_lock | rdlocked | wrlocked

datatype esquema = ParticionesDinamicas | BuddySystem

record t_justice_engine =
  scheme :: esquema
  cache :: t_diccionario
  lock :: lock_state

type_synonym item = nat

definition f_crearDiccionario ::
  "esquema \<Rightarrow> t_diccionario \<Rightarrow> t_dict_element option \<Rightarrow> mem \<Rightarrow> nat \<Rightarrow> int \<Rightarrow> int \<Rightarrow> t_diccionario option" where
  "f_crearDiccionario s uninit = (case s of
     ParticionesDinamicas \<Rightarrow> diccionario_crear
   | BuddySystem \<Rightarrow> diccionario_crear_buddy uninit)"

definition f_eliminar :: "esquema \<Rightarrow> t_diccionario \<Rightarrow> nat \<Rightarrow> (nat \<times> t_diccionario) option" where
  "f_eliminar s = (case s of
     ParticionesDinamicas \<Rightarrow> diccionario_eliminar
   | BuddySystem \<Rightarrow> diccionario_eliminar_buddy)"

definition f_obtenerDireccion :: "esquema \<Rightarrow> t_diccionario \<Rightarrow> u32 \<Rightarrow> (ptr \<times> t_diccionario) option" where
  "f_obtenerDireccion s = (case s of
     ParticionesDinamicas \<Rightarrow> diccionario_obtenerDireccion
   | BuddySystem \<Rightarrow> diccionario_obtenerDireccion_buddy)"

section \<open>justice_engine.c\<close>

record engine_config =
  compaction_freq :: int
  conf_lru :: int
  conf_bestfit :: int
  conf_scheme :: string
  dump_scheme :: string
  log_path :: string

text \<open>A property that is missing is a \<open>NULL\<close> handed to \<open>atoi\<close> or \<open>strdup\<close>.\<close>

definition configfile_init :: "string \<Rightarrow> string option \<Rightarrow> engine_config option" where
  "configfile_init unPath file = do {
     config \<leftarrow> config_create unPath file;
     freq \<leftarrow> config_get_int_value config ''compaction_freq'';
     lru \<leftarrow> config_get_int_value config ''lru'';
     bestfit \<leftarrow> config_get_int_value config ''bestfit'';
     scheme \<leftarrow> config_get_string_value config ''scheme'';
     dump \<leftarrow> config_get_string_value config ''dump_scheme'';
     log \<leftarrow> config_get_string_value config ''log_path'';
     Some \<lparr>compaction_freq = freq, conf_lru = lru, conf_bestfit = bestfit, conf_scheme = scheme,
       dump_scheme = dump, log_path = log\<rparr>
   }"

text \<open>
  The two sizes are what memcached's \<open>parse_config\<close> found in its own command line. With any
  other scheme name the function pointers stay \<open>NULL\<close>.
\<close>

definition justice_engine_inicializar ::
  "string option \<Rightarrow> int \<Rightarrow> int \<Rightarrow> t_diccionario \<Rightarrow> t_dict_element option \<Rightarrow> mem \<Rightarrow> nat \<Rightarrow>
   (ENGINE_ERROR_CODE \<times> t_justice_engine) option" where
  "justice_engine_inicializar file table_max chunk_min uninit outside contents memory = do {
     conf \<leftarrow> configfile_init ''engine_config.ini'' file;
     s \<leftarrow> (if conf_scheme conf = ''ParticionesDinamicas'' then Some ParticionesDinamicas
           else if conf_scheme conf = ''BuddySystem'' then Some BuddySystem else None);
     c \<leftarrow> f_crearDiccionario s uninit outside contents memory table_max chunk_min;
     let c = c\<lparr>frecuenciaCompactacion := compaction_freq conf, lru := (conf_lru conf \<noteq> 0),
       bestfit := (conf_bestfit conf \<noteq> 0)\<rparr>;
     Some (ENGINE_SUCCESS, \<lparr>scheme = s, cache = c, lock = unlocked_lock\<rparr>)
   }"

text \<open>
  \<open>memcpy(element->key, key, nkey + 1)\<close>: the key and the byte after it; more than the buffer of
  \<open>KEY_SIZE_MAX\<close> bytes is outside the buffer.
\<close>

definition copiar_key :: "u8 list \<Rightarrow> int \<Rightarrow> t_dict_element \<Rightarrow> t_dict_element option" where
  "copiar_key k n e =
     (if nat n + 1 \<le> KEY_SIZE_MAX
      then Some (e\<lparr>key := take (nat n + 1) k @ drop (nat n + 1) (key e)\<rparr>)
      else None)"

definition justice_engine_allocate ::
  "t_justice_engine \<Rightarrow> u8 list \<Rightarrow> int \<Rightarrow> u32 \<Rightarrow> int \<Rightarrow> (ENGINE_ERROR_CODE \<times> item option \<times> t_justice_engine) option"
where
  "justice_engine_allocate engine k n nbytes fl = do {
     let engine = engine\<lparr>lock := wrlocked\<rparr>;
     element \<leftarrow> diccionario_obtener (cache engine) k n;
     engine \<leftarrow> (case element of
         Some e \<Rightarrow>
           if ocupado (cell (cache engine) e)
           then map_option (\<lambda>(_, c). engine\<lparr>cache := c\<rparr>) (f_eliminar (scheme engine) (cache engine) e)
           else Some engine
       | None \<Rightarrow> Some engine);
     (element, c) \<leftarrow> f_obtenerDireccion (scheme engine) (cache engine) nbytes;
     let engine = engine\<lparr>cache := c\<rparr>;
     (case element of
        None \<Rightarrow> Some (ENGINE_E2BIG, None, engine\<lparr>lock := unlocked_lock\<rparr>)
      | Some e \<Rightarrow> do {
          cl \<leftarrow> copiar_key k n ((cell (cache engine) e)\<lparr>nkey := n, flags := fl\<rparr>);
          Some (ENGINE_SUCCESS, Some e,
            engine\<lparr>cache := upd e (\<lambda>_. cl) (cache engine), lock := unlocked_lock\<rparr>)
        })
   }"

text \<open>
  \<open>justice_engine_store\<close> takes no lock, and its log message reads \<open>it->key\<close> before the test for
  \<open>NULL\<close>.
\<close>

definition justice_engine_store ::
  "t_justice_engine \<Rightarrow> item option \<Rightarrow> int \<Rightarrow> (ENGINE_ERROR_CODE \<times> t_justice_engine) option" where
  "justice_engine_store engine item now = do {
     it \<leftarrow> item;
     found \<leftarrow> diccionario_obtener (cache engine) (key (cell (cache engine) it)) (nkey (cell (cache engine) it));
     (case found of
        Some it \<Rightarrow> Some (ENGINE_SUCCESS,
          engine\<lparr>cache := upd it (\<lambda>e. e\<lparr>ocupado := True, hour := now\<rparr>) (cache engine)\<rparr>)
      | None \<Rightarrow> Some (ENGINE_NOT_STORED, engine))
   }"

record item_info =
  info_flags :: int
  nbytes :: u32
  info_key :: "u8 list"
  info_nkey :: int
  iov_base :: "nat option"
  iov_len :: u32

definition justice_engine_get_item_info :: "t_justice_engine \<Rightarrow> item option \<Rightarrow> item_info option" where
  "justice_engine_get_item_info engine item = do {
     p \<leftarrow> item;
     let it = cell (cache engine) p;
     Some \<lparr>info_flags = flags it, nbytes = data_size it, info_key = key it,
       info_nkey = nkey it, iov_base = data it, iov_len = data_size it\<rparr>
   }"

definition justice_engine_item_release :: "t_justice_engine \<Rightarrow> item \<Rightarrow> t_justice_engine option" where
  "justice_engine_item_release engine it =
     (if \<not> ocupado (cell (cache engine) it) then do {
        let engine = engine\<lparr>lock := wrlocked\<rparr>;
        (_, c) \<leftarrow> diccionario_eliminar (cache engine) it;
        Some (engine\<lparr>cache := c, lock := unlocked_lock\<rparr>)
      } else Some engine)"

definition justice_engine_get ::
  "t_justice_engine \<Rightarrow> u8 list \<Rightarrow> int \<Rightarrow> int \<Rightarrow> (ENGINE_ERROR_CODE \<times> item option \<times> t_justice_engine) option" where
  "justice_engine_get engine k n now = do {
     let engine = engine\<lparr>lock := rdlocked\<rparr>;
     found \<leftarrow> diccionario_obtener (cache engine) k n;
     (case found of
        None \<Rightarrow> Some (ENGINE_KEY_ENOENT, None, engine\<lparr>lock := unlocked_lock\<rparr>)
      | Some it \<Rightarrow>
          if \<not> ocupado (cell (cache engine) it)
          then Some (ENGINE_KEY_ENOENT, None, engine\<lparr>lock := unlocked_lock\<rparr>)
          else
            let engine = (if lru (cache engine)
              then engine\<lparr>cache := upd it (\<lambda>e. e\<lparr>hour := now\<rparr>) (cache engine)\<rparr> else engine)
            in Some (ENGINE_SUCCESS, Some it, engine\<lparr>lock := unlocked_lock\<rparr>))
   }"

definition justice_engine_item_delete ::
  "t_justice_engine \<Rightarrow> u8 list \<Rightarrow> int \<Rightarrow> (ENGINE_ERROR_CODE \<times> t_justice_engine) option" where
  "justice_engine_item_delete engine k n = do {
     let engine = engine\<lparr>lock := wrlocked\<rparr>;
     dict_element \<leftarrow> diccionario_obtener (cache engine) k n;
     (case dict_element of
        None \<Rightarrow> Some (ENGINE_KEY_ENOENT, engine\<lparr>lock := unlocked_lock\<rparr>)
      | Some e \<Rightarrow> do {
          (_, c) \<leftarrow> f_eliminar (scheme engine) (cache engine) e;
          Some (ENGINE_SUCCESS, engine\<lparr>cache := c, lock := unlocked_lock\<rparr>)
        })
   }"

definition justice_engine_flush :: "t_justice_engine \<Rightarrow> (ENGINE_ERROR_CODE \<times> t_justice_engine) option" where
  "justice_engine_flush engine = do {
     let engine = engine\<lparr>lock := wrlocked\<rparr>;
     c \<leftarrow> diccionario_limpiar (f_eliminar (scheme engine)) (cache engine);
     Some (ENGINE_SUCCESS, engine\<lparr>cache := c, lock := unlocked_lock\<rparr>)
   }"

definition justice_engine_get_stats :: "t_justice_engine \<Rightarrow> ENGINE_ERROR_CODE" where
  "justice_engine_get_stats engine = ENGINE_SUCCESS"

definition justice_engine_unknown_command :: "t_justice_engine \<Rightarrow> ENGINE_ERROR_CODE" where
  "justice_engine_unknown_command engine = ENGINE_ENOTSUP"

definition create_instance :: "u64 \<Rightarrow> bool \<Rightarrow> ENGINE_ERROR_CODE" where
  "create_instance interface calloc_ok =
     (if interface = 0 then ENGINE_ENOTSUP else if \<not> calloc_ok then ENGINE_ENOMEM else ENGINE_SUCCESS)"

end
