(* ===== verification/Rc_Tabla.thy ===== *)
theory Rc_Tabla
  imports Rc_Engine
begin

text \<open>
  The table of partitions of the remote cache as a list. \<open>lista\<close> is a chain of cells linked both
  ways, \<open>cubre\<close> says that the partitions lie one after the other from an address on, and
  \<open>tabla\<close> is the shape the engine relies on. On it a search is a search in the list, and
  allocating keeps the shape.
\<close>

section \<open>Chains\<close>

fun lista :: "t_dict_element list \<Rightarrow> ptr \<Rightarrow> ptr \<Rightarrow> nat list \<Rightarrow> bool" where
  "lista h anterior p [] \<longleftrightarrow> p = None"
| "lista h anterior p (x # xs) \<longleftrightarrow> p = Some x \<and> x < length h \<and> prev_p (h ! x) = anterior \<and> lista h (Some x) (next_p (h ! x)) xs"

fun pila :: "t_dict_element list \<Rightarrow> ptr \<Rightarrow> nat list \<Rightarrow> bool" where
  "pila h p [] \<longleftrightarrow> p = None"
| "pila h p (y # ys) \<longleftrightarrow> p = Some y \<and> y < length h \<and> pila h (next_p (h ! y)) ys"

fun cubre :: "t_dict_element list \<Rightarrow> nat \<Rightarrow> nat list \<Rightarrow> bool" where
  "cubre h base [] \<longleftrightarrow> True"
| "cubre h base (x # xs) \<longleftrightarrow> data (h ! x) = Some base \<and> 0 < chunk_size (h ! x) \<and> cubre h (base + nat (chunk_size (h ! x))) xs"

definition tabla :: "t_diccionario \<Rightarrow> nat \<Rightarrow> nat list \<Rightarrow> nat list \<Rightarrow> bool" where
  "tabla self base xs ys \<longleftrightarrow> lista (heap self) None (elements self) xs \<and> pila (heap self) (nodes self) ys \<and>
     distinct (xs @ ys) \<and> cubre (heap self) base xs \<and>
     (\<Sum>x \<leftarrow> xs. chunk_size (heap self ! x)) = table_max_size self \<and> (\<forall>y \<in> set ys. chunk_size (heap self ! y) = 0)"

lemma lista_frame: "lista h a p xs \<Longrightarrow> \<forall>x \<in> set xs. h' ! x = h ! x \<Longrightarrow> length h' = length h \<Longrightarrow> lista h' a p xs"
  by (induction xs arbitrary: a p) auto

lemma pila_frame: "pila h p ys \<Longrightarrow> \<forall>y \<in> set ys. next_p (h' ! y) = next_p (h ! y) \<Longrightarrow> length h' = length h \<Longrightarrow> pila h' p ys"
  by (induction ys arbitrary: p) auto

lemma cubre_frame:
  "cubre h base xs \<Longrightarrow> \<forall>x \<in> set xs. data (h' ! x) = data (h ! x) \<and> chunk_size (h' ! x) = chunk_size (h ! x) \<Longrightarrow> cubre h' base xs"
  by (induction xs arbitrary: base) auto

lemma lista_bounds: "lista h a p xs \<Longrightarrow> x \<in> set xs \<Longrightarrow> x < length h"
  by (induction xs arbitrary: a p) auto

lemma pila_bounds: "pila h p ys \<Longrightarrow> y \<in> set ys \<Longrightarrow> y < length h"
  by (induction ys arbitrary: p) auto

section \<open>Searching\<close>

lemma buscar_lista: "lista (heap self) a p xs \<Longrightarrow> buscar self stop p = Some (List.find (\<lambda>x. stop (cell self x)) xs)"
proof (induction xs arbitrary: a p)
  case Nil
  then show ?case by (simp add: buscar.simps)
next
  case (Cons x xs)
  then have "next_p (cell self x) = next_p (heap self ! x)" by (simp add: cell_def)
  with Cons show ?case by (subst buscar.simps) auto
qed

section \<open>Cells\<close>

lemma upd_fields [simp]:
  "nodes (upd p f self) = nodes self" "elements (upd p f self) = elements self"
  "table_max_size (upd p f self) = table_max_size self" "slab_min_size (upd p f self) = slab_min_size self"
  "table_current_size (upd p f self) = table_current_size self" "bestfit (upd p f self) = bestfit self"
  "lru (upd p f self) = lru self" "length (heap (upd p f self)) = length (heap self)"
  "compactarMemoria (upd p f self) = compactarMemoria self"
  by (simp_all add: upd_def)

lemma upd_if_fields [simp]:
  "nodes (upd_if p f self) = nodes self" "elements (upd_if p f self) = elements self"
  "table_max_size (upd_if p f self) = table_max_size self" "slab_min_size (upd_if p f self) = slab_min_size self"
  "length (heap (upd_if p f self)) = length (heap self)" "bestfit (upd_if p f self) = bestfit self"
  "table_current_size (upd_if p f self) = table_current_size self"
  by (simp_all add: upd_if_def split: option.splits)

lemma cell_upd: "p < length (heap self) \<Longrightarrow> cell (upd p f self) q = (if q = p then f (cell self q) else cell self q)"
  by (simp add: upd_def cell_def)

lemma cell_upd_if:
  "\<forall>q. p = Some q \<longrightarrow> q < length (heap self) \<Longrightarrow>
    cell (upd_if p f self) q = (if p = Some q then f (cell self q) else cell self q)"
  by (auto simp: upd_if_def cell_upd split: option.splits)

lemma cell_fields [simp]:
  "cell (self\<lparr>nodes := n\<rparr>) q = cell self q" "cell (self\<lparr>table_current_size := i\<rparr>) q = cell self q"
  by (simp_all add: cell_def)

lemma lista_next: "lista h a q (us @ p # vs) \<Longrightarrow> next_p (h ! p) = (if vs = [] then None else Some (hd vs))"
proof (induction us arbitrary: a q)
  case Nil
  then show ?case by (cases vs) auto
qed auto

lemma pila_next: "pila h p (y # ys) \<Longrightarrow> next_p (h ! y) = (if ys = [] then None else Some (hd ys))"
  by (cases ys) auto

section \<open>Inserting a cell\<close>

lemma lista_new_prev:
  assumes "lista h a p xs" and "length h' = length h" and "\<forall>x \<in> set (tl xs). h' ! x = h ! x"
    and "xs \<noteq> [] \<longrightarrow> next_p (h' ! hd xs) = next_p (h ! hd xs) \<and> prev_p (h' ! hd xs) = b" and "distinct xs"
  shows "lista h' b p xs"
proof (cases xs)
  case (Cons x zs)
  with assms lista_frame [of h "Some x" "next_p (h ! x)" zs h'] show ?thesis by auto
qed (use assms in simp)

lemma lista_insert:
  assumes "lista h a q (us @ p # vs)" and "length h' = length h" and "n < length h" and "distinct (us @ p # vs)"
    and "\<forall>x \<in> set us \<union> set (tl vs). h' ! x = h ! x"
    and "prev_p (h' ! p) = prev_p (h ! p)" and "next_p (h' ! p) = Some n"
    and "prev_p (h' ! n) = Some p" and "next_p (h' ! n) = next_p (h ! p)"
    and "vs \<noteq> [] \<longrightarrow> next_p (h' ! hd vs) = next_p (h ! hd vs) \<and> prev_p (h' ! hd vs) = Some n"
  shows "lista h' a q (us @ p # n # vs)"
  using assms(1,4,5)
proof (induction us arbitrary: a q)
  case Nil
  then have "lista h (Some p) (next_p (h ! p)) vs" by simp
  then have "lista h' (Some n) (next_p (h ! p)) vs"
    by (rule lista_new_prev) (use Nil.prems assms(2,10) in auto)
  with Nil assms show ?case by simp
next
  case (Cons u us)
  then show ?case using assms(2) by simp
qed

lemma cubre_insert:
  assumes "cubre h base (us @ p # vs)" and "distinct (us @ p # vs)"
    and "\<forall>x \<in> set us \<union> set vs. data (h' ! x) = data (h ! x) \<and> chunk_size (h' ! x) = chunk_size (h ! x)"
    and "data (h' ! p) = data (h ! p)" and "chunk_size (h' ! p) = k" and "0 < k" and "k < chunk_size (h ! p)"
    and "data (h' ! n) = map_option (\<lambda>b. b + nat k) (data (h ! p))" and "chunk_size (h' ! n) = chunk_size (h ! p) - k"
  shows "cubre h' base (us @ p # n # vs)"
  using assms(1-3)
proof (induction us arbitrary: base)
  case Nil
  have "cubre h (base + nat (chunk_size (h ! p))) vs" using Nil by simp
  then have "cubre h' (base + nat (chunk_size (h ! p))) vs" by (rule cubre_frame) (use Nil in auto)
  moreover have "base + nat (chunk_size (h ! p)) = base + nat k + nat (chunk_size (h ! p) - k)"
    using assms(6,7) by simp
  ultimately show ?case using Nil assms by simp
qed simp

section \<open>Allocating\<close>

text \<open>The cells after a split.\<close>

lemma dividir_cells:
  assumes t: "tabla self base (us @ p # vs) (n # ys)" and big: "chunk_size (cell self p) - k \<ge> slab_min_size self"
    and self': "self' = dividir_particion self p k"
  shows "nodes self' = next_p (cell self n)" "elements self' = elements self" "table_max_size self' = table_max_size self"
    "slab_min_size self' = slab_min_size self" "bestfit self' = bestfit self" "table_current_size self' = table_current_size self"
    "length (heap self') = length (heap self)"
    "cell self' p = (cell self p)\<lparr>next_p := Some n, chunk_size := k\<rparr>"
    "cell self' n = (cell self n)\<lparr>next_p := next_p (cell self p), prev_p := Some p, chunk_size := chunk_size (cell self p) - k,
       data := map_option (\<lambda>b. b + nat k) (data (cell self p))\<rparr>"
    "x \<noteq> p \<Longrightarrow> x \<noteq> n \<Longrightarrow> cell self' x = (if next_p (cell self p) = Some x then (cell self x)\<lparr>prev_p := Some n\<rparr>
       else if next_p (cell self n) = Some x then (cell self x)\<lparr>prev_p := None\<rparr> else cell self x)"
proof -
  have np: "n \<noteq> p" "n < length (heap self)" "p < length (heap self)" "nodes self = Some n" "chunk_size (cell self n) = 0"
    and l: "lista (heap self) None (elements self) (us @ p # vs)" and pl: "pila (heap self) (Some n) (n # ys)"
    and d: "distinct (us @ p # vs @ n # ys)"
    using t lista_bounds [of "heap self" None "elements self" "us @ p # vs" p] by (auto simp: tabla_def cell_def)
  let ?c = "chunk_size (cell self p)" and ?s = "next_p (cell self p)" and ?m = "next_p (cell self n)"
  have s: "?s = (if vs = [] then None else Some (hd vs))" using lista_next [OF l] by (simp add: cell_def)
  have m: "?m = (if ys = [] then None else Some (hd ys))" using pila_next [OF pl] by (simp add: cell_def)
  have ne: "?s \<noteq> Some n" "?s \<noteq> Some p" "?m \<noteq> Some n" "?m \<noteq> Some p"
    using d s m by (auto split: if_splits dest: hd_in_set)
  have sm: "?s = Some z \<Longrightarrow> z < length (heap self)" "?m = Some z \<Longrightarrow> z < length (heap self)" for z
    using s m lista_bounds [OF l, of z] pila_bounds [OF pl, of z] by (auto split: if_splits)
  define s1 where "s1 = self\<lparr>nodes := ?m\<rparr>"
  define s2 where "s2 = upd_if ?m (\<lambda>e. e\<lparr>prev_p := None\<rparr>) s1"
  define s3 where "s3 = upd n (\<lambda>e. e\<lparr>next_p := ?s, prev_p := Some p\<rparr>) s2"
  define s4 where "s4 = upd_if ?s (\<lambda>e. e\<lparr>prev_p := Some n\<rparr>) s3"
  define s5 where "s5 = upd p (\<lambda>e. e\<lparr>next_p := Some n\<rparr>) s4"
  define s6 where "s6 = upd n (\<lambda>e. e\<lparr>chunk_size := chunk_size e + (?c - k)\<rparr>) s5"
  define s7 where "s7 = upd p (\<lambda>e. e\<lparr>chunk_size := k\<rparr>) s6"
  define s8 where "s8 = upd n (\<lambda>e. e\<lparr>data := map_option (\<lambda>b. b + nat k) (data (cell self p))\<rparr>) s7"
  have c1: "cell s1 q = cell self q" "length (heap s1) = length (heap self)" for q by (simp_all add: s1_def)
  have c2: "cell s2 q = (if ?m = Some q then (cell self q)\<lparr>prev_p := None\<rparr> else cell self q)" "length (heap s2) = length (heap self)" for q
    using cell_upd_if [of ?m s1] sm(2) c1 by (simp_all add: s2_def)
  have c3: "cell s3 q = (if q = n then (cell self q)\<lparr>next_p := ?s, prev_p := Some p\<rparr> else cell s2 q)" "length (heap s3) = length (heap self)" for q
    using cell_upd [of n s2] np c2 ne by (simp_all add: s3_def)
  have c4: "cell s4 q = (if ?s = Some q then (cell s3 q)\<lparr>prev_p := Some n\<rparr> else cell s3 q)" "length (heap s4) = length (heap self)" for q
    using cell_upd_if [of ?s s3] sm(1) c3 by (simp_all add: s4_def)
  have c8: "cell s8 p = (cell self p)\<lparr>next_p := Some n, chunk_size := k\<rparr>"
    "cell s8 n = (cell self n)\<lparr>next_p := ?s, prev_p := Some p, chunk_size := ?c - k, data := map_option (\<lambda>b. b + nat k) (data (cell self p))\<rparr>"
    "q \<noteq> p \<Longrightarrow> q \<noteq> n \<Longrightarrow> cell s8 q = cell s4 q" for q
    using np ne c4 c3 c2 by (simp_all add: s8_def s7_def s6_def s5_def cell_upd)
  have f: "nodes s1 = ?m" "next_p (cell s2 p) = ?s" "chunk_size (cell s5 p) = ?c" "data (cell s7 p) = data (cell self p)"
    using np ne c4 c3 c2 by (simp_all add: s1_def s7_def s6_def s5_def cell_upd)
  have e: "self' = s8"
    by (simp only: self' dividir_particion_def np(4) option.case if_P [OF big] Let_def s1_def [symmetric] f
        s2_def [symmetric] s3_def [symmetric] s4_def [symmetric] s5_def [symmetric] s6_def [symmetric] s7_def [symmetric]
        s8_def [symmetric])
  show "nodes self' = next_p (cell self n)" "elements self' = elements self" "table_max_size self' = table_max_size self"
    "slab_min_size self' = slab_min_size self" "bestfit self' = bestfit self" "table_current_size self' = table_current_size self"
    "length (heap self') = length (heap self)"
    by (simp_all add: e s8_def s7_def s6_def s5_def s4_def s3_def s2_def s1_def)
  show "cell self' p = (cell self p)\<lparr>next_p := Some n, chunk_size := k\<rparr>"
    "cell self' n = (cell self n)\<lparr>next_p := ?s, prev_p := Some p, chunk_size := ?c - k,
       data := map_option (\<lambda>b. b + nat k) (data (cell self p))\<rparr>"
    using c8 by (simp_all add: e)
  have "?s \<noteq> ?m \<or> ?s = None" using s m d by (auto split: if_splits dest: hd_in_set)
  then show "cell self' x = (if ?s = Some x then (cell self x)\<lparr>prev_p := Some n\<rparr>
       else if ?m = Some x then (cell self x)\<lparr>prev_p := None\<rparr> else cell self x)" if "x \<noteq> p" "x \<noteq> n"
    using c8(3) [OF that] that c4(1) [of x] c3(1) [of x] c2(1) [of x] by (auto simp: e)
qed

lemma dividir_tabla:
  assumes t: "tabla self base (us @ p # vs) (n # ys)" and big: "chunk_size (cell self p) - k \<ge> slab_min_size self"
    and k: "0 < k" "0 < slab_min_size self"
  shows "tabla (dividir_particion self p k) base (us @ p # n # vs) ys"
proof -
  define self' where "self' = dividir_particion self p k"
  note c = dividir_cells [OF t big self'_def]
  have l: "lista (heap self) None (elements self) (us @ p # vs)" and pl: "pila (heap self) (nodes self) (n # ys)"
    and d: "distinct (us @ p # vs @ n # ys)" and cu: "cubre (heap self) base (us @ p # vs)"
    and sum: "(\<Sum>x \<leftarrow> us @ p # vs. chunk_size (cell self x)) = table_max_size self"
    and zero: "\<forall>y \<in> set ys. chunk_size (cell self y) = 0"
    using t by (auto simp: tabla_def cell_def)
  have s: "next_p (cell self p) = (if vs = [] then None else Some (hd vs))" using lista_next [OF l] by (simp add: cell_def)
  have m: "next_p (cell self n) = (if ys = [] then None else Some (hd ys))"
    using pila_next [OF pl] by (simp add: cell_def)
  have n: "n < length (heap self)" using pl by simp
  have other: "cell self' x = cell self x" if "x \<in> set us \<union> set (tl vs)" for x
  proof -
    have "x \<noteq> p" "x \<noteq> n" "next_p (cell self p) \<noteq> Some x" "next_p (cell self n) \<noteq> Some x"
      using that d s m by (cases vs; cases ys; auto)+
    with c(10) [of x] show ?thesis by simp
  qed
  have links: "\<exists>a. cell self' x = (cell self x)\<lparr>prev_p := a\<rparr>" if "x \<noteq> p" "x \<noteq> n" for x
    using c(10) [OF that] by (metis t_dict_element.surjective t_dict_element.update_convs(1))
  have l': "lista (heap self') None (elements self') (us @ p # n # vs)"
  proof (unfold c(2), rule lista_insert [OF l c(7) n])
    show "vs \<noteq> [] \<longrightarrow> next_p (heap self' ! hd vs) = next_p (heap self ! hd vs) \<and> prev_p (heap self' ! hd vs) = Some n"
      using c(10) [of "hd vs"] d s by (cases vs) (auto simp: cell_def)
  qed (use d other c(8,9) in \<open>auto simp: cell_def\<close>)
  have "cubre (heap self') base (us @ p # n # vs)"
  proof (rule cubre_insert [OF cu])
    show "\<forall>x \<in> set us \<union> set vs. data (heap self' ! x) = data (heap self ! x) \<and> chunk_size (heap self' ! x) = chunk_size (heap self ! x)"
    proof
      fix x assume "x \<in> set us \<union> set vs"
      then have "x \<noteq> p" "x \<noteq> n" using d by auto
      from links [OF this] show "data (heap self' ! x) = data (heap self ! x) \<and> chunk_size (heap self' ! x) = chunk_size (heap self ! x)"
        by (auto simp: cell_def)
    qed
  qed (use d c(8,9) k big in \<open>auto simp: cell_def\<close>)
  moreover have "pila (heap self') (nodes self') ys"
  proof -
    have "pila (heap self) (next_p (cell self n)) ys" using pl by (simp add: cell_def)
    moreover have "\<forall>y \<in> set ys. next_p (heap self' ! y) = next_p (heap self ! y)"
    proof
      fix y assume "y \<in> set ys"
      then have "y \<noteq> p" "y \<noteq> n" using d by auto
      from links [OF this] show "next_p (heap self' ! y) = next_p (heap self ! y)" by (auto simp: cell_def)
    qed
    ultimately show ?thesis using pila_frame c(1,7) by metis
  qed
  moreover have eq: "chunk_size (cell self' x) = chunk_size (cell self x)" if "x \<in> set us \<union> set vs \<union> set ys" for x
  proof -
    have "x \<noteq> p" "x \<noteq> n" using that d by auto
    from links [OF this] show ?thesis by auto
  qed
  have "(\<Sum>x \<leftarrow> us @ p # n # vs. chunk_size (cell self' x)) = table_max_size self'"
    using sum c(3,8,9) eq by (simp cong: map_cong)
  ultimately show ?thesis
    using l' d zero eq by (auto simp: tabla_def self'_def [symmetric] cell_def)
qed

section \<open>Choosing a partition\<close>

lemma lista_suffix: "lista h a q (us @ p # vs) \<Longrightarrow> \<exists>a'. lista h a' (Some p) (p # vs)"
  by (induction us arbitrary: a q) auto

lemma mejor_lista:
  "lista (heap self) a p xs \<Longrightarrow>
    mejor self better p b = Some (foldl (\<lambda>b q. if better (cell self q) (cell self b) then q else b) b xs)"
proof (induction xs arbitrary: a p b)
  case Nil
  then show ?case by (simp add: mejor.simps)
next
  case (Cons x xs)
  then show ?case using Cons.IH [of "Some x" "next_p (heap self ! x)"]
    by (subst mejor.simps) (auto simp: cell_def)
qed

definition candidata :: "int \<Rightarrow> t_dict_element \<Rightarrow> bool" where
  "candidata k e \<longleftrightarrow> libre e \<and> k \<le> chunk_size e"

lemma foldl_smallest:
  fixes f :: "nat \<Rightarrow> int"
  assumes "P b"
  shows "let r = foldl (\<lambda>b q. if P q \<and> f q < f b then q else b) b xs
    in P r \<and> r \<in> insert b (set xs) \<and> f r \<le> f b \<and> (\<forall>q \<in> set xs. P q \<longrightarrow> f r \<le> f q)"
  using assms
proof (induction xs arbitrary: b)
  case (Cons x xs)
  show ?case
    using Cons.IH [of "if P x \<and> f x < f b then x else b"] Cons.prems by (fastforce simp: Let_def)
qed simp

definition elegida :: "t_diccionario \<Rightarrow> nat list \<Rightarrow> int \<Rightarrow> nat \<Rightarrow> bool" where
  \<comment> \<open>First fit: no earlier partition would do. Best fit: no smaller one would.\<close>
  "elegida self xs k p \<longleftrightarrow> candidata k (cell self p) \<and>
     (\<exists>us vs. xs = us @ p # vs \<and> (\<not> bestfit self \<longrightarrow> (\<forall>q \<in> set us. \<not> candidata k (cell self q))) \<and>
       (bestfit self \<longrightarrow> (\<forall>q \<in> set xs. candidata k (cell self q) \<longrightarrow> chunk_size (cell self p) \<le> chunk_size (cell self q))))"

lemma elegir_lista:
  assumes l: "lista (heap self) None (elements self) xs"
  shows "if \<exists>q \<in> set xs. candidata k (cell self q) then \<exists>p. elegir_particion self k = Some (Some p) \<and> elegida self xs k p
    else elegir_particion self k = Some None"
proof -
  let ?P = "\<lambda>q. candidata k (cell self q)"
  have stop: "(\<lambda>e. \<not> (ocupado e \<or> estaReservado e \<or> chunk_size e < k)) = candidata k"
    by (auto simp: fun_eq_iff candidata_def libre_def)
  have b: "buscar self (candidata k) (elements self) = Some (List.find ?P xs)" by (rule buscar_lista [OF l])
  show ?thesis
  proof (cases "List.find ?P xs")
    case None
    then have "\<not> (\<exists>q \<in> set xs. ?P q)" by (auto simp: find_None_iff)
    with None b show ?thesis unfolding elegir_particion_def stop by simp
  next
    case (Some f)
    then obtain i where i: "i < length xs" "?P (xs ! i)" "f = xs ! i" "\<forall>j < i. \<not> ?P (xs ! j)"
      by (auto simp: find_Some_iff)
    define us vs where "us = take i xs" and "vs = drop (Suc i) xs"
    have x: "xs = us @ f # vs" using i by (simp add: us_def vs_def id_take_nth_drop)
    have us: "\<forall>q \<in> set us. \<not> ?P q" using i by (auto simp: us_def in_set_conv_nth)
    have ex: "\<exists>q \<in> set xs. ?P q" using i by auto
    show ?thesis
    proof (cases "bestfit self")
      case False
      have "elegida self xs k f" using False us x i by (auto simp: elegida_def)
      with False b Some ex show ?thesis unfolding elegir_particion_def stop by simp
    next
      case True
      obtain a where "lista (heap self) a (Some f) (f # vs)" using lista_suffix l x by blast
      note m = mejor_lista [OF this]
      define r where "r = foldl (\<lambda>b q. if ?P q \<and> chunk_size (cell self q) < chunk_size (cell self b) then q else b) f (f # vs)"
      have cond: "(\<lambda>aux i. \<not> ocupado aux \<and> \<not> estaReservado aux \<and> chunk_size aux < chunk_size i \<and> chunk_size aux \<ge> k) =
          (\<lambda>aux i. candidata k aux \<and> chunk_size aux < chunk_size i)"
        by (auto simp: fun_eq_iff candidata_def libre_def)
      have r: "?P r" "r \<in> set (f # vs)" "\<forall>q \<in> set (f # vs). ?P q \<longrightarrow> chunk_size (cell self r) \<le> chunk_size (cell self q)"
        using foldl_smallest [of ?P f "\<lambda>q. chunk_size (cell self q)" "f # vs", folded r_def] i unfolding Let_def by auto
      have "r \<in> set xs" using r(2) x by auto
      then obtain us' vs' where "xs = us' @ r # vs'" by (meson split_list)
      moreover have "\<forall>q \<in> set xs. ?P q \<longrightarrow> chunk_size (cell self r) \<le> chunk_size (cell self q)"
        using r(3) us x by auto
      ultimately have "elegida self xs k r" using True r(1) unfolding elegida_def by blast
      moreover have "elegir_particion self k = Some (Some r)"
        using True b Some m [of "\<lambda>aux i. candidata k aux \<and> chunk_size aux < chunk_size i" f, folded r_def]
        unfolding elegir_particion_def stop cond by simp
      ultimately show ?thesis using ex by auto
    qed
  qed
qed

section \<open>The whole allocation\<close>

lemma lista_links:
  "lista h a p xs \<Longrightarrow> \<forall>x \<in> set xs. prev_p (h' ! x) = prev_p (h ! x) \<and> next_p (h' ! x) = next_p (h ! x) \<Longrightarrow>
    length h' = length h \<Longrightarrow> lista h' a p xs"
  by (induction xs arbitrary: a p) auto

definition payload :: "(t_dict_element \<Rightarrow> t_dict_element) \<Rightarrow> bool" where
  \<comment> \<open>A change of a cell that leaves its place in the table alone.\<close>
  "payload f \<longleftrightarrow> (\<forall>e. prev_p (f e) = prev_p e \<and> next_p (f e) = next_p e \<and> data (f e) = data e \<and> chunk_size (f e) = chunk_size e)"

lemma tabla_upd:
  assumes "tabla self base xs ys" and "payload f"
  shows "tabla (upd p f self) base xs ys"
proof -
  let ?h = "heap self" and ?h' = "heap (upd p f self)"
  have same: "prev_p (?h' ! x) = prev_p (?h ! x) \<and> next_p (?h' ! x) = next_p (?h ! x) \<and> data (?h' ! x) = data (?h ! x) \<and>
      chunk_size (?h' ! x) = chunk_size (?h ! x)" for x
    using assms(2) by (cases "p < length ?h"; cases "x = p") (simp_all add: upd_def payload_def list_update_beyond)
  have "lista ?h' None (elements self) xs" "pila ?h' (nodes self) ys" "cubre ?h' base xs"
    using assms(1) lista_links [of ?h _ _ xs ?h'] pila_frame [of ?h _ ys ?h'] cubre_frame [of ?h _ xs ?h'] same
    by (auto simp: tabla_def)
  then show ?thesis using assms(1) same by (simp add: tabla_def)
qed

lemma tabla_size: "tabla (self\<lparr>table_current_size := i\<rparr>) base xs ys = tabla self base xs ys"
  by (simp add: tabla_def)

lemma tabla_bounds: "tabla self base xs ys \<Longrightarrow> x \<in> set xs \<Longrightarrow> x < length (heap self)"
  using lista_bounds by (auto simp: tabla_def)

definition mismo_item :: "t_dict_element \<Rightarrow> t_dict_element \<Rightarrow> bool" where
  \<comment> \<open>The same item in the same partition; only its links may differ.\<close>
  "mismo_item e e' \<longleftrightarrow> (\<exists>a b. e' = e\<lparr>prev_p := a, next_p := b\<rparr>)"

lemma mismo_refl [simp]: "mismo_item e e"
  unfolding mismo_item_def by (intro exI [of _ "prev_p e"] exI [of _ "next_p e"]) simp

lemma mismo_prev [simp]: "mismo_item e (e\<lparr>prev_p := a\<rparr>)"
  unfolding mismo_item_def by (intro exI [of _ a] exI [of _ "next_p e"]) simp

lemma obtener_direccion_ok:
  assumes t: "tabla self base xs ys" and slab: "0 < slab_min_size self"
    and k: "k = max_int (sint n) (slab_min_size self)" "k \<le> table_max_size self"
    and cand: "\<exists>q \<in> set xs. candidata k (cell self q)"
  shows "\<exists>p self' xs' ys'. diccionario_obtenerDireccion self n = Some (Some p, self') \<and> elegida self xs k p \<and>
    tabla self' base xs' ys' \<and> set xs \<subseteq> set xs' \<and> set xs' \<subseteq> set xs \<union> set ys \<and> bestfit self' = bestfit self \<and>
    k \<le> chunk_size (cell self' p) \<and>
    (\<exists>c nx. cell self' p = (cell self p)\<lparr>data_size := n, chunk_size := c, next_p := nx\<rparr>) \<and>
    (\<forall>q \<in> set xs - {p}. mismo_item (cell self q) (cell self' q)) \<and>
    (\<forall>q \<in> set xs' - set xs. \<exists>c d a b. cell self' q = (cell self q)\<lparr>chunk_size := c, data := d, prev_p := a, next_p := b\<rparr>) \<and>
    table_current_size self' = to_int (table_current_size self + uint n)"
proof -
  have l: "lista (heap self) None (elements self) xs" using t by (simp add: tabla_def)
  obtain p where p: "elegir_particion self k = Some (Some p)" "elegida self xs k p"
    using elegir_lista [OF l, of k] cand by auto
  then obtain us vs where x: "xs = us @ p # vs" and pk: "k \<le> chunk_size (cell self p)" by (auto simp: elegida_def candidata_def)
  have k0: "0 < k" using k(1) slab by (simp add: max_int_def split: if_splits)
  define s1 where "s1 = dividir_particion self p k"
  have run: "diccionario_obtenerDireccion self n = Some (Some p, reservar s1 p n)"
    unfolding diccionario_obtenerDireccion_def k(1) [symmetric]
    using k(2) p(1) by (subst obtenerDireccion_loop.simps) (simp add: s1_def)
  have pl: "payload (\<lambda>e. e\<lparr>data_size := n\<rparr>)" by (simp add: payload_def)
  have main: "\<exists>xs' ys'. tabla s1 base xs' ys' \<and> set xs \<subseteq> set xs' \<and> set xs' \<subseteq> set xs \<union> set ys \<and> bestfit s1 = bestfit self \<and>
    k \<le> chunk_size (cell s1 p) \<and> (\<exists>c nx. cell s1 p = (cell self p)\<lparr>chunk_size := c, next_p := nx\<rparr>) \<and>
    (\<forall>q \<in> set xs - {p}. mismo_item (cell self q) (cell s1 q)) \<and>
    (\<forall>q \<in> set xs' - set xs. \<exists>c d a b. cell s1 q = (cell self q)\<lparr>chunk_size := c, data := d, prev_p := a, next_p := b\<rparr>) \<and>
    table_current_size s1 = table_current_size self"
  proof (cases "\<exists>m zs. ys = m # zs \<and> chunk_size (cell self p) - k \<ge> slab_min_size self")
    case True
    then obtain m zs where y: "ys = m # zs" and big: "chunk_size (cell self p) - k \<ge> slab_min_size self" by auto
    note tt = t [unfolded x y]
    note c = dividir_cells [OF tt big s1_def]
    have d: "distinct (xs @ m # zs)" using t y by (simp add: tabla_def)
    have "mismo_item (cell self q) (cell s1 q)" if "q \<in> set xs - {p}" for q
    proof -
      have "q \<noteq> p" "q \<noteq> m" using that d by auto
      from c(10) [OF this] show ?thesis by auto
    qed
    moreover have "\<exists>c d a b. cell s1 q = (cell self q)\<lparr>chunk_size := c, data := d, prev_p := a, next_p := b\<rparr>"
      if "q \<in> set (us @ p # m # vs) - set xs" for q
    proof -
      have "q = m" using that x by auto
      show ?thesis unfolding \<open>q = m\<close> c(9) by (intro exI) (rule t_dict_element.equality, simp_all)
    qed
    moreover have "k \<le> chunk_size (cell s1 p) \<and> (\<exists>c nx. cell s1 p = (cell self p)\<lparr>chunk_size := c, next_p := nx\<rparr>)"
      unfolding c(8) by (intro conjI exI) (simp, rule t_dict_element.equality, simp_all)
    moreover have "set xs \<subseteq> set (us @ p # m # vs)" "set (us @ p # m # vs) \<subseteq> set xs \<union> set ys" using x y by auto
    ultimately show ?thesis using dividir_tabla [OF tt big k0 slab, folded s1_def] c(5,6) by blast
  next
    case False
    have "nodes self = (case ys of [] \<Rightarrow> None | m # zs \<Rightarrow> Some m)" using t by (cases ys) (auto simp: tabla_def)
    then have "s1 = self" using False by (auto simp: s1_def dividir_particion_def Let_def split: list.splits)
    moreover have "\<exists>c nx. cell self p = (cell self p)\<lparr>chunk_size := c, next_p := nx\<rparr>"
      by (intro exI [of _ "chunk_size (cell self p)"] exI [of _ "next_p (cell self p)"]) simp
    ultimately show ?thesis using t pk by (intro exI [of _ xs] exI [of _ ys]) simp
  qed
  then obtain xs' ys' where m: "tabla s1 base xs' ys'" "set xs \<subseteq> set xs'" "set xs' \<subseteq> set xs \<union> set ys" "bestfit s1 = bestfit self"
    "k \<le> chunk_size (cell s1 p)" "\<exists>c nx. cell s1 p = (cell self p)\<lparr>chunk_size := c, next_p := nx\<rparr>"
    "\<forall>q \<in> set xs - {p}. mismo_item (cell self q) (cell s1 q)"
    "\<forall>q \<in> set xs' - set xs. \<exists>c d a b. cell s1 q = (cell self q)\<lparr>chunk_size := c, data := d, prev_p := a, next_p := b\<rparr>"
    "table_current_size s1 = table_current_size self" by blast
  have plen: "p < length (heap s1)" "p \<in> set xs" using tabla_bounds [OF m(1)] m(2) x by auto
  have cl: "cell (reservar s1 p n) q = (if q = p then (cell s1 q)\<lparr>data_size := n\<rparr> else cell s1 q)" for q
    using plen by (simp add: reservar_def cell_upd)
  have "tabla (reservar s1 p n) base xs' ys'" unfolding reservar_def Let_def tabla_size by (rule tabla_upd [OF m(1) pl])
  moreover have "\<exists>c nx. cell (reservar s1 p n) p = (cell self p)\<lparr>data_size := n, chunk_size := c, next_p := nx\<rparr>"
  proof -
    obtain c nx where "cell s1 p = (cell self p)\<lparr>chunk_size := c, next_p := nx\<rparr>" using m(6) by blast
    then show ?thesis by (intro exI [of _ c] exI [of _ nx]) (simp add: cl)
  qed
  ultimately show ?thesis using run p(2) m(2-5,7-9) plen(2)
    by (intro exI [of _ p] exI [of _ "reservar s1 p n"] exI [of _ xs'] exI [of _ ys'])
      (auto simp: cl, auto simp: reservar_def)
qed

section \<open>Storing and fetching\<close>

lemma find_only:
  "x \<in> set xs \<Longrightarrow> P x \<Longrightarrow> \<forall>y \<in> set xs. P y \<longrightarrow> y = x \<Longrightarrow> List.find P xs = Some x"
proof (induction xs)
  case (Cons a xs)
  show ?case
  proof (cases "P a")
    case True
    then have "a = x" using Cons.prems(3) by simp
    with True show ?thesis by simp
  next
    case False
    then have "x \<in> set xs" using Cons.prems(1,2) by auto
    moreover have "\<forall>y \<in> set xs. P y \<longrightarrow> y = x" using Cons.prems(3) by (metis list.set_intros(2))
    ultimately have "List.find P xs = Some x" using Cons.IH Cons.prems(2) by blast
    with False show ?thesis by simp
  qed
qed simp

lemma obtener_only:
  assumes "tabla self base xs ys" and "e \<in> set xs" and "key_matches k n (cell self e)"
    and "\<And>x. x \<in> set xs \<Longrightarrow> x \<noteq> e \<Longrightarrow> \<not> key_matches k n (cell self x)"
  shows "diccionario_obtener self k n = Some (Some e)"
proof -
  have "lista (heap self) None (elements self) xs" using assms(1) by (simp add: tabla_def)
  moreover have "List.find (\<lambda>x. key_matches k n (cell self x)) xs = Some e" using assms(2-4) by (intro find_only) blast+
  ultimately show ?thesis by (simp add: diccionario_obtener_def buscar_lista)
qed

lemma obtener_none:
  assumes "tabla self base xs ys" and "\<And>x. x \<in> set xs \<Longrightarrow> \<not> key_matches k n (cell self x)"
  shows "diccionario_obtener self k n = Some None"
proof -
  have "lista (heap self) None (elements self) xs" using assms(1) by (simp add: tabla_def)
  moreover have "List.find (\<lambda>x. key_matches k n (cell self x)) xs = None" using assms(2) by (auto simp: find_None_iff)
  ultimately show ?thesis by (simp add: diccionario_obtener_def buscar_lista)
qed

lemma mismo_key: "mismo_item e e' \<Longrightarrow> key_matches k n e' = key_matches k n e"
  by (auto simp: mismo_item_def key_matches_def)

end
