(* ===== verification/Rc_Cache.thy ===== *)
theory Rc_Cache
  imports Rc_Tabla
begin

text \<open>
  What the storage engine of \<^verbatim>\<open>rc/source/justice_engine.c\<close> guarantees to memcached on top of the
  table of partitions: a value that is allocated and stored is found again, every call lets go
  of the lock, and the places where it goes wrong: eviction with nothing stored, compaction, and
  the buddy table on memory that is not a power of two.
\<close>

section \<open>Keys\<close>

lemma key_matches_cong: "take (nat n) k = take (nat n) k' \<Longrightarrow> key_matches k n = key_matches k' n"
  by (simp add: key_matches_def fun_eq_iff)

lemma upd_const: "upd p (\<lambda>_. f (cell self p)) self = upd p f self"
  by (simp add: upd_def cell_def)

definition con_key :: "u8 list \<Rightarrow> int \<Rightarrow> int \<Rightarrow> t_dict_element \<Rightarrow> t_dict_element" where
  "con_key k n fl e = e\<lparr>nkey := n, flags := fl, key := take (nat n + 1) k @ drop (nat n + 1) (key e)\<rparr>"

lemma copiar_key_ok: "nat n < 45 \<Longrightarrow> copiar_key k n (e\<lparr>nkey := n, flags := fl\<rparr>) = Some (con_key k n fl e)"
  by (simp add: copiar_key_def con_key_def KEY_SIZE_MAX_def)

lemma con_key_matches: "0 < n \<Longrightarrow> nat n < length k \<Longrightarrow> key_matches k n (con_key k n fl e)"
  by (simp add: key_matches_def con_key_def min_def)

lemma payload_changes:
  "payload (con_key k n fl)" "payload (\<lambda>e. e\<lparr>ocupado := o', hour := now\<rparr>)" "payload (\<lambda>e. e\<lparr>hour := now\<rparr>)"
  by (simp_all add: payload_def con_key_def)

section \<open>Allocating a new key\<close>

definition motor_ok :: "t_justice_engine \<Rightarrow> nat \<Rightarrow> nat list \<Rightarrow> nat list \<Rightarrow> bool" where
  "motor_ok engine base xs ys \<longleftrightarrow> scheme engine = ParticionesDinamicas \<and> tabla (cache engine) base xs ys \<and>
     0 < slab_min_size (cache engine) \<and> (\<forall>y \<in> set ys. nkey (cell (cache engine) y) = 0)"

lemma allocate_ok:
  assumes m: "motor_ok engine base xs ys" and new: "\<forall>x \<in> set xs. \<not> key_matches k n (cell (cache engine) x)"
    and n: "0 < n" "nat n < 45" "nat n < length k"
    and size: "q = max_int (sint nb) (slab_min_size (cache engine))" "q \<le> table_max_size (cache engine)"
    and cand: "\<exists>x \<in> set xs. candidata q (cell (cache engine) x)"
  shows "\<exists>e c xs' ys'. justice_engine_allocate engine k n nb fl = Some (ENGINE_SUCCESS, Some e, engine\<lparr>cache := c, lock := unlocked_lock\<rparr>) \<and>
    e \<in> set xs \<and> elegida (cache engine) xs q e \<and> tabla c base xs' ys' \<and> set xs \<subseteq> set xs' \<and>
    key_matches k n (cell c e) \<and> nkey (cell c e) = n \<and> flags (cell c e) = fl \<and> data_size (cell c e) = nb \<and>
    q \<le> chunk_size (cell c e) \<and> take (nat n) (key (cell c e)) = take (nat n) k \<and>
    (\<forall>x \<in> set xs'. x \<noteq> e \<longrightarrow> \<not> key_matches k n (cell c x)) \<and>
    (\<forall>x \<in> set xs - {e}. mismo_item (cell (cache engine) x) (cell c x))"
proof -
  have t: "tabla (cache engine) base xs ys" and slab: "0 < slab_min_size (cache engine)"
    and zero: "\<forall>y \<in> set ys. nkey (cell (cache engine) y) = 0" and sch: "scheme engine = ParticionesDinamicas"
    using m by (auto simp: motor_ok_def)
  obtain e s xs' ys' where a: "diccionario_obtenerDireccion (cache engine) nb = Some (Some e, s)"
    "elegida (cache engine) xs q e" "tabla s base xs' ys'" "set xs \<subseteq> set xs'" "set xs' \<subseteq> set xs \<union> set ys"
    "q \<le> chunk_size (cell s e)" "\<exists>c nx. cell s e = (cell (cache engine) e)\<lparr>data_size := nb, chunk_size := c, next_p := nx\<rparr>"
    "\<forall>x \<in> set xs - {e}. mismo_item (cell (cache engine) x) (cell s x)"
    "\<forall>x \<in> set xs' - set xs. \<exists>c d a b. cell s x = (cell (cache engine) x)\<lparr>chunk_size := c, data := d, prev_p := a, next_p := b\<rparr>"
    using obtener_direccion_ok [OF t slab size cand] by blast
  have e: "e \<in> set xs" "e < length (heap s)" using a(2,4) tabla_bounds [OF a(3)] by (auto simp: elegida_def)
  define c where "c = upd e (con_key k n fl) s"
  have cl: "cell c x = (if x = e then con_key k n fl (cell s x) else cell s x)" for x
    using e(2) by (simp add: c_def cell_upd)
  have none: "diccionario_obtener (cache engine) k n = Some None" using obtener_none [OF t] new by blast
  have run: "justice_engine_allocate engine k n nb fl = Some (ENGINE_SUCCESS, Some e, engine\<lparr>cache := c, lock := unlocked_lock\<rparr>)"
    using none a(1) sch n(2)
    by (simp add: justice_engine_allocate_def f_obtenerDireccion_def copiar_key_ok upd_const c_def)
  have other: "\<not> key_matches k n (cell c x)" if x: "x \<in> set xs'" "x \<noteq> e" for x
  proof (cases "x \<in> set xs")
    case True
    then have "mismo_item (cell (cache engine) x) (cell s x)" using a(8) x(2) by blast
    from mismo_key [OF this, of k n] new True x(2) show ?thesis by (simp add: cl)
  next
    case False
    then have "x \<in> set ys" "x \<in> set xs' - set xs" using a(5) x by auto
    then obtain c d a b where "cell s x = (cell (cache engine) x)\<lparr>chunk_size := c, data := d, prev_p := a, next_p := b\<rparr>"
      using a(9) by blast
    then have "nkey (cell s x) = 0" using zero \<open>x \<in> set ys\<close> by simp
    then show ?thesis using x by (simp add: cl key_matches_def)
  qed
  have "take (nat n) (key (cell c e)) = take (nat n) k" using n(3) by (simp add: cl con_key_def min_def)
  moreover have "tabla c base xs' ys'" unfolding c_def by (rule tabla_upd [OF a(3) payload_changes(1)])
  moreover have "key_matches k n (cell c e)" using con_key_matches [OF n(1,3)] by (simp add: cl)
  moreover have "nkey (cell c e) = n" "flags (cell c e) = fl" "data_size (cell c e) = nb" "q \<le> chunk_size (cell c e)"
    using a(6,7) by (auto simp: cl con_key_def)
  moreover have "\<forall>x \<in> set xs - {e}. mismo_item (cell (cache engine) x) (cell c x)" using a(8) by (simp add: cl)
  ultimately show ?thesis using run e(1) a(2,4) other by blast
qed

section \<open>The victim\<close>

lemma foldl_oldest:
  fixes h :: "nat \<Rightarrow> int"
  assumes "h b \<noteq> 0"
  shows "let r = foldl (\<lambda>b q. if h q \<noteq> 0 \<and> h q < h b then q else b) b xs
    in h r \<noteq> 0 \<and> r \<in> insert b (set xs) \<and> (\<forall>q \<in> set xs. h q \<noteq> 0 \<longrightarrow> h r \<le> h q)"
  using foldl_smallest [of "\<lambda>q. h q \<noteq> 0" b h xs] assms by (simp add: Let_def)

lemma victima_lista:
  assumes l: "lista (heap self) None (elements self) xs"
  shows "if \<exists>x \<in> set xs. hour (cell self x) \<noteq> 0
    then \<exists>v \<in> set xs. diccionario_elegirVictima self = Some v \<and> hour (cell self v) \<noteq> 0 \<and>
      (\<forall>x \<in> set xs. hour (cell self x) \<noteq> 0 \<longrightarrow> hour (cell self v) \<le> hour (cell self x))
    else diccionario_elegirVictima self = None"
proof -
  let ?P = "\<lambda>x. hour (cell self x) \<noteq> 0"
  have b: "buscar self (\<lambda>e. hour e \<noteq> 0) (elements self) = Some (List.find ?P xs)" by (rule buscar_lista [OF l])
  show ?thesis
  proof (cases "List.find ?P xs")
    case None
    then have "\<not> (\<exists>x \<in> set xs. ?P x)" by (auto simp: find_None_iff)
    with None b show ?thesis by (simp add: diccionario_elegirVictima_def)
  next
    case (Some f)
    then obtain i where i: "i < length xs" "?P (xs ! i)" "f = xs ! i" "\<forall>j < i. \<not> ?P (xs ! j)" by (auto simp: find_Some_iff)
    define us vs where "us = take i xs" and "vs = drop (Suc i) xs"
    have x: "xs = us @ f # vs" using i by (simp add: us_def vs_def id_take_nth_drop)
    have us: "\<forall>q \<in> set us. \<not> ?P q" using i by (auto simp: us_def in_set_conv_nth)
    obtain a where "lista (heap self) a (Some f) (f # vs)" using lista_suffix l x by blast
    note m = mejor_lista [OF this, of "\<lambda>item v. hour item \<noteq> 0 \<and> hour item < hour v" f]
    define r where "r = foldl (\<lambda>b q. if ?P q \<and> hour (cell self q) < hour (cell self b) then q else b) f (f # vs)"
    have "?P r" "r \<in> set (f # vs)" "\<forall>q \<in> set (f # vs). ?P q \<longrightarrow> hour (cell self r) \<le> hour (cell self q)"
      using foldl_oldest [of "\<lambda>q. hour (cell self q)" f "f # vs", folded r_def] i unfolding Let_def by auto
    moreover have "diccionario_elegirVictima self = Some r"
      using b Some m [folded r_def] by (simp add: diccionario_elegirVictima_def)
    moreover have "\<exists>x \<in> set xs. ?P x" using i by auto
    ultimately show ?thesis using us x by auto
  qed
qed

section \<open>An example\<close>

text \<open>A cache of 256 bytes with slabs of 32, empty.\<close>

definition cache_vacia :: t_diccionario where
  "cache_vacia = the (diccionario_crear (Some celda_cero) (\<lambda>_. 0) 0 256 32)"

definition motor :: t_justice_engine where
  "motor = \<lparr>scheme = ParticionesDinamicas, cache = cache_vacia, lock = unlocked_lock\<rparr>"

lemma motor_ok: "motor_ok motor 0 [0] [1, 2, 3, 4, 5, 6, 7, 8]"
  by code_simp

section \<open>Properties\<close>





text \<open>
  The engine lets go of its lock: every call that returns, on every branch, leaves the lock
  free if it was free before.
\<close>

theorem engine_calls_release_lock:
  assumes "lock engine = unlocked_lock"
  shows "(\<forall>r i e. justice_engine_allocate engine k n nb fl = Some (r, i, e) \<longrightarrow> lock e = unlocked_lock) \<and>
    (\<forall>r e. justice_engine_store engine it now = Some (r, e) \<longrightarrow> lock e = unlocked_lock) \<and>
    (\<forall>r i e. justice_engine_get engine k n now = Some (r, i, e) \<longrightarrow> lock e = unlocked_lock) \<and>
    (\<forall>r e. justice_engine_item_delete engine k n = Some (r, e) \<longrightarrow> lock e = unlocked_lock) \<and>
    (\<forall>e. justice_engine_item_release engine p = Some e \<longrightarrow> lock e = unlocked_lock) \<and>
    (\<forall>r e. justice_engine_flush engine = Some (r, e) \<longrightarrow> lock e = unlocked_lock)"
proof (intro conjI allI impI)
  show "lock e = unlocked_lock" if "justice_engine_allocate engine k n nb fl = Some (r, i, e)" for r i e
    using that by (auto simp: justice_engine_allocate_def Let_def split: bind_splits option.splits prod.splits)
  show "lock e = unlocked_lock" if "justice_engine_store engine it now = Some (r, e)" for r e
    using that assms by (auto simp: justice_engine_store_def split: bind_splits option.splits)
  show "lock e = unlocked_lock" if "justice_engine_get engine k n now = Some (r, i, e)" for r i e
    using that by (auto simp: justice_engine_get_def Let_def split: bind_splits option.splits if_splits)
  show "lock e = unlocked_lock" if "justice_engine_item_delete engine k n = Some (r, e)" for r e
    using that by (auto simp: justice_engine_item_delete_def Let_def split: bind_splits option.splits)
  show "lock e = unlocked_lock" if "justice_engine_item_release engine p = Some e" for e
    using that assms by (auto simp: justice_engine_item_release_def Let_def split: bind_splits if_splits)
  show "lock e = unlocked_lock" if "justice_engine_flush engine = Some (r, e)" for r e
    using that by (auto simp: justice_engine_flush_def Let_def split: bind_splits)
qed

lemma engine_calls_release_lock_witness:
  "\<exists>r i e. justice_engine_get motor [97, 0] 1 5 = Some (r, i, e) \<and> lock e = unlocked_lock"
proof -
  have "\<not> key_matches [97, 0] 1 (cell cache_vacia 0)" by code_simp
  moreover have "tabla cache_vacia 0 [0] [1, 2, 3, 4, 5, 6, 7, 8]" using motor_ok by (simp only: motor_ok_def motor_def t_justice_engine.simps)
  ultimately have "diccionario_obtener cache_vacia [97, 0] 1 = Some None" using obtener_none by fastforce
  then obtain r i e where g: "justice_engine_get motor [97, 0] 1 5 = Some (r, i, e)"
    by (simp add: justice_engine_get_def motor_def)
  have "lock motor = unlocked_lock" by (simp add: motor_def)
  from engine_calls_release_lock [OF this, of "[97, 0]" 1 0 0 None 5 0] g show ?thesis by blast
qed

text \<open>
  The victim of an eviction is an item that was stored, one of those used longest ago. When
  memory is short and nothing has been stored yet, there is no victim, and the call that asked for
  memory dereferences \<open>NULL\<close> instead of failing.
\<close>

theorem victim_is_the_oldest:
  assumes "tabla self base xs ys"
  shows "((\<exists>x \<in> set xs. hour (cell self x) \<noteq> 0) \<longrightarrow> (\<exists>v \<in> set xs. diccionario_elegirVictima self = Some v \<and>
      hour (cell self v) \<noteq> 0 \<and> (\<forall>x \<in> set xs. hour (cell self x) \<noteq> 0 \<longrightarrow> hour (cell self v) \<le> hour (cell self x)))) \<and>
    ((\<forall>x \<in> set xs. hour (cell self x) = 0 \<and> \<not> candidata q (cell self x)) \<and> q = max_int (sint n) (slab_min_size self) \<and>
       q \<le> table_max_size self \<and> table_max_size self - table_current_size self < q \<longrightarrow>
      diccionario_obtenerDireccion self n = None)"
proof -
  have l: "lista (heap self) None (elements self) xs" using assms by (simp add: tabla_def)
  note v = victima_lista [OF l]
  have "diccionario_obtenerDireccion self n = None"
    if h: "\<forall>x \<in> set xs. hour (cell self x) = 0 \<and> \<not> candidata q (cell self x)" "q = max_int (sint n) (slab_min_size self)"
      "q \<le> table_max_size self" "table_max_size self - table_current_size self < q"
  proof -
    have nov: "diccionario_elegirVictima self = None" using v h(1) by auto
    have "diccionario_elegirVictima (self\<lparr>compactarMemoria := i\<rparr>) = None" for i
    proof -
      have "lista (heap (self\<lparr>compactarMemoria := i\<rparr>)) None (elements (self\<lparr>compactarMemoria := i\<rparr>)) xs" using l by simp
      from victima_lista [OF this] h(1) show ?thesis by (auto simp: cell_def)
    qed
    with nov h(4) have "hacer_lugar self q = None" by (auto simp: hacer_lugar_def Let_def)
    moreover have "elegir_particion self q = Some None" using elegir_lista [OF l, of q] h(1) by (auto split: if_splits)
    ultimately show ?thesis
      unfolding diccionario_obtenerDireccion_def h(2) [symmetric] using h(3) by (subst obtenerDireccion_loop.simps) simp
  qed
  with v show ?thesis by (auto split: if_splits)
qed

text \<open>The cache with its whole memory allocated and nothing stored.\<close>

definition cache_llena :: t_diccionario where
  "cache_llena = upd 0 (con_key [97, 0] 1 0) (reservar cache_vacia 0 256)"

lemma victim_is_the_oldest_witness: "diccionario_obtenerDireccion cache_llena 32 = None"
proof -
  have t: "tabla cache_llena 0 [0] [1, 2, 3, 4, 5, 6, 7, 8]" by code_simp
  have "\<forall>x \<in> set [0]. hour (cell cache_llena x) = 0 \<and> \<not> candidata 32 (cell cache_llena x)"
    "32 = max_int (sint (32 :: u32)) (slab_min_size cache_llena)" "32 \<le> table_max_size cache_llena"
    "table_max_size cache_llena - table_current_size cache_llena < 32" by code_simp+
  with victim_is_the_oldest [OF t, of 32 32] show ?thesis by blast
qed

text \<open>
  Compaction forgets the items it moves. Moving a used item into the free partition before it
  copies the bytes, the sizes and the key, but not the length of the key or the flags: the new
  place has an empty key that no request can match, and the old place keeps the key while it is
  no longer in use, so that it is taken for a reservation and is never free again.
\<close>

theorem compaction_forgets_items:
  assumes "mover_item self l p = Some self'" and "l \<noteq> p" and "l < length (heap self)" and "p < length (heap self)"
    and "libre (cell self l)"
  shows "ocupado (cell self' l) \<and> chunk_size (cell self' l) = chunk_size (cell self p) \<and>
    data_size (cell self' l) = data_size (cell self p) \<and> data (cell self' l) = data (cell self l) \<and>
    (\<forall>k n. \<not> key_matches k n (cell self' l)) \<and>
    \<not> ocupado (cell self' p) \<and> nkey (cell self' p) = nkey (cell self p) \<and> (nkey (cell self p) \<noteq> 0 \<longrightarrow> estaReservado (cell self' p))"
proof -
  have "nkey (cell self l) = 0" using assms(5) by (auto simp: libre_def estaReservado_def)
  moreover have fields: "heap (m\<lparr>mem_bytes := b\<rparr>) = heap m" "cell (m\<lparr>mem_bytes := b\<rparr>) q = cell m q" for m b q
    by (simp_all add: cell_def)
  ultimately show ?thesis using assms(1-4)
    by (auto simp: mover_item_def Let_def cell_upd fields key_matches_def estaReservado_def split: bind_splits if_splits)
qed

text \<open>Two items of 32 bytes, \<open>a\<close> and \<open>b\<close>; \<open>a\<close> has been deleted.\<close>

definition cache_con_hueco :: t_diccionario where
  "cache_con_hueco = upd 0 (\<lambda>e. e\<lparr>chunk_size := 32, next_p := Some 1\<rparr>)
     (upd 1 (\<lambda>e. con_key [98, 0] 1 0 (e\<lparr>prev_p := Some 0, next_p := None, chunk_size := 224, data := Some 32,
        data_size := 32, ocupado := True, hour := 9\<rparr>)) (cache_vacia\<lparr>nodes := Some 2\<rparr>))"

lemma compaction_forgets_items_witness:
  "\<exists>self'. mover_item cache_con_hueco 0 1 = Some self' \<and> diccionario_obtener cache_con_hueco [98, 0] 1 = Some (Some 1) \<and>
    ocupado (cell self' 0) \<and> data_size (cell self' 0) = 32 \<and> estaReservado (cell self' 1)"
proof -
  have c: "libre (cell cache_con_hueco 0)" "data_size (cell cache_con_hueco 1) = 32" "nkey (cell cache_con_hueco 1) = 1"
    "length (heap cache_con_hueco) = 9" "data (cell cache_con_hueco 0) = Some 0" "data (cell cache_con_hueco 1) = Some 32"
    "lista (heap cache_con_hueco) None (elements cache_con_hueco) [0, 1]"
    "List.find (\<lambda>x. key_matches [98, 0] 1 (cell cache_con_hueco x)) [0, 1] = Some 1" by code_simp+
  have "\<exists>self'. mover_item cache_con_hueco 0 1 = Some self'"
    unfolding mover_item_def c(5,6) Let_def KEY_SIZE_MAX_def bind.bind_lunit c(3) by simp
  moreover have "diccionario_obtener cache_con_hueco [98, 0] 1 = Some (Some 1)"
    unfolding diccionario_obtener_def buscar_lista [OF c(7)] c(8) ..
  ultimately obtain self' where "mover_item cache_con_hueco 0 1 = Some self'" "diccionario_obtener cache_con_hueco [98, 0] 1 = Some (Some 1)"
    by blast
  with compaction_forgets_items [of cache_con_hueco 0 1 self'] c(1-4) show ?thesis by auto
qed

section \<open>The buddy table\<close>

lemma power_two_low_bounds:
  assumes "0 < n"
  shows "power_two_low n \<le> n" "n < 2 * power_two_low n"
proof -
  have "floorlog 2 n \<noteq> 0" unfolding floorlog_eq_zero_iff using assms by simp
  then have f: "0 < floorlog 2 n" by simp
  have b: "2 ^ (floorlog 2 n - 1) \<le> n" "n < 2 ^ floorlog 2 n" using floorlog_bounds [of n 2] assms by auto
  show "power_two_low n \<le> n" using b(1) by (simp add: power_two_low_def)
  have "2 * 2 ^ (floorlog 2 n - 1) = (2 :: nat) ^ floorlog 2 n" using f by (metis power_eq_if less_irrefl)
  then show "n < 2 * power_two_low n" using b(2) by (simp add: power_two_low_def)
qed

lemma power_two_low_exact:
  assumes "0 < n"
  shows "power_two_low n = n \<longleftrightarrow> (\<exists>k. n = 2 ^ k)"
proof
  show "\<exists>k. n = 2 ^ k" if "power_two_low n = n" using that by (metis power_two_low_def)
  assume "\<exists>k. n = 2 ^ k"
  then obtain k where k: "n = 2 ^ k" ..
  obtain j where j: "power_two_low n = 2 ^ j" by (simp add: power_two_low_def)
  have "2 ^ j \<le> (2 :: nat) ^ k" "(2 :: nat) ^ k < 2 ^ Suc j" using power_two_low_bounds [OF assms] j k by simp_all
  then have "j \<le> k" "k < Suc j" by (simp_all only: power_increasing_iff power_strict_increasing_iff one_less_numeral_iff semiring_norm)
  then show "power_two_low n = n" using j k by simp
qed

lemma fold_upd_fields:
  "mem_size (fold (\<lambda>i. upd (g i) (f i)) is self) = mem_size self"
  "table_max_size (fold (\<lambda>i. upd (g i) (f i)) is self) = table_max_size self"
  "length (heap (fold (\<lambda>i. upd (g i) (f i)) is self)) = length (heap self)"
  by (induction "is" arbitrary: self) (simp_all add: upd_def)

text \<open>
  The buddy table takes the largest power of two that is not larger than the memory asked
  for, but its first partition has the full size asked for: unless that is a power of two, the
  partition reaches past the memory, by less than the memory's own size.
\<close>

theorem buddy_partition_and_memory:
  assumes "0 < slab" and "slab \<le> size_asked"
  shows "\<exists>d. diccionario_crear_buddy uninit (Some fuera) contents memory size_asked slab = Some d \<and>
    chunk_size (cell d 0) = size_asked \<and> mem_size d \<le> size_asked \<and> size_asked < 2 * mem_size d \<and>
    (mem_size d = size_asked \<longleftrightarrow> (\<exists>k. size_asked = 2 ^ k))"
proof -
  have pos: "0 < nat size_asked" "1 \<le> size_asked div slab" using assms by (simp_all add: pos_imp_zdiv_pos_iff int_one_le_iff_zero_less)
  obtain d where d: "diccionario_crear_buddy uninit (Some fuera) contents memory size_asked slab = Some d"
    and c: "chunk_size (cell d 0) = size_asked" "mem_size d = int (power_two_low (nat size_asked))"
    using assms pos(2)
    by (simp add: diccionario_crear_buddy_def Let_def inicializarElementos_def cell_upd fold_upd_fields, simp add: upd_def fold_upd_fields)
  note b = power_two_low_bounds [OF pos(1)]
  have "int (power_two_low (nat size_asked)) = size_asked \<longleftrightarrow> power_two_low (nat size_asked) = nat size_asked" using assms by auto
  also have "\<dots> \<longleftrightarrow> (\<exists>k. nat size_asked = 2 ^ k)" by (rule power_two_low_exact [OF pos(1)])
  also have "\<dots> \<longleftrightarrow> (\<exists>k. size_asked = 2 ^ k)" using assms by (simp add: nat_eq_iff)
  finally show ?thesis using d c b assms by (intro exI [of _ d]) auto
qed

lemma buddy_partition_and_memory_witness:
  "\<exists>d. diccionario_crear_buddy cache_vacia (Some celda_cero) (\<lambda>_. 0) 0 256 32 = Some d \<and> mem_size d = 256 \<and> chunk_size (cell d 0) = 256"
proof -
  have "(256 :: int) = 2 ^ 8" by simp
  then have "\<exists>k. (256 :: int) = 2 ^ k" by (rule exI)
  moreover have "(0 :: int) < 32" "(32 :: int) \<le> 256" by simp_all
  ultimately show ?thesis
    using buddy_partition_and_memory [of 32 256 cache_vacia celda_cero "\<lambda>_. 0" 0] by metis
qed

end
