(* ===== verification/Rc_Liberacion.thy ===== *)
theory Rc_Liberacion
  imports Rc_Cache
begin

text \<open>
  Releasing a partition, \<open>diccionario_eliminar\<close> of \<^verbatim>\<open>rc/source/diccionario_dinamicas.c\<close>, and deleting
  a key. \<open>hilera\<close> is the shape of the table read forward only: joining with the partitions after
  the released one leaves the backward link of the one that follows on a cell that is now spare.
\<close>

section \<open>Forward and backward links\<close>

fun atras :: "t_dict_element list \<Rightarrow> ptr \<Rightarrow> nat list \<Rightarrow> bool" where
  "atras h a [] \<longleftrightarrow> True"
| "atras h a (x # xs) \<longleftrightarrow> prev_p (h ! x) = a \<and> atras h (Some x) xs"

definition hilera :: "t_diccionario \<Rightarrow> nat \<Rightarrow> nat list \<Rightarrow> nat list \<Rightarrow> bool" where
  "hilera self base xs ys \<longleftrightarrow> pila (heap self) (elements self) xs \<and> pila (heap self) (nodes self) ys \<and>
     distinct (xs @ ys) \<and> cubre (heap self) base xs \<and>
     (\<Sum>x \<leftarrow> xs. chunk_size (heap self ! x)) = table_max_size self \<and> (\<forall>y \<in> set ys. chunk_size (heap self ! y) = 0)"

lemma lista_pila_atras: "lista h a p xs \<longleftrightarrow> pila h p xs \<and> atras h a xs"
  by (induction xs arbitrary: a p) auto

lemma tabla_hilera: "tabla self base xs ys \<longleftrightarrow> hilera self base xs ys \<and> atras (heap self) None xs"
  by (auto simp: tabla_def hilera_def lista_pila_atras)

lemma atras_append:
  "atras h a (us @ vs) \<longleftrightarrow> atras h a us \<and> atras h (if us = [] then a else Some (last us)) vs"
  by (induction us arbitrary: a) auto

lemma atras_frame: "atras h a xs \<Longrightarrow> \<forall>x \<in> set xs. prev_p (h' ! x) = prev_p (h ! x) \<Longrightarrow> atras h' a xs"
  by (induction xs arbitrary: a) auto

lemma pila_append_next: "pila h q (us @ p # vs) \<Longrightarrow> next_p (h ! p) = (if vs = [] then None else Some (hd vs))"
proof (induction us arbitrary: q)
  case Nil
  then show ?case by (cases vs) auto
qed auto

lemma buscar_pila: "pila (heap self) p xs \<Longrightarrow> buscar self stop p = Some (List.find (\<lambda>x. stop (cell self x)) xs)"
proof (induction xs arbitrary: p)
  case Nil
  then show ?case by (simp add: buscar.simps)
next
  case (Cons x xs)
  then have "next_p (cell self x) = next_p (heap self ! x)" by (simp add: cell_def)
  with Cons show ?case by (subst buscar.simps) auto
qed

lemma pila_absorb:
  assumes "pila h q (us @ a # b # vs)" and "length h' = length h" and "distinct (us @ a # b # vs)"
    and "next_p (h' ! a) = next_p (h ! b)" and "\<forall>x \<in> set us \<union> set vs. next_p (h' ! x) = next_p (h ! x)"
  shows "pila h' q (us @ a # vs)"
  using assms(1,3,5)
proof (induction us arbitrary: q)
  case Nil
  then have "pila h (next_p (h ! b)) vs" by simp
  then have "pila h' (next_p (h ! b)) vs" by (rule pila_frame) (use Nil.prems assms(2) in auto)
  with Nil assms show ?case by simp
next
  case (Cons u us)
  then show ?case using assms by auto
qed

lemma cubre_absorb:
  assumes "cubre h base (us @ a # b # vs)"
    and "data (h' ! c) = data (h ! a)" and "chunk_size (h' ! c) = chunk_size (h ! a) + chunk_size (h ! b)"
    and "\<forall>x \<in> set us \<union> set vs. data (h' ! x) = data (h ! x) \<and> chunk_size (h' ! x) = chunk_size (h ! x)"
  shows "cubre h' base (us @ c # vs)"
  using assms(1,4)
proof (induction us arbitrary: base)
  case Nil
  then have "cubre h (base + nat (chunk_size (h ! a)) + nat (chunk_size (h ! b))) vs" by simp
  then have "cubre h' (base + nat (chunk_size (h ! a)) + nat (chunk_size (h ! b))) vs"
    by (rule cubre_frame) (use Nil.prems in auto)
  moreover have "nat (chunk_size (h ! a) + chunk_size (h ! b)) = nat (chunk_size (h ! a)) + nat (chunk_size (h ! b))"
    using Nil by (intro nat_add_distrib) auto
  ultimately show ?case using Nil assms by (simp add: add.assoc)
next
  case (Cons u us)
  then show ?case using assms by auto
qed

section \<open>Joining two neighbours\<close>

definition misma_carga :: "t_dict_element \<Rightarrow> t_dict_element \<Rightarrow> bool" where
  \<comment> \<open>The same item; its links and the size of its partition may differ.\<close>
  "misma_carga e e' \<longleftrightarrow> (\<exists>c p n. e' = e\<lparr>chunk_size := c, prev_p := p, next_p := n\<rparr>)"

lemma misma_carga_fields:
  "misma_carga e e' \<longleftrightarrow> key e' = key e \<and> nkey e' = nkey e \<and> data e' = data e \<and> hour e' = hour e \<and>
     data_size e' = data_size e \<and> ocupado e' = ocupado e \<and> flags e' = flags e"
  unfolding misma_carga_def
  by (cases e; cases e') (auto simp: t_dict_element.defs)

lemma mismo_item_fields: "mismo_item e e' \<longleftrightarrow> misma_carga e e' \<and> chunk_size e' = chunk_size e"
  unfolding misma_carga_fields mismo_item_def by (cases e; cases e') (auto simp: t_dict_element.defs)

lemma mismo_trans: "mismo_item e e' \<Longrightarrow> mismo_item e' e'' \<Longrightarrow> mismo_item e e''"
  by (simp add: mismo_item_fields misma_carga_fields)

definition unido :: "t_diccionario \<Rightarrow> nat \<Rightarrow> nat \<Rightarrow> t_diccionario \<Rightarrow> bool" where
  \<comment> \<open>Partition \<open>b\<close> has become part of \<open>a\<close> before it, and its cell a spare one; backward links aside.\<close>
  "unido self a b self' \<longleftrightarrow> elements self' = elements self \<and> nodes self' = Some b \<and> table_max_size self' = table_max_size self \<and>
     slab_min_size self' = slab_min_size self \<and> length (heap self') = length (heap self) \<and>
     (\<forall>x. misma_carga (cell self x) (cell self' x)) \<and>
     chunk_size (cell self' a) = chunk_size (cell self a) + chunk_size (cell self b) \<and> next_p (cell self' a) = next_p (cell self b) \<and>
     chunk_size (cell self' b) = 0 \<and> next_p (cell self' b) = nodes self \<and>
     (\<forall>x. x \<noteq> a \<longrightarrow> x \<noteq> b \<longrightarrow> chunk_size (cell self' x) = chunk_size (cell self x) \<and> next_p (cell self' x) = next_p (cell self x))"

lemma unido_hilera:
  assumes t: "hilera self base (us @ a # b # vs) ys" and u: "unido self a b self'"
  shows "hilera self' base (us @ a # vs) (b # ys)"
proof -
  let ?h = "heap self" and ?h' = "heap self'"
  have d: "distinct (us @ a # b # vs)" "a \<noteq> b" "b \<notin> set us \<union> set vs \<union> set ys" "a \<notin> set us \<union> set vs \<union> set ys"
    and b: "b < length ?h" using t pila_bounds [of ?h "elements self" "us @ a # b # vs" b] by (auto simp: hilera_def)
  have len: "length ?h' = length ?h" using u by (simp add: unido_def)
  have fa: "next_p (?h' ! a) = next_p (?h ! b)" "data (?h' ! a) = data (?h ! a)"
      "chunk_size (?h' ! a) = chunk_size (?h ! a) + chunk_size (?h ! b)"
    and fb: "next_p (?h' ! b) = nodes self" "chunk_size (?h' ! b) = 0"
    using u by (auto simp: unido_def cell_def misma_carga_fields)
  have fx: "next_p (?h' ! x) = next_p (?h ! x) \<and> data (?h' ! x) = data (?h ! x) \<and> chunk_size (?h' ! x) = chunk_size (?h ! x)"
    if x: "x \<noteq> a" "x \<noteq> b" for x
    using u x by (auto simp: unido_def cell_def misma_carga_fields)
  have fr: "next_p (?h' ! x) = next_p (?h ! x) \<and> data (?h' ! x) = data (?h ! x) \<and> chunk_size (?h' ! x) = chunk_size (?h ! x)"
    if "x \<in> set us \<union> set vs \<union> set ys" for x using that d by (intro fx) blast+
  have "pila ?h' (elements self') (us @ a # vs)"
    using pila_absorb [of ?h "elements self" us a b vs ?h'] t d(1) len fa fr u by (simp add: hilera_def unido_def)
  moreover have "pila ?h' (nodes self) ys"
    using t pila_frame [of ?h "nodes self" ys ?h'] fr len by (simp add: hilera_def)
  moreover have "cubre ?h' base (us @ a # vs)"
    using cubre_absorb [of ?h base us a b vs ?h' a] t fa fr by (simp add: hilera_def)
  moreover have "(\<Sum>x \<leftarrow> us @ a # vs. chunk_size (?h' ! x)) = table_max_size self"
  proof -
    have "(\<Sum>x \<leftarrow> us. chunk_size (?h' ! x)) = (\<Sum>x \<leftarrow> us. chunk_size (?h ! x))"
      "(\<Sum>x \<leftarrow> vs. chunk_size (?h' ! x)) = (\<Sum>x \<leftarrow> vs. chunk_size (?h ! x))"
      using fr by (intro arg_cong [where f = sum_list] map_cong; simp)+
    with t fa show ?thesis by (simp add: hilera_def)
  qed
  moreover have "\<forall>y \<in> set (b # ys). chunk_size (?h' ! y) = 0"
    using t fb(2) fr by (simp add: hilera_def)
  moreover have "distinct ((us @ a # vs) @ b # ys)" "nodes self' = Some b" "table_max_size self' = table_max_size self"
    using t u by (auto simp: hilera_def unido_def)
  ultimately show ?thesis using fb(1) b len by (simp add: hilera_def)
qed

lemma devolver_cells:
  assumes "p < length (heap self)" and "\<forall>q. nodes self = Some q \<longrightarrow> q < length (heap self) \<and> q \<noteq> p"
  shows "cell (devolver_nodo p self) x = (if x = p then (cell self p)\<lparr>prev_p := None, next_p := nodes self\<rparr>
      else if nodes self = Some x then (cell self x)\<lparr>prev_p := Some p\<rparr> else cell self x)"
    "nodes (devolver_nodo p self) = Some p" "elements (devolver_nodo p self) = elements self"
    "table_max_size (devolver_nodo p self) = table_max_size self" "slab_min_size (devolver_nodo p self) = slab_min_size self"
    "length (heap (devolver_nodo p self)) = length (heap self)"
  using assms by (auto simp: devolver_nodo_def Let_def cell_upd cell_upd_if)


section \<open>The two loops\<close>

lemma unido_carga:
  assumes "unido self a b self'"
  shows "misma_carga (cell self x) (cell self' x)" "x \<noteq> a \<Longrightarrow> x \<noteq> b \<Longrightarrow> mismo_item (cell self x) (cell self' x)"
    "chunk_size (cell self' a) = chunk_size (cell self a) + chunk_size (cell self b)"
  using assms by (auto simp: unido_def mismo_item_fields)

lemma hilera_places:
  assumes "hilera self base (us @ a # b # vs) ys"
  shows "a < length (heap self)" "b < length (heap self)" "a \<noteq> b"
    "nodes self = (if ys = [] then None else Some (hd ys))"
    "next_p (cell self b) = (if vs = [] then None else Some (hd vs))" "next_p (cell self a) = Some b"
    "\<And>x. x \<in> set vs \<union> set ys \<Longrightarrow> x < length (heap self)"
proof -
  have p: "pila (heap self) (elements self) (us @ a # b # vs)" "pila (heap self) (nodes self) ys" "distinct (us @ a # b # vs)"
    using assms by (auto simp: hilera_def)
  show "a < length (heap self)" "b < length (heap self)" "a \<noteq> b" "\<And>x. x \<in> set vs \<union> set ys \<Longrightarrow> x < length (heap self)"
    using p pila_bounds [OF p(1)] pila_bounds [OF p(2)] by auto
  show "nodes self = (if ys = [] then None else Some (hd ys))" using p(2) by (cases ys) auto
  show "next_p (cell self b) = (if vs = [] then None else Some (hd vs))" "next_p (cell self a) = Some b"
    using pila_append_next [of "heap self" "elements self" "us @ [a]" b vs] pila_append_next [OF p(1)] p(1) by (simp_all add: cell_def)
qed

lemma juntar_anterior_step:
  assumes t: "hilera self base (us @ a # b # vs) ys" and "\<not> ocupado (cell self a)"
  shows "\<exists>self'. juntar_anterior self b (Some a) = juntar_anterior self' a (prev_p (cell self' a)) \<and> unido self a b self' \<and>
    (\<forall>x. x \<noteq> b \<longrightarrow> x \<notin> set ys \<longrightarrow> prev_p (cell self' x) = (if vs \<noteq> [] \<and> x = hd vs then Some a else prev_p (cell self x)))"
proof -
  note h = hilera_places [OF t]
  have d: "distinct (us @ a # b # vs @ ys)" using t by (simp add: hilera_def)
  define s1 where "s1 = upd a (\<lambda>e. e\<lparr>chunk_size := chunk_size e + chunk_size (cell self b)\<rparr>) self"
  define s2 where "s2 = upd b (\<lambda>e. e\<lparr>chunk_size := 0\<rparr>) s1"
  define s3 where "s3 = upd a (\<lambda>e. e\<lparr>next_p := next_p (cell s2 b)\<rparr>) s2"
  define s4 where "s4 = upd_if (next_p (cell s3 b)) (\<lambda>e. e\<lparr>prev_p := Some a\<rparr>) s3"
  define s5 where "s5 = devolver_nodo b s4"
  have run: "juntar_anterior self b (Some a) = juntar_anterior s5 a (prev_p (cell s5 a))"
    using assms(2) by (subst juntar_anterior.simps) (simp add: Let_def s1_def s2_def s3_def s4_def s5_def)
  have len: "length (heap s4) = length (heap self)" "nodes s4 = nodes self"
    by (simp_all add: s4_def s3_def s2_def s1_def)
  have c3: "cell s3 x = (if x = a then (cell self a)\<lparr>chunk_size := chunk_size (cell self a) + chunk_size (cell self b), next_p := next_p (cell self b)\<rparr>
      else if x = b then (cell self b)\<lparr>chunk_size := 0\<rparr> else cell self x)" for x
    using h by (auto simp: s3_def s2_def s1_def cell_upd)
  have c4: "cell s4 x = (if next_p (cell self b) = Some x then (cell self x)\<lparr>prev_p := Some a\<rparr> else cell s3 x)" for x
  proof -
    have "next_p (cell s3 b) = next_p (cell self b)" using h by (simp add: c3)
    moreover have "next_p (cell self b) = Some q \<longrightarrow> q < length (heap s3) \<and> q \<noteq> a \<and> q \<noteq> b" for q
      using h d by (auto simp: s3_def s2_def s1_def split: if_splits)
    ultimately show ?thesis using cell_upd_if [of "next_p (cell self b)" s3] c3 by (auto simp: s4_def)
  qed
  have nd: "nodes s4 = Some q \<longrightarrow> q < length (heap s4) \<and> q \<noteq> b \<and> q \<noteq> a \<and> q \<notin> set vs" for q
    using h d len by (auto split: if_splits)
  have c5: "cell s5 x = (if x = b then (cell s4 b)\<lparr>prev_p := None, next_p := nodes self\<rparr>
      else if nodes self = Some x then (cell s4 x)\<lparr>prev_p := Some b\<rparr> else cell s4 x)" for x
    using devolver_cells(1) [of b s4] h nd len by (simp add: s5_def)
  have ne: "next_p (cell self b) \<noteq> Some a" "next_p (cell self b) \<noteq> Some b" "nodes self \<noteq> Some a" "a \<noteq> b"
    using h(3-5) d by (auto split: if_splits)
  have len5: "nodes s5 = Some b" "elements s5 = elements self" "table_max_size s5 = table_max_size self"
    "slab_min_size s5 = slab_min_size self" "length (heap s5) = length (heap self)"
    using devolver_cells(2-6) [of b s4] h(2) nd len by (simp_all add: s5_def, simp_all add: s4_def s3_def s2_def s1_def)
  have "misma_carga (cell self x) (cell s5 x)" for x by (auto simp: c5 c4 c3 misma_carga_fields)
  then have "unido self a b s5" using len5 ne by (simp add: unido_def c5 c4 c3)
  moreover have "prev_p (cell s5 x) = (if vs \<noteq> [] \<and> x = hd vs then Some a else prev_p (cell self x))" if "x \<noteq> b" "x \<notin> set ys" for x
    using that h(4,5) d by (auto simp: c5 c4 c3 split: if_splits)
  ultimately show ?thesis using run by blast
qed


lemma juntar_posterior_step:
  assumes t: "hilera self base (us @ a # b # vs) ys" and "\<not> ocupado (cell self b)"
  shows "\<exists>self'. juntar_posterior self a (Some b) = juntar_posterior self' a (next_p (cell self' a)) \<and> unido self a b self' \<and>
    (\<forall>x. x \<noteq> b \<longrightarrow> x \<notin> set ys \<longrightarrow> prev_p (cell self' x) = prev_p (cell self x))"
proof -
  note h = hilera_places [OF t]
  have d: "distinct (us @ a # b # vs @ ys)" using t by (simp add: hilera_def)
  define s1 where "s1 = upd a (\<lambda>e. e\<lparr>chunk_size := chunk_size e + chunk_size (cell self b)\<rparr>) self"
  define s2 where "s2 = upd b (\<lambda>e. e\<lparr>chunk_size := 0\<rparr>) s1"
  define s3 where "s3 = upd a (\<lambda>e. e\<lparr>next_p := next_p (cell s2 b)\<rparr>) s2"
  define s4 where "s4 = devolver_nodo b s3"
  have run: "juntar_posterior self a (Some b) = juntar_posterior s4 a (next_p (cell s4 a))"
    using assms(2) by (subst juntar_posterior.simps) (simp add: Let_def s1_def s2_def s3_def s4_def)
  have len: "length (heap s3) = length (heap self)" "nodes s3 = nodes self" by (simp_all add: s3_def s2_def s1_def)
  have c3: "cell s3 x = (if x = a then (cell self a)\<lparr>chunk_size := chunk_size (cell self a) + chunk_size (cell self b), next_p := next_p (cell self b)\<rparr>
      else if x = b then (cell self b)\<lparr>chunk_size := 0\<rparr> else cell self x)" for x
    using h by (auto simp: s3_def s2_def s1_def cell_upd)
  have nd: "nodes s3 = Some q \<longrightarrow> q < length (heap s3) \<and> q \<noteq> b \<and> q \<noteq> a" for q
    using h d len by (auto split: if_splits)
  have c4: "cell s4 x = (if x = b then (cell s3 b)\<lparr>prev_p := None, next_p := nodes self\<rparr>
      else if nodes self = Some x then (cell s3 x)\<lparr>prev_p := Some b\<rparr> else cell s3 x)" for x
    using devolver_cells(1) [of b s3] h nd len by (simp add: s4_def)
  have len4: "nodes s4 = Some b" "elements s4 = elements self" "table_max_size s4 = table_max_size self"
    "slab_min_size s4 = slab_min_size self" "length (heap s4) = length (heap self)"
    using devolver_cells(2-6) [of b s3] h(2) nd len by (simp_all add: s4_def, simp_all add: s3_def s2_def s1_def)
  have "misma_carga (cell self x) (cell s4 x)" for x by (auto simp: c4 c3 misma_carga_fields)
  then have "unido self a b s4" using len4 nd len h(3) by (simp add: unido_def c4 c3)
  moreover have "prev_p (cell s4 x) = prev_p (cell self x)" if "x \<noteq> b" "x \<notin> set ys" for x
    using that h(4) by (auto simp: c4 c3 split: if_splits)
  ultimately show ?thesis using run by blast
qed

lemma atras_absorb:
  assumes "atras h None (us @ a # b # vs)" and "distinct (us @ a # vs)"
    and "\<forall>x \<in> set (us @ a # vs). prev_p (h' ! x) = (if vs \<noteq> [] \<and> x = hd vs then Some a else prev_p (h ! x))"
  shows "atras h' None (us @ a # vs)"
proof (cases vs)
  case Nil
  with assms show ?thesis by (auto simp: atras_append intro: atras_frame)
next
  case (Cons v zs)
  with assms have "atras h None (us @ [a])" "atras h (Some v) zs" by (auto simp: atras_append)
  moreover have "\<forall>x \<in> set (us @ [a]) \<union> set zs. prev_p (h' ! x) = prev_p (h ! x)" "prev_p (h' ! v) = Some a"
    using assms(2,3) Cons by auto
  ultimately have "atras h' None (us @ [a])" "atras h' (Some v) zs"
    using atras_frame [of h None "us @ [a]" h'] atras_frame [of h "Some v" zs h'] by auto
  with Cons \<open>prev_p (h' ! v) = Some a\<close> show ?thesis by (auto simp: atras_append)
qed

definition reunido :: "t_diccionario \<Rightarrow> nat list \<Rightarrow> nat list \<Rightarrow> nat \<Rightarrow> t_diccionario \<Rightarrow> bool" where
  \<comment> \<open>The partitions \<open>bs\<close> are one, \<open>r\<close>; those of \<open>qs\<close> are as before.\<close>
  "reunido self bs qs r self' \<longleftrightarrow> slab_min_size self' = slab_min_size self \<and> (\<forall>x. misma_carga (cell self x) (cell self' x)) \<and>
     chunk_size (cell self' r) = (\<Sum>x \<leftarrow> bs. chunk_size (cell self x)) \<and> (\<forall>x \<in> set qs. mismo_item (cell self x) (cell self' x))"

lemma reunido_step:
  assumes "unido self a b self1" and "reunido self1 (fs @ a # gs) qs r self'" and "a \<notin> set (fs @ gs @ qs)" "b \<notin> set (fs @ gs @ qs)"
  shows "reunido self (fs @ a # b # gs) qs r self'"
proof -
  have m: "mismo_item (cell self x) (cell self1 x)" if "x \<in> set (fs @ gs @ qs)" for x
  proof -
    have "x \<noteq> a" "x \<noteq> b" using that assms(3,4) by auto
    then show ?thesis by (rule unido_carga(2) [OF assms(1)])
  qed
  then have s: "(\<Sum>x \<leftarrow> fs. chunk_size (cell self1 x)) = (\<Sum>x \<leftarrow> fs. chunk_size (cell self x))"
    "(\<Sum>x \<leftarrow> gs. chunk_size (cell self1 x)) = (\<Sum>x \<leftarrow> gs. chunk_size (cell self x))"
    by (intro arg_cong [where f = sum_list] map_cong; simp add: mismo_item_fields)+
  have "slab_min_size self1 = slab_min_size self" using assms(1) by (simp add: unido_def)
  moreover have "misma_carga (cell self x) (cell self' x)" for x
    using unido_carga(1) [OF assms(1), of x] assms(2) by (simp add: reunido_def misma_carga_fields)
  moreover have "mismo_item (cell self x) (cell self' x)" if "x \<in> set qs" for x
    using m [of x] assms(2) that mismo_trans by (fastforce simp: reunido_def)
  ultimately show ?thesis using assms(2) s unido_carga(3) [OF assms(1)] by (simp add: reunido_def)
qed

lemma reunido_refl: "reunido self [r] qs r self"
  by (simp add: reunido_def misma_carga_fields)

lemma juntar_anterior_ok:
  assumes "tabla self base (us @ fs @ it # vs) ys" and "\<forall>x \<in> set fs. \<not> ocupado (cell self x)"
    and "us \<noteq> [] \<longrightarrow> ocupado (cell self (last us))"
  shows "\<exists>self'. juntar_anterior self it (prev_p (cell self it)) = Some (hd (fs @ [it]), self') \<and>
    tabla self' base (us @ hd (fs @ [it]) # vs) (tl (fs @ [it]) @ ys) \<and> reunido self (fs @ [it]) (us @ vs) (hd (fs @ [it])) self'"
  using assms
proof (induction fs arbitrary: self it ys rule: rev_induct)
  case Nil
  then have "prev_p (cell self it) = (if us = [] then None else Some (last us))"
    by (simp add: tabla_hilera atras_append cell_def)
  then have "juntar_anterior self it (prev_p (cell self it)) = Some (it, self)"
    using Nil(3) by (subst juntar_anterior.simps) simp
  then show ?case using Nil by (simp add: reunido_refl)
next
  case (snoc a fs)
  have t: "hilera self base ((us @ fs) @ a # it # vs) ys" and b: "atras (heap self) None ((us @ fs) @ a # it # vs)"
    using snoc.prems(1) by (simp_all add: tabla_hilera)
  have d: "distinct (us @ fs @ a # it # vs @ ys)" using t by (simp add: hilera_def)
  obtain s1 where s1: "juntar_anterior self it (Some a) = juntar_anterior s1 a (prev_p (cell s1 a))" "unido self a it s1"
    "\<forall>x. x \<noteq> it \<longrightarrow> x \<notin> set ys \<longrightarrow> prev_p (cell s1 x) = (if vs \<noteq> [] \<and> x = hd vs then Some a else prev_p (cell self x))"
    using juntar_anterior_step [OF t] snoc.prems(2) by auto
  have "\<forall>x \<in> set ((us @ fs) @ a # vs). prev_p (heap s1 ! x) = (if vs \<noteq> [] \<and> x = hd vs then Some a else prev_p (heap self ! x))"
  proof
    fix x assume "x \<in> set ((us @ fs) @ a # vs)"
    then have "x \<noteq> it" "x \<notin> set ys" using d by auto
    with s1(3) show "prev_p (heap s1 ! x) = (if vs \<noteq> [] \<and> x = hd vs then Some a else prev_p (heap self ! x))"
      by (simp add: cell_def)
  qed
  then have "atras (heap s1) None ((us @ fs) @ a # vs)" by (intro atras_absorb [OF b]) (use d in auto)
  then have t1: "tabla s1 base (us @ fs @ a # vs) (it # ys)"
    using unido_hilera [OF t s1(2)] by (simp add: tabla_hilera)
  have oc: "ocupado (cell s1 x) = ocupado (cell self x)" for x
    using unido_carga(1) [OF s1(2), of x] by (simp add: misma_carga_fields)
  obtain s2 where s2: "juntar_anterior s1 a (prev_p (cell s1 a)) = Some (hd (fs @ [a]), s2)"
    "tabla s2 base (us @ hd (fs @ [a]) # vs) (tl (fs @ [a]) @ it # ys)" "reunido s1 (fs @ [a]) (us @ vs) (hd (fs @ [a])) s2"
    using snoc.IH [OF t1] snoc.prems(2,3) by (auto simp: oc)
  have "prev_p (cell self it) = Some a" using b by (simp add: atras_append cell_def)
  moreover have "reunido self (fs @ a # it # []) (us @ vs) (hd (fs @ [a])) s2"
    using s2(3) d by (intro reunido_step [OF s1(2)]) auto
  ultimately show ?case using s1(1) s2(1,2) by (cases fs) simp_all
qed

lemma juntar_posterior_ok:
  assumes "hilera self base (us @ it # ps @ vs) ys" and "\<forall>x \<in> set ps. \<not> ocupado (cell self x)"
    and "vs \<noteq> [] \<longrightarrow> ocupado (cell self (hd vs))"
  shows "\<exists>self'. juntar_posterior self it (next_p (cell self it)) = Some (it, self') \<and>
    hilera self' base (us @ it # vs) (rev ps @ ys) \<and> reunido self (it # ps) (us @ vs) it self' \<and>
    (\<forall>x. x \<notin> set ps \<union> set ys \<longrightarrow> prev_p (cell self' x) = prev_p (cell self x))"
  using assms
proof (induction ps arbitrary: self ys)
  case Nil
  then have "pila (heap self) (elements self) (us @ it # vs)" by (simp add: hilera_def)
  from pila_append_next [OF this] have "juntar_posterior self it (next_p (cell self it)) = Some (it, self)"
    using Nil(3) by (subst juntar_posterior.simps) (simp add: cell_def)
  then show ?case using Nil by (simp add: reunido_refl)
next
  case (Cons b ps)
  have t: "hilera self base (us @ it # b # ps @ vs) ys" using Cons.prems(1) by simp
  have d: "distinct (us @ it # b # ps @ vs @ ys)" using t by (simp add: hilera_def)
  obtain s1 where s1: "juntar_posterior self it (Some b) = juntar_posterior s1 it (next_p (cell s1 it))" "unido self it b s1"
    "\<forall>x. x \<noteq> b \<longrightarrow> x \<notin> set ys \<longrightarrow> prev_p (cell s1 x) = prev_p (cell self x)"
    using juntar_posterior_step [OF t] Cons.prems(2) by auto
  have oc: "ocupado (cell s1 x) = ocupado (cell self x)" for x
    using unido_carga(1) [OF s1(2), of x] by (simp add: misma_carga_fields)
  obtain s2 where s2: "juntar_posterior s1 it (next_p (cell s1 it)) = Some (it, s2)"
    "hilera s2 base (us @ it # vs) (rev ps @ b # ys)" "reunido s1 (it # ps) (us @ vs) it s2"
    "\<forall>x. x \<notin> set ps \<union> set (b # ys) \<longrightarrow> prev_p (cell s2 x) = prev_p (cell s1 x)"
    using Cons.IH [OF unido_hilera [OF t s1(2)]] Cons.prems(2,3) by (auto simp: oc)
  have "reunido self ([] @ it # b # ps) (us @ vs) it s2" using s2(3) d by (intro reunido_step [OF s1(2)]) auto
  moreover have "next_p (cell self it) = Some b" by (rule hilera_places(6) [OF t])
  moreover have "\<forall>x. x \<notin> set (b # ps) \<union> set ys \<longrightarrow> prev_p (cell s2 x) = prev_p (cell self x)" using s1(3) s2(4) by simp
  ultimately show ?case using s1(1) s2(1,2) by simp
qed


section \<open>Releasing\<close>

lemma limpiar_item_ok:
  assumes "tabla self base xs ys" and "it \<in> set xs"
  shows "tabla (limpiar_item it self) base xs ys" "slab_min_size (limpiar_item it self) = slab_min_size self"
    "cell (limpiar_item it self) x = (if x = it then (cell self x)\<lparr>key := (key (cell self x))[0 := 0], hour := 0, nkey := 0, flags := 0,
       ocupado := False, data_size := 0\<rparr> else cell self x)"
proof -
  let ?f = "\<lambda>e. e\<lparr>key := (key e)[0 := 0], hour := 0, nkey := 0, flags := 0, ocupado := False, data_size := 0\<rparr>"
  have "payload ?f" by (simp add: payload_def)
  then show "tabla (limpiar_item it self) base xs ys"
    unfolding limpiar_item_def Let_def using assms(1) by (intro tabla_upd) (simp_all add: tabla_size)
  show "slab_min_size (limpiar_item it self) = slab_min_size self" by (simp add: limpiar_item_def)
  show "cell (limpiar_item it self) x = (if x = it then ?f (cell self x) else cell self x)"
    using tabla_bounds [OF assms] by (simp add: limpiar_item_def cell_upd)
qed

lemma juntar_ok:
  assumes t: "tabla self base (us @ fs @ it # ps @ vs) ys" and free: "\<forall>x \<in> set fs \<union> set ps. \<not> ocupado (cell self x)"
    and ends: "us \<noteq> [] \<longrightarrow> ocupado (cell self (last us))" "vs \<noteq> [] \<longrightarrow> ocupado (cell self (hd vs))"
    and r: "r = hd (fs @ [it])"
  shows "\<exists>s1 s2. juntar_anterior self it (prev_p (cell self it)) = Some (r, s1) \<and> juntar_posterior s1 r (next_p (cell s1 r)) = Some (r, s2) \<and>
    hilera s2 base (us @ r # vs) (rev ps @ tl (fs @ [it]) @ ys) \<and> reunido self (fs @ it # ps) (us @ vs) r s2 \<and>
    atras (heap s2) None (us @ [r]) \<and> (vs \<noteq> [] \<longrightarrow> atras (heap s2) (Some (last (r # ps))) vs)"
proof -
  obtain s1 where s1: "juntar_anterior self it (prev_p (cell self it)) = Some (r, s1)"
    "tabla s1 base (us @ r # ps @ vs) (tl (fs @ [it]) @ ys)" "reunido self (fs @ [it]) (us @ ps @ vs) r s1"
    using juntar_anterior_ok [OF t] free ends(1) by (auto simp: r)
  have h1: "hilera s1 base (us @ r # ps @ vs) (tl (fs @ [it]) @ ys)" and b1: "atras (heap s1) None (us @ r # ps @ vs)"
    using s1(2) by (simp_all add: tabla_hilera)
  have oc: "ocupado (cell s1 x) = ocupado (cell self x)" for x using s1(3) by (simp add: reunido_def misma_carga_fields)
  obtain s2 where s2: "juntar_posterior s1 r (next_p (cell s1 r)) = Some (r, s2)"
    "hilera s2 base (us @ r # vs) (rev ps @ tl (fs @ [it]) @ ys)" "reunido s1 (r # ps) (us @ vs) r s2"
    "\<forall>x. x \<notin> set ps \<union> set (tl (fs @ [it]) @ ys) \<longrightarrow> prev_p (cell s2 x) = prev_p (cell s1 x)"
    using juntar_posterior_ok [OF h1] free ends(2) by (auto simp: oc)
  have "(\<Sum>x \<leftarrow> ps. chunk_size (cell s1 x)) = (\<Sum>x \<leftarrow> ps. chunk_size (cell self x))"
    using s1(3) by (intro arg_cong [where f = sum_list] map_cong) (auto simp: reunido_def mismo_item_fields)
  then have "reunido self (fs @ it # ps) (us @ vs) r s2"
    using s1(3) s2(3) by (auto simp: reunido_def misma_carga_fields mismo_item_fields)
  moreover have pr: "prev_p (heap s2 ! x) = prev_p (heap s1 ! x)" if "x \<in> set (us @ [r]) \<union> set vs" for x
  proof -
    have "x \<notin> set ps \<union> set (tl (fs @ [it]) @ ys)" using s2(2) that by (auto simp: hilera_def)
    then show ?thesis using s2(4) by (simp add: cell_def)
  qed
  have "atras (heap s1) None (us @ [r])" "vs \<noteq> [] \<longrightarrow> atras (heap s1) (Some (last (r # ps))) vs"
    using b1 by (auto simp: atras_append)
  then have "atras (heap s2) None (us @ [r])" "vs \<noteq> [] \<longrightarrow> atras (heap s2) (Some (last (r # ps))) vs"
    using pr atras_frame [of "heap s1" None "us @ [r]" "heap s2"] atras_frame [of "heap s1" "Some (last (r # ps))" vs "heap s2"]
    by (simp_all del: last.simps)
  ultimately show ?thesis using s1(1) s2(1,2) by blast
qed

lemma eliminar_ok:
  assumes t: "tabla self base (us @ fs @ it # ps @ vs) ys" and free: "\<forall>x \<in> set fs \<union> set ps. \<not> ocupado (cell self x)"
    and ends: "us \<noteq> [] \<longrightarrow> ocupado (cell self (last us))" "vs \<noteq> [] \<longrightarrow> ocupado (cell self (hd vs))"
    and r: "r = hd (fs @ [it])"
  shows "\<exists>self'. diccionario_eliminar self it = Some (r, self') \<and> hilera self' base (us @ r # vs) (rev ps @ tl (fs @ [it]) @ ys) \<and>
    slab_min_size self' = slab_min_size self \<and>
    chunk_size (cell self' r) = (\<Sum>x \<leftarrow> fs @ it # ps. chunk_size (cell self x)) \<and>
    (\<forall>x \<in> set us \<union> set vs. mismo_item (cell self x) (cell self' x)) \<and>
    (\<forall>x. x \<noteq> it \<longrightarrow> misma_carga (cell self x) (cell self' x)) \<and> nkey (cell self' it) = 0 \<and> \<not> ocupado (cell self' it) \<and>
    atras (heap self') None (us @ [r]) \<and> (vs \<noteq> [] \<longrightarrow> atras (heap self') (Some (last (r # ps))) vs)"
proof -
  have d: "distinct (us @ fs @ it # ps @ vs)" and m: "it \<in> set (us @ fs @ it # ps @ vs)" using t by (auto simp: tabla_def)
  define s0 where "s0 = limpiar_item it self"
  note l = limpiar_item_ok [OF t m, folded s0_def]
  have c0: "cell s0 x = cell self x" if "x \<noteq> it" for x using l(3) that by simp
  have cit: "nkey (cell s0 it) = 0" "\<not> ocupado (cell s0 it)" "chunk_size (cell s0 it) = chunk_size (cell self it)"
    using l(3) by simp_all
  have chunk0: "chunk_size (cell s0 x) = chunk_size (cell self x)" for x using c0 cit by (cases "x = it") simp_all
  have same: "cell s0 x = cell self x" if "x \<in> set us \<union> set fs \<union> set ps \<union> set vs" for x
    using that d by (intro c0) auto
  have "\<forall>x \<in> set fs \<union> set ps. \<not> ocupado (cell s0 x)" "us \<noteq> [] \<longrightarrow> ocupado (cell s0 (last us))" "vs \<noteq> [] \<longrightarrow> ocupado (cell s0 (hd vs))"
    using free ends by (simp_all add: same)
  from juntar_ok [OF l(1) this r] obtain s1 s2 where j: "juntar_anterior s0 it (prev_p (cell s0 it)) = Some (r, s1)"
    "juntar_posterior s1 r (next_p (cell s1 r)) = Some (r, s2)"
    "hilera s2 base (us @ r # vs) (rev ps @ tl (fs @ [it]) @ ys)" "reunido s0 (fs @ it # ps) (us @ vs) r s2"
    "atras (heap s2) None (us @ [r])" "vs \<noteq> [] \<longrightarrow> atras (heap s2) (Some (last (r # ps))) vs" by blast
  have "diccionario_eliminar self it = Some (r, s2)" using j(1,2) by (simp add: diccionario_eliminar_def s0_def)
  moreover have "slab_min_size s2 = slab_min_size self" using j(4) l(2) by (simp add: reunido_def)
  moreover have "chunk_size (cell s2 r) = (\<Sum>x \<leftarrow> fs @ it # ps. chunk_size (cell self x))" using j(4) by (simp add: reunido_def chunk0)
  moreover have "\<forall>x \<in> set us \<union> set vs. mismo_item (cell self x) (cell s2 x)"
  proof
    fix x assume x: "x \<in> set us \<union> set vs"
    then have "mismo_item (cell s0 x) (cell s2 x)" using j(4) by (simp add: reunido_def)
    moreover have "cell s0 x = cell self x" using x by (intro same) blast
    ultimately show "mismo_item (cell self x) (cell s2 x)" by simp
  qed
  moreover have "\<forall>x. x \<noteq> it \<longrightarrow> misma_carga (cell self x) (cell s2 x)" using j(4) c0 by (metis reunido_def)
  moreover have "misma_carga (cell s0 it) (cell s2 it)" using j(4) by (simp add: reunido_def)
  then have "nkey (cell s2 it) = 0" "\<not> ocupado (cell s2 it)" using cit by (simp_all add: misma_carga_fields)
  ultimately show ?thesis using j(3,5,6) by blast
qed


section \<open>Deleting a key\<close>

lemma split_free:
  assumes "x \<in> set xs"
  shows "\<exists>us fs ps vs. xs = us @ fs @ x # ps @ vs \<and> (\<forall>z \<in> set fs \<union> set ps. \<not> P z) \<and> (us \<noteq> [] \<longrightarrow> P (last us)) \<and> (vs \<noteq> [] \<longrightarrow> P (hd vs))"
proof -
  obtain as bs where x: "xs = as @ x # bs" using assms by (auto simp: in_set_conv_decomp)
  define us fs where "us = rev (dropWhile (\<lambda>z. \<not> P z) (rev as))" and "fs = rev (takeWhile (\<lambda>z. \<not> P z) (rev as))"
  define ps vs where "ps = takeWhile (\<lambda>z. \<not> P z) bs" and "vs = dropWhile (\<lambda>z. \<not> P z) bs"
  have "us @ fs = as" unfolding us_def fs_def by (metis rev_append rev_rev_ident takeWhile_dropWhile_id)
  moreover have "ps @ vs = bs" by (simp add: ps_def vs_def)
  moreover have "\<forall>z \<in> set fs \<union> set ps. \<not> P z" by (auto simp: fs_def ps_def dest: set_takeWhileD)
  moreover have "us \<noteq> [] \<longrightarrow> P (last us)" "vs \<noteq> [] \<longrightarrow> P (hd vs)"
    using hd_dropWhile [of "\<lambda>z. \<not> P z"] by (auto simp: us_def vs_def last_rev)
  ultimately show ?thesis using x by (metis append_assoc)
qed

lemma obtener_hilera:
  assumes "hilera self base xs ys"
  shows "diccionario_obtener self k n = Some (List.find (\<lambda>x. key_matches k n (cell self x)) xs)"
  using assms by (simp add: diccionario_obtener_def hilera_def buscar_pila)

lemma carga_key: "misma_carga e e' \<Longrightarrow> key_matches k n e' = key_matches k n e"
  by (simp add: misma_carga_fields key_matches_def)

lemma hilera_tabla_iff:
  assumes "hilera self base (us @ r # vs) ys" and "atras (heap self) None (us @ [r])"
    and "vs \<noteq> [] \<longrightarrow> atras (heap self) (Some (last (r # ps))) vs" and "r \<notin> set ps"
  shows "tabla self base (us @ r # vs) ys \<longleftrightarrow> ps = [] \<or> vs = []"
proof (cases vs)
  case (Cons v zs)
  then have "tabla self base (us @ r # vs) ys \<longleftrightarrow> last (r # ps) = r" using assms(1-3) by (auto simp: tabla_hilera atras_append)
  moreover have "last (r # ps) = r \<longleftrightarrow> ps = []" using assms(4) by (metis last.simps last_in_set)
  ultimately show ?thesis using Cons by simp
qed (use assms in \<open>simp add: tabla_hilera\<close>)

text \<open>
  C20: deleting a key. The partition of the item is joined with all those not in use before it and
  after it into one, as large as all of them; the partitions again lie one after the other and
  cover the memory, the items in the others are untouched, the call succeeds and lets go of the
  lock, and the key is not found any more. Backward links are right unless partitions after the
  item were joined and another follows: that one is left pointing at a spare cell.
\<close>

theorem deleting_joins_partitions:
  assumes m: "motor_ok engine base xs ys" and it: "it \<in> set xs" "key_matches k n (cell (cache engine) it)"
    and only: "\<forall>x \<in> set xs - {it}. \<not> key_matches k n (cell (cache engine) x)"
  shows "\<exists>us fs ps vs r c. xs = us @ fs @ it # ps @ vs \<and> r = hd (fs @ [it]) \<and>
    (\<forall>x \<in> set fs \<union> set ps. \<not> ocupado (cell (cache engine) x)) \<and>
    (us \<noteq> [] \<longrightarrow> ocupado (cell (cache engine) (last us))) \<and> (vs \<noteq> [] \<longrightarrow> ocupado (cell (cache engine) (hd vs))) \<and>
    justice_engine_item_delete engine k n = Some (ENGINE_SUCCESS, engine\<lparr>cache := c, lock := unlocked_lock\<rparr>) \<and>
    justice_engine_get (engine\<lparr>cache := c, lock := unlocked_lock\<rparr>) k n now =
      Some (ENGINE_KEY_ENOENT, None, engine\<lparr>cache := c, lock := unlocked_lock\<rparr>) \<and>
    hilera c base (us @ r # vs) (rev ps @ tl (fs @ [it]) @ ys) \<and>
    chunk_size (cell c r) = (\<Sum>x \<leftarrow> fs @ it # ps. chunk_size (cell (cache engine) x)) \<and>
    (\<forall>x \<in> set us \<union> set vs. mismo_item (cell (cache engine) x) (cell c x)) \<and>
    (tabla c base (us @ r # vs) (rev ps @ tl (fs @ [it]) @ ys) \<longleftrightarrow> ps = [] \<or> vs = [])"
proof -
  let ?c = "cache engine"
  obtain us fs ps vs where x: "xs = us @ fs @ it # ps @ vs" "\<forall>z \<in> set fs \<union> set ps. \<not> ocupado (cell ?c z)"
    "us \<noteq> [] \<longrightarrow> ocupado (cell ?c (last us))" "vs \<noteq> [] \<longrightarrow> ocupado (cell ?c (hd vs))"
    using split_free [OF it(1), of "\<lambda>z. ocupado (cell ?c z)"] by blast
  have t: "tabla ?c base xs ys" and sch: "scheme engine = ParticionesDinamicas" using m by (simp_all add: motor_ok_def)
  define r where "r = hd (fs @ [it])"
  obtain c where c: "diccionario_eliminar ?c it = Some (r, c)" "hilera c base (us @ r # vs) (rev ps @ tl (fs @ [it]) @ ys)"
    "chunk_size (cell c r) = (\<Sum>x \<leftarrow> fs @ it # ps. chunk_size (cell ?c x))"
    "\<forall>x \<in> set us \<union> set vs. mismo_item (cell ?c x) (cell c x)" "\<forall>x. x \<noteq> it \<longrightarrow> misma_carga (cell ?c x) (cell c x)"
    "nkey (cell c it) = 0" "atras (heap c) None (us @ [r])" "vs \<noteq> [] \<longrightarrow> atras (heap c) (Some (last (r # ps))) vs"
    using eliminar_ok [OF t [unfolded x(1)] x(2-4) r_def] by blast
  have "diccionario_obtener ?c k n = Some (Some it)" using obtener_only [OF t it] only by blast
  then have del: "justice_engine_item_delete engine k n = Some (ENGINE_SUCCESS, engine\<lparr>cache := c, lock := unlocked_lock\<rparr>)"
    using c(1) sch by (simp add: justice_engine_item_delete_def f_eliminar_def)
  have "\<not> key_matches k n (cell c z)" if "z \<in> set xs" for z
    using that only c(5,6) carga_key [of "cell ?c z" "cell c z" k n] by (cases "z = it") (auto simp: key_matches_def)
  moreover have "set (us @ r # vs) \<subseteq> set xs" using x(1) by (cases fs) (auto simp: r_def)
  ultimately have "List.find (\<lambda>z. key_matches k n (cell c z)) (us @ r # vs) = None" by (auto simp: find_None_iff)
  then have get: "justice_engine_get (engine\<lparr>cache := c, lock := unlocked_lock\<rparr>) k n now =
      Some (ENGINE_KEY_ENOENT, None, engine\<lparr>cache := c, lock := unlocked_lock\<rparr>)"
    using obtener_hilera [OF c(2)] by (simp add: justice_engine_get_def)
  have "r \<notin> set ps" using t x(1) by (cases fs) (auto simp: r_def tabla_def)
  from hilera_tabla_iff [OF c(2,7,8) this] show ?thesis using x r_def del get c(2-4) by blast
qed

text \<open>Two partitions, the second with the item \<open>b\<close>: deleting it leaves one.\<close>

definition motor_con_hueco :: t_justice_engine where
  "motor_con_hueco = \<lparr>scheme = ParticionesDinamicas, cache = cache_con_hueco, lock = unlocked_lock\<rparr>"

lemma deleting_joins_partitions_witness:
  "\<exists>c. justice_engine_item_delete motor_con_hueco [98, 0] 1 = Some (ENGINE_SUCCESS, motor_con_hueco\<lparr>cache := c, lock := unlocked_lock\<rparr>) \<and>
    tabla c 0 [0] [1, 2, 3, 4, 5, 6, 7, 8] \<and> chunk_size (cell c 0) = 256"
proof -
  have m: "motor_ok motor_con_hueco 0 [0, 1] [2, 3, 4, 5, 6, 7, 8]" by code_simp
  have k: "key_matches [98, 0] 1 (cell (cache motor_con_hueco) 1)" "\<forall>x \<in> set [0, 1] - {1}. \<not> key_matches [98, 0] 1 (cell (cache motor_con_hueco) x)"
    by code_simp+
  have o: "\<not> ocupado (cell (cache motor_con_hueco) 0)" and s: "chunk_size (cell (cache motor_con_hueco) 0) = 32" "chunk_size (cell (cache motor_con_hueco) 1) = 224"
    by code_simp+
  have i: "1 \<in> set [0 :: nat, 1]" by simp
  from deleting_joins_partitions [OF m i k, of 0]
  obtain us fs ps vs r c where d: "[0, 1] = us @ fs @ 1 # ps @ vs" "r = hd (fs @ [1])"
    "us \<noteq> [] \<longrightarrow> ocupado (cell (cache motor_con_hueco) (last us))"
    "justice_engine_item_delete motor_con_hueco [98, 0] 1 = Some (ENGINE_SUCCESS, motor_con_hueco\<lparr>cache := c, lock := unlocked_lock\<rparr>)"
    "chunk_size (cell c r) = (\<Sum>x \<leftarrow> fs @ 1 # ps. chunk_size (cell (cache motor_con_hueco) x))"
    "tabla c 0 (us @ r # vs) (rev ps @ tl (fs @ [1]) @ [2, 3, 4, 5, 6, 7, 8]) \<longleftrightarrow> ps = [] \<or> vs = []"
    by blast
  have "ps = [] \<and> vs = [] \<and> us @ fs = [0]"
    using d(1) by (cases us; cases fs; cases "tl us"; cases "tl fs") auto
  then have e: "us = []" "fs = [0]" "ps = []" "vs = []" using d(3) o by (auto simp: append_eq_Cons_conv)
  then show ?thesis using d(2,4-6) s by auto
qed

end
