(* ===== verification/Rc_Volcado.thy ===== *)
theory Rc_Volcado
  imports Registro Rc_Liberacion
begin

text \<open>
  What the cache engine writes: the dump of the table (\<open>diccionario_dump\<close> of \<^verbatim>\<open>rc/source/diccionario.c\<close>)
  and the log message of an operation on a key (\<^verbatim>\<open>rc/source/justice_engine.c\<close>), with the engine calls
  that only answer.
\<close>

section \<open>The dump\<close>

definition key_char :: "u8 \<Rightarrow> char" where
  "key_char b = char_of (unat b)"

text \<open>\<open>for (; j < item->nkey; j++) putc(item->key[j], f)\<close>; outside the key buffer is \<open>None\<close>.\<close>

definition put_key :: "t_dict_element \<Rightarrow> string option" where
  "put_key item = (if nkey item \<le> int (length (key item)) then Some (map key_char (take (nat (nkey item)) (key item))) else None)"

definition address :: "t_dict_element \<Rightarrow> u32" where
  "address item = (case data item of None \<Rightarrow> 0 | Some a \<Rightarrow> of_nat a)"

definition dump_item :: "bool \<Rightarrow> int \<Rightarrow> t_dict_element \<Rightarrow> string option" where
  "dump_item by_lru i item = do {
     a \<leftarrow> vsprintf ''Item %d: '' [A_int i];
     b \<leftarrow> vsprintf ''%X - '' [A_uint (address item)];
     c \<leftarrow> vsprintf ''%X '' [A_uint (address item + word_of_int (chunk_size item))];
     d \<leftarrow> (if ocupado item then vsprintf ''[X] '' [] else vsprintf ''[L] '' []);
     e \<leftarrow> vsprintf ''chunk size: %d b '' [A_int (chunk_size item)];
     f \<leftarrow> (if by_lru then vsprintf ''LRU:<%d> '' [A_int (to_int (hour item))] else vsprintf ''FIFO:<%d> '' [A_int (to_int (hour item))]);
     g \<leftarrow> put_key item;
     h \<leftarrow> vsprintf [CHR 0x0A] [];
     Some (a @ b @ c @ d @ e @ f @ g @ h) }"

partial_function (option) dump_loop :: "t_diccionario \<Rightarrow> bool \<Rightarrow> int \<Rightarrow> ptr \<Rightarrow> string \<Rightarrow> string option" where
  "dump_loop self by_lru i item written = (case item of
     None \<Rightarrow> Some written
   | Some p \<Rightarrow> do {
       l \<leftarrow> dump_item by_lru i (cell self p);
       dump_loop self by_lru (i + 1) (next_p (cell self p)) (written @ l) })"

text \<open>
  The content of the dump file. \<open>opened\<close> is whether \<open>fopen\<close> succeeded (its result is not
  checked), \<open>date\<close> what \<open>strftime\<close> gives.
\<close>

definition diccionario_dump :: "t_diccionario \<Rightarrow> bool \<Rightarrow> bool \<Rightarrow> string \<Rightarrow> string option" where
  "diccionario_dump self by_lru opened date =
     (if opened then do {
        first \<leftarrow> vsprintf (''Dump: %s'' @ [CHR 0x0A]) [A_str date];
        dump_loop self by_lru 1 (elements self) first }
      else None)"

definition justice_engine_dump :: "t_justice_engine \<Rightarrow> bool \<Rightarrow> string \<Rightarrow> (string \<times> t_justice_engine) option" where
  "justice_engine_dump engine opened date = do {
     let engine = engine\<lparr>lock := rdlocked\<rparr>;
     out \<leftarrow> diccionario_dump (cache engine) (lru (cache engine)) opened date;
     Some (out, engine\<lparr>lock := unlocked_lock\<rparr>) }"

section \<open>The log of the engine\<close>

text \<open>
  \<open>char mensaje[255]; sprintf(mensaje, "Operation: ... - Key: %s", key); log_debug(logger, mensaje);\<close>
  The message with the key in it is the template of the second call.
\<close>

definition log_operacion ::
  "t_log \<Rightarrow> string \<Rightarrow> string \<Rightarrow> clock \<Rightarrow> int \<Rightarrow> string \<Rightarrow> (t_log \<times> string) option" where
  "log_operacion logger operacion clave clock thread_id consola = do {
     mensaje \<leftarrow> vsprintf operacion [A_str clave];
     _ \<leftarrow> (if length mensaje \<le> 254 then Some () else None);
     log_debug logger mensaje [] clock thread_id consola }"

record engine_info =
  description :: string
  num_features :: u32

definition justice_engine_get_info :: engine_info where
  "justice_engine_get_info = \<lparr>description = ''Justice Engine v1.0'' @ [CHR 0x09], num_features = 0\<rparr>"

section \<open>Dumping a table\<close>

definition linea :: "bool \<Rightarrow> nat \<Rightarrow> nat \<Rightarrow> t_dict_element \<Rightarrow> string" where
  "linea by_lru n start item =
     ''Item '' @ decimal (int n) @ '': '' @ hex_nat start @ '' - '' @ hex_nat (start + nat (chunk_size item)) @
     (if ocupado item then '' [X]'' else '' [L]'') @ '' chunk size: '' @ decimal (chunk_size item) @
     (if by_lru then '' b LRU:<'' else '' b FIFO:<'') @ decimal (to_int (hour item)) @ ''> '' @
     map key_char (take (nat (nkey item)) (key item)) @ [CHR 0x0A]"

fun lineas :: "bool \<Rightarrow> t_dict_element list \<Rightarrow> nat \<Rightarrow> nat \<Rightarrow> nat list \<Rightarrow> string" where
  "lineas by_lru h n start [] = []"
| "lineas by_lru h n start (x # xs) = linea by_lru n start (h ! x) @ lineas by_lru h (n + 1) (start + nat (chunk_size (h ! x))) xs"

lemma dump_item_line:
  assumes "data item = Some start" and "0 < chunk_size item" and "start + nat (chunk_size item) < 2 ^ 32" and "nkey item \<le> int (length (key item))"
  shows "dump_item by_lru (int n) item = Some (linea by_lru n start item)"
proof -
  have "unat (address item) = start" using assms(1,3) by (simp add: address_def unat_of_nat_u32)
  moreover have "address item + word_of_int (chunk_size item) = of_nat (start + nat (chunk_size item))"
    using assms(1,2) by (simp add: address_def of_nat_nat)
  then have "unat (address item + word_of_int (chunk_size item)) = start + nat (chunk_size item)"
    using unat_of_nat_u32 [of "start + nat (chunk_size item)"] assms(3) by simp
  ultimately show ?thesis using assms(4) by (simp add: dump_item_def conversion_def put_key_def linea_def)
qed

lemma dump_loop_lines:
  assumes "lista (heap self) a p xs" and "cubre (heap self) start xs"
    and "start + nat (\<Sum>x \<leftarrow> xs. chunk_size (heap self ! x)) < 2 ^ 32"
    and "\<forall>x \<in> set xs. nkey (heap self ! x) \<le> int (length (key (heap self ! x)))"
  shows "dump_loop self by_lru (int n) p written = Some (written @ lineas by_lru (heap self) n start xs)"
  using assms
proof (induction xs arbitrary: a p start n written)
  case Nil
  then show ?case by (simp add: dump_loop.simps)
next
  case (Cons x xs)
  let ?c = "chunk_size (heap self ! x)" and ?rest = "\<Sum>x \<leftarrow> xs. chunk_size (heap self ! x)"
  have pos: "0 \<le> (\<Sum>x \<leftarrow> xs. chunk_size (h ! x))" if "cubre h b xs" for h b
    using that by (induction xs arbitrary: b) force+
  have "0 < ?c" "0 \<le> ?rest" using Cons.prems(2) pos by auto
  then have "nat (?c + ?rest) = nat ?c + nat ?rest" by (simp add: nat_add_distrib)
  then have bound: "start + nat ?c < 2 ^ 32" "start + nat ?c + nat ?rest < 2 ^ 32" using Cons.prems(3) by simp_all
  have "dump_item by_lru (int n) (cell self x) = Some (linea by_lru n start (heap self ! x))"
    using dump_item_line [of "heap self ! x" start by_lru n] Cons.prems(2,4) bound(1) by (simp add: cell_def)
  moreover have "dump_loop self by_lru (int (n + 1)) (next_p (heap self ! x)) (written @ l) =
      Some ((written @ l) @ lineas by_lru (heap self) (n + 1) (start + nat ?c) xs)" for l
    using Cons.prems bound(2) by (intro Cons.IH [of "Some x"]) auto
  moreover have "p = Some x" using Cons.prems(1) by simp
  ultimately show ?case by (subst dump_loop.simps) (simp add: cell_def add.commute)
qed

lemma plain_message:
  assumes "CHR ''%'' \<notin> set clave" and "CHR ''%'' \<notin> set prefijo"
  shows "vsprintf (prefijo @ ''%s'') [A_str clave] = Some (prefijo @ clave)" "vsprintf (prefijo @ clave) [] = Some (prefijo @ clave)"
  using assms vsprintf_plain [of prefijo "''%s''" "[A_str clave]"] vsprintf_plain [of "prefijo @ clave" "[]" "[]"]
  by (simp_all add: conversion_def)

lemma conversion_without_argument:
  assumes "CHR ''%'' \<notin> set s" and "c \<noteq> CHR ''%''"
  shows "vsprintf (s @ CHR ''%'' # c # t) [] = None"
  using assms vsprintf_plain [of s "CHR ''%'' # c # t" "[]"] by simp

section \<open>Properties\<close>

text \<open>
  The dump of a well-formed table ends and has one line for each partition, in the order of
  their addresses; the line of a partition starts where the one before it ends, and shows whether
  it is in use, its size, its time and its key. Dumping leaves the engine as it was.
\<close>

theorem dump_shows_the_table:
  assumes "tabla (cache engine) base xs ys" and "base + nat (table_max_size (cache engine)) < 2 ^ 32"
    and "\<forall>x \<in> set xs. nkey (heap (cache engine) ! x) \<le> int (length (key (heap (cache engine) ! x)))" and "lock engine = unlocked_lock"
  shows "justice_engine_dump engine True date =
    Some (''Dump: '' @ date @ [CHR 0x0A] @ lineas (lru (cache engine)) (heap (cache engine)) 1 base xs, engine)"
proof -
  let ?self = "cache engine"
  have t: "lista (heap ?self) None (elements ?self) xs" "cubre (heap ?self) base xs"
    "(\<Sum>x \<leftarrow> xs. chunk_size (heap ?self ! x)) = table_max_size ?self" using assms(1) by (simp_all add: tabla_def)
  have "dump_loop ?self by_lru (int 1) (elements ?self) w = Some (w @ lineas by_lru (heap ?self) 1 base xs)" for by_lru w
    using assms(2,3) by (intro dump_loop_lines [OF t(1,2)]) (simp_all add: t(3))
  then show ?thesis using assms(4) by (simp add: justice_engine_dump_def diccionario_dump_def conversion_def)
qed

lemma dump_shows_the_table_witness:
  "justice_engine_dump motor_con_hueco True ''01/06/12'' =
    Some (''Dump: 01/06/12'' @ [CHR 0x0A] @ ''Item 1: 0 - 20 [L] chunk size: 32 b FIFO:<0> '' @ [CHR 0x0A] @
      ''Item 2: 20 - 100 [X] chunk size: 224 b FIFO:<9> b'' @ [CHR 0x0A], motor_con_hueco)"
proof -
  have "tabla (cache motor_con_hueco) 0 [0, 1] [2, 3, 4, 5, 6, 7, 8]" by code_simp
  moreover have "table_max_size (cache motor_con_hueco) = 256" by code_simp
  moreover have "\<forall>x \<in> set [0, 1]. nkey (heap (cache motor_con_hueco) ! x) \<le> int (length (key (heap (cache motor_con_hueco) ! x)))" by code_simp
  moreover have "lock motor_con_hueco = unlocked_lock" by (simp add: motor_con_hueco_def)
  moreover have "lineas (lru (cache motor_con_hueco)) (heap (cache motor_con_hueco)) 1 0 [0, 1] =
      ''Item 1: 0 - 20 [L] chunk size: 32 b FIFO:<0> '' @ [CHR 0x0A] @ ''Item 2: 20 - 100 [X] chunk size: 224 b FIFO:<9> b'' @ [CHR 0x0A]"
    by code_simp
  ultimately show ?thesis using dump_shows_the_table [of motor_con_hueco 0 "[0, 1]" "[2, 3, 4, 5, 6, 7, 8]" "''01/06/12''"] by simp
qed

text \<open>
  What logging an operation on a key does. A key of at most 200 characters without percent sign
  is logged in one line at the level of debugging. In a key with a conversion the key itself is
  taken as the template of the second call, which has no arguments: the call is undefined,
  although the key is a legal one.
\<close>

theorem key_logged_as_template:
  assumes "detail logger \<le> LOG_LEVEL_DEBUG" and "unat ms < 1000" and "length (program_name logger) \<le> 48"
    and "- (2 ^ 31) \<le> pid logger" "pid logger < 2 ^ 31" "- (2 ^ 31) \<le> thread_id" "thread_id < 2 ^ 31"
    and "operacion = prefijo @ ''%s''" and "CHR ''%'' \<notin> set prefijo" and "length prefijo \<le> 40" and "CHR ''%'' \<notin> set clave"
  shows "(length clave \<le> 200 \<longrightarrow>
      (let line = log_line logger LOG_LEVEL_DEBUG (clock_time h m s ms) thread_id (prefijo @ clave)
       in log_operacion logger operacion clave (Some (h, m, s), Some ms) thread_id consola =
         Some (logger\<lparr>log_file := map_option (\<lambda>f. f @ line) (log_file logger)\<rparr>,
           if is_active_console logger then consola @ line else consola))) \<and>
    (c \<noteq> CHR ''%'' \<longrightarrow> log_operacion logger operacion (clave @ CHR ''%'' # c # resto) (Some (h, m, s), Some ms) thread_id consola = None)"
proof (intro conjI impI)
  note m = plain_message [OF assms(11,9)]
  have "\<not> LOG_LEVEL_DEBUG < detail logger" "LOG_LEVEL_DEBUG \<le> LOG_LEVEL_ERROR" using assms(1) by (auto simp: not_less)
  note call = log_call [OF this(2) assms(2-7), where template = "prefijo @ clave" and args = "[]"] and enabled = this(1)
  show "let line = log_line logger LOG_LEVEL_DEBUG (clock_time h m s ms) thread_id (prefijo @ clave)
       in log_operacion logger operacion clave (Some (h, m, s), Some ms) thread_id consola =
         Some (logger\<lparr>log_file := map_option (\<lambda>f. f @ line) (log_file logger)\<rparr>,
           if is_active_console logger then consola @ line else consola)" if "length clave \<le> 200"
    using that assms(8,10) enabled by (simp add: log_operacion_def log_debug_def m call Let_def)
  have p: "vsprintf operacion [A_str k] = Some (prefijo @ k)" for k
    using vsprintf_plain [OF assms(9), of "''%s''" "[A_str k]"] assms(8) by (simp add: conversion_def)
  have "isEnableLevelInLogger logger LOG_LEVEL_DEBUG" using assms(1) by (simp add: isEnableLevelInLogger_def)
  then show "log_operacion logger operacion (clave @ CHR ''%'' # c # resto) (Some (h, m, s), Some ms) thread_id consola = None" if "c \<noteq> CHR ''%''"
    using conversion_without_argument [of "prefijo @ clave" c resto] assms(9,11) that
    by (simp add: log_operacion_def p log_debug_def log_write_in_level_def bind_eq_None_conv)
qed

lemma key_logged_as_template_witness:
  "log_operacion demo_log ''Operation: Get - Key: %s'' ''100%discount'' (Some (9, 5, 30), Some 250) 3 '''' = None \<and>
   log_operacion demo_log ''Operation: Get - Key: %s'' ''100'' (Some (9, 5, 30), Some 250) 3 '''' \<noteq> None"
proof -
  have small: "detail demo_log \<le> LOG_LEVEL_DEBUG" "length (program_name demo_log) \<le> 48" "- (2 ^ 31) \<le> pid demo_log" "pid demo_log < 2 ^ 31"
    by (simp_all add: demo_log_def)
  show ?thesis
    using key_logged_as_template [OF small(1) _ small(2-4), where ms = 250 and thread_id = 3 and prefijo = "''Operation: Get - Key: ''"
        and operacion = "''Operation: Get - Key: %s''" and clave = "''100''" and c = "CHR ''d''" and resto = "''iscount''"
        and h = 9 and m = 5 and s = 30 and consola = "''''"]
    by (simp add: Let_def)
qed

end
