(* ===== verification/Rc_Hermanos.thy ===== *)
theory Rc_Hermanos
  imports Rc_Liberacion
begin

text \<open>
  The buddy system of \<^verbatim>\<open>rc/source/diccionario_buddy.c\<close> on the table of \<open>Rc_Tabla\<close>: every partition is a power of
  two large and starts at a multiple of its size. The code does not store where a partition
  starts; it finds the sibling by counting the partitions before it. The lemmas show that the
  count is right, that halving and joining keep the shape, that a released partition is joined as
  far as possible, and that an allocation that fits into the memory always ends.
\<close>

section \<open>Alignment\<close>

definition potencia :: "int \<Rightarrow> bool" where
  "potencia c \<longleftrightarrow> (\<exists>j. c = 2 ^ j)"

definition tam :: "t_diccionario \<Rightarrow> nat list \<Rightarrow> int" where
  "tam self xs = (\<Sum>x \<leftarrow> xs. chunk_size (cell self x))"

fun alineada :: "t_diccionario \<Rightarrow> int \<Rightarrow> nat list \<Rightarrow> bool" where
  "alineada self off [] \<longleftrightarrow> True"
| "alineada self off (x # xs) \<longleftrightarrow> potencia (chunk_size (cell self x)) \<and> chunk_size (cell self x) dvd off \<and>
     alineada self (off + chunk_size (cell self x)) xs"

definition buddy :: "t_diccionario \<Rightarrow> nat \<Rightarrow> nat list \<Rightarrow> nat list \<Rightarrow> bool" where
  "buddy self base xs ys \<longleftrightarrow> tabla self base xs ys \<and> alineada self 0 xs"

lemma tam_simps [simp]: "tam self [] = 0" "tam self (x # xs) = chunk_size (cell self x) + tam self xs"
  "tam self (us @ vs) = tam self us + tam self vs"
  by (simp_all add: tam_def)

lemma alineada_append: "alineada self off (us @ vs) \<longleftrightarrow> alineada self off us \<and> alineada self (off + tam self us) vs"
  by (induction us arbitrary: off) (auto simp: add.assoc)

lemma tam_cong: "\<forall>x \<in> set xs. chunk_size (cell self' x) = chunk_size (cell self x) \<Longrightarrow> tam self' xs = tam self xs"
  by (induction xs) simp_all

lemma alineada_cong:
  "\<forall>x \<in> set xs. chunk_size (cell self' x) = chunk_size (cell self x) \<Longrightarrow> alineada self' off xs = alineada self off xs"
  by (induction xs arbitrary: off) simp_all

lemma potencia_pos: "potencia c \<Longrightarrow> 0 < c"
  by (auto simp: potencia_def)

lemma potencia_dvd: "potencia a \<Longrightarrow> potencia b \<Longrightarrow> a \<le> b \<Longrightarrow> a dvd b"
  by (auto simp: potencia_def le_imp_power_dvd)

lemma potencia_less: "potencia a \<Longrightarrow> potencia b \<Longrightarrow> a < b \<Longrightarrow> 2 * a dvd b"
proof -
  assume "potencia a" "potencia b" "a < b"
  then obtain i j where "a = 2 ^ i" "b = 2 ^ j" "i < j" by (auto simp: potencia_def)
  then show "2 * a dvd b" using le_imp_power_dvd [of "Suc i" j "2 :: int"] by simp
qed

lemma potencia_twice: "potencia a \<Longrightarrow> potencia (2 * a)"
  unfolding potencia_def by (metis power_Suc)

lemma potencia_half:
  assumes "potencia a" and "1 < a"
  shows "potencia (a div 2)" "a = 2 * (a div 2)"
proof -
  obtain j where j: "a = 2 ^ j" using assms(1) by (auto simp: potencia_def)
  then obtain i where "j = Suc i" using assms(2) by (cases j) auto
  then show "potencia (a div 2)" "a = 2 * (a div 2)" using j by (auto simp: potencia_def)
qed

section \<open>Counting the partitions before one\<close>

lemma smaller_step:
  fixes s t off :: int
  assumes "t dvd s" and "t dvd off" and "0 < t" and "t < s"
  shows "if off mod s + t = s then (off + t) div s = off div s + 1 \<and> (off + t) mod s = 0
    else (off + t) div s = off div s \<and> (off + t) mod s = off mod s + t"
proof -
  have r: "0 \<le> off mod s" "off mod s < s" using assms(3,4) by simp_all
  have "t dvd s - off mod s" using assms(1,2) by (simp add: dvd_mod dvd_diff)
  then have le: "off mod s + t \<le> s" using r zdvd_imp_le [of t "s - off mod s"] by linarith
  have e: "off + t = s * (off div s) + (off mod s + t)" using mult_div_mod_eq [of s off] by linarith
  show ?thesis
  proof (cases "off mod s + t = s")
    case True
    have "off + t = s * (off div s + 1) + 0" unfolding distrib_left using e True by linarith
    from int_div_pos_eq [OF this] int_mod_pos_eq [OF this] assms(3,4)
    have "(off + t) div s = off div s + 1" "(off + t) mod s = 0" by simp_all
    with True show ?thesis by simp
  next
    case False
    then have "0 \<le> off mod s + t" "off mod s + t < s" using le r assms(3) by simp_all
    from int_div_pos_eq [OF e this] int_mod_pos_eq [OF e this]
    have "(off + t) div s = off div s" "(off + t) mod s = off mod s + t" by simp_all
    with False show ?thesis by simp
  qed
qed

lemma contar_lista:
  assumes "pila (heap self) q (us @ p # vs)" and "distinct (us @ p # vs)" and "alineada self off us"
    and s: "s = chunk_size (cell self p)" "potencia s"
  shows "contar_hermanos self q p (off div s) (off mod s) = Some ((off + tam self us) div s)"
  using assms(1-3)
proof (induction us arbitrary: q off)
  case Nil
  then show ?case by (subst contar_hermanos.simps) simp
next
  case (Cons u us)
  let ?t = "chunk_size (cell self u)"
  have u: "q = Some u" "u \<noteq> p" "pila (heap self) (next_p (cell self u)) (us @ p # vs)" "distinct (us @ p # vs)"
    "potencia ?t" "?t dvd off" "alineada self (off + ?t) us"
    using Cons.prems by (auto simp: cell_def)
  note IH = Cons.IH [OF u(3,4,7)]
  have pos: "0 < s" "0 < ?t" using s(2) u(5) potencia_pos by blast+
  show ?case
  proof (cases "?t < s")
    case True
    then have "?t dvd s" using potencia_dvd [OF u(5) s(2)] by simp
    from smaller_step [OF this u(6) pos(2) True] IH True pos u(1,2) s(1) show ?thesis
      by (subst contar_hermanos.simps) (auto simp: Let_def add.assoc split: if_splits)
  next
    case False
    then have "s dvd ?t" using potencia_dvd [OF s(2) u(5)] by simp
    moreover from this have "s dvd off" using u(6) by (rule dvd_trans)
    ultimately have "(off + ?t) div s = off div s + ?t div s" "(off + ?t) mod s = 0" "off mod s = 0" by simp_all
    with IH False pos u(1,2) s(1) show ?thesis by (subst contar_hermanos.simps) (simp add: add.assoc)
  qed
qed

lemma primer_hermano:
  assumes "buddy self base (us @ p # vs) ys"
  shows "esElPrimerHermano self p = Some (even (tam self us div chunk_size (cell self p)))"
proof -
  have b: "pila (heap self) (elements self) (us @ p # vs)" "distinct (us @ p # vs)" "alineada self 0 us"
    "potencia (chunk_size (cell self p))"
    using assms by (auto simp: buddy_def tabla_def lista_pila_atras alineada_append)
  from contar_lista [OF b(1-3) refl b(4)] show ?thesis by (simp add: esElPrimerHermano_def even_iff_mod_2_eq_zero)
qed

section \<open>Halving\<close>

lemma same_diccionario:
  assumes "\<And>x. cell a x = cell b x" and "length (heap a) = length (heap b)"
    and "a\<lparr>heap := []\<rparr> = b\<lparr>heap := []\<rparr>"
  shows "a = (b :: t_diccionario)"
proof -
  have "heap a = heap b" using assms(1,2) by (intro nth_equalityI) (simp_all add: cell_def)
  with assms(3) show ?thesis by (cases a; cases b) simp
qed

lemma upd_truncate [simp]:
  "(upd p f self)\<lparr>heap := h\<rparr> = self\<lparr>heap := h\<rparr>" "(upd_if q f self)\<lparr>heap := h\<rparr> = self\<lparr>heap := h\<rparr>"
  "(upd_if q f self)\<lparr>nodes := m, heap := h\<rparr> = self\<lparr>nodes := m, heap := h\<rparr>"
  by (simp_all add: upd_def upd_if_def split: option.splits)

lemma agregar_dividir:
  assumes t: "tabla self base (us @ p # vs) (n # ys)" and c: "c = chunk_size (cell self p)" "c = 2 * (c div 2)"
    and big: "c div 2 \<ge> slab_min_size self"
  shows "agregarHijosDePadre self p = Some (dividir_particion self p (c div 2))"
proof -
  have np: "n \<noteq> p" "n < length (heap self)" "p < length (heap self)" "nodes self = Some n"
    and l: "lista (heap self) None (elements self) (us @ p # vs)" and pl: "pila (heap self) (Some n) (n # ys)"
    and d: "distinct (us @ p # vs @ n # ys)"
    using t lista_bounds [of "heap self" None "elements self" "us @ p # vs" p] by (auto simp: tabla_def)
  have big': "chunk_size (cell self p) - c div 2 \<ge> slab_min_size self" using c big by linarith
  note dc = dividir_cells [OF t big' refl]
  let ?s = "next_p (cell self p)" and ?m = "next_p (cell self n)"
  have s: "?s = (if vs = [] then None else Some (hd vs))" using lista_next [OF l] by (simp add: cell_def)
  have m: "?m = (if ys = [] then None else Some (hd ys))" using pila_next [OF pl] by (simp add: cell_def)
  have ne: "?s \<noteq> Some n" "?s \<noteq> Some p" "?m \<noteq> Some n" "?m \<noteq> Some p"
    using d s m by (auto split: if_splits dest: hd_in_set)
  have sm: "?s = Some z \<Longrightarrow> z < length (heap self)" "?m = Some z \<Longrightarrow> z < length (heap self)" for z
    using s m lista_bounds [OF l, of z] pila_bounds [OF pl, of z] by (auto split: if_splits)
  define s1 where "s1 = upd_if ?m (\<lambda>e. e\<lparr>prev_p := None\<rparr>) self"
  define s2 where "s2 = s1\<lparr>nodes := ?m\<rparr>"
  define s3 where "s3 = upd_if ?s (\<lambda>e. e\<lparr>prev_p := Some n\<rparr>) s2"
  define s4 where "s4 = upd n (\<lambda>e. e\<lparr>next_p := ?s, prev_p := Some p\<rparr>) s3"
  define s5 where "s5 = upd p (\<lambda>e. e\<lparr>next_p := Some n\<rparr>) s4"
  define s6 where "s6 = upd n (\<lambda>e. e\<lparr>chunk_size := c div 2\<rparr>) s5"
  define s7 where "s7 = upd p (\<lambda>e. e\<lparr>chunk_size := chunk_size e div 2\<rparr>) s6"
  define s8 where "s8 = upd n (\<lambda>e. e\<lparr>data := map_option (\<lambda>b. b + nat (c div 2)) (data (cell self p))\<rparr>) s7"
  have c1: "cell s1 q = (if ?m = Some q then (cell self q)\<lparr>prev_p := None\<rparr> else cell self q)" for q
    using cell_upd_if [of ?m self] sm(2) by (simp add: s1_def)
  have c2: "cell s2 q = cell s1 q" "length (heap s2) = length (heap self)" for q by (simp_all add: s2_def s1_def)
  have c3: "cell s3 q = (if ?s = Some q then (cell s1 q)\<lparr>prev_p := Some n\<rparr> else cell s1 q)" "length (heap s3) = length (heap self)" for q
    using cell_upd_if [of ?s s2] sm(1) c2 by (simp_all add: s3_def)
  have f: "next_p (cell s1 n) = ?m" "next_p (cell s2 p) = ?s" "chunk_size (cell s5 p) = c" "data (cell s7 p) = data (cell self p)"
    using np ne c3 c1 c(1) by (simp_all add: c2 s7_def s6_def s5_def s4_def cell_upd)
  have run: "agregarHijosDePadre self p = Some s8"
    by (simp only: agregarHijosDePadre_def np(4) bind.bind_lunit Let_def s1_def [symmetric] f s2_def [symmetric]
        s3_def [symmetric] s4_def [symmetric] s5_def [symmetric] s6_def [symmetric] s7_def [symmetric] s8_def [symmetric])
  have c8: "cell s8 p = (cell self p)\<lparr>next_p := Some n, chunk_size := c div 2\<rparr>"
    "cell s8 n = (cell self n)\<lparr>next_p := ?s, prev_p := Some p, chunk_size := c div 2, data := map_option (\<lambda>b. b + nat (c div 2)) (data (cell self p))\<rparr>"
    "q \<noteq> p \<Longrightarrow> q \<noteq> n \<Longrightarrow> cell s8 q = cell s3 q" for q
    using np ne c3 c1 c(1) by (simp_all add: s8_def s7_def s6_def s5_def s4_def cell_upd)
  have "s8 = dividir_particion self p (c div 2)"
  proof (rule same_diccionario)
    have "?s \<noteq> ?m \<or> ?s = None" using s m d by (auto split: if_splits dest: hd_in_set)
    then show "cell s8 x = cell (dividir_particion self p (c div 2)) x" for x
      using c8 dc(8-10) c3(1) [of x] c1 [of x] c by (cases "x = p"; cases "x = n") auto
    show "length (heap s8) = length (heap (dividir_particion self p (c div 2)))"
      unfolding dc(7) by (simp add: s8_def s7_def s6_def s5_def s4_def s3_def s2_def s1_def)
    show "s8\<lparr>heap := []\<rparr> = (dividir_particion self p (c div 2))\<lparr>heap := []\<rparr>"
      using big' by (simp add: s8_def s7_def s6_def s5_def s4_def s3_def s2_def s1_def dividir_particion_def np(4) Let_def)
  qed
  with run show ?thesis by simp
qed

lemma half_step:
  assumes b: "buddy self base (us @ p # vs) (n # ys)" and c: "c = chunk_size (cell self p)" and k: "c div 2 \<ge> k" "slab_min_size self \<le> k" "0 < slab_min_size self"
    and s1: "s1 = dividir_particion self p (c div 2)"
  shows "agregarHijosDePadre self p = Some s1" "buddy s1 base (us @ p # n # vs) ys" "c = 2 * (c div 2)"
    "cell s1 p = (cell self p)\<lparr>next_p := Some n, chunk_size := c div 2\<rparr>"
    "chunk_size (cell s1 n) = c div 2" "libre (cell s1 n) = libre (cell self n)" "ocupado (cell s1 n) = ocupado (cell self n)"
    "hour (cell s1 n) = hour (cell self n)"
    "x \<noteq> p \<Longrightarrow> x \<noteq> n \<Longrightarrow> mismo_item (cell self x) (cell s1 x)"
    "slab_min_size s1 = slab_min_size self" "bestfit s1 = bestfit self" "table_max_size s1 = table_max_size self"
proof -
  have t: "tabla self base (us @ p # vs) (n # ys)" and al: "alineada self 0 us" "potencia c" "c dvd tam self us" "alineada self (tam self us + c) vs"
    using b by (auto simp: buddy_def alineada_append c)
  have "1 < c" using k by linarith
  note h = potencia_half [OF al(2) this]
  show h2: "c = 2 * (c div 2)" by (rule h(2))
  have big: "c div 2 \<ge> slab_min_size self" "chunk_size (cell self p) - c div 2 \<ge> slab_min_size self" using k h(2) c by linarith+
  show "agregarHijosDePadre self p = Some s1" using agregar_dividir [OF t c h(2) big(1)] by (simp add: s1)
  note dc = dividir_cells [OF t big(2) s1]
  show cp: "cell s1 p = (cell self p)\<lparr>next_p := Some n, chunk_size := c div 2\<rparr>" by (rule dc(8))
  show cn: "chunk_size (cell s1 n) = c div 2" using dc(9) c h(2) by simp
  show "libre (cell s1 n) = libre (cell self n)" "ocupado (cell s1 n) = ocupado (cell self n)" "hour (cell s1 n) = hour (cell self n)"
    using dc(9) by (simp_all add: libre_def estaReservado_def)
  show other: "x \<noteq> p \<Longrightarrow> x \<noteq> n \<Longrightarrow> mismo_item (cell self x) (cell s1 x)" for x using dc(10) [of x] by auto
  show "slab_min_size s1 = slab_min_size self" "bestfit s1 = bestfit self" "table_max_size s1 = table_max_size self" using dc(3-5) by simp_all
  have "0 < c div 2" using k by linarith
  from dividir_tabla [OF t big(2) this k(3)] have t1: "tabla s1 base (us @ p # n # vs) ys" by (simp add: s1)
  have d: "distinct (us @ p # vs @ n # ys)" using t by (simp add: tabla_def)
  have same: "chunk_size (cell s1 x) = chunk_size (cell self x)" if "x \<in> set us \<union> set vs" for x
    using other [of x] that d by (auto simp: mismo_item_fields)
  have "c div 2 dvd c" using h2 by (metis dvd_triv_right)
  then have "c div 2 dvd tam self us" using al(3) dvd_trans by blast
  moreover have "tam self us + (c div 2 + c div 2) = tam self us + c" using h2 by linarith
  moreover have "alineada s1 off us = alineada self off us" "alineada s1 off vs = alineada self off vs" "tam s1 us = tam self us" for off
    using same by (auto intro!: alineada_cong tam_cong)
  ultimately have "alineada s1 0 (us @ p # n # vs)"
    using al h(1) cp cn by (simp add: alineada_append add.assoc)
  with t1 show "buddy s1 base (us @ p # n # vs) ys" by (simp add: buddy_def)
qed

text \<open>
  Two partitions that could be joined: neighbours of one size, the first at an even multiple of
  it, both free. \<open>juntas\<close> says that there are none, leaving out those with one partition.
\<close>

definition hermanas_libres :: "t_diccionario \<Rightarrow> int \<Rightarrow> nat \<Rightarrow> nat \<Rightarrow> bool" where
  "hermanas_libres self off x y \<longleftrightarrow> libre (cell self x) \<and> libre (cell self y) \<and>
     chunk_size (cell self x) = chunk_size (cell self y) \<and> even (off div chunk_size (cell self x))"

fun juntas :: "t_diccionario \<Rightarrow> nat option \<Rightarrow> int \<Rightarrow> nat list \<Rightarrow> bool" where
  "juntas self e off (x # y # zs) \<longleftrightarrow> (e = Some x \<or> e = Some y \<or> \<not> hermanas_libres self off x y) \<and>
     juntas self e (off + chunk_size (cell self x)) (y # zs)"
| "juntas self e off xs \<longleftrightarrow> True"

lemma juntas_append:
  "juntas self e off (us @ x # vs) \<longleftrightarrow> juntas self e off (us @ [x]) \<and> juntas self e (off + tam self us) (x # vs)"
proof (induction us arbitrary: off)
  case (Cons u us)
  then show ?case by (cases us) (auto simp: add.assoc)
qed simp

lemma juntas_cong:
  assumes "\<forall>x \<in> set xs. chunk_size (cell self' x) = chunk_size (cell self x) \<and> libre (cell self' x) = libre (cell self x)"
  shows "juntas self' e off xs = juntas self e off xs"
  using assms by (induction self e off xs rule: juntas.induct) (auto simp: hermanas_libres_def)

lemma juntas_weaken: "juntas self None off xs \<Longrightarrow> juntas self e off xs"
  by (induction self "None :: nat option" off xs rule: juntas.induct) auto

lemma mismo_libre: "mismo_item e e' \<Longrightarrow> libre e' = libre e \<and> chunk_size e' = chunk_size e \<and> ocupado e' = ocupado e \<and> hour e' = hour e \<and> nkey e' = nkey e"
  by (auto simp: mismo_item_def libre_def estaReservado_def)

lemma juntas_last:
  assumes "\<forall>x \<in> set us. chunk_size (cell self' x) = chunk_size (cell self x) \<and> libre (cell self' x) = libre (cell self x)"
  shows "juntas self' (Some p) off (us @ [p]) = juntas self (Some p) off (us @ [p])"
  using assms
proof (induction us arbitrary: off)
  case (Cons u us)
  then show ?case by (cases us) (auto simp: hermanas_libres_def)
qed simp

lemma juntas_upto: "juntas self e off (us @ [x]) \<Longrightarrow> e = Some p \<Longrightarrow> juntas self e off (us @ [p])"
proof (induction us arbitrary: off)
  case (Cons u us)
  then show ?case by (cases us) auto
qed simp

lemma odd_half:
  fixes c off :: int
  assumes "c = 2 * h" and "c dvd off" and "0 < h"
  shows "odd ((off + h) div h)"
proof -
  obtain m where "off = c * m" using assms(2) by (auto elim: dvdE)
  then have "off + h = h * (2 * m + 1)" using assms(1) by (simp add: algebra_simps)
  then show ?thesis using assms(3) by simp
qed

lemma half_juntas:
  assumes "juntas self (Some p) 0 (us @ p # vs)" and "c = chunk_size (cell self p)" "c = 2 * (c div 2)" "c dvd tam self us" "0 < c"
    and "chunk_size (cell s1 p) = c div 2" "chunk_size (cell s1 n) = c div 2" and d: "distinct (us @ p # vs)"
    and "\<forall>x \<in> set us \<union> set vs. chunk_size (cell s1 x) = chunk_size (cell self x) \<and> libre (cell s1 x) = libre (cell self x)"
  shows "juntas s1 (Some p) 0 (us @ p # n # vs)"
proof -
  have "tam s1 us = tam self us" using assms(9) by (intro tam_cong) simp
  moreover have "juntas s1 (Some p) 0 (us @ [p]) = juntas self (Some p) 0 (us @ [p])" using assms(9) by (intro juntas_last) simp
  moreover have "juntas s1 (Some p) off vs = juntas self (Some p) off vs" for off using assms(9) by (intro juntas_cong) simp
  moreover have "\<not> hermanas_libres s1 (tam self us + c div 2) n v" for v
  proof -
    have "0 < c div 2" using assms(3,5) by linarith
    from odd_half [OF assms(3,4) this] show ?thesis by (simp add: hermanas_libres_def assms(7))
  qed
  moreover have "tam self us + c div 2 + c div 2 = tam self us + c" using assms(3) by linarith
  moreover have "juntas self (Some p) 0 (us @ [p])" "vs \<noteq> [] \<longrightarrow> juntas self (Some p) (tam self us + c) vs"
    using assms(1,2) juntas_append [of self "Some p" 0 us p vs] by (cases vs; simp)+
  ultimately show ?thesis using assms(6,7) juntas_append [of s1 "Some p" 0 us p "n # vs"] by (cases vs) (simp_all add: add.commute)
qed

definition parametros :: "t_diccionario \<Rightarrow> int \<times> int \<times> bool" where
  "parametros self = (table_max_size self, slab_min_size self, bestfit self)"

definition mismo_uso :: "t_dict_element \<Rightarrow> t_dict_element \<Rightarrow> bool" where
  "mismo_uso e e' \<longleftrightarrow> libre e' = libre e \<and> hour e' = hour e"

lemma mismo_uso_simps: "misma_carga e e' \<Longrightarrow> mismo_uso e e'" "mismo_item e e' \<Longrightarrow> mismo_uso e e'"
  "mismo_uso e e' \<Longrightarrow> mismo_uso e' e'' \<Longrightarrow> mismo_uso e e''"
  by (auto simp: mismo_uso_def misma_carga_fields mismo_item_fields libre_def estaReservado_def)

definition dividida :: "t_diccionario \<Rightarrow> nat \<Rightarrow> nat list \<Rightarrow> nat list \<Rightarrow> t_diccionario \<Rightarrow> bool" where
  \<comment> \<open>What halving \<open>p\<close> any number of times leaves alone: its item, the other partitions, and the use of the spare cells.\<close>
  "dividida self p xs ys self' \<longleftrightarrow> parametros self' = parametros self \<and> misma_carga (cell self p) (cell self' p) \<and>
     (\<forall>x \<in> set xs - {p}. mismo_item (cell self x) (cell self' x)) \<and> (\<forall>y \<in> set ys. mismo_uso (cell self y) (cell self' y))"

lemma dividida_trans:
  assumes "dividida self p (us @ p # vs) (n # ys) s1" and "dividida s1 p (us @ p # n # vs) ys s2"
  shows "dividida self p (us @ p # vs) (n # ys) s2"
proof -
  have "misma_carga (cell self p) (cell s2 p)" using assms by (simp add: dividida_def misma_carga_fields)
  moreover have "mismo_item (cell self x) (cell s2 x)" if "x \<in> set (us @ p # vs) - {p}" for x
    using assms that mismo_trans [of "cell self x" "cell s1 x" "cell s2 x"] by (simp add: dividida_def)
  moreover have "mismo_uso (cell self y) (cell s2 y)" if "y \<in> set (n # ys)" for y
  proof -
    have "mismo_uso (cell s1 y) (cell s2 y)" using assms(2) that
      by (cases "y = p"; cases "y = n") (auto simp: dividida_def intro: mismo_uso_simps)
    with assms(1) that show ?thesis using mismo_uso_simps(3) by (simp add: dividida_def) blast
  qed
  ultimately show ?thesis using assms by (simp add: dividida_def)
qed

lemma dividir_hasta_ok:
  assumes "buddy self base (us @ p # vs) ys" and "slab_min_size self \<le> k" "0 < slab_min_size self" "k \<le> chunk_size (cell self p)"
    and "juntas self (Some p) 0 (us @ p # vs)"
  shows "\<exists>self' ns ys'. dividir_hasta self p k = Some self' \<and> buddy self' base (us @ p # ns @ vs) ys' \<and> set ns \<union> set ys' = set ys \<and>
    k \<le> chunk_size (cell self' p) \<and> (chunk_size (cell self' p) div 2 < k \<or> ys' = []) \<and>
    dividida self p (us @ p # vs) ys self' \<and> juntas self' (Some p) 0 (us @ p # ns @ vs)"
  using assms
proof (induction ys arbitrary: self vs)
  case Nil
  have "nodes self = None" using Nil.prems(1) by (simp add: buddy_def tabla_def)
  then have "dividir_hasta self p k = Some self" by (subst dividir_hasta.simps) simp
  with Nil.prems show ?case
    by (intro exI [of _ self] exI [of _ "[]"] exI [of _ "[] :: nat list"]) (simp add: dividida_def misma_carga_fields)
next
  case (Cons n ys)
  let ?c = "chunk_size (cell self p)"
  have nd: "nodes self = Some n" "distinct (us @ p # vs @ n # ys)" using Cons.prems(1) by (simp_all add: buddy_def tabla_def)
  show ?case
  proof (cases "k \<le> ?c div 2")
    case False
    then have "dividir_hasta self p k = Some self" by (subst dividir_hasta.simps) simp
    with False Cons.prems show ?thesis
      by (intro exI [of _ self] exI [of _ "[]"] exI [of _ "n # ys"]) (simp add: dividida_def misma_carga_fields mismo_uso_def)
  next
    case True
    define s1 where "s1 = dividir_particion self p (?c div 2)"
    note h = half_step [OF Cons.prems(1) refl True Cons.prems(2,3) s1_def]
    have other: "chunk_size (cell s1 x) = chunk_size (cell self x) \<and> libre (cell s1 x) = libre (cell self x)" if "x \<in> set us \<union> set vs" for x
      using h(9) [of x] nd(2) that mismo_libre [of "cell self x" "cell s1 x"] by auto
    have "?c dvd tam self us" "0 < ?c" "distinct (us @ p # vs)"
      using Cons.prems(1) potencia_pos by (auto simp: buddy_def tabla_def alineada_append)
    from half_juntas [OF Cons.prems(5) refl h(3) this(1,2) _ h(5) this(3)] h(4) other
    have j: "juntas s1 (Some p) 0 (us @ p # n # vs)" by simp
    have "slab_min_size s1 \<le> k" "0 < slab_min_size s1" "k \<le> chunk_size (cell s1 p)" using Cons.prems(2,3) True h(4,10) by simp_all
    from Cons.IH [OF h(2) this j]
    obtain s2 ns ys' where r: "dividir_hasta s1 p k = Some s2" "buddy s2 base (us @ p # ns @ n # vs) ys'" "set ns \<union> set ys' = set ys"
      "k \<le> chunk_size (cell s2 p)" "chunk_size (cell s2 p) div 2 < k \<or> ys' = []" "dividida s1 p (us @ p # n # vs) ys s2"
      "juntas s2 (Some p) 0 (us @ p # ns @ n # vs)" by blast
    have run: "dividir_hasta self p k = Some s2" using True nd(1) h(1) r(1) by (subst dividir_hasta.simps) simp
    have "mismo_uso (cell self y) (cell s1 y)" if "y \<in> set (n # ys)" for y
      using that nd(2) h(6,8) h(9) [of y] mismo_uso_simps(2) [of "cell self y" "cell s1 y"] by (cases "y = n") (auto simp: mismo_uso_def)
    moreover have "mismo_item (cell self x) (cell s1 x)" if "x \<in> set (us @ p # vs) - {p}" for x
      using that nd(2) by (intro h(9)) auto
    ultimately have "dividida self p (us @ p # vs) (n # ys) s1"
      using h(4,10-12) by (simp add: dividida_def parametros_def misma_carga_fields)
    from dividida_trans [OF this r(6)] have "dividida self p (us @ p # vs) (n # ys) s2" .
    moreover have "set (ns @ [n]) \<union> set ys' = set (n # ys)" using r(3) by auto
    ultimately show ?thesis using run r(2,4,5,7)
      by (intro exI [of _ s2] exI [of _ "ns @ [n]"] exI [of _ ys']) simp
  qed
qed

section \<open>Joining\<close>

lemma lista_remove:
  assumes "lista h a q (us @ x # vs)" and "distinct (us @ x # vs)" and "length h' = length h"
    and "\<forall>y \<in> set us \<union> set vs. next_p (h' ! y) = (if us \<noteq> [] \<and> y = last us then next_p (h ! x) else next_p (h ! y)) \<and>
      prev_p (h' ! y) = (if vs \<noteq> [] \<and> y = hd vs then prev_p (h ! x) else prev_p (h ! y))"
  shows "lista h' a (if us = [] then next_p (h ! x) else q) (us @ vs)"
  using assms(1,2,4)
proof (induction us arbitrary: a q)
  case Nil
  then show ?case
  proof (cases vs)
    case (Cons v zs)
    with Nil have "lista h (Some v) (next_p (h ! v)) zs" by simp
    moreover have "\<forall>z \<in> set zs. prev_p (h' ! z) = prev_p (h ! z) \<and> next_p (h' ! z) = next_p (h ! z)" using Nil.prems Cons by auto
    ultimately have "lista h' (Some v) (next_p (h ! v)) zs" using assms(3) by (rule lista_links)
    with Nil Cons assms(3) show ?thesis by auto
  qed simp
next
  case (Cons u us)
  have "lista h' (Some u) (if us = [] then next_p (h ! x) else next_p (h ! u)) (us @ vs)"
    by (rule Cons.IH) (use Cons.prems in auto)
  moreover have "hd vs \<noteq> u \<or> vs = []" "us \<noteq> [] \<longrightarrow> last us \<noteq> u" using Cons.prems(2) by (auto simp: hd_in_set)
  ultimately show ?case using Cons.prems assms(3) by auto
qed

lemma lista_prev: "lista h a q (us @ p # vs) \<Longrightarrow> prev_p (h ! p) = (if us = [] then a else Some (last us))"
  by (induction us arbitrary: a q) auto

text \<open>One round of the loop of \<open>unir_hermanos\<close>.\<close>

definition unida :: "t_diccionario \<Rightarrow> nat \<Rightarrow> nat \<Rightarrow> nat option \<Rightarrow> t_diccionario" where
  "unida self it h d =
     (let self = upd h (\<lambda>e. e\<lparr>chunk_size := 0, data := None\<rparr>) self;
          n = next_p (cell self h);
          self = (case prev_p (cell self h) of
              Some p \<Rightarrow> upd p (\<lambda>e. e\<lparr>next_p := n\<rparr>) self
            | None \<Rightarrow> self\<lparr>elements := n\<rparr>);
          pr = prev_p (cell self h);
          self = upd_if (next_p (cell self h)) (\<lambda>e. e\<lparr>prev_p := pr\<rparr>) self;
          self = devolver_nodo h self
      in upd it (\<lambda>e. e\<lparr>data := d, chunk_size := chunk_size e * 2\<rparr>) self)"

lemma unir_hermanos_step:
  "unir_hermanos self it (Some h) d = (if libre (cell self h) \<and> chunk_size (cell self h) = chunk_size (cell self it)
     then hermano (unida self it h d) it d \<bind> (\<lambda>(hno, d'). unir_hermanos (unida self it h d) it hno d') else Some self)"
  by (subst unir_hermanos.simps) (simp add: unida_def Let_def)

lemma unir_hermanos_None: "unir_hermanos self it None d = Some self"
  by (subst unir_hermanos.simps) simp

lemma unida_cells:
  assumes t: "tabla self base (us @ h # vs) ys" and it: "it \<in> set us \<union> set vs" and s': "s' = unida self it h d"
  shows "parametros s' = parametros self" "length (heap s') = length (heap self)" "nodes s' = Some h"
    "elements s' = (if us = [] then next_p (cell self h) else elements self)"
    "cell s' h = (cell self h)\<lparr>chunk_size := 0, data := None, prev_p := None, next_p := nodes self\<rparr>"
    "x \<in> set us \<union> set vs \<Longrightarrow> cell s' x = (cell self x)\<lparr>
       next_p := (if us \<noteq> [] \<and> x = last us then next_p (cell self h) else next_p (cell self x)),
       prev_p := (if vs \<noteq> [] \<and> x = hd vs then prev_p (cell self h) else prev_p (cell self x)),
       data := (if x = it then d else data (cell self x)), chunk_size := (if x = it then chunk_size (cell self x) * 2 else chunk_size (cell self x))\<rparr>"
    "x \<in> set ys \<Longrightarrow> \<exists>a. cell s' x = (cell self x)\<lparr>prev_p := a\<rparr>"
proof -
  have l: "lista (heap self) None (elements self) (us @ h # vs)" and pl: "pila (heap self) (nodes self) ys"
    and d: "distinct (us @ h # vs @ ys)" using t by (auto simp: tabla_def)
  have len: "z < length (heap self)" if "z \<in> set us \<union> set vs \<union> set ys \<union> {h}" for z
    using that lista_bounds [OF l, of z] pila_bounds [OF pl, of z] by auto
  let ?n = "next_p (cell self h)" and ?p = "prev_p (cell self h)"
  have n: "?n = (if vs = [] then None else Some (hd vs))" using lista_next [OF l] by (simp add: cell_def)
  have p: "?p = (if us = [] then None else Some (last us))" using lista_prev [OF l] by (simp add: cell_def)
  have m: "nodes self = (if ys = [] then None else Some (hd ys))" using pl by (cases ys) auto
  have ne: "?n \<noteq> Some h" "?p \<noteq> Some h" "nodes self \<noteq> Some h" "it \<noteq> h" using d n p m it by (auto split: if_splits dest: hd_in_set last_in_set)
  define s1 where "s1 = upd h (\<lambda>e. e\<lparr>chunk_size := 0, data := None\<rparr>) self"
  define s2 where "s2 = (case ?p of Some p \<Rightarrow> upd p (\<lambda>e. e\<lparr>next_p := ?n\<rparr>) s1 | None \<Rightarrow> s1\<lparr>elements := ?n\<rparr>)"
  define s3 where "s3 = upd_if ?n (\<lambda>e. e\<lparr>prev_p := ?p\<rparr>) s2"
  define s4 where "s4 = devolver_nodo h s3"
  have b: "?n = Some z \<Longrightarrow> z < length (heap self)" "?p = Some z \<Longrightarrow> z < length (heap self)" "nodes self = Some z \<Longrightarrow> z < length (heap self)" for z
    using n p m len by (auto split: if_splits)
  have c1: "cell s1 x = (if x = h then (cell self x)\<lparr>chunk_size := 0, data := None\<rparr> else cell self x)" for x
    using len by (simp add: s1_def cell_upd)
  have l2: "length (heap s2) = length (heap self)" "nodes s2 = nodes self" "elements s2 = (if us = [] then ?n else elements self)" "parametros s2 = parametros self"
    using p by (auto simp: s2_def s1_def parametros_def split: option.splits if_splits)
  have c2: "cell s2 x = (if ?p = Some x then (cell s1 x)\<lparr>next_p := ?n\<rparr> else cell s1 x)" for x
  proof -
    have "length (heap s1) = length (heap self)" "cell (s1\<lparr>elements := ?n\<rparr>) x = cell s1 x" by (simp_all add: s1_def cell_def)
    then show ?thesis using b(2) by (auto simp: s2_def cell_upd split: option.splits)
  qed
  have c3: "cell s3 x = (if ?n = Some x then (cell s2 x)\<lparr>prev_p := ?p\<rparr> else cell s2 x)" for x
    using b(1) l2(1) cell_upd_if [of ?n s2] by (simp add: s3_def)
  have l3: "length (heap s3) = length (heap self)" "nodes s3 = nodes self" "elements s3 = elements s2" "parametros s3 = parametros self"
    using l2 by (simp_all add: s3_def parametros_def)
  have nd: "\<forall>q. nodes s3 = Some q \<longrightarrow> q < length (heap s3) \<and> q \<noteq> h" "h < length (heap s3)" using b(3) ne len by (auto simp: l3)
  note c4 = devolver_cells [OF nd(2,1), folded s4_def, unfolded l3]
  have f: "next_p (cell s1 h) = ?n" "prev_p (cell s1 h) = ?p" "prev_p (cell s2 h) = ?p" "next_p (cell s2 h) = ?n"
    using ne by (simp_all add: c1 c2)
  have e: "s' = upd it (\<lambda>e. e\<lparr>data := d, chunk_size := chunk_size e * 2\<rparr>) s4"
    by (simp only: s' unida_def Let_def s1_def [symmetric] f s2_def [symmetric] s3_def [symmetric] s4_def [symmetric])
  have c: "cell s' x = (if x = it then (cell s4 x)\<lparr>data := d, chunk_size := chunk_size (cell s4 x) * 2\<rparr> else cell s4 x)" for x
    using it len [of it] by (simp add: e cell_upd c4)
  have "bestfit s4 = bestfit s3" by (simp add: s4_def devolver_nodo_def)
  then show "parametros s' = parametros self" "length (heap s') = length (heap self)" "nodes s' = Some h"
    "elements s' = (if us = [] then ?n else elements self)"
    using l2(3) l3(4) c4(2-6) by (auto simp: e parametros_def)
  show "cell s' h = (cell self h)\<lparr>chunk_size := 0, data := None, prev_p := None, next_p := nodes self\<rparr>"
    using ne by (simp add: c c4 c3 c2 c1)
  show "x \<in> set us \<union> set vs \<Longrightarrow> cell s' x = (cell self x)\<lparr>
       next_p := (if us \<noteq> [] \<and> x = last us then next_p (cell self h) else next_p (cell self x)),
       prev_p := (if vs \<noteq> [] \<and> x = hd vs then prev_p (cell self h) else prev_p (cell self x)),
       data := (if x = it then d else data (cell self x)), chunk_size := (if x = it then chunk_size (cell self x) * 2 else chunk_size (cell self x))\<rparr>"
  proof -
    assume x: "x \<in> set us \<union> set vs"
    then have "x \<noteq> h" "nodes self \<noteq> Some x" using d m by (auto split: if_splits dest: hd_in_set)
    then show ?thesis by (auto simp: c c4(1) c3 c2 c1 n p)
  qed
  show "\<exists>a. cell s' x = (cell self x)\<lparr>prev_p := a\<rparr>" if "x \<in> set ys"
  proof -
    have "x \<noteq> h" "?n \<noteq> Some x" "?p \<noteq> Some x" "x \<noteq> it" using d n p it that by (auto split: if_splits dest: hd_in_set last_in_set)
    then have "cell s' x = (cell self x)\<lparr>prev_p := Some h\<rparr> \<or> cell s' x = (cell self x)\<lparr>prev_p := prev_p (cell self x)\<rparr>"
      by (simp add: c c4(1) c3 c2 c1)
    then show ?thesis by blast
  qed
qed

definition reducida :: "t_diccionario \<Rightarrow> nat \<Rightarrow> nat list \<Rightarrow> nat list \<Rightarrow> nat list \<Rightarrow> nat list \<Rightarrow> t_diccionario \<Rightarrow> bool" where
  \<comment> \<open>Joining \<open>it\<close> with its siblings turns the partitions \<open>xs\<close> into \<open>xs'\<close>: those that disappear were free, the others keep their items.\<close>
  "reducida self it xs ys xs' ys' self' \<longleftrightarrow> parametros self' = parametros self \<and> it \<in> set xs' \<and> subseq xs' xs \<and>
     set xs' \<union> set ys' = set xs \<union> set ys \<and>
     (\<forall>x \<in> set xs' - {it}. mismo_item (cell self x) (cell self' x)) \<and> (\<forall>x \<in> set xs - set xs'. libre (cell self x)) \<and>
     (\<forall>x \<in> set xs \<union> set ys. mismo_uso (cell self x) (cell self' x))"

lemma reducida_trans:
  assumes "reducida self it xs ys xs' ys' s1" and "reducida s1 it xs' ys' xs'' ys'' s2"
  shows "reducida self it xs ys xs'' ys'' s2"
proof -
  have "libre (cell self x)" if x: "x \<in> set xs - set xs''" for x
  proof (cases "x \<in> set xs'")
    case True
    then have "libre (cell s1 x)" using assms(2) x by (simp add: reducida_def)
    moreover have "mismo_uso (cell self x) (cell s1 x)" using assms(1) x by (simp add: reducida_def)
    ultimately show ?thesis by (simp add: mismo_uso_def)
  qed (use assms(1) x in \<open>simp add: reducida_def\<close>)
  moreover have "mismo_item (cell self x) (cell s2 x)" if "x \<in> set xs'' - {it}" for x
  proof -
    have "x \<in> set xs' - {it}" using that assms(2) list_emb_set [of "(=)" xs'' xs' x] by (auto simp: reducida_def)
    with assms that show ?thesis using mismo_trans [of "cell self x" "cell s1 x" "cell s2 x"] by (simp add: reducida_def)
  qed
  moreover have "mismo_uso (cell self x) (cell s2 x)" if "x \<in> set xs \<union> set ys" for x
  proof -
    have "mismo_uso (cell self x) (cell s1 x)" "x \<in> set xs' \<union> set ys'" using that assms(1) by (auto simp: reducida_def)
    then show ?thesis using assms(2) mismo_uso_simps(3) [of "cell self x" "cell s1 x" "cell s2 x"] by (auto simp: reducida_def)
  qed
  moreover have "subseq xs'' xs" using assms subseq_order.trans unfolding reducida_def by blast
  ultimately show ?thesis using assms unfolding reducida_def by simp
qed

lemma twice_dvd:
  fixes s off :: int
  assumes "s dvd off" and "even (off div s)"
  shows "2 * s dvd off"
proof -
  obtain m where "off div s = 2 * m" using assms(2) by (auto elim: evenE)
  moreover have "off = s * (off div s)" using assms(1) by simp
  ultimately have "off = 2 * s * m" by simp
  then show ?thesis by simp
qed

lemma unida_ok:
  assumes b: "buddy self base (us @ a # b # vs) ys" and ab: "it = a \<and> h = b \<or> it = b \<and> h = a"
    and eq: "chunk_size (cell self a) = chunk_size (cell self b)" and ev: "even (tam self us div chunk_size (cell self a))"
    and fr: "libre (cell self h)" and d: "d = data (cell self a)" and s': "s' = unida self it h d"
    and j: "juntas self (Some it) 0 (us @ a # b # vs)"
  shows "buddy s' base (us @ it # vs) (h # ys)" "data (cell s' it) = d" "juntas s' (Some it) 0 (us @ it # vs)"
    "reducida self it (us @ a # b # vs) ys (us @ it # vs) (h # ys) s'"
proof -
  let ?s = "chunk_size (cell self a)"
  obtain as bs where z: "us @ a # b # vs = as @ h # bs" "us @ it # vs = as @ bs"
  proof (cases "it = a \<and> h = b")
    case True
    then show ?thesis using that [of "us @ [a]" vs] by simp
  next
    case False
    then show ?thesis using that [of us "b # vs"] ab by auto
  qed
  have t0: "tabla self base (us @ a # b # vs) ys" and al: "alineada self 0 us" "potencia ?s" "?s dvd tam self us" "alineada self (tam self us + 2 * ?s) vs"
    using b eq by (auto simp: buddy_def alineada_append add.assoc)
  note t = t0 [unfolded z]
  have dis: "distinct (as @ h # bs @ ys)" and len: "h < length (heap self)" and pl: "pila (heap self) (nodes self) ys"
    and l: "lista (heap self) None (elements self) (as @ h # bs)" and zero: "\<forall>y \<in> set ys. chunk_size (cell self y) = 0"
    using t tabla_bounds [OF t, of h] by (auto simp: tabla_def cell_def)
  have cu: "cubre (heap self) base (us @ a # b # vs)" and tot: "tam self (us @ a # b # vs) = table_max_size self"
    using t0 by (simp_all only: tabla_def tam_def cell_def)
  have it: "it \<in> set as \<union> set bs" using z(2) by (metis in_set_conv_decomp set_append)
  note c = unida_cells [OF t it s']
  have set: "set as \<union> set bs = insert it (set us \<union> set vs)" using arg_cong [OF z(2), of set] by auto
  have dis': "distinct (us @ it # vs)" using dis z(2) by auto
  have cit: "data (cell s' it) = d" "chunk_size (cell s' it) = 2 * ?s" "mismo_uso (cell self it) (cell s' it)"
    using c(6) [of it] it ab eq by (auto simp: mismo_uso_def libre_def estaReservado_def)
  have rest: "mismo_item (cell self x) (cell s' x)" if "x \<in> set us \<union> set vs" for x
  proof -
    have "x \<in> set as \<union> set bs" "x \<noteq> it" using that dis' set by auto
    with c(6) [of x] show ?thesis by (simp add: mismo_item_fields misma_carga_fields)
  qed
  have fields: "chunk_size (cell s' x) = chunk_size (cell self x) \<and> libre (cell s' x) = libre (cell self x)" if "x \<in> set us \<union> set vs" for x
    using mismo_libre [OF rest [OF that]] by blast
  have dat: "data (cell s' x) = data (cell self x)" if "x \<in> set us \<union> set vs" for x
    using rest [OF that] by (simp add: mismo_item_fields misma_carga_fields)
  have tamu: "tam s' us = tam self us" "tam s' vs = tam self vs" using fields by (intro tam_cong; simp)+
  have spare: "chunk_size (cell s' y) = 0 \<and> next_p (cell s' y) = next_p (cell self y) \<and> mismo_uso (cell self y) (cell s' y)" if "y \<in> set ys" for y
    using c(7) [OF that] zero that by (auto simp: mismo_uso_def libre_def estaReservado_def)
  have "lista (heap s') None (if as = [] then next_p (heap self ! h) else elements self) (as @ bs)"
    by (rule lista_remove [OF l]) (use dis c(2,6) in \<open>auto simp: cell_def\<close>)
  then have l': "lista (heap s') None (elements s') (us @ it # vs)" unfolding z(2) c(4) cell_def .
  have "pila (heap s') (nodes self) ys" by (rule pila_frame [OF pl]) (use spare c(2) in \<open>auto simp: cell_def\<close>)
  then have pl': "pila (heap s') (nodes s') (h # ys)" using c(2,3,5) len by (simp add: cell_def)
  have "cubre (heap s') base (us @ it # vs)"
    by (rule cubre_absorb [OF cu]) (use cit d eq fields dat in \<open>auto simp: cell_def\<close>)
  moreover have "tam s' (us @ it # vs) = table_max_size s'" using tot tamu cit(2) eq c(1) by (simp add: parametros_def)
  moreover have "\<forall>y \<in> set (h # ys). chunk_size (cell s' y) = 0" using spare c(5) by simp
  moreover have "distinct ((us @ it # vs) @ h # ys)" using dis z(2) by auto
  ultimately have t': "tabla s' base (us @ it # vs) (h # ys)" using l' pl' by (simp add: tabla_def tam_def cell_def)
  have "alineada s' off us = alineada self off us" "alineada s' off vs = alineada self off vs" for off
    using fields by (auto intro!: alineada_cong)
  then have "alineada s' 0 (us @ it # vs)"
    using al tamu cit(2) twice_dvd [OF al(3) ev] potencia_twice [OF al(2)] by (simp add: alineada_append)
  with t' show "buddy s' base (us @ it # vs) (h # ys)" by (simp add: buddy_def)
  show "data (cell s' it) = d" by (rule cit(1))
  show "juntas s' (Some it) 0 (us @ it # vs)"
  proof -
    have "juntas s' (Some it) 0 (us @ [it]) = juntas self (Some it) 0 (us @ [it])" using fields by (intro juntas_last) simp
    moreover have "juntas s' (Some it) off vs = juntas self (Some it) off vs" for off using fields by (intro juntas_cong) simp
    moreover have "juntas self (Some it) 0 (us @ [it])"
      using j ab juntas_append [of self "Some it" 0 us a "b # vs"] juntas_upto [of self "Some it" 0 us] by auto
    moreover have "vs \<noteq> [] \<longrightarrow> juntas self (Some it) (tam self us + 2 * ?s) vs"
      using j eq juntas_append [of self "Some it" 0 us a "b # vs"] by (cases vs) (auto simp: add.assoc)
    ultimately show ?thesis using tamu(1) cit(2) juntas_append [of s' "Some it" 0 us it vs] by (cases vs) simp_all
  qed
  have "mismo_uso (cell self h) (cell s' h)" using c(5) by (simp add: mismo_uso_def libre_def estaReservado_def)
  then show "reducida self it (us @ a # b # vs) ys (us @ it # vs) (h # ys) s'"
    using c(1) rest fr spare cit(3) ab by (auto simp: reducida_def intro: mismo_uso_simps list_emb_append_mono)
qed

text \<open>The sibling the code looks at: the next partition or the previous one.\<close>

lemma hermano_lista:
  assumes b: "buddy self base (us @ p # vs) ys"
  shows "hermano self p d = Some (if even (tam self us div chunk_size (cell self p)) then (if vs = [] then None else Some (hd vs), d)
    else (Some (last us), data (cell self (last us))))"
proof -
  have l: "lista (heap self) None (elements self) (us @ p # vs)" using b by (simp add: buddy_def tabla_def)
  have "next_p (cell self p) = (if vs = [] then None else Some (hd vs))" using lista_next [OF l] by (simp add: cell_def)
  moreover have "prev_p (cell self p) = (if us = [] then None else Some (last us))" using lista_prev [OF l] by (simp add: cell_def)
  ultimately show ?thesis using primer_hermano [OF b] by (auto simp: hermano_def)
qed

lemma juntas_snoc: "juntas self e off (us @ [x, p]) \<longleftrightarrow> juntas self e off (us @ [x]) \<and>
    (e = Some x \<or> e = Some p \<or> \<not> hermanas_libres self (off + tam self us) x p)"
  using juntas_append [of self e off us x "[p]"] by simp

lemma juntas_drop:
  assumes "juntas self (Some p) off xs" and "p \<notin> set xs"
  shows "juntas self None off xs"
  using assms by (induction self "Some p" off xs rule: juntas.induct) auto

lemma juntas_all:
  assumes j: "juntas self (Some p) off (us @ p # vs)" and d: "distinct (us @ p # vs)"
    and before: "\<forall>zs x. us = zs @ [x] \<longrightarrow> \<not> hermanas_libres self (off + tam self zs) x p"
    and after: "vs \<noteq> [] \<longrightarrow> \<not> hermanas_libres self (off + tam self us) p (hd vs)"
  shows "juntas self None off (us @ p # vs)"
proof -
  have jj: "juntas self (Some p) off (us @ [p])" "juntas self (Some p) (off + tam self us) (p # vs)"
    using j juntas_append [of self "Some p" off us p vs] by blast+
  have "juntas self None off (us @ [p])"
  proof (cases us rule: rev_cases)
    case (snoc zs x)
    then have "juntas self (Some p) off (zs @ [x])" using jj(1) juntas_snoc [of self "Some p" off zs x p] by simp
    then have "juntas self None off (zs @ [x])" by (rule juntas_drop) (use snoc d in auto)
    then show ?thesis using snoc before juntas_snoc [of self None off zs x p] by simp
  qed simp
  moreover have "juntas self None (off + tam self us) (p # vs)"
  proof (cases vs)
    case (Cons v zs)
    then have "juntas self (Some p) (off + tam self us + chunk_size (cell self p)) (v # zs)" using jj(2) by simp
    then have "juntas self None (off + tam self us + chunk_size (cell self p)) (v # zs)" by (rule juntas_drop) (use Cons d in auto)
    then show ?thesis using Cons after by simp
  qed simp
  ultimately show ?thesis using juntas_append [of self None off us p vs] by blast
qed

lemma div_minus_self:
  fixes s off :: int
  assumes "0 < s"
  shows "even ((off - s) div s) \<longleftrightarrow> odd (off div s)"
  using assms div_mult_self1 [of s off "- 1"] by simp

lemma unir_ok:
  assumes "buddy self base (us @ it # vs) ys" and "libre (cell self it)" and "juntas self (Some it) 0 (us @ it # vs)"
    and "hermano self it (data (cell self it)) = Some (hno, d)"
  shows "\<exists>self' us' vs' ys'. unir_hermanos self it hno d = Some self' \<and> buddy self' base (us' @ it # vs') ys' \<and>
    juntas self' None 0 (us' @ it # vs') \<and> reducida self it (us @ it # vs) ys (us' @ it # vs') ys' self'"
  using assms
proof (induction "length us + length vs" arbitrary: self us vs ys hno d rule: less_induct)
  case less
  let ?s = "chunk_size (cell self it)" and ?o = "tam self us"
  have dis: "distinct (us @ it # vs)" and pos: "0 < ?s" using less.prems(1) potencia_pos by (auto simp: buddy_def tabla_def alineada_append)
  note h = hermano_lista [OF less.prems(1), of "data (cell self it)"] less.prems(4)
  have stop: ?case if "unir_hermanos self it hno d = Some self" "juntas self None 0 (us @ it # vs)"
    using that less.prems(1) by (intro exI [of _ self] exI [of _ us] exI [of _ vs] exI [of _ ys]) (simp add: reducida_def mismo_uso_def)
  have go: ?case if e: "us @ it # vs = zs @ a # b # ws" "it = a \<and> h = b \<or> it = b \<and> h = a" and c: "hno = Some h" "d = data (cell self a)"
    "libre (cell self h)" "chunk_size (cell self h) = ?s" and ev: "even (tam self zs div chunk_size (cell self a))" for zs ws a b h
  proof -
    define s1 where "s1 = unida self it h d"
    have eq: "chunk_size (cell self a) = chunk_size (cell self b)" using e(2) c(4) by auto
    note u = unida_ok [OF less.prems(1) [unfolded e(1)] e(2) eq ev c(3,2) s1_def less.prems(3) [unfolded e(1)]]
    have m: "length zs + length ws < length us + length vs" using arg_cong [OF e(1), of length] by simp
    have li: "libre (cell s1 it)" using u(4) less.prems(2) by (auto simp: reducida_def mismo_uso_def)
    obtain hno' d' where n: "hermano s1 it (data (cell s1 it)) = Some (hno', d')" using hermano_lista [OF u(1)] by (metis prod.exhaust)
    from less.hyps [OF m u(1) li u(3) n] obtain s2 us' vs' ys' where r: "unir_hermanos s1 it hno' d' = Some s2"
      "buddy s2 base (us' @ it # vs') ys'" "juntas s2 None 0 (us' @ it # vs')" "reducida s1 it (zs @ it # ws) (h # ys) (us' @ it # vs') ys' s2"
      by blast
    have "unir_hermanos self it hno d = Some s2"
      using c n u(2) r(1) by (simp add: unir_hermanos_step s1_def)
    moreover have "reducida self it (us @ it # vs) ys (us' @ it # vs') ys' s2" using reducida_trans [OF u(4) r(4)] e(1) by simp
    ultimately show ?case using r(2,3) by blast
  qed
  show ?case
  proof (cases "even (?o div ?s)")
    case True
    then have hn: "hno = (if vs = [] then None else Some (hd vs))" "d = data (cell self it)" using h by auto
    show ?thesis
    proof (cases "vs \<noteq> [] \<and> libre (cell self (hd vs)) \<and> chunk_size (cell self (hd vs)) = ?s")
      case j: True
      then show ?thesis using hn True by (intro go [of us it "hd vs" "tl vs" "hd vs"]) auto
    next
      case j: False
      then have "unir_hermanos self it hno d = Some self" using hn by (auto simp: unir_hermanos_step unir_hermanos_None)
      moreover have "\<not> hermanas_libres self (0 + tam self zs) x it" if "us = zs @ [x]" for zs x
        using True pos that div_minus_self [of ?s ?o] by (auto simp: hermanas_libres_def)
      ultimately show ?thesis using j by (intro stop juntas_all less.prems(3) dis) (auto simp: hermanas_libres_def)
    qed
  next
    case False
    then obtain zs x where us: "us = zs @ [x]" by (cases us rule: rev_cases) auto
    have hn: "hno = Some x" "d = data (cell self x)" using h False us by auto
    show ?thesis
    proof (cases "libre (cell self x) \<and> chunk_size (cell self x) = ?s")
      case j: True
      then have "even (tam self zs div chunk_size (cell self x))" using False pos us div_minus_self [of ?s ?o] by auto
      then show ?thesis using hn us j by (intro go [of zs x it vs x]) auto
    next
      case j: False
      then have "unir_hermanos self it hno d = Some self" using hn by (auto simp: unir_hermanos_step)
      then show ?thesis using j us False by (intro stop juntas_all less.prems(3) dis) (auto simp: hermanas_libres_def)
    qed
  qed
qed

section \<open>Releasing a partition\<close>

lemma limpiar_buddy:
  assumes "buddy self base xs ys" and "it \<in> set xs"
  shows "buddy (limpiar_item it self) base xs ys" "libre (cell (limpiar_item it self) it)" "hour (cell (limpiar_item it self) it) = 0"
    "x \<noteq> it \<Longrightarrow> cell (limpiar_item it self) x = cell self x" "chunk_size (cell (limpiar_item it self) x) = chunk_size (cell self x)"
    "data (cell (limpiar_item it self) x) = data (cell self x)" "parametros (limpiar_item it self) = parametros self"
proof -
  have t: "tabla self base xs ys" "alineada self 0 xs" using assms(1) by (simp_all add: buddy_def)
  note l = limpiar_item_ok [OF t(1) assms(2)]
  show "libre (cell (limpiar_item it self) it)" "hour (cell (limpiar_item it self) it) = 0"
    "x \<noteq> it \<Longrightarrow> cell (limpiar_item it self) x = cell self x" "chunk_size (cell (limpiar_item it self) x) = chunk_size (cell self x)"
    "data (cell (limpiar_item it self) x) = data (cell self x)" for x
    using l(3) by (simp_all add: libre_def estaReservado_def)
  then have "alineada (limpiar_item it self) 0 xs = alineada self 0 xs" by (intro alineada_cong) simp
  then show "buddy (limpiar_item it self) base xs ys" using l(1) t(2) by (simp add: buddy_def)
  show "parametros (limpiar_item it self) = parametros self" by (simp add: parametros_def limpiar_item_def)
qed

lemma hermano_limpiar:
  assumes b: "buddy self base (us @ it # vs) ys"
  shows "hermano (limpiar_item it self) it d = hermano self it d"
proof -
  have m: "it \<in> set (us @ it # vs)" by simp
  note l = limpiar_buddy [OF b m]
  have "tam (limpiar_item it self) us = tam self us" using l(5) by (intro tam_cong) simp
  then show ?thesis unfolding hermano_lista [OF b] hermano_lista [OF l(1)] l(5,6) by simp
qed

lemma eliminar_buddy_ok:
  assumes b: "buddy self base xs ys" and it: "it \<in> set xs" and j: "juntas self None 0 xs"
  shows "\<exists>self' xs' ys'. diccionario_eliminar_buddy self it = Some (it, self') \<and> buddy self' base xs' ys' \<and>
    juntas self' None 0 xs' \<and> reducida (limpiar_item it self) it xs ys xs' ys' self'"
proof -
  obtain us vs where x: "xs = us @ it # vs" using it by (auto simp: in_set_conv_decomp)
  define s0 where "s0 = limpiar_item it self"
  note l = limpiar_buddy [OF b it, folded s0_def]
  have d: "distinct (us @ it # vs)" using b x by (auto simp: buddy_def tabla_def)
  obtain hno d' where h: "hermano self it (data (cell self it)) = Some (hno, d')" using hermano_lista b x by (metis prod.exhaust)
  then have h0: "hermano s0 it (data (cell s0 it)) = Some (hno, d')" using hermano_limpiar b x l(6) by (simp add: s0_def)
  have "juntas s0 (Some it) 0 (us @ it # vs)"
  proof -
    have same: "chunk_size (cell s0 z) = chunk_size (cell self z) \<and> libre (cell s0 z) = libre (cell self z)" if "z \<in> set us \<union> set vs" for z
    proof -
      have "z \<noteq> it" using that d by auto
      with l(4) show ?thesis by simp
    qed
    have "tam s0 us = tam self us" using l(5) by (intro tam_cong) simp
    moreover have "juntas s0 (Some it) 0 (us @ [it]) = juntas self (Some it) 0 (us @ [it])" using same by (intro juntas_last) simp
    moreover have "juntas s0 (Some it) off vs = juntas self (Some it) off vs" for off using same by (intro juntas_cong) simp
    moreover have "juntas self (Some it) 0 (us @ it # vs)" using juntas_weaken [OF j] x by simp
    ultimately show ?thesis using l(5) [of it] juntas_append [of self "Some it" 0 us it vs] juntas_append [of s0 "Some it" 0 us it vs]
      by (cases vs) simp_all
  qed
  from unir_ok [OF l(1) [unfolded x] l(2) this h0] obtain s1 us' vs' ys' where r: "unir_hermanos s0 it hno d' = Some s1"
    "buddy s1 base (us' @ it # vs') ys'" "juntas s1 None 0 (us' @ it # vs')" "reducida s0 it (us @ it # vs) ys (us' @ it # vs') ys' s1"
    by blast
  have "diccionario_eliminar_buddy self it = Some (it, s1)" using h r(1) by (simp add: diccionario_eliminar_buddy_def s0_def)
  with r(2-4) x show ?thesis unfolding s0_def by blast
qed

section \<open>A table with nothing in use\<close>

lemma alineada_member: "alineada self off xs \<Longrightarrow> x \<in> set xs \<Longrightarrow> potencia (chunk_size (cell self x))"
  by (induction xs arbitrary: off) auto

lemma tam_multiple: "\<forall>x \<in> set xs. s dvd chunk_size (cell self x) \<Longrightarrow> s dvd tam self xs"
  by (induction xs) auto

lemma tam_nonneg: "alineada self off xs \<Longrightarrow> 0 \<le> tam self xs \<and> (xs \<noteq> [] \<longrightarrow> 0 < tam self xs)"
proof (induction xs arbitrary: off)
  case (Cons x xs)
  then have "0 < chunk_size (cell self x)" "0 \<le> tam self xs" by (auto dest: potencia_pos)
  then show ?case by simp
qed simp

lemma odd_multiple:
  fixes s off :: int
  assumes "2 * s dvd off" and "0 < s"
  shows "even (off div s)"
proof -
  obtain m where "off = 2 * s * m" using assms(1) by (auto elim: dvdE)
  then have "off = s * (2 * m)" by simp
  then show ?thesis using assms(2) by simp
qed

text \<open>
  The smallest partition of a table in which all are free has its sibling beside it, so a table
  with nothing left to join is one partition.
\<close>

lemma todo_libre:
  assumes al: "alineada self 0 xs" and ne: "xs \<noteq> []" and j: "juntas self None 0 xs" and fr: "\<forall>x \<in> set xs. libre (cell self x)"
    and pot: "potencia (tam self xs)"
  shows "\<exists>x. xs = [x]"
proof (rule ccontr)
  let ?c = "\<lambda>x. chunk_size (cell self x)"
  assume no: "\<nexists>x. xs = [x]"
  obtain p where p: "p \<in> set xs" "\<forall>x \<in> set xs. ?c p \<le> ?c x"
    using ne ex_min_if_finite [of "?c ` set xs"] by (auto simp: not_less)
  then obtain us vs where x: "xs = us @ p # vs" by (auto simp: in_set_conv_decomp)
  let ?s = "?c p" and ?o = "tam self us"
  have pw: "potencia (?c x)" if "x \<in> set xs" for x using alineada_member [OF al that] .
  have dv: "?s dvd ?c x" if "x \<in> set xs" for x using potencia_dvd [OF pw [OF p(1)] pw [OF that]] p(2) that by simp
  have tw: "2 * ?s dvd ?c x" if "x \<in> set xs" "?c x \<noteq> ?s" for x
    using potencia_less [OF pw [OF p(1)] pw [OF that(1)]] p(2) that by fastforce
  have pos: "0 < ?s" using potencia_pos [OF pw [OF p(1)]] .
  have a: "alineada self 0 us" "?s dvd ?o" "alineada self (?o + ?s) vs" using al x by (auto simp: alineada_append)
  have nx: "odd ((?o + ?s) div ?s)" if "even (?o div ?s)" using that pos by simp
  show False
  proof (cases "even (?o div ?s)")
    case True
    show False
    proof (cases vs)
      case Nil
      then have "us \<noteq> []" using no x by auto
      then have "?s < tam self xs" using tam_nonneg [OF a(1)] x Nil by simp
      from odd_multiple [OF potencia_less [OF pw [OF p(1)] pot this] pos] nx True x Nil show False by simp
    next
      case (Cons v ws)
      have "?c v dvd ?o + ?s" using a(3) Cons by simp
      moreover have "\<not> 2 * ?s dvd ?o + ?s" using odd_multiple [OF _ pos] nx True by blast
      ultimately have "?c v = ?s" using tw [of v] x Cons dvd_trans [of "2 * ?s" "?c v" "?o + ?s"] by auto
      then have "hermanas_libres self ?o p v" using True fr x Cons by (simp add: hermanas_libres_def)
      with j x Cons juntas_append [of self None 0 us p vs] show False by simp
    qed
  next
    case False
    then obtain zs v where us: "us = zs @ [v]" by (cases us rule: rev_cases) auto
    have "?c v dvd tam self zs" using a(1) us by (simp add: alineada_append)
    then have "?c v dvd ?o" using us by simp
    moreover have "\<not> 2 * ?s dvd ?o" using odd_multiple [OF _ pos] False by blast
    ultimately have v: "?c v = ?s" using tw [of v] x us dvd_trans [of "2 * ?s" "?c v" ?o] by auto
    then have "hermanas_libres self (tam self zs) v p" using False us fr x div_minus_self [of ?s ?o] pos by (auto simp: hermanas_libres_def)
    moreover have "juntas self None 0 (zs @ v # p # vs)" using j x us by simp
    ultimately show False using juntas_append [of self None 0 zs v "p # vs"] by simp
  qed
qed

section \<open>Allocating\<close>

definition desalojable :: "t_diccionario \<Rightarrow> nat list \<Rightarrow> nat list \<Rightarrow> bool" where
  \<comment> \<open>A partition that is not free holds a stored item, which can be evicted; spare cells are blank.\<close>
  "desalojable self xs ys \<longleftrightarrow> (\<forall>x \<in> set xs. libre (cell self x) \<longleftrightarrow> hour (cell self x) = 0) \<and>
     (\<forall>y \<in> set ys. libre (cell self y) \<and> hour (cell self y) = 0)"

definition en_uso :: "t_diccionario \<Rightarrow> nat list \<Rightarrow> nat set" where
  "en_uso self xs = {x \<in> set xs. hour (cell self x) \<noteq> 0}"

lemma desalojar:
  assumes b: "buddy self base xs ys" and v: "v \<in> en_uso self xs" and e: "desalojable self xs ys"
    and r: "reducida (limpiar_item v self) v xs ys xs' ys' s1" and b': "buddy s1 base xs' ys'"
  shows "desalojable s1 xs' ys'" "en_uso s1 xs' = en_uso self xs - {v}"
    "x \<in> en_uso s1 xs' \<Longrightarrow> mismo_item (cell self x) (cell s1 x)" "parametros s1 = parametros self" "set xs' \<union> set ys' = set xs \<union> set ys"
proof -
  have vx: "v \<in> set xs" using v by (simp add: en_uso_def)
  note l = limpiar_buddy [OF b vx]
  have rr: "set xs' \<subseteq> set xs" "set xs' \<union> set ys' = set xs \<union> set ys" "\<forall>x \<in> set xs' - {v}. mismo_item (cell (limpiar_item v self) x) (cell s1 x)"
    "\<forall>x \<in> set xs - set xs'. libre (cell (limpiar_item v self) x)"
    "\<forall>x \<in> set xs \<union> set ys. mismo_uso (cell (limpiar_item v self) x) (cell s1 x)" "v \<in> set xs'"
    using r by (auto simp: reducida_def dest: list_emb_set)
  have uso: "libre (cell s1 x) = libre (cell self x) \<and> hour (cell s1 x) = hour (cell self x)" if "x \<in> set xs \<union> set ys" "x \<noteq> v" for x
    using rr(5) that l(4) by (simp add: mismo_uso_def)
  have vu: "libre (cell s1 v)" "hour (cell s1 v) = 0" using rr(5) vx l(2,3) by (auto simp: mismo_uso_def)
  have gone: "libre (cell self x) \<and> hour (cell self x) = 0" if x: "x \<in> set ys' - set xs'" for x
  proof (cases "x \<in> set xs")
    case True
    then have "libre (cell (limpiar_item v self) x)" "x \<noteq> v" using x rr(4,6) by blast+
    then have "libre (cell self x)" using l(4) by simp
    then show ?thesis using e True by (simp add: desalojable_def)
  next
    case False
    then have "x \<in> set ys" using x rr(2) by blast
    then show ?thesis using e by (simp add: desalojable_def)
  qed
  show "desalojable s1 xs' ys'" unfolding desalojable_def
  proof (intro conjI ballI)
    fix x assume x: "x \<in> set xs'"
    then show "libre (cell s1 x) = (hour (cell s1 x) = 0)"
      using e vu uso [of x] rr(1) by (cases "x = v") (auto simp: desalojable_def)
  next
    fix x assume x: "x \<in> set ys'"
    have "libre (cell s1 x) \<and> hour (cell s1 x) = 0"
    proof (cases "x = v")
      case False
      have "x \<in> set ys' - set xs'" using b' x by (auto simp: buddy_def tabla_def)
      moreover have "x \<in> set xs \<union> set ys" using x rr(2) by blast
      ultimately show ?thesis using gone uso False by metis
    qed (use vu in simp)
    then show "libre (cell s1 x)" "hour (cell s1 x) = 0" by blast+
  qed
  show "parametros s1 = parametros self" using r l(7) by (simp add: reducida_def)
  show "set xs' \<union> set ys' = set xs \<union> set ys" by (rule rr(2))
  show "en_uso s1 xs' = en_uso self xs - {v}"
  proof (intro set_eqI iffI)
    fix x assume "x \<in> en_uso s1 xs'"
    then have "x \<in> set xs" "x \<noteq> v" "hour (cell s1 x) \<noteq> 0" using vu rr(1) by (auto simp: en_uso_def)
    then show "x \<in> en_uso self xs - {v}" using uso [of x] by (simp add: en_uso_def)
  next
    fix x assume "x \<in> en_uso self xs - {v}"
    then have x: "x \<in> set xs" "x \<noteq> v" "hour (cell self x) \<noteq> 0" by (auto simp: en_uso_def)
    moreover from this have "\<not> libre (cell (limpiar_item v self) x)" using e l(4) [of x] by (simp add: desalojable_def)
    ultimately have "x \<in> set xs'" using rr(4) by blast
    then show "x \<in> en_uso s1 xs'" using x uso [of x] by (simp add: en_uso_def)
  qed
  show "mismo_item (cell self x) (cell s1 x)" if "x \<in> en_uso s1 xs'"
  proof -
    have "x \<in> set xs' - {v}" using that vu by (auto simp: en_uso_def)
    with rr(3) have "mismo_item (cell (limpiar_item v self) x) (cell s1 x)" "x \<noteq> v" by blast+
    with l(4) show ?thesis by simp
  qed
qed

lemma elegir_dividir:
  assumes b: "buddy self base xs ys" and j: "juntas self None 0 xs" and e: "desalojable self xs ys"
    and k: "slab_min_size self \<le> k" "0 < slab_min_size self" and p: "elegida self xs k p"
  shows "\<exists>self' xs' ys'. dividir_hasta self p k = Some self' \<and> buddy self' base xs' ys' \<and> p \<in> set xs' \<and>
    set xs' \<union> set ys' = set xs \<union> set ys \<and> libre (cell self' p) \<and> k \<le> chunk_size (cell self' p) \<and>
    (chunk_size (cell self' p) div 2 < k \<or> ys' = []) \<and> juntas self' (Some p) 0 xs' \<and> desalojable self' xs' ys' \<and>
    parametros self' = parametros self \<and> set xs \<subseteq> set xs' \<and> (\<forall>x \<in> set xs - {p}. mismo_item (cell self x) (cell self' x)) \<and>
    (\<forall>x \<in> set xs \<union> set ys. mismo_uso (cell self x) (cell self' x))"
proof -
  obtain us vs where x: "xs = us @ p # vs" using p by (auto simp: elegida_def)
  have c: "libre (cell self p)" "k \<le> chunk_size (cell self p)" using p by (auto simp: elegida_def candidata_def)
  from dividir_hasta_ok [OF b [unfolded x] k c(2) juntas_weaken [OF j, unfolded x]]
  obtain s1 ns ys' where d: "dividir_hasta self p k = Some s1" "buddy s1 base (us @ p # ns @ vs) ys'" "set ns \<union> set ys' = set ys"
    "k \<le> chunk_size (cell s1 p)" "chunk_size (cell s1 p) div 2 < k \<or> ys' = []" "dividida self p xs ys s1" "juntas s1 (Some p) 0 (us @ p # ns @ vs)"
    unfolding x by blast
  have uso: "mismo_uso (cell self z) (cell s1 z)" if "z \<in> set xs \<union> set ys" for z
    using d(6) that by (cases "z = p") (auto simp: dividida_def intro: mismo_uso_simps)
  have sets: "set (us @ p # ns @ vs) = set xs \<union> set ns" using x by auto
  have "libre (cell s1 p)" using uso [of p] c(1) x by (simp add: mismo_uso_def)
  moreover have "desalojable s1 (us @ p # ns @ vs) ys'"
  proof -
    have new: "libre (cell s1 x) \<and> hour (cell s1 x) = 0" if "x \<in> set ns \<union> set ys'" for x
      using that d(3) e uso [of x] by (auto simp: desalojable_def mismo_uso_def)
    have "libre (cell s1 x) \<longleftrightarrow> hour (cell s1 x) = 0" if "x \<in> set xs" for x
      using that e uso [of x] by (simp add: desalojable_def mismo_uso_def)
    with new show ?thesis unfolding desalojable_def sets by blast
  qed
  moreover have "set (us @ p # ns @ vs) \<union> set ys' = set xs \<union> set ys" using sets d(3) by auto
  moreover have "p \<in> set (us @ p # ns @ vs)" "set xs \<subseteq> set (us @ p # ns @ vs)" using sets by auto
  moreover have "parametros s1 = parametros self" "\<forall>x \<in> set xs - {p}. mismo_item (cell self x) (cell s1 x)" using d(6) by (simp_all add: dividida_def)
  ultimately show ?thesis using d(1,2,4,5,7) uso by blast
qed

lemma reservar_buddy:
  assumes b: "buddy self base xs ys" and p: "p \<in> set xs" and s': "s' = reservar self p n"
  shows "buddy s' base xs ys" "juntas s' e 0 xs = juntas self e 0 xs" "desalojable s' xs ys = desalojable self xs ys"
    "cell s' x = (if x = p then (cell self x)\<lparr>data_size := n\<rparr> else cell self x)" "parametros s' = parametros self"
proof -
  have t: "tabla self base xs ys" using b by (simp add: buddy_def)
  show c: "cell s' x = (if x = p then (cell self x)\<lparr>data_size := n\<rparr> else cell self x)" for x
    using tabla_bounds [OF t p] by (simp add: s' reservar_def cell_upd)
  have f: "chunk_size (cell s' x) = chunk_size (cell self x)" "libre (cell s' x) = libre (cell self x)" "hour (cell s' x) = hour (cell self x)" for x
    by (simp_all add: c libre_def estaReservado_def)
  have "payload (\<lambda>e. e\<lparr>data_size := n\<rparr>)" by (simp add: payload_def)
  from tabla_upd [OF t this, of p] have "tabla s' base xs ys" by (simp add: s' reservar_def Let_def tabla_size)
  moreover have "alineada s' 0 xs = alineada self 0 xs" using f by (intro alineada_cong) simp
  ultimately show "buddy s' base xs ys" using b by (simp add: buddy_def)
  show "juntas s' e 0 xs = juntas self e 0 xs" using f by (intro juntas_cong) simp
  show "desalojable s' xs ys = desalojable self xs ys" using f by (simp add: desalojable_def)
  show "parametros s' = parametros self" by (simp add: s' reservar_def parametros_def)
qed

definition servida :: "t_diccionario \<Rightarrow> nat list \<Rightarrow> nat list \<Rightarrow> nat \<Rightarrow> nat list \<Rightarrow> t_diccionario \<Rightarrow> bool" where
  \<comment> \<open>The items still stored are unchanged, and none of the evicted ones is younger than any of them.\<close>
  "servida self xs ys p xs' self' \<longleftrightarrow>
     (\<forall>x \<in> set xs \<union> set ys. hour (cell self' x) \<noteq> 0 \<longrightarrow> x \<in> set xs \<and> x \<in> set xs' \<and> x \<noteq> p \<and> mismo_item (cell self x) (cell self' x)) \<and>
     (\<forall>x \<in> set xs. \<forall>y \<in> set xs. hour (cell self x) \<noteq> 0 \<longrightarrow> hour (cell self' x) = 0 \<longrightarrow> hour (cell self' y) \<noteq> 0 \<longrightarrow>
        hour (cell self x) \<le> hour (cell self y))"

lemma una_candidata:
  assumes b: "buddy self base xs ys" and j: "juntas self None 0 xs" and e: "desalojable self xs ys"
    and pot: "potencia (table_max_size self)" and k: "k \<le> table_max_size self" and none: "en_uso self xs = {}"
  shows "\<exists>q \<in> set xs. candidata k (cell self q)"
proof -
  have al: "alineada self 0 xs" and tot: "tam self xs = table_max_size self" using b by (simp_all add: buddy_def tabla_def tam_def cell_def)
  have fr: "\<forall>x \<in> set xs. libre (cell self x)" using e none by (auto simp: desalojable_def en_uso_def)
  have "xs \<noteq> []" using tot pot potencia_pos [of 0] by auto
  from todo_libre [OF al this j fr] tot pot obtain x where "xs = [x]" by auto
  with tot k fr show ?thesis by (auto simp: candidata_def)
qed

lemma obtener_buddy_loop_ok:
  assumes "buddy self base xs ys" and "juntas self None 0 xs" and "desalojable self xs ys"
    and "potencia (table_max_size self)" and "k \<le> table_max_size self" and "slab_min_size self \<le> k" "0 < slab_min_size self"
  shows "\<exists>p self' xs' ys'. obtenerDireccion_buddy_loop self n k = Some (Some p, self') \<and> buddy self' base xs' ys' \<and> p \<in> set xs' \<and>
    set xs' \<union> set ys' = set xs \<union> set ys \<and> libre (cell self' p) \<and> data_size (cell self' p) = n \<and> k \<le> chunk_size (cell self' p) \<and>
    (chunk_size (cell self' p) div 2 < k \<or> ys' = []) \<and> juntas self' (Some p) 0 xs' \<and> desalojable self' xs' ys' \<and>
    parametros self' = parametros self \<and> servida self xs ys p xs' self' \<and>
    ((\<exists>q \<in> set xs. candidata k (cell self q)) \<longrightarrow> elegida self xs k p \<and> (\<forall>x \<in> set xs - {p}. mismo_item (cell self x) (cell self' x)))"
  using assms
proof (induction "card (en_uso self xs)" arbitrary: self xs ys rule: less_induct)
  case less
  note b = less.prems(1) and j = less.prems(2) and e = less.prems(3)
  have l: "lista (heap self) None (elements self) xs" using b by (simp add: buddy_def tabla_def)
  show ?case
  proof (cases "\<exists>q \<in> set xs. candidata k (cell self q)")
    case True
    then obtain p where p: "elegir_particion self k = Some (Some p)" "elegida self xs k p" using elegir_lista [OF l, of k] by auto
    from elegir_dividir [OF b j e less.prems(6,7) p(2)]
    obtain s1 xs' ys' where d: "dividir_hasta self p k = Some s1" "buddy s1 base xs' ys'" "p \<in> set xs'"
      "set xs' \<union> set ys' = set xs \<union> set ys" "libre (cell s1 p)" "k \<le> chunk_size (cell s1 p)"
      "chunk_size (cell s1 p) div 2 < k \<or> ys' = []" "juntas s1 (Some p) 0 xs'" "desalojable s1 xs' ys'"
      "parametros s1 = parametros self" "set xs \<subseteq> set xs'" "\<forall>x \<in> set xs - {p}. mismo_item (cell self x) (cell s1 x)"
      "\<forall>x \<in> set xs \<union> set ys. mismo_uso (cell self x) (cell s1 x)" by blast
    define s2 where "s2 = reservar s1 p n"
    note r = reservar_buddy [OF d(2,3) s2_def]
    have run: "obtenerDireccion_buddy_loop self n k = Some (Some p, s2)"
      using less.prems(5) p(1) d(1) by (subst obtenerDireccion_buddy_loop.simps) (simp add: s2_def)
    have keep: "\<forall>x \<in> set xs - {p}. mismo_item (cell self x) (cell s2 x)" using d(12) r(4) by simp
    have px: "p \<in> set xs" "libre (cell s2 p)" "hour (cell s2 p) = 0" using p(2) d(5,9,3) r(4) [of p] by (auto simp: elegida_def desalojable_def libre_def estaReservado_def)
    have "servida self xs ys p xs' s2"
    proof -
      have "hour (cell s2 x) = hour (cell self x)" if "x \<in> set xs" "hour (cell self x) \<noteq> 0" for x
        using keep that px mismo_libre [of "cell self x" "cell s2 x"] p(2) e by (cases "x = p") (auto simp: elegida_def candidata_def desalojable_def)
      moreover have "x \<in> set xs" if x: "x \<in> set xs \<union> set ys" "hour (cell s2 x) \<noteq> 0" for x
      proof -
        have "hour (cell s2 x) = hour (cell self x)" using d(13) x(1) r(4) [of x] by (auto simp: mismo_uso_def)
        then show ?thesis using x e by (auto simp: desalojable_def)
      qed
      ultimately show ?thesis unfolding servida_def using keep d(11) px by (metis Diff_iff singletonD subsetD)
    qed
    then show ?thesis using run r d keep px p(2) True
      by (intro exI [of _ p] exI [of _ s2] exI [of _ xs'] exI [of _ ys']) simp
  next
    case False
    then have "en_uso self xs \<noteq> {}" using una_candidata [OF b j e less.prems(4,5)] by blast
    then have "\<exists>x \<in> set xs. hour (cell self x) \<noteq> 0" by (auto simp: en_uso_def)
    then obtain v where v: "v \<in> set xs" "diccionario_elegirVictima self = Some v" "hour (cell self v) \<noteq> 0"
      "\<forall>x \<in> set xs. hour (cell self x) \<noteq> 0 \<longrightarrow> hour (cell self v) \<le> hour (cell self x)" using victima_lista [OF l] by auto
    from eliminar_buddy_ok [OF b v(1) j] obtain s1 xs1 ys1 where s1: "diccionario_eliminar_buddy self v = Some (v, s1)"
      "buddy s1 base xs1 ys1" "juntas s1 None 0 xs1" "reducida (limpiar_item v self) v xs ys xs1 ys1 s1" by blast
    have vu: "v \<in> en_uso self xs" using v by (simp add: en_uso_def)
    note f = desalojar [OF b vu e s1(4,2)]
    have "card (en_uso s1 xs1) < card (en_uso self xs)" unfolding f(2) using vu by (intro card_Diff1_less) (simp_all add: en_uso_def)
    moreover have "table_max_size s1 = table_max_size self" "slab_min_size s1 = slab_min_size self" using f(4) by (simp_all add: parametros_def)
    ultimately obtain p s2 xs' ys' where r: "obtenerDireccion_buddy_loop s1 n k = Some (Some p, s2)" "buddy s2 base xs' ys'" "p \<in> set xs'"
      "set xs' \<union> set ys' = set xs1 \<union> set ys1" "libre (cell s2 p)" "data_size (cell s2 p) = n" "k \<le> chunk_size (cell s2 p)"
      "chunk_size (cell s2 p) div 2 < k \<or> ys' = []" "juntas s2 (Some p) 0 xs'" "desalojable s2 xs' ys'"
      "parametros s2 = parametros s1" "servida s1 xs1 ys1 p xs' s2"
      using less.hyps [OF _ s1(2,3) f(1)] less.prems(4-7) by auto
    have "elegir_particion self k = Some None" using elegir_lista [OF l, of k] False by auto
    then have run: "obtenerDireccion_buddy_loop self n k = Some (Some p, s2)"
      using less.prems(5) v(2) s1(1) r(1) by (subst obtenerDireccion_buddy_loop.simps) simp
    have surv: "x \<in> en_uso s1 xs1 \<and> x \<in> set xs' \<and> x \<noteq> p \<and> mismo_item (cell self x) (cell s2 x)" if x: "x \<in> set xs \<union> set ys" "hour (cell s2 x) \<noteq> 0" for x
    proof -
      have s: "x \<in> set xs1" "x \<in> set xs'" "x \<noteq> p" "mismo_item (cell s1 x) (cell s2 x)" using r(12) x f(5) by (auto simp: servida_def)
      then have "x \<in> en_uso s1 xs1" using x(2) mismo_libre by (auto simp: en_uso_def)
      with s show ?thesis using f(3) mismo_trans by blast
    qed
    have "hour (cell self x) \<le> hour (cell self y)" if x: "x \<in> set xs" "y \<in> set xs" "hour (cell self x) \<noteq> 0" "hour (cell s2 x) = 0" "hour (cell s2 y) \<noteq> 0" for x y
    proof (cases "x = v")
      case True
      have "hour (cell self y) \<noteq> 0" using surv [of y] x mismo_libre by fastforce
      then show ?thesis using True v(4) x by simp
    next
      case ne: False
      then have u: "x \<in> en_uso s1 xs1" using f(2) x by (simp add: en_uso_def)
      moreover have y: "y \<in> en_uso s1 xs1" using surv [of y] x by blast
      moreover have "hour (cell s1 x) = hour (cell self x)" "hour (cell s1 y) = hour (cell self y)" using mismo_libre [OF f(3)] u y by blast+
      ultimately show ?thesis using r(12) x(3-5) unfolding servida_def en_uso_def mem_Collect_eq by metis
    qed
    then have "servida self xs ys p xs' s2" using surv f(2) unfolding servida_def en_uso_def by blast
    then show ?thesis using run r(2-11) f(4,5) False
      by (intro exI [of _ p] exI [of _ s2] exI [of _ xs'] exI [of _ ys']) simp
  qed
qed

section \<open>A new table\<close>

lemma fold_upd_rest:
  "elements (fold (\<lambda>i. upd (g i) (f i)) is self) = elements self" "nodes (fold (\<lambda>i. upd (g i) (f i)) is self) = nodes self"
  "slab_min_size (fold (\<lambda>i. upd (g i) (f i)) is self) = slab_min_size self" "bestfit (fold (\<lambda>i. upd (g i) (f i)) is self) = bestfit self"
  by (induction "is" arbitrary: self) simp_all

lemma fold_upd_cells:
  assumes "m < length (heap self)"
  shows "cell (fold (\<lambda>i. upd (1 + i) (g i)) [0..<m] self) x = (if 0 < x \<and> x \<le> m then g (x - 1) (cell self x) else cell self x)"
  using assms
proof (induction m)
  case (Suc m)
  have "length (heap (fold (\<lambda>i. upd (1 + i) (g i)) [0..<m] self)) = length (heap self)" by (rule fold_upd_fields(3))
  with Suc show ?case by (auto simp: cell_upd le_Suc_eq)
qed auto

lemma pila_upt:
  assumes "\<forall>y \<in> {a..<b}. y < length h \<and> next_p (h ! y) = (if Suc y = b then None else Some (Suc y))" and "a < b"
  shows "pila h (Some a) [a..<b]"
  using assms
proof (induction "b - a" arbitrary: a)
  case (Suc d)
  show ?case
  proof (cases "Suc a = b")
    case False
    then have "pila h (Some (Suc a)) [Suc a..<b]" using Suc by (intro Suc.hyps(1)) auto
    then show ?thesis using Suc.prems False by (simp add: upt_conv_Cons)
  qed (use Suc.prems in auto)
qed simp

text \<open>
  The last spare cell lies after the array of nodes; where there is one, it is assumed to read as
  a blank one.
\<close>

definition celda_libre :: "t_dict_element \<Rightarrow> bool" where
  "celda_libre e \<longleftrightarrow> libre e \<and> hour e = 0 \<and> nkey e = 0 \<and> chunk_size e = 0"

lemma crear_buddy_ok:
  assumes slab: "0 < slab" "slab \<le> size_asked" and pot: "potencia size_asked" and out: "celda_libre fuera"
  shows "\<exists>d. diccionario_crear_buddy uninit (Some fuera) contents memory size_asked slab = Some d \<and>
    buddy d memory [0] [1..<1 + nat (size_asked div slab)] \<and> desalojable d [0] [1..<1 + nat (size_asked div slab)] \<and>
    parametros d = (size_asked, slab, bestfit uninit) \<and> libre (cell d 0) \<and> (\<forall>y \<in> {1..<1 + nat (size_asked div slab)}. nkey (cell d y) = 0)"
proof -
  let ?n = "nat (size_asked div slab)"
  have n: "0 < ?n" using slab by (simp add: pos_imp_zdiv_pos_iff)
  define s0 where "s0 = uninit\<lparr>heap := celda_cero # replicate (?n - 1) celda_cero @ [fuera],
                  nodes := Some 1, elements := Some 0, table_max_size := size_asked, table_current_size := 0,
                  slab_min_size := slab, mem_size := int (power_two_low (nat size_asked)), mem_bytes := contents\<rparr>"
  define s1 where "s1 = fold (\<lambda>i. upd (1 + i) (nodo_inicial i)) [0..<?n - 1] s0"
  define s2 where "s2 = upd (1 + (?n - 1)) (\<lambda>e. e\<lparr>next_p := None\<rparr>) s1"
  define f :: "t_dict_element \<Rightarrow> t_dict_element" where "f = (\<lambda>e. e\<lparr>prev_p := None, chunk_size := table_max_size s2, data := Some memory, nkey := 0,
           data_size := 0, flags := 0, hour := 0, key := replicate KEY_SIZE_MAX 0, next_p := None, ocupado := False\<rparr>)"
  define d where "d = upd 0 f s2"
  have run: "diccionario_crear_buddy uninit (Some fuera) contents memory size_asked slab = Some d"
    using slab n by (simp add: diccionario_crear_buddy_def inicializarElementos_def Let_def s0_def s1_def s2_def f_def d_def zle_diff1_eq)
  have l0: "length (heap s0) = Suc ?n" using n by (simp add: s0_def)
  have l1: "length (heap s1) = Suc ?n" using l0 by (simp add: s1_def fold_upd_fields)
  have fields: "elements d = Some 0" "nodes d = Some 1" "table_max_size d = size_asked" "slab_min_size d = slab" "bestfit d = bestfit uninit" "table_max_size s2 = size_asked"
    by (simp_all add: d_def s2_def s1_def fold_upd_fields fold_upd_rest, simp_all add: s0_def)
  have c0: "cell d 0 = f (cell s2 0)" and len: "length (heap d) = Suc ?n" using l1 by (simp_all add: d_def s2_def cell_upd)
  have cy: "cell d y = (if y = ?n then fuera\<lparr>next_p := None\<rparr> else nodo_inicial (y - 1) celda_cero)" if "0 < y" "y \<le> ?n" for y
  proof -
    have "cell s1 y = (if y = ?n then fuera else nodo_inicial (y - 1) celda_cero)"
      using that n l0 fold_upd_cells [of "?n - 1" s0 nodo_inicial y] by (auto simp: s1_def s0_def cell_def nth_append nth_Cons')
    moreover have "cell d y = cell s2 y" using that l1 by (simp add: d_def s2_def cell_upd)
    ultimately show ?thesis using that n l1 by (auto simp: s2_def cell_upd)
  qed
  have blank: "libre (cell d y) \<and> hour (cell d y) = 0 \<and> nkey (cell d y) = 0 \<and> chunk_size (cell d y) = 0" if "y \<in> {1..<1 + ?n}" for y
    using that cy [of y] out by (auto simp: celda_libre_def nodo_inicial_def libre_def estaReservado_def)
  have "pila (heap d) (Some 1) [1..<1 + ?n]"
  proof (rule pila_upt)
    show "\<forall>y \<in> {1..<1 + ?n}. y < length (heap d) \<and> next_p (heap d ! y) = (if Suc y = 1 + ?n then None else Some (Suc y))"
      using cy len by (auto simp: cell_def nodo_inicial_def)
  qed (use n in simp)
  moreover have "0 < size_asked" using slab by simp
  ultimately have "buddy d memory [0] [1..<1 + ?n]"
    using fields c0 len blank pot by (auto simp: buddy_def tabla_def cell_def f_def)
  moreover have "desalojable d [0] [1..<1 + ?n]" using blank c0 by (auto simp: desalojable_def f_def libre_def estaReservado_def)
  moreover have "libre (cell d 0)" using c0 by (simp add: f_def libre_def estaReservado_def)
  ultimately show ?thesis using run fields blank by (auto simp: parametros_def)
qed

section \<open>Properties\<close>

lemma cubre_data: "cubre h base (us @ p # vs) \<Longrightarrow> data (h ! p) = Some (base + nat (\<Sum>x \<leftarrow> us. chunk_size (h ! x))) \<and> 0 \<le> (\<Sum>x \<leftarrow> us. chunk_size (h ! x))"
proof (induction us arbitrary: base)
  case (Cons u us)
  then have "0 < chunk_size (h ! u)" "0 \<le> (\<Sum>x \<leftarrow> us. chunk_size (h ! x))"
    "data (h ! p) = Some (base + nat (chunk_size (h ! u)) + nat (\<Sum>x \<leftarrow> us. chunk_size (h ! x)))" by auto
  then show ?case by (simp add: nat_add_distrib)
qed simp

lemma buddy_offset:
  assumes "buddy self base (us @ p # vs) ys" and "data (cell self p) = Some a"
  shows "int a - int base = tam self us"
  using assms cubre_data [of "heap self" base us p vs] by (auto simp: buddy_def tabla_def tam_def cell_def)

text \<open>
  C21: the code has no record of where a partition starts and counts the partitions before it,
  whole ones of its size and smaller ones that add up to it. In a buddy table the count is the
  distance from the start of the memory in multiples of the size, so the answer is that of the
  reference definition on addresses: a partition is the first of two siblings if that multiple is
  even.
\<close>

theorem sibling_by_counting:
  assumes "buddy self base xs ys" and "p \<in> set xs" and "data (cell self p) = Some a"
  shows "contar_hermanos self (elements self) p 0 0 = Some ((int a - int base) div chunk_size (cell self p)) \<and>
    esElPrimerHermano self p = Some (even ((int a - int base) div chunk_size (cell self p)))"
proof -
  obtain us vs where x: "xs = us @ p # vs" using assms(2) by (auto simp: in_set_conv_decomp)
  note b = assms(1) [unfolded x]
  have "pila (heap self) (elements self) (us @ p # vs)" "distinct (us @ p # vs)" "alineada self 0 us" "potencia (chunk_size (cell self p))"
    using b by (auto simp: buddy_def tabla_def lista_pila_atras alineada_append)
  from contar_lista [OF this(1-3) refl this(4)] show ?thesis
    using primer_hermano [OF b] buddy_offset [OF b assms(3)] by simp
qed

text \<open>A buddy table of 256 bytes halved once: partitions of 128 bytes at 0 and 128.\<close>

definition cache_buddy :: t_diccionario where
  "cache_buddy = the (diccionario_crear_buddy cache_vacia (Some celda_cero) (\<lambda>_. 0) 0 256 32)"

definition cache_partida :: t_diccionario where
  "cache_partida = the (agregarHijosDePadre cache_buddy 0)"

lemma potencia_256: "potencia 256" "potencia 128"
proof -
  have "(256 :: int) = 2 ^ 8" "(128 :: int) = 2 ^ 7" by simp_all
  then show "potencia 256" "potencia 128" unfolding potencia_def by blast+
qed

lemma cache_buddy_ok:
  "buddy cache_buddy 0 [0] [1, 2, 3, 4, 5, 6, 7, 8]" "desalojable cache_buddy [0] [1, 2, 3, 4, 5, 6, 7, 8]"
  "parametros cache_buddy = (256, 32, False)"
proof -
  have c: "celda_libre celda_cero" by (simp add: celda_libre_def celda_cero_def libre_def estaReservado_def)
  have u: "bestfit cache_vacia = False" by code_simp
  have n: "[1..<1 + nat (256 div 32)] = [1, 2, 3, 4, 5, 6, 7, 8]" by code_simp
  from crear_buddy_ok [OF _ _ potencia_256(1) c, of 32 cache_vacia "\<lambda>_. 0" 0]
  obtain d where d: "diccionario_crear_buddy cache_vacia (Some celda_cero) (\<lambda>_. 0) 0 256 32 = Some d"
    "buddy d 0 [0] [1..<1 + nat (256 div 32)]" "desalojable d [0] [1..<1 + nat (256 div 32)]" "parametros d = (256, 32, False)"
    by (auto simp: u)
  have "cache_buddy = d" using d(1) by (simp add: cache_buddy_def)
  with d(2-4) show "buddy cache_buddy 0 [0] [1, 2, 3, 4, 5, 6, 7, 8]" "desalojable cache_buddy [0] [1, 2, 3, 4, 5, 6, 7, 8]"
    "parametros cache_buddy = (256, 32, False)" unfolding n by simp_all
qed

lemma cache_partida_ok:
  "buddy cache_partida 0 [0, 1] [2, 3, 4, 5, 6, 7, 8]" "chunk_size (cell cache_partida 1) = 128" "data (cell cache_partida 1) = Some 128"
proof -
  have t: "tabla cache_partida 0 [0, 1] [2, 3, 4, 5, 6, 7, 8]" by code_simp
  have c: "chunk_size (cell cache_partida 0) = 128" "chunk_size (cell cache_partida 1) = 128" by code_simp+
  show "data (cell cache_partida 1) = Some 128" by code_simp
  show "chunk_size (cell cache_partida 1) = 128" by (rule c(2))
  show "buddy cache_partida 0 [0, 1] [2, 3, 4, 5, 6, 7, 8]" using t c potencia_256(2) by (simp add: buddy_def)
qed

lemma sibling_by_counting_witness: "esElPrimerHermano cache_partida 1 = Some False"
  using sibling_by_counting [OF cache_partida_ok(1) _ cache_partida_ok(3)] cache_partida_ok(2) by simp

text \<open>
  C15: allocating under the buddy system always ends. In a buddy table in which every partition in
  use holds a stored item, a request that fits into the memory gets a free partition at least as
  large as asked, halved until half of it would be too small or no spare cell is left. The table
  is a buddy table again and no two free siblings remain apart from the partition returned. If a
  free partition was large enough the policy chooses it and nothing is evicted; else items are
  evicted, none younger than any that stays, and those that stay are unchanged. A larger request is
  refused and changes nothing.
\<close>

theorem buddy_allocation_succeeds:
  fixes n :: u32
  assumes "buddy self base xs ys" and "juntas self None 0 xs" and "desalojable self xs ys"
    and "potencia (table_max_size self)" and "0 < slab_min_size self" and "q = max_int (sint n) (slab_min_size self)"
  shows "if q \<le> table_max_size self then
      \<exists>p self' xs' ys'. diccionario_obtenerDireccion_buddy self n = Some (Some p, self') \<and> buddy self' base xs' ys' \<and>
        p \<in> set xs' \<and> libre (cell self' p) \<and> data_size (cell self' p) = n \<and> q \<le> chunk_size (cell self' p) \<and>
        (chunk_size (cell self' p) div 2 < q \<or> ys' = []) \<and> juntas self' (Some p) 0 xs' \<and> servida self xs ys p xs' self' \<and>
        ((\<exists>x \<in> set xs. candidata q (cell self x)) \<longrightarrow> elegida self xs q p \<and> (\<forall>x \<in> set xs - {p}. mismo_item (cell self x) (cell self' x)))
    else diccionario_obtenerDireccion_buddy self n = Some (None, self)"
proof (cases "q \<le> table_max_size self")
  case True
  have "slab_min_size self \<le> q" using assms(6) by (simp add: max_int_def)
  from obtener_buddy_loop_ok [OF assms(1-4) True this assms(5), of n] True show ?thesis
    unfolding diccionario_obtenerDireccion_buddy_def assms(6) [symmetric] if_P [OF True] by blast
next
  case False
  then show ?thesis unfolding diccionario_obtenerDireccion_buddy_def assms(6) [symmetric]
    by (subst obtenerDireccion_buddy_loop.simps) simp
qed

lemma buddy_allocation_succeeds_witness:
  "\<exists>p self' xs' ys'. diccionario_obtenerDireccion_buddy cache_buddy 100 = Some (Some p, self') \<and> buddy self' 0 xs' ys' \<and>
    100 \<le> chunk_size (cell self' p)"
proof -
  have p: "table_max_size cache_buddy = 256" "slab_min_size cache_buddy = 32" using cache_buddy_ok(3) by (simp_all add: parametros_def)
  have m: "100 = max_int (sint (100 :: u32)) 32" by code_simp
  have j: "juntas cache_buddy None 0 [0]" and q: "potencia (table_max_size cache_buddy)" "0 < slab_min_size cache_buddy"
    "100 = max_int (sint (100 :: u32)) (slab_min_size cache_buddy)" "100 \<le> table_max_size cache_buddy"
    unfolding p using m potencia_256 by simp_all
  from buddy_allocation_succeeds [OF cache_buddy_ok(1) j cache_buddy_ok(2) q(1-3)] show ?thesis
    unfolding if_P [OF q(4)] by blast
qed

end
