(* ===== verification/Rc_Sesion.thy ===== *)
theory Rc_Sesion
  imports Rc_Hermanos
begin

text \<open>
  Sessions of the storage engine under the buddy system. \<open>ordenada\<close> is what holds of the table
  between two requests when each value is stored right after it was allocated: it is a buddy
  table, no two free siblings are left, the partitions in use are those with a stored item, and no
  two items have the same key. Every request of a session keeps it, and so every request is
  answered.
\<close>

section \<open>The table between two requests\<close>

definition claves :: "t_diccionario \<Rightarrow> nat list \<Rightarrow> bool" where
  "claves c xs \<longleftrightarrow> (\<forall>x \<in> set xs. \<forall>y \<in> set xs. nkey (cell c x) \<noteq> 0 \<longrightarrow> key_matches (key (cell c x)) (nkey (cell c x)) (cell c y) \<longrightarrow> x = y)"

definition guardadas :: "t_diccionario \<Rightarrow> nat list \<Rightarrow> bool" where
  "guardadas c xs \<longleftrightarrow> (\<forall>x \<in> set xs. ocupado (cell c x) \<longleftrightarrow> nkey (cell c x) \<noteq> 0)"

definition ordenada :: "t_diccionario \<Rightarrow> nat \<Rightarrow> nat list \<Rightarrow> nat list \<Rightarrow> bool" where
  "ordenada c base xs ys \<longleftrightarrow> buddy c base xs ys \<and> juntas c None 0 xs \<and> desalojable c xs ys \<and>
     potencia (table_max_size c) \<and> 0 < slab_min_size c \<and> guardadas c xs \<and> claves c xs"

definition conserva :: "t_diccionario \<Rightarrow> nat list \<Rightarrow> t_diccionario \<Rightarrow> nat list \<Rightarrow> bool" where
  \<comment> \<open>What is in use in the second table is in use in the first, with the same item.\<close>
  "conserva c xs c' xs' \<longleftrightarrow> (\<forall>x \<in> set xs'. \<not> libre (cell c' x) \<longrightarrow> x \<in> set xs \<and> mismo_item (cell c x) (cell c' x))"

lemma libre_nkey: "libre e \<Longrightarrow> nkey e = 0 \<and> \<not> ocupado e"
  by (auto simp: libre_def estaReservado_def)

lemma matches_used: "key_matches k n e \<Longrightarrow> \<not> libre e \<and> nkey e = n \<and> n \<noteq> 0"
  by (auto simp: key_matches_def dest: libre_nkey)

lemma conserva_claves:
  assumes v: "conserva c xs c' xs'" and "guardadas c xs" and k: "claves c xs"
  shows "guardadas c' xs'" "claves c' xs'"
proof -
  have m: "x \<in> set xs \<and> nkey (cell c' x) = nkey (cell c x) \<and> key (cell c' x) = key (cell c x) \<and> ocupado (cell c' x) = ocupado (cell c x)"
    if "x \<in> set xs'" "\<not> libre (cell c' x)" for x
    using v that by (auto simp: conserva_def mismo_item_fields misma_carga_fields)
  show "guardadas c' xs'" unfolding guardadas_def
  proof
    fix x assume x: "x \<in> set xs'"
    then show "ocupado (cell c' x) = (nkey (cell c' x) \<noteq> 0)"
      using m [OF x] assms(2) libre_nkey [of "cell c' x"] by (cases "libre (cell c' x)") (auto simp: guardadas_def)
  qed
  show "claves c' xs'" unfolding claves_def
  proof (intro ballI impI)
    fix x y assume xy: "x \<in> set xs'" "y \<in> set xs'" "nkey (cell c' x) \<noteq> 0" "key_matches (key (cell c' x)) (nkey (cell c' x)) (cell c' y)"
    then have "\<not> libre (cell c' x)" "\<not> libre (cell c' y)" using libre_nkey matches_used by blast+
    with xy m [of x] m [of y] k show "x = y" by (auto simp: claves_def key_matches_def)
  qed
qed

lemma conserva_matches: "conserva c xs c' xs' \<Longrightarrow> \<forall>x \<in> set xs. \<not> key_matches k n (cell c x) \<Longrightarrow> \<forall>x \<in> set xs'. \<not> key_matches k n (cell c' x)"
  using matches_used mismo_key unfolding conserva_def by blast

lemma conserva_trans: "conserva c xs c' xs' \<Longrightarrow> conserva c' xs' c'' xs'' \<Longrightarrow> conserva c xs c'' xs''"
  unfolding conserva_def using mismo_trans mismo_libre by blast

lemma clave_unica:
  assumes "claves c xs" and "x \<in> set xs" "y \<in> set xs" and "key_matches k n (cell c x)" "key_matches k n (cell c y)"
  shows "x = y"
proof -
  have "nkey (cell c x) = n" "n \<noteq> 0" "nkey (cell c y) = n" "take (nat n) (key (cell c x)) = take (nat n) (key (cell c y))"
    using assms(4,5) by (auto simp: key_matches_def)
  then have "key_matches (key (cell c x)) (nkey (cell c x)) (cell c y)" by (simp add: key_matches_def)
  then show ?thesis using assms(1-3) \<open>nkey (cell c x) = n\<close> \<open>n \<noteq> 0\<close> by (auto simp: claves_def)
qed

lemma obtener_ordenada:
  assumes o: "ordenada c base xs ys"
  obtains (found) it where "it \<in> set xs" "key_matches k n (cell c it)" "diccionario_obtener c k n = Some (Some it)"
      "\<forall>x \<in> set xs - {it}. \<not> key_matches k n (cell c x)"
    | (missing) "diccionario_obtener c k n = Some None" "\<forall>x \<in> set xs. \<not> key_matches k n (cell c x)"
proof (cases "\<exists>x \<in> set xs. key_matches k n (cell c x)")
  case True
  then obtain it where it: "it \<in> set xs" "key_matches k n (cell c it)" by blast
  have only: "\<not> key_matches k n (cell c x)" if "x \<in> set xs" "x \<noteq> it" for x
    using that it clave_unica [of c xs x it k n] o by (auto simp: ordenada_def)
  have "diccionario_obtener c k n = Some (Some it)"
    using o it only by (intro obtener_only [of c base xs ys]) (auto simp: ordenada_def buddy_def)
  with it only found show ?thesis by blast
next
  case False
  then have "diccionario_obtener c k n = Some None" using o by (intro obtener_none [of c base xs ys]) (auto simp: ordenada_def buddy_def)
  with False missing show ?thesis by blast
qed

section \<open>Releasing\<close>

lemma eliminar_ordenada:
  assumes o: "ordenada c base xs ys" and it: "it \<in> set xs" "nkey (cell c it) \<noteq> 0"
  shows "\<exists>c' xs' ys'. diccionario_eliminar_buddy c it = Some (it, c') \<and> ordenada c' base xs' ys' \<and> conserva c xs c' xs' \<and>
    parametros c' = parametros c \<and> it \<in> set xs' \<and> libre (cell c' it) \<and> subseq xs' xs"
proof -
  have b: "buddy c base xs ys" "juntas c None 0 xs" "desalojable c xs ys" using o by (simp_all add: ordenada_def)
  obtain c' xs' ys' where e: "diccionario_eliminar_buddy c it = Some (it, c')" "buddy c' base xs' ys'" "juntas c' None 0 xs'"
    "reducida (limpiar_item it c) it xs ys xs' ys' c'" using eliminar_buddy_ok [OF b(1) it(1) b(2)] by blast
  have "\<not> libre (cell c it)" using it(2) libre_nkey by blast
  then have "it \<in> en_uso c xs" using it(1) b(3) by (auto simp: en_uso_def desalojable_def)
  note d = desalojar [OF b(1) this b(3) e(4,2)]
  have r: "it \<in> set xs'" "subseq xs' xs" "mismo_uso (cell (limpiar_item it c) it) (cell c' it)" using e(4) it(1) by (auto simp: reducida_def)
  then have l: "libre (cell c' it)" using limpiar_buddy(2) [OF b(1) it(1)] by (simp add: mismo_uso_def)
  have v: "conserva c xs c' xs'" unfolding conserva_def
  proof (intro ballI impI)
    fix x assume "x \<in> set xs'" "\<not> libre (cell c' x)"
    then have x: "x \<in> en_uso c' xs'" using d(1) by (auto simp: en_uso_def desalojable_def)
    then have "x \<in> en_uso c xs" using d(2) by blast
    with d(3) [OF x] show "x \<in> set xs \<and> mismo_item (cell c x) (cell c' x)" by (auto simp: en_uso_def)
  qed
  have "potencia (table_max_size c')" "0 < slab_min_size c'" using o d(4) by (simp_all add: ordenada_def parametros_def)
  then have "ordenada c' base xs' ys'" using e(2,3) d(1) conserva_claves [OF v] o by (simp add: ordenada_def)
  with e(1) v d(4) r l show ?thesis by blast
qed

section \<open>Storing\<close>

lemma juntas_ocupada:
  assumes "juntas s (Some p) off xs" and "\<not> libre (cell s' p)" and "\<forall>x \<in> set xs. chunk_size (cell s' x) = chunk_size (cell s x)"
    and "\<forall>x \<in> set xs - {p}. libre (cell s' x) = libre (cell s x)"
  shows "juntas s' None off xs"
  using assms
proof (induction s "Some p" off xs rule: juntas.induct)
  case (1 self off x y zs)
  then have "juntas s' None (off + chunk_size (cell self x)) (y # zs)" by (intro "1.hyps") auto
  moreover have "\<not> hermanas_libres s' off x y"
    using "1.prems" by (cases "x = p \<or> y = p") (auto simp: hermanas_libres_def)
  ultimately show ?case using "1.prems" by simp
qed simp_all

definition con_item :: "u8 list \<Rightarrow> int \<Rightarrow> int \<Rightarrow> int \<Rightarrow> t_dict_element \<Rightarrow> t_dict_element" where
  "con_item k n fl now e = (con_key k n fl e)\<lparr>ocupado := True, hour := now\<rparr>"

lemma con_item_fields: "payload (con_item k n fl now)" "\<not> libre (con_item k n fl now e)" "hour (con_item k n fl now e) = now"
  "ocupado (con_item k n fl now e)" "nkey (con_item k n fl now e) = n" "flags (con_item k n fl now e) = fl" "data_size (con_item k n fl now e) = data_size e"
  "chunk_size (con_item k n fl now e) = chunk_size e" "key (con_item k n fl now e) = key (con_key k n fl e)"
  by (simp_all add: con_item_def con_key_def payload_def libre_def)

lemma con_item_matches: "0 < n \<Longrightarrow> nat n < length k \<Longrightarrow> key_matches k n (con_item k n fl now e)"
  using con_key_matches by (simp add: con_item_def key_matches_def)

lemma guardar_ordenada:
  assumes b: "buddy s base xs ys" and j: "juntas s (Some p) 0 xs" and e: "desalojable s xs ys" and p: "p \<in> set xs" "libre (cell s p)"
    and g: "guardadas s xs" "claves s xs" and pot: "potencia (table_max_size s)" "0 < slab_min_size s"
    and n: "0 < n" "nat n < length k" "now \<noteq> 0" and new: "\<forall>x \<in> set xs. \<not> key_matches k n (cell s x)" and s': "s' = upd p (con_item k n fl now) s"
  shows "ordenada s' base xs ys"
proof -
  have t: "tabla s base xs ys" "alineada s 0 xs" "distinct (xs @ ys)" using b by (auto simp: buddy_def tabla_def)
  have c: "cell s' x = (if x = p then con_item k n fl now (cell s x) else cell s x)" for x
    using tabla_bounds [OF t(1) p(1)] by (simp add: s' cell_upd)
  have ch: "chunk_size (cell s' x) = chunk_size (cell s x)" for x by (simp add: c con_item_fields)
  have "tabla s' base xs ys" unfolding s' by (rule tabla_upd [OF t(1) con_item_fields(1)])
  moreover have "alineada s' 0 xs" using t(2) alineada_cong [of xs s' s 0] ch by simp
  ultimately have "buddy s' base xs ys" by (simp add: buddy_def)
  moreover have "juntas s' None 0 xs" by (rule juntas_ocupada [OF j]) (simp_all add: ch c con_item_fields)
  moreover have "desalojable s' xs ys" using e t(3) p(1) n(3) by (auto simp: desalojable_def c con_item_fields)
  moreover have "guardadas s' xs" using g(1) n(1) by (auto simp: guardadas_def c con_item_fields)
  moreover have "claves s' xs" unfolding claves_def
  proof (intro ballI impI)
    fix x y assume xy: "x \<in> set xs" "y \<in> set xs" "nkey (cell s' x) \<noteq> 0" "key_matches (key (cell s' x)) (nkey (cell s' x)) (cell s' y)"
    have kp: "key_matches k n (cell s' p)" using con_item_matches n(1,2) by (simp add: c)
    show "x = y"
    proof (rule ccontr)
      assume ne: "x \<noteq> y"
      show False
      proof (cases "x = p \<or> y = p")
        case True
        then have "key_matches k n (cell s' x) \<and> key_matches k n (cell s' y)"
          using kp xy(4) n(1) by (auto simp: key_matches_def)
        then show False using True ne new xy(1,2) by (auto simp: c)
      next
        case False
        then show False using g(2) xy ne by (auto simp: claves_def c)
      qed
    qed
  qed
  moreover have "table_max_size s' = table_max_size s" "slab_min_size s' = slab_min_size s" by (simp_all add: s')
  ultimately show ?thesis using pot by (simp add: ordenada_def)
qed

section \<open>The requests\<close>

definition motor_buddy :: "t_justice_engine \<Rightarrow> nat \<Rightarrow> nat list \<Rightarrow> nat list \<Rightarrow> bool" where
  "motor_buddy engine base xs ys \<longleftrightarrow> scheme engine = BuddySystem \<and> lock engine = unlocked_lock \<and> ordenada (cache engine) base xs ys"

lemma motor_buddy_upd:
  "motor_buddy engine base xs ys \<Longrightarrow> ordenada c base xs' ys' \<Longrightarrow> motor_buddy (engine\<lparr>cache := c, lock := unlocked_lock\<rparr>) base xs' ys'"
  by (simp add: motor_buddy_def)

text \<open>Before an allocation the old item with the key, if there is one, is released.\<close>

lemma sin_clave:
  assumes m: "motor_buddy engine base xs ys"
  shows "\<exists>c xs' ys'. ordenada c base xs' ys' \<and> conserva (cache engine) xs c xs' \<and> parametros c = parametros (cache engine) \<and>
    (\<forall>x \<in> set xs'. \<not> key_matches k n (cell c x)) \<and>
    justice_engine_allocate engine k n nb fl =
      diccionario_obtenerDireccion_buddy c nb \<bind> (\<lambda>(element, c'). case element of
        None \<Rightarrow> Some (ENGINE_E2BIG, None, engine\<lparr>cache := c', lock := unlocked_lock\<rparr>)
      | Some e \<Rightarrow> copiar_key k n ((cell c' e)\<lparr>nkey := n, flags := fl\<rparr>) \<bind> (\<lambda>cl.
          Some (ENGINE_SUCCESS, Some e, engine\<lparr>cache := upd e (\<lambda>_. cl) c', lock := unlocked_lock\<rparr>)))"
proof -
  let ?c = "cache engine"
  have sch: "scheme engine = BuddySystem" and o: "ordenada ?c base xs ys" using m by (simp_all add: motor_buddy_def)
  from o show ?thesis
  proof (cases rule: obtener_ordenada [where k = k and n = n])
    case (found it)
    have "nkey (cell ?c it) \<noteq> 0" using matches_used [OF found(2)] by simp
    from eliminar_ordenada [OF o found(1) this] obtain c' xs' ys' where e: "diccionario_eliminar_buddy ?c it = Some (it, c')"
      "ordenada c' base xs' ys'" "conserva ?c xs c' xs'" "parametros c' = parametros ?c" "libre (cell c' it)" by blast
    have "ocupado (cell ?c it)" using o found(1) \<open>nkey (cell ?c it) \<noteq> 0\<close> by (simp add: ordenada_def guardadas_def)
    moreover have "\<not> key_matches k n (cell c' x)" if "x \<in> set xs'" for x
    proof (cases "x = it")
      case False
      then show ?thesis using e(3) that found(4) matches_used mismo_key unfolding conserva_def by blast
    qed (use e(5) matches_used in blast)
    ultimately show ?thesis using e found(3) sch
      by (intro exI [of _ c'] exI [of _ xs'] exI [of _ ys'])
        (simp add: justice_engine_allocate_def f_eliminar_def f_obtenerDireccion_def Let_def cong: option.case_cong)
  next
    case missing
    have "conserva ?c xs ?c xs" by (simp add: conserva_def)
    with missing o sch show ?thesis
      by (intro exI [of _ ?c] exI [of _ xs] exI [of _ ys])
        (simp add: justice_engine_allocate_def f_obtenerDireccion_def Let_def cong: option.case_cong)
  qed
qed

lemma entra_ok:
  assumes m: "motor_buddy engine base xs ys" and q: "max_int (sint nb) (slab_min_size (cache engine)) \<le> table_max_size (cache engine)"
  shows "justice_engine_allocate engine k n nb fl \<noteq> Some (ENGINE_E2BIG, i, e1)"
proof -
  obtain c xs' ys' where c: "ordenada c base xs' ys'" "parametros c = parametros (cache engine)"
    and run: "justice_engine_allocate engine k n nb fl =
      diccionario_obtenerDireccion_buddy c nb \<bind> (\<lambda>(element, c'). case element of
        None \<Rightarrow> Some (ENGINE_E2BIG, None, engine\<lparr>cache := c', lock := unlocked_lock\<rparr>)
      | Some e \<Rightarrow> copiar_key k n ((cell c' e)\<lparr>nkey := n, flags := fl\<rparr>) \<bind> (\<lambda>cl.
          Some (ENGINE_SUCCESS, Some e, engine\<lparr>cache := upd e (\<lambda>_. cl) c', lock := unlocked_lock\<rparr>)))"
    using sin_clave [OF m, of k n nb fl] by blast
  have o: "buddy c base xs' ys'" "juntas c None 0 xs'" "desalojable c xs' ys'" "potencia (table_max_size c)" "0 < slab_min_size c"
    using c(1) by (simp_all add: ordenada_def)
  have q': "max_int (sint nb) (slab_min_size c) \<le> table_max_size c" "slab_min_size c \<le> max_int (sint nb) (slab_min_size c)"
    using q c(2) by (auto simp: parametros_def max_int_def)
  from obtener_buddy_loop_ok [OF o(1-4) q' o(5), of nb]
  obtain p c1 where "diccionario_obtenerDireccion_buddy c nb = Some (Some p, c1)" unfolding diccionario_obtenerDireccion_buddy_def by blast
  then show ?thesis unfolding run by (auto split: bind_splits)
qed

lemma guardar_ok:
  assumes m: "motor_buddy engine base xs ys" and n: "0 < n" "nat n < 45" "nat n < length k" "now \<noteq> 0"
    and q: "q = max_int (sint nb) (slab_min_size (cache engine))" "q \<le> table_max_size (cache engine)"
  shows "\<exists>e e1 c xs' ys'. justice_engine_allocate engine k n nb fl = Some (ENGINE_SUCCESS, Some e, e1) \<and>
    justice_engine_store e1 (Some e) now = Some (ENGINE_SUCCESS, engine\<lparr>cache := c, lock := unlocked_lock\<rparr>) \<and>
    ordenada c base xs' ys' \<and> parametros c = parametros (cache engine) \<and> e \<in> set xs' \<and> key_matches k n (cell c e) \<and>
    ocupado (cell c e) \<and> flags (cell c e) = fl \<and> data_size (cell c e) = nb \<and> q \<le> chunk_size (cell c e) \<and>
    (\<forall>x \<in> set xs' - {e}. \<not> libre (cell c x) \<longrightarrow> x \<in> set xs \<and> mismo_item (cell (cache engine) x) (cell c x))"
proof -
  obtain c0 xs0 ys0 where c0: "ordenada c0 base xs0 ys0" "conserva (cache engine) xs c0 xs0" "parametros c0 = parametros (cache engine)"
    "\<forall>x \<in> set xs0. \<not> key_matches k n (cell c0 x)"
    and run: "justice_engine_allocate engine k n nb fl =
      diccionario_obtenerDireccion_buddy c0 nb \<bind> (\<lambda>(element, c'). case element of
        None \<Rightarrow> Some (ENGINE_E2BIG, None, engine\<lparr>cache := c', lock := unlocked_lock\<rparr>)
      | Some e \<Rightarrow> copiar_key k n ((cell c' e)\<lparr>nkey := n, flags := fl\<rparr>) \<bind> (\<lambda>cl.
          Some (ENGINE_SUCCESS, Some e, engine\<lparr>cache := upd e (\<lambda>_. cl) c', lock := unlocked_lock\<rparr>)))"
    using sin_clave [OF m, of k n nb fl] by blast
  have q0: "q = max_int (sint nb) (slab_min_size c0)" "q \<le> table_max_size c0" "slab_min_size c0 \<le> q"
    using q c0(3) by (auto simp: parametros_def max_int_def)
  have o: "buddy c0 base xs0 ys0" "juntas c0 None 0 xs0" "desalojable c0 xs0 ys0" "potencia (table_max_size c0)" "0 < slab_min_size c0"
    "guardadas c0 xs0" "claves c0 xs0" using c0(1) by (simp_all add: ordenada_def)
  from obtener_buddy_loop_ok [OF o(1-4) q0(2,3) o(5)]
  obtain p c1 xs' ys' where a: "diccionario_obtenerDireccion_buddy c0 nb = Some (Some p, c1)" "buddy c1 base xs' ys'" "p \<in> set xs'"
    "set xs' \<union> set ys' = set xs0 \<union> set ys0" "libre (cell c1 p)" "data_size (cell c1 p) = nb" "q \<le> chunk_size (cell c1 p)"
    "juntas c1 (Some p) 0 xs'" "desalojable c1 xs' ys'" "parametros c1 = parametros c0" "servida c0 xs0 ys0 p xs' c1"
    unfolding diccionario_obtenerDireccion_buddy_def q0(1) [symmetric] by blast
  have v: "conserva c0 xs0 c1 xs'" unfolding conserva_def
  proof (intro ballI impI)
    fix x assume x: "x \<in> set xs'" "\<not> libre (cell c1 x)"
    then have "hour (cell c1 x) \<noteq> 0" "x \<in> set xs0 \<union> set ys0" using a(4,9) by (auto simp: desalojable_def)
    then show "x \<in> set xs0 \<and> mismo_item (cell c0 x) (cell c1 x)" using a(11) by (simp add: servida_def)
  qed
  have new: "\<forall>x \<in> set xs'. \<not> key_matches k n (cell c1 x)" by (rule conserva_matches [OF v c0(4)])
  define c2 where "c2 = upd p (con_key k n fl) c1"
  define c3 where "c3 = upd p (con_item k n fl now) c1"
  have t1: "tabla c1 base xs' ys'" and len: "p < length (heap c1)" using a(2,3) tabla_bounds by (auto simp: buddy_def)
  have cc2: "cell c2 x = (if x = p then con_key k n fl (cell c1 x) else cell c1 x)" and
    cc3: "cell c3 x = (if x = p then con_item k n fl now (cell c1 x) else cell c1 x)" for x
    using len by (simp_all add: c2_def c3_def cell_upd)
  have e32: "c3 = upd p (\<lambda>e. e\<lparr>ocupado := True, hour := now\<rparr>) c2"
    using len by (simp add: c3_def c2_def upd_def con_item_def)
  have al: "justice_engine_allocate engine k n nb fl = Some (ENGINE_SUCCESS, Some p, engine\<lparr>cache := c2, lock := unlocked_lock\<rparr>)"
    unfolding run a(1) using n(2) by (simp add: copiar_key_ok upd_const c2_def)
  have "take (nat n) (key (cell c2 p)) = take (nat n) k" "nkey (cell c2 p) = n" using n(3) by (simp_all add: cc2 con_key_def min_def)
  moreover have "diccionario_obtener c2 k n = Some (Some p)"
  proof (rule obtener_only)
    show "tabla c2 base xs' ys'" unfolding c2_def by (rule tabla_upd [OF t1 payload_changes(1)])
  qed (use a(3) new con_key_matches [OF n(1,3)] in \<open>auto simp: cc2\<close>)
  ultimately have st: "justice_engine_store (engine\<lparr>cache := c2, lock := unlocked_lock\<rparr>) (Some p) now =
      Some (ENGINE_SUCCESS, engine\<lparr>cache := c3, lock := unlocked_lock\<rparr>)"
    using key_matches_cong [of n "key (cell c2 p)" k] by (simp add: justice_engine_store_def diccionario_obtener_def e32)
  have par: "parametros c1 = parametros (cache engine)" using a(10) c0(3) by simp
  have "potencia (table_max_size c1)" "0 < slab_min_size c1" using o(4,5) a(10) by (simp_all add: parametros_def)
  from guardar_ordenada [OF a(2,8,9,3,5) conserva_claves [OF v o(6,7)] this n(1,3,4) new c3_def]
  have "ordenada c3 base xs' ys'" .
  moreover have "parametros c3 = parametros (cache engine)" using par by (simp add: c3_def parametros_def)
  moreover have "\<forall>x \<in> set xs' - {p}. \<not> libre (cell c3 x) \<longrightarrow> x \<in> set xs \<and> mismo_item (cell (cache engine) x) (cell c3 x)"
    using conserva_trans [OF c0(2) v] by (simp add: conserva_def cc3)
  moreover have "key_matches k n (cell c3 p)" using con_item_matches n(1,3) by (simp add: cc3)
  moreover have "ocupado (cell c3 p)" "flags (cell c3 p) = fl" "data_size (cell c3 p) = nb" "q \<le> chunk_size (cell c3 p)"
    using a(6,7) by (simp_all add: cc3 con_item_fields)
  ultimately show ?thesis using al st a(3) by blast
qed

lemma tocar_ordenada:
  assumes o: "ordenada c base xs ys" and it: "it \<in> set xs" "\<not> libre (cell c it)" and now: "now \<noteq> 0"
  shows "ordenada (upd it (\<lambda>e. e\<lparr>hour := now\<rparr>) c) base xs ys"
proof -
  define c' where "c' = upd it (\<lambda>e. e\<lparr>hour := now\<rparr>) c"
  have b: "tabla c base xs ys" "alineada c 0 xs" "distinct (xs @ ys)" using o by (auto simp: ordenada_def buddy_def tabla_def)
  have cl: "cell c' x = (if x = it then (cell c x)\<lparr>hour := now\<rparr> else cell c x)" for x
    using tabla_bounds [OF b(1) it(1)] by (simp add: c'_def cell_upd)
  have f: "chunk_size (cell c' x) = chunk_size (cell c x)" "libre (cell c' x) = libre (cell c x)" "nkey (cell c' x) = nkey (cell c x)"
    "ocupado (cell c' x) = ocupado (cell c x)" "key (cell c' x) = key (cell c x)" for x
    by (simp_all add: cl libre_def estaReservado_def)
  have "tabla c' base xs ys" unfolding c'_def by (rule tabla_upd [OF b(1) payload_changes(3)])
  moreover have "alineada c' 0 xs" using b(2) alineada_cong [of xs c' c 0] f by simp
  moreover have "juntas c' None 0 xs" using o juntas_cong [of xs c' c None 0] f by (simp add: ordenada_def)
  moreover have "desalojable c' xs ys"
  proof -
    have "it \<notin> set ys" using it(1) b(3) by auto
    then show ?thesis using o it now f(2) unfolding ordenada_def desalojable_def by (auto simp: cl)
  qed
  moreover have "guardadas c' xs" "claves c' xs" using o f by (simp_all add: ordenada_def guardadas_def claves_def key_matches_def)
  moreover have "table_max_size c' = table_max_size c" "slab_min_size c' = slab_min_size c" by (simp_all add: c'_def)
  ultimately show ?thesis using o unfolding c'_def [symmetric] by (simp add: ordenada_def buddy_def)
qed

lemma get_ok:
  assumes m: "motor_buddy engine base xs ys" and now: "now \<noteq> 0"
  shows "\<exists>r i e1. justice_engine_get engine k n now = Some (r, i, e1) \<and> motor_buddy e1 base xs ys \<and> parametros (cache e1) = parametros (cache engine)"
proof -
  let ?c = "cache engine"
  have o: "ordenada ?c base xs ys" using m by (simp add: motor_buddy_def)
  then show ?thesis
  proof (cases rule: obtener_ordenada [where k = k and n = n])
    case (found it)
    have u: "\<not> libre (cell ?c it)" "nkey (cell ?c it) \<noteq> 0" using matches_used [OF found(2)] by blast+
    then have "ocupado (cell ?c it)" using o found(1) by (simp add: ordenada_def guardadas_def)
    with found(3) tocar_ordenada [OF o found(1) u(1) now] m show ?thesis
      by (auto simp: justice_engine_get_def Let_def motor_buddy_def parametros_def)
  next
    case missing
    with m show ?thesis by (simp add: justice_engine_get_def motor_buddy_def)
  qed
qed

lemma delete_ok:
  assumes m: "motor_buddy engine base xs ys"
  shows "\<exists>r e1 xs' ys'. justice_engine_item_delete engine k n = Some (r, e1) \<and> motor_buddy e1 base xs' ys' \<and> parametros (cache e1) = parametros (cache engine)"
proof -
  let ?c = "cache engine"
  have o: "ordenada ?c base xs ys" and sch: "scheme engine = BuddySystem" using m by (simp_all add: motor_buddy_def)
  from o show ?thesis
  proof (cases rule: obtener_ordenada [where k = k and n = n])
    case (found it)
    have "nkey (cell ?c it) \<noteq> 0" using matches_used [OF found(2)] by simp
    from eliminar_ordenada [OF o found(1) this] obtain c' xs' ys' where "diccionario_eliminar_buddy ?c it = Some (it, c')"
      "ordenada c' base xs' ys'" "parametros c' = parametros ?c" by blast
    with found(3) m sch show ?thesis by (auto simp: justice_engine_item_delete_def f_eliminar_def motor_buddy_def)
  next
    case missing
    with m show ?thesis by (auto simp: justice_engine_item_delete_def motor_buddy_def)
  qed
qed

text \<open>
  What the answers to a request say. \<open>tiene\<close> looks at the partitions themselves, not through the
  code's own search.
\<close>

definition tiene :: "t_justice_engine \<Rightarrow> nat list \<Rightarrow> u8 list \<Rightarrow> int \<Rightarrow> bool" where
  "tiene engine xs k n \<longleftrightarrow> (\<exists>x \<in> set xs. key_matches k n (cell (cache engine) x))"

definition no_encuentra :: "t_justice_engine \<Rightarrow> u8 list \<Rightarrow> int \<Rightarrow> bool" where
  "no_encuentra engine k n \<longleftrightarrow> (\<forall>now. \<exists>e1. justice_engine_get engine k n now = Some (ENGINE_KEY_ENOENT, None, e1))"

lemma get_found:
  assumes m: "motor_buddy engine base xs ys" and t: "tiene engine xs k n"
  shows "\<exists>it e1. justice_engine_get engine k n now = Some (ENGINE_SUCCESS, Some it, e1) \<and> it \<in> set xs \<and> key_matches k n (cell (cache engine) it)"
proof -
  have o: "ordenada (cache engine) base xs ys" using m by (simp add: motor_buddy_def)
  from o show ?thesis
  proof (cases rule: obtener_ordenada [where k = k and n = n])
    case (found it)
    have "ocupado (cell (cache engine) it)" using o found(1) matches_used [OF found(2)] by (auto simp: ordenada_def guardadas_def)
    with found(1-3) show ?thesis by (simp add: justice_engine_get_def Let_def)
  next
    case missing
    with t show ?thesis by (simp add: tiene_def)
  qed
qed

lemma get_missing:
  assumes m: "motor_buddy engine base xs ys" and t: "\<not> tiene engine xs k n"
  shows "no_encuentra engine k n"
proof -
  have "ordenada (cache engine) base xs ys" using m by (simp add: motor_buddy_def)
  then show ?thesis
    by (cases rule: obtener_ordenada [where k = k and n = n])
      (use t in \<open>auto simp: tiene_def no_encuentra_def justice_engine_get_def\<close>)
qed

lemma delete_answer:
  assumes m: "motor_buddy engine base xs ys"
  shows "\<exists>e1. justice_engine_item_delete engine k n = Some (if tiene engine xs k n then ENGINE_SUCCESS else ENGINE_KEY_ENOENT, e1) \<and>
    no_encuentra e1 k n"
proof -
  let ?c = "cache engine"
  have o: "ordenada ?c base xs ys" and sch: "scheme engine = BuddySystem" using m by (simp_all add: motor_buddy_def)
  from o show ?thesis
  proof (cases rule: obtener_ordenada [where k = k and n = n])
    case (found it)
    have "nkey (cell ?c it) \<noteq> 0" using matches_used [OF found(2)] by simp
    from eliminar_ordenada [OF o found(1) this] obtain c' xs' ys' where e: "diccionario_eliminar_buddy ?c it = Some (it, c')"
      "ordenada c' base xs' ys'" "conserva ?c xs c' xs'" "libre (cell c' it)" by blast
    let ?e = "engine\<lparr>cache := c', lock := unlocked_lock\<rparr>"
    have "\<not> key_matches k n (cell c' x)" if "x \<in> set xs'" for x
      using that e(3,4) found(4) matches_used mismo_key unfolding conserva_def by (cases "x = it") blast+
    then have "\<not> tiene ?e xs' k n" by (simp add: tiene_def)
    then have "no_encuentra ?e k n" by (rule get_missing [OF motor_buddy_upd [OF m e(2)]])
    moreover have "tiene engine xs k n" using found(1,2) by (auto simp: tiene_def)
    ultimately show ?thesis using found(3) e(1) sch by (auto simp: justice_engine_item_delete_def f_eliminar_def)
  next
    case missing
    then have t: "\<not> tiene engine xs k n" by (simp add: tiene_def)
    have "engine\<lparr>lock := unlocked_lock\<rparr> = engine" using m by (simp add: motor_buddy_def)
    with t missing(1) get_missing [OF m t] show ?thesis by (simp add: justice_engine_item_delete_def)
  qed
qed

lemma demasiado_ok:
  assumes m: "motor_buddy engine base xs ys" and big: "table_max_size (cache engine) < max_int (sint nb) (slab_min_size (cache engine))"
  shows "\<exists>e1 xs' ys'. justice_engine_allocate engine k n nb fl = Some (ENGINE_E2BIG, None, e1) \<and> motor_buddy e1 base xs' ys' \<and>
    parametros (cache e1) = parametros (cache engine)"
proof -
  obtain c xs' ys' where c: "ordenada c base xs' ys'" "parametros c = parametros (cache engine)"
    and run: "justice_engine_allocate engine k n nb fl =
      diccionario_obtenerDireccion_buddy c nb \<bind> (\<lambda>(element, c'). case element of
        None \<Rightarrow> Some (ENGINE_E2BIG, None, engine\<lparr>cache := c', lock := unlocked_lock\<rparr>)
      | Some e \<Rightarrow> copiar_key k n ((cell c' e)\<lparr>nkey := n, flags := fl\<rparr>) \<bind> (\<lambda>cl.
          Some (ENGINE_SUCCESS, Some e, engine\<lparr>cache := upd e (\<lambda>_. cl) c', lock := unlocked_lock\<rparr>)))"
    using sin_clave [OF m, of k n nb fl] by blast
  have "diccionario_obtenerDireccion_buddy c nb = Some (None, c)"
    unfolding diccionario_obtenerDireccion_buddy_def using big c(2)
    by (subst obtenerDireccion_buddy_loop.simps) (simp add: parametros_def)
  then have "justice_engine_allocate engine k n nb fl = Some (ENGINE_E2BIG, None, engine\<lparr>cache := c, lock := unlocked_lock\<rparr>)"
    unfolding run by simp
  with c m show ?thesis by (auto simp: motor_buddy_def)
qed

section \<open>Flushing\<close>

lemma subseq_around:
  assumes "subseq zs (us @ p # ws)" and "p \<in> set zs" and "distinct (us @ p # ws)"
  shows "\<exists>us' ws'. zs = us' @ p # ws' \<and> subseq us' us \<and> subseq ws' ws"
proof -
  obtain a b where z: "zs = a @ b" "subseq a us" "subseq b (p # ws)" using assms(1) by (rule subseq_appendE)
  have "p \<notin> set a" using z(2) assms(3) list_emb_set [of "(=)" a us p] by auto
  then have "p \<in> set b" using z(1) assms(2) by simp
  then obtain d ds where b: "b = d # ds" by (cases b) auto
  have "d = p"
  proof (rule ccontr)
    assume "d \<noteq> p"
    then have "subseq b ws" using z(3) b by (simp add: subseq_Cons2_neq)
    with \<open>p \<in> set b\<close> assms(3) list_emb_set [of "(=)" b ws p] show False by auto
  qed
  with z b show ?thesis by auto
qed

lemma sin_claves_libre: "guardadas c xs \<Longrightarrow> x \<in> set xs \<Longrightarrow> libre (cell c x) \<longleftrightarrow> nkey (cell c x) = 0"
  by (auto simp: guardadas_def libre_def estaReservado_def)

lemma limpiar_loop_ok:
  assumes "ordenada c base (us @ vs) ys" and "\<forall>x \<in> set us. nkey (cell c x) = 0"
  shows "\<exists>c' x ys'. diccionario_limpiar_loop diccionario_eliminar_buddy c (if vs = [] then None else Some (hd vs)) = Some c' \<and>
    ordenada c' base [x] ys' \<and> libre (cell c' x) \<and> parametros c' = parametros c"
  using assms
proof (induction "length vs" arbitrary: c us vs ys rule: less_induct)
  case less
  note o = less.prems(1)
  have b: "buddy c base (us @ vs) ys" and g: "guardadas c (us @ vs)" using o by (simp_all add: ordenada_def)
  have l: "lista (heap c) None (elements c) (us @ vs)" "distinct (us @ vs)" using b by (auto simp: buddy_def tabla_def)
  show ?case
  proof (cases vs)
    case Nil
    have al: "alineada c 0 us" "juntas c None 0 us" "potencia (tam c us)"
      using o Nil by (auto simp: ordenada_def buddy_def tabla_def tam_def cell_def)
    moreover have "us \<noteq> []" using al(3) potencia_pos [of 0] by auto
    moreover have fr: "\<forall>x \<in> set us. libre (cell c x)" using sin_claves_libre [OF g] less.prems(2) by auto
    ultimately obtain x where "us = [x]" using todo_libre by blast
    with o Nil fr show ?thesis by (auto simp: diccionario_limpiar_loop.simps)
  next
    case (Cons p ws)
    show ?thesis
    proof (cases "nkey (cell c p) = 0")
      case True
      have "next_p (cell c p) = (if ws = [] then None else Some (hd ws))" using lista_next [OF l(1) [unfolded Cons]] by (simp add: cell_def)
      moreover have "\<exists>c' x ys'. diccionario_limpiar_loop diccionario_eliminar_buddy c (if ws = [] then None else Some (hd ws)) = Some c' \<and>
          ordenada c' base [x] ys' \<and> libre (cell c' x) \<and> parametros c' = parametros c"
        by (rule less.hyps [of ws c "us @ [p]" ys]) (use less.prems Cons True in auto)
      ultimately show ?thesis using Cons True by (subst diccionario_limpiar_loop.simps) simp
    next
      case False
      obtain c1 xs1 ys1 where e: "diccionario_eliminar_buddy c p = Some (p, c1)" "ordenada c1 base xs1 ys1" "conserva c (us @ vs) c1 xs1"
        "parametros c1 = parametros c" "p \<in> set xs1" "subseq xs1 (us @ vs)" "libre (cell c1 p)"
        using eliminar_ordenada [OF o _ False] Cons by auto
      obtain us1 ws1 where x1: "xs1 = us1 @ p # ws1" "subseq us1 us" "subseq ws1 ws"
        using subseq_around [OF _ e(5), of us ws] e(6) l(2) Cons by auto
      have l1: "lista (heap c1) None (elements c1) (us1 @ p # ws1)" and lib: "libre (cell c1 p)" and g1: "guardadas c1 xs1"
        using e(2,5,7) x1(1) by (auto simp: ordenada_def buddy_def tabla_def)
      have "next_p (cell c1 p) = (if ws1 = [] then None else Some (hd ws1))" using lista_next [OF l1] by (simp add: cell_def)
      moreover have "nkey (cell c1 x) = 0" if x: "x \<in> set (us1 @ [p])" for x
      proof (rule ccontr)
        assume n: "nkey (cell c1 x) \<noteq> 0"
        then have "\<not> libre (cell c1 x)" "x \<in> set xs1" using libre_nkey x x1(1) by auto
        then have "mismo_item (cell c x) (cell c1 x)" "x \<noteq> p" using e(3) lib by (auto simp: conserva_def)
        moreover from this have "x \<in> set us" using x x1(2) list_emb_set [of "(=)" us1 us x] by auto
        ultimately show False using n less.prems(2) mismo_libre by metis
      qed
      moreover have "length ws1 < length vs" using list_emb_length [OF x1(3)] Cons by simp
      ultimately have "\<exists>c' x ys'. diccionario_limpiar_loop diccionario_eliminar_buddy c1 (next_p (cell c1 p)) = Some c' \<and>
          ordenada c' base [x] ys' \<and> libre (cell c' x) \<and> parametros c' = parametros c1"
        using less.hyps [of ws1 c1 "us1 @ [p]" ys1] e(2) x1(1) by simp
      then show ?thesis using Cons False e(1,4) by (subst diccionario_limpiar_loop.simps) simp
    qed
  qed
qed

lemma flush_ok:
  assumes m: "motor_buddy engine base xs ys"
  shows "\<exists>e1 x ys'. justice_engine_flush engine = Some (ENGINE_SUCCESS, e1) \<and> motor_buddy e1 base [x] ys' \<and>
    libre (cell (cache e1) x) \<and> parametros (cache e1) = parametros (cache engine)"
proof -
  let ?c = "cache engine"
  have o: "ordenada ?c base ([] @ xs) ys" and sch: "scheme engine = BuddySystem" using m by (simp_all add: motor_buddy_def)
  have "elements ?c = (if xs = [] then None else Some (hd xs))" using o by (cases xs) (auto simp: ordenada_def buddy_def tabla_def)
  with limpiar_loop_ok [OF o] obtain c' x ys' where "diccionario_limpiar diccionario_eliminar_buddy ?c = Some c'" "ordenada c' base [x] ys'"
    "libre (cell c' x)" "parametros c' = parametros ?c" by (auto simp: diccionario_limpiar_def)
  with m sch show ?thesis by (auto simp: justice_engine_flush_def f_eliminar_def motor_buddy_def)
qed

lemma flush_answer:
  assumes m: "motor_buddy engine base xs ys"
  shows "\<exists>e1. justice_engine_flush engine = Some (ENGINE_SUCCESS, e1) \<and> (\<forall>k n. no_encuentra e1 k n)"
proof -
  obtain e1 x ys' where f: "justice_engine_flush engine = Some (ENGINE_SUCCESS, e1)" "motor_buddy e1 base [x] ys'" "libre (cell (cache e1) x)"
    using flush_ok [OF m] by blast
  have "\<not> tiene e1 [x] k n" for k n using f(3) matches_used by (auto simp: tiene_def)
  with get_missing [OF f(2)] f(1) show ?thesis by blast
qed

section \<open>Sessions\<close>

text \<open>
  The states of the engine that requests one after the other lead to. memcached sets a value by
  allocating an item, filling it and storing it; the clock is not at \<open>0\<close>.
\<close>

inductive sesion :: "t_justice_engine \<Rightarrow> t_justice_engine \<Rightarrow> bool" for e0 where
  start: "sesion e0 e0"
| set_value: "sesion e0 e \<Longrightarrow> 0 < n \<Longrightarrow> nat n < 45 \<Longrightarrow> nat n < length k \<Longrightarrow> now \<noteq> 0 \<Longrightarrow>
    justice_engine_allocate e k n nb fl = Some (ENGINE_SUCCESS, Some it, e1) \<Longrightarrow>
    justice_engine_store e1 (Some it) now = Some (r, e2) \<Longrightarrow> sesion e0 e2"
| too_big: "sesion e0 e \<Longrightarrow> justice_engine_allocate e k n nb fl = Some (ENGINE_E2BIG, i, e1) \<Longrightarrow> sesion e0 e1"
| get_value: "sesion e0 e \<Longrightarrow> now \<noteq> 0 \<Longrightarrow> justice_engine_get e k n now = Some (r, i, e1) \<Longrightarrow> sesion e0 e1"
| delete_value: "sesion e0 e \<Longrightarrow> justice_engine_item_delete e k n = Some (r, e1) \<Longrightarrow> sesion e0 e1"
| flush_all: "sesion e0 e \<Longrightarrow> justice_engine_flush e = Some (r, e1) \<Longrightarrow> sesion e0 e1"

lemma ordenada_opciones:
  "ordenada (c\<lparr>frecuenciaCompactacion := a, lru := b, bestfit := d\<rparr>) base xs ys = ordenada c base xs ys"
proof -
  let ?c = "c\<lparr>frecuenciaCompactacion := a, lru := b, bestfit := d\<rparr>"
  have c: "cell ?c x = cell c x" for x by (simp add: cell_def)
  have "alineada ?c 0 xs = alineada c 0 xs" "juntas ?c None 0 xs = juntas c None 0 xs"
    by (rule alineada_cong, simp add: c) (rule juntas_cong, simp add: c)
  moreover have "tabla ?c base xs ys = tabla c base xs ys" by (simp add: tabla_def)
  ultimately show ?thesis by (simp add: ordenada_def buddy_def desalojable_def guardadas_def claves_def c)
qed

lemma inicio_ok:
  assumes run: "justice_engine_inicializar file tm slab uninit (Some fuera) contents memory = Some (r, e0)" and sch: "scheme e0 = BuddySystem"
    and slab: "0 < slab" "slab \<le> tm" "potencia tm" "celda_libre fuera"
  shows "motor_buddy e0 memory [0] [1..<1 + nat (tm div slab)]" "table_max_size (cache e0) = tm" "slab_min_size (cache e0) = slab"
proof -
  obtain d where d: "diccionario_crear_buddy uninit (Some fuera) contents memory tm slab = Some d"
    "buddy d memory [0] [1..<1 + nat (tm div slab)]" "desalojable d [0] [1..<1 + nat (tm div slab)]"
    "parametros d = (tm, slab, bestfit uninit)" "libre (cell d 0)" using crear_buddy_ok [OF slab] by blast
  then have "\<not> ocupado (cell d 0)" "nkey (cell d 0) = 0" using libre_nkey by blast+
  then have o: "ordenada d memory [0] [1..<1 + nat (tm div slab)]"
    using d slab by (simp add: ordenada_def parametros_def guardadas_def claves_def)
  obtain conf where cf: "configfile_init ''engine_config.ini'' file = Some conf"
    using run by (auto simp: justice_engine_inicializar_def split: bind_splits)
  then have e: "e0 = \<lparr>scheme = BuddySystem, cache = d\<lparr>frecuenciaCompactacion := compaction_freq conf, lru := (conf_lru conf \<noteq> 0),
       bestfit := (conf_bestfit conf \<noteq> 0)\<rparr>, lock = unlocked_lock\<rparr>"
    using run sch d(1) by (auto simp: justice_engine_inicializar_def f_crearDiccionario_def Let_def split: bind_splits if_splits)
  show "motor_buddy e0 memory [0] [1..<1 + nat (tm div slab)]" using o ordenada_opciones by (simp add: e motor_buddy_def)
  show "table_max_size (cache e0) = tm" "slab_min_size (cache e0) = slab" using d(4) by (simp_all add: e parametros_def)
qed

lemma sesion_ok:
  assumes "sesion e0 e" and "motor_buddy e0 base xs0 ys0"
  shows "\<exists>xs ys. motor_buddy e base xs ys \<and> table_max_size (cache e) = table_max_size (cache e0) \<and> slab_min_size (cache e) = slab_min_size (cache e0)"
  using assms
proof (induction rule: sesion.induct)
  case (set_value e n k now nb fl it e1 r e2)
  then obtain xs ys where m: "motor_buddy e base xs ys" "table_max_size (cache e) = table_max_size (cache e0)"
    "slab_min_size (cache e) = slab_min_size (cache e0)" by blast
  have q: "max_int (sint nb) (slab_min_size (cache e)) \<le> table_max_size (cache e)"
    using demasiado_ok [OF m(1), of nb k n fl] set_value.hyps(6) by (intro leI notI) auto
  from guardar_ok [OF m(1) set_value.hyps(2-5) refl q, of fl] set_value.hyps(6,7)
  obtain c xs' ys' where c: "e2 = e\<lparr>cache := c, lock := unlocked_lock\<rparr>" "ordenada c base xs' ys'" "parametros c = parametros (cache e)" by auto
  have "motor_buddy e2 base xs' ys'" unfolding c(1) by (rule motor_buddy_upd [OF m(1) c(2)])
  with c(1,3) m(2,3) show ?case by (auto simp: parametros_def)
next
  case (too_big e k n nb fl i e1)
  then obtain xs ys where m: "motor_buddy e base xs ys" "table_max_size (cache e) = table_max_size (cache e0)"
    "slab_min_size (cache e) = slab_min_size (cache e0)" by blast
  show ?case
  proof (cases "table_max_size (cache e) < max_int (sint nb) (slab_min_size (cache e))")
    case True
    from demasiado_ok [OF m(1) True, of k n fl] too_big.hyps(2) m show ?thesis by (auto simp: parametros_def)
  next
    case False
    then show ?thesis using entra_ok [OF m(1), of nb k n fl i e1] too_big.hyps(2) by simp
  qed
next
  case (get_value e now k n r i e1)
  then show ?case using get_ok [of e base _ _ now k n] by (fastforce simp: parametros_def)
next
  case (delete_value e k n r e1)
  then show ?case using delete_ok [of e base _ _ k n] by (fastforce simp: parametros_def)
next
  case (flush_all e r e1)
  then show ?case using flush_ok [of e base] by (fastforce simp: parametros_def)
qed blast

section \<open>Properties\<close>

lemma guardar_y_leer:
  assumes m: "motor_buddy engine base xs ys" and n: "0 < n" "nat n < 45" "nat n < length k" "now \<noteq> 0"
    and q: "max_int (sint nb) (slab_min_size (cache engine)) \<le> table_max_size (cache engine)"
  shows "\<exists>it e1 e2 e3. justice_engine_allocate engine k n nb fl = Some (ENGINE_SUCCESS, Some it, e1) \<and>
    justice_engine_store e1 (Some it) now = Some (ENGINE_SUCCESS, e2) \<and> justice_engine_get e2 k n now = Some (ENGINE_SUCCESS, Some it, e3) \<and>
    data_size (cell (cache e3) it) = nb \<and> flags (cell (cache e3) it) = fl \<and> sint nb \<le> chunk_size (cell (cache e3) it)"
proof -
  let ?q = "max_int (sint nb) (slab_min_size (cache engine))"
  obtain it e1 c xs' ys' where g: "justice_engine_allocate engine k n nb fl = Some (ENGINE_SUCCESS, Some it, e1)"
    "justice_engine_store e1 (Some it) now = Some (ENGINE_SUCCESS, engine\<lparr>cache := c, lock := unlocked_lock\<rparr>)" "ordenada c base xs' ys'"
    "it \<in> set xs'" "key_matches k n (cell c it)" "ocupado (cell c it)" "flags (cell c it) = fl" "data_size (cell c it) = nb"
    "?q \<le> chunk_size (cell c it)"
    using guardar_ok [OF m n refl q, of fl] by blast
  have "sint nb \<le> ?q" by (simp add: max_int_def)
  then have ch: "sint nb \<le> chunk_size (cell c it)" using g(9) by linarith
  have t: "tabla c base xs' ys'" and u: "claves c xs'" using g(3) by (simp_all add: ordenada_def buddy_def)
  have "diccionario_obtener c k n = Some (Some it)"
    using clave_unica [OF u _ g(4) _ g(5)] by (intro obtener_only [OF t g(4,5)]) blast
  moreover have "it < length (heap c)" using tabla_bounds [OF t g(4)] .
  ultimately show ?thesis using g(1,2,6-8) ch by (auto simp: justice_engine_get_def Let_def cell_upd)
qed


text \<open>The engine started with the configuration file of the repository and the other scheme.\<close>

definition config_buddy :: "(string \<times> string) list" where
  "config_buddy = [(''scheme'', ''BuddySystem''), (''compaction_freq'', ''2''), (''lru'', ''1''), (''bestfit'', ''0''),
     (''dump_scheme'', ''dump.dmp''), (''log_path'', ''justice_log.log'')]"

definition motor_buddy_inicial :: t_justice_engine where
  "motor_buddy_inicial = \<lparr>scheme = BuddySystem, cache = cache_buddy\<lparr>frecuenciaCompactacion := 2, lru := True, bestfit := False\<rparr>, lock = unlocked_lock\<rparr>"

lemma config_buddy_keys: "distinct (map (dictionary_hash \<circ> fst) config_buddy)"
  unfolding config_buddy_def by code_simp

lemma config_buddy_read:
  "configfile_init ''engine_config.ini'' (Some (concat (map config_line config_buddy))) =
    Some \<lparr>compaction_freq = 2, conf_lru = 1, conf_bestfit = 0, conf_scheme = ''BuddySystem'', dump_scheme = ''dump.dmp'', log_path = ''justice_log.log''\<rparr>"
proof -
  have ok: "\<forall>kv \<in> set config_buddy. config_entry_ok kv" by (simp add: config_buddy_def config_entry_ok_def)
  from config_reading [OF ok config_buddy_keys, of "''engine_config.ini''"] obtain c where
    c: "config_create ''engine_config.ini'' (Some (concat (map config_line config_buddy))) = Some c"
    "\<forall>(k, v) \<in> set config_buddy. config_get_string_value c k = Some v" by blast
  have a: "atoi ''2'' = 2" "atoi ''1'' = 1" "atoi ''0'' = 0" by code_simp+
  have "config_get_string_value c ''scheme'' = Some ''BuddySystem''" "config_get_string_value c ''compaction_freq'' = Some ''2''"
    "config_get_string_value c ''lru'' = Some ''1''" "config_get_string_value c ''bestfit'' = Some ''0''"
    "config_get_string_value c ''dump_scheme'' = Some ''dump.dmp''" "config_get_string_value c ''log_path'' = Some ''justice_log.log''"
    using c(2) by (simp_all add: config_buddy_def)
  then show ?thesis by (simp add: configfile_init_def c(1) config_get_int_value_def a)
qed

lemma motor_buddy_inicial_starts:
  "justice_engine_inicializar (Some (concat (map config_line config_buddy))) 256 32 cache_vacia (Some celda_cero) (\<lambda>_. 0) 0 =
    Some (ENGINE_SUCCESS, motor_buddy_inicial)"
proof -
  have "celda_libre celda_cero" by (simp add: celda_libre_def celda_cero_def libre_def estaReservado_def)
  from crear_buddy_ok [OF _ _ potencia_256(1) this, of 32 cache_vacia "\<lambda>_. 0" 0]
  have "diccionario_crear_buddy cache_vacia (Some celda_cero) (\<lambda>_. 0) 0 256 32 = Some cache_buddy" by (auto simp: cache_buddy_def)
  then show ?thesis
    by (simp add: justice_engine_inicializar_def config_buddy_read f_crearDiccionario_def motor_buddy_inicial_def)
qed




end
