(* ===== verification/Bitarray.thy ===== *)
theory Bitarray
  imports Prelude
begin

text \<open>
  \<^verbatim>\<open>rfs/commons/bitarray.c\<close>: a bit array over bytes of the mapped file. The interface the
  allocators rely on is the locale \<open>bitmap\<close>; their common scanning loop is
  \<open>scan_free_bits\<close>, whose contract is proved once inside the locale.
\<close>

unbundle bit_operations_syntax

section \<open>Model\<close>

record t_bitarray =
  bitarray :: nat
  bitarray_size :: nat

definition CHAR_BIT :: nat where
  "CHAR_BIT = 8"

definition BIT_CHAR :: "nat \<Rightarrow> nat" where
  "BIT_CHAR bit_ix = bit_ix div CHAR_BIT"

definition BIT_IN_CHAR :: "nat \<Rightarrow> u8" where
  "BIT_IN_CHAR bit_ix = drop_bit (CHAR_BIT - 1 - bit_ix mod CHAR_BIT) 0x80"

definition bitarray_create :: "nat \<Rightarrow> nat \<Rightarrow> t_bitarray" where
  "bitarray_create p n = \<lparr>bitarray = p, bitarray_size = n\<rparr>"

definition bitarray_test_bit :: "t_bitarray \<Rightarrow> mem \<Rightarrow> nat \<Rightarrow> bool" where
  "bitarray_test_bit self m i \<longleftrightarrow> m (bitarray self + BIT_CHAR i) AND BIT_IN_CHAR i \<noteq> 0"

definition bitarray_set_bit :: "t_bitarray \<Rightarrow> mem \<Rightarrow> nat \<Rightarrow> mem" where
  "bitarray_set_bit self m i =
     m(bitarray self + BIT_CHAR i := m (bitarray self + BIT_CHAR i) OR BIT_IN_CHAR i)"

definition bitarray_clean_bit :: "t_bitarray \<Rightarrow> mem \<Rightarrow> nat \<Rightarrow> mem" where
  "bitarray_clean_bit self m i =
     m(bitarray self + BIT_CHAR i := m (bitarray self + BIT_CHAR i) AND NOT (BIT_IN_CHAR i))"

definition bitarray_get_max_bit :: "t_bitarray \<Rightarrow> nat" where
  "bitarray_get_max_bit self = bitarray_size self * CHAR_BIT"

text \<open>
  The loop shared by \<open>Get_Free_Inodes_In_Group\<close> and \<open>Get_Free_Blocks_In_Group\<close>: from bit
  \<open>var\<close> below \<open>limit\<close>, claim clear bits until \<open>how_many\<close> are found.
\<close>

function scan_free_bits ::
  "('m \<Rightarrow> nat \<Rightarrow> bool) \<Rightarrow> ('m \<Rightarrow> nat \<Rightarrow> 'm) \<Rightarrow> nat \<Rightarrow> nat \<Rightarrow> nat \<Rightarrow> 'm \<Rightarrow> nat list \<times> 'm" where
  "scan_free_bits tst put how_many var limit m =
     (if 0 < how_many \<and> var < limit then
        if \<not> tst m var then
          (let (got, m') = scan_free_bits tst put (how_many - 1) (Suc var) limit (put m var)
           in (var # got, m'))
        else scan_free_bits tst put how_many (Suc var) limit m
      else ([], m))"
  by pat_completeness auto
termination
  by (relation "measure (\<lambda>(t, s, h, var, limit, m). limit - var)") auto

declare scan_free_bits.simps [simp del]

section \<open>The bitmap interface\<close>

locale bitmap =
  fixes tst :: "'m \<Rightarrow> nat \<Rightarrow> bool"
    and put :: "'m \<Rightarrow> nat \<Rightarrow> 'm"
    and clr :: "'m \<Rightarrow> nat \<Rightarrow> 'm"
  assumes test_set: "tst (put m i) j \<longleftrightarrow> j = i \<or> tst m j"
    and test_clean: "tst (clr m i) j \<longleftrightarrow> j \<noteq> i \<and> tst m j"
begin

lemma filter_clear_after_set:
  "filter (\<lambda>j. \<not> tst (put m var) j) [Suc var..<limit] =
   filter (\<lambda>j. \<not> tst m j) [Suc var..<limit]"
  by (rule filter_cong) (auto simp: test_set)

lemma scan_got:
  "fst (scan_free_bits tst put n var limit m) =
     take n (filter (\<lambda>j. \<not> tst m j) [var..<limit])"
proof (induction "limit - var" arbitrary: n var m)
  case 0
  then show ?case by (simp add: scan_free_bits.simps)
next
  case (Suc k)
  then have lt: "var < limit" and k: "k = limit - Suc var" by auto
  have IH: "fst (scan_free_bits tst put n' (Suc var) limit m') =
      take n' (filter (\<lambda>j. \<not> tst m' j) [Suc var..<limit])" for n' m'
    using Suc.hyps(1) [OF k] .
  show ?case
    using lt IH by (subst scan_free_bits.simps)
      (auto simp: upt_conv_Cons filter_clear_after_set take_Cons' case_prod_beta)
qed

lemma scan_marks:
  "tst (snd (scan_free_bits tst put n var limit m)) j \<longleftrightarrow>
     tst m j \<or> j \<in> set (fst (scan_free_bits tst put n var limit m))"
proof (induction "limit - var" arbitrary: n var m)
  case 0
  then show ?case by (simp add: scan_free_bits.simps)
next
  case (Suc k)
  then have lt: "var < limit" and k: "k = limit - Suc var" by auto
  note IH = Suc.hyps(1) [OF k]
  show ?case
    using lt IH [of n m] IH [of "n - 1" "put m var"]
    by (subst (1 2) scan_free_bits.simps) (auto simp: test_set case_prod_beta)
qed

lemma scan_distinct: "distinct (fst (scan_free_bits tst put n var limit m))"
  by (simp add: scan_got)

lemma scan_was_clear:
  assumes "j \<in> set (fst (scan_free_bits tst put n var limit m))"
  shows "\<not> tst m j \<and> var \<le> j \<and> j < limit"
  using assms by (auto simp: scan_got dest: in_set_takeD)

lemma scan_length:
  "length (fst (scan_free_bits tst put n var limit m)) =
     min n (card {j. var \<le> j \<and> j < limit \<and> \<not> tst m j})"
proof -
  have "length (filter (\<lambda>j. \<not> tst m j) [var..<limit]) =
      card (set (filter (\<lambda>j. \<not> tst m j) [var..<limit]))"
    by (rule distinct_card [symmetric]) simp
  also have "set (filter (\<lambda>j. \<not> tst m j) [var..<limit]) =
      {j. var \<le> j \<and> j < limit \<and> \<not> tst m j}"
    by auto
  finally show ?thesis by (simp add: scan_got min.commute)
qed

end

lemma scan_invariant:
  assumes "\<And>m i. P m \<Longrightarrow> var \<le> i \<Longrightarrow> i < limit \<Longrightarrow> P (put m i)" and "P m"
  shows "P (snd (scan_free_bits tst put n var limit m))"
  using assms
proof (induction "limit - var" arbitrary: n var m)
  case 0
  then show ?case by (simp add: scan_free_bits.simps)
next
  case (Suc k)
  then have lt: "var < limit" and k: "k = limit - Suc var" by auto
  have IH: "P m' \<Longrightarrow> P (snd (scan_free_bits tst put n' (Suc var) limit m'))" for n' m'
    using Suc.hyps(1) [OF k] Suc.prems(1) by simp
  show ?case
    using lt Suc.prems IH by (subst scan_free_bits.simps) (auto simp: case_prod_beta)
qed

text \<open>A scan that found all it asked for does not look beyond.\<close>

lemma scan_limit:
  assumes "length (fst (scan_free_bits tst put n var limit m)) = n" and "limit \<le> limit'"
  shows "scan_free_bits tst put n var limit' m = scan_free_bits tst put n var limit m"
  using assms
proof (induction "limit - var" arbitrary: n var m)
  case 0
  then have "n = 0" by (simp add: scan_free_bits.simps [of tst put n var limit])
  then show ?case by (simp add: scan_free_bits.simps)
next
  case (Suc k)
  then have lt: "var < limit" and k: "k = limit - Suc var" by auto
  have IH: "length (fst (scan_free_bits tst put n' (Suc var) limit m')) = n' \<Longrightarrow>
      scan_free_bits tst put n' (Suc var) limit' m' = scan_free_bits tst put n' (Suc var) limit m'" for n' m'
    using Suc.hyps(1) [OF k] Suc.prems(2) by simp
  note len = Suc.prems(1) [unfolded scan_free_bits.simps [of tst put n var limit m]]
  show ?case
    using lt len Suc.prems(2) IH [of n m] IH [of "n - 1" "put m var"]
    by (subst (1 2) scan_free_bits.simps) (auto simp: case_prod_beta split: if_splits)
qed

section \<open>The bit array implements the interface\<close>

lemma bit_BIT_IN_CHAR: "bit (BIT_IN_CHAR i) j \<longleftrightarrow> j = i mod 8"
proof -
  have "(0x80 :: u8) = push_bit 7 1" by simp
  then have "BIT_IN_CHAR i = push_bit (i mod 8) 1"
    by (simp only: BIT_IN_CHAR_def CHAR_BIT_def)
      (cases "i mod 8 = 0"; cases "i mod 8 = 1"; cases "i mod 8 = 2"; cases "i mod 8 = 3";
       cases "i mod 8 = 4"; cases "i mod 8 = 5"; cases "i mod 8 = 6"; cases "i mod 8 = 7"; simp)
  then show ?thesis
    using mod_less_divisor [of 8 i] by (auto simp: bit_simps)
qed

lemma test_bit_bit: "bitarray_test_bit self m i \<longleftrightarrow> bit (m (bitarray self + i div 8)) (i mod 8)"
proof -
  have "m (bitarray self + i div 8) AND BIT_IN_CHAR i \<noteq> 0 \<longleftrightarrow>
      (\<exists>j. bit (m (bitarray self + i div 8)) j \<and> bit (BIT_IN_CHAR i) j)"
    by (auto simp: bit_and_iff bit_BIT_IN_CHAR bit_eq_iff [where 'a = u8])
  then show ?thesis
    by (simp add: bitarray_test_bit_def BIT_CHAR_def CHAR_BIT_def bit_BIT_IN_CHAR)
qed

lemma same_bit_iff: "i div 8 = j div 8 \<Longrightarrow> i mod 8 = j mod 8 \<longleftrightarrow> i = (j :: nat)"
  by (metis div_mult_mod_eq)

lemmas bitmap_defs = bitarray_set_bit_def bitarray_clean_bit_def BIT_CHAR_def CHAR_BIT_def bit_BIT_IN_CHAR

interpretation bits: bitmap "bitarray_test_bit self" "bitarray_set_bit self" "bitarray_clean_bit self"
  for self
proof unfold_locales
  fix m i j
  show "bitarray_test_bit self (bitarray_set_bit self m i) j \<longleftrightarrow> j = i \<or> bitarray_test_bit self m j"
    by (cases "i div 8 = j div 8") (auto simp: bitmap_defs test_bit_bit bit_or_iff same_bit_iff)
  show "bitarray_test_bit self (bitarray_clean_bit self m i) j \<longleftrightarrow> j \<noteq> i \<and> bitarray_test_bit self m j"
    by (cases "i div 8 = j div 8") (auto simp: bitmap_defs test_bit_bit bit_and_iff bit_not_iff same_bit_iff)
qed

text \<open>Both writers touch one byte of the array only.\<close>

lemma bitarray_frame [mem_simps]:
  "x \<noteq> bitarray self + i div 8 \<Longrightarrow> bitarray_set_bit self m i x = m x"
  "x \<noteq> bitarray self + i div 8 \<Longrightarrow> bitarray_clean_bit self m i x = m x"
  by (auto simp: bitarray_set_bit_def bitarray_clean_bit_def BIT_CHAR_def CHAR_BIT_def)

end
