(* ===== verification/Ext2.thy ===== *)
theory Ext2
  imports Bitarray
begin

text \<open>
  \<^verbatim>\<open>rfs/headers_RFS/ext2_block_types.h\<close> and \<^verbatim>\<open>rfs/source_RFS/ex2_block_types.c\<close>: the on-disk
  structures of ext2 as field offsets in the mapped file, the constants read from the
  superblock, inode and group addressing, and the walk over direct and indirect block
  pointers. A pointer into the mapped file is its offset; a pointer that may be \<open>NULL\<close> is
  an \<open>option\<close>.
\<close>

section \<open>On-disk structures\<close>

datatype SuperBlock_t =
    SB_TOTAL_NUMBER_INODES_FS | SB_TOTAL_NUMBER_BLOCKS_FS | SB_SUPERUSER_BLOCKS
  | SB_TOTAL_UNALLOCATED_BLOCKS | SB_TOTAL_UNALLOCATED_INODES | SB_BLOCK_NUMBER_SUPERBLOCK
  | SB_SHIFT_NUMBER_BLOCK_SIZE | SB_SHIFT_NUMBER_FRAGMENT_SIZE | SB_BLOCKS_PER_GROUP
  | SB_FRAGMENTS_PER_BLOCK_GROUP | SB_INODES_PER_GROUP | SB_LAST_MOUNT_TIME | SB_LAST_WRITTEN_TIME
  | SB_TIMES_MOUNTED_SINCE_FSCK | SB_MOUNTS_BEFORE_FSCK | SB_EXT2_SIGNATURE | SB_FILE_SYSTEM_STATE
  | SB_ERROR_FALLBACK | SB_MINOR_VERSION | SB_LAST_FSCK | SB_INTERVAL_BETWEEN_FSCK | SB_CREATING_OS_ID
  | SB_MAJOR_VERSION | SB_UID_RESERVED_BLOCKS | SB_GID_RESERVED_BLOCKS | SB_FIRST_FREE_INODE_FS
  | SB_INODE_STRUCT_SIZE

fun SuperBlock_off :: "SuperBlock_t \<Rightarrow> nat" where
  "SuperBlock_off SB_TOTAL_NUMBER_INODES_FS = 0"
| "SuperBlock_off SB_TOTAL_NUMBER_BLOCKS_FS = 4"
| "SuperBlock_off SB_SUPERUSER_BLOCKS = 8"
| "SuperBlock_off SB_TOTAL_UNALLOCATED_BLOCKS = 12"
| "SuperBlock_off SB_TOTAL_UNALLOCATED_INODES = 16"
| "SuperBlock_off SB_BLOCK_NUMBER_SUPERBLOCK = 20"
| "SuperBlock_off SB_SHIFT_NUMBER_BLOCK_SIZE = 24"
| "SuperBlock_off SB_SHIFT_NUMBER_FRAGMENT_SIZE = 28"
| "SuperBlock_off SB_BLOCKS_PER_GROUP = 32"
| "SuperBlock_off SB_FRAGMENTS_PER_BLOCK_GROUP = 36"
| "SuperBlock_off SB_INODES_PER_GROUP = 40"
| "SuperBlock_off SB_LAST_MOUNT_TIME = 44"
| "SuperBlock_off SB_LAST_WRITTEN_TIME = 48"
| "SuperBlock_off SB_TIMES_MOUNTED_SINCE_FSCK = 52"
| "SuperBlock_off SB_MOUNTS_BEFORE_FSCK = 54"
| "SuperBlock_off SB_EXT2_SIGNATURE = 56"
| "SuperBlock_off SB_FILE_SYSTEM_STATE = 58"
| "SuperBlock_off SB_ERROR_FALLBACK = 60"
| "SuperBlock_off SB_MINOR_VERSION = 62"
| "SuperBlock_off SB_LAST_FSCK = 64"
| "SuperBlock_off SB_INTERVAL_BETWEEN_FSCK = 68"
| "SuperBlock_off SB_CREATING_OS_ID = 72"
| "SuperBlock_off SB_MAJOR_VERSION = 76"
| "SuperBlock_off SB_UID_RESERVED_BLOCKS = 80"
| "SuperBlock_off SB_GID_RESERVED_BLOCKS = 82"
| "SuperBlock_off SB_FIRST_FREE_INODE_FS = 84"
| "SuperBlock_off SB_INODE_STRUCT_SIZE = 88"

datatype Group_Descriptor_t =
    GD_BITMAP_BLOCK_ADDRESS | GD_BITMAP_INODE_ADDRESS | GD_START_INODE_TABLE
  | GD_UNALLOCATED_BLOCKS | GD_UNALLOCATED_INODES | GD_NUMBER_DIRECTORIES_GROUP
  | GD_PAD_16_32 | GD_RESERVED1 | GD_RESERVED2 | GD_RESERVED3

fun Group_Descriptor_off :: "Group_Descriptor_t \<Rightarrow> nat" where
  "Group_Descriptor_off GD_BITMAP_BLOCK_ADDRESS = 0"
| "Group_Descriptor_off GD_BITMAP_INODE_ADDRESS = 4"
| "Group_Descriptor_off GD_START_INODE_TABLE = 8"
| "Group_Descriptor_off GD_UNALLOCATED_BLOCKS = 12"
| "Group_Descriptor_off GD_UNALLOCATED_INODES = 14"
| "Group_Descriptor_off GD_NUMBER_DIRECTORIES_GROUP = 16"
| "Group_Descriptor_off GD_PAD_16_32 = 18"
| "Group_Descriptor_off GD_RESERVED1 = 20"
| "Group_Descriptor_off GD_RESERVED2 = 24"
| "Group_Descriptor_off GD_RESERVED3 = 28"

definition sizeof_Group_Descriptor :: nat where
  "sizeof_Group_Descriptor = 32"

datatype inode_t =
    I_mode | I_uid | I_size | I_atime | I_ctime | I_mtime | I_dtime | I_gid | I_links_count
  | I_blocks | I_flags | I_osd1 | I_pointer_data_0 | I_pointer_data_1 | I_pointer_data_2
  | I_pointer_data_3 | I_generation | I_file_acl | I_dir_acl | I_faddr | I_osd2

fun inode_off :: "inode_t \<Rightarrow> nat" where
  "inode_off I_mode = 0"
| "inode_off I_uid = 2"
| "inode_off I_size = 4"
| "inode_off I_atime = 8"
| "inode_off I_ctime = 12"
| "inode_off I_mtime = 16"
| "inode_off I_dtime = 20"
| "inode_off I_gid = 24"
| "inode_off I_links_count = 26"
| "inode_off I_blocks = 28"
| "inode_off I_flags = 32"
| "inode_off I_osd1 = 36"
| "inode_off I_pointer_data_0 = 40"
| "inode_off I_pointer_data_1 = 88"
| "inode_off I_pointer_data_2 = 92"
| "inode_off I_pointer_data_3 = 96"
| "inode_off I_generation = 100"
| "inode_off I_file_acl = 104"
| "inode_off I_dir_acl = 108"
| "inode_off I_faddr = 112"
| "inode_off I_osd2 = 116"

definition sizeof_inode :: nat where
  "sizeof_inode = 128"

record Superblock_constants =
  TOTAL_NUMBER_INODES_FS :: u32
  TOTAL_NUMBER_BLOCKS_FS :: u32
  BLOCKS_PER_GROUP :: u32
  INODES_PER_GROUP :: u32
  BLOCK_SIZE :: u32
  TOTAL_GROUPS :: u32
  GDT_START :: u32

section \<open>Superblock\<close>

definition SUPERBLOCK_START :: nat where
  "SUPERBLOCK_START = 1024"

definition SuperBlock_getBlockSize :: "mem \<Rightarrow> nat option \<Rightarrow> u32" where
  "SuperBlock_getBlockSize fs superblock = (case superblock of
     None \<Rightarrow> 0
   | Some sb \<Rightarrow> push_bit (unat (load32 fs (sb + SuperBlock_off SB_SHIFT_NUMBER_BLOCK_SIZE))) 1024)"

text \<open>
  \<open>lround\<close> of a quotient of two 32-bit integers, computed in \<open>double\<close>: the quotient differs
  from a half-integer by at least \<open>1/(2 * b)\<close> unless it is one, which is more than the
  rounding error of the division, so the result is the quotient rounded half up.
\<close>

definition lround_div :: "u32 \<Rightarrow> u32 \<Rightarrow> u32" where
  "lround_div a b = of_nat ((2 * unat a + unat b) div (2 * unat b))"

definition SuperBlock_getTotalGroups :: "mem \<Rightarrow> nat option \<Rightarrow> u32" where
  "SuperBlock_getTotalGroups fs superblock = (case superblock of
     None \<Rightarrow> 0
   | Some sb \<Rightarrow>
      (let groups_through_blocks =
             lround_div (load32 fs (sb + SuperBlock_off SB_TOTAL_NUMBER_BLOCKS_FS))
               (load32 fs (sb + SuperBlock_off SB_BLOCKS_PER_GROUP));
           groups_through_inodes =
             lround_div (load32 fs (sb + SuperBlock_off SB_TOTAL_NUMBER_INODES_FS))
               (load32 fs (sb + SuperBlock_off SB_INODES_PER_GROUP))
       in if sint groups_through_blocks < sint groups_through_inodes
          then groups_through_inodes else groups_through_blocks))"

definition SuperBlock_read :: "mem \<Rightarrow> bool \<times> Superblock_constants \<Rightarrow> nat \<times> bool \<times> Superblock_constants" where
  "SuperBlock_read fs st =
     (let superblock = SUPERBLOCK_START; (set', sc) = st
      in if \<not> set' then
           let bs = SuperBlock_getBlockSize fs (Some superblock)
           in (superblock, True,
               sc\<lparr>BLOCKS_PER_GROUP := load32 fs (superblock + SuperBlock_off SB_BLOCKS_PER_GROUP),
                  INODES_PER_GROUP := load32 fs (superblock + SuperBlock_off SB_INODES_PER_GROUP),
                  TOTAL_NUMBER_BLOCKS_FS := load32 fs (superblock + SuperBlock_off SB_TOTAL_NUMBER_BLOCKS_FS),
                  TOTAL_NUMBER_INODES_FS := load32 fs (superblock + SuperBlock_off SB_TOTAL_NUMBER_INODES_FS),
                  BLOCK_SIZE := bs,
                  GDT_START := (if bs = 1024 then of_nat SUPERBLOCK_START + bs else bs),
                  TOTAL_GROUPS := SuperBlock_getTotalGroups fs (Some superblock)\<rparr>)
         else (superblock, set', sc))"

section \<open>Auxiliary functions\<close>

definition Size_In_Blocks :: "Superblock_constants \<Rightarrow> u32 \<Rightarrow> nat" where
  "Size_In_Blocks sc bytes =
     unat (bytes div BLOCK_SIZE sc) + (if bytes mod BLOCK_SIZE sc > 0 then 1 else 0)"

definition SuperBlock_getGDTSize :: "Superblock_constants \<Rightarrow> u32" where
  "SuperBlock_getGDTSize sc =
     of_nat (Size_In_Blocks sc (of_nat sizeof_Group_Descriptor * TOTAL_GROUPS sc))"

text \<open>
  The loop of \<open>is_Power\<close> squares its base; with a base of 0 or 1 below the number it never
  ends (\<open>None\<close>). The 64-bit square of a base below a 32-bit number does not wrap.
\<close>

function is_Power :: "nat \<Rightarrow> nat \<Rightarrow> bool option" where
  "is_Power number base =
     (if base < number then if base \<le> 1 then None else is_Power number (base * base)
      else Some (base = number))"
  by pat_completeness auto
termination
  by (relation "measure (\<lambda>(number, base). number - base)") (auto intro!: diff_less_mono2)

declare is_Power.simps [simp del]

definition is_Sparse :: "nat \<Rightarrow> bool" where
  "is_Sparse gnumber \<longleftrightarrow> gnumber = 0 \<or> gnumber = 1 \<or> is_Power gnumber 3 = Some True \<or>
     is_Power gnumber 5 = Some True \<or> is_Power gnumber 7 = Some True"

section \<open>Group descriptors\<close>

definition Group_Descriptor_read :: "Superblock_constants \<Rightarrow> u32 \<Rightarrow> nat option" where
  "Group_Descriptor_read sc gd_position =
     (if gd_position < TOTAL_GROUPS sc
      then Some (unat (GDT_START sc) + sizeof_Group_Descriptor * unat gd_position) else None)"

definition Group_Number :: "mem \<Rightarrow> Superblock_constants \<Rightarrow> nat \<Rightarrow> u32" where
  "Group_Number fs sc group_desc =
     (load32 fs (group_desc + Group_Descriptor_off GD_BITMAP_BLOCK_ADDRESS) - 1) div BLOCKS_PER_GROUP sc"

definition Inode_TableSize :: "Superblock_constants \<Rightarrow> u32" where
  "Inode_TableSize sc = of_nat (Size_In_Blocks sc (of_nat sizeof_inode * INODES_PER_GROUP sc))"

definition Data_Blocks_In_Group :: "mem \<Rightarrow> Superblock_constants \<Rightarrow> nat \<Rightarrow> u32" where
  "Data_Blocks_In_Group fs sc group_desc =
     (let data_blocks = BLOCKS_PER_GROUP sc - 2 - Inode_TableSize sc;
          gnumber = Group_Number fs sc group_desc
      in if gnumber = 0 then 8109
         else if is_Sparse (unat gnumber) then data_blocks - (1 + SuperBlock_getGDTSize sc)
         else data_blocks)"

text \<open>
  The two allocators of one group. The result array is \<open>calloc\<close>ed, so slots that found no
  free bit stay 0. Note the inclusive bound of the inode loop.
\<close>

definition pad_zeros :: "nat \<Rightarrow> u32 list \<Rightarrow> u32 list" where
  "pad_zeros n xs = xs @ replicate (n - length xs) 0"

definition Get_Free_Inodes_In_Group ::
  "mem \<Rightarrow> Superblock_constants \<Rightarrow> nat \<Rightarrow> nat \<Rightarrow> u32 \<Rightarrow> u32 list \<times> mem" where
  "Get_Free_Inodes_In_Group fs sc how_many group_desc group_number =
     (let bitmap_addr = load32 fs (group_desc + Group_Descriptor_off GD_BITMAP_INODE_ADDRESS) * BLOCK_SIZE sc;
          bmap = bitarray_create (unat bitmap_addr) (unat (BLOCK_SIZE sc));
          (vars, fs') = scan_free_bits (bitarray_test_bit bmap) (bitarray_set_bit bmap) how_many 0
            (unat (INODES_PER_GROUP sc) + 1) fs
      in (pad_zeros how_many (map (\<lambda>var. group_number * INODES_PER_GROUP sc + of_nat var + 1) vars), fs'))"

definition Get_Free_Blocks_In_Group ::
  "mem \<Rightarrow> Superblock_constants \<Rightarrow> nat \<Rightarrow> nat \<Rightarrow> u32 list \<times> mem" where
  "Get_Free_Blocks_In_Group fs sc how_many group_desc =
     (let bitmap_addr = load32 fs (group_desc + Group_Descriptor_off GD_BITMAP_BLOCK_ADDRESS) * BLOCK_SIZE sc;
          bmap = bitarray_create (unat bitmap_addr) (unat (BLOCK_SIZE sc));
          group_offset = Group_Number fs sc group_desc * BLOCKS_PER_GROUP sc + 1;
          (vars, fs') = scan_free_bits (bitarray_test_bit bmap) (bitarray_set_bit bmap) how_many 0
            (unat (BLOCKS_PER_GROUP sc)) fs
      in (pad_zeros how_many (map (\<lambda>var. of_nat var + group_offset) vars), fs'))"

section \<open>Inodes\<close>

definition Inode_readTable :: "mem \<Rightarrow> Superblock_constants \<Rightarrow> u32 \<Rightarrow> nat option" where
  "Inode_readTable fs sc group_number = (case Group_Descriptor_read sc group_number of
     None \<Rightarrow> None
   | Some gd \<Rightarrow> Some (unat (load32 fs (gd + Group_Descriptor_off GD_START_INODE_TABLE) * BLOCK_SIZE sc)))"

definition Inode_locateGroup :: "Superblock_constants \<Rightarrow> u32 \<Rightarrow> u32" where
  "Inode_locateGroup sc anInodeNumber = (anInodeNumber - 1) div INODES_PER_GROUP sc"

definition Inode_getLocalIndex :: "Superblock_constants \<Rightarrow> u32 \<Rightarrow> u32" where
  "Inode_getLocalIndex sc anInodeNumber = (anInodeNumber - 1) mod INODES_PER_GROUP sc"

definition Inode_Local_Read :: "mem \<Rightarrow> Superblock_constants \<Rightarrow> u32 \<Rightarrow> u32 \<Rightarrow> nat option" where
  "Inode_Local_Read fs sc aGroupBlock anInodeIndex = (case Inode_readTable fs sc aGroupBlock of
     None \<Rightarrow> None
   | Some tablaDeInodos \<Rightarrow> Some (tablaDeInodos + sizeof_inode * unat anInodeIndex))"

definition Inode_Global_Read :: "mem \<Rightarrow> Superblock_constants \<Rightarrow> u32 \<Rightarrow> nat option" where
  "Inode_Global_Read fs sc anInodeNumber =
     (let grupo = Inode_locateGroup sc anInodeNumber;
          indice = Inode_getLocalIndex sc anInodeNumber
      in Inode_Local_Read fs sc grupo indice)"

definition Inode_Block_Read :: "mem \<Rightarrow> nat \<Rightarrow> u32 \<Rightarrow> u32" where
  "Inode_Block_Read fs anInode aBlockNumber =
     load32 fs (anInode + inode_off I_pointer_data_0 + 4 * unat aBlockNumber)"

section \<open>Data block addresses of an inode\<close>

definition block_addr :: "Superblock_constants \<Rightarrow> u32 \<Rightarrow> nat" where
  \<comment> \<open>\<open>fs + block * BLOCK_SIZE\<close>, the product in \<open>uint32_t\<close>.\<close>
  "block_addr sc blk = unat (blk * BLOCK_SIZE sc)"

definition ptrs_per_block :: "Superblock_constants \<Rightarrow> nat" where
  \<comment> \<open>\<open>BLOCK_SIZE / sizeof(uint32_t)\<close>\<close>
  "ptrs_per_block sc = unat (BLOCK_SIZE sc) div 4"

definition Inode_Indirect_Read1 :: "mem \<Rightarrow> Superblock_constants \<Rightarrow> u32 \<Rightarrow> nat \<Rightarrow> u32 list option" where
  "Inode_Indirect_Read1 fs sc indirect_block blocks_to_read =
     (if blocks_to_read > ptrs_per_block sc then None
      else Some (load32s fs (block_addr sc indirect_block) blocks_to_read))"

text \<open>
  Levels 2 and 3. Level \<open>Suc l\<close> reads whole sub-trees of \<open>ptrs_per_block ^ l\<close> blocks and then
  the rest of the last one; the callee is \<open>Inode_Indirect_Read1\<close> when \<open>l = 1\<close>. The source
  calls it with level 2 and 3 only.
\<close>

fun Inode_Indirect_Read23 :: "mem \<Rightarrow> Superblock_constants \<Rightarrow> u32 \<Rightarrow> nat \<Rightarrow> nat \<Rightarrow> u32 list option" where
  "Inode_Indirect_Read23 fs sc indirect_block 0 blocks_to_read = None"
| "Inode_Indirect_Read23 fs sc indirect_block (Suc l) blocks_to_read =
     (let read_sub = (\<lambda>offset n. if l = 1 then Inode_Indirect_Read1 fs sc offset n
                                 else Inode_Indirect_Read23 fs sc offset l n);
          indirect_address = (\<lambda>i. load32 fs (block_addr sc indirect_block + 4 * i));
          blocks_per_full_entry = ptrs_per_block sc ^ l;
          full_read_entries = blocks_to_read div blocks_per_full_entry;
          remaining_blocks_to_read = blocks_to_read mod blocks_per_full_entry
      in if blocks_to_read > ptrs_per_block sc ^ Suc l then None
         else do {
           full \<leftarrow> those (map (\<lambda>i. read_sub (indirect_address i) blocks_per_full_entry) [0..<full_read_entries]);
           rest \<leftarrow> (if remaining_blocks_to_read > 0
                    then read_sub (indirect_address full_read_entries) remaining_blocks_to_read
                    else Some []);
           Some (concat full @ rest)
         })"

definition Indirect_Read :: "mem \<Rightarrow> Superblock_constants \<Rightarrow> u32 \<Rightarrow> nat \<Rightarrow> nat \<Rightarrow> u32 list option" where
  "Indirect_Read fs sc indirect_address level cantidad =
     (if level > 1 then Inode_Indirect_Read23 fs sc indirect_address level cantidad
      else Inode_Indirect_Read1 fs sc indirect_address cantidad)"

text \<open>The returned array has one more, zero, element: callers stop at it.\<close>

definition Inode_Get_Data_Adressess :: "mem \<Rightarrow> Superblock_constants \<Rightarrow> nat \<Rightarrow> u32 \<Rightarrow> u32 list option" where
  "Inode_Get_Data_Adressess fs sc anInode file_size =
     (let cantidadDeBloques = max 1 (Size_In_Blocks sc file_size);
          cantidadPunterosABloques = ptrs_per_block sc;
          bloquesDirectos = 12;
          punteroDirecto = anInode + inode_off I_pointer_data_0;
          ind1 = load32 fs (anInode + inode_off I_pointer_data_1);
          ind2 = load32 fs (anInode + inode_off I_pointer_data_2);
          ind3 = load32 fs (anInode + inode_off I_pointer_data_3)
      in if \<not> cantidadDeBloques > 12 then Some (load32s fs punteroDirecto cantidadDeBloques @ [0])
         else let resto1 = cantidadDeBloques - bloquesDirectos in
           if \<not> resto1 > cantidadPunterosABloques then do {
             l1 \<leftarrow> Indirect_Read fs sc ind1 1 resto1;
             Some (load32s fs punteroDirecto bloquesDirectos @ l1 @ [0]) }
           else do {
             l1 \<leftarrow> Indirect_Read fs sc ind1 1 cantidadPunterosABloques;
             let resto2 = resto1 - cantidadPunterosABloques;
             if \<not> resto2 > cantidadPunterosABloques ^ 2 then do {
               l2 \<leftarrow> Indirect_Read fs sc ind2 2 resto2;
               Some (load32s fs punteroDirecto bloquesDirectos @ l1 @ l2 @ [0]) }
             else do {
               l2 \<leftarrow> Indirect_Read fs sc ind2 2 (cantidadPunterosABloques ^ 2);
               let resto3 = resto2 - cantidadPunterosABloques ^ 2;
               if resto3 \<le> cantidadPunterosABloques ^ 3 then do {
                 l3 \<leftarrow> Indirect_Read fs sc ind3 3 resto3;
                 Some (load32s fs punteroDirecto bloquesDirectos @ l1 @ l2 @ l3 @ [0]) }
               else None } })"

section \<open>Reference: the i-th block of a file\<close>

text \<open>
  The ext2 layout stated leaf by leaf: leaf \<open>i\<close> below a pointer block of level \<open>l\<close>, and the
  \<open>i\<close>-th data block of an inode. The source reads whole sub-arrays instead.
\<close>

fun ind_block :: "mem \<Rightarrow> Superblock_constants \<Rightarrow> u32 \<Rightarrow> nat \<Rightarrow> nat \<Rightarrow> u32" where
  "ind_block fs sc blk 0 i = blk"
| "ind_block fs sc blk (Suc l) i =
     ind_block fs sc (load32 fs (block_addr sc blk + 4 * (i div ptrs_per_block sc ^ l))) l
       (i mod ptrs_per_block sc ^ l)"

definition file_block :: "mem \<Rightarrow> Superblock_constants \<Rightarrow> nat \<Rightarrow> nat \<Rightarrow> u32" where
  "file_block fs sc anInode i =
     (let P = ptrs_per_block sc in
      if i < 12 then load32 fs (anInode + inode_off I_pointer_data_0 + 4 * i)
      else if i < 12 + P then
        ind_block fs sc (load32 fs (anInode + inode_off I_pointer_data_1)) 1 (i - 12)
      else if i < 12 + P + P ^ 2 then
        ind_block fs sc (load32 fs (anInode + inode_off I_pointer_data_2)) 2 (i - 12 - P)
      else ind_block fs sc (load32 fs (anInode + inode_off I_pointer_data_3)) 3 (i - 12 - P - P ^ 2))"

definition max_file_blocks :: "Superblock_constants \<Rightarrow> nat" where
  "max_file_blocks sc = 12 + ptrs_per_block sc + ptrs_per_block sc ^ 2 + ptrs_per_block sc ^ 3"

section \<open>Block walk: lemmas\<close>

lemma Read1_leaves:
  "n \<le> ptrs_per_block sc \<Longrightarrow>
   Inode_Indirect_Read1 fs sc blk n = Some (map (ind_block fs sc blk 1) [0..<n])"
  by (auto simp: Inode_Indirect_Read1_def load32s_def)

lemma Read23_leaves:
  assumes P: "0 < ptrs_per_block sc" and l: "0 < l" and n: "n \<le> ptrs_per_block sc ^ Suc l"
  shows "Inode_Indirect_Read23 fs sc blk (Suc l) n = Some (map (ind_block fs sc blk (Suc l)) [0..<n])"
  using l n
proof (induction l arbitrary: blk n)
  case (Suc l)
  let ?k = "ptrs_per_block sc ^ Suc l"
  define sub where "sub = (\<lambda>i. load32 fs (block_addr sc blk + 4 * i))"
  have k: "0 < ?k" using P by simp
  have read: "(if Suc l = 1 then Inode_Indirect_Read1 fs sc b m
      else Inode_Indirect_Read23 fs sc b (Suc l) m) = Some (map (ind_block fs sc b (Suc l)) [0..<m])"
    if "m \<le> ?k" for b m
    using that Suc.IH by (auto simp: Read1_leaves simp del: Inode_Indirect_Read23.simps ind_block.simps)
  have "Inode_Indirect_Read23 fs sc blk (Suc (Suc l)) n =
      Some (concat (map (\<lambda>i. map (ind_block fs sc (sub i) (Suc l)) [0..<?k]) [0..<n div ?k]) @
        map (ind_block fs sc (sub (n div ?k)) (Suc l)) [0..<n mod ?k])"
    using Suc.prems read k
    by (simp add: Let_def those_map_Some sub_def less_imp_le
        del: Inode_Indirect_Read23.simps ind_block.simps
        add: Inode_Indirect_Read23.simps(2) [of _ _ _ "Suc l"])
  also have "concat (map (\<lambda>i. map (ind_block fs sc (sub i) (Suc l)) [0..<?k]) [0..<n div ?k]) @
        map (ind_block fs sc (sub (n div ?k)) (Suc l)) [0..<n mod ?k] =
      map (\<lambda>j. ind_block fs sc (sub (j div ?k)) (Suc l) (j mod ?k)) [0..<n]"
    using k by (rule concat_chunks)
  finally show ?case by (simp add: sub_def del: Inode_Indirect_Read23.simps)
qed simp

lemma Indirect_Read_leaves:
  assumes "0 < ptrs_per_block sc" and "0 < l" and "n \<le> ptrs_per_block sc ^ l"
  shows "Indirect_Read fs sc blk l n = Some (map (ind_block fs sc blk l) [0..<n])"
proof (cases "l = 1")
  case True
  with assms show ?thesis by (simp add: Indirect_Read_def Read1_leaves)
next
  case False
  with assms(2) obtain k where "l = Suc k" "0 < k" by (cases l) auto
  with assms Read23_leaves [of sc k n fs blk] show ?thesis by (simp add: Indirect_Read_def)
qed

lemma map_file_block:
  fixes sc :: Superblock_constants
  defines "P \<equiv> ptrs_per_block sc"
  shows "n \<le> 12 \<Longrightarrow> map (file_block fs sc ino) [0..<n] = load32s fs (ino + inode_off I_pointer_data_0) n"
    and "r \<le> P \<Longrightarrow> map (file_block fs sc ino) [12..<12 + r] =
      map (ind_block fs sc (load32 fs (ino + inode_off I_pointer_data_1)) 1) [0..<r]"
    and "r \<le> P ^ 2 \<Longrightarrow> map (file_block fs sc ino) [12 + P..<12 + P + r] =
      map (ind_block fs sc (load32 fs (ino + inode_off I_pointer_data_2)) 2) [0..<r]"
    and "map (file_block fs sc ino) [12 + P + P ^ 2..<12 + P + P ^ 2 + r] =
      map (ind_block fs sc (load32 fs (ino + inode_off I_pointer_data_3)) 3) [0..<r]"
proof -
  have shift: "[a..<a + r] = map (\<lambda>i. i + a) [0..<r]" for a r :: nat
    by (simp add: map_add_upt add.commute)
  show "n \<le> 12 \<Longrightarrow> map (file_block fs sc ino) [0..<n] = load32s fs (ino + inode_off I_pointer_data_0) n"
    by (auto simp: file_block_def load32s_def)
  show "r \<le> P \<Longrightarrow> map (file_block fs sc ino) [12..<12 + r] =
      map (ind_block fs sc (load32 fs (ino + inode_off I_pointer_data_1)) 1) [0..<r]"
    unfolding shift by (auto simp: file_block_def P_def simp del: ind_block.simps)
  show "r \<le> P ^ 2 \<Longrightarrow> map (file_block fs sc ino) [12 + P..<12 + P + r] =
      map (ind_block fs sc (load32 fs (ino + inode_off I_pointer_data_2)) 2) [0..<r]"
    unfolding shift by (auto simp: file_block_def P_def Let_def simp del: ind_block.simps)
  show "map (file_block fs sc ino) [12 + P + P ^ 2..<12 + P + P ^ 2 + r] =
      map (ind_block fs sc (load32 fs (ino + inode_off I_pointer_data_3)) 3) [0..<r]"
    unfolding shift by (auto simp: file_block_def P_def Let_def simp del: ind_block.simps)
qed

lemma data_addresses_cases:
  fixes sc :: Superblock_constants
  assumes "0 < ptrs_per_block sc"
  shows "Inode_Get_Data_Adressess fs sc ino sz =
    (let n = max 1 (Size_In_Blocks sc sz)
     in if n \<le> max_file_blocks sc then Some (map (file_block fs sc ino) [0..<n] @ [0]) else None)"
proof -
  define P where "P = ptrs_per_block sc"
  define n where "n = max 1 (Size_In_Blocks sc sz)"
  note unf = Inode_Get_Data_Adressess_def [of fs sc ino sz, folded n_def P_def] max_file_blocks_def Let_def
  note blocks = map_file_block [where fs = fs and sc = sc and ino = ino, folded P_def]
  have read: "0 < l \<Longrightarrow> r \<le> P ^ l \<Longrightarrow> Indirect_Read fs sc blk l r = Some (map (ind_block fs sc blk l) [0..<r])" for blk l r
    using assms Indirect_Read_leaves by (simp add: P_def)
  consider (direct) "n \<le> 12" | (ind1) r where "n = 12 + r" "0 < r" "r \<le> P"
    | (ind2) r where "n = 12 + P + r" "0 < r" "r \<le> P ^ 2"
    | (ind3) r where "n = 12 + P + P ^ 2 + r" "0 < r"
    using that(1) that(2) [of "n - 12"] that(3) [of "n - 12 - P"] that(4) [of "n - 12 - P - P ^ 2"]
    by linarith
  then have "Inode_Get_Data_Adressess fs sc ino sz =
    (if n \<le> max_file_blocks sc then Some (map (file_block fs sc ino) [0..<n] @ [0]) else None)"
  proof cases
    case direct
    then show ?thesis
      by (simp add: unf blocks)
  next
    case (ind1 r)
    then show ?thesis using read [of 1 r] upt_split [of 0 12 "12 + r"]
      by (simp add: unf blocks P_def [symmetric] del: ind_block.simps One_nat_def inode_off.simps)
  next
    case (ind2 r)
    then show ?thesis
      using read [of 1 P] read [of 2 r] upt_split [of 0 12 "12 + P + r"] upt_split [of 12 "12 + P" "12 + P + r"]
      by (simp add: unf blocks P_def [symmetric] del: ind_block.simps One_nat_def inode_off.simps)
  next
    case (ind3 r)
    then show ?thesis
      using read [of 1 P] read [of 2 "P ^ 2"] read [of 3 r] upt_split [of 0 12 n] upt_split [of 12 "12 + P" n]
        upt_split [of "12 + P" "12 + P + P ^ 2" n]
      by (simp add: unf blocks P_def [symmetric] del: ind_block.simps One_nat_def inode_off.simps)
  qed
  then show ?thesis by (simp add: n_def Let_def)
qed

section \<open>Inode numbers\<close>

lemma inode_number_split:
  assumes "n \<noteq> 0"
  shows "unat n = unat (Inode_locateGroup sc n) * unat (INODES_PER_GROUP sc) +
    unat (Inode_getLocalIndex sc n) + 1"
proof -
  have "unat n = unat (n - 1) + 1"
    using assms by (metis Suc_eq_plus1 unat_minus_one Suc_pred' unat_gt_0)
  moreover have "unat (n - 1) = unat ((n - 1) div INODES_PER_GROUP sc) * unat (INODES_PER_GROUP sc) +
      unat ((n - 1) mod INODES_PER_GROUP sc)"
    by (simp add: unat_div_distrib unat_mod_distrib)
  ultimately show ?thesis by (simp add: Inode_locateGroup_def Inode_getLocalIndex_def)
qed

lemma local_index_bound: "INODES_PER_GROUP sc \<noteq> 0 \<Longrightarrow> Inode_getLocalIndex sc n < INODES_PER_GROUP sc"
  by (simp add: Inode_getLocalIndex_def word_mod_less_divisor word_greater_zero_iff)

lemma Inode_Global_Read_addr:
  assumes "Inode_locateGroup sc n < TOTAL_GROUPS sc"
  shows "Inode_Global_Read fs sc n = Some (block_addr sc
      (load32 fs (unat (GDT_START sc) + 32 * unat (Inode_locateGroup sc n) + 8)) +
      128 * unat (Inode_getLocalIndex sc n))"
  using assms by (simp add: Inode_Global_Read_def Inode_Local_Read_def Inode_readTable_def
      Group_Descriptor_read_def block_addr_def sizeof_inode_def sizeof_Group_Descriptor_def)

section \<open>Powers\<close>

lemma is_Power_squares: "2 \<le> base \<Longrightarrow> is_Power number base = Some (\<exists>k. number = base ^ (2 ^ k))"
proof (induction number base rule: is_Power.induct)
  case (1 number base)
  show ?case
  proof (cases "base < number")
    case True
    have "is_Power number (base * base) = Some (\<exists>k. number = (base * base) ^ (2 ^ k))"
      using "1.IH" True "1.prems" mult_le_mono [of 2 base 2 base] by simp
    moreover have "(\<exists>k. number = (base * base) ^ (2 ^ k)) \<longleftrightarrow> (\<exists>k. number = base ^ (2 ^ k))"
    proof
      assume "\<exists>k. number = (base * base) ^ (2 ^ k)"
      then obtain k where "number = base ^ (2 ^ Suc k)"
        by (auto simp: power_mult power2_eq_square)
      then show "\<exists>k. number = base ^ (2 ^ k)" by blast
    next
      assume "\<exists>k. number = base ^ (2 ^ k)"
      then obtain k where k: "number = base ^ (2 ^ k)" by blast
      with True obtain j where "k = Suc j" by (cases k) auto
      with k have "number = (base * base) ^ (2 ^ j)" by (simp add: power_mult power2_eq_square)
      then show "\<exists>k. number = (base * base) ^ (2 ^ k)" by blast
    qed
    ultimately show ?thesis using True "1.prems" by (simp add: is_Power.simps [of number base])
  next
    case False
    have "number = base ^ (2 ^ k) \<Longrightarrow> base = number" for k
    proof -
      assume "number = base ^ (2 ^ k)"
      then have "base ^ (2 ^ k) \<le> base ^ 1" using False by simp
      then have "(2 :: nat) ^ k \<le> 1" using "1.prems" by (subst (asm) power_increasing_iff) auto
      then have "k = 0" using one_less_power [of "2 :: nat" k] by (cases "k = 0") auto
      with \<open>number = base ^ (2 ^ k)\<close> show "base = number" by simp
    qed
    moreover have "base = number \<Longrightarrow> \<exists>k. number = base ^ (2 ^ k)"
      by (rule exI [of _ 0]) simp
    ultimately show ?thesis using False by (auto simp: is_Power.simps [of number base])
  qed
qed

section \<open>Allocation in one group\<close>

definition group_bitmap :: "mem \<Rightarrow> Superblock_constants \<Rightarrow> Group_Descriptor_t \<Rightarrow> nat \<Rightarrow> t_bitarray" where
  "group_bitmap fs sc field gd =
     bitarray_create (unat (load32 fs (gd + Group_Descriptor_off field) * BLOCK_SIZE sc)) (unat (BLOCK_SIZE sc))"

definition free_bits :: "t_bitarray \<Rightarrow> mem \<Rightarrow> nat \<Rightarrow> nat list" where
  "free_bits bm fs limit = filter (\<lambda>j. \<not> bitarray_test_bit bm fs j) [0..<limit]"

lemma free_blocks_in_group:
  fixes fs :: mem and sc :: Superblock_constants and gd n :: nat
  defines "bm \<equiv> group_bitmap fs sc GD_BITMAP_BLOCK_ADDRESS gd"
    and "limit \<equiv> unat (BLOCKS_PER_GROUP sc)"
    and "r \<equiv> Get_Free_Blocks_In_Group fs sc n gd"
  shows "fst r = pad_zeros n (map (\<lambda>var. of_nat var + (Group_Number fs sc gd * BLOCKS_PER_GROUP sc + 1))
      (take n (free_bits bm fs limit)))"
    and "bitarray_test_bit bm (snd r) j \<longleftrightarrow> bitarray_test_bit bm fs j \<or> j \<in> set (take n (free_bits bm fs limit))"
    and "limit \<le> 8 * unat (BLOCK_SIZE sc) \<Longrightarrow> disj_range (bitarray bm) (unat (BLOCK_SIZE sc)) x 1 \<Longrightarrow> snd r x = fs x"
proof -
  let ?scan = "scan_free_bits (bitarray_test_bit bm) (bitarray_set_bit bm) n 0 limit fs"
  have r: "r = (pad_zeros n (map (\<lambda>var. of_nat var + (Group_Number fs sc gd * BLOCKS_PER_GROUP sc + 1))
      (fst ?scan)), snd ?scan)"
    by (simp add: r_def Get_Free_Blocks_In_Group_def bm_def group_bitmap_def limit_def case_prod_beta Let_def)
  show "fst r = pad_zeros n (map (\<lambda>var. of_nat var + (Group_Number fs sc gd * BLOCKS_PER_GROUP sc + 1))
      (take n (free_bits bm fs limit)))"
    by (simp add: r bits.scan_got free_bits_def)
  show "bitarray_test_bit bm (snd r) j \<longleftrightarrow> bitarray_test_bit bm fs j \<or> j \<in> set (take n (free_bits bm fs limit))"
    by (simp add: r bits.scan_marks bits.scan_got free_bits_def)
  show "snd r x = fs x" if "limit \<le> 8 * unat (BLOCK_SIZE sc)" "disj_range (bitarray bm) (unat (BLOCK_SIZE sc)) x 1"
    unfolding r snd_conv
  proof (rule scan_invariant [where P = "\<lambda>m. m x = fs x"])
    fix m i assume "m x = fs x" "i < limit"
    with that show "bitarray_set_bit bm m i x = fs x"
      by (subst bitarray_frame) (auto simp: disj_range_def)
  qed simp
qed

lemma length_pad_zeros: "length xs \<le> n \<Longrightarrow> length (pad_zeros n xs) = n"
  by (simp add: pad_zeros_def)

lemma inj_on_of_nat_plus: "inj_on (\<lambda>var. of_nat var + (c :: u32)) {..<2 ^ 32}"
proof (rule inj_onI)
  fix x y :: nat
  assume "x \<in> {..<2 ^ 32}" "y \<in> {..<2 ^ 32}" "of_nat x + c = of_nat y + c"
  then have "unat (of_nat x :: u32) = unat (of_nat y :: u32)" by simp
  with \<open>x \<in> _\<close> \<open>y \<in> _\<close> show "x = y" by (simp add: u_simps)
qed

section \<open>Properties\<close>

text \<open>The geometry of a file system with 1 KiB blocks and two groups, for examples.\<close>

definition small_fs :: Superblock_constants where
  "small_fs = \<lparr>TOTAL_NUMBER_INODES_FS = 64, TOTAL_NUMBER_BLOCKS_FS = 128, BLOCKS_PER_GROUP = 64,
     INODES_PER_GROUP = 32, BLOCK_SIZE = 1024, TOTAL_GROUPS = 2, GDT_START = 2048\<rparr>"

text \<open>
  C3: the walk over direct and indirect pointers returns, for every file size, exactly the
  blocks of the ext2 layout in order followed by the terminating 0, and \<open>NULL\<close> exactly
  when the file needs more blocks than three levels of indirection can hold.
\<close>

theorem data_addresses_walk:
  assumes "4 \<le> BLOCK_SIZE sc"
  shows "Inode_Get_Data_Adressess fs sc anInode sz =
    (let n = max 1 (Size_In_Blocks sc sz)
     in if n \<le> max_file_blocks sc then Some (map (file_block fs sc anInode) [0..<n] @ [0]) else None)"
proof -
  have "4 \<le> unat (BLOCK_SIZE sc)" using assms by (simp add: word_le_nat_alt)
  then have "0 < ptrs_per_block sc" by (simp add: ptrs_per_block_def div_greater_zero_iff)
  then show ?thesis by (rule data_addresses_cases)
qed

lemma data_addresses_walk_witness:
  "4 \<le> BLOCK_SIZE small_fs \<and>
   Inode_Get_Data_Adressess (\<lambda>x. if x = 40 then 7 else if x = 44 then 9 else 0) small_fs 0 1500 = Some [7, 9, 0]"
proof -
  have bs: "4 \<le> BLOCK_SIZE small_fs" by (simp add: small_fs_def)
  have "Inode_Get_Data_Adressess (\<lambda>x. if x = 40 then 7 else if x = 44 then 9 else 0) small_fs 0 1500 = Some [7, 9, 0]"
    unfolding data_addresses_walk [OF bs]
    by (simp add: small_fs_def Size_In_Blocks_def max_file_blocks_def ptrs_per_block_def file_block_def load32_def
        load_bytes_def upt_rec Let_def)
  with bs show ?thesis by blast
qed

text \<open>
  An inode number other than 0 splits into its group and its index in the group and is
  determined by them, and its address is the index-th 128-byte slot of that group's table.
\<close>

theorem inode_number_addressing:
  assumes "n \<noteq> 0" and "INODES_PER_GROUP sc \<noteq> 0" and "Inode_locateGroup sc n < TOTAL_GROUPS sc"
  shows "unat n = unat (Inode_locateGroup sc n) * unat (INODES_PER_GROUP sc) + unat (Inode_getLocalIndex sc n) + 1 \<and>
    Inode_getLocalIndex sc n < INODES_PER_GROUP sc \<and>
    (\<exists>gd. Group_Descriptor_read sc (Inode_locateGroup sc n) = Some gd \<and>
      Inode_Global_Read fs sc n = Some (block_addr sc (load32 fs (gd + Group_Descriptor_off GD_START_INODE_TABLE)) +
        sizeof_inode * unat (Inode_getLocalIndex sc n)))"
  using inode_number_split [OF assms(1)] local_index_bound [OF assms(2)] assms(3)
  by (simp add: Inode_Global_Read_addr Group_Descriptor_read_def sizeof_Group_Descriptor_def sizeof_inode_def)

lemma inode_number_addressing_witness:
  "unat (35 :: u32) = unat (Inode_locateGroup small_fs 35) * 32 + unat (Inode_getLocalIndex small_fs 35) + 1 \<and>
   Inode_Global_Read (\<lambda>x. if x = 2088 then 5 else 0) small_fs 35 = Some (5 * 1024 + 128 * 2)"
proof -
  have h: "(35 :: u32) \<noteq> 0" "INODES_PER_GROUP small_fs \<noteq> 0" "Inode_locateGroup small_fs 35 < TOTAL_GROUPS small_fs"
    by (simp_all add: small_fs_def Inode_locateGroup_def)
  from inode_number_addressing [OF h, of "\<lambda>x. if x = 2088 then 5 else 0"] show ?thesis
    by (simp add: small_fs_def Group_Descriptor_read_def Inode_locateGroup_def Inode_getLocalIndex_def block_addr_def
        sizeof_inode_def sizeof_Group_Descriptor_def load32_def load_bytes_def upt_rec)
qed

text \<open>
  \<open>is_Power\<close> terminates for every base from 2 on and recognises exactly the numbers
  \<open>base ^ (2 ^ k)\<close>: it squares the base at each step, so 27 is not a power of 3 for it.
\<close>

theorem is_Power_recognises_iterated_squares:
  assumes "2 \<le> base"
  shows "is_Power number base = Some (\<exists>k. number = base ^ (2 ^ k))"
  using assms by (rule is_Power_squares)

lemma is_Power_recognises_iterated_squares_witness:
  "is_Power 81 3 = Some (\<exists>k. 81 = (3 :: nat) ^ (2 ^ k)) \<and> is_Power 81 3 = Some True \<and> is_Power 27 3 = Some False"
proof -
  have "is_Power 81 3 = Some (\<exists>k. 81 = (3 :: nat) ^ (2 ^ k))"
    by (rule is_Power_recognises_iterated_squares) simp
  then show ?thesis by (simp add: is_Power.simps)
qed

text \<open>
  Allocating in one group claims the first \<open>how_many\<close> clear bits of the group's block
  bitmap, in order, and returns their block numbers (0 for slots not found); the bits are
  set, no other bit changes, and no byte outside the bitmap block changes.
\<close>

theorem group_allocation:
  assumes "unat (BLOCKS_PER_GROUP sc) \<le> 8 * unat (BLOCK_SIZE sc)"
  shows "let bm = group_bitmap fs sc GD_BITMAP_BLOCK_ADDRESS gd;
             claimed = take n (free_bits bm fs (unat (BLOCKS_PER_GROUP sc)));
             (blocks, fs') = Get_Free_Blocks_In_Group fs sc n gd
         in blocks = pad_zeros n (map (\<lambda>var. of_nat var + (Group_Number fs sc gd * BLOCKS_PER_GROUP sc + 1)) claimed) \<and>
            (\<forall>j. bitarray_test_bit bm fs' j \<longleftrightarrow> bitarray_test_bit bm fs j \<or> j \<in> set claimed) \<and>
            (\<forall>x. fs' x \<noteq> fs x \<longrightarrow> bitarray bm \<le> x \<and> x < bitarray bm + unat (BLOCK_SIZE sc))"
  using free_blocks_in_group [where fs = fs and sc = sc and gd = gd and n = n] assms
  by (simp add: Let_def case_prod_beta disj_range_def) (meson not_less Suc_leI)

lemma group_allocation_witness:
  "unat (BLOCKS_PER_GROUP small_fs) \<le> 8 * unat (BLOCK_SIZE small_fs) \<and>
   fst (Get_Free_Blocks_In_Group (\<lambda>x. if x = 2048 then 3 else if x = 3072 then 5 else 0) small_fs 2 2048) = [2, 4]"
proof -
  have h: "unat (BLOCKS_PER_GROUP small_fs) \<le> 8 * unat (BLOCK_SIZE small_fs)" by (simp add: small_fs_def)
  let ?fs = "\<lambda>x. if x = 2048 then 3 else if x = 3072 then 5 else (0 :: u8)"
  have "fst (Get_Free_Blocks_In_Group ?fs small_fs 2 2048) =
      pad_zeros 2 (map (\<lambda>var. of_nat var + (Group_Number ?fs small_fs 2048 * BLOCKS_PER_GROUP small_fs + 1))
        (take 2 (free_bits (group_bitmap ?fs small_fs GD_BITMAP_BLOCK_ADDRESS 2048) ?fs (unat (BLOCKS_PER_GROUP small_fs)))))"
    using group_allocation [OF h, of ?fs 2048 2] by (simp add: Let_def case_prod_beta)
  also have "\<dots> = [2, 4]" by code_simp
  finally show ?thesis using h by blast
qed

end
