(* ===== verification/Collections.thy ===== *)
theory Collections
  imports Prelude
begin

text \<open>
  \<^verbatim>\<open>rfs/commons/collections/list.c\<close> and \<^verbatim>\<open>queue.c\<close>. A chain of \<open>t_link_element\<close> nodes is owned
  by one list only, so the chain from a node on is a HOL list and \<open>NULL\<close> is the empty one;
  \<open>elements_count\<close> is kept beside it, as in the source. An operation that dereferences
  \<open>NULL\<close> is \<open>None\<close>. The interface \<open>fifo\<close> is what the server's task queue relies on.
\<close>

section \<open>Linked lists\<close>

record 'a t_list =
  head :: "'a list"
  elements_count :: int

definition list_create :: "'a t_list" where
  "list_create = \<lparr>head = [], elements_count = 0\<rparr>"

definition list_get_element :: "'a t_list \<Rightarrow> int \<Rightarrow> 'a list" where
  "list_get_element self index =
     (if elements_count self > index \<and> index \<ge> 0 then drop (nat index) (head self) else [])"

definition list_add :: "'a t_list \<Rightarrow> 'a \<Rightarrow> int \<times> 'a t_list" where
  "list_add self data =
     (let self' =
        (if elements_count self = 0 then self\<lparr>head := [data]\<rparr>
         else (case list_get_element self (elements_count self - 1) of
            [] \<Rightarrow> self
          | _ # _ \<Rightarrow> self\<lparr>head := take (nat (elements_count self)) (head self) @ [data]\<rparr>));
        n = elements_count self + 1
      in (n - 1, self'\<lparr>elements_count := n\<rparr>))"

definition list_get :: "'a t_list \<Rightarrow> int \<Rightarrow> 'a option" where
  "list_get self index = (case list_get_element self index of [] \<Rightarrow> None | x # _ \<Rightarrow> Some x)"

definition list_add_in_index :: "'a t_list \<Rightarrow> int \<Rightarrow> 'a \<Rightarrow> 'a t_list" where
  "list_add_in_index self index data =
     (if elements_count self > index \<and> index \<ge> 0 then
        (if index = 0 then self\<lparr>head := data # head self\<rparr>
         else let next = list_get_element self index; previous = list_get_element self (index - 1)
           in case previous of
                [] \<Rightarrow> self
              | _ # _ \<Rightarrow> self\<lparr>head := take (nat index) (head self) @ data # next\<rparr>)
        \<lparr>elements_count := elements_count self + 1\<rparr>
      else self)"

definition list_replace :: "'a t_list \<Rightarrow> int \<Rightarrow> 'a \<Rightarrow> 'a option \<times> 'a t_list" where
  "list_replace self index data = (case list_get_element self index of
     [] \<Rightarrow> (None, self)
   | old_data # _ \<Rightarrow> (Some old_data, self\<lparr>head := (head self)[nat index := data]\<rparr>))"

fun list_find_element_from :: "nat \<Rightarrow> 'a list \<Rightarrow> ('a \<Rightarrow> bool) \<Rightarrow> nat \<times> 'a list" where
  "list_find_element_from position [] condition = (position, [])"
| "list_find_element_from position (x # xs) condition =
     (if \<not> condition x then list_find_element_from (Suc position) xs condition else (position, x # xs))"

definition list_find_element :: "'a t_list \<Rightarrow> ('a \<Rightarrow> bool) \<Rightarrow> nat \<times> 'a list" where
  "list_find_element self condition = list_find_element_from 0 (head self) condition"

definition list_find :: "'a t_list \<Rightarrow> ('a \<Rightarrow> bool) \<Rightarrow> 'a option" where
  "list_find self condition = (case snd (list_find_element self condition) of [] \<Rightarrow> None | x # _ \<Rightarrow> Some x)"

definition list_iterate :: "'a t_list \<Rightarrow> ('a \<Rightarrow> 's \<Rightarrow> 's) \<Rightarrow> 's \<Rightarrow> 's" where
  "list_iterate self closure s = fold closure (head self) s"

text \<open>Removing at an index that holds no element dereferences \<open>NULL\<close>.\<close>

definition list_remove :: "'a t_list \<Rightarrow> int \<Rightarrow> ('a option \<times> 'a t_list) option" where
  "list_remove self index =
     (if head self = [] then Some (None, self)
      else case list_get_element self index of
        [] \<Rightarrow> None
      | data # aux_next \<Rightarrow>
          Some (Some data,
            (if index = 0 then self\<lparr>head := aux_next\<rparr>
             else self\<lparr>head := take (nat index) (head self) @ aux_next\<rparr>)
            \<lparr>elements_count := elements_count self - 1\<rparr>))"

definition list_remove_by_condition :: "'a t_list \<Rightarrow> ('a \<Rightarrow> bool) \<Rightarrow> ('a option \<times> 'a t_list) option" where
  "list_remove_by_condition self condition =
     (let (index, element) = list_find_element self condition
      in if element \<noteq> [] then list_remove self (int index) else Some (None, self))"

definition list_size :: "'a t_list \<Rightarrow> int" where
  "list_size self = elements_count self"

definition list_is_empty :: "'a t_list \<Rightarrow> bool" where
  "list_is_empty self \<longleftrightarrow> list_size self = 0"

definition list_clean :: "'a t_list \<Rightarrow> 'a t_list" where
  "list_clean self = self\<lparr>head := [], elements_count := 0\<rparr>"

fun list_take_from :: "'a t_list \<Rightarrow> 'a option t_list \<Rightarrow> nat \<Rightarrow> nat \<Rightarrow> 'a option t_list" where
  "list_take_from self sub i 0 = sub"
| "list_take_from self sub i (Suc k) =
     list_take_from self (snd (list_add sub (list_get self (int i)))) (Suc i) k"

definition list_take :: "'a t_list \<Rightarrow> nat \<Rightarrow> 'a option t_list" where
  "list_take self count = list_take_from self list_create 0 count"

fun list_take_and_remove_from ::
  "'a t_list \<Rightarrow> 'a option t_list \<Rightarrow> nat \<Rightarrow> ('a option t_list \<times> 'a t_list) option" where
  "list_take_and_remove_from self sub 0 = Some (sub, self)"
| "list_take_and_remove_from self sub (Suc k) =
     (case list_remove self 0 of
        None \<Rightarrow> None
      | Some (element, self') \<Rightarrow> list_take_and_remove_from self' (snd (list_add sub element)) k)"

definition list_take_and_remove :: "'a t_list \<Rightarrow> nat \<Rightarrow> ('a option t_list \<times> 'a t_list) option" where
  "list_take_and_remove self count = list_take_and_remove_from self list_create count"

definition list_filter :: "'a t_list \<Rightarrow> ('a \<Rightarrow> bool) \<Rightarrow> 'a t_list" where
  "list_filter self condition =
     list_iterate self (\<lambda>element filtered. if condition element then snd (list_add filtered element) else filtered)
       list_create"

definition list_map :: "'a t_list \<Rightarrow> ('a \<Rightarrow> 'b) \<Rightarrow> 'b t_list" where
  "list_map self transformer =
     list_iterate self (\<lambda>element mapped. snd (list_add mapped (transformer element))) list_create"

section \<open>Queues\<close>

record 'a t_queue =
  elements :: "'a t_list"

definition queue_create :: "'a t_queue" where
  "queue_create = \<lparr>elements = list_create\<rparr>"

definition queue_push :: "'a t_queue \<Rightarrow> 'a \<Rightarrow> 'a t_queue" where
  "queue_push self element = self\<lparr>elements := snd (list_add (elements self) element)\<rparr>"

definition queue_pop :: "'a t_queue \<Rightarrow> ('a option \<times> 'a t_queue) option" where
  "queue_pop self = (case list_remove (elements self) 0 of
     None \<Rightarrow> None
   | Some (x, l) \<Rightarrow> Some (x, self\<lparr>elements := l\<rparr>))"

definition queue_peek :: "'a t_queue \<Rightarrow> 'a option" where
  "queue_peek self = list_get (elements self) 0"

definition queue_size :: "'a t_queue \<Rightarrow> int" where
  "queue_size self = list_size (elements self)"

definition queue_is_empty :: "'a t_queue \<Rightarrow> bool" where
  "queue_is_empty self \<longleftrightarrow> list_is_empty (elements self)"

definition queue_clean :: "'a t_queue \<Rightarrow> 'a t_queue" where
  "queue_clean self = self\<lparr>elements := list_clean (elements self)\<rparr>"

section \<open>Representation invariant and refinement to HOL lists\<close>

definition list_ok :: "'a t_list \<Rightarrow> bool" where
  "list_ok l \<longleftrightarrow> elements_count l = int (length (head l))"

named_theorems list_refine \<open>list operations under the representation invariant\<close>

lemma list_create_refine [list_refine]: "list_ok list_create" "head list_create = []"
  by (simp_all add: list_ok_def list_create_def)

lemma get_element_refine [list_refine]:
  "list_ok l \<Longrightarrow> list_get_element l (int i) = drop i (head l)"
  by (auto simp: list_get_element_def list_ok_def)

lemma list_add_refine [list_refine]:
  assumes "list_ok l"
  shows "list_ok (snd (list_add l x))" "head (snd (list_add l x)) = head l @ [x]"
    "fst (list_add l x) = int (length (head l))"
proof (atomize (full), cases "head l" rule: rev_cases)
  case (snoc ys y)
  then have "list_get_element l (elements_count l - 1) = [y]"
    using assms by (simp add: list_get_element_def list_ok_def nat_add_distrib)
  with assms snoc show "list_ok (snd (list_add l x)) \<and> head (snd (list_add l x)) = head l @ [x] \<and>
      fst (list_add l x) = int (length (head l))"
    by (simp add: list_add_def list_ok_def Let_def)
qed (use assms in \<open>simp add: list_add_def list_ok_def\<close>)

lemma list_get_refine [list_refine]:
  "list_ok l \<Longrightarrow> list_get l (int i) = (if i < length (head l) then Some (head l ! i) else None)"
  by (simp add: list_get_def get_element_refine split: list.splits)
    (metis drop_eq_Nil hd_drop_conv_nth leI list.sel(1) not_Cons_self2 list.distinct(1))

lemma find_element_from:
  "list_find_element_from k xs P =
     (k + length (takeWhile (\<lambda>x. \<not> P x) xs), dropWhile (\<lambda>x. \<not> P x) xs)"
  by (induction xs arbitrary: k) auto

lemma list_find_refine [list_refine]: "list_find l P = List.find P (head l)"
  by (simp add: list_find_def list_find_element_def find_element_from find_dropWhile comp_def)

lemma list_remove_refine [list_refine]:
  assumes "list_ok l" and "i < length (head l)"
  shows "\<exists>l'. list_remove l (int i) = Some (Some (head l ! i), l') \<and> list_ok l' \<and>
    head l' = take i (head l) @ drop (Suc i) (head l)"
proof -
  have "list_get_element l (int i) = head l ! i # drop (Suc i) (head l)"
    using assms by (simp add: get_element_refine Cons_nth_drop_Suc)
  then show ?thesis using assms by (auto simp: list_remove_def list_ok_def)
qed

lemma list_remove_nil: "head l = [] \<Longrightarrow> list_remove l i = Some (None, l)"
  by (simp add: list_remove_def)

lemma list_remove_out_of_range:
  "list_ok l \<Longrightarrow> head l \<noteq> [] \<Longrightarrow> length (head l) \<le> i \<Longrightarrow> list_remove l (int i) = None"
  by (simp add: list_remove_def get_element_refine)

text \<open>Removing by condition drops the first matching element, if there is one.\<close>

fun remove_first :: "('a \<Rightarrow> bool) \<Rightarrow> 'a list \<Rightarrow> 'a list" where
  "remove_first P [] = []"
| "remove_first P (x # xs) = (if P x then xs else x # remove_first P xs)"

lemma remove_first_none: "\<forall>x \<in> set xs. \<not> P x \<Longrightarrow> remove_first P xs = xs"
  by (induction xs) auto

lemma remove_first_append:
  "remove_first P xs =
     (let n = length (takeWhile (\<lambda>x. \<not> P x) xs) in take n xs @ drop (Suc n) xs)"
  by (induction xs) (auto simp: Let_def)

lemma find_position:
  "\<exists>x \<in> set xs. P x \<Longrightarrow>
   length (takeWhile (\<lambda>x. \<not> P x) xs) < length xs \<and>
   List.find P xs = Some (xs ! length (takeWhile (\<lambda>x. \<not> P x) xs))"
  by (induction xs) auto

lemma list_remove_by_condition_refine [list_refine]:
  assumes "list_ok l"
  shows "\<exists>l'. list_remove_by_condition l P = Some (List.find P (head l), l') \<and> list_ok l' \<and>
    head l' = remove_first P (head l)"
proof (cases "\<exists>x \<in> set (head l). P x")
  case True
  note pos = find_position [OF True]
  then show ?thesis
    using list_remove_refine [OF assms conjunct1 [OF pos]] True
    by (auto simp: list_remove_by_condition_def list_find_element_def find_element_from remove_first_append Let_def)
next
  case False
  then have "remove_first P (head l) = head l"
    by (auto intro: remove_first_none)
  moreover have "dropWhile (\<lambda>x. \<not> P x) (head l) = []" "List.find P (head l) = None"
    using False by (auto simp: find_None_iff)
  ultimately show ?thesis using assms
    by (simp add: list_remove_by_condition_def list_find_element_def find_element_from)
qed

section \<open>The FIFO interface\<close>

locale fifo =
  fixes create :: 'q
    and push :: "'q \<Rightarrow> 'a \<Rightarrow> 'q"
    and pop :: "'q \<Rightarrow> ('a option \<times> 'q) option"
    and contents :: "'q \<Rightarrow> 'a list"
    and inv :: "'q \<Rightarrow> bool"
  assumes create_ok: "inv create" "contents create = []"
    and push_ok: "inv q \<Longrightarrow> inv (push q x)" "inv q \<Longrightarrow> contents (push q x) = contents q @ [x]"
    and pop_Cons: "inv q \<Longrightarrow> contents q = x # xs \<Longrightarrow>
      \<exists>q'. pop q = Some (Some x, q') \<and> inv q' \<and> contents q' = xs"
    and pop_Nil: "inv q \<Longrightarrow> contents q = [] \<Longrightarrow> pop q = Some (None, q)"
begin

lemma push_all: "inv q \<Longrightarrow> inv (foldl push q xs) \<and> contents (foldl push q xs) = contents q @ xs"
  by (induction xs arbitrary: q) (auto simp: push_ok)

lemma pop_total: "inv q \<Longrightarrow> \<exists>x q'. pop q = Some (x, q') \<and> inv q'"
  using pop_Cons pop_Nil by (cases "contents q") blast+

lemma pop_first_pushed:
  assumes "inv q" and "contents q = []"
  shows "\<exists>q'. pop (foldl push q (x # xs)) = Some (Some x, q') \<and> inv q' \<and> contents q' = xs"
  using assms push_all [of q "x # xs"] pop_Cons [of "foldl push q (x # xs)" x xs] by simp

end

definition queue_contents :: "'a t_queue \<Rightarrow> 'a list" where
  "queue_contents q = head (elements q)"

definition queue_ok :: "'a t_queue \<Rightarrow> bool" where
  "queue_ok q \<longleftrightarrow> list_ok (elements q)"

interpretation q: fifo queue_create queue_push queue_pop queue_contents queue_ok
proof unfold_locales
  fix q :: "'a t_queue" and x xs
  assume "queue_ok q" and c: "queue_contents q = x # xs"
  then have "list_ok (elements q)" and h: "head (elements q) = x # xs"
    by (auto simp: queue_ok_def queue_contents_def)
  with list_remove_refine [of "elements q" 0]
  show "\<exists>q'. queue_pop q = Some (Some x, q') \<and> queue_ok q' \<and> queue_contents q' = xs"
    by (auto simp: queue_pop_def queue_ok_def queue_contents_def)
qed (simp_all add: queue_create_def queue_push_def queue_pop_def queue_ok_def queue_contents_def
    list_refine list_remove_nil)

section \<open>Properties\<close>

text \<open>
  Each list operation implements its counterpart on sequences and keeps the element
  counter equal to the length of the chain: adding appends and returns the position, getting
  reads an index or yields \<open>NULL\<close> out of range, finding returns the first match, removing by
  condition deletes the first match only.
\<close>

theorem list_refines_sequence:
  assumes "list_ok l"
  shows "head (snd (list_add l x)) = head l @ [x] \<and> list_ok (snd (list_add l x)) \<and>
      fst (list_add l x) = int (length (head l)) \<and>
    list_get l (int i) = (if i < length (head l) then Some (head l ! i) else None) \<and>
    list_find l P = List.find P (head l) \<and>
    (\<exists>l'. list_remove_by_condition l P = Some (List.find P (head l), l') \<and> list_ok l' \<and>
      head l' = remove_first P (head l))"
  using assms by (simp add: list_refine)

lemma list_refines_sequence_witness:
  "list_ok \<lparr>head = [3, 5 :: nat], elements_count = 2\<rparr> \<and>
   list_get \<lparr>head = [3, 5 :: nat], elements_count = 2\<rparr> 1 = Some 5 \<and>
   head (snd (list_add \<lparr>head = [3, 5 :: nat], elements_count = 2\<rparr> 8)) = [3, 5, 8]"
proof -
  have h: "list_ok \<lparr>head = [3, 5 :: nat], elements_count = 2\<rparr>" by (simp add: list_ok_def)
  from list_refines_sequence [OF h, of 8 1 "\<lambda>_. True"] h show ?thesis by simp
qed

text \<open>
  The queue is first in, first out: popping after pushing a sequence into an empty queue
  returns the first element pushed and leaves the others in order, and popping an empty
  queue returns \<open>NULL\<close> and leaves it empty.
\<close>

theorem queue_first_in_first_out:
  "(\<exists>q'. queue_pop (foldl queue_push queue_create (x # xs)) = Some (Some x, q') \<and>
      queue_ok q' \<and> queue_contents q' = xs) \<and>
   queue_pop queue_create = Some (None, queue_create)"
  using q.pop_first_pushed [OF q.create_ok] q.pop_Nil [OF q.create_ok] by auto

end
