(* ===== verification/Server.thy ===== *)
theory Server
  imports Ext2 Collections Strings
begin

text \<open>
  \<^verbatim>\<open>rfs/headers_RFS/server_threading.h\<close> and \<^verbatim>\<open>rfs/source_RFS/server_threading.c\<close>: the state of
  the server, its counters, read-write locks, active files and task queue, and the block and
  inode allocators over all groups. One operation runs at a time in the model. \<open>None\<close> is an
  execution that C or POSIX leaves undefined or that never returns: a null or dangling
  pointer, reading past known memory, unlocking a lock that is not held, taking a lock that
  is held. Mutexes only protect regions inside one of these functions and are left out.
\<close>

section \<open>State\<close>

text \<open>The values of \<open>errno\<close> the server uses (Linux numbers).\<close>

type_synonym errno_t = u32

abbreviation (input) EPERM :: errno_t where "EPERM \<equiv> 1"
abbreviation (input) ENOENT :: errno_t where "ENOENT \<equiv> 2"
abbreviation (input) EEXIST :: errno_t where "EEXIST \<equiv> 17"
abbreviation (input) ENOTDIR :: errno_t where "ENOTDIR \<equiv> 20"
abbreviation (input) ENOSPC :: errno_t where "ENOSPC \<equiv> 28"
abbreviation (input) ENAMETOOLONG :: errno_t where "ENAMETOOLONG \<equiv> 36"
abbreviation (input) ENOTEMPTY :: errno_t where "ENOTEMPTY \<equiv> 39"
abbreviation (input) ECANCELED :: errno_t where "ECANCELED \<equiv> 125"

record rwlock_t =
  readers :: nat
  writer :: bool

record active_file_t =
  rwlock :: rwlock_t
  is_working :: u32
  af_path :: string

record sync_counter_t =
  counter_value :: u64

record s_Mapped_File_t =
  fs_file :: mem
  active_file_list :: "active_file_t t_list"
  fs_sleep :: sync_counter_t
  writes_to_sync :: sync_counter_t

text \<open>
  The struct extended by the globals and the environment of the process: the superblock
  constants and the flag that they are set, \<open>errno\<close>, the image on disk that \<open>msync\<close>
  writes, the contents of the cache server behind \<open>memc\<close>, and the heap words that follow
  an array of the allocator (see \<open>CleanBlocks\<close>).
\<close>

record 'c server = s_Mapped_File_t +
  Super_constants :: Superblock_constants
  super_set :: bool
  errno :: errno_t
  disk :: mem
  memc :: 'c
  heap_after :: "u32 list"

section \<open>Counters\<close>

definition set_counter :: "sync_counter_t \<Rightarrow> u64 \<Rightarrow> sync_counter_t" where
  "set_counter wcounter new_value = wcounter\<lparr>counter_value := new_value\<rparr>"

definition update_counter :: "sync_counter_t \<Rightarrow> sync_counter_t" where
  "update_counter wcounter = wcounter\<lparr>counter_value := counter_value wcounter + 1\<rparr>"

definition reset_counter :: "sync_counter_t \<Rightarrow> sync_counter_t" where
  "reset_counter wcounter = wcounter\<lparr>counter_value := 0\<rparr>"

definition read_counter :: "sync_counter_t \<Rightarrow> u64" where
  "read_counter wcounter = counter_value wcounter"

definition create_counter :: sync_counter_t where
  "create_counter = \<lparr>counter_value = 0\<rparr>"

text \<open>The argument of \<open>usleep\<close> (32 bits), if it is called.\<close>

definition thread_sleep :: "sync_counter_t \<Rightarrow> u32 option" where
  "thread_sleep sleep_value =
     (let val = read_counter sleep_value in if val \<noteq> 0 then Some (ucast (val * 1000)) else None)"

section \<open>Read-write locks\<close>

definition RDLOCK :: "rwlock_t \<Rightarrow> rwlock_t option" where
  "RDLOCK lock = (if writer lock then None else Some (lock\<lparr>readers := readers lock + 1\<rparr>))"

definition WRLOCK :: "rwlock_t \<Rightarrow> rwlock_t option" where
  "WRLOCK lock = (if writer lock \<or> 0 < readers lock then None else Some (lock\<lparr>writer := True\<rparr>))"

definition UNLOCK :: "rwlock_t \<Rightarrow> rwlock_t option" where
  "UNLOCK lock =
     (if writer lock then Some (lock\<lparr>writer := False\<rparr>)
      else if 0 < readers lock then Some (lock\<lparr>readers := readers lock - 1\<rparr>) else None)"

definition unlocked :: rwlock_t where
  "unlocked = \<lparr>readers = 0, writer = False\<rparr>"

section \<open>Active files\<close>

text \<open>
  A pointer to an active file is its path: the list never holds two elements with one path.
  Following a pointer whose element is no longer in the list is a use after free.
\<close>

fun upd_active :: "string \<Rightarrow> (active_file_t \<Rightarrow> active_file_t option) \<Rightarrow> active_file_t list \<Rightarrow> active_file_t list option" where
  "upd_active p f [] = None"
| "upd_active p f (a # as) =
     (if af_path a = p then map_option (\<lambda>b. b # as) (f a) else map_option (Cons a) (upd_active p f as))"

definition active_list_upd ::
  "active_file_t t_list \<Rightarrow> string \<Rightarrow> (active_file_t \<Rightarrow> active_file_t option) \<Rightarrow> active_file_t t_list option" where
  "active_list_upd afl p f = map_option (\<lambda>h. afl\<lparr>head := h\<rparr>) (upd_active p f (head afl))"

definition on_lock :: "(rwlock_t \<Rightarrow> rwlock_t option) \<Rightarrow> active_file_t \<Rightarrow> active_file_t option" where
  "on_lock g a = map_option (\<lambda>l. a\<lparr>rwlock := l\<rparr>) (g (rwlock a))"

definition active_file_list_create :: "active_file_t t_list" where
  "active_file_list_create = list_create"

definition active_file_create :: "string \<Rightarrow> active_file_t" where
  "active_file_create path = \<lparr>rwlock = unlocked, is_working = 1, af_path = path\<rparr>"

definition cmp_str :: "string \<Rightarrow> active_file_t \<Rightarrow> bool" where
  "cmp_str path elem \<longleftrightarrow>
     (if length path = length (af_path elem) then strncmp_eq path (af_path elem) (length path) else False)"

definition active_file_list_find :: "active_file_t t_list \<Rightarrow> string \<Rightarrow> active_file_t t_list option" where
  "active_file_list_find a_f_l path = (case list_find a_f_l (cmp_str path) of
     None \<Rightarrow> Some (snd (list_add a_f_l (active_file_create path)))
   | Some found \<Rightarrow> do {
       l1 \<leftarrow> active_list_upd a_f_l (af_path found) (on_lock WRLOCK);
       l2 \<leftarrow> active_list_upd l1 (af_path found) (\<lambda>a. Some (a\<lparr>is_working := is_working a + 1\<rparr>));
       active_list_upd l2 (af_path found) (on_lock UNLOCK) })"

definition active_file_list_remove_and_destroy_element ::
  "active_file_t t_list \<Rightarrow> string \<Rightarrow> active_file_t t_list option" where
  "active_file_list_remove_and_destroy_element a_f_l a_file =
     map_option snd (list_remove_by_condition a_f_l (\<lambda>elem. strncmp_eq a_file (af_path elem) (length a_file + 1)))"

definition active_file_finished_using :: "active_file_t t_list \<Rightarrow> string \<Rightarrow> active_file_t t_list option" where
  "active_file_finished_using a_f_l a_file = do {
     l1 \<leftarrow> active_list_upd a_f_l a_file (on_lock WRLOCK);
     l2 \<leftarrow> active_list_upd l1 a_file (\<lambda>a. Some (a\<lparr>is_working := is_working a - 1\<rparr>));
     l3 \<leftarrow> active_list_upd l2 a_file (on_lock UNLOCK);
     a \<leftarrow> List.find (\<lambda>a. af_path a = a_file) (head l3);
     if is_working a = 0 then active_file_list_remove_and_destroy_element l3 a_file else Some l3 }"

text \<open>The same operations on the server state.\<close>

definition st_find :: "'c server \<Rightarrow> string \<Rightarrow> 'c server option" where
  "st_find st path = map_option (\<lambda>l. st\<lparr>active_file_list := l\<rparr>) (active_file_list_find (active_file_list st) path)"

definition st_finished :: "'c server \<Rightarrow> string \<Rightarrow> 'c server option" where
  "st_finished st path = map_option (\<lambda>l. st\<lparr>active_file_list := l\<rparr>) (active_file_finished_using (active_file_list st) path)"

definition st_lock :: "(rwlock_t \<Rightarrow> rwlock_t option) \<Rightarrow> 'c server \<Rightarrow> string \<Rightarrow> 'c server option" where
  "st_lock g st path = map_option (\<lambda>l. st\<lparr>active_file_list := l\<rparr>) (active_list_upd (active_file_list st) path (on_lock g))"

section \<open>The task queue\<close>

record 'a s_queue_t =
  squeue :: "'a t_queue"
  available_elements :: nat

definition s_queue_create :: "'a s_queue_t" where
  "s_queue_create = \<lparr>squeue = queue_create, available_elements = 0\<rparr>"

definition s_queue_push :: "'a s_queue_t \<Rightarrow> 'a \<Rightarrow> 'a s_queue_t" where
  "s_queue_push s_queue element =
     s_queue\<lparr>squeue := queue_push (squeue s_queue) element, available_elements := available_elements s_queue + 1\<rparr>"

text \<open>\<open>None\<close>: the caller waits on the semaphore.\<close>

definition s_queue_pop :: "'a s_queue_t \<Rightarrow> ('a option \<times> 'a s_queue_t) option" where
  "s_queue_pop s_queue =
     (if available_elements s_queue = 0 then None
      else case queue_pop (squeue s_queue) of
        None \<Rightarrow> None
      | Some (elem, q') \<Rightarrow>
          Some (elem, s_queue\<lparr>squeue := q', available_elements := available_elements s_queue - 1\<rparr>))"

section \<open>Start-up and background threads\<close>

definition s_Mapped_File_init :: "mem \<Rightarrow> 'c \<Rightarrow> u32 list \<Rightarrow> bool \<times> Superblock_constants \<Rightarrow> 'c server" where
  "s_Mapped_File_init fs memc0 heap0 consts =
     (let (superblock, set', sc) = SuperBlock_read fs consts
      in \<lparr>fs_file = fs, active_file_list = active_file_list_create, fs_sleep = create_counter,
          writes_to_sync = create_counter, Super_constants = sc, super_set = set', errno = 0,
          disk = fs, memc = memc0, heap_after = heap0\<rparr>)"

definition WRITES_TO_SYNC :: u64 where
  "WRITES_TO_SYNC = 8 * 1024"

text \<open>One round of the endless loop of \<open>syncer\<close>, after its \<open>sleep(10)\<close>.\<close>

definition syncer :: "'c server \<Rightarrow> 'c server" where
  "syncer st =
     (if read_counter (writes_to_sync st) \<ge> WRITES_TO_SYNC
      then st\<lparr>disk := fs_file st, writes_to_sync := reset_counter (writes_to_sync st)\<rparr> else st)"

text \<open>One \<open>IN_MODIFY\<close> event of \<open>th_inotify\<close>: \<open>old_value\<close> is its static variable, \<open>new_value\<close> what
  the configuration file says now.\<close>

definition th_inotify :: "u64 \<Rightarrow> u64 \<Rightarrow> 'c server \<Rightarrow> u64 \<times> 'c server" where
  "th_inotify old_value new_value st =
     (if new_value \<noteq> old_value then (new_value, st\<lparr>fs_sleep := set_counter (fs_sleep st) new_value\<rparr>)
      else (old_value, st))"

section \<open>Allocation over all groups\<close>

text \<open>
  \<open>CleanBlocks\<close> stops when the word after the current one is 0, so it never clears the last
  block of the array and its test reads the heap after the array: \<open>blocks_indexes\<close> here is
  the array followed by those heap words. Running past the known words is \<open>None\<close>.
\<close>

fun CleanBlocks :: "mem \<Rightarrow> Superblock_constants \<Rightarrow> u32 list \<Rightarrow> mem option" where
  "CleanBlocks fs sc (b # b' # bs) =
     (if b' \<noteq> 0 then CleanBlocks (memset fs (block_addr sc b) 0 (unat (BLOCK_SIZE sc))) sc (b' # bs)
      else Some fs)"
| "CleanBlocks fs sc _ = None"

definition copy_words :: "u32 list \<Rightarrow> nat \<Rightarrow> u32 list \<Rightarrow> nat \<Rightarrow> u32 list option" where
  \<comment> \<open>\<open>memcpy(&dst[i], src, n * sizeof(uint32_t))\<close>\<close>
  "copy_words dst i src n =
     (if i + n \<le> length dst \<and> n \<le> length src then Some (take i dst @ take n src @ drop (i + n) dst) else None)"

fun Get_Free_Blocks_loop ::
  "mem \<Rightarrow> Superblock_constants \<Rightarrow> nat list \<Rightarrow> u32 \<Rightarrow> nat \<Rightarrow> u32 list \<Rightarrow> (u32 list \<times> mem) option" where
  "Get_Free_Blocks_loop fs sc [] how_many mem_index blocks_to_return = Some (blocks_to_return, fs)"
| "Get_Free_Blocks_loop fs sc (group_number # groups) how_many mem_index blocks_to_return =
     (if how_many = 0 then Some (blocks_to_return, fs)
      else do {
        gd \<leftarrow> Group_Descriptor_read sc (of_nat group_number);
        let unalloc = gd + Group_Descriptor_off GD_UNALLOCATED_BLOCKS;
        let un = load16 fs unalloc;
        if un = 0 then Get_Free_Blocks_loop fs sc groups how_many mem_index blocks_to_return
        else if how_many \<le> ucast un then do {
          let fs = store16 fs unalloc (ucast (ucast un - how_many));
          let (free_blocks, fs) = Get_Free_Blocks_In_Group fs sc (unat how_many) gd;
          ret \<leftarrow> copy_words blocks_to_return mem_index free_blocks (unat how_many);
          Get_Free_Blocks_loop fs sc groups 0 mem_index ret }
        else do {
          let how_many = how_many - ucast un;
          let (free_blocks, fs) = Get_Free_Blocks_In_Group fs sc (unat un) gd;
          ret \<leftarrow> copy_words blocks_to_return mem_index free_blocks (unat (load16 fs unalloc));
          let mem_index = mem_index + unat (load16 fs unalloc);
          let fs = store16 fs unalloc 0;
          Get_Free_Blocks_loop fs sc groups how_many mem_index ret } })"

definition superblock_field :: "SuperBlock_t \<Rightarrow> nat" where
  "superblock_field f = SUPERBLOCK_START + SuperBlock_off f"

definition st_SuperBlock_read :: "'c server \<Rightarrow> 'c server" where
  "st_SuperBlock_read st =
     (let (superblock, set', sc) = SuperBlock_read (fs_file st) (super_set st, Super_constants st)
      in st\<lparr>super_set := set', Super_constants := sc\<rparr>)"

definition Get_Free_Blocks :: "'c server \<Rightarrow> u32 \<Rightarrow> (u32 list option \<times> 'c server) option" where
  "Get_Free_Blocks st0 how_many =
     (let st = st_SuperBlock_read st0;
          sc = Super_constants st;
          total = superblock_field SB_TOTAL_UNALLOCATED_BLOCKS
      in if how_many > load32 (fs_file st) total then Some (None, st\<lparr>errno := ENOSPC\<rparr>)
         else do {
           let fs = store32 (fs_file st) total (load32 (fs_file st) total - how_many);
           (blocks, fs) \<leftarrow> Get_Free_Blocks_loop fs sc [0..<unat (TOTAL_GROUPS sc)] how_many 0 (replicate (unat how_many) 0);
           fs \<leftarrow> CleanBlocks fs sc (blocks @ heap_after st);
           Some (Some blocks, st\<lparr>fs_file := fs\<rparr>) })"

text \<open>
  The inode allocator. In the branch for a group that cannot satisfy the whole request the
  source has already zeroed the counter it then uses as the number of bytes to copy.
\<close>

fun Get_Free_Inodes_loop ::
  "mem \<Rightarrow> Superblock_constants \<Rightarrow> nat list \<Rightarrow> u32 \<Rightarrow> nat \<Rightarrow> u32 list \<Rightarrow> (u32 list \<times> mem) option" where
  "Get_Free_Inodes_loop fs sc [] how_many mem_index inodes_to_return = Some (inodes_to_return, fs)"
| "Get_Free_Inodes_loop fs sc (group_number # groups) how_many mem_index inodes_to_return =
     (if how_many = 0 then Some (inodes_to_return, fs)
      else do {
        gd \<leftarrow> Group_Descriptor_read sc (of_nat group_number);
        let unalloc = gd + Group_Descriptor_off GD_UNALLOCATED_INODES;
        let un = load16 fs unalloc;
        if how_many \<le> ucast un then do {
          let fs = store16 fs unalloc (ucast (ucast un - how_many));
          let (free_inodes, fs) = Get_Free_Inodes_In_Group fs sc (unat how_many) gd (of_nat group_number);
          ret \<leftarrow> copy_words inodes_to_return mem_index free_inodes (unat how_many);
          Get_Free_Inodes_loop fs sc groups 0 mem_index ret }
        else if un = 0 then Get_Free_Inodes_loop fs sc groups how_many mem_index inodes_to_return
        else do {
          let how_many = how_many - ucast un;
          let fs = store16 fs unalloc 0;
          let (free_inodes, fs) = Get_Free_Inodes_In_Group fs sc (unat how_many) gd (of_nat group_number);
          ret \<leftarrow> copy_words inodes_to_return mem_index free_inodes (unat (load16 fs unalloc) div 4);
          let mem_index = mem_index + unat (load16 fs unalloc);
          Get_Free_Inodes_loop fs sc groups how_many mem_index ret } })"

definition Get_Free_Inodes :: "'c server \<Rightarrow> u32 \<Rightarrow> (u32 list option \<times> 'c server) option" where
  "Get_Free_Inodes st0 how_many =
     (let st = st_SuperBlock_read st0;
          sc = Super_constants st;
          total = superblock_field SB_TOTAL_UNALLOCATED_INODES
      in if how_many > load32 (fs_file st) total then Some (None, st\<lparr>errno := ENOSPC\<rparr>)
         else do {
           let fs = store32 (fs_file st) total (load32 (fs_file st) total - how_many);
           (inodes, fs) \<leftarrow> Get_Free_Inodes_loop fs sc [0..<unat (TOTAL_GROUPS sc)] how_many 0 (replicate (unat how_many) 0);
           Some (Some inodes, st\<lparr>fs_file := fs\<rparr>) })"

definition setFreeBlockBitmap :: "'c server \<Rightarrow> u32 \<Rightarrow> 'c server option" where
  "setFreeBlockBitmap st block_number =
     (let sc = Super_constants st;
          group_number = (block_number - 1) div BLOCKS_PER_GROUP sc
      in do {
        gd \<leftarrow> Group_Descriptor_read sc group_number;
        let bitmap_addr = load32 (fs_file st) (gd + Group_Descriptor_off GD_BITMAP_BLOCK_ADDRESS) * BLOCK_SIZE sc;
        let local_index = (block_number - 1) mod BLOCKS_PER_GROUP sc;
        let fs = bitarray_clean_bit (bitarray_create (unat bitmap_addr) (unat (BLOCK_SIZE sc))) (fs_file st) (unat local_index);
        let unalloc = gd + Group_Descriptor_off GD_UNALLOCATED_BLOCKS;
        let fs = store16 fs unalloc (load16 fs unalloc + 1);
        let st = st_SuperBlock_read (st\<lparr>fs_file := fs\<rparr>);
        let total = superblock_field SB_TOTAL_UNALLOCATED_BLOCKS;
        Some (st\<lparr>fs_file := store32 (fs_file st) total (load32 (fs_file st) total + 1)\<rparr>) })"

definition setFreeInodeBitmap :: "'c server \<Rightarrow> u32 \<Rightarrow> 'c server option" where
  "setFreeInodeBitmap st inode_number =
     (let sc = Super_constants st;
          group_number = Inode_locateGroup sc inode_number
      in do {
        gd \<leftarrow> Group_Descriptor_read sc group_number;
        let bitmap_addr = load32 (fs_file st) (gd + Group_Descriptor_off GD_BITMAP_INODE_ADDRESS) * BLOCK_SIZE sc;
        let local_index = Inode_getLocalIndex sc inode_number;
        let fs = bitarray_clean_bit (bitarray_create (unat bitmap_addr) (unat (BLOCK_SIZE sc))) (fs_file st) (unat local_index);
        let unalloc = gd + Group_Descriptor_off GD_UNALLOCATED_INODES;
        let fs = store16 fs unalloc (load16 fs unalloc + 1);
        let st = st_SuperBlock_read (st\<lparr>fs_file := fs\<rparr>);
        let total = superblock_field SB_TOTAL_UNALLOCATED_INODES;
        Some (st\<lparr>fs_file := store32 (fs_file st) total (load32 (fs_file st) total + 1)\<rparr>) })"

end
