(* ===== verification/Alloc.thy ===== *)
theory Alloc
  imports Server
begin

text \<open>
  The allocators of \<^verbatim>\<open>server_threading.c\<close> refine an abstract set of free numbers. Blocks and
  inodes are two instances of one layout: per group a bitmap, a counter in the group
  descriptor, and a total in the superblock. The interface \<open>allocator\<close> states what a client
  may rely on.
\<close>

section \<open>The metadata view\<close>

datatype resource = Blocks | Inodes

fun bm_field :: "resource \<Rightarrow> Group_Descriptor_t" where
  "bm_field Blocks = GD_BITMAP_BLOCK_ADDRESS"
| "bm_field Inodes = GD_BITMAP_INODE_ADDRESS"

fun cnt_field :: "resource \<Rightarrow> Group_Descriptor_t" where
  "cnt_field Blocks = GD_UNALLOCATED_BLOCKS"
| "cnt_field Inodes = GD_UNALLOCATED_INODES"

fun tot_field :: "resource \<Rightarrow> SuperBlock_t" where
  "tot_field Blocks = SB_TOTAL_UNALLOCATED_BLOCKS"
| "tot_field Inodes = SB_TOTAL_UNALLOCATED_INODES"

fun per_group :: "resource \<Rightarrow> Superblock_constants \<Rightarrow> nat" where
  "per_group Blocks sc = unat (BLOCKS_PER_GROUP sc)"
| "per_group Inodes sc = unat (INODES_PER_GROUP sc)"

definition groups :: "Superblock_constants \<Rightarrow> nat" where
  "groups sc = unat (TOTAL_GROUPS sc)"

definition bsize :: "Superblock_constants \<Rightarrow> nat" where
  "bsize sc = unat (BLOCK_SIZE sc)"

definition gd_addr :: "Superblock_constants \<Rightarrow> nat \<Rightarrow> nat" where
  "gd_addr sc g = unat (GDT_START sc) + 32 * g"

definition gdt_end :: "Superblock_constants \<Rightarrow> nat" where
  "gdt_end sc = gd_addr sc (groups sc)"

definition bm_word :: "resource \<Rightarrow> mem \<Rightarrow> Superblock_constants \<Rightarrow> nat \<Rightarrow> u32" where
  "bm_word K fs sc g = load32 fs (gd_addr sc g + Group_Descriptor_off (bm_field K))"

definition bm :: "resource \<Rightarrow> mem \<Rightarrow> Superblock_constants \<Rightarrow> nat \<Rightarrow> t_bitarray" where
  "bm K fs sc g = bitarray_create (unat (bm_word K fs sc g * BLOCK_SIZE sc)) (bsize sc)"

definition avail :: "resource \<Rightarrow> mem \<Rightarrow> Superblock_constants \<Rightarrow> nat \<Rightarrow> nat set" where
  "avail K fs sc g = {j. j < per_group K sc \<and> \<not> bitarray_test_bit (bm K fs sc g) fs j}"

definition free_set :: "resource \<Rightarrow> mem \<Rightarrow> Superblock_constants \<Rightarrow> (nat \<times> nat) set" where
  "free_set K fs sc = {(g, j). g < groups sc \<and> j \<in> avail K fs sc g}"

definition cnt :: "resource \<Rightarrow> mem \<Rightarrow> Superblock_constants \<Rightarrow> nat \<Rightarrow> nat" where
  "cnt K fs sc g = unat (load16 fs (gd_addr sc g + Group_Descriptor_off (cnt_field K)))"

definition tot :: "resource \<Rightarrow> mem \<Rightarrow> nat" where
  "tot K fs = unat (load32 fs (superblock_field (tot_field K)))"

definition is_meta :: "mem \<Rightarrow> Superblock_constants \<Rightarrow> nat \<Rightarrow> bool" where
  "is_meta fs sc x \<longleftrightarrow> x < gdt_end sc \<or>
     (\<exists>K g. g < groups sc \<and> bitarray (bm K fs sc g) \<le> x \<and> x < bitarray (bm K fs sc g) + bsize sc)"

text \<open>
  The layout the code relies on: the descriptor table follows the superblock, bitmaps come
  after it and do not overlap, a bitmap block holds a bit per element, and block numbers of a
  group start at \<open>group * BLOCKS_PER_GROUP + 1\<close> and do not wrap.
\<close>

definition layout :: "mem \<Rightarrow> Superblock_constants \<Rightarrow> bool" where
  "layout fs sc \<longleftrightarrow> 2048 \<le> unat (GDT_START sc) \<and>
     (\<forall>K. 0 < per_group K sc \<and> per_group K sc < 65536 \<and> per_group K sc \<le> 8 * bsize sc \<and> groups sc * per_group K sc < 2 ^ 32) \<and>
     (\<forall>K g. g < groups sc \<longrightarrow> gdt_end sc \<le> bitarray (bm K fs sc g)) \<and>
     (\<forall>K g L h. g < groups sc \<longrightarrow> h < groups sc \<longrightarrow> (K, g) \<noteq> (L, h) \<longrightarrow>
        disj_range (bitarray (bm K fs sc g)) (bsize sc) (bitarray (bm L fs sc h)) (bsize sc)) \<and>
     (\<forall>g. g < groups sc \<longrightarrow> Group_Number fs sc (gd_addr sc g) = of_nat g)"

lemma layoutD:
  assumes "layout fs sc"
  shows "0 < per_group K sc" "per_group K sc < 65536" "per_group K sc \<le> 8 * bsize sc" "groups sc * per_group K sc < 2 ^ 32"
  using assms by (simp_all add: layout_def)

definition num :: "resource \<Rightarrow> Superblock_constants \<Rightarrow> nat \<times> nat \<Rightarrow> u32" where
  "num K sc p = of_nat (fst p * per_group K sc + snd p + 1)"

text \<open>Free blocks hold no metadata, and the counters agree with the bitmaps.\<close>

definition fs_ok :: "mem \<Rightarrow> Superblock_constants \<Rightarrow> bool" where
  "fs_ok fs sc \<longleftrightarrow> layout fs sc \<and>
     (\<forall>p \<in> free_set Blocks fs sc. \<forall>i < bsize sc. \<not> is_meta fs sc (block_addr sc (num Blocks sc p) + i)) \<and>
     (\<forall>K g. g < groups sc \<longrightarrow> cnt K fs sc g = card (avail K fs sc g)) \<and>
     (\<forall>K. tot K fs = card (free_set K fs sc))"

lemma mem_free_set [simp]: "(g, j) \<in> free_set K fs sc \<longleftrightarrow> g < groups sc \<and> j \<in> avail K fs sc g"
  by (simp add: free_set_def)

lemma avail_eq: "g < groups sc \<Longrightarrow> avail K fs sc g = {j. (g, j) \<in> free_set K fs sc}"
  by simp

lemma free_set_eqI: "(\<And>g. g < groups sc \<Longrightarrow> avail K fs' sc g = {j. (g, j) \<in> S}) \<Longrightarrow> S \<subseteq> {..<groups sc} \<times> UNIV \<Longrightarrow>
  free_set K fs' sc = S"
  by (auto simp: free_set_def)

section \<open>Frames\<close>

lemma bm_simps [simp]:
  "bitarray (bm K fs sc g) = unat (bm_word K fs sc g * BLOCK_SIZE sc)"
  "bitarray_size (bm K fs sc g) = bsize sc"
  by (simp_all add: bm_def bitarray_create_def)

lemma bm_cong: "bm_word K fs' sc g = bm_word K fs sc g \<Longrightarrow> bm K fs' sc g = bm K fs sc g"
  by (simp add: bm_def)

definition table_word :: "mem \<Rightarrow> Superblock_constants \<Rightarrow> nat \<Rightarrow> u32" where
  "table_word fs sc g = load32 fs (gd_addr sc g + Group_Descriptor_off GD_START_INODE_TABLE)"

definition same_words :: "Superblock_constants \<Rightarrow> mem \<Rightarrow> mem \<Rightarrow> bool" where
  \<comment> \<open>The descriptors have the same bitmaps and inode tables.\<close>
  "same_words sc fs fs' \<longleftrightarrow> (\<forall>K g. g < groups sc \<longrightarrow> bm_word K fs' sc g = bm_word K fs sc g) \<and>
     (\<forall>g. g < groups sc \<longrightarrow> table_word fs' sc g = table_word fs sc g)"

lemma same_words_layout: "same_words sc fs fs' \<Longrightarrow> layout fs' sc = layout fs sc"
proof -
  assume w: "same_words sc fs fs'"
  then have b: "g < groups sc \<Longrightarrow> bm K fs' sc g = bm K fs sc g" for K g
    unfolding same_words_def by (intro bm_cong) simp
  have "g < groups sc \<Longrightarrow> bm_word Blocks fs' sc g = bm_word Blocks fs sc g" for g
    using w by (simp add: same_words_def)
  then have n: "g < groups sc \<Longrightarrow> Group_Number fs' sc (gd_addr sc g) = Group_Number fs sc (gd_addr sc g)" for g
    by (simp add: Group_Number_def bm_word_def)
  show ?thesis unfolding layout_def by (simp add: b n del: bm_simps cong: imp_cong)
qed

lemma same_words_meta: "same_words sc fs fs' \<Longrightarrow> is_meta fs' sc = is_meta fs sc"
  by (auto simp: fun_eq_iff is_meta_def same_words_def)

lemma same_words_trans: "same_words sc a b \<Longrightarrow> same_words sc b c \<Longrightarrow> same_words sc a c"
  by (simp add: same_words_def)

lemma avail_frame:
  assumes "bm_word K fs' sc g = bm_word K fs sc g" and "per_group K sc \<le> 8 * bsize sc"
    and "\<And>i. i < bsize sc \<Longrightarrow> fs' (bitarray (bm K fs sc g) + i) = fs (bitarray (bm K fs sc g) + i)"
  shows "avail K fs' sc g = avail K fs sc g"
proof -
  have "bitarray_test_bit (bm K fs' sc g) fs' j = bitarray_test_bit (bm K fs sc g) fs j" if "j < per_group K sc" for j
    using that assms by (simp add: test_bit_bit)
  then show ?thesis by (auto simp: avail_def)
qed

lemma gd_lt_gdt_end: "g < groups sc \<Longrightarrow> i < 32 \<Longrightarrow> gd_addr sc g + i < gdt_end sc"
proof -
  assume "g < groups sc" "i < 32"
  then have "32 * Suc g \<le> 32 * groups sc" by (intro mult_le_mono) simp_all
  with \<open>i < 32\<close> show ?thesis by (simp add: gdt_end_def gd_addr_def)
qed

lemma low_frame:
  \<comment> \<open>Memory below the end of the descriptor table determines bitmap addresses, counters and totals.\<close>
  assumes "\<And>x. x < gdt_end sc \<Longrightarrow> fs' x = fs x" and "2048 \<le> unat (GDT_START sc)"
  shows "same_words sc fs fs'" "g < groups sc \<Longrightarrow> cnt K fs' sc g = cnt K fs sc g" "tot K fs' = tot K fs"
proof -
  have gd: "g < groups sc \<Longrightarrow> i + k < 32 \<Longrightarrow> fs' (gd_addr sc g + i + k) = fs (gd_addr sc g + i + k)" for g i k
    using assms(1) gd_lt_gdt_end [of g sc "i + k"] by (simp add: add.assoc)
  show "same_words sc fs fs'"
    unfolding same_words_def bm_word_def table_word_def
  proof (intro conjI allI impI load32_eqI)
    fix g i :: nat and K' :: resource
    assume "g < groups sc" "i < 4"
    then show "fs' (gd_addr sc g + Group_Descriptor_off (bm_field K') + i) =
        fs (gd_addr sc g + Group_Descriptor_off (bm_field K') + i)"
      by (intro gd) (cases K'; simp)+
    show "fs' (gd_addr sc g + Group_Descriptor_off GD_START_INODE_TABLE + i) =
        fs (gd_addr sc g + Group_Descriptor_off GD_START_INODE_TABLE + i)"
      using \<open>g < groups sc\<close> \<open>i < 4\<close> by (intro gd) simp_all
  qed
  show "cnt K fs' sc g = cnt K fs sc g" if "g < groups sc"
    unfolding cnt_def
    by (rule arg_cong [of _ _ unat], rule load16_eqI, rule gd) (use that in \<open>cases K; simp\<close>)+
  have "superblock_field (tot_field K) + i < gdt_end sc" if "i < 4" for i
    using that assms(2)
    by (cases K) (simp_all add: superblock_field_def SUPERBLOCK_START_def gdt_end_def gd_addr_def)
  then show "tot K fs' = tot K fs"
    unfolding tot_def using assms(1) by (intro arg_cong [of _ _ unat] load32_eqI) simp
qed

lemma high_frame:
  \<comment> \<open>Memory above the end of the descriptor table determines the bitmaps.\<close>
  assumes "layout fs sc" and "same_words sc fs fs'" and "\<And>x. gdt_end sc \<le> x \<Longrightarrow> fs' x = fs x"
  shows "free_set K fs' sc = free_set K fs sc" "g < groups sc \<Longrightarrow> avail K fs' sc g = avail K fs sc g"
proof -
  have *: "avail K fs' sc g = avail K fs sc g" if "g < groups sc" for K g
  proof (rule avail_frame)
    show "bm_word K fs' sc g = bm_word K fs sc g" using assms(2) that by (simp add: same_words_def)
    show "per_group K sc \<le> 8 * bsize sc" using assms(1) by (simp add: layout_def)
    fix i
    have "gdt_end sc \<le> bitarray (bm K fs sc g) + i" using assms(1) that by (simp add: layout_def trans_le_add1)
    then show "fs' (bitarray (bm K fs sc g) + i) = fs (bitarray (bm K fs sc g) + i)" by (rule assms(3))
  qed
  then show "free_set K fs' sc = free_set K fs sc" by (auto simp: free_set_def)
  show "g < groups sc \<Longrightarrow> avail K fs' sc g = avail K fs sc g" by (rule *)
qed

section \<open>The steps of the allocators\<close>

lemma store_cnt:
  fixes fs sc g K w
  defines "fs' \<equiv> store16 fs (gd_addr sc g + Group_Descriptor_off (cnt_field K)) w"
  assumes "layout fs sc" and g: "g < groups sc"
  shows "same_words sc fs fs'"
    and "cnt L fs' sc h = (if L = K \<and> h = g then unat w else cnt L fs sc h)"
    and "tot L fs' = tot L fs"
    and "gdt_end sc \<le> x \<Longrightarrow> fs' x = fs x"
    and "free_set L fs' sc = free_set L fs sc"
    and "h < groups sc \<Longrightarrow> avail L fs' sc h = avail L fs sc h"
proof -
  have gdt: "2048 \<le> unat (GDT_START sc)" using assms(2) by (simp add: layout_def)
  have off: "Group_Descriptor_off (cnt_field L) = (case L of Blocks \<Rightarrow> 12 | Inodes \<Rightarrow> 14)"
    "Group_Descriptor_off (bm_field L) = (case L of Blocks \<Rightarrow> 0 | Inodes \<Rightarrow> 4)" for L
    by (cases L; simp)+
  show w: "same_words sc fs fs'"
    unfolding same_words_def bm_word_def table_word_def fs'_def
  proof (intro conjI allI impI load_frames)
    fix L h
    show "disj_range (gd_addr sc g + Group_Descriptor_off (cnt_field K)) 2 (gd_addr sc h + Group_Descriptor_off (bm_field L)) 4"
      by (cases "h = g"; cases "h < g"; cases K; cases L) (auto simp: off disj_range_def gd_addr_def)
    show "disj_range (gd_addr sc g + Group_Descriptor_off (cnt_field K)) 2 (gd_addr sc h + Group_Descriptor_off GD_START_INODE_TABLE) 4"
      by (cases "h = g"; cases "h < g"; cases K) (auto simp: off disj_range_def gd_addr_def)
  qed
  show "cnt L fs' sc h = (if L = K \<and> h = g then unat w else cnt L fs sc h)"
  proof (cases "L = K \<and> h = g")
    case False
    then have "disj_range (gd_addr sc g + Group_Descriptor_off (cnt_field K)) 2 (gd_addr sc h + Group_Descriptor_off (cnt_field L)) 2"
      by (cases "h = g"; cases "h < g"; cases K; cases L) (auto simp: off disj_range_def gd_addr_def)
    with False show ?thesis by (auto simp: cnt_def fs'_def mem_simps)
  qed (simp add: cnt_def fs'_def mem_simps)
  have "disj_range (gd_addr sc g + Group_Descriptor_off (cnt_field K)) 2 (superblock_field (tot_field L)) 4"
    using gdt by (cases L) (auto simp: disj_range_def gd_addr_def superblock_field_def SUPERBLOCK_START_def)
  then show "tot L fs' = tot L fs" by (simp add: tot_def fs'_def mem_simps)
  show high: "gdt_end sc \<le> x \<Longrightarrow> fs' x = fs x" for x
    using gd_lt_gdt_end [OF g, of "Group_Descriptor_off (cnt_field K) + 1"]
    by (cases K) (auto simp: fs'_def mem_simps disj_range_def)
  show "free_set L fs' sc = free_set L fs sc" "h < groups sc \<Longrightarrow> avail L fs' sc h = avail L fs sc h"
    using high_frame [OF assms(2) w high] by auto
qed

lemma store_tot:
  fixes fs sc K w
  defines "fs' \<equiv> store32 fs (superblock_field (tot_field K)) w"
  assumes "layout fs sc"
  shows "same_words sc fs fs'"
    and "h < groups sc \<Longrightarrow> cnt L fs' sc h = cnt L fs sc h"
    and "tot L fs' = (if L = K then unat w else tot L fs)"
    and "gdt_end sc \<le> x \<Longrightarrow> fs' x = fs x"
    and "free_set L fs' sc = free_set L fs sc"
    and "h < groups sc \<Longrightarrow> avail L fs' sc h = avail L fs sc h"
proof -
  have gdt: "2048 \<le> unat (GDT_START sc)" using assms(2) by (simp add: layout_def)
  have sb: "superblock_field (tot_field K) + 4 \<le> 2048" for K
    by (cases K) (simp_all add: superblock_field_def SUPERBLOCK_START_def)
  have d: "disj_range (superblock_field (tot_field K)) 4 (gd_addr sc h + i) n" for h i n
    using gdt sb [of K] by (simp add: disj_range_def gd_addr_def)
  show w: "same_words sc fs fs'"
    unfolding same_words_def bm_word_def table_word_def fs'_def by (intro conjI allI impI load_frames d)
  show "cnt L fs' sc h = cnt L fs sc h"
    unfolding cnt_def fs'_def by (simp add: load_frames(5) [OF d])
  show "tot L fs' = (if L = K then unat w else tot L fs)"
    by (cases L; cases K) (auto simp: tot_def fs'_def mem_simps disj_range_def superblock_field_def)
  show high: "gdt_end sc \<le> x \<Longrightarrow> fs' x = fs x" for x
    using gdt sb [of K] by (simp add: fs'_def mem_simps disj_range_def gdt_end_def gd_addr_def)
  show "free_set L fs' sc = free_set L fs sc" "h < groups sc \<Longrightarrow> avail L fs' sc h = avail L fs sc h"
    using high_frame [OF assms(2) w high] by auto
qed

text \<open>Changing bits of one bitmap only.\<close>

lemma bitmap_change:
  fixes fs fs' sc g K
  assumes "layout fs sc" and g: "g < groups sc"
    and out': "\<forall>x. disj_range (bitarray (bm K fs sc g)) (bsize sc) x 1 \<longrightarrow> fs' x = fs x"
  shows "same_words sc fs fs'"
    and "h < groups sc \<Longrightarrow> cnt L fs' sc h = cnt L fs sc h"
    and "tot L fs' = tot L fs"
    and "\<not> is_meta fs sc x \<Longrightarrow> fs' x = fs x"
    and "h < groups sc \<Longrightarrow> (L, h) \<noteq> (K, g) \<Longrightarrow> avail L fs' sc h = avail L fs sc h"
proof -
  note out = out' [rule_format]
  have gdt: "2048 \<le> unat (GDT_START sc)" "gdt_end sc \<le> bitarray (bm K fs sc g)"
    using assms(1) g by (simp_all add: layout_def)
  have low: "x < gdt_end sc \<Longrightarrow> fs' x = fs x" for x
    using gdt by (intro out) (simp add: disj_range_def)
  show w: "same_words sc fs fs'" "h < groups sc \<Longrightarrow> cnt L fs' sc h = cnt L fs sc h" "tot L fs' = tot L fs"
    using low_frame [OF low gdt(1)] by auto
  show "fs' x = fs x" if "\<not> is_meta fs sc x"
  proof (rule out)
    have "\<not> (bitarray (bm K fs sc g) \<le> x \<and> x < bitarray (bm K fs sc g) + bsize sc)"
      using that g unfolding is_meta_def by blast
    then show "disj_range (bitarray (bm K fs sc g)) (bsize sc) x 1"
      by (auto simp: disj_range_def simp del: bm_simps)
  qed
  show "avail L fs' sc h = avail L fs sc h" if "h < groups sc" "(L, h) \<noteq> (K, g)"
  proof (rule avail_frame)
    show "bm_word L fs' sc h = bm_word L fs sc h" using w(1) that by (simp add: same_words_def)
    show "per_group L sc \<le> 8 * bsize sc" using assms(1) by (simp add: layout_def)
    have "disj_range (bitarray (bm L fs sc h)) (bsize sc) (bitarray (bm K fs sc g)) (bsize sc)"
      using assms(1) that g unfolding layout_def by blast
    then show "fs' (bitarray (bm L fs sc h) + i) = fs (bitarray (bm L fs sc h) + i)" if "i < bsize sc" for i
      using that by (intro out) (auto simp: disj_range_def)
  qed
qed

lemma scan_step:
  fixes fs sc g K n limit
  defines "r \<equiv> scan_free_bits (bitarray_test_bit (bm K fs sc g)) (bitarray_set_bit (bm K fs sc g)) n 0 limit fs"
  assumes lay: "layout fs sc" and g: "g < groups sc" and n: "n \<le> card (avail K fs sc g)"
    and limit: "per_group K sc \<le> limit"
  shows "length (fst r) = n" and "distinct (fst r)" and "set (fst r) \<subseteq> avail K fs sc g"
    and "\<forall>x. disj_range (bitarray (bm K fs sc g)) (bsize sc) x 1 \<longrightarrow> snd r x = fs x"
    and "avail K (snd r) sc g = avail K fs sc g - set (fst r)"
proof -
  let ?scan = "\<lambda>lim. scan_free_bits (bitarray_test_bit (bm K fs sc g)) (bitarray_set_bit (bm K fs sc g)) n 0 lim fs"
  have "avail K fs sc g = {j. 0 \<le> j \<and> j < per_group K sc \<and> \<not> bitarray_test_bit (bm K fs sc g) fs j}"
    by (simp add: avail_def)
  then have len: "length (fst (?scan (per_group K sc))) = n"
    using n unfolding bits.scan_length by simp
  then have r: "r = ?scan (per_group K sc)"
    unfolding r_def using limit by (rule scan_limit)
  show "length (fst r) = n" "distinct (fst r)" by (simp_all only: r len bits.scan_distinct)
  show sub: "set (fst r) \<subseteq> avail K fs sc g"
    unfolding r avail_def using bits.scan_was_clear by fastforce
  show out: "\<forall>x. disj_range (bitarray (bm K fs sc g)) (bsize sc) x 1 \<longrightarrow> snd r x = fs x"
  proof (intro allI impI)
    fix x assume x: "disj_range (bitarray (bm K fs sc g)) (bsize sc) x 1"
    show "snd r x = fs x"
      unfolding r
    proof (rule scan_invariant [where P = "\<lambda>m. m x = fs x"])
      fix m i assume "m x = fs x" "i < per_group K sc"
      then show "bitarray_set_bit (bm K fs sc g) m i x = fs x"
        using x layoutD(3) [OF lay, of K] by (subst bitarray_frame) (auto simp: disj_range_def)
    qed simp
  qed
  have "bm K (snd r) sc g = bm K fs sc g"
    using bitmap_change(1) [OF lay g out] g by (intro bm_cong) (simp add: same_words_def)
  then show "avail K (snd r) sc g = avail K fs sc g - set (fst r)"
    by (auto simp: avail_def r bits.scan_marks)
qed

section \<open>Effects of a sequence of steps\<close>

definition effect ::
  "resource \<Rightarrow> Superblock_constants \<Rightarrow> mem \<Rightarrow> mem \<Rightarrow> (nat \<times> nat) list \<Rightarrow> (nat \<Rightarrow> nat) \<Rightarrow> bool" where
  \<comment> \<open>From \<open>fs\<close> to \<open>fs'\<close> the pairs \<open>ps\<close> are taken and the counter of group \<open>h\<close> falls by \<open>d h\<close>.\<close>
  "effect K sc fs fs' ps d \<longleftrightarrow>
     same_words sc fs fs' \<and> (\<forall>x. \<not> is_meta fs sc x \<longrightarrow> fs' x = fs x) \<and>
     distinct ps \<and> set ps \<subseteq> free_set K fs sc \<and>
     (\<forall>L. free_set L fs' sc = (if L = K then free_set L fs sc - set ps else free_set L fs sc)) \<and>
     (\<forall>L h. h < groups sc \<longrightarrow> cnt L fs' sc h + (if L = K then d h else 0) = cnt L fs sc h) \<and>
     (\<forall>L. tot L fs' = tot L fs)"

lemma effect_refl: "effect K sc fs fs [] (\<lambda>_. 0)"
  by (simp add: effect_def same_words_def)

lemma effect_trans:
  assumes a: "effect K sc fs1 fs2 ps d" and b: "effect K sc fs2 fs3 qs e"
  shows "effect K sc fs1 fs3 (ps @ qs) (\<lambda>h. d h + e h)"
proof -
  have meta: "is_meta fs2 sc = is_meta fs1 sc"
    using a by (intro same_words_meta) (simp add: effect_def)
  have sub: "set qs \<subseteq> free_set K fs1 sc - set ps" using a b by (simp add: effect_def)
  show ?thesis
    unfolding effect_def
  proof (intro conjI allI impI)
    show "same_words sc fs1 fs3" using a b same_words_trans unfolding effect_def by blast
    show "fs3 x = fs1 x" if "\<not> is_meta fs1 sc x" for x using a b meta that unfolding effect_def by metis
    show "distinct (ps @ qs)" using a b sub by (auto simp: effect_def)
    show "set (ps @ qs) \<subseteq> free_set K fs1 sc" using a sub by (auto simp: effect_def)
    show "free_set L fs3 sc = (if L = K then free_set L fs1 sc - set (ps @ qs) else free_set L fs1 sc)" for L
      using a b by (auto simp: effect_def)
    show "cnt L fs3 sc h + (if L = K then d h + e h else 0) = cnt L fs1 sc h" if "h < groups sc" for L h
    proof -
      have "cnt L fs2 sc h + (if L = K then d h else 0) = cnt L fs1 sc h"
        "cnt L fs3 sc h + (if L = K then e h else 0) = cnt L fs2 sc h"
        using a b that unfolding effect_def by blast+
      then show ?thesis by (simp split: if_splits)
    qed
    show "tot L fs3 = tot L fs1" for L using a b by (simp add: effect_def)
  qed
qed

lemma effect_layout: "effect K sc fs fs' ps d \<Longrightarrow> layout fs' sc = layout fs sc"
  unfolding effect_def using same_words_layout by blast

lemma effect_avail:
  assumes "effect K sc fs fs' ps d" and "g < groups sc"
  shows "avail L fs' sc g = (if L = K then avail L fs sc g - {j. (g, j) \<in> set ps} else avail L fs sc g)"
proof -
  have f: "free_set L fs' sc = (if L = K then free_set L fs sc - set ps else free_set L fs sc)"
    using assms(1) by (simp add: effect_def)
  have "avail L fs' sc g = {j. (g, j) \<in> free_set L fs' sc}" using assms(2) by (rule avail_eq)
  also have "\<dots> = (if L = K then avail L fs sc g - {j. (g, j) \<in> set ps} else avail L fs sc g)"
    unfolding f using assms(2) by auto
  finally show ?thesis .
qed

lemma effect_cnt:
  "effect K sc fs fs' ps d \<Longrightarrow> h < groups sc \<Longrightarrow> cnt L fs' sc h + (if L = K then d h else 0) = cnt L fs sc h"
  unfolding effect_def by blast

lemma effect_store_cnt:
  assumes "layout fs sc" and "g < groups sc" and "n \<le> cnt K fs sc g" and "unat w = cnt K fs sc g - n"
  shows "effect K sc fs (store16 fs (gd_addr sc g + Group_Descriptor_off (cnt_field K)) w) [] (\<lambda>h. if h = g then n else 0)"
proof -
  have "\<not> is_meta fs sc x \<Longrightarrow> gdt_end sc \<le> x" for x by (simp add: is_meta_def)
  then show ?thesis
    unfolding effect_def using assms store_cnt [OF assms(1,2), where K = K and w = w] by auto
qed

lemma effect_scan:
  fixes fs sc g K n limit
  defines "r \<equiv> scan_free_bits (bitarray_test_bit (bm K fs sc g)) (bitarray_set_bit (bm K fs sc g)) n 0 limit fs"
  assumes "layout fs sc" "g < groups sc" "n \<le> card (avail K fs sc g)" "per_group K sc \<le> limit"
  shows "effect K sc fs (snd r) (map (Pair g) (fst r)) (\<lambda>_. 0)"
proof -
  note scan = scan_step [OF assms(2-5), folded r_def]
  note change = bitmap_change [where K = K, OF assms(2,3) scan(4)]
  have other: "free_set L (snd r) sc = free_set L fs sc" if "L \<noteq> K" for L
    using change(5) that by (intro free_set_eqI) auto
  have "free_set K (snd r) sc = free_set K fs sc - set (map (Pair g) (fst r))"
  proof (rule free_set_eqI)
    fix h assume "h < groups sc"
    then show "avail K (snd r) sc h = {j. (h, j) \<in> free_set K fs sc - set (map (Pair g) (fst r))}"
      using change(5) [of h K] scan(5) by (cases "h = g") auto
  qed (auto simp: free_set_def)
  with other show ?thesis
    unfolding effect_def using change(1-4) scan(2,3) assms(3)
    by (auto simp: distinct_map inj_on_def)
qed

section \<open>One group\<close>

lemma gd_read: "g < groups sc \<Longrightarrow> Group_Descriptor_read sc (of_nat g) = Some (gd_addr sc g)"
proof -
  assume g: "g < groups sc"
  then have "g < 4294967296"
    using unat_lt_u32 [of "TOTAL_GROUPS sc"] unfolding groups_def by linarith
  then have "unat (of_nat g :: u32) = g" by (simp add: unat_of_nat_u32)
  with g show ?thesis
    by (simp add: Group_Descriptor_read_def word_less_nat_alt groups_def gd_addr_def sizeof_Group_Descriptor_def)
qed

lemma of_nat_per_group:
  "of_nat (per_group Blocks sc) = BLOCKS_PER_GROUP sc" "of_nat (per_group Inodes sc) = INODES_PER_GROUP sc"
  by simp_all

lemma num_Blocks: "of_nat j + (of_nat g * BLOCKS_PER_GROUP sc + 1) = num Blocks sc (g, j)"
  by (simp add: num_def algebra_simps)

lemma num_Inodes: "of_nat g * INODES_PER_GROUP sc + of_nat j + 1 = num Inodes sc (g, j)"
  by (simp add: num_def algebra_simps)

lemma blocks_in_group:
  assumes "layout fs sc" "g < groups sc" "n \<le> card (avail Blocks fs sc g)"
  shows "\<exists>ps fs'. Get_Free_Blocks_In_Group fs sc n (gd_addr sc g) = (map (num Blocks sc) ps, fs') \<and>
    length ps = n \<and> fst ` set ps \<subseteq> {g} \<and> effect Blocks sc fs fs' ps (\<lambda>_. 0)"
proof -
  let ?r = "scan_free_bits (bitarray_test_bit (bm Blocks fs sc g)) (bitarray_set_bit (bm Blocks fs sc g)) n 0
    (per_group Blocks sc) fs"
  have len: "length (fst ?r) = n" and eff: "effect Blocks sc fs (snd ?r) (map (Pair g) (fst ?r)) (\<lambda>_. 0)"
    using scan_step(1) [OF assms order_refl] effect_scan [OF assms order_refl] by auto
  have "Group_Number fs sc (gd_addr sc g) = of_nat g" using assms(1,2) by (simp add: layout_def)
  then have "Get_Free_Blocks_In_Group fs sc n (gd_addr sc g) = (map (num Blocks sc) (map (Pair g) (fst ?r)), snd ?r)"
    using len by (simp add: Get_Free_Blocks_In_Group_def bm_def bm_word_def bsize_def pad_zeros_def Let_def
        case_prod_beta num_Blocks)
  with len eff show ?thesis by (intro exI [of _ "map (Pair g) (fst ?r)"] exI [of _ "snd ?r"]) auto
qed

lemma inodes_in_group:
  assumes "layout fs sc" "g < groups sc" "n \<le> card (avail Inodes fs sc g)"
  shows "\<exists>ps fs'. Get_Free_Inodes_In_Group fs sc n (gd_addr sc g) (of_nat g) = (map (num Inodes sc) ps, fs') \<and>
    length ps = n \<and> fst ` set ps \<subseteq> {g} \<and> effect Inodes sc fs fs' ps (\<lambda>_. 0)"
proof -
  let ?r = "scan_free_bits (bitarray_test_bit (bm Inodes fs sc g)) (bitarray_set_bit (bm Inodes fs sc g)) n 0
    (per_group Inodes sc + 1) fs"
  have le: "per_group Inodes sc \<le> per_group Inodes sc + 1" by simp
  have len: "length (fst ?r) = n" and eff: "effect Inodes sc fs (snd ?r) (map (Pair g) (fst ?r)) (\<lambda>_. 0)"
    using scan_step(1) [OF assms le] effect_scan [OF assms le] by auto
  have "Get_Free_Inodes_In_Group fs sc n (gd_addr sc g) (of_nat g) = (map (num Inodes sc) (map (Pair g) (fst ?r)), snd ?r)"
    using len by (simp add: Get_Free_Inodes_In_Group_def bm_def bm_word_def bsize_def pad_zeros_def Let_def
        case_prod_beta num_Inodes)
  with len eff show ?thesis by (intro exI [of _ "map (Pair g) (fst ?r)"] exI [of _ "snd ?r"]) auto
qed

fun in_group :: "resource \<Rightarrow> mem \<Rightarrow> Superblock_constants \<Rightarrow> nat \<Rightarrow> nat \<Rightarrow> u32 list \<times> mem" where
  "in_group Blocks fs sc n g = Get_Free_Blocks_In_Group fs sc n (gd_addr sc g)"
| "in_group Inodes fs sc n g = Get_Free_Inodes_In_Group fs sc n (gd_addr sc g) (of_nat g)"

lemma in_group_ok:
  assumes "layout fs sc" "g < groups sc" "n \<le> card (avail K fs sc g)"
  shows "\<exists>ps fs'. in_group K fs sc n g = (map (num K sc) ps, fs') \<and>
    length ps = n \<and> fst ` set ps \<subseteq> {g} \<and> effect K sc fs fs' ps (\<lambda>_. 0)"
  using assms blocks_in_group inodes_in_group by (cases K) simp_all

section \<open>All groups\<close>

lemma copy_words_exact:
  "length src = n \<Longrightarrow> i + n \<le> length dst \<Longrightarrow> copy_words dst i src n = Some (take i dst @ src @ drop (i + n) dst)"
  by (simp add: copy_words_def)

lemma load_cnt: "unat (load16 fs (gd_addr sc g + Group_Descriptor_off (cnt_field K))) = cnt K fs sc g"
  by (simp add: cnt_def)

lemma loop_done: "Get_Free_Blocks_loop fs sc gs 0 i ret = Some (ret, fs)"
  "Get_Free_Inodes_loop fs sc gs 0 i ret = Some (ret, fs)"
  by (cases gs; simp)+

text \<open>What remains of the counters when \<open>ps\<close> is taken and counted.\<close>

definition taken :: "(nat \<times> nat) list \<Rightarrow> nat \<Rightarrow> nat" where
  "taken ps h = card {j. (h, j) \<in> set ps}"

lemma taken_group: "distinct ps \<Longrightarrow> fst ` set ps \<subseteq> {g} \<Longrightarrow> taken ps h = (if h = g then length ps else 0)"
proof -
  assume d: "distinct ps" and g: "fst ` set ps \<subseteq> {g}"
  have "set ps = Pair g ` {j. (g, j) \<in> set ps}" using g by (force simp: image_iff)
  then have "card (set ps) = card {j. (g, j) \<in> set ps}"
    by (metis (no_types, lifting) card_image inj_on_def prod.inject)
  moreover have "h \<noteq> g \<Longrightarrow> {j. (h, j) \<in> set ps} = {}" using g by force
  ultimately show ?thesis using d by (auto simp: taken_def distinct_card)
qed

lemma taken_append: "set ps \<inter> set qs = {} \<Longrightarrow> taken (ps @ qs) h = taken ps h + taken qs h"
proof -
  assume "set ps \<inter> set qs = {}"
  moreover have "finite {j. (h, j) \<in> set xs}" for xs :: "(nat \<times> nat) list"
    by (rule finite_subset [of _ "snd ` set xs"]) force+
  moreover have "{j. (h, j) \<in> set (ps @ qs)} = {j. (h, j) \<in> set ps} \<union> {j. (h, j) \<in> set qs}" by auto
  ultimately show ?thesis unfolding taken_def by (simp only:) (rule card_Un_disjoint; auto)
qed

lemma claim_first:
  assumes "layout fs sc" "g < groups sc" "cnt K fs sc g = card (avail K fs sc g)"
    and "n \<le> cnt K fs sc g" "unat w = cnt K fs sc g - n"
  shows "\<exists>ps fs'. in_group K (store16 fs (gd_addr sc g + Group_Descriptor_off (cnt_field K)) w) sc n g = (map (num K sc) ps, fs') \<and>
    length ps = n \<and> fst ` set ps \<subseteq> {g} \<and> effect K sc fs fs' ps (taken ps)"
proof -
  let ?fs1 = "store16 fs (gd_addr sc g + Group_Descriptor_off (cnt_field K)) w"
  have e1: "effect K sc fs ?fs1 [] (\<lambda>h. if h = g then n else 0)"
    using assms by (intro effect_store_cnt) auto
  obtain ps fs' where r: "in_group K ?fs1 sc n g = (map (num K sc) ps, fs')"
    and ps: "length ps = n" "fst ` set ps \<subseteq> {g}" and e2: "effect K sc ?fs1 fs' ps (\<lambda>_. 0)"
    using in_group_ok [of ?fs1 sc g n K] assms effect_layout [OF e1] effect_avail [OF e1] by auto
  have "distinct ps" using e2 by (simp add: effect_def)
  then have "taken ps = (\<lambda>h. (if h = g then n else 0) + 0)" using ps by (auto simp: taken_group)
  then have "effect K sc fs fs' ps (taken ps)" using effect_trans [OF e1 e2] by simp
  with r ps show ?thesis by blast
qed

lemma blocks_claim_all:
  assumes "layout fs sc" "g < groups sc" "cnt Blocks fs sc g = card (avail Blocks fs sc g)"
  shows "\<exists>ps fs1 fs'. Get_Free_Blocks_In_Group fs sc (cnt Blocks fs sc g) (gd_addr sc g) = (map (num Blocks sc) ps, fs1) \<and>
    cnt Blocks fs1 sc g = cnt Blocks fs sc g \<and>
    fs' = store16 fs1 (gd_addr sc g + Group_Descriptor_off (cnt_field Blocks)) 0 \<and>
    length ps = cnt Blocks fs sc g \<and> fst ` set ps \<subseteq> {g} \<and> effect Blocks sc fs fs' ps (taken ps)"
proof -
  obtain ps fs1 where r: "Get_Free_Blocks_In_Group fs sc (cnt Blocks fs sc g) (gd_addr sc g) = (map (num Blocks sc) ps, fs1)"
    and ps: "length ps = cnt Blocks fs sc g" "fst ` set ps \<subseteq> {g}" and e1: "effect Blocks sc fs fs1 ps (\<lambda>_. 0)"
    using blocks_in_group [of fs sc g "cnt Blocks fs sc g"] assms by auto
  let ?fs' = "store16 fs1 (gd_addr sc g + Group_Descriptor_off (cnt_field Blocks)) 0"
  have c: "cnt Blocks fs1 sc g = cnt Blocks fs sc g" using e1 assms(2) by (auto simp: effect_def)
  have e2: "effect Blocks sc fs1 ?fs' [] (\<lambda>h. if h = g then cnt Blocks fs sc g else 0)"
    using effect_layout [OF e1] assms c by (intro effect_store_cnt) auto
  have "distinct ps" using e1 by (simp add: effect_def)
  then have "taken ps = (\<lambda>h. 0 + (if h = g then cnt Blocks fs sc g else 0))" using ps by (auto simp: taken_group)
  then have "effect Blocks sc fs ?fs' ps (taken ps)" using effect_trans [OF e1 e2] by simp
  with r c ps show ?thesis by blast
qed

lemma counts_after:
  assumes "effect K sc fs fs' ps (taken ps)" and "h < groups sc" and "cnt K fs sc h = card (avail K fs sc h)"
  shows "cnt K fs' sc h = card (avail K fs' sc h)"
proof -
  have fin: "finite (avail K fs sc h)" by (rule finite_subset [of _ "{..<per_group K sc}"]) (auto simp: avail_def)
  have "{j. (h, j) \<in> set ps} \<subseteq> avail K fs sc h"
    using assms(1) by (auto simp: effect_def subset_iff)
  then have "card (avail K fs' sc h) = card (avail K fs sc h) - taken ps h"
    using effect_avail [OF assms(1,2), of K] fin by (simp add: card_Diff_subset finite_subset taken_def)
  moreover have "cnt K fs' sc h + taken ps h = cnt K fs sc h"
    using assms(1,2) unfolding effect_def by metis
  ultimately show ?thesis using assms(3) by simp
qed

lemma loop_enough:
  assumes lay: "layout fs sc" and g: "g < groups sc" and cnt: "cnt Blocks fs sc g = card (avail Blocks fs sc g)"
    and how: "how \<noteq> 0" "unat how \<le> cnt Blocks fs sc g" and len: "i + unat how \<le> length ret"
  shows "\<exists>ps fs'. Get_Free_Blocks_loop fs sc (g # gs) how i ret =
      Some (take i ret @ map (num Blocks sc) ps @ drop (i + unat how) ret, fs') \<and>
    length ps = unat how \<and> effect Blocks sc fs fs' ps (taken ps)"
proof -
  let ?c = "gd_addr sc g + Group_Descriptor_off (cnt_field Blocks)"
  let ?un = "load16 fs ?c"
  have le: "how \<le> ucast ?un" "?un \<noteq> 0"
    using how by (auto simp: word_le_nat_alt unat_ucast_u16 load_cnt cnt_def unat_gt_0 [symmetric])
  then have w: "unat (ucast (ucast ?un - how) :: u16) = cnt Blocks fs sc g - unat how"
    by (simp only: unat_narrow_sub load_cnt)
  obtain ps fs' where r: "in_group Blocks (store16 fs ?c (ucast (ucast ?un - how))) sc (unat how) g = (map (num Blocks sc) ps, fs')"
    and ps: "length ps = unat how" "effect Blocks sc fs fs' ps (taken ps)"
    using claim_first [OF lay g cnt how(2) w] by blast
  have "copy_words ret i (map (num Blocks sc) ps) (unat how) = Some (take i ret @ map (num Blocks sc) ps @ drop (i + unat how) ret)"
    using ps len by (simp add: copy_words_exact)
  with r ps le how(1) show ?thesis
    by (intro exI [of _ ps] exI [of _ fs']) (simp add: gd_read [OF g] Let_def loop_done)
qed

lemma loop_more:
  assumes lay: "layout fs sc" and g: "g < groups sc" and cnt: "cnt Blocks fs sc g = card (avail Blocks fs sc g)"
    and how: "0 < cnt Blocks fs sc g" "cnt Blocks fs sc g < unat how" and len: "i + cnt Blocks fs sc g \<le> length ret"
  shows "\<exists>how' ps fs'. Get_Free_Blocks_loop fs sc (g # gs) how i ret =
      Get_Free_Blocks_loop fs' sc gs how' (i + cnt Blocks fs sc g)
        (take i ret @ map (num Blocks sc) ps @ drop (i + cnt Blocks fs sc g) ret) \<and>
    unat how' = unat how - cnt Blocks fs sc g \<and> length ps = cnt Blocks fs sc g \<and> fst ` set ps \<subseteq> {g} \<and>
    effect Blocks sc fs fs' ps (taken ps)"
proof -
  let ?c = "gd_addr sc g + Group_Descriptor_off (cnt_field Blocks)"
  let ?un = "load16 fs ?c"
  have un: "?un \<noteq> 0" "\<not> how \<le> ucast ?un" "how \<noteq> 0"
    using how by (auto simp: word_le_nat_alt unat_ucast_u16 load_cnt cnt_def unat_gt_0 [symmetric])
  obtain ps fs1 fs2 where r: "Get_Free_Blocks_In_Group fs sc (cnt Blocks fs sc g) (gd_addr sc g) = (map (num Blocks sc) ps, fs1)"
    and c1: "cnt Blocks fs1 sc g = cnt Blocks fs sc g" and fs2: "fs2 = store16 fs1 ?c 0"
    and ps: "length ps = cnt Blocks fs sc g" "fst ` set ps \<subseteq> {g}" "effect Blocks sc fs fs2 ps (taken ps)"
    using blocks_claim_all [OF lay g cnt] by blast
  have cp: "copy_words ret i (map (num Blocks sc) ps) (cnt Blocks fs sc g) =
      Some (take i ret @ map (num Blocks sc) ps @ drop (i + cnt Blocks fs sc g) ret)"
    using ps len by (simp add: copy_words_exact)
  have "unat (how - ucast ?un) = unat how - cnt Blocks fs sc g"
    using un by (simp add: unat_sub unat_ucast_u16 cnt_def not_le less_imp_le)
  then show ?thesis
    using r cp c1 fs2 ps un
    by (intro exI [of _ "how - ucast ?un"] exI [of _ ps] exI [of _ fs2])
      (simp add: gd_read [OF g] Let_def load_cnt [where K = Blocks, simplified])
qed

lemma blocks_loop:
  assumes "layout fs sc" and "\<And>h. h < groups sc \<Longrightarrow> cnt Blocks fs sc h = card (avail Blocks fs sc h)"
    and "unat how \<le> (\<Sum>h\<in>{g..<groups sc}. card (avail Blocks fs sc h))" and "i + unat how = length ret"
  shows "\<exists>ps fs'. Get_Free_Blocks_loop fs sc [g..<groups sc] how i ret = Some (take i ret @ map (num Blocks sc) ps, fs') \<and>
    length ps = unat how \<and> effect Blocks sc fs fs' ps (taken ps)"
  using assms
proof (induction "groups sc - g" arbitrary: g fs how i ret)
  case 0
  then show ?case using effect_refl [of Blocks sc fs] by (auto simp: taken_def [abs_def])
next
  case (Suc k)
  then have g: "g < groups sc" and k: "k = groups sc - Suc g" by auto
  have upt: "[g..<groups sc] = g # [Suc g..<groups sc]" using g by (simp add: upt_conv_Cons)
  have sum: "(\<Sum>h\<in>{g..<groups sc}. f h) = f g + (\<Sum>h\<in>{Suc g..<groups sc}. f h)" for f :: "nat \<Rightarrow> nat"
    using g by (simp add: sum.atLeast_Suc_lessThan)
  note cnt = Suc.prems(2) [OF g]
  consider (zero) "how = 0" | (none) "how \<noteq> 0" "cnt Blocks fs sc g = 0"
    | (enough) "how \<noteq> 0" "unat how \<le> cnt Blocks fs sc g"
    | (more) "0 < cnt Blocks fs sc g" "cnt Blocks fs sc g < unat how" by linarith
  then show ?case
  proof cases
    case zero
    then show ?thesis using Suc.prems effect_refl [of Blocks sc fs] by (auto simp: upt taken_def [abs_def])
  next
    case none
    then have "load16 fs (gd_addr sc g + 12) = 0" "card (avail Blocks fs sc g) = 0" using cnt by (simp_all add: cnt_def unat_eq_zero)
    then show ?thesis
      using Suc.hyps(1) [OF k Suc.prems(1,2), of how i ret] Suc.prems(3,4) none
      by (simp add: upt gd_read [OF g] sum)
  next
    case enough
    then show ?thesis using loop_enough [OF Suc.prems(1) g cnt, of how i ret] Suc.prems(4) by (auto simp: upt)
  next
    case more
    let ?c = "cnt Blocks fs sc g"
    obtain how' ps fs2 where step: "Get_Free_Blocks_loop fs sc [g..<groups sc] how i ret =
        Get_Free_Blocks_loop fs2 sc [Suc g..<groups sc] how' (i + ?c) (take i ret @ map (num Blocks sc) ps @ drop (i + ?c) ret)"
      and ps: "unat how' = unat how - ?c" "length ps = ?c" "fst ` set ps \<subseteq> {g}" "effect Blocks sc fs fs2 ps (taken ps)"
      using loop_more [OF Suc.prems(1) g cnt more, of i ret "[Suc g..<groups sc]"] Suc.prems(4) more by (auto simp: upt)
    have "h \<in> {Suc g..<groups sc} \<Longrightarrow> avail Blocks fs2 sc h = avail Blocks fs sc h" for h
      using effect_avail [OF ps(4), of h Blocks] ps(3) by fastforce
    then have rest: "(\<Sum>h\<in>{Suc g..<groups sc}. card (avail Blocks fs2 sc h)) = (\<Sum>h\<in>{Suc g..<groups sc}. card (avail Blocks fs sc h))"
      by (intro sum.cong) auto
    have need: "unat how' \<le> (\<Sum>h\<in>{Suc g..<groups sc}. card (avail Blocks fs2 sc h))"
      using Suc.prems(3) sum [of "\<lambda>h. card (avail Blocks fs sc h)"] rest ps(1) cnt by simp
    obtain qs fs' where qs: "Get_Free_Blocks_loop fs sc [g..<groups sc] how i ret =
        Some (take i ret @ map (num Blocks sc) (ps @ qs), fs')"
      "length qs = unat how - ?c" "effect Blocks sc fs2 fs' qs (taken qs)"
      using Suc.hyps(1) [OF k, of fs2 how' "i + ?c" "take i ret @ map (num Blocks sc) ps @ drop (i + ?c) ret"]
        effect_layout [OF ps(4)] counts_after [OF ps(4)] Suc.prems(1,2,4) more need ps(1,2) cnt step
      by auto
    have "set ps \<inter> set qs = {}" using ps(4) qs(3) by (auto simp: effect_def)
    then have "taken (ps @ qs) = (\<lambda>h. taken ps h + taken qs h)" by (intro ext taken_append)
    then have "effect Blocks sc fs fs' (ps @ qs) (taken (ps @ qs))"
      using effect_trans [OF ps(4) qs(3)] by simp
    then show ?thesis using qs ps(2) more by (intro exI [of _ "ps @ qs"] exI [of _ fs']) simp
  qed
qed

text \<open>
  The server asks for one inode at a time, which keeps it out of the faulty branch of
  \<open>Get_Free_Inodes\<close>.
\<close>

lemma inode_loop:
  assumes "layout fs sc" and "\<And>h. h < groups sc \<Longrightarrow> cnt Inodes fs sc h = card (avail Inodes fs sc h)"
    and "0 < (\<Sum>h\<in>{g..<groups sc}. card (avail Inodes fs sc h))"
  shows "\<exists>p fs'. Get_Free_Inodes_loop fs sc [g..<groups sc] 1 0 [0] = Some ([num Inodes sc p], fs') \<and>
    effect Inodes sc fs fs' [p] (taken [p])"
  using assms
proof (induction "groups sc - g" arbitrary: g)
  case (Suc k)
  then have g: "g < groups sc" and k: "k = groups sc - Suc g" by auto
  have upt: "[g..<groups sc] = g # [Suc g..<groups sc]" using g by (simp add: upt_conv_Cons)
  let ?c = "gd_addr sc g + Group_Descriptor_off (cnt_field Inodes)"
  note cnt = Suc.prems(2) [OF g]
  show ?case
  proof (cases "cnt Inodes fs sc g = 0")
    case True
    then have "load16 fs ?c = 0" "card (avail Inodes fs sc g) = 0" using cnt by (simp_all add: cnt_def unat_eq_zero)
    then show ?thesis
      using Suc.hyps(1) [OF k Suc.prems(1,2)] Suc.prems(3) g
      by (simp add: upt gd_read [OF g] sum.atLeast_Suc_lessThan)
  next
    case False
    then have le: "(1 :: u32) \<le> ucast (load16 fs ?c)"
      by (simp add: word_le_nat_alt unat_ucast_u16 cnt_def)
    then have w: "unat (ucast (ucast (load16 fs ?c) - (1 :: u32)) :: u16) = cnt Inodes fs sc g - 1"
      by (simp only: unat_narrow_sub load_cnt unat_1)
    obtain ps fs' where r: "in_group Inodes (store16 fs ?c (ucast (ucast (load16 fs ?c) - (1 :: u32)))) sc 1 g =
        (map (num Inodes sc) ps, fs')" and ps: "length ps = 1" "effect Inodes sc fs fs' ps (taken ps)"
      using claim_first [OF Suc.prems(1) g cnt _ w] False by force
    from ps(1) obtain p where "ps = [p]" by (auto simp: length_Suc_conv)
    with r ps le show ?thesis
      by (intro exI [of _ p] exI [of _ fs']) (simp add: upt gd_read [OF g] copy_words_def loop_done)
  qed
qed simp

section \<open>Clearing new blocks\<close>

lemma CleanBlocks_clears:
  assumes "bs \<noteq> []" and "\<forall>b \<in> set bs. b \<noteq> 0"
  shows "CleanBlocks fs sc (bs @ 0 # hs) = Some (fold (\<lambda>b m. memset m (block_addr sc b) 0 (unat (BLOCK_SIZE sc))) (butlast bs) fs)"
  using assms
proof (induction bs arbitrary: fs)
  case (Cons b bs)
  then show ?case by (cases bs) auto
qed simp

definition in_block :: "Superblock_constants \<Rightarrow> u32 \<Rightarrow> nat \<Rightarrow> bool" where
  "in_block sc b x \<longleftrightarrow> block_addr sc b \<le> x \<and> x < block_addr sc b + bsize sc"

lemma fold_memset:
  "fold (\<lambda>b m. memset m (block_addr sc b) 0 (unat (BLOCK_SIZE sc))) bs fs x =
     (if \<exists>b \<in> set bs. in_block sc b x then 0 else fs x)"
  by (induction bs arbitrary: fs) (auto simp: memset_def in_block_def bsize_def)

lemma nonmeta_change:
  assumes "layout fs sc" and out: "\<And>x. is_meta fs sc x \<Longrightarrow> fs' x = fs x"
  shows "same_words sc fs fs'" and "g < groups sc \<Longrightarrow> cnt K fs' sc g = cnt K fs sc g"
    and "tot K fs' = tot K fs" and "free_set K fs' sc = free_set K fs sc"
proof -
  have low: "x < gdt_end sc \<Longrightarrow> fs' x = fs x" for x by (intro out) (simp add: is_meta_def)
  have gdt: "2048 \<le> unat (GDT_START sc)" using assms(1) by (simp add: layout_def)
  show w: "same_words sc fs fs'" "g < groups sc \<Longrightarrow> cnt K fs' sc g = cnt K fs sc g" "tot K fs' = tot K fs"
    using low_frame [OF low gdt] by auto
  have "avail K fs' sc g = avail K fs sc g" if "g < groups sc" for g
  proof (rule avail_frame)
    show "bm_word K fs' sc g = bm_word K fs sc g" using w(1) that by (simp add: same_words_def)
    show "per_group K sc \<le> 8 * bsize sc" using assms(1) by (simp add: layout_def)
    show "fs' (bitarray (bm K fs sc g) + i) = fs (bitarray (bm K fs sc g) + i)" if "i < bsize sc" for i
      using that \<open>g < groups sc\<close> unfolding is_meta_def
      by (intro out [unfolded is_meta_def] disjI2 exI [of _ K] exI [of _ g]) simp
  qed
  then show "free_set K fs' sc = free_set K fs sc" by (auto simp: free_set_def)
qed

section \<open>Numbers\<close>

fun per_group_word :: "resource \<Rightarrow> Superblock_constants \<Rightarrow> u32" where
  "per_group_word Blocks sc = BLOCKS_PER_GROUP sc"
| "per_group_word Inodes sc = INODES_PER_GROUP sc"

lemma num_unat:
  assumes "layout fs sc" "g < groups sc" "j < per_group K sc"
  shows "unat (num K sc (g, j)) = g * per_group K sc + j + 1"
proof -
  have "Suc g * per_group K sc \<le> groups sc * per_group K sc"
    using assms(2) by (intro mult_le_mono) simp_all
  then have "g * per_group K sc + j + 1 < 4294967296"
    using assms(1,3) by (auto simp: layout_def dest: spec [of _ K])
  then show ?thesis by (simp only: num_def fst_conv snd_conv unat_of_nat_u32 mod_less)
qed

lemma num_split:
  assumes "layout fs sc" "g < groups sc" "j < per_group K sc"
  shows "(num K sc (g, j) - 1) div per_group_word K sc = of_nat g"
    and "unat ((num K sc (g, j) - 1) mod per_group_word K sc) = j"
    and "num K sc (g, j) \<noteq> 0"
proof -
  have pg: "unat (per_group_word K sc) = per_group K sc" by (cases K) simp_all
  have "unat (num K sc (g, j)) \<noteq> 0" by (simp add: num_unat [OF assms])
  then show nz: "num K sc (g, j) \<noteq> 0" by auto
  then have m: "unat (num K sc (g, j) - 1) = g * per_group K sc + j"
    using num_unat [OF assms] by (simp add: unat_minus_one)
  have "unat ((num K sc (g, j) - 1) div per_group_word K sc) = g"
    using assms(3) by (simp add: unat_div_distrib m pg)
  from arg_cong [OF this, of "of_nat :: nat \<Rightarrow> u32"]
  show "(num K sc (g, j) - 1) div per_group_word K sc = of_nat g" by simp
  show "unat ((num K sc (g, j) - 1) mod per_group_word K sc) = j"
    using assms(3) by (simp add: unat_mod_distrib m pg)
qed

lemma num_inj: "layout fs sc \<Longrightarrow> inj_on (num K sc) ({..<groups sc} \<times> {..<per_group K sc})"
proof (rule inj_onI)
  fix p q
  assume lay: "layout fs sc" and p: "p \<in> {..<groups sc} \<times> {..<per_group K sc}"
    and q: "q \<in> {..<groups sc} \<times> {..<per_group K sc}" and eq: "num K sc p = num K sc q"
  obtain g j h i where pq: "p = (g, j)" "q = (h, i)" by (cases p; cases q)
  have j: "unat ((num K sc (g, j) - 1) mod per_group_word K sc) = j" "unat (num K sc (g, j)) = g * per_group K sc + j + 1"
    using p pq by (intro num_split(2) [OF lay] num_unat [OF lay]; simp)+
  have i: "unat ((num K sc (h, i) - 1) mod per_group_word K sc) = i" "unat (num K sc (h, i)) = h * per_group K sc + i + 1"
    using q pq by (intro num_split(2) [OF lay] num_unat [OF lay]; simp)+
  have "j = i" "g * per_group K sc + j + 1 = h * per_group K sc + i + 1"
    using i j eq [unfolded pq] by argo+
  moreover have "0 < per_group K sc" using lay by (simp add: layout_def)
  ultimately show "p = q" by (simp add: pq)
qed

lemma free_set_sub: "free_set K fs sc \<subseteq> {..<groups sc} \<times> {..<per_group K sc}"
  by (auto simp: free_set_def avail_def)

lemma finite_free_set: "finite (free_set K fs sc)"
  by (rule finite_subset [OF free_set_sub]) simp

lemma card_free_set: "card (free_set K fs sc) = (\<Sum>g\<in>{0..<groups sc}. card (avail K fs sc g))"
proof -
  have "free_set K fs sc = (SIGMA g:{0..<groups sc}. avail K fs sc g)" by (auto simp: free_set_def)
  moreover have "finite (avail K fs sc g)" for g
    by (rule finite_subset [of _ "{..<per_group K sc}"]) (auto simp: avail_def)
  ultimately show ?thesis by simp
qed

section \<open>The allocators on the server state\<close>

definition srv_ok :: "'c server \<Rightarrow> bool" where
  "srv_ok st \<longleftrightarrow> super_set st \<and> fs_ok (fs_file st) (Super_constants st) \<and> (\<exists>hs. heap_after st = 0 # hs)"

definition free_nums :: "resource \<Rightarrow> 'c server \<Rightarrow> u32 set" where
  "free_nums K st = num K (Super_constants st) ` free_set K (fs_file st) (Super_constants st)"

definition usable :: "resource \<Rightarrow> mem \<Rightarrow> Superblock_constants \<Rightarrow> (nat \<times> nat) set" where
  "usable K fs sc = {(g, j). g < groups sc \<and> j < per_group K sc \<and>
     (K = Blocks \<longrightarrow> (\<forall>i < bsize sc. \<not> is_meta fs sc (block_addr sc (num Blocks sc (g, j)) + i)))}"

lemma usable_nonmeta:
  "p \<in> usable Blocks fs sc \<Longrightarrow> i < bsize sc \<Longrightarrow> \<not> is_meta fs sc (block_addr sc (num Blocks sc p) + i)"
  by (cases p) (simp add: usable_def)

lemma usable_not_meta:
  assumes "p \<in> usable Blocks fs sc" "in_block sc (num Blocks sc p) x"
  shows "\<not> is_meta fs sc x"
proof -
  let ?a = "block_addr sc (num Blocks sc p)"
  have "x = ?a + (x - ?a)" "x - ?a < bsize sc" using assms(2) by (auto simp: in_block_def)
  then show ?thesis using usable_nonmeta [OF assms(1), of "x - ?a"] by simp
qed

lemma usable_sub: "usable K fs sc \<subseteq> {..<groups sc} \<times> {..<per_group K sc}"
  by (auto simp: usable_def)

lemma usable_cong: "same_words sc fs fs' \<Longrightarrow> usable K fs' sc = usable K fs sc"
  by (simp add: usable_def same_words_meta)

lemma fs_okD:
  assumes "fs_ok fs sc"
  shows "layout fs sc" "g < groups sc \<Longrightarrow> cnt K fs sc g = card (avail K fs sc g)"
    "tot K fs = card (free_set K fs sc)" "free_set K fs sc \<subseteq> usable K fs sc"
  using assms by (auto simp: fs_ok_def usable_def avail_def)

lemma fs_okI:
  assumes "layout fs sc" "\<And>K g. g < groups sc \<Longrightarrow> cnt K fs sc g = card (avail K fs sc g)"
    "\<And>K. tot K fs = card (free_set K fs sc)" "free_set Blocks fs sc \<subseteq> usable Blocks fs sc"
  shows "fs_ok fs sc"
  using assms by (auto simp: fs_ok_def usable_def subset_iff)

lemma fs_ok_cong:
  assumes ok: "fs_ok fs sc" and out: "\<And>x. is_meta fs sc x \<Longrightarrow> fs' x = fs x"
  shows "fs_ok fs' sc"
proof -
  note same = nonmeta_change [OF fs_okD(1) [OF ok] out]
  have "g < groups sc \<Longrightarrow> avail K fs' sc g = avail K fs sc g" for K g
    using same(4) avail_eq [of g sc K] by metis
  then show ?thesis
    using fs_okD [OF ok] same usable_cong [OF same(1)] same_words_layout [OF same(1)]
    by (intro fs_okI) auto
qed

lemma fs_ok_taken:
  fixes fs sc K n
  defines "fs1 \<equiv> store32 fs (superblock_field (tot_field K)) (load32 fs (superblock_field (tot_field K)) - n)"
  assumes ok: "fs_ok fs sc" and eff: "effect K sc fs1 fs2 ps (taken ps)"
    and len: "length ps = unat n" and n: "unat n \<le> card (free_set K fs sc)"
  shows "fs_ok fs2 sc" and "set ps \<subseteq> free_set K fs sc"
    and "free_set L fs2 sc = (if L = K then free_set L fs sc - set ps else free_set L fs sc)"
    and "\<not> is_meta fs sc x \<Longrightarrow> fs2 x = fs x" and "same_words sc fs fs2"
proof -
  note st = store_tot [OF fs_okD(1) [OF ok], where K = K and w = "load32 fs (superblock_field (tot_field K)) - n", folded fs1_def]
  have lay1: "layout fs1 sc" using same_words_layout [OF st(1)] fs_okD(1) [OF ok] by simp
  show sub: "set ps \<subseteq> free_set K fs sc" using eff st(5) by (simp add: effect_def)
  show free: "free_set L fs2 sc = (if L = K then free_set L fs sc - set ps else free_set L fs sc)" for L
    using eff st(5) by (simp add: effect_def)
  show w: "same_words sc fs fs2" using eff st(1) same_words_trans unfolding effect_def by blast
  show "fs2 x = fs x" if "\<not> is_meta fs sc x"
  proof -
    have "fs1 x = fs x" using that by (intro st(4)) (simp add: is_meta_def)
    moreover have "fs2 x = fs1 x" using eff that same_words_meta [OF st(1)] by (simp add: effect_def)
    ultimately show ?thesis by simp
  qed
  show "fs_ok fs2 sc"
  proof (rule fs_okI)
    show "layout fs2 sc" using lay1 effect_layout [OF eff] by simp
    show "cnt L fs2 sc g = card (avail L fs2 sc g)" if g: "g < groups sc" for L g
    proof (cases "L = K")
      case True
      then show ?thesis using counts_after [OF eff g] st(2,6) [OF g] fs_okD(2) [OF ok g] by simp
    next
      case False
      then have "cnt L fs2 sc g = cnt L fs1 sc g" using effect_cnt [OF eff g, of L] by simp
      then show ?thesis using False effect_avail [OF eff g, of L] st(2,6) [OF g] fs_okD(2) [OF ok g] by simp
    qed
    have "n \<le> load32 fs (superblock_field (tot_field K))"
      using n fs_okD(3) [OF ok, of K] by (simp add: tot_def word_le_nat_alt)
    then have t: "tot L fs2 = (if L = K then tot L fs - unat n else tot L fs)" for L
      using eff st(3) by (simp add: effect_def tot_def unat_sub)
    have "distinct ps" using eff by (simp add: effect_def)
    then have "card (free_set K fs sc - set ps) = card (free_set K fs sc) - unat n"
      using sub len by (simp add: card_Diff_subset finite_free_set distinct_card)
    then show "tot L fs2 = card (free_set L fs2 sc)" for L
      using t free fs_okD(3) [OF ok] by simp
    show "free_set Blocks fs2 sc \<subseteq> usable Blocks fs2 sc"
      using fs_okD(4) [OF ok, of Blocks] free [of Blocks] usable_cong [OF w] by auto
  qed
qed

lemma st_SuperBlock_read_set [simp]: "super_set st \<Longrightarrow> st_SuperBlock_read st = st"
  by (simp add: st_SuperBlock_read_def SuperBlock_read_def)

lemma Get_Free_Blocks_ok:
  assumes ok: "srv_ok st" and how: "how \<noteq> 0" "unat how \<le> card (free_set Blocks (fs_file st) (Super_constants st))"
  shows "\<exists>ps fs'. Get_Free_Blocks st how = Some (Some (map (num Blocks (Super_constants st)) ps), st\<lparr>fs_file := fs'\<rparr>) \<and>
    length ps = unat how \<and> distinct ps \<and> set ps \<subseteq> free_set Blocks (fs_file st) (Super_constants st) \<and>
    fs_ok fs' (Super_constants st) \<and> same_words (Super_constants st) (fs_file st) fs' \<and>
    (\<forall>L. free_set L fs' (Super_constants st) = free_set L (fs_file st) (Super_constants st) - (if L = Blocks then set ps else {})) \<and>
    (\<forall>x. \<not> is_meta (fs_file st) (Super_constants st) x \<longrightarrow> fs' x =
      (if \<exists>p \<in> set (butlast ps). in_block (Super_constants st) (num Blocks (Super_constants st) p) x then 0 else fs_file st x))"
proof -
  let ?sc = "Super_constants st" and ?fs = "fs_file st"
  let ?t = "superblock_field (tot_field Blocks)"
  let ?fs1 = "store32 ?fs ?t (load32 ?fs ?t - how)"
  obtain hs where set: "super_set st" and fok: "fs_ok ?fs ?sc" and heap: "heap_after st = 0 # hs"
    using ok by (auto simp: srv_ok_def)
  note lay = fs_okD(1) [OF fok]
  note stt = store_tot [OF lay, where K = Blocks and w = "load32 ?fs ?t - how"]
  have "\<exists>ps fs2. Get_Free_Blocks_loop ?fs1 ?sc [0..<groups ?sc] how 0 (replicate (unat how) 0) =
      Some (take 0 (replicate (unat how) 0) @ map (num Blocks ?sc) ps, fs2) \<and>
      length ps = unat how \<and> effect Blocks ?sc ?fs1 fs2 ps (taken ps)"
    using how(2) stt(2,6) fs_okD(2) [OF fok] lay same_words_layout [OF stt(1)]
    by (intro blocks_loop) (auto simp: card_free_set)
  then obtain ps fs2 where loop: "Get_Free_Blocks_loop ?fs1 ?sc [0..<groups ?sc] how 0 (replicate (unat how) 0) =
      Some (map (num Blocks ?sc) ps, fs2)" and len: "length ps = unat how" and eff: "effect Blocks ?sc ?fs1 fs2 ps (taken ps)"
    by auto
  note tk = fs_ok_taken [OF fok eff len how(2)]
  have ps: "ps \<noteq> []" using len how(1) by (auto simp: unat_eq_zero)
  have nz: "\<forall>b \<in> set (map (num Blocks ?sc) ps). b \<noteq> 0"
    using subset_trans [OF tk(2) free_set_sub] num_split(3) [OF lay, where K = Blocks] by auto
  define fs' where "fs' = fold (\<lambda>b m. memset m (block_addr ?sc b) 0 (unat (BLOCK_SIZE ?sc))) (butlast (map (num Blocks ?sc) ps)) fs2"
  have clean: "CleanBlocks fs2 ?sc (map (num Blocks ?sc) ps @ heap_after st) = Some fs'"
    unfolding heap fs'_def using ps nz by (intro CleanBlocks_clears) auto
  have fs': "fs' x = (if \<exists>p \<in> set (butlast ps). in_block ?sc (num Blocks ?sc p) x then 0 else fs2 x)" for x
    unfolding fs'_def fold_memset by (simp add: map_butlast [symmetric])
  have "set (butlast ps) \<subseteq> usable Blocks fs2 ?sc"
    using tk(2) fs_okD(4) [OF fok, of Blocks] usable_cong [OF tk(5)] in_set_butlastD by fastforce
  then have meta: "fs' x = fs2 x" if "is_meta fs2 ?sc x" for x
    using usable_not_meta that by (auto simp: fs')
  note same = nonmeta_change [OF fs_okD(1) [OF tk(1)] meta]
  have tot: "\<not> how > load32 ?fs ?t" using how(2) fs_okD(3) [OF fok, of Blocks] by (simp add: tot_def word_less_nat_alt)
  have "Get_Free_Blocks st how = Some (Some (map (num Blocks ?sc) ps), st\<lparr>fs_file := fs'\<rparr>)"
    using set tot loop clean by (simp add: Get_Free_Blocks_def groups_def)
  moreover have "free_set L fs' ?sc = free_set L ?fs ?sc - (if L = Blocks then set ps else {})" for L
    using same(4) tk(3) by simp
  moreover have "distinct ps" using eff by (simp add: effect_def)
  moreover have "fs_ok fs' ?sc" using fs_ok_cong [OF tk(1) meta] .
  moreover have "same_words ?sc ?fs fs'" using same_words_trans [OF tk(5) same(1)] .
  moreover have "fs' x = (if \<exists>p \<in> set (butlast ps). in_block ?sc (num Blocks ?sc p) x then 0 else ?fs x)"
    if "\<not> is_meta ?fs ?sc x" for x using that by (simp add: fs' tk(4))
  ultimately show ?thesis using len tk(2) by (intro exI [of _ ps] exI [of _ fs'] conjI allI impI) simp_all
qed

lemma Get_Free_full:
  assumes "srv_ok st"
  shows "card (free_set Blocks (fs_file st) (Super_constants st)) < unat how \<Longrightarrow>
      Get_Free_Blocks st how = Some (None, st\<lparr>errno := ENOSPC\<rparr>)"
    and "card (free_set Inodes (fs_file st) (Super_constants st)) < unat how \<Longrightarrow>
      Get_Free_Inodes st how = Some (None, st\<lparr>errno := ENOSPC\<rparr>)"
  using assms fs_okD(3) [of "fs_file st" "Super_constants st" Blocks] fs_okD(3) [of "fs_file st" "Super_constants st" Inodes]
  by (auto simp: srv_ok_def Get_Free_Blocks_def Get_Free_Inodes_def tot_def word_less_nat_alt Let_def)

lemma Get_Free_Inodes_ok:
  assumes ok: "srv_ok st" and free: "free_set Inodes (fs_file st) (Super_constants st) \<noteq> {}"
  shows "\<exists>p fs'. Get_Free_Inodes st 1 = Some (Some [num Inodes (Super_constants st) p], st\<lparr>fs_file := fs'\<rparr>) \<and>
    p \<in> free_set Inodes (fs_file st) (Super_constants st) \<and>
    fs_ok fs' (Super_constants st) \<and> same_words (Super_constants st) (fs_file st) fs' \<and>
    (\<forall>L. free_set L fs' (Super_constants st) = free_set L (fs_file st) (Super_constants st) - (if L = Inodes then {p} else {})) \<and>
    (\<forall>x. \<not> is_meta (fs_file st) (Super_constants st) x \<longrightarrow> fs' x = fs_file st x)"
proof -
  let ?sc = "Super_constants st" and ?fs = "fs_file st"
  let ?t = "superblock_field (tot_field Inodes)"
  let ?fs1 = "store32 ?fs ?t (load32 ?fs ?t - 1)"
  have set: "super_set st" and fok: "fs_ok ?fs ?sc" using ok by (auto simp: srv_ok_def)
  note lay = fs_okD(1) [OF fok]
  note stt = store_tot [OF lay, where K = Inodes and w = "load32 ?fs ?t - 1"]
  have pos: "0 < card (free_set Inodes ?fs ?sc)" using free by (simp add: card_gt_0_iff finite_free_set)
  have "\<exists>p fs2. Get_Free_Inodes_loop ?fs1 ?sc [0..<groups ?sc] 1 0 [0] = Some ([num Inodes ?sc p], fs2) \<and>
      effect Inodes ?sc ?fs1 fs2 [p] (taken [p])"
    using pos stt(2,6) fs_okD(2) [OF fok] lay same_words_layout [OF stt(1)]
    by (intro inode_loop) (auto simp: card_free_set)
  then obtain p fs2 where loop: "Get_Free_Inodes_loop ?fs1 ?sc [0..<groups ?sc] 1 0 [0] = Some ([num Inodes ?sc p], fs2)"
    and eff: "effect Inodes ?sc ?fs1 fs2 [p] (taken [p])" by blast
  have "length [p] = unat (1 :: u32)" "unat (1 :: u32) \<le> card (free_set Inodes ?fs ?sc)" using pos by auto
  note tk = fs_ok_taken [OF fok eff this]
  have "\<not> 1 > load32 ?fs ?t" using pos fs_okD(3) [OF fok, of Inodes] by (simp add: tot_def word_less_nat_alt)
  then have "Get_Free_Inodes st 1 = Some (Some [num Inodes ?sc p], st\<lparr>fs_file := fs2\<rparr>)"
    using set loop by (simp add: Get_Free_Inodes_def groups_def Let_def)
  then show ?thesis using tk by (intro exI [of _ p] exI [of _ fs2]) simp
qed

section \<open>Releasing\<close>

definition release_mem :: "resource \<Rightarrow> mem \<Rightarrow> Superblock_constants \<Rightarrow> nat \<Rightarrow> nat \<Rightarrow> mem" where
  "release_mem K fs sc g j =
     (let fs1 = bitarray_clean_bit (bm K fs sc g) fs j;
          c = gd_addr sc g + Group_Descriptor_off (cnt_field K);
          fs2 = store16 fs1 c (load16 fs1 c + 1);
          t = superblock_field (tot_field K)
      in store32 fs2 t (load32 fs2 t + 1))"

lemma setFree_release:
  assumes "srv_ok st" "g < groups (Super_constants st)" "j < per_group K (Super_constants st)"
  shows "(case K of Blocks \<Rightarrow> setFreeBlockBitmap | Inodes \<Rightarrow> setFreeInodeBitmap) st (num K (Super_constants st) (g, j)) =
    Some (st\<lparr>fs_file := release_mem K (fs_file st) (Super_constants st) g j\<rparr>)"
proof -
  have lay: "layout (fs_file st) (Super_constants st)" and set: "super_set st"
    using assms(1) fs_okD(1) by (auto simp: srv_ok_def)
  note split = num_split(1,2) [OF lay assms(2,3)]
  show ?thesis
    using split set gd_read [OF assms(2)]
    by (cases K) (simp_all add: setFreeBlockBitmap_def setFreeInodeBitmap_def release_mem_def bm_def bm_word_def bsize_def
        Inode_locateGroup_def Inode_getLocalIndex_def Let_def)
qed

lemma clean_bit_step:
  fixes fs sc K g j
  defines "fs' \<equiv> bitarray_clean_bit (bm K fs sc g) fs j"
  assumes "layout fs sc" "g < groups sc" "j < per_group K sc"
  shows "\<forall>x. disj_range (bitarray (bm K fs sc g)) (bsize sc) x 1 \<longrightarrow> fs' x = fs x"
    and "free_set L fs' sc = (if L = K then insert (g, j) (free_set L fs sc) else free_set L fs sc)"
    and "h < groups sc \<Longrightarrow> avail L fs' sc h = (if L = K \<and> h = g then insert j (avail L fs sc h) else avail L fs sc h)"
proof -
  have "j div 8 < bsize sc" using assms(2,4) unfolding layout_def by (metis less_mult_imp_div_less mult.commute order_less_le_trans)
  then show out: "\<forall>x. disj_range (bitarray (bm K fs sc g)) (bsize sc) x 1 \<longrightarrow> fs' x = fs x"
    unfolding fs'_def by (intro allI impI, subst bitarray_frame) (auto simp: disj_range_def)
  note change = bitmap_change [where K = K, OF assms(2,3) out]
  have "bm K fs' sc g = bm K fs sc g" using change(1) assms(3) by (intro bm_cong) (simp add: same_words_def)
  then have "avail K fs' sc g = insert j (avail K fs sc g)"
    using assms(4) by (auto simp: avail_def fs'_def bits.test_clean)
  with change(5) show av: "h < groups sc \<Longrightarrow> avail L fs' sc h = (if L = K \<and> h = g then insert j (avail L fs sc h) else avail L fs sc h)" for L h
    by auto
  show "free_set L fs' sc = (if L = K then insert (g, j) (free_set L fs sc) else free_set L fs sc)"
    using assms(3) av by (intro free_set_eqI) (auto simp: free_set_def)
qed

lemma release_ok:
  assumes ok: "fs_ok fs sc" and p: "(g, j) \<in> usable K fs sc" "(g, j) \<notin> free_set K fs sc"
  shows "fs_ok (release_mem K fs sc g j) sc"
    and "free_set L (release_mem K fs sc g j) sc = (if L = K then insert (g, j) (free_set L fs sc) else free_set L fs sc)"
    and "same_words sc fs (release_mem K fs sc g j)"
    and "\<not> is_meta fs sc x \<Longrightarrow> release_mem K fs sc g j x = fs x"
proof -
  let ?c = "gd_addr sc g + Group_Descriptor_off (cnt_field K)" and ?t = "superblock_field (tot_field K)"
  have g: "g < groups sc" and j: "j < per_group K sc" "j \<notin> avail K fs sc g" using p by (auto simp: usable_def)
  note lay = fs_okD(1) [OF ok]
  define fs1 where "fs1 = bitarray_clean_bit (bm K fs sc g) fs j"
  note clean = clean_bit_step [OF lay g j(1), folded fs1_def]
  note c1 = bitmap_change [where K = K, OF lay g clean(1)]
  have lay1: "layout fs1 sc" using same_words_layout [OF c1(1)] lay by simp
  define fs2 where "fs2 = store16 fs1 ?c (load16 fs1 ?c + 1)"
  note c2 = store_cnt [OF lay1 g, where K = K and w = "load16 fs1 ?c + 1", folded fs2_def]
  have lay2: "layout fs2 sc" using same_words_layout [OF c2(1)] lay1 by simp
  have rel: "release_mem K fs sc g j = store32 fs2 ?t (load32 fs2 ?t + 1)"
    by (simp add: release_mem_def fs1_def fs2_def Let_def)
  note c3 = store_tot [OF lay2, where K = K and w = "load32 fs2 ?t + 1", folded rel]
  show w: "same_words sc fs (release_mem K fs sc g j)"
    using same_words_trans [OF same_words_trans [OF c1(1) c2(1)] c3(1)] .
  show free: "free_set L (release_mem K fs sc g j) sc = (if L = K then insert (g, j) (free_set L fs sc) else free_set L fs sc)" for L
    using clean(2) c2(5) c3(5) by simp
  show "release_mem K fs sc g j x = fs x" if "\<not> is_meta fs sc x"
  proof -
    have "gdt_end sc \<le> x" using that by (simp add: is_meta_def)
    then show ?thesis using c1(4) [OF that] c2(4) [of x] c3(4) [of x] by simp
  qed
  have "unat (load16 fs1 ?c + 1) = cnt K fs sc g + 1"
  proof -
    have "insert j (avail K fs sc g) \<subseteq> {..<per_group K sc}" using j by (auto simp: avail_def)
    then have "card (insert j (avail K fs sc g)) \<le> per_group K sc" using card_mono [of "{..<per_group K sc}"] by fastforce
    moreover have "finite (avail K fs sc g)" by (rule finite_subset [of _ "{..<per_group K sc}"]) (auto simp: avail_def)
    ultimately have "cnt K fs1 sc g + 1 < 65536"
      using fs_okD(2) [OF ok g, of K] c1(2) [OF g, of K] j(2) layoutD(2) [OF lay, of K] by simp
    then show ?thesis using c1(2) [OF g, of K] by (simp add: cnt_def unat_word_ariths(1))
  qed
  then have cnt: "h < groups sc \<Longrightarrow> cnt L (release_mem K fs sc g j) sc h = (if L = K \<and> h = g then cnt K fs sc g + 1 else cnt L fs sc h)" for L h
    using c1(2) c2(2) c3(2) by simp
  have "card (insert (g, j) (free_set K fs sc)) \<le> card ({..<groups sc} \<times> {..<per_group K sc})"
    using free_set_sub [of K fs sc] g j(1) by (intro card_mono) auto
  then have "tot K fs + 1 < 2 ^ 32"
    using p(2) fs_okD(3) [OF ok, of K] layoutD(4) [OF lay, of K] by (simp add: finite_free_set)
  moreover have "tot L fs2 = tot L fs" for L using c1(3) c2(3) by simp
  ultimately have tot: "tot L (release_mem K fs sc g j) = (if L = K then tot K fs + 1 else tot L fs)" for L
    using c3(3) by (simp add: tot_def unat_word_ariths(1))
  show "fs_ok (release_mem K fs sc g j) sc"
  proof (rule fs_okI)
    show "layout (release_mem K fs sc g j) sc" using same_words_layout [OF w] lay by simp
    show "cnt L (release_mem K fs sc g j) sc h = card (avail L (release_mem K fs sc g j) sc h)" if h: "h < groups sc" for L h
    proof -
      have "avail L (release_mem K fs sc g j) sc h = (if L = K \<and> h = g then insert j (avail L fs sc h) else avail L fs sc h)"
        using clean(3) c2(6) c3(6) h by simp
      moreover have "finite (avail L fs sc h)" by (rule finite_subset [of _ "{..<per_group L sc}"]) (auto simp: avail_def)
      ultimately show ?thesis using cnt [OF h] fs_okD(2) [OF ok] h g j(2) by auto
    qed
    show "tot L (release_mem K fs sc g j) = card (free_set L (release_mem K fs sc g j) sc)" for L
      using tot free fs_okD(3) [OF ok] p(2) by (simp add: finite_free_set)
    show "free_set Blocks (release_mem K fs sc g j) sc \<subseteq> usable Blocks (release_mem K fs sc g j) sc"
      using free [of Blocks] p(1) fs_okD(4) [OF ok, of Blocks] usable_cong [OF w] by auto
  qed
qed

section \<open>The allocator interface\<close>

fun release_all :: "('s \<Rightarrow> 'a \<Rightarrow> 's option) \<Rightarrow> 's \<Rightarrow> 'a list \<Rightarrow> 's option" where
  "release_all release s [] = Some s"
| "release_all release s (x # xs) = (case release s x of None \<Rightarrow> None | Some s' \<Rightarrow> release_all release s' xs)"

locale allocator =
  fixes ok :: "'s \<Rightarrow> bool"
    and free :: "'s \<Rightarrow> 'a set"
    and valid :: "'s \<Rightarrow> 'a set"
    and alloc :: "'s \<Rightarrow> nat \<Rightarrow> ('a list option \<times> 's) option"
    and release :: "'s \<Rightarrow> 'a \<Rightarrow> 's option"
    and req :: "nat \<Rightarrow> bool"
  assumes free_valid: "ok s \<Longrightarrow> free s \<subseteq> valid s"
    and alloc_ok: "ok s \<Longrightarrow> req n \<Longrightarrow> n \<le> card (free s) \<Longrightarrow>
      \<exists>xs s'. alloc s n = Some (Some xs, s') \<and> ok s' \<and> length xs = n \<and> distinct xs \<and> set xs \<subseteq> free s \<and>
        free s' = free s - set xs \<and> valid s' = valid s"
    and alloc_full: "ok s \<Longrightarrow> req n \<Longrightarrow> card (free s) < n \<Longrightarrow>
      \<exists>s'. alloc s n = Some (None, s') \<and> ok s' \<and> free s' = free s \<and> valid s' = valid s"
    and release_ok: "ok s \<Longrightarrow> x \<in> valid s \<Longrightarrow> x \<notin> free s \<Longrightarrow>
      \<exists>s'. release s x = Some s' \<and> ok s' \<and> free s' = insert x (free s) \<and> valid s' = valid s"
begin

lemma alloc_total: "ok s \<Longrightarrow> req n \<Longrightarrow> \<exists>r s'. alloc s n = Some (r, s') \<and> ok s' \<and> valid s' = valid s"
  using alloc_ok [of s n] alloc_full [of s n] by (cases "n \<le> card (free s)") (blast, force)

lemma allocs_disjoint:
  assumes "ok s" "req n" "req m" "alloc s n = Some (Some xs, s')" "alloc s' m = Some (Some ys, s'')"
  shows "set xs \<inter> set ys = {}"
proof -
  have "n \<le> card (free s)" using alloc_full [of s n] assms by force
  then have s': "ok s'" "free s' = free s - set xs" using alloc_ok [of s n] assms by auto
  then have "m \<le> card (free s')" using alloc_full [of s' m] assms by force
  then have "set ys \<subseteq> free s'" using alloc_ok [of s' m] assms s' by auto
  with s' show ?thesis by auto
qed

lemma release_all_ok:
  assumes "ok s" "set xs \<subseteq> valid s" "set xs \<inter> free s = {}" "distinct xs"
  shows "\<exists>s'. release_all release s xs = Some s' \<and> ok s' \<and> free s' = free s \<union> set xs \<and> valid s' = valid s"
  using assms
proof (induction xs arbitrary: s)
  case (Cons x xs)
  obtain s1 where s1: "release s x = Some s1" "ok s1" "free s1 = insert x (free s)" "valid s1 = valid s"
    using release_ok [of s x] Cons.prems by auto
  then obtain s' where "release_all release s1 xs = Some s' \<and> ok s' \<and> free s' = free s1 \<union> set xs \<and> valid s' = valid s1"
    using Cons.IH [of s1] Cons.prems by auto
  with s1 show ?case by auto
qed simp

lemma alloc_release:
  assumes "ok s" "req n" "alloc s n = Some (Some xs, s')"
  shows "\<exists>s''. release_all release s' xs = Some s'' \<and> ok s'' \<and> free s'' = free s"
proof -
  have "n \<le> card (free s)" using alloc_full [of s n] assms by force
  then have s': "ok s'" "distinct xs" "set xs \<subseteq> free s" "free s' = free s - set xs" "valid s' = valid s"
    using alloc_ok [of s n] assms by auto
  moreover have "set xs \<subseteq> valid s" using s'(3) free_valid [OF assms(1)] by blast
  moreover have "free s - set xs \<union> set xs = free s" using s'(3) by blast
  ultimately show ?thesis using release_all_ok [of s' xs] by auto
qed

end

definition valid_nums :: "resource \<Rightarrow> 'c server \<Rightarrow> u32 set" where
  "valid_nums K st = num K (Super_constants st) ` usable K (fs_file st) (Super_constants st)"

lemma card_free_nums:
  assumes "srv_ok st"
  shows "card (free_nums K st) = card (free_set K (fs_file st) (Super_constants st))"
proof -
  have "layout (fs_file st) (Super_constants st)" using assms fs_okD(1) by (auto simp: srv_ok_def)
  from inj_on_subset [OF num_inj [OF this] free_set_sub] show ?thesis
    unfolding free_nums_def by (rule card_image)
qed

lemma num_image_diff:
  assumes "layout fs sc" "A \<subseteq> {..<groups sc} \<times> {..<per_group K sc}" "B \<subseteq> {..<groups sc} \<times> {..<per_group K sc}"
  shows "num K sc ` (A - B) = num K sc ` A - num K sc ` B"
  by (rule inj_on_image_set_diff [OF num_inj [OF assms(1)]]) (use assms in auto)

lemma release_state:
  assumes ok: "srv_ok st" and x: "x \<in> valid_nums K st" "x \<notin> free_nums K st"
  shows "\<exists>st'. (case K of Blocks \<Rightarrow> setFreeBlockBitmap | Inodes \<Rightarrow> setFreeInodeBitmap) st x = Some st' \<and> srv_ok st' \<and>
    free_nums K st' = insert x (free_nums K st) \<and> valid_nums K st' = valid_nums K st"
proof -
  let ?sc = "Super_constants st" and ?fs = "fs_file st"
  obtain g j where p: "x = num K ?sc (g, j)" "(g, j) \<in> usable K ?fs ?sc" using x(1) by (auto simp: valid_nums_def)
  then have gj: "g < groups ?sc" "j < per_group K ?sc" by (auto simp: usable_def)
  have fok: "fs_ok ?fs ?sc" using ok by (simp add: srv_ok_def)
  have "(g, j) \<notin> free_set K ?fs ?sc" using x(2) p(1) by (auto simp: free_nums_def)
  note rel = release_ok [OF fok p(2) this]
  show ?thesis
    unfolding p(1) setFree_release [OF ok gj]
    using ok rel(1,2) usable_cong [OF rel(3)] by (auto simp: srv_ok_def free_nums_def valid_nums_def)
qed

interpretation blk: allocator srv_ok "free_nums Blocks" "valid_nums Blocks"
  "\<lambda>st n. Get_Free_Blocks st (of_nat n)" setFreeBlockBitmap "\<lambda>n. 0 < n \<and> n < 2 ^ 32"
proof unfold_locales
  fix st :: "'c server" and n :: nat and x
  assume ok: "srv_ok st"
  let ?sc = "Super_constants st" and ?fs = "fs_file st"
  have fok: "fs_ok ?fs ?sc" using ok by (simp add: srv_ok_def)
  show "free_nums Blocks st \<subseteq> valid_nums Blocks st"
    using fs_okD(4) [OF fok] by (auto simp: free_nums_def valid_nums_def)
  show "\<exists>s'. setFreeBlockBitmap st x = Some s' \<and> srv_ok s' \<and> free_nums Blocks s' = insert x (free_nums Blocks st) \<and>
      valid_nums Blocks s' = valid_nums Blocks st" if "x \<in> valid_nums Blocks st" "x \<notin> free_nums Blocks st"
    using release_state [OF ok that] by simp
  assume "0 < n \<and> n < 2 ^ 32"
  then have n: "unat (of_nat n :: u32) = n" "of_nat n \<noteq> (0 :: u32)"
    by (simp_all add: unat_of_nat_u32 unat_eq_zero [symmetric])
  show "\<exists>s'. Get_Free_Blocks st (of_nat n) = Some (None, s') \<and> srv_ok s' \<and> free_nums Blocks s' = free_nums Blocks st \<and>
      valid_nums Blocks s' = valid_nums Blocks st" if "card (free_nums Blocks st) < n"
    using Get_Free_full(1) [OF ok, of "of_nat n"] that n card_free_nums [OF ok, of Blocks] ok
    by (auto simp: srv_ok_def free_nums_def valid_nums_def)
  assume "n \<le> card (free_nums Blocks st)"
  then obtain ps fs' where r: "Get_Free_Blocks st (of_nat n) = Some (Some (map (num Blocks ?sc) ps), st\<lparr>fs_file := fs'\<rparr>)"
    and ps: "length ps = n" "distinct ps" "set ps \<subseteq> free_set Blocks ?fs ?sc" and fs': "fs_ok fs' ?sc" "same_words ?sc ?fs fs'"
      "free_set Blocks fs' ?sc = free_set Blocks ?fs ?sc - set ps"
    using Get_Free_Blocks_ok [OF ok n(2)] n(1) card_free_nums [OF ok, of Blocks] by auto
  have sub: "set ps \<subseteq> {..<groups ?sc} \<times> {..<per_group Blocks ?sc}" using ps(3) free_set_sub by blast
  have "distinct (map (num Blocks ?sc) ps)"
    using ps(2) inj_on_subset [OF num_inj [OF fs_okD(1) [OF fok]] sub] by (simp add: distinct_map)
  moreover have "num Blocks ?sc ` free_set Blocks fs' ?sc = free_nums Blocks st - set (map (num Blocks ?sc) ps)"
    unfolding fs'(3) free_nums_def set_map by (rule num_image_diff [OF fs_okD(1) [OF fok] free_set_sub sub])
  ultimately show "\<exists>xs s'. Get_Free_Blocks st (of_nat n) = Some (Some xs, s') \<and> srv_ok s' \<and> length xs = n \<and> distinct xs \<and>
      set xs \<subseteq> free_nums Blocks st \<and> free_nums Blocks s' = free_nums Blocks st - set xs \<and> valid_nums Blocks s' = valid_nums Blocks st"
    using r ps(1,3) fs'(1) usable_cong [OF fs'(2)] ok
    by (intro exI [of _ "map (num Blocks ?sc) ps"] exI [of _ "st\<lparr>fs_file := fs'\<rparr>"])
      (auto simp: srv_ok_def free_nums_def valid_nums_def)
qed

interpretation ino: allocator srv_ok "free_nums Inodes" "valid_nums Inodes"
  "\<lambda>st n. Get_Free_Inodes st (of_nat n)" setFreeInodeBitmap "\<lambda>n. n = 1"
proof unfold_locales
  fix st :: "'c server" and n :: nat and x
  assume ok: "srv_ok st"
  let ?sc = "Super_constants st" and ?fs = "fs_file st"
  have fok: "fs_ok ?fs ?sc" using ok by (simp add: srv_ok_def)
  show "free_nums Inodes st \<subseteq> valid_nums Inodes st"
    using fs_okD(4) [OF fok] by (auto simp: free_nums_def valid_nums_def)
  show "\<exists>s'. setFreeInodeBitmap st x = Some s' \<and> srv_ok s' \<and> free_nums Inodes s' = insert x (free_nums Inodes st) \<and>
      valid_nums Inodes s' = valid_nums Inodes st" if "x \<in> valid_nums Inodes st" "x \<notin> free_nums Inodes st"
    using release_state [OF ok that] by simp
  assume n: "n = 1"
  show "\<exists>s'. Get_Free_Inodes st (of_nat n) = Some (None, s') \<and> srv_ok s' \<and> free_nums Inodes s' = free_nums Inodes st \<and>
      valid_nums Inodes s' = valid_nums Inodes st" if "card (free_nums Inodes st) < n"
    using Get_Free_full(2) [OF ok, of 1] that n card_free_nums [OF ok, of Inodes] ok
    by (auto simp: srv_ok_def free_nums_def valid_nums_def)
  assume "n \<le> card (free_nums Inodes st)"
  then have "free_set Inodes ?fs ?sc \<noteq> {}" using n card_free_nums [OF ok, of Inodes] by auto
  from Get_Free_Inodes_ok [OF ok this] obtain p fs' where r: "Get_Free_Inodes st 1 = Some (Some [num Inodes ?sc p], st\<lparr>fs_file := fs'\<rparr>)"
    and p: "p \<in> free_set Inodes ?fs ?sc" and fs': "fs_ok fs' ?sc" "same_words ?sc ?fs fs'"
      "\<forall>L. free_set L fs' ?sc = free_set L ?fs ?sc - (if L = Inodes then {p} else {})"
    by blast
  have sub: "{p} \<subseteq> {..<groups ?sc} \<times> {..<per_group Inodes ?sc}" using p free_set_sub by blast
  have "num Inodes ?sc ` free_set Inodes fs' ?sc = free_nums Inodes st - {num Inodes ?sc p}"
    unfolding fs'(3) [rule_format] free_nums_def using num_image_diff [OF fs_okD(1) [OF fok] free_set_sub sub, of ?fs] by simp
  then show "\<exists>xs s'. Get_Free_Inodes st (of_nat n) = Some (Some xs, s') \<and> srv_ok s' \<and> length xs = n \<and> distinct xs \<and>
      set xs \<subseteq> free_nums Inodes st \<and> free_nums Inodes s' = free_nums Inodes st - set xs \<and> valid_nums Inodes s' = valid_nums Inodes st"
    using r p fs'(1) usable_cong [OF fs'(2)] ok n
    by (intro exI [of _ "[num Inodes ?sc p]"] exI [of _ "st\<lparr>fs_file := fs'\<rparr>"])
      (auto simp: srv_ok_def free_nums_def valid_nums_def)
qed

section \<open>An example file system\<close>

text \<open>
  One group of 24 blocks of 128 bytes and 8 inodes. Bitmaps are in blocks 17 and 18; blocks
  20 and 22 and inode 6 are free.
\<close>

definition demo_sc :: Superblock_constants where
  "demo_sc = \<lparr>TOTAL_NUMBER_INODES_FS = 8, TOTAL_NUMBER_BLOCKS_FS = 24, BLOCKS_PER_GROUP = 24,
     INODES_PER_GROUP = 8, BLOCK_SIZE = 128, TOTAL_GROUPS = 1, GDT_START = 2048\<rparr>"

definition demo_fs :: mem where
  "demo_fs = (\<lambda>x. if x = 1036 then 2 else if x = 1040 then 1 else if x = 2048 then 17 else if x = 2052 then 18
     else if x = 2060 then 2 else if x = 2062 then 1 else if x = 2176 then 255 else if x = 2177 then 255
     else if x = 2178 then 215 else if x = 2304 then 223 else if x = 2816 then 7 else 0)"

definition demo_server :: "unit server" where
  "demo_server = \<lparr>fs_file = demo_fs, active_file_list = list_create, fs_sleep = create_counter,
     writes_to_sync = create_counter, Super_constants = demo_sc, super_set = True, errno = 0, disk = demo_fs,
     memc = (), heap_after = [0]\<rparr>"

lemmas demo_defs = demo_sc_def demo_fs_def demo_server_def

lemma demo_simps:
  "groups demo_sc = 1" "bsize demo_sc = 128" "per_group Blocks demo_sc = 24" "per_group Inodes demo_sc = 8"
  "unat (BLOCKS_PER_GROUP demo_sc) = 24" "unat (INODES_PER_GROUP demo_sc) = 8"
  "gd_addr demo_sc 0 = 2048" "gdt_end demo_sc = 2080"
  "bm_word Blocks demo_fs demo_sc 0 = 17" "bm_word Inodes demo_fs demo_sc 0 = 18"
  "cnt Blocks demo_fs demo_sc 0 = 2" "cnt Inodes demo_fs demo_sc 0 = 1" "tot Blocks demo_fs = 2" "tot Inodes demo_fs = 1"
  by (simp_all add: demo_defs groups_def bsize_def gd_addr_def gdt_end_def bm_word_def cnt_def tot_def load32_def
      load16_def load_bytes_def upt_rec superblock_field_def SUPERBLOCK_START_def)

lemma avail_code: "avail K fs sc g = set (filter (\<lambda>j. \<not> bitarray_test_bit (bm K fs sc g) fs j) [0..<per_group K sc])"
  by (auto simp: avail_def)

lemma demo_avail: "avail Blocks demo_fs demo_sc 0 = {19, 21}" "avail Inodes demo_fs demo_sc 0 = {5}"
proof -
  have "[0..<24] = [0,1,2,3,4,5,6,7,8,9,10,11,12,13,14,15,16,17,18,19,20,21,22,23 :: nat]" "[0..<8] = [0,1,2,3,4,5,6,7 :: nat]"
    by (simp_all add: upt_rec)
  moreover have "bitarray (bm Blocks demo_fs demo_sc 0) = 2176" "bitarray (bm Inodes demo_fs demo_sc 0) = 2304"
    by (simp_all add: demo_simps, simp_all add: demo_sc_def)
  ultimately show "avail Blocks demo_fs demo_sc 0 = {19, 21}" "avail Inodes demo_fs demo_sc 0 = {5}"
    unfolding avail_code demo_simps test_bit_bit by (simp_all add: demo_fs_def del: bm_simps)
qed

lemma demo_free_set: "free_set Blocks demo_fs demo_sc = {(0, 19), (0, 21)}" "free_set Inodes demo_fs demo_sc = {(0, 5)}"
  by (auto simp: free_set_def demo_simps demo_avail)

lemma resource_all: "(\<forall>K. P K) \<longleftrightarrow> P Blocks \<and> P Inodes"
  by (metis resource.exhaust)

lemma demo_layout: "layout demo_fs demo_sc"
proof -
  have "bitarray (bm Blocks demo_fs demo_sc 0) = 2176" "bitarray (bm Inodes demo_fs demo_sc 0) = 2304"
    by (simp_all add: demo_simps, simp_all add: demo_sc_def)
  moreover have "Group_Number demo_fs demo_sc 2048 = 0"
    by (simp add: Group_Number_def demo_defs load32_def load_bytes_def upt_rec)
  moreover have "2048 \<le> unat (GDT_START demo_sc)" by (simp add: demo_sc_def)
  ultimately show ?thesis
    unfolding layout_def resource_all by (simp add: demo_simps disj_range_def del: bm_simps)
qed

lemma demo_nonmeta:
  assumes "2432 \<le> x"
  shows "\<not> is_meta demo_fs demo_sc x"
proof -
  have "\<not> (\<exists>K g. g < groups demo_sc \<and> bitarray (bm K demo_fs demo_sc g) \<le> x \<and> x < bitarray (bm K demo_fs demo_sc g) + bsize demo_sc)"
  proof (intro notI, elim exE conjE)
    fix K g assume "g < groups demo_sc" "x < bitarray (bm K demo_fs demo_sc g) + bsize demo_sc"
    with assms show False by (cases K) (simp_all add: demo_simps, simp_all add: demo_defs)
  qed
  then show ?thesis using assms by (simp add: is_meta_def demo_simps)
qed

lemma demo_block_addr: "block_addr demo_sc 20 = 2560" "block_addr demo_sc 22 = 2816"
  by (simp_all add: block_addr_def demo_sc_def)

lemma demo_ok: "srv_ok demo_server"
proof -
  have "2432 \<le> block_addr demo_sc (num Blocks demo_sc p)" if "p \<in> {(0, 19), (0, 21)}" for p
    using that by (auto simp: num_def demo_simps demo_block_addr)
  then have "fs_ok demo_fs demo_sc"
    unfolding fs_ok_def using demo_layout demo_nonmeta
    by (auto simp: resource_all demo_free_set demo_simps demo_avail trans_le_add1)
  then show ?thesis by (simp add: srv_ok_def demo_server_def)
qed

lemma demo_free_nums: "free_nums Blocks demo_server = {20, 22}" "free_nums Inodes demo_server = {6}"
  by (simp_all add: free_nums_def demo_server_def demo_free_set num_def demo_simps)

section \<open>Properties\<close>





text \<open>
  The contents of newly allocated blocks: the allocator zeroes every block of an
  allocation except the last one, whose old contents stay, and it changes no other byte
  outside the metadata. A block allocated alone is never cleared.
\<close>

theorem new_blocks_contents:
  assumes "srv_ok st" and "0 < n" and "n < 2 ^ 32" and "n \<le> card (free_nums Blocks st)"
  shows "\<exists>bs st'. Get_Free_Blocks st (of_nat n) = Some (Some bs, st') \<and> length bs = n \<and>
    (\<forall>x. \<not> is_meta (fs_file st) (Super_constants st) x \<longrightarrow> fs_file st' x =
      (if \<exists>b \<in> set (butlast bs). in_block (Super_constants st) b x then 0 else fs_file st x))"
proof -
  have n: "unat (of_nat n :: u32) = n" "(of_nat n :: u32) \<noteq> 0"
    using assms(2,3) by (simp_all add: unat_of_nat_u32 unat_eq_zero [symmetric])
  then show ?thesis
    using Get_Free_Blocks_ok [OF assms(1) n(2)] assms(4) card_free_nums [OF assms(1), of Blocks]
    by (fastforce simp: map_butlast [symmetric])
qed

lemma new_blocks_contents_witness:
  "\<exists>b st'. Get_Free_Blocks demo_server (of_nat 1) = Some (Some [b], st') \<and> fs_file st' 2816 = 7"
proof -
  have "(0 :: nat) < 1" "(1 :: nat) < 2 ^ 32" "1 \<le> card (free_nums Blocks demo_server)" by (simp_all add: demo_free_nums)
  from new_blocks_contents [OF demo_ok this] obtain bs st' where r: "Get_Free_Blocks demo_server (of_nat 1) = Some (Some bs, st')"
    "length bs = 1" "\<not> is_meta demo_fs demo_sc 2816 \<Longrightarrow> fs_file st' 2816 = (if \<exists>b \<in> set (butlast bs). in_block demo_sc b 2816 then 0 else demo_fs 2816)"
    by (auto simp: demo_server_def)
  have "\<not> is_meta demo_fs demo_sc 2816" by (rule demo_nonmeta) simp
  with r show ?thesis by (auto simp: length_Suc_conv demo_fs_def)
qed

text \<open>
  \<open>CleanBlocks\<close> looks for its end mark in the heap after the array. When two non-zero
  words follow the array there, it zeroes the block named by the first of them, a block that
  was not allocated.
\<close>

theorem CleanBlocks_overrun:
  assumes "bs \<noteq> []" and "\<forall>b \<in> set bs. b \<noteq> 0" and "w \<noteq> 0" and "w' \<noteq> 0"
  shows "\<exists>fs'. CleanBlocks fs sc (bs @ [w, w'] @ 0 # hs) = Some fs' \<and> (\<forall>x. in_block sc w x \<longrightarrow> fs' x = 0)"
  using CleanBlocks_clears [of "bs @ [w, w']" fs sc hs] assms by (auto simp: butlast_append memset_def in_block_def bsize_def)

lemma CleanBlocks_overrun_witness:
  "\<exists>fs'. CleanBlocks demo_fs demo_sc [20, 22, 5, 0] = Some fs' \<and> fs' 2816 = 0"
  using CleanBlocks_overrun [of "[20]" 22 5 demo_fs demo_sc "[]"] 
  by (auto simp: in_block_def demo_simps demo_block_addr)

text \<open>
  Asking for one inode returns a free inode and removes exactly it, or fails with
  \<open>ENOSPC\<close> when there is none; blocks and file contents are untouched, and the file system
  stays consistent.
\<close>

theorem get_free_inode_contract:
  assumes "srv_ok st"
  shows "if free_nums Inodes st = {} then Get_Free_Inodes st 1 = Some (None, st\<lparr>errno := ENOSPC\<rparr>)
    else \<exists>i st'. Get_Free_Inodes st 1 = Some (Some [i], st') \<and> i \<in> free_nums Inodes st \<and> srv_ok st' \<and>
      free_nums Inodes st' = free_nums Inodes st - {i} \<and> free_nums Blocks st' = free_nums Blocks st \<and>
      (\<forall>x. \<not> is_meta (fs_file st) (Super_constants st) x \<longrightarrow> fs_file st' x = fs_file st x)"
proof (cases "free_nums Inodes st = {}")
  case True
  then show ?thesis using Get_Free_full(2) [OF assms, of 1] by (simp add: free_nums_def)
next
  case False
  let ?sc = "Super_constants st" and ?fs = "fs_file st"
  obtain p fs' where r: "Get_Free_Inodes st 1 = Some (Some [num Inodes ?sc p], st\<lparr>fs_file := fs'\<rparr>)"
    and p: "p \<in> free_set Inodes ?fs ?sc" and fs': "fs_ok fs' ?sc"
      "\<forall>L. free_set L fs' ?sc = free_set L ?fs ?sc - (if L = Inodes then {p} else {})"
      "\<forall>x. \<not> is_meta ?fs ?sc x \<longrightarrow> fs' x = ?fs x"
    using Get_Free_Inodes_ok [OF assms] False unfolding free_nums_def by blast
  have sub: "{p} \<subseteq> {..<groups ?sc} \<times> {..<per_group Inodes ?sc}" using p free_set_sub by blast
  have "layout ?fs ?sc" using assms fs_okD(1) by (auto simp: srv_ok_def)
  from num_image_diff [OF this free_set_sub sub, of ?fs]
  have "num Inodes ?sc ` free_set Inodes fs' ?sc = free_nums Inodes st - {num Inodes ?sc p}"
    using fs'(2) by (simp add: free_nums_def)
  then show ?thesis using r p fs' assms False
    by (auto simp: srv_ok_def free_nums_def intro!: exI [of _ "num Inodes ?sc p"])
qed

lemma get_free_inode_contract_witness:
  "\<exists>st'. Get_Free_Inodes demo_server 1 = Some (Some [6], st') \<and> free_nums Inodes st' = {}"
  using get_free_inode_contract [OF demo_ok] by (auto simp: demo_free_nums)

end
