(* ===== verification/Block_Tree.thy ===== *)
theory Block_Tree
  imports Alloc
begin

text \<open>
  The block management of \<^verbatim>\<open>rfs/source_RFS/file_operations.c\<close>: finding the place of a block in
  the pointer tree of an inode, attaching blocks to an inode and removing them from it. An
  inode is the address of its structure in the mapped file.
\<close>

section \<open>Field access\<close>

definition ld32 :: "'c server \<Rightarrow> nat \<Rightarrow> u32" where
  "ld32 st a = load32 (fs_file st) a"

definition st32 :: "'c server \<Rightarrow> nat \<Rightarrow> u32 \<Rightarrow> 'c server" where
  "st32 st a w = st\<lparr>fs_file := store32 (fs_file st) a w\<rparr>"

definition ld16 :: "'c server \<Rightarrow> nat \<Rightarrow> u16" where
  "ld16 st a = load16 (fs_file st) a"

definition st16 :: "'c server \<Rightarrow> nat \<Rightarrow> u16 \<Rightarrow> 'c server" where
  "st16 st a w = st\<lparr>fs_file := store16 (fs_file st) a w\<rparr>"

abbreviation pointer_data_0 :: "nat \<Rightarrow> nat \<Rightarrow> nat" where
  "pointer_data_0 inode i \<equiv> inode + inode_off I_pointer_data_0 + 4 * i"

abbreviation pointer_data_1 :: "nat \<Rightarrow> nat" where "pointer_data_1 inode \<equiv> inode + inode_off I_pointer_data_1"
abbreviation pointer_data_2 :: "nat \<Rightarrow> nat" where "pointer_data_2 inode \<equiv> inode + inode_off I_pointer_data_2"
abbreviation pointer_data_3 :: "nat \<Rightarrow> nat" where "pointer_data_3 inode \<equiv> inode + inode_off I_pointer_data_3"

definition blk_at :: "'c server \<Rightarrow> u32 \<Rightarrow> nat" where
  "blk_at st b = block_addr (Super_constants st) b"

section \<open>Attaching blocks\<close>

definition Inode_Indirect_Attach1 :: "'c server \<Rightarrow> u32 \<Rightarrow> nat \<Rightarrow> u32 \<Rightarrow> 'c server option" where
  "Inode_Indirect_Attach1 st indirect_block block_offset blocks_to_attach = do {
     let fs_with_offset = blk_at st indirect_block;
     (new_blocks, st) \<leftarrow> Get_Free_Blocks st blocks_to_attach;
     case new_blocks of
       None \<Rightarrow> if errno st = ENOSPC then Some st else None
     | Some bs \<Rightarrow> Some (st\<lparr>fs_file := store32s (fs_file st) (fs_with_offset + 4 * block_offset) bs\<rparr>) }"

text \<open>When the disk is full this dereferences the \<open>NULL\<close> that \<open>Get_Free_Blocks\<close> returned.\<close>

definition check_and_set_Ind :: "nat \<Rightarrow> 'c server \<Rightarrow> 'c server option" where
  "check_and_set_Ind indirection st =
     (if ld32 st indirection \<noteq> 0 then Some st
      else do {
        (new_block, st) \<leftarrow> Get_Free_Blocks st 1;
        case new_block of Some (b # _) \<Rightarrow> Some (st32 st indirection b) | _ \<Rightarrow> None })"

definition used_entries :: "'c server \<Rightarrow> nat \<Rightarrow> nat \<Rightarrow> nat" where
  \<comment> \<open>\<open>for (; entries[i] != 0 && i < limit; ++i);\<close>\<close>
  "used_entries st a limit = length (takeWhile (\<lambda>w. w \<noteq> 0) (load32s (fs_file st) a limit))"

definition check_and_attach1 :: "'c server \<Rightarrow> u32 \<Rightarrow> u32 \<Rightarrow> (int \<times> 'c server) option" where
  "check_and_attach1 st block_number blocks_to_attach = do {
     let P = ptrs_per_block (Super_constants st);
     let sub_entries = used_entries st (blk_at st block_number) P;
     let slots_available = P - sub_entries;
     let slots_to_copy = (if slots_available > unat blocks_to_attach then unat blocks_to_attach else slots_available);
     st \<leftarrow> (if slots_available > 0
            then Inode_Indirect_Attach1 st block_number sub_entries (of_nat slots_to_copy) else Some st);
     Some (if errno st = ENOSPC then (-1, st) else (int slots_to_copy, st)) }"

fun Inode_Indirect_Attach2_loop ::
  "'c server \<Rightarrow> nat \<Rightarrow> nat list \<Rightarrow> u32 \<Rightarrow> int \<Rightarrow> (int \<times> 'c server) option" where
  "Inode_Indirect_Attach2_loop st this_block [] blocks_to_attach total_attached = Some (total_attached, st)"
| "Inode_Indirect_Attach2_loop st this_block (entries # es) blocks_to_attach total_attached = do {
     st \<leftarrow> check_and_set_Ind (this_block + 4 * entries) st;
     (attached, st) \<leftarrow> check_and_attach1 st (ld32 st (this_block + 4 * entries)) blocks_to_attach;
     if attached = -1 then Some (total_attached, st)
     else
       let blocks_to_attach = blocks_to_attach - of_int attached; total_attached = total_attached + attached
       in if blocks_to_attach = 0 then Some (total_attached, st)
          else Inode_Indirect_Attach2_loop st this_block es blocks_to_attach total_attached }"

definition Inode_Indirect_Attach2 :: "'c server \<Rightarrow> u32 \<Rightarrow> u32 \<Rightarrow> (int \<times> 'c server) option" where
  "Inode_Indirect_Attach2 st indirect_block blocks_to_attach =
     Inode_Indirect_Attach2_loop st (blk_at st indirect_block)
       [0..<ptrs_per_block (Super_constants st)] blocks_to_attach 0"

fun Attach_Blocks_level3 :: "'c server \<Rightarrow> nat \<Rightarrow> nat list \<Rightarrow> u32 \<Rightarrow> (u32 \<times> 'c server) option" where
  "Attach_Blocks_level3 st entry_to_check [] new_blocks_amount = Some (new_blocks_amount, st)"
| "Attach_Blocks_level3 st entry_to_check (i # is) new_blocks_amount =
     (if new_blocks_amount = 0 then Some (new_blocks_amount, st)
      else do {
        st \<leftarrow> check_and_set_Ind (entry_to_check + 4 * i) st;
        if errno st = ENOSPC then Some (new_blocks_amount, st)
        else do {
          (attached, st) \<leftarrow> Inode_Indirect_Attach2 st (ld32 st (entry_to_check + 4 * i)) new_blocks_amount;
          let new_blocks_amount = new_blocks_amount - of_int attached;
          if errno st = ENOSPC then Some (new_blocks_amount, st)
          else if new_blocks_amount = 0 then Some (0, st)
          else Attach_Blocks_level3 st entry_to_check is new_blocks_amount } })"

text \<open>
  The result is meant to be the number of blocks not attached; after an \<open>ENOSPC\<close> at level 0 or
  2 it is something else.
\<close>

definition Attach_Blocks_level0 :: "'c server \<Rightarrow> nat \<Rightarrow> u32 \<Rightarrow> (u32 option \<times> u32 \<times> 'c server) option" where
  \<comment> \<open>\<open>Some\<close> value: return it; otherwise go on with the remaining amount.\<close>
  "Attach_Blocks_level0 st inode new_blocks_amount = do {
     let sub_entries = used_entries st (pointer_data_0 inode 0) 12;
     let slots_available = 12 - sub_entries;
     let slots_to_copy = (if slots_available > unat new_blocks_amount then unat new_blocks_amount else slots_available);
     if slots_available > 0 then do {
       (new_entries, st) \<leftarrow> Get_Free_Blocks st (of_nat slots_to_copy);
       case new_entries of
         None \<Rightarrow> Some (Some (of_nat slots_available), new_blocks_amount, st)
       | Some bs \<Rightarrow> Some (None, new_blocks_amount - of_nat slots_to_copy,
                    st\<lparr>fs_file := store32s (fs_file st) (pointer_data_0 inode sub_entries) bs\<rparr>) }
     else Some (None, new_blocks_amount - of_nat slots_to_copy, st) }"

definition Attach_Blocks :: "'c server \<Rightarrow> nat \<Rightarrow> u32 \<Rightarrow> (u32 \<times> 'c server) option" where
  "Attach_Blocks st inode new_blocks_amount = do {
     (ret, new_blocks_amount, st) \<leftarrow> Attach_Blocks_level0 st inode new_blocks_amount;
     case ret of Some r \<Rightarrow> Some (r, st) | None \<Rightarrow>
     if new_blocks_amount = 0 then Some (0, st)
     else do {
       st \<leftarrow> check_and_set_Ind (pointer_data_1 inode) st;
       (attached, st) \<leftarrow> check_and_attach1 st (ld32 st (pointer_data_1 inode)) new_blocks_amount;
       if attached < 0 then Some (new_blocks_amount, st)
       else
         let new_blocks_amount = new_blocks_amount - of_int attached
         in if new_blocks_amount = 0 then Some (0, st)
       else do {
         st \<leftarrow> check_and_set_Ind (pointer_data_2 inode) st;
         (attached, st) \<leftarrow> Inode_Indirect_Attach2 st (ld32 st (pointer_data_2 inode)) new_blocks_amount;
         if errno st = ENOSPC then Some (of_int attached, st)
         else
           let new_blocks_amount = new_blocks_amount - of_int attached
           in if new_blocks_amount = 0 then Some (0, st)
         else do {
           st \<leftarrow> check_and_set_Ind (pointer_data_3 inode) st;
           let entry_to_check = blk_at st (ld32 st (pointer_data_3 inode));
           Attach_Blocks_level3 st entry_to_check [0..<ptrs_per_block (Super_constants st)] new_blocks_amount } } } }"

section \<open>Block coordinates\<close>

text \<open>
  The bounds of the four levels are computed in 32 bits from a 64-bit number of pointers; the
  coordinates are stored as \<open>int32_t\<close>, with \<open>-1\<close> for the levels that are not used.
\<close>

definition find_block_coordinates :: "Superblock_constants \<Rightarrow> u32 \<Rightarrow> int list" where
  "find_block_coordinates sc block_index =
     (let P = of_nat (ptrs_per_block sc) :: u64;
          squared = P * P;
          hi1 = 11 + ucast P :: u32;
          hi2 = hi1 + ucast (P * P);
          hi3 = hi2 + ucast (P * P * P);
          off = (\<lambda>lo :: u32. ucast (block_index - lo) :: u64);
          i32 = (\<lambda>w :: u64. sint (ucast w :: u32))
      in if block_index \<le> 11 then [sint block_index, -1, -1, -1]
         else if 12 \<le> block_index \<and> block_index \<le> hi1 then [0, i32 (off 12 mod P), -1, -1]
         else if hi1 + 1 \<le> block_index \<and> block_index \<le> hi2 then
           [0, i32 (off (hi1 + 1) mod P), i32 (off (hi1 + 1) div P), -1]
         else if hi2 + 1 \<le> block_index \<and> block_index \<le> hi3 then
           [0, i32 (off (hi2 + 1) mod squared mod P), i32 (off (hi2 + 1) mod squared div P), i32 (off (hi2 + 1) div squared)]
         else [-1, -1, -1, -1])"

definition coordinates_level :: "int list \<Rightarrow> nat option" where
  \<comment> \<open>The last index before the first \<open>-1\<close>; \<open>None\<close> is the unsigned wrap-around of \<open>level--\<close> at 0.\<close>
  "coordinates_level cs = (case length (takeWhile (\<lambda>c. c \<noteq> -1) cs) of 0 \<Rightarrow> None | Suc l \<Rightarrow> Some l)"

section \<open>Removing blocks\<close>

definition deleteIfEmpty :: "'c server \<Rightarrow> u32 \<Rightarrow> (bool \<times> 'c server) option" where
  "deleteIfEmpty st block_index =
     (let n = unat (BLOCK_SIZE (Super_constants st))
      in if load_bytes (fs_file st) (blk_at st block_index) n = replicate n 0
         then do { st \<leftarrow> setFreeBlockBitmap st block_index; Some (True, st) }
         else Some (False, st))"

definition RemoveIndirect :: "'c server \<Rightarrow> nat \<Rightarrow> u32 \<Rightarrow> 'c server option" where
  "RemoveIndirect st inode block_index =
     (let cs = find_block_coordinates (Super_constants st) block_index; c = (\<lambda>l. nat (cs ! l)) in
      case coordinates_level cs of
        Some (Suc 0) \<Rightarrow> do {
          (empty, st) \<leftarrow> deleteIfEmpty st (ld32 st (pointer_data_1 inode));
          Some (if empty then st32 st (pointer_data_1 inode) 0 else st) }
      | Some (Suc (Suc 0)) \<Rightarrow> do {
          let ind2 = blk_at st (ld32 st (pointer_data_2 inode));
          (empty, st) \<leftarrow> deleteIfEmpty st (ld32 st (ind2 + 4 * c 2));
          if empty then do {
            let st = st32 st (ind2 + 4 * c 2) 0;
            (empty, st) \<leftarrow> deleteIfEmpty st (ld32 st (pointer_data_2 inode));
            Some (if empty then st32 st (pointer_data_2 inode) 0 else st) }
          else Some st }
      | Some (Suc (Suc (Suc 0))) \<Rightarrow> do {
          let ind3 = blk_at st (ld32 st (pointer_data_3 inode));
          let ind2 = blk_at st (ld32 st (ind3 + 4 * c 3));
          (empty, st) \<leftarrow> deleteIfEmpty st (ld32 st (ind2 + 4 * c 2));
          if empty then do {
            let st = st32 st (ind2 + 4 * c 2) 0;
            (empty, st) \<leftarrow> deleteIfEmpty st (ld32 st (ind3 + 4 * c 3));
            if empty then do {
              let st = st32 st (ind3 + 4 * c 3) 0;
              (empty, st) \<leftarrow> deleteIfEmpty st (ld32 st (pointer_data_3 inode));
              Some (if empty then st32 st (pointer_data_3 inode) 0 else st) }
            else Some st }
          else Some st }
      | _ \<Rightarrow> Some st)"

definition Remove_Block :: "'c server \<Rightarrow> nat \<Rightarrow> u32 \<Rightarrow> 'c server option" where
  "Remove_Block st inode block_index =
     (let cs = find_block_coordinates (Super_constants st) block_index; c = (\<lambda>l. nat (cs ! l));
          free_at = (\<lambda>a. do { st' \<leftarrow> setFreeBlockBitmap st (ld32 st a); Some (st32 st' a 0) }) in
      case coordinates_level cs of
        Some 0 \<Rightarrow> free_at (pointer_data_0 inode (c 0))
      | Some (Suc 0) \<Rightarrow> do {
          let ind1 = blk_at st (ld32 st (pointer_data_1 inode));
          st \<leftarrow> free_at (ind1 + 4 * c 1);
          RemoveIndirect st inode block_index }
      | Some (Suc (Suc 0)) \<Rightarrow> do {
          let ind2 = blk_at st (ld32 st (pointer_data_2 inode));
          let ind1 = blk_at st (ld32 st (ind2 + 4 * c 2));
          st \<leftarrow> free_at (ind1 + 4 * c 1);
          RemoveIndirect st inode block_index }
      | Some (Suc (Suc (Suc 0))) \<Rightarrow> do {
          let ind3 = blk_at st (ld32 st (pointer_data_3 inode));
          let ind2 = blk_at st (ld32 st (ind3 + 4 * c 3));
          let ind1 = blk_at st (ld32 st (ind2 + 4 * c 2));
          st \<leftarrow> free_at (ind1 + 4 * c 1);
          RemoveIndirect st inode block_index }
      | _ \<Rightarrow> Some st)"

section \<open>Initialising inodes\<close>

definition EXT2_IFREG :: u32 where "EXT2_IFREG = 0x8000"
definition EXT2_IFDIR :: u32 where "EXT2_IFDIR = 0x4000"

fun clear_pointers :: "mem \<Rightarrow> nat \<Rightarrow> mem" where
  "clear_pointers fs inode =
     store32 (store32 (store32 (store32s fs (pointer_data_0 inode 0) (replicate 12 0))
       (pointer_data_1 inode) 0) (pointer_data_2 inode) 0) (pointer_data_3 inode) 0"

definition init_inode :: "mem \<Rightarrow> nat \<Rightarrow> u32 \<Rightarrow> u16 \<Rightarrow> u16 \<Rightarrow> u32 \<Rightarrow> mem" where
  "init_inode fs an_inode blocks links mode sz =
     clear_pointers
       (store32 (store16 (store16 (store32 fs (an_inode + inode_off I_blocks) blocks)
          (an_inode + inode_off I_links_count) links) (an_inode + inode_off I_mode) mode)
          (an_inode + inode_off I_size) sz) an_inode"

definition setFileInode :: "'c server \<Rightarrow> nat \<Rightarrow> u32 \<Rightarrow> 'c server" where
  "setFileInode st an_inode mode =
     st\<lparr>fs_file := init_inode (fs_file st) an_inode 0 1 (ucast (mode OR EXT2_IFREG)) 0\<rparr>"

text \<open>The group is computed as \<open>inode_number / INODES_PER_GROUP\<close> here, not from \<open>inode_number - 1\<close>.\<close>

definition setDirInode :: "'c server \<Rightarrow> nat \<Rightarrow> u32 \<Rightarrow> u32 \<Rightarrow> 'c server option" where
  "setDirInode st an_inode mode inode_number = do {
     let sc = Super_constants st;
     let group_number = inode_number div INODES_PER_GROUP sc;
     g_desc \<leftarrow> Group_Descriptor_read sc group_number;
     let dirs = g_desc + Group_Descriptor_off GD_NUMBER_DIRECTORIES_GROUP;
     let st = st16 st dirs (ld16 st dirs + 1);
     Some (st\<lparr>fs_file := init_inode (fs_file st) an_inode (BLOCK_SIZE sc div 512) 1 (ucast (mode OR EXT2_IFDIR)) (BLOCK_SIZE sc)\<rparr>) }"

definition Clear_Inode :: "'c server \<Rightarrow> nat \<Rightarrow> 'c server" where
  "Clear_Inode st an_inode = st\<lparr>fs_file := init_inode (fs_file st) an_inode 0 0 0 0\<rparr>"

end
