(* ===== verification/Directory.thy ===== *)
theory Directory
  imports Block_Tree
begin

text \<open>
  Directory entries of \<^verbatim>\<open>rfs/source_RFS/file_operations.c\<close>: reading a directory, attaching and
  deleting an entry. An \<open>entry_t\<close> in the mapped file is its address; an entry built on the
  heap is a record. A scan that meets an entry of length 0 never ends (\<open>None\<close>).
\<close>

section \<open>Entries\<close>

datatype entry_field = E_inode_number | E_entry_len | E_name_len | E_file_type | E_file_name

fun entry_off :: "entry_field \<Rightarrow> nat" where
  "entry_off E_inode_number = 0"
| "entry_off E_entry_len = 4"
| "entry_off E_name_len = 6"
| "entry_off E_file_type = 7"
| "entry_off E_file_name = 8"

definition sizeof_entry :: nat where
  "sizeof_entry = 8"

record entry_t =
  inode_number :: u32
  entry_len :: u16
  name_len :: u8
  file_type :: u8
  file_name :: "u8 list"

definition e_inode :: "mem \<Rightarrow> nat \<Rightarrow> u32" where
  "e_inode fs e = load32 fs (e + entry_off E_inode_number)"

definition e_len :: "mem \<Rightarrow> nat \<Rightarrow> u16" where
  "e_len fs e = load16 fs (e + entry_off E_entry_len)"

definition set_e_len :: "mem \<Rightarrow> nat \<Rightarrow> u16 \<Rightarrow> mem" where
  "set_e_len fs e w = store16 fs (e + entry_off E_entry_len) w"

definition e_name_len :: "mem \<Rightarrow> nat \<Rightarrow> u8" where
  "e_name_len fs e = fs (e + entry_off E_name_len)"

definition e_name :: "mem \<Rightarrow> nat \<Rightarrow> nat \<Rightarrow> u8 list" where
  "e_name fs e n = load_bytes fs (e + entry_off E_file_name) n"

definition padded :: "nat \<Rightarrow> nat" where
  "padded unpad_size = (if unpad_size mod 4 > 0 then unpad_size + 4 - unpad_size mod 4 else unpad_size)"

definition get_padded_size :: "mem \<Rightarrow> nat \<Rightarrow> nat" where
  "get_padded_size fs an_entry = padded (sizeof_entry + unat (e_name_len fs an_entry))"

definition create_entry :: "string \<Rightarrow> u32 \<Rightarrow> entry_t" where
  "create_entry name inode = \<lparr>inode_number = inode, entry_len = of_nat (sizeof_entry + length name),
     name_len = of_nat (length name), file_type = 0, file_name = bytes_of_string name\<rparr>"

text \<open>
  \<open>copy_entry\<close> from the heap, and between two places of the mapped file, field by field; an
  overlapping \<open>memcpy\<close> of the name is undefined.
\<close>

definition copy_new_entry :: "mem \<Rightarrow> nat \<Rightarrow> entry_t \<Rightarrow> mem" where
  "copy_new_entry fs to from =
     (let fs = store32 fs (to + entry_off E_inode_number) (inode_number from);
          fs = store16 fs (to + entry_off E_entry_len) (entry_len from);
          fs = fs(to + entry_off E_name_len := name_len from);
          fs = fs(to + entry_off E_file_type := file_type from)
      in store_bytes fs (to + entry_off E_file_name) (take (unat (name_len from)) (file_name from)))"

definition copy_entry :: "mem \<Rightarrow> nat \<Rightarrow> nat \<Rightarrow> mem option" where
  "copy_entry fs to from =
     (let fs = store32 fs (to + entry_off E_inode_number) (load32 fs (from + entry_off E_inode_number));
          fs = store16 fs (to + entry_off E_entry_len) (load16 fs (from + entry_off E_entry_len));
          fs = fs(to + entry_off E_name_len := fs (from + entry_off E_name_len));
          fs = fs(to + entry_off E_file_type := fs (from + entry_off E_file_type));
          n = unat (fs (from + entry_off E_name_len))
      in if disj_range to n from n
         then Some (store_bytes fs (to + entry_off E_file_name) (load_bytes fs (from + entry_off E_file_name) n))
         else None)"

definition entry_matches :: "mem \<Rightarrow> nat \<Rightarrow> string \<Rightarrow> bool" where
  \<comment> \<open>\<open>name_len == strlen(file_name) && strncmp(entry->file_name, file_name, strlen(file_name)) == 0\<close>\<close>
  "entry_matches fs e name \<longleftrightarrow>
     unat (e_name_len fs e) = length name \<and> e_name fs e (length name) = bytes_of_string name"

section \<open>Reading a directory\<close>

text \<open>
  The three loops over the entries of a block (\<open>block_entries\<close>, \<open>attach_in_block\<close>,
  \<open>delete_in_block\<close>) advance by the length of the entry and test nothing but the end of the
  block, so they are partial functions: a loop that never ends has the value \<open>None\<close>.
\<close>

partial_function (option) block_entries :: "mem \<Rightarrow> nat \<Rightarrow> nat \<Rightarrow> nat list option" where
  "block_entries fs iterate limit =
     (if iterate < limit then do {
        rest \<leftarrow> block_entries fs (iterate + unat (e_len fs iterate)) limit;
        Some (if e_inode fs iterate \<noteq> 0 then iterate # rest else rest) }
      else Some [])"

definition data_blocks :: "u32 list \<Rightarrow> u32 list" where
  \<comment> \<open>\<open>for (var = 0; data_address[var] != EMPTY; ++var)\<close>\<close>
  "data_blocks data_address = takeWhile (\<lambda>b. b \<noteq> 0) data_address"

definition read_directory :: "'c server \<Rightarrow> nat \<Rightarrow> nat list option option" where
  "read_directory st inode =
     (case Inode_Get_Data_Adressess (fs_file st) (Super_constants st) inode (ld32 st (inode + inode_off I_size)) of
        None \<Rightarrow> Some None
      | Some data_address \<Rightarrow>
          (case those (map (\<lambda>b. block_entries (fs_file st) (blk_at st b)
                   (blk_at st b + unat (BLOCK_SIZE (Super_constants st)))) (data_blocks data_address)) of
             None \<Rightarrow> None
           | Some ess \<Rightarrow> Some (Some (concat ess))))"

section \<open>Attaching an entry\<close>

text \<open>One block: the state after, and whether the entry was attached.\<close>

partial_function (option) attach_in_block :: "mem \<Rightarrow> nat \<Rightarrow> nat \<Rightarrow> entry_t \<Rightarrow> (bool \<times> mem) option" where
  "attach_in_block fs iterate limit new_entry =
     (if iterate < limit then
        let padded_size = get_padded_size fs iterate; len = unat (e_len fs iterate); free_space = len - padded_size
        in if len > padded_size \<and> free_space > unat (entry_len new_entry) then
             (if padded_size > 8 then
                Some (True, copy_new_entry (set_e_len fs iterate (of_nat padded_size)) (iterate + padded_size)
                  (new_entry\<lparr>entry_len := of_nat free_space\<rparr>))
              else Some (True, copy_new_entry fs iterate (new_entry\<lparr>entry_len := e_len fs iterate\<rparr>)))
           else attach_in_block fs (iterate + len) limit new_entry
      else Some (False, fs))"

fun attach_in_blocks :: "'c server \<Rightarrow> u32 list \<Rightarrow> entry_t \<Rightarrow> (bool \<times> 'c server) option" where
  "attach_in_blocks st [] new_entry = Some (False, st)"
| "attach_in_blocks st (b # bs) new_entry = do {
     (attached, fs) \<leftarrow> attach_in_block (fs_file st) (blk_at st b)
       (blk_at st b + unat (BLOCK_SIZE (Super_constants st))) new_entry;
     if attached then Some (True, st\<lparr>fs_file := fs\<rparr>) else attach_in_blocks (st\<lparr>fs_file := fs\<rparr>) bs new_entry }"

text \<open>The recursion attaches a block and tries again; nothing in the code bounds it.\<close>

partial_function (option) attach_entry :: "'c server \<Rightarrow> nat \<Rightarrow> entry_t \<Rightarrow> (bool \<times> 'c server) option" where
  "attach_entry st inode new_entry =
     (case Inode_Get_Data_Adressess (fs_file st) (Super_constants st) inode (ld32 st (inode + inode_off I_blocks) * 512) of
        None \<Rightarrow> Some (False, st)
      | Some data_address \<Rightarrow>
          Option.bind (attach_in_blocks st (data_blocks data_address) new_entry) (\<lambda>(attached, st).
            if attached then Some (True, st)
            else Option.bind (Attach_Blocks st inode 1) (\<lambda>(r, st).
              if errno st = ENOSPC then Some (False, st)
              else
                let bs = BLOCK_SIZE (Super_constants st);
                    st = st32 st (inode + inode_off I_blocks) (ld32 st (inode + inode_off I_blocks) + bs div 512);
                    st = st32 st (inode + inode_off I_size) (ld32 st (inode + inode_off I_size) + bs)
                in Option.bind (attach_entry st inode new_entry) (\<lambda>(ok, st).
                     Some (if \<not> ok then (False, st\<lparr>errno := ECANCELED\<rparr>) else (True, st))))))"

section \<open>Deleting an entry\<close>

text \<open>
  Entry \<open>e\<close> is absorbed into the place of its successor's data: the successor is copied over
  it with the combined length.
\<close>

definition absorb_next :: "mem \<Rightarrow> nat \<Rightarrow> mem option" where
  "absorb_next fs e =
     (let next_entry = e + unat (e_len fs e)
      in copy_entry (set_e_len fs next_entry (e_len fs next_entry + e_len fs e)) e next_entry)"

text \<open>
  The \<open>while\<close> loop over one block, after its first entry did not match: it looks at the entry
  after the current one even when that lies past the block.
\<close>

partial_function (option) delete_in_block :: "mem \<Rightarrow> nat \<Rightarrow> nat \<Rightarrow> nat \<Rightarrow> nat \<Rightarrow> string \<Rightarrow> (bool \<times> mem) option" where
  "delete_in_block fs iterate limit bsz acum_len name =
     (if iterate < limit then
        let len = unat (e_len fs iterate); acum = acum_len + len; e = iterate + len
        in if entry_matches fs e name then
             (if unat (e_len fs e) = unat (of_nat bsz - of_nat acum :: u32)
              then Some (True, set_e_len fs iterate (e_len fs iterate + e_len fs e))
              else map_option (Pair True) (absorb_next fs e))
           else delete_in_block fs e limit bsz acum name
      else Some (False, fs))"

fun delete_in_blocks :: "'c server \<Rightarrow> nat \<Rightarrow> u32 list \<Rightarrow> nat \<Rightarrow> string \<Rightarrow> 'c server option" where
  "delete_in_blocks st inode [] var name = Some st"
| "delete_in_blocks st inode (b # bs) var name =
     (let sc = Super_constants st; a = blk_at st b; padded_size = get_padded_size (fs_file st) a in
      if entry_matches (fs_file st) a name then
        (if ucast (e_len (fs_file st) a) = BLOCK_SIZE sc - of_nat padded_size then do {
           st \<leftarrow> Remove_Block st inode (of_nat var);
           let st = st32 st (inode + inode_off I_size) (ld32 st (inode + inode_off I_size) - of_nat padded_size);
           Some (st32 st (inode + inode_off I_blocks) (ld32 st (inode + inode_off I_blocks) - BLOCK_SIZE sc div 512)) }
         else map_option (\<lambda>fs. st\<lparr>fs_file := fs\<rparr>) (absorb_next (fs_file st) a))
      else do {
        (deleted, fs) \<leftarrow> delete_in_block (fs_file st) a (a + unat (BLOCK_SIZE sc)) (unat (BLOCK_SIZE sc)) 0 name;
        if deleted then Some (st\<lparr>fs_file := fs\<rparr>) else delete_in_blocks (st\<lparr>fs_file := fs\<rparr>) inode bs (Suc var) name })"

definition delete_entry :: "'c server \<Rightarrow> nat \<Rightarrow> string \<Rightarrow> 'c server option" where
  "delete_entry st inode a_file =
     (case Inode_Get_Data_Adressess (fs_file st) (Super_constants st) inode (ld32 st (inode + inode_off I_blocks) * 512) of
        None \<Rightarrow> Some st
      | Some data_address \<Rightarrow> do {
          name \<leftarrow> active_file_get_file_name a_file;
          delete_in_blocks st inode (data_blocks data_address) 0 name })"

end
