(* ===== verification/Protocol.thy ===== *)
theory Protocol
  imports Directory
begin

text \<open>
  The wire protocol between client and server: \<^verbatim>\<open>rfs/commons/serializadores.c\<close> (the client has
  the same file as \<^verbatim>\<open>fsc/sources_FSC/serializadores.c\<close>), \<^verbatim>\<open>sockete.c\<close> and
  \<^verbatim>\<open>manejador_de_socketes.c\<close>. A packet is one type byte, two bytes of payload length and the
  payload. On the i686 build \<open>size_t\<close>, \<open>off_t\<close>, \<open>mode_t\<close>, \<open>ino_t\<close>, \<open>nlink_t\<close>, \<open>blksize_t\<close> and
  \<open>blkcnt_t\<close> have four bytes. \<open>None\<close> is an access outside a buffer.
\<close>

section \<open>Types of packets\<close>

abbreviation (input) CREAR_ARCHIVO :: u8 where "CREAR_ARCHIVO \<equiv> 0"
abbreviation (input) ABRIR_ARCHIVO :: u8 where "ABRIR_ARCHIVO \<equiv> 1"
abbreviation (input) LEER_ARCHIVO :: u8 where "LEER_ARCHIVO \<equiv> 2"
abbreviation (input) ESCRIBIR_ARCHIVO :: u8 where "ESCRIBIR_ARCHIVO \<equiv> 3"
abbreviation (input) ELIMINAR_ARCHIVO :: u8 where "ELIMINAR_ARCHIVO \<equiv> 4"
abbreviation (input) TRUNCAR_ARCHIVO :: u8 where "TRUNCAR_ARCHIVO \<equiv> 5"
abbreviation (input) CREAR_DIRECTORIO :: u8 where "CREAR_DIRECTORIO \<equiv> 7"
abbreviation (input) LEER_DIRECTORIO :: u8 where "LEER_DIRECTORIO \<equiv> 8"
abbreviation (input) ELIMINAR_DIRECTORIO :: u8 where "ELIMINAR_DIRECTORIO \<equiv> 9"
abbreviation (input) OBTENER_ATRIBUTOS :: u8 where "OBTENER_ATRIBUTOS \<equiv> 10"
abbreviation (input) HANDSHAKE_INIC :: u8 where "HANDSHAKE_INIC \<equiv> 11"
abbreviation (input) HANDSHAKE_OK :: u8 where "HANDSHAKE_OK \<equiv> 12"
abbreviation (input) HANDSHAKE_FAIL :: u8 where "HANDSHAKE_FAIL \<equiv> 13"
abbreviation (input) RESPUESTA_OK :: u8 where "RESPUESTA_OK \<equiv> 14"

definition nstr :: "string \<Rightarrow> u8 list" where
  \<comment> \<open>A string with its terminator, as \<open>memcpy(dst, s, strlen(s) + 1)\<close> writes it.\<close>
  "nstr s = bytes_of_string s @ [0]"

definition c_string :: "u8 list \<Rightarrow> string option" where
  \<comment> \<open>The string that starts a buffer; \<open>None\<close> when no terminator is in the buffer.\<close>
  "c_string bs = (if 0 \<in> set bs then Some (map (\<lambda>b. char_of (unat b)) (takeWhile (\<lambda>b. b \<noteq> 0) bs)) else None)"

record t_header =
  h_tipo :: u8
  h_longitud :: u16

record t_pedido_modo_nombre =
  pmn_nombre :: "u8 list"
  pmn_modo :: u32

record t_pedido_leer_archivo =
  pl_nombre :: "u8 list"
  pl_size :: u32
  pl_offset :: u32

record t_pedido_escribir_archivo =
  pe_nombre :: "u8 list"
  pe_buffer :: "u8 list"
  pe_size :: u32
  pe_offset :: u32

record t_pedido_truncar_archivo =
  pt_nombre :: "u8 list"
  pt_size :: u32

record t_respuesta_leer_archivo =
  rl_buffer :: "u8 list"
  rl_bytes_leidos :: u32

record t_respuesta_obtener_atributos =
  numero_de_inodo :: u32
  ra_modo :: u32
  numero_de_hard_links :: u32
  ra_size :: u32
  tamano_de_bloque_por_fs :: u32
  cantidad_de_bloques_de_512b :: u32

section \<open>Requests\<close>

definition w32 :: "u32 \<Rightarrow> u8 list" where
  "w32 w = le_bytes 4 (unat w)"

definition r32 :: "u8 list \<Rightarrow> nat \<Rightarrow> u32" where
  "r32 stream at = of_nat (le_nat (take 4 (drop at stream)))"

definition packet :: "u8 \<Rightarrow> nat \<Rightarrow> u8 list \<Rightarrow> u8 list" where
  \<comment> \<open>Type, the low 16 bits of the payload length, payload.\<close>
  "packet tipo payload_lenght payload = tipo # le_bytes 2 payload_lenght @ payload"

definition serializar_handshake :: "u8 \<Rightarrow> u8 list" where
  "serializar_handshake tipo = packet tipo 0 []"

definition deserializar_handshake :: "u8 list \<Rightarrow> u8 option" where
  "deserializar_handshake stream = (case stream of [] \<Rightarrow> None | b # _ \<Rightarrow> Some b)"

definition serializar_pedido_modo_nombre :: "u8 \<Rightarrow> string \<Rightarrow> u32 \<Rightarrow> u8 list" where
  "serializar_pedido_modo_nombre tipo nombre_de_archivo modo =
     packet tipo (4 + length nombre_de_archivo + 1) (w32 modo @ nstr nombre_de_archivo)"

definition serializar_pedido_nombre :: "u8 \<Rightarrow> string \<Rightarrow> u8 list" where
  "serializar_pedido_nombre tipo nombre_de_archivo =
     packet tipo (length nombre_de_archivo + 1) (nstr nombre_de_archivo)"

definition serializar_pedido_leer_archivo :: "string \<Rightarrow> u32 \<Rightarrow> u32 \<Rightarrow> u8 list" where
  "serializar_pedido_leer_archivo nombre_de_archivo sz offset =
     packet LEER_ARCHIVO (4 + 4 + length nombre_de_archivo + 1) (w32 sz @ w32 offset @ nstr nombre_de_archivo)"

definition serializar_pedido_escribir_archivo :: "string \<Rightarrow> u8 list \<Rightarrow> u32 \<Rightarrow> u32 \<Rightarrow> u8 list option" where
  "serializar_pedido_escribir_archivo nombre_de_archivo buffer sz desplazamiento =
     (if unat sz \<le> length buffer \<and> 3 + 4 + 4 + unat sz + length nombre_de_archivo + 1 < 2 ^ 32 then
        Some (packet ESCRIBIR_ARCHIVO (4 + 4 + unat sz + length nombre_de_archivo + 1)
          (w32 sz @ w32 desplazamiento @ take (unat sz) buffer @ nstr nombre_de_archivo))
      else None)"

definition serializar_pedido_truncar_archivo :: "string \<Rightarrow> u32 \<Rightarrow> u8 list" where
  "serializar_pedido_truncar_archivo nombre_de_archivo sz =
     packet TRUNCAR_ARCHIVO (4 + length nombre_de_archivo + 1) (w32 sz @ nstr nombre_de_archivo)"

definition deserializar_header :: "u8 list \<Rightarrow> t_header option" where
  "deserializar_header stream =
     (if 3 \<le> length stream then Some \<lparr>h_tipo = stream ! 0, h_longitud = of_nat (le_nat (take 2 (drop 1 stream)))\<rparr> else None)"

text \<open>The payload buffer has \<open>longitud\<close> bytes; a shorter payload makes the unsigned size of the
  name wrap.\<close>

definition deserializar_pedido_modo_nombre :: "u8 list \<Rightarrow> nat \<Rightarrow> t_pedido_modo_nombre option" where
  "deserializar_pedido_modo_nombre stream longitud =
     (if 4 \<le> longitud \<and> longitud \<le> length stream then
        Some \<lparr>pmn_nombre = take (longitud - 4) (drop 4 stream), pmn_modo = r32 stream 0\<rparr> else None)"

definition deserializar_pedido_nombre :: "u8 list \<Rightarrow> nat \<Rightarrow> u8 list option" where
  "deserializar_pedido_nombre stream longitud = (if longitud \<le> length stream then Some (take longitud stream) else None)"

definition deserializar_pedido_leer_archivo :: "u8 list \<Rightarrow> nat \<Rightarrow> t_pedido_leer_archivo option" where
  "deserializar_pedido_leer_archivo stream longitud =
     (if 8 \<le> longitud \<and> longitud \<le> length stream then
        Some \<lparr>pl_nombre = take (longitud - 8) (drop 8 stream), pl_size = r32 stream 0, pl_offset = r32 stream 4\<rparr> else None)"

definition deserializar_pedido_escribir_archivo :: "u8 list \<Rightarrow> nat \<Rightarrow> t_pedido_escribir_archivo option" where
  "deserializar_pedido_escribir_archivo stream longitud =
     (let sz = r32 stream 0; offset = 8 + unat sz
      in if 8 \<le> length stream \<and> offset \<le> longitud \<and> longitud \<le> length stream then
           Some \<lparr>pe_nombre = take (longitud - offset) (drop offset stream), pe_buffer = take (unat sz) (drop 8 stream),
             pe_size = sz, pe_offset = r32 stream 4\<rparr>
         else None)"

definition deserializar_pedido_truncar_archivo :: "u8 list \<Rightarrow> nat \<Rightarrow> t_pedido_truncar_archivo option" where
  "deserializar_pedido_truncar_archivo stream longitud =
     (if 4 \<le> longitud \<and> longitud \<le> length stream then
        Some \<lparr>pt_nombre = take (longitud - 4) (drop 4 stream), pt_size = r32 stream 0\<rparr> else None)"

section \<open>Responses\<close>

definition serializar_respuesta_finalizacion :: "u8 \<Rightarrow> u8 list" where
  "serializar_respuesta_finalizacion tipo = packet tipo 0 []"

definition serializar_respuesta_escribir_archivo :: "u8 \<Rightarrow> u32 \<Rightarrow> u8 list" where
  "serializar_respuesta_escribir_archivo tipo bytes_escritos = packet tipo 4 (w32 bytes_escritos)"

text \<open>The length of the payload is kept in 16 bits, and the buffer is allocated with it.\<close>

definition serializar_respuesta_leer_archivo :: "u8 \<Rightarrow> u32 \<Rightarrow> u8 list \<Rightarrow> u8 list option" where
  "serializar_respuesta_leer_archivo tipo bytes_leidos buffer =
     (let payload_lenght = (4 + unat bytes_leidos) mod 2 ^ 16
      in if 4 + unat bytes_leidos \<le> payload_lenght \<and> unat bytes_leidos \<le> length buffer
         then Some (packet tipo payload_lenght (w32 bytes_leidos @ take (unat bytes_leidos) buffer)) else None)"

definition serializar_respuesta_obtener_atributos :: "u8 \<Rightarrow> t_respuesta_obtener_atributos \<Rightarrow> u8 list" where
  "serializar_respuesta_obtener_atributos tipo atributos =
     packet tipo 24 (w32 (numero_de_inodo atributos) @ w32 (ra_modo atributos) @ w32 (numero_de_hard_links atributos) @
       w32 (ra_size atributos) @ w32 (tamano_de_bloque_por_fs atributos) @ w32 (cantidad_de_bloques_de_512b atributos))"

definition join_names :: "u8 list list \<Rightarrow> u8 list" where
  \<comment> \<open>The \<open>do\<close> loop: names separated by \<open>#\<close>.\<close>
  "join_names ns = (case ns of [] \<Rightarrow> [] | n # rest \<Rightarrow> n @ concat (map (\<lambda>m. char_byte (CHR ''#'') # m) rest))"

definition serializar_respuesta_leer_directorio :: "u8 \<Rightarrow> mem \<Rightarrow> nat list \<Rightarrow> u8 list option" where
  "serializar_respuesta_leer_directorio tipo fs entries =
     (if entries = [] then None
      else
        let names = map (\<lambda>e. e_name fs e (unat (e_name_len fs e))) entries;
            payload_lenght = (sum_list (map (\<lambda>n. length n + 1) names) + (length entries - 1)) mod 2 ^ 16;
            payload = join_names names
        in if length payload \<le> payload_lenght
           then Some (packet tipo payload_lenght (payload @ replicate (payload_lenght - length payload) 0)) else None)"

definition deserializar_respuesta_leer_archivo :: "u8 list \<Rightarrow> nat \<Rightarrow> t_respuesta_leer_archivo option" where
  "deserializar_respuesta_leer_archivo stream longitud =
     (let n = r32 stream 0
      in if 4 + unat n \<le> length stream then Some \<lparr>rl_buffer = take (unat n) (drop 4 stream), rl_bytes_leidos = n\<rparr> else None)"

definition deserializar_respuesta_obtener_atributos :: "u8 list \<Rightarrow> nat \<Rightarrow> t_respuesta_obtener_atributos option" where
  "deserializar_respuesta_obtener_atributos stream longitud =
     (if 24 \<le> length stream then
        Some \<lparr>numero_de_inodo = r32 stream 0, ra_modo = r32 stream 4, numero_de_hard_links = r32 stream 8,
          ra_size = r32 stream 12, tamano_de_bloque_por_fs = r32 stream 16, cantidad_de_bloques_de_512b = r32 stream 20\<rparr>
      else None)"

definition deserializar_respuesta_escribir_archivo :: "u8 list \<Rightarrow> nat \<Rightarrow> u32 option" where
  "deserializar_respuesta_escribir_archivo stream longitud =
     (if longitud \<le> length stream \<and> longitud \<le> 4 then Some (of_nat (le_nat (take longitud stream))) else None)"

text \<open>The final status is read into an \<open>int32_t\<close> that was zeroed.\<close>

definition deserializar_respuesta_finalizacion :: "u8 list \<Rightarrow> nat \<Rightarrow> u32 option" where
  "deserializar_respuesta_finalizacion stream longitud =
     (if longitud \<le> length stream \<and> longitud \<le> 4 then Some (of_nat (le_nat (take longitud stream))) else None)"

section \<open>Sockets\<close>

text \<open>
  The bytes that will arrive are a list of chunks: \<open>recv\<close> for \<open>n\<close> bytes returns at most
  \<open>n\<close> of the first chunk, and 0 once the peer has closed.
\<close>

fun recv :: "u8 list list \<Rightarrow> nat \<Rightarrow> u8 list \<times> u8 list list" where
  "recv [] n = ([], [])"
| "recv (c # cs) n = (take n c, if length c \<le> n then cs else drop n c # cs)"

text \<open>
  The loop asks for the whole length again at every turn: more bytes than are missing
  overflow the buffer, and a closed connection makes it run forever.
\<close>

function recibir_loop :: "u8 list list \<Rightarrow> u8 list \<Rightarrow> nat \<Rightarrow> (u8 list \<times> u8 list list) option" where
  "recibir_loop chunks got longitud =
     (if length got < longitud then
        let (bs, chunks') = recv chunks longitud
        in if bs = [] then None
           else if length got + length bs > longitud then None
           else recibir_loop chunks' (got @ bs) longitud
      else Some (got, chunks))"
  by pat_completeness auto
termination
  by (relation "measure (\<lambda>(chunks, got, longitud). longitud - length got)") (auto intro!: diff_less_mono2)

declare recibir_loop.simps [simp del]

definition sockete_recibir :: "u8 list list \<Rightarrow> nat \<Rightarrow> (u8 list option \<times> u8 list list) option" where
  "sockete_recibir chunks longitud_retorno =
     (let (bs, chunks') = recv chunks longitud_retorno
      in if bs = [] then Some (None, chunks')
         else map_option (\<lambda>(got, cs). (Some got, cs)) (recibir_loop chunks' bs longitud_retorno))"

text \<open>On a failed \<open>recv\<close> the buffers keep the zeroes of \<open>calloc\<close>.\<close>

definition received :: "u8 list option \<Rightarrow> nat \<Rightarrow> u8 list" where
  "received r n = (case r of None \<Rightarrow> replicate n 0 | Some bs \<Rightarrow> bs)"

definition recibir_header :: "u8 list list \<Rightarrow> (t_header \<times> bool \<times> u8 list list) option" where
  \<comment> \<open>The header, whether the peer was gone (\<open>errno == EBADFD\<close>), the rest.\<close>
  "recibir_header chunks = do {
     (r, chunks) \<leftarrow> sockete_recibir chunks 3;
     h \<leftarrow> deserializar_header (received r 3);
     Some (h, r = None, chunks) }"

definition recibir_paquete :: "u8 list list \<Rightarrow> u16 \<Rightarrow> (u8 list \<times> u8 list list) option" where
  "recibir_paquete chunks longitud = do {
     (r, chunks) \<leftarrow> sockete_recibir chunks (unat longitud);
     Some (received r (unat longitud), chunks) }"

definition server_responder_handshake :: "u8 list list \<Rightarrow> (u8 \<times> u8 list \<times> u8 list list) option" where
  \<comment> \<open>Result, bytes sent, the rest.\<close>
  "server_responder_handshake chunks = do {
     (r, chunks) \<leftarrow> sockete_recibir chunks 3;
     h \<leftarrow> deserializar_handshake (received r 3);
     Some (if h = HANDSHAKE_INIC then (HANDSHAKE_OK, serializar_handshake HANDSHAKE_OK, chunks)
           else (HANDSHAKE_FAIL, serializar_handshake HANDSHAKE_FAIL, chunks)) }"

definition cliente_iniciar_handshake :: "u8 list" where
  "cliente_iniciar_handshake = serializar_handshake HANDSHAKE_INIC"

definition cliente_recibir_handshake :: "u8 list list \<Rightarrow> (u8 \<times> u8 list list) option" where
  "cliente_recibir_handshake chunks = do {
     (r, chunks) \<leftarrow> sockete_recibir chunks 3;
     h \<leftarrow> deserializar_handshake (received r 3);
     Some (h, chunks) }"

section \<open>Receiving what was sent\<close>

lemma length_w32 [simp]: "length (w32 w) = 4"
  by (simp add: w32_def)

lemma length_nstr [simp]: "length (nstr s) = length s + 1"
  by (simp add: nstr_def)

lemma payload_nonempty [simp]: "nstr s \<noteq> []" "w32 w \<noteq> []"
  using length_nstr [of s] length_w32 [of w] by force+

lemma length_packet [simp]: "length (packet t n p) = 3 + length p"
  by (simp add: packet_def)

lemma r32_w32 [simp]: "length pre = at \<Longrightarrow> r32 (pre @ w32 w @ rest) at = w"
  by (simp add: r32_def w32_def u_simps)

lemma r32_first [simp]: "r32 (w32 w @ rest) 0 = w"
  using r32_w32 [of "[]" 0 w rest] by simp

lemma r32_fields:
  "r32 (w32 a @ w32 b @ rest) 4 = b"
  "r32 (w32 a @ w32 b @ w32 c @ rest) 8 = c"
  "r32 (w32 a @ w32 b @ w32 c @ w32 d @ rest) 12 = d"
  "r32 (w32 a @ w32 b @ w32 c @ w32 d @ w32 e @ rest) 16 = e"
  "r32 (w32 a @ w32 b @ w32 c @ w32 d @ w32 e @ w32 f) 20 = f"
  using r32_w32 [of "w32 a" 4 b rest] r32_w32 [of "w32 a @ w32 b" 8 c rest]
    r32_w32 [of "w32 a @ w32 b @ w32 c" 12 d rest]
    r32_w32 [of "w32 a @ w32 b @ w32 c @ w32 d" 16 e rest]
    r32_w32 [of "w32 a @ w32 b @ w32 c @ w32 d @ w32 e" 20 f "[]"] by simp_all

lemma recibir_loop_done: "length got = n \<Longrightarrow> recibir_loop chunks got n = Some (got, chunks)"
  by (simp add: recibir_loop.simps [of chunks got n])

lemma sockete_recibir_chunk:
  assumes "0 < n" and "n \<le> length c"
  shows "sockete_recibir (c # cs) n = Some (Some (take n c), if length c \<le> n then cs else drop n c # cs)"
  using assms by (auto simp: sockete_recibir_def recibir_loop_done Let_def)

lemma recibir_header_packet:
  assumes "n < 65536"
  shows "recibir_header (packet t n p # cs) =
    Some (\<lparr>h_tipo = t, h_longitud = of_nat n\<rparr>, False, if p = [] then cs else p # cs)"
proof -
  have "recibir_header (packet t n p # cs) = do {
      h \<leftarrow> deserializar_header (t # le_bytes 2 n); Some (h, False, if p = [] then cs else p # cs) }"
    by (simp add: recibir_header_def sockete_recibir_chunk received_def packet_def numeral_3_eq_3)
  also have "deserializar_header (t # le_bytes 2 n) = Some \<lparr>h_tipo = t, h_longitud = of_nat n\<rparr>"
    using assms by (simp add: deserializar_header_def)
  finally show ?thesis by simp
qed

lemma recibir_paquete_chunk:
  assumes "length p < 65536" and "p \<noteq> []"
  shows "recibir_paquete (p # cs) (of_nat (length p)) = Some (p, cs)"
  using assms by (simp add: recibir_paquete_def sockete_recibir_chunk received_def u_simps)

lemma recibir_paquete_empty: "\<exists>cs'. recibir_paquete cs 0 = Some ([], cs')"
  by (cases cs) (auto simp: recibir_paquete_def sockete_recibir_def received_def)

lemma c_string_nstr:
  assumes "CHR 0x00 \<notin> set s"
  shows "c_string (nstr s @ rest) = Some s"
proof -
  have nz: "char_byte c \<noteq> 0" if "c \<in> set s" for c
  proof
    assume "char_byte c = 0"
    then have "(of_char c :: nat) = 0" by (metis unat_char_byte unsigned_0)
    then have "char_of (of_char c :: nat) = CHR 0x00" by (simp add: char_of_def)
    then show False using that assms by simp
  qed
  then have "takeWhile (\<lambda>b. b \<noteq> 0) (nstr s @ rest) = bytes_of_string s"
    by (simp add: nstr_def bytes_of_string_def takeWhile_append2 takeWhile_append)
  then show ?thesis
    by (simp add: c_string_def nstr_def bytes_of_string_def comp_def u_simps)
qed

section \<open>The codec interface\<close>

text \<open>What both ends do to receive a packet and read its payload.\<close>

definition receive ::
  "(u8 list \<Rightarrow> nat \<Rightarrow> 'b option) \<Rightarrow> u8 list list \<Rightarrow> (u8 \<times> 'b \<times> u8 list list) option" where
  "receive decode chunks = do {
     (h, closed, chunks) \<leftarrow> recibir_header chunks;
     (p, chunks) \<leftarrow> recibir_paquete chunks (h_longitud h);
     d \<leftarrow> decode p (unat (h_longitud h));
     Some (h_tipo h, d, chunks) }"

locale packet_codec =
  fixes encode :: "'a \<Rightarrow> u8 list option"
    and kind :: "'a \<Rightarrow> u8"
    and payload :: "'a \<Rightarrow> u8 list"
    and decode :: "u8 list \<Rightarrow> nat \<Rightarrow> 'b option"
    and view :: "'a \<Rightarrow> 'b"
    and ok :: "'a \<Rightarrow> bool"
  assumes framed: "ok x \<Longrightarrow> encode x = Some (packet (kind x) (length (payload x)) (payload x))"
    and nonempty: "ok x \<Longrightarrow> payload x \<noteq> []"
    and bounded: "ok x \<Longrightarrow> length (payload x) < 65536"
    and decoded: "ok x \<Longrightarrow> decode (payload x) (length (payload x)) = Some (view x)"
begin

lemma delivered:
  assumes "ok x"
  shows "\<exists>bs. encode x = Some bs \<and> receive decode (bs # cs) = Some (kind x, view x, cs)"
  using assms bounded [OF assms]
  by (simp add: framed nonempty decoded receive_def recibir_header_packet recibir_paquete_chunk u_simps)

lemma pipelined:
  assumes "ok x" and "ok y"
  shows "\<exists>bs cs. encode x = Some bs \<and> encode y = Some cs \<and>
    receive decode (bs # cs # rest) = Some (kind x, view x, cs # rest) \<and>
    receive decode (cs # rest) = Some (kind y, view y, rest)"
proof -
  obtain cs where cs: "encode y = Some cs" "receive decode (cs # rest) = Some (kind y, view y, rest)"
    using delivered [OF assms(2)] by blast
  obtain bs where "encode x = Some bs" "receive decode (bs # cs # rest) = Some (kind x, view x, cs # rest)"
    using delivered [OF assms(1)] by blast
  with cs show ?thesis by blast
qed

end

interpretation nombre: packet_codec
  "\<lambda>(tipo, s). Some (serializar_pedido_nombre tipo s)" fst "\<lambda>(tipo, s). nstr s"
  deserializar_pedido_nombre "\<lambda>(tipo, s). nstr s" "\<lambda>(tipo, s). length s + 1 < 65536"
  by unfold_locales (auto simp: serializar_pedido_nombre_def deserializar_pedido_nombre_def)

interpretation modo_nombre: packet_codec
  "\<lambda>(tipo, s, modo). Some (serializar_pedido_modo_nombre tipo s modo)" fst
  "\<lambda>(tipo, s, modo). w32 modo @ nstr s" deserializar_pedido_modo_nombre
  "\<lambda>(tipo, s, modo). \<lparr>pmn_nombre = nstr s, pmn_modo = modo\<rparr>" "\<lambda>(tipo, s, modo). length s + 5 < 65536"
  by unfold_locales (auto simp: serializar_pedido_modo_nombre_def deserializar_pedido_modo_nombre_def)

interpretation leer: packet_codec
  "\<lambda>(s, sz, offset). Some (serializar_pedido_leer_archivo s sz offset)" "\<lambda>_. LEER_ARCHIVO"
  "\<lambda>(s, sz, offset). w32 sz @ w32 offset @ nstr s" deserializar_pedido_leer_archivo
  "\<lambda>(s, sz, offset). \<lparr>pl_nombre = nstr s, pl_size = sz, pl_offset = offset\<rparr>" "\<lambda>(s, _). length s + 9 < 65536"
  by unfold_locales
     (auto simp: serializar_pedido_leer_archivo_def deserializar_pedido_leer_archivo_def r32_fields)

interpretation escribir: packet_codec
  "\<lambda>(s, buf, sz, offset). serializar_pedido_escribir_archivo s buf sz offset" "\<lambda>_. ESCRIBIR_ARCHIVO"
  "\<lambda>(s, buf, sz, offset). w32 sz @ w32 offset @ take (unat sz) buf @ nstr s" deserializar_pedido_escribir_archivo
  "\<lambda>(s, buf, sz, offset). \<lparr>pe_nombre = nstr s, pe_buffer = take (unat sz) buf, pe_size = sz, pe_offset = offset\<rparr>"
  "\<lambda>(s, buf, sz, offset). unat sz \<le> length buf \<and> length s + unat sz + 9 < 65536"
  by unfold_locales
     (auto simp: serializar_pedido_escribir_archivo_def deserializar_pedido_escribir_archivo_def r32_fields
       Let_def ac_simps)

interpretation truncar: packet_codec
  "\<lambda>(s, sz). Some (serializar_pedido_truncar_archivo s sz)" "\<lambda>_. TRUNCAR_ARCHIVO" "\<lambda>(s, sz). w32 sz @ nstr s"
  deserializar_pedido_truncar_archivo "\<lambda>(s, sz). \<lparr>pt_nombre = nstr s, pt_size = sz\<rparr>" "\<lambda>(s, _). length s + 5 < 65536"
  by unfold_locales (auto simp: serializar_pedido_truncar_archivo_def deserializar_pedido_truncar_archivo_def)

interpretation bytes_leidos: packet_codec
  "\<lambda>(tipo, n, buf). serializar_respuesta_leer_archivo tipo n buf" fst "\<lambda>(tipo, n, buf). w32 n @ take (unat n) buf"
  deserializar_respuesta_leer_archivo "\<lambda>(tipo, n, buf). \<lparr>rl_buffer = take (unat n) buf, rl_bytes_leidos = n\<rparr>"
  "\<lambda>(tipo, n, buf). unat n \<le> length buf \<and> unat n + 4 < 65536"
  by unfold_locales (auto simp: serializar_respuesta_leer_archivo_def deserializar_respuesta_leer_archivo_def Let_def)

interpretation bytes_escritos: packet_codec
  "\<lambda>(tipo, n). Some (serializar_respuesta_escribir_archivo tipo n)" fst "\<lambda>(tipo, n). w32 n"
  deserializar_respuesta_escribir_archivo snd "\<lambda>_. True"
  by unfold_locales
     (auto simp: serializar_respuesta_escribir_archivo_def deserializar_respuesta_escribir_archivo_def, simp add: w32_def u_simps)

interpretation atributos: packet_codec
  "\<lambda>(tipo, a). Some (serializar_respuesta_obtener_atributos tipo a)" fst
  "\<lambda>(tipo, a). w32 (numero_de_inodo a) @ w32 (ra_modo a) @ w32 (numero_de_hard_links a) @
     w32 (ra_size a) @ w32 (tamano_de_bloque_por_fs a) @ w32 (cantidad_de_bloques_de_512b a)"
  deserializar_respuesta_obtener_atributos snd "\<lambda>_. True"
  by unfold_locales
     (auto simp: serializar_respuesta_obtener_atributos_def deserializar_respuesta_obtener_atributos_def r32_fields)

section \<open>Listings\<close>

definition name_ok :: "string \<Rightarrow> bool" where
  "name_ok s \<longleftrightarrow> s \<noteq> [] \<and> CHR ''#'' \<notin> set s \<and> CHR 0x00 \<notin> set s"

lemma bytes_of_string_append [simp]: "bytes_of_string (s @ t) = bytes_of_string s @ bytes_of_string t"
  by (simp add: bytes_of_string_def)

lemma join_names_strings:
  "join_names (map bytes_of_string (s # ss)) = bytes_of_string (s @ concat (map (\<lambda>t. CHR ''#'' # t) ss))"
proof -
  have "concat (map (\<lambda>m. char_byte (CHR ''#'') # m) (map bytes_of_string ss)) =
      bytes_of_string (concat (map (\<lambda>t. CHR ''#'' # t) ss))"
    by (induction ss) (simp_all add: bytes_of_string_def)
  then show ?thesis by (simp add: join_names_def)
qed

lemma split_joined:
  "\<forall>t \<in> set (s # ss). name_ok t \<Longrightarrow> string_split (s @ concat (map (\<lambda>t. CHR ''#'' # t) ss)) ''#'' = s # ss"
proof (induction ss arbitrary: s)
  case Nil
  then show ?case using strtok_token [of s "''#''" "[]"]
    by (simp add: string_split_def string_duplicate_def name_ok_def strtok_none)
next
  case (Cons t ss)
  let ?rest = "t @ concat (map (\<lambda>t. CHR ''#'' # t) ss)"
  have "strtok_tokens ''#'' (s @ CHR ''#'' # ?rest) = s # strtok_tokens ''#'' (CHR ''#'' # ?rest)"
    using Cons.prems by (intro strtok_token) (auto simp: name_ok_def)
  moreover have "strtok_tokens ''#'' (CHR ''#'' # ?rest) = strtok_tokens ''#'' ?rest"
    using strtok_skip [of "''#''" "''#''" ?rest] by simp
  ultimately show ?case using Cons.IH [of t] Cons.prems by (simp add: string_split_def string_duplicate_def)
qed

lemma sum_list_Suc_lengths: "sum_list (map (\<lambda>n. length n + 1) ns) = length (concat ns) + length ns"
  by (induction ns) auto

lemma length_join_names:
  "ns \<noteq> [] \<Longrightarrow> length (join_names ns) + 1 = length (concat ns) + length ns"
proof -
  have "length (concat (map (\<lambda>m. x # m) ms)) = length (concat ms) + length ms" for x :: u8 and ms
    by (induction ms) auto
  then show "ns \<noteq> [] \<Longrightarrow> ?thesis" by (cases ns) (auto simp: join_names_def)
qed

section \<open>Properties\<close>

text \<open>
  C31: every request reaches the server as the client meant it: receiving the packet that a
  client serializer built returns its type and fields and leaves the following packets of the
  stream in place, for every payload that fits the 16 bits of the length field.
\<close>

theorem requests_delivered:
  "(length s + 1 < 65536 \<longrightarrow>
      receive deserializar_pedido_nombre (serializar_pedido_nombre t s # cs) = Some (t, nstr s, cs)) \<and>
   (length s + 5 < 65536 \<longrightarrow>
      receive deserializar_pedido_modo_nombre (serializar_pedido_modo_nombre t s m # cs) =
        Some (t, \<lparr>pmn_nombre = nstr s, pmn_modo = m\<rparr>, cs)) \<and>
   (length s + 9 < 65536 \<longrightarrow>
      receive deserializar_pedido_leer_archivo (serializar_pedido_leer_archivo s n offset # cs) =
        Some (LEER_ARCHIVO, \<lparr>pl_nombre = nstr s, pl_size = n, pl_offset = offset\<rparr>, cs)) \<and>
   (unat n \<le> length buf \<and> length s + unat n + 9 < 65536 \<longrightarrow>
      (\<exists>bs. serializar_pedido_escribir_archivo s buf n offset = Some bs \<and>
        receive deserializar_pedido_escribir_archivo (bs # cs) =
          Some (ESCRIBIR_ARCHIVO, \<lparr>pe_nombre = nstr s, pe_buffer = take (unat n) buf, pe_size = n, pe_offset = offset\<rparr>, cs))) \<and>
   (length s + 5 < 65536 \<longrightarrow>
      receive deserializar_pedido_truncar_archivo (serializar_pedido_truncar_archivo s n # cs) =
        Some (TRUNCAR_ARCHIVO, \<lparr>pt_nombre = nstr s, pt_size = n\<rparr>, cs))"
  using nombre.delivered [of "(t, s)" cs] modo_nombre.delivered [of "(t, s, m)" cs]
    leer.delivered [of "(s, n, offset)" cs] escribir.delivered [of "(s, buf, n, offset)" cs]
    truncar.delivered [of "(s, n)" cs] by auto

lemma requests_delivered_witness:
  "receive deserializar_pedido_leer_archivo (serializar_pedido_leer_archivo ''/a'' 512 1024 # []) =
    Some (LEER_ARCHIVO, \<lparr>pl_nombre = [47, 97, 0], pl_size = 512, pl_offset = 1024\<rparr>, [])"
  using requests_delivered [of "''/a''" 0 "[]" 0 512 1024 "[]"]
  by (simp add: nstr_def bytes_of_string_def char_byte_def)

text \<open>
  An answer to a read of 65532 bytes or more cannot be built: its length does not fit the
  16 bits it is kept in, and the bytes are copied past the buffer allocated from it.
\<close>

theorem long_read_overruns:
  assumes "65532 \<le> unat n"
  shows "serializar_respuesta_leer_archivo t n buf = None"
proof -
  have "\<not> 4 + unat n \<le> (4 + unat n) mod 65536"
    using assms mod_less_divisor [of 65536 "4 + unat n"] by linarith
  then show ?thesis by (simp add: serializar_respuesta_leer_archivo_def Let_def)
qed

lemma long_read_overruns_witness: "serializar_respuesta_leer_archivo RESPUESTA_OK 65536 (replicate 65536 0) = None"
  by (rule long_read_overruns) simp

text \<open>
  C38: a message that arrives in two pieces is received whole only when the second piece ends
  exactly where the message ends: with one byte more the receiving loop, which asks for the full
  length again, writes past the buffer; when the peer closes first, it never ends.
\<close>

theorem second_piece_of_a_message:
  assumes "0 < length c" and "length c < n" and "0 < length d"
  shows "sockete_recibir (c # d # cs) n =
      (if length c + length d < n then map_option (\<lambda>(got, cs). (Some got, cs)) (recibir_loop cs (c @ d) n)
       else if length c + length d = n then Some (Some (c @ d), cs) else None) \<and>
    sockete_recibir [c] n = None"
proof -
  have "sockete_recibir [c] n = None"
    using assms by (auto simp: sockete_recibir_def Let_def recibir_loop.simps [of "[]" c n])
  moreover have "sockete_recibir (c # d # cs) n =
      map_option (\<lambda>(got, cs). (Some got, cs)) (recibir_loop (d # cs) c n)"
    using assms by (auto simp: sockete_recibir_def Let_def)
  moreover have "recibir_loop (d # cs) c n =
      (if length c + length d < n then recibir_loop cs (c @ d) n
       else if length c + length d = n then Some (c @ d, cs) else None)"
    using assms by (subst recibir_loop.simps) (auto simp: Let_def recibir_loop_done)
  ultimately show ?thesis by auto
qed

lemma second_piece_of_a_message_witness:
  "sockete_recibir [[1], [2, 3], [4]] 3 = Some (Some [1, 2, 3], [[4]]) \<and>
   sockete_recibir [[1], [2, 3, 4]] 3 = None"
  using second_piece_of_a_message [of "[1]" 3 "[2, 3]" "[[4]]"]
    second_piece_of_a_message [of "[1]" 3 "[2, 3, 4]" "[]"] by simp

end
