(* ===== verification/Socketes.thy ===== *)
theory Socketes
  imports Protocol
begin

text \<open>
  The rest of \<^verbatim>\<open>rfs/commons/sockete.c\<close>: sending, and the calls that open, accept and close connections.
  The results of the operating system are arguments, in the order the calls are made; a call
  that is made when none is left blocks for ever (\<open>None\<close>).
\<close>

type_synonym i32 = "32 word"
type_synonym t_sockete = i32

definition SOCKETEOK :: i32 where
  "SOCKETEOK = 0"

definition SOCKETEERROR :: i32 where
  "SOCKETEERROR = - 1"

section \<open>Sending\<close>

text \<open>
  \<open>send(fd, mensaje + aux, longitud, 0)\<close> with result \<open>r\<close>: the \<open>r\<close> bytes from \<open>aux\<close> on are on their way.
  Bytes outside the message are read where C leaves it undefined.
\<close>

definition enviados :: "u8 list \<Rightarrow> nat \<Rightarrow> i32 \<Rightarrow> u8 list option" where
  "enviados mensaje aux r =
     (if r = - 1 then Some []
      else if aux + unat r \<le> length mensaje then Some (take (unat r) (drop aux mensaje)) else None)"

text \<open>
  In \<open>aux < longitud\<close> the \<open>int32_t\<close> is converted to the unsigned type of \<open>longitud\<close>. Every turn asks
  for \<open>longitud\<close> bytes again, and a failure is added to \<open>aux\<close> like a length.
\<close>

fun enviar_loop :: "i32 list \<Rightarrow> u8 list \<Rightarrow> u32 \<Rightarrow> i32 \<Rightarrow> u8 list \<Rightarrow> (i32 \<times> u8 list \<times> i32 list) option" where
  "enviar_loop rs mensaje longitud aux sent =
     (if aux < longitud then
        (case rs of
           [] \<Rightarrow> None
         | bytes_enviados # rs \<Rightarrow> do {
             bs \<leftarrow> enviados mensaje (unat aux) bytes_enviados;
             enviar_loop rs mensaje longitud (aux + bytes_enviados) (sent @ bs) })
      else Some (aux, sent, rs))"

declare enviar_loop.simps [simp del]

definition sockete_enviar :: "i32 list \<Rightarrow> u8 list \<Rightarrow> u32 \<Rightarrow> (i32 \<times> u8 list \<times> i32 list) option" where
  \<comment> \<open>The result, the bytes that reached the connection, and the results of later calls.\<close>
  "sockete_enviar rs mensaje longitud = (case rs of
       [] \<Rightarrow> None
     | bytes_enviados # rs \<Rightarrow>
         if bytes_enviados = - 1 then Some (SOCKETEERROR, [], rs)
         else do {
           bs \<leftarrow> enviados mensaje 0 bytes_enviados;
           enviar_loop rs mensaje longitud bytes_enviados bs })"

definition enviar_paquete_sk :: "i32 list \<Rightarrow> u8 list \<Rightarrow> (u8 \<times> u8 list \<times> i32 list) option" where
  \<comment> \<open>\<open>enviar_paquete\<close> of the server; the result is an \<open>uint8_t\<close>.\<close>
  "enviar_paquete_sk rs paquete = do {
     (r, sent, rs) \<leftarrow> sockete_enviar rs paquete (of_nat (length paquete));
     Some (if r = SOCKETEERROR then ucast SOCKETEERROR else ucast SOCKETEOK, sent, rs) }"

section \<open>Connections\<close>

text \<open>
  The descriptors of the process that are open are part of the state. \<open>socket\<close> and \<open>accept\<close> give
  \<open>-1\<close> or a new descriptor, the other calls \<open>-1\<close> or \<open>0\<close>.
\<close>

definition abrir :: "t_sockete \<Rightarrow> t_sockete set \<Rightarrow> t_sockete set" where
  "abrir fd abiertos = (if fd = - 1 then abiertos else insert fd abiertos)"

definition sockete_conectar_cliente :: "t_sockete \<Rightarrow> i32 \<Rightarrow> t_sockete set \<Rightarrow> t_sockete \<times> t_sockete set" where
  "sockete_conectar_cliente fd connect abiertos =
     (if fd = - 1 then (SOCKETEERROR, abiertos)
      else let abiertos = abrir fd abiertos
           in if connect = - 1 then (SOCKETEERROR, abiertos) else (fd, abiertos))"

definition sockete_bindear_servidor :: "t_sockete \<Rightarrow> i32 \<Rightarrow> i32 \<Rightarrow> t_sockete set \<Rightarrow> t_sockete \<times> t_sockete set" where
  "sockete_bindear_servidor fd setsockopt bound abiertos =
     (if fd = - 1 then (SOCKETEERROR, abiertos)
      else let abiertos = abrir fd abiertos
           in if setsockopt = - 1 then (SOCKETEERROR, abiertos)
              else if bound = - 1 then (SOCKETEERROR, abiertos) else (fd, abiertos))"

definition sockete_escuchar :: "i32 \<Rightarrow> i32" where
  "sockete_escuchar listen = (if listen = - 1 then SOCKETEERROR else SOCKETEOK)"

text \<open>The test after \<open>accept\<close> is on the listening socket, not on the result.\<close>

definition sockete_aceptar :: "t_sockete \<Rightarrow> t_sockete \<Rightarrow> t_sockete set \<Rightarrow> t_sockete \<times> t_sockete set" where
  "sockete_aceptar fd accept abiertos =
     (let fd_remoto = accept; abiertos = abrir accept abiertos
      in if fd = - 1 then (SOCKETEERROR, abiertos) else (fd_remoto, abiertos))"

definition EINTR :: i32 where
  "EINTR = 4"

text \<open>\<open>close\<close> gives \<open>0\<close> or \<open>-1\<close>; its result is compared with an error number.\<close>

definition sockete_cerrar :: "t_sockete \<Rightarrow> i32 \<Rightarrow> t_sockete set \<Rightarrow> i32 \<times> t_sockete set" where
  "sockete_cerrar fd close abiertos =
     (let abiertos = (if close = 0 then abiertos - {fd} else abiertos)
      in if close = EINTR then (SOCKETEERROR, abiertos) else (SOCKETEOK, abiertos))"

definition sockete_multiplexar :: "i32 \<Rightarrow> i32" where
  "sockete_multiplexar select = (if select = - 1 then SOCKETEERROR else SOCKETEOK)"

section \<open>What reaches the connection\<close>

lemma of_nat_not_error: "n < 2 ^ 31 \<Longrightarrow> (of_nat n :: i32) \<noteq> - 1"
proof
  assume "n < 2 ^ 31" "(of_nat n :: i32) = - 1"
  moreover have "(- 1 :: i32) = 4294967295" by simp
  moreover have "unat (4294967295 :: i32) = 4294967295" by simp
  ultimately have "unat (of_nat n :: i32) = 4294967295" by (simp only:)
  with \<open>n < 2 ^ 31\<close> show False by (simp add: unat_of_nat_u32)
qed

lemma enviados_piece: "n < 2 ^ 31 \<Longrightarrow> a + n \<le> length m \<Longrightarrow> enviados m a (of_nat n) = Some (take n (drop a m))"
  by (simp add: enviados_def of_nat_not_error unat_of_nat_u32)

lemma enviar_pieces:
  assumes "length m < 2 ^ 31" and "a + sum_list ps = length m" and "\<forall>p \<in> set ps. 0 < p"
  shows "enviar_loop (map of_nat ps @ rs) m (of_nat (length m)) (of_nat a) (take a m) = Some (of_nat (length m), m, rs)"
  using assms(2,3)
proof (induction ps arbitrary: a)
  case Nil
  then show ?case by (simp add: enviar_loop.simps)
next
  case (Cons p ps)
  have b: "a + p \<le> length m" "0 < p" using Cons.prems by auto
  then have "(of_nat a :: u32) < of_nat (length m)" using assms(1) by (simp add: word_less_nat_alt unat_of_nat_u32)
  moreover have "unat (of_nat a :: u32) = a" using b assms(1) by (simp add: unat_of_nat_u32)
  moreover have "enviados m a (of_nat p) = Some (take p (drop a m))" using b assms(1) by (intro enviados_piece) auto
  moreover have "(of_nat a :: u32) + of_nat p = of_nat (a + p)" by simp
  moreover have "take a m @ take p (drop a m) = take (a + p) m" by (simp add: take_add)
  ultimately show ?case using Cons.IH [of "a + p"] Cons.prems by (subst enviar_loop.simps) (simp add: add.assoc)
qed

lemma enviar_turn:
  assumes "aux < longitud" and "enviados m (unat aux) r = Some bs"
  shows "enviar_loop (r # rs) m longitud aux sent = enviar_loop rs m longitud (aux + r) (sent @ bs)"
  using assms by (simp add: enviar_loop.simps [of "r # rs"])

section \<open>Properties\<close>

text \<open>
  Sending a message. If the operating system takes it in pieces that add up exactly, all of it
  arrives, in order, and its length is returned; a failure of the first call is reported. A failure
  of a later call is not: one byte of what was sent is sent again, and the length is returned
  as if nothing had happened. A later call that takes more than is missing reads past the message.
\<close>

theorem message_sent_in_pieces:
  assumes "length m < 2 ^ 31" and "0 < a" and "a < length m"
  shows "(ps \<noteq> [] \<and> (\<forall>p \<in> set ps. 0 < p) \<and> sum_list ps = length m \<longrightarrow>
      sockete_enviar (map of_nat ps @ rs) m (of_nat (length m)) = Some (of_nat (length m), m, rs)) \<and>
    sockete_enviar (- 1 # rs) m (of_nat (length m)) = Some (SOCKETEERROR, [], rs) \<and>
    sockete_enviar (of_nat a # - 1 # of_nat (length m - a + 1) # rs) m (of_nat (length m)) =
      Some (of_nat (length m), take a m @ drop (a - 1) m, rs) \<and>
    (length m < a + b \<and> b \<le> length m \<longrightarrow> sockete_enviar (of_nat a # of_nat b # rs) m (of_nat (length m)) = None)"
proof (intro conjI)
  let ?n = "of_nat (length m) :: u32"
  have first: "sockete_enviar (of_nat k # rs) m ?n = enviar_loop rs m ?n (of_nat k) (take k m)" if "k \<le> length m" for k rs
    using that assms(1) enviados_piece [of k 0 m] by (simp add: sockete_enviar_def of_nat_not_error)
  show "ps \<noteq> [] \<and> (\<forall>p \<in> set ps. 0 < p) \<and> sum_list ps = length m \<longrightarrow>
      sockete_enviar (map of_nat ps @ rs) m ?n = Some (?n, m, rs)"
  proof (intro impI, elim conjE)
    assume "ps \<noteq> []" "\<forall>p \<in> set ps. 0 < p" "sum_list ps = length m"
    then obtain k qs where "ps = k # qs" "k + sum_list qs = length m" "\<forall>p \<in> set qs. 0 < p" by (cases ps) auto
    then show "sockete_enviar (map of_nat ps @ rs) m ?n = Some (?n, m, rs)"
      using first [of k] enviar_pieces [OF assms(1), of k qs rs] by simp
  qed
  show "sockete_enviar (- 1 # rs) m ?n = Some (SOCKETEERROR, [], rs)" by (simp add: sockete_enviar_def)
  obtain k where k: "a = Suc k" using assms(2) by (cases a) auto
  have turn: "(of_nat a :: u32) < ?n" "unat (of_nat a :: u32) = a" "(of_nat k :: u32) < ?n" "unat (of_nat k :: u32) = k"
    using assms k by (simp_all only: word_less_nat_alt unat_of_nat_u32) simp_all
  have "(of_nat a :: u32) + - 1 = of_nat k" by (simp add: k)
  moreover have "(of_nat k :: u32) + of_nat (length m - a + 1) = of_nat (k + (length m - a + 1))" by (simp only: of_nat_add)
  moreover have "k + (length m - a + 1) = length m" using assms(3) k by simp
  moreover have "enviados m k (of_nat (length m - a + 1)) = Some (drop k m)"
    using enviados_piece [of "length m - a + 1" k m] assms k by simp
  ultimately show "sockete_enviar (of_nat a # - 1 # of_nat (length m - a + 1) # rs) m ?n = Some (?n, take a m @ drop (a - 1) m, rs)"
    using first [of a] turn assms(3) enviados_def [of m a "- 1"] k
    by (simp add: enviar_turn enviar_loop.simps [of rs] del: of_nat_Suc of_nat_diff)
  show "length m < a + b \<and> b \<le> length m \<longrightarrow> sockete_enviar (of_nat a # of_nat b # rs) m ?n = None"
    using first [of a] turn assms of_nat_not_error [of b]
    by (auto simp: enviar_loop.simps [of "of_nat b # rs"] enviados_def unat_of_nat_u32)
qed

lemma message_sent_in_pieces_witness:
  "sockete_enviar [2, 1] [10, 20, 30] 3 = Some (3, [10, 20, 30], []) \<and>
   sockete_enviar [2, - 1, 2] [10, 20, 30] 3 = Some (3, [10, 20, 20, 30], []) \<and> sockete_enviar [2, 2] [10, 20, 30] 3 = None"
  using message_sent_in_pieces [of "[10, 20, 30]" 2 "[2, 1]" "[]" 2] by simp

end
