(* ===== verification/File_Ops.thy ===== *)
theory File_Ops
  imports Directory
begin

text \<open>
  The operations of \<^verbatim>\<open>rfs/source_RFS/file_operations.c\<close> that the workers run: path lookup, the
  block cache, and list, read, getattr, truncate, write, open, create and delete. libmemcached
  is a parameter: a record of its three calls over an abstract cache state.
\<close>

section \<open>Parameters and results\<close>

record 'c memcached_lib =
  memcached_get :: "'c \<Rightarrow> u8 list \<Rightarrow> u8 list option \<times> 'c"
  memcached_set :: "'c \<Rightarrow> u8 list \<Rightarrow> u8 list \<Rightarrow> 'c"
  memcached_delete :: "'c \<Rightarrow> u8 list \<Rightarrow> 'c"

definition map_lib :: "(u8 list \<Rightarrow> u8 list option) memcached_lib" where
  \<comment> \<open>A cache that never evicts.\<close>
  "map_lib = \<lparr>memcached_get = (\<lambda>c k. (c k, c)), memcached_set = (\<lambda>c k v. c(k \<mapsto> v)), memcached_delete = (\<lambda>c k. c(k := None))\<rparr>"

record params_t =
  p_path :: string
  p_mode :: u32
  write_buffer :: "u8 list"
  p_file :: bool
  p_offset :: u32
  bytes_to_read :: u32
  bytes_to_write :: u32
  p_size :: u64
  p_socket :: int

record reduced_stat_t =
  rs_inode_number :: u32
  rs_mode :: u16
  rs_size :: u32
  rs_links_count :: u16

text \<open>What \<open>result->data\<close> points to: nothing, a status or count, directory entries (addresses in
  the mapped file), the bytes read, or attributes.\<close>

datatype result_data = D_null | D_word u32 | D_entries "nat list" | D_bytes "u8 list" | D_stat reduced_stat_t

record operation_result_t =
  r_path :: string
  r_data :: result_data
  read_bytes :: u32
  r_error :: u32

definition new_result :: "params_t \<Rightarrow> result_data \<Rightarrow> operation_result_t" where
  "new_result params data = \<lparr>r_path = p_path params, r_data = data, read_bytes = 0, r_error = 0\<rparr>"

section \<open>Block cache\<close>

definition generate_key :: "string \<Rightarrow> u32 \<Rightarrow> u8 list" where
  "generate_key path block_number = bytes_of_string path @ le_bytes 4 (unat block_number)"

definition block_bytes :: "'c server \<Rightarrow> u32 \<Rightarrow> u8 list" where
  "block_bytes st b = load_bytes (fs_file st) (blk_at st b) (unat (BLOCK_SIZE (Super_constants st)))"

text \<open>The data of a file block and whether it came from the cache; \<open>None\<close> is an index past
  the array of addresses.\<close>

definition cache_fs_get_set ::
  "'c memcached_lib \<Rightarrow> params_t \<Rightarrow> u32 \<Rightarrow> 'c server \<Rightarrow> u32 list \<Rightarrow> (u8 list \<times> bool \<times> 'c server) option" where
  "cache_fs_get_set lib params block_number st file_data =
     (let key = generate_key (p_path params) block_number;
          (cached, c) = memcached_get lib (memc st) key
      in case cached of
           Some data \<Rightarrow> Some (data, True, st\<lparr>memc := c\<rparr>)
         | None \<Rightarrow>
             if unat block_number < length file_data then
               let data = block_bytes st (file_data ! unat block_number)
               in Some (data, False, st\<lparr>memc := memcached_set lib c key data\<rparr>)
             else None)"

definition cache_set :: "'c memcached_lib \<Rightarrow> params_t \<Rightarrow> u32 \<Rightarrow> 'c server \<Rightarrow> u32 list \<Rightarrow> 'c server option" where
  "cache_set lib params block_number st file_data =
     (if unat block_number < length file_data then
        Some (st\<lparr>memc := memcached_set lib (memc st) (generate_key (p_path params) block_number)
                 (block_bytes st (file_data ! unat block_number))\<rparr>)
      else None)"

definition cache_delete :: "'c memcached_lib \<Rightarrow> params_t \<Rightarrow> u32 \<Rightarrow> 'c server \<Rightarrow> 'c server" where
  "cache_delete lib params block_number st =
     st\<lparr>memc := memcached_delete lib (memc st) (generate_key (p_path params) block_number)\<rparr>"

section \<open>Path lookup\<close>

fun unlock_all :: "'c server \<Rightarrow> string list \<Rightarrow> 'c server option" where
  "unlock_all st [] = Some st"
| "unlock_all st (p # ps) = do { st \<leftarrow> st_lock UNLOCK st p; unlock_all st ps }"

text \<open>
  \<open>prev\<close> is \<open>sub_paths[-1]\<close>. The result is the inode number, 0 when not found. The inode of an
  intermediate component is read as a directory whatever its type.
\<close>

fun search_in_directory :: "'c server \<Rightarrow> string \<Rightarrow> string list \<Rightarrow> nat list option \<Rightarrow> (u32 \<times> 'c server) option" where
  "search_in_directory st prev [] old_entries = None"
| "search_in_directory st prev (p # ps) old_entries = do {
     name \<leftarrow> active_file_get_file_name p;
     entries \<leftarrow> old_entries;
     case List.find (\<lambda>e. entry_matches (fs_file st) e name) entries of
       Some e \<Rightarrow>
         if ps = [] then do {
           let inode = e_inode (fs_file st) e;
           st \<leftarrow> st_lock UNLOCK st prev;
           st \<leftarrow> st_lock UNLOCK st p;
           Some (inode, st) }
         else do {
           dir_to_list \<leftarrow> Inode_Global_Read (fs_file st) (Super_constants st) (e_inode (fs_file st) e);
           new_entries \<leftarrow> read_directory st dir_to_list;
           st \<leftarrow> st_lock UNLOCK st prev;
           search_in_directory st p ps new_entries }
     | None \<Rightarrow> do {
         st \<leftarrow> unlock_all st (p # ps);
         st \<leftarrow> st_lock UNLOCK st prev;
         Some (0, st\<lparr>errno := ENOENT\<rparr>) } }"

definition ROOT_INODE_NUMBER :: u32 where
  "ROOT_INODE_NUMBER = 2"

fun lock_all :: "'c server \<Rightarrow> string list \<Rightarrow> 'c server option" where
  "lock_all st [] = Some st"
| "lock_all st (p # ps) = do { st \<leftarrow> st_find st p; st \<leftarrow> st_lock RDLOCK st p; lock_all st ps }"

fun finish_all :: "'c server \<Rightarrow> string list \<Rightarrow> 'c server option" where
  "finish_all st [] = Some st"
| "finish_all st (p # ps) = do { st \<leftarrow> st_finished st p; finish_all st ps }"

text \<open>The address of the inode (\<open>None\<close> is \<open>NULL\<close>) and its number.\<close>

definition inode_of_file :: "'c server \<Rightarrow> string \<Rightarrow> (nat option \<times> u32 \<times> 'c server) option" where
  "inode_of_file st path = do {
     splitted_path \<leftarrow> split_path path;
     case splitted_path of
       None \<Rightarrow> Some (None, 0, st)
     | Some sub_paths \<Rightarrow> do {
         st \<leftarrow> lock_all st sub_paths;
         if length sub_paths = 1 then do {
           let found_file = Inode_Global_Read (fs_file st) (Super_constants st) ROOT_INODE_NUMBER;
           st \<leftarrow> st_lock UNLOCK st (hd sub_paths);
           st \<leftarrow> st_finished st (hd sub_paths);
           Some (found_file, ROOT_INODE_NUMBER, st) }
         else do {
           root \<leftarrow> Inode_Global_Read (fs_file st) (Super_constants st) ROOT_INODE_NUMBER;
           root_entries \<leftarrow> read_directory st root;
           (inode, st) \<leftarrow> search_in_directory st (hd sub_paths) (tl sub_paths) root_entries;
           let found_file = (if inode > 0 then Inode_Global_Read (fs_file st) (Super_constants st) inode else None);
           st \<leftarrow> finish_all st sub_paths;
           Some (found_file, inode, st) } } }"

section \<open>Read-only operations\<close>

definition i_mode :: "'c server \<Rightarrow> nat \<Rightarrow> u32" where
  "i_mode st inode = ucast (ld16 st (inode + inode_off I_mode))"

definition list_directory :: "params_t \<Rightarrow> 'c server \<Rightarrow> (operation_result_t \<times> 'c server) option" where
  "list_directory params st = do {
     st \<leftarrow> st_find st (p_path params);
     (dir_inode, n, st) \<leftarrow> inode_of_file st (p_path params);
     st \<leftarrow> st_lock RDLOCK st (p_path params);
     (data, st) \<leftarrow> (case dir_inode of
        None \<Rightarrow> Some (D_null, st)
      | Some inode \<Rightarrow>
          if i_mode st inode AND EXT2_IFDIR \<noteq> 0 then do {
            es \<leftarrow> read_directory st inode;
            Some ((case es of None \<Rightarrow> D_null | Some l \<Rightarrow> D_entries l), st) }
          else Some (D_null, st\<lparr>errno := ENOTDIR\<rparr>));
     st \<leftarrow> st_lock UNLOCK st (p_path params);
     st \<leftarrow> st_finished st (p_path params);
     Some (new_result params data, st) }"

definition getattr :: "params_t \<Rightarrow> 'c server \<Rightarrow> (operation_result_t \<times> 'c server) option" where
  "getattr params st = do {
     st \<leftarrow> st_find st (p_path params);
     (file_inode, n, st) \<leftarrow> inode_of_file st (p_path params);
     st \<leftarrow> st_lock RDLOCK st (p_path params);
     let data = (case file_inode of
        None \<Rightarrow> D_null
      | Some inode \<Rightarrow> D_stat \<lparr>rs_inode_number = n, rs_mode = ld16 st (inode + inode_off I_mode),
          rs_size = ld32 st (inode + inode_off I_size), rs_links_count = ld16 st (inode + inode_off I_links_count)\<rparr>);
     st \<leftarrow> st_lock UNLOCK st (p_path params);
     st \<leftarrow> st_finished st (p_path params);
     Some (new_result params data, st) }"

definition open_file :: "params_t \<Rightarrow> 'c server \<Rightarrow> (operation_result_t \<times> 'c server) option" where
  "open_file params st = do {
     st \<leftarrow> st_find st (p_path params);
     (file_inode, n, st) \<leftarrow> inode_of_file st (p_path params);
     st \<leftarrow> st_finished st (p_path params);
     Some (new_result params (D_word (case file_inode of None \<Rightarrow> 1 | Some _ \<Rightarrow> 0)), st) }"

text \<open>
  Reading. \<open>copy_out\<close> is \<open>memcpy(&buf[at], data + from, n)\<close> into the \<open>calloc\<close>ed buffer; outside
  either object it is undefined. \<open>bytes_to_read\<close> is an \<open>int64_t\<close> here, so the size of the inode, an
  \<open>int32_t\<close>, is compared with its sign; subtracted from the unsigned offset it wraps.
\<close>

definition copy_out :: "u8 list \<Rightarrow> nat \<Rightarrow> u8 list \<Rightarrow> nat \<Rightarrow> nat \<Rightarrow> u8 list option" where
  "copy_out buf at data from n =
     (if at + n \<le> length buf \<and> from + n \<le> length data
      then Some (take at buf @ take n (drop from data) @ drop (at + n) buf) else None)"

function read_blocks ::
  "'c memcached_lib \<Rightarrow> params_t \<Rightarrow> 'c server \<Rightarrow> u32 list \<Rightarrow> u32 \<Rightarrow> int \<Rightarrow> nat \<Rightarrow> u8 list \<Rightarrow> (u8 list \<times> 'c server) option" where
  "read_blocks lib params st file_data block_number to_read read_so_far buf =
     (if to_read > 0 then
        let bs = uint (BLOCK_SIZE (Super_constants st));
            bytes_to_copy = (if to_read > bs then bs else to_read)
        in if bs = 0 then None
           else case cache_fs_get_set lib params block_number st file_data of
             None \<Rightarrow> None
           | Some (data, from_cache, st') \<Rightarrow>
               (case copy_out buf read_so_far data 0 (nat bytes_to_copy) of
                  None \<Rightarrow> None
                | Some buf' \<Rightarrow>
                    read_blocks lib params st' file_data (block_number + 1) (to_read - bytes_to_copy)
                      (read_so_far + nat bytes_to_copy) buf')
      else Some (buf, st))"
  by pat_completeness auto
termination
proof (relation "measure (\<lambda>(lib, params, st, file_data, block_number, to_read, read_so_far, buf). nat to_read)",
    goal_cases)
  case (2 lib params st file_data block_number to_read read_so_far buf bs bytes_to_copy)
  have "0 \<le> bs" using 2(2) by simp
  with 2(1,3,4) show ?case by (auto split: if_splits)
qed simp

declare read_blocks.simps [simp del]

definition addresses :: "u32 list option \<Rightarrow> u32 list" where
  \<comment> \<open>An array that may be \<open>NULL\<close>; indexing \<open>NULL\<close> is caught by the bounds test of its users.\<close>
  "addresses a = (case a of None \<Rightarrow> [] | Some l \<Rightarrow> l)"

definition read_file :: "'c memcached_lib \<Rightarrow> params_t \<Rightarrow> 'c server \<Rightarrow> (operation_result_t \<times> 'c server) option" where
  "read_file lib params st = do {
     st \<leftarrow> st_find st (p_path params);
     (file_inode, n, st) \<leftarrow> inode_of_file st (p_path params);
     case file_inode of
       None \<Rightarrow> do { st \<leftarrow> st_finished st (p_path params); Some (new_result params D_null, st) }
     | Some inode \<Rightarrow>
         let bs = BLOCK_SIZE (Super_constants st);
             offset = p_offset params;
             start_block = offset div bs;
             start_byte_in_start_block = offset mod bs;
             buf = replicate (unat (bytes_to_read params)) 0
         in if i_mode st inode AND EXT2_IFREG \<noteq> 0 then do {
              st \<leftarrow> st_lock RDLOCK st (p_path params);
              let isize = ld32 st (inode + inode_off I_size);
              let file_data = addresses (Inode_Get_Data_Adressess (fs_file st) (Super_constants st) inode isize);
              let to_read = (if sint isize \<le> uint offset + uint (bytes_to_read params) then uint (isize - offset)
                             else uint (bytes_to_read params));
              let remaining = uint (bs - start_byte_in_start_block);
              let bytes_to_copy = (if to_read > remaining then remaining else to_read);
              (data, from_cache, st) \<leftarrow> cache_fs_get_set lib params start_block st file_data;
              buf \<leftarrow> copy_out buf 0 data (unat start_byte_in_start_block) (nat bytes_to_copy);
              let to_read' = to_read - bytes_to_copy;
              (buf, st) \<leftarrow> (if to_read' > remaining
                 then read_blocks lib params st file_data (start_block + 1) to_read' (nat bytes_to_copy) buf
                 else Some (buf, st));
              st \<leftarrow> st_lock UNLOCK st (p_path params);
              st \<leftarrow> st_finished st (p_path params);
              Some ((new_result params (D_bytes buf))\<lparr>read_bytes := of_int to_read\<rparr>, st) }
            else do {
              st \<leftarrow> st_finished (st\<lparr>errno := EPERM\<rparr>) (p_path params);
              Some (new_result params D_null, st) } }"

section \<open>Truncating and writing\<close>

fun remove_range :: "'c memcached_lib \<Rightarrow> params_t \<Rightarrow> nat \<Rightarrow> nat list \<Rightarrow> 'c server \<Rightarrow> 'c server option" where
  "remove_range lib params inode [] st = Some st"
| "remove_range lib params inode (i # is) st = do {
     st \<leftarrow> Remove_Block st inode (of_nat i);
     remove_range lib params inode is (cache_delete lib params (of_nat i) st) }"

definition Remove_Blocks :: "'c memcached_lib \<Rightarrow> 'c server \<Rightarrow> nat \<Rightarrow> int \<Rightarrow> params_t \<Rightarrow> 'c server option" where
  "Remove_Blocks lib st inode block_amount_to_remove params =
     (let start_count = of_nat (Size_In_Blocks (Super_constants st) (ld32 st (inode + inode_off I_size))) :: u32;
          amount = (if block_amount_to_remove > 0 then - block_amount_to_remove else block_amount_to_remove);
          start_remotion_index = of_int (uint start_count + amount) :: u32
      in remove_range lib params inode [unat start_remotion_index..<unat start_count] st)"

definition set_size :: "'c server \<Rightarrow> nat \<Rightarrow> u32 \<Rightarrow> 'c server" where
  "set_size st inode w = st32 st (inode + inode_off I_size) w"

definition set_blocks :: "'c server \<Rightarrow> nat \<Rightarrow> u32 \<Rightarrow> 'c server" where
  "set_blocks st inode w = st32 st (inode + inode_off I_blocks) w"

text \<open>
  \<open>inode->blocks\<close> is set to the number of file system blocks divided by 512; when blocks are
  missing the lock is released twice.
\<close>

definition truncate_file :: "'c memcached_lib \<Rightarrow> params_t \<Rightarrow> 'c server \<Rightarrow> (operation_result_t \<times> 'c server) option" where
  "truncate_file lib params st = do {
     st \<leftarrow> st_find st (p_path params);
     (file_inode, n, st) \<leftarrow> inode_of_file st (p_path params);
     case file_inode of
       None \<Rightarrow> do { st \<leftarrow> st_finished st (p_path params); Some (new_result params (D_word 1), st) }
     | Some inode \<Rightarrow>
         let new_size = ucast (p_size params) :: u32; sc = Super_constants st;
             isize = (\<lambda>st. ld32 st (inode + inode_off I_size))
         in if i_mode st inode AND EXT2_IFREG \<noteq> 0 then do {
              st \<leftarrow> st_lock WRLOCK st (p_path params);
              let diff = int (Size_In_Blocks sc new_size) - int (Size_In_Blocks sc (isize st));
              (not_attached, st) \<leftarrow>
                (if diff > 0 then Attach_Blocks st inode (of_int diff)
                 else if diff < 0 then map_option (Pair 0) (Remove_Blocks lib st inode diff params)
                 else Some (0, st));
              st \<leftarrow> (if not_attached > 0 then
                       let st = set_size st inode (isize st + of_int (diff - uint not_attached) * BLOCK_SIZE sc);
                           st = set_blocks st inode (of_nat (Size_In_Blocks sc (isize st) div 512))
                       in st_lock UNLOCK st (p_path params)
                     else Some st);
              let st = set_size st inode new_size;
              let st = set_blocks st inode (of_nat (Size_In_Blocks sc new_size div 512));
              st \<leftarrow> st_lock UNLOCK st (p_path params);
              st \<leftarrow> st_finished st (p_path params);
              Some (new_result params (D_word 0), st) }
            else do {
              st \<leftarrow> st_finished (st\<lparr>errno := EPERM\<rparr>) (p_path params);
              Some (new_result params (D_word 1), st) } }"

text \<open>\<open>memcpy\<close> from the write buffer into a block of the mapped file.\<close>

definition copy_in :: "'c server \<Rightarrow> u32 list \<Rightarrow> u32 \<Rightarrow> nat \<Rightarrow> u8 list \<Rightarrow> nat \<Rightarrow> nat \<Rightarrow> 'c server option" where
  "copy_in st file_data block_number start buf from n =
     (if unat block_number < length file_data \<and> from + n \<le> length buf then
        Some (st\<lparr>fs_file := store_bytes (fs_file st) (blk_at st (file_data ! unat block_number) + start) (take n (drop from buf))\<rparr>)
      else None)"

text \<open>The block loop: whether it left early, the bytes written, the state.\<close>

function write_blocks ::
  "'c memcached_lib \<Rightarrow> params_t \<Rightarrow> 'c server \<Rightarrow> u32 list \<Rightarrow> u32 \<Rightarrow> u32 \<Rightarrow> int \<Rightarrow> nat \<Rightarrow> (bool \<times> nat \<times> 'c server) option" where
  "write_blocks lib params st file_data count block_number to_write bytes_written =
     (if to_write > 0 then
        if block_number > count then Some (True, bytes_written, st)
        else
          let bs = uint (BLOCK_SIZE (Super_constants st));
              bytes_to_copy = (if to_write > bs then bs else to_write)
          in if bs = 0 then None
             else case copy_in st file_data block_number 0 (write_buffer params) bytes_written (nat bytes_to_copy) of
               None \<Rightarrow> None
             | Some st1 \<Rightarrow>
                 (case cache_set lib params block_number st1 file_data of
                    None \<Rightarrow> None
                  | Some st2 \<Rightarrow>
                      write_blocks lib params st2 file_data count (block_number + 1) (to_write - bytes_to_copy)
                        (bytes_written + nat bytes_to_copy))
      else Some (False, bytes_written, st))"
  by pat_completeness auto
termination
proof (relation "measure (\<lambda>(lib, params, st, file_data, count, block_number, to_write, bytes_written). nat to_write)",
    goal_cases)
  case (2 lib params st file_data count block_number to_write bytes_written bs bytes_to_copy)
  have "0 \<le> bs" using 2(3) by simp
  with 2(1,4,5) show ?case by (auto split: if_splits)
qed simp

declare write_blocks.simps [simp del]

text \<open>The tail of the last block is cleared in the file, not in the cache.\<close>

definition clear_tail :: "'c server \<Rightarrow> nat \<Rightarrow> u32 \<Rightarrow> 'c server option" where
  "clear_tail st inode offset =
     (let sc = Super_constants st; isize = ld32 st (inode + inode_off I_size); bs = BLOCK_SIZE sc in
      if offset > isize \<and> isize mod bs > 0 then
        let file_data = addresses (Inode_Get_Data_Adressess (fs_file st) sc inode isize);
            i = Size_In_Blocks sc isize - 1
        in if i < length file_data then
             Some (st\<lparr>fs_file := memset (fs_file st) (blk_at st (file_data ! i) + unat (isize mod bs)) 0 (unat (bs - isize mod bs))\<rparr>)
           else None
      else Some st)"

definition grow_inode :: "'c server \<Rightarrow> nat \<Rightarrow> u32 \<Rightarrow> u32 \<Rightarrow> 'c server" where
  "grow_inode st inode offset bytes_written =
     (let sc = Super_constants st; isize = ld32 st (inode + inode_off I_size) in
      if offset + bytes_written > isize then
        let diff = offset + bytes_written - isize;
            st = set_size st inode (isize + diff)
        in set_blocks st inode (of_nat (Size_In_Blocks sc (ld32 st (inode + inode_off I_size))) * (BLOCK_SIZE sc div 512))
      else st)"

definition write_file :: "'c memcached_lib \<Rightarrow> params_t \<Rightarrow> 'c server \<Rightarrow> (operation_result_t \<times> 'c server) option" where
  "write_file lib params st = do {
     let path = p_path params;
     st \<leftarrow> st_find st path;
     (file_inode, n, st) \<leftarrow> inode_of_file st path;
     let sc = Super_constants st;
     let bs = BLOCK_SIZE sc;
     let offset = p_offset params;
     let start_block = offset div bs;
     let start_byte_in_start_block = offset mod bs;
     case file_inode of
       None \<Rightarrow> do { st \<leftarrow> st_finished st path; Some (new_result params D_null, st) }
     | Some inode \<Rightarrow>
         if i_mode st inode AND EXT2_IFREG \<noteq> 0 then do {
           st \<leftarrow> st_lock WRLOCK st path;
           let isize = ld32 st (inode + inode_off I_size);
           let diff = uint offset + uint (bytes_to_write params) - sint isize;
           let end_pos = (of_int (uint offset + uint (bytes_to_write params)) :: u32);
           st \<leftarrow> clear_tail st inode offset;
           st \<leftarrow> (if Size_In_Blocks sc end_pos > Size_In_Blocks sc (ld32 st (inode + inode_off I_size))
                  then map_option snd (Attach_Blocks st inode (of_nat (Size_In_Blocks sc (of_int diff)))) else Some st);
           let file_data = addresses (Inode_Get_Data_Adressess (fs_file st) sc inode
             (of_int (sint (ld32 st (inode + inode_off I_size)) + diff)));
           let count = (of_nat (Size_In_Blocks sc end_pos) :: u32);
           if start_block > count then do {
             st \<leftarrow> st_finished st path;
             Some (new_result params (D_word 0), st) }
           else if \<not> unat (count - 1) < length file_data then None
           else if file_data ! unat (count - 1) = 0 then do {
             st \<leftarrow> st_finished st path;
             Some (new_result params (D_word 0), st) }
           else do {
             let remaining_space = uint (bs - start_byte_in_start_block);
             let to_write = uint (bytes_to_write params);
             let bytes_to_copy = (if remaining_space > to_write then to_write else remaining_space);
             st \<leftarrow> copy_in st file_data start_block (unat start_byte_in_start_block) (write_buffer params) 0 (nat bytes_to_copy);
             st \<leftarrow> cache_set lib params start_block st file_data;
             (early, bytes_written, st) \<leftarrow>
               (if to_write - bytes_to_copy > bytes_to_copy
                then write_blocks lib params st file_data count (start_block + 1) (to_write - bytes_to_copy) (nat bytes_to_copy)
                else Some (False, nat bytes_to_copy, st));
             let result = new_result params (D_word (of_nat bytes_written));
             if early then do { st \<leftarrow> st_finished st path; Some (result, st) }
             else do {
               let st = grow_inode st inode offset (of_nat bytes_written);
               let st = st\<lparr>writes_to_sync := update_counter (writes_to_sync st)\<rparr>;
               st \<leftarrow> st_lock UNLOCK st path;
               st \<leftarrow> st_finished st path;
               Some (result, st) } } }
         else do {
           st \<leftarrow> st_lock UNLOCK (st\<lparr>errno := EPERM\<rparr>) path;
           st \<leftarrow> st_finished st path;
           Some (new_result params D_null, st) } }"

section \<open>Creating and deleting\<close>

text \<open>The path of the parent: the entry of \<open>file_tree\<close> before the first one that has the path
  as a prefix. Running off the array or stepping before it is undefined.\<close>

definition parent_path :: "string \<Rightarrow> string option" where
  "parent_path path = (case split_path path of
     Some (Some file_tree) \<Rightarrow>
       (case List.find (\<lambda>i. strncmp_eq (file_tree ! i) path (length path)) [0..<length file_tree] of
          Some (Suc i) \<Rightarrow> Some (file_tree ! i)
        | _ \<Rightarrow> None)
   | _ \<Rightarrow> None)"

definition finish2 :: "'c server \<Rightarrow> string \<Rightarrow> string \<Rightarrow> 'c server option" where
  "finish2 st p q = do { st \<leftarrow> st_finished st p; st_finished st q }"

definition new_directory :: "'c server \<Rightarrow> nat \<Rightarrow> params_t \<Rightarrow> u32 \<Rightarrow> nat \<Rightarrow> u32 \<Rightarrow> (bool \<times> 'c server) option" where
  \<comment> \<open>The branch for directories; \<open>False\<close> is its exit on \<open>ENOSPC\<close>.\<close>
  "new_directory st file_inode params new_inode parent_inode parent_inode_number = do {
     st \<leftarrow> setDirInode st file_inode (p_mode params) new_inode;
     (r, st) \<leftarrow> Attach_Blocks st file_inode 1;
     if errno st = ENOSPC then do {
       st \<leftarrow> setFreeInodeBitmap st new_inode;
       st \<leftarrow> delete_entry st parent_inode (p_path params);
       Some (False, Clear_Inode st file_inode) }
     else do {
       let bs = BLOCK_SIZE (Super_constants st);
       let base_entry = blk_at st (ld32 st (pointer_data_0 file_inode 0));
       let self = (create_entry ''.'' new_inode)\<lparr>entry_len := ucast bs\<rparr>;
       let st = st\<lparr>fs_file := copy_new_entry (fs_file st) base_entry self\<rparr>;
       (ok, st) \<leftarrow> attach_entry st file_inode (create_entry ''..'' parent_inode_number);
       Some (True, st) } }"

definition create_file_dir :: "params_t \<Rightarrow> 'c server \<Rightarrow> (operation_result_t \<times> 'c server) option" where
  "create_file_dir params st = do {
     let path = p_path params;
     let fail = new_result params (D_word 1);
     st \<leftarrow> st_find st path;
     (file_inode, n, st) \<leftarrow> inode_of_file st path;
     if file_inode \<noteq> None then do {
       st \<leftarrow> st_finished st path;
       Some (fail, st\<lparr>errno := EEXIST\<rparr>) }
     else do {
       let st = st\<lparr>errno := 0\<rparr>;
       parent_dir \<leftarrow> parent_path path;
       st \<leftarrow> st_find st parent_dir;
       (parent, parent_inode_number, st) \<leftarrow> inode_of_file st parent_dir;
       (new_inodes, st) \<leftarrow> Get_Free_Inodes st 1;
       case new_inodes of
         None \<Rightarrow> do { st \<leftarrow> finish2 st path parent_dir; Some (fail, st) }
       | Some new_inode_number \<Rightarrow> do {
           let new_inode = hd new_inode_number;
           name \<leftarrow> active_file_get_file_name path;
           st \<leftarrow> st_lock WRLOCK st parent_dir;
           parent_inode \<leftarrow> parent;
           (attached, st) \<leftarrow> attach_entry st parent_inode (create_entry name new_inode);
           if \<not> attached then do {
             st \<leftarrow> setFreeInodeBitmap st new_inode;
             st \<leftarrow> st_lock UNLOCK st parent_dir;
             st \<leftarrow> finish2 st path parent_dir;
             Some (fail, st) }
           else do {
             new_file_inode \<leftarrow> Inode_Global_Read (fs_file st) (Super_constants st) new_inode;
             st \<leftarrow> st_lock WRLOCK st path;
             (made, st) \<leftarrow> (if p_file params then Some (True, setFileInode st new_file_inode (p_mode params))
               else new_directory st new_file_inode params new_inode parent_inode parent_inode_number);
             st \<leftarrow> st_lock UNLOCK st path;
             st \<leftarrow> st_lock UNLOCK st parent_dir;
             st \<leftarrow> finish2 st path parent_dir;
             Some (if made then (new_result params (D_word 0), st\<lparr>errno := 0\<rparr>) else (fail, st)) } } } }"

definition delete_file :: "'c memcached_lib \<Rightarrow> params_t \<Rightarrow> 'c server \<Rightarrow> (operation_result_t \<times> 'c server) option" where
  "delete_file lib params st = do {
     let path = p_path params;
     st \<leftarrow> st_find st path;
     (file_inode, file_inode_number, st) \<leftarrow> inode_of_file st path;
     case file_inode of
       None \<Rightarrow> do { st \<leftarrow> st_finished st path; Some (new_result params (D_word 1), st) }
     | Some inode \<Rightarrow> do {
         parent_dir \<leftarrow> parent_path path;
         st \<leftarrow> st_find st parent_dir;
         (parent, n, st) \<leftarrow> inode_of_file st parent_dir;
         st \<leftarrow> st_lock WRLOCK st parent_dir;
         parent_inode \<leftarrow> parent;
         st \<leftarrow> delete_entry st parent_inode path;
         st \<leftarrow> st_lock WRLOCK st path;
         st \<leftarrow> Remove_Blocks lib st inode (int (Size_In_Blocks (Super_constants st) (ld32 st (inode + inode_off I_size)))) params;
         let st = Clear_Inode st inode;
         st \<leftarrow> setFreeInodeBitmap st file_inode_number;
         st \<leftarrow> st_lock UNLOCK st path;
         st \<leftarrow> st_lock UNLOCK st parent_dir;
         st \<leftarrow> finish2 st path parent_dir;
         Some (new_result params (D_word 0), st) } }"

text \<open>The entry is removed from the parent before the test that the directory is empty.\<close>

definition delete_dir :: "params_t \<Rightarrow> 'c server \<Rightarrow> (operation_result_t \<times> 'c server) option" where
  "delete_dir params st = do {
     let path = p_path params;
     st \<leftarrow> st_find st path;
     (dir, dir_inode_number, st) \<leftarrow> inode_of_file st path;
     case dir of
       None \<Rightarrow> do { st \<leftarrow> st_finished st path; Some (new_result params (D_word 1), st) }
     | Some dir_inode \<Rightarrow>
         if ld32 st (dir_inode + inode_off I_blocks) > BLOCK_SIZE (Super_constants st) div 512 then do {
           st \<leftarrow> st_finished (st\<lparr>errno := ENOTEMPTY\<rparr>) path;
           Some (new_result params (D_word 1), st) }
         else do {
           parent_dir \<leftarrow> parent_path path;
           st \<leftarrow> st_find st parent_dir;
           (parent, n, st) \<leftarrow> inode_of_file st parent_dir;
           st \<leftarrow> st_lock WRLOCK st parent_dir;
           st \<leftarrow> st_lock WRLOCK st path;
           let unlock2 = (\<lambda>st. do { st \<leftarrow> st_lock UNLOCK st path; st \<leftarrow> st_lock UNLOCK st parent_dir; finish2 st path parent_dir });
           let sc = Super_constants st;
           case Inode_Get_Data_Adressess (fs_file st) sc dir_inode (ld32 st (dir_inode + inode_off I_size)) of
             None \<Rightarrow> do { st \<leftarrow> unlock2 st; Some (new_result params (D_word 1), st) }
           | Some data_address \<Rightarrow> do {
               parent_inode \<leftarrow> parent;
               st \<leftarrow> delete_entry st parent_inode path;
               let first = blk_at st (hd data_address);
               let first_len = get_padded_size (fs_file st) first;
               let second = first + unat (e_len (fs_file st) first);
               if ucast (e_len (fs_file st) second) \<noteq> BLOCK_SIZE sc - of_nat first_len then do {
                 st \<leftarrow> unlock2 (st\<lparr>errno := ENOTEMPTY\<rparr>);
                 Some (new_result params (D_word 1), st) }
               else do {
                 st \<leftarrow> Remove_Block st dir_inode 0;
                 let st = Clear_Inode st dir_inode;
                 g_desc \<leftarrow> Group_Descriptor_read sc (Inode_locateGroup sc dir_inode_number);
                 let dirs = g_desc + Group_Descriptor_off GD_NUMBER_DIRECTORIES_GROUP;
                 let st = st16 st dirs (ld16 st dirs - 1);
                 st \<leftarrow> setFreeInodeBitmap st dir_inode_number;
                 st \<leftarrow> unlock2 st;
                 Some (new_result params (D_word 0), st) } } } }"

end
