(* ===== verification/Pedidos.thy ===== *)
theory Pedidos
  imports File_Ops Protocol
begin

text \<open>
  \<^verbatim>\<open>rfs/source_RFS/procesador_de_pedidos.c\<close>, the worker of \<^verbatim>\<open>server_threading.c\<close> and the dispatch
  of \<^verbatim>\<open>rfs/main.c\<close>: requests become tasks, tasks run on the server state, results become
  packets. The pointers \<open>run\<close> and \<open>deliver_response\<close> of a task are functions. \<open>None\<close> is also the
  use of the packet variable that a response function left uninitialised.
\<close>

section \<open>Tasks\<close>

record 'c task_t =
  run :: "params_t \<Rightarrow> 'c server \<Rightarrow> (operation_result_t \<times> 'c server) option"
  t_params :: params_t
  deliver_response :: "operation_result_t \<Rightarrow> 'c server \<Rightarrow> (u8 list list \<times> 'c server) option"

definition no_params :: params_t where
  "no_params = \<lparr>p_path = [], p_mode = 0, write_buffer = [], p_file = False, p_offset = 0, bytes_to_read = 0,
     bytes_to_write = 0, p_size = 0, p_socket = 0\<rparr>"

section \<open>Responses\<close>

text \<open>Every response function looks up the active file of the path, read-locks it while it
  builds and sends the packet, and lets it go. The result is the list of packets sent.\<close>

definition with_active_file :: "string \<Rightarrow> ('c server \<Rightarrow> u8 list list option) \<Rightarrow> 'c server \<Rightarrow> (u8 list list \<times> 'c server) option" where
  "with_active_file path respond st = do {
     st \<leftarrow> st_find st path;
     st \<leftarrow> st_lock RDLOCK st path;
     sent \<leftarrow> respond st;
     st \<leftarrow> st_lock UNLOCK st path;
     st \<leftarrow> st_finished st path;
     Some (sent, st) }"

fun find_packet :: "(u32 \<times> u8) list \<Rightarrow> u32 \<Rightarrow> u8 list option" where
  \<comment> \<open>The chain \<open>if (result->error == E1) ... else if (result->error == E2) ...\<close> of packets without payload.\<close>
  "find_packet [] error = None"
| "find_packet ((e, tipo) # cs) error =
     (if error = e then Some (serializar_respuesta_finalizacion tipo) else find_packet cs error)"

definition listar_directorio_response :: "operation_result_t \<Rightarrow> 'c server \<Rightarrow> (u8 list list \<times> 'c server) option" where
  "listar_directorio_response result = with_active_file (r_path result) (\<lambda>st.
     case r_data result of
       D_null \<Rightarrow> map_option (\<lambda>p. [p]) (find_packet [(ENOENT, - 2), (ENAMETOOLONG, - 36)] (r_error result))
     | D_entries entries \<Rightarrow> map_option (\<lambda>p. [p]) (serializar_respuesta_leer_directorio RESPUESTA_OK (fs_file st) entries)
     | _ \<Rightarrow> None)"

text \<open>On an error no packet is sent.\<close>

definition leer_archivo_response :: "operation_result_t \<Rightarrow> 'c server \<Rightarrow> (u8 list list \<times> 'c server) option" where
  "leer_archivo_response result = with_active_file (r_path result) (\<lambda>st.
     case r_data result of
       D_null \<Rightarrow> if r_error result = ENOENT \<or> r_error result = ENAMETOOLONG then Some [] else None
     | D_bytes bs \<Rightarrow> map_option (\<lambda>p. [p]) (serializar_respuesta_leer_archivo RESPUESTA_OK (read_bytes result) bs)
     | _ \<Rightarrow> None)"

definition obtener_atributos_response :: "operation_result_t \<Rightarrow> 'c server \<Rightarrow> (u8 list list \<times> 'c server) option" where
  "obtener_atributos_response result = with_active_file (r_path result) (\<lambda>st.
     case r_data result of
       D_null \<Rightarrow> map_option (\<lambda>p. [p]) (find_packet [(ENOENT, - 2), (ENAMETOOLONG, - 36)] (r_error result))
     | D_stat atributos \<Rightarrow> Some [serializar_respuesta_obtener_atributos RESPUESTA_OK
         \<lparr>numero_de_inodo = rs_inode_number atributos, ra_modo = ucast (rs_mode atributos),
          numero_de_hard_links = ucast (rs_links_count atributos), ra_size = rs_size atributos,
          tamano_de_bloque_por_fs = BLOCK_SIZE (Super_constants st),
          cantidad_de_bloques_de_512b = of_nat (Size_In_Blocks (Super_constants st) (rs_size atributos))\<rparr>]
     | _ \<Rightarrow> None)"

definition status_response :: "(u32 \<times> u8) list \<Rightarrow> operation_result_t \<Rightarrow> 'c server \<Rightarrow> (u8 list list \<times> 'c server) option" where
  \<comment> \<open>The shape of the responses that look at the error only when there is no data.\<close>
  "status_response cases result = with_active_file (r_path result) (\<lambda>st.
     case r_data result of
       D_null \<Rightarrow> map_option (\<lambda>p. [p]) (find_packet cases (r_error result))
     | _ \<Rightarrow> Some [serializar_respuesta_finalizacion RESPUESTA_OK])"

definition crear_archivo_response :: "operation_result_t \<Rightarrow> 'c server \<Rightarrow> (u8 list list \<times> 'c server) option" where
  "crear_archivo_response = status_response [(ENOENT, - 2), (ENAMETOOLONG, - 36)]"

definition escribir_archivo_response :: "operation_result_t \<Rightarrow> 'c server \<Rightarrow> (u8 list list \<times> 'c server) option" where
  "escribir_archivo_response result = with_active_file (r_path result) (\<lambda>st.
     case r_data result of
       D_null \<Rightarrow> map_option (\<lambda>p. [p]) (find_packet [(ENOENT, - 2), (ENOSPC, - 28), (ENAMETOOLONG, - 36)] (r_error result))
     | D_word n \<Rightarrow> Some [serializar_respuesta_escribir_archivo RESPUESTA_OK n]
     | _ \<Rightarrow> None)"

definition crear_directorio_response :: "operation_result_t \<Rightarrow> 'c server \<Rightarrow> (u8 list list \<times> 'c server) option" where
  "crear_directorio_response = status_response [(ENOENT, - 17), (ENAMETOOLONG, - 36)]"

definition eliminar_archivo_response :: "operation_result_t \<Rightarrow> 'c server \<Rightarrow> (u8 list list \<times> 'c server) option" where
  "eliminar_archivo_response = status_response [(ENOENT, - 17), (ENAMETOOLONG, - 36)]"

definition eliminar_directorio_response :: "operation_result_t \<Rightarrow> 'c server \<Rightarrow> (u8 list list \<times> 'c server) option" where
  "eliminar_directorio_response = status_response [(ENOENT, - 17), (ENAMETOOLONG, - 36)]"

definition error_response :: "operation_result_t \<Rightarrow> 'c server \<Rightarrow> (u8 list list \<times> 'c server) option" where
  \<comment> \<open>The shape of the responses that look at the error first.\<close>
  "error_response result = with_active_file (r_path result) (\<lambda>st.
     Some [case find_packet [(ENOENT, - 2), (ENAMETOOLONG, - 36)] (r_error result) of
             Some p \<Rightarrow> p | None \<Rightarrow> serializar_respuesta_finalizacion RESPUESTA_OK])"

definition truncar_archivo_response :: "operation_result_t \<Rightarrow> 'c server \<Rightarrow> (u8 list list \<times> 'c server) option" where
  "truncar_archivo_response = error_response"

definition abrir_archivo_response :: "operation_result_t \<Rightarrow> 'c server \<Rightarrow> (u8 list list \<times> 'c server) option" where
  "abrir_archivo_response = error_response"

section \<open>Requests to tasks\<close>

text \<open>A request that carries only a name.\<close>

definition nombre_task ::
  "(params_t \<Rightarrow> 'c server \<Rightarrow> (operation_result_t \<times> 'c server) option) \<Rightarrow>
   (operation_result_t \<Rightarrow> 'c server \<Rightarrow> (u8 list list \<times> 'c server) option) \<Rightarrow> int \<Rightarrow> u8 list \<Rightarrow> u16 \<Rightarrow> 'c task_t option" where
  "nombre_task op respond cliente payload longitud = do {
     pedido \<leftarrow> deserializar_pedido_nombre payload (unat longitud);
     path \<leftarrow> c_string pedido;
     Some \<lparr>run = op, t_params = no_params\<lparr>p_path := path, p_socket := cliente\<rparr>, deliver_response = respond\<rparr> }"

definition generar_task_listar_directorio :: "int \<Rightarrow> u8 list \<Rightarrow> u16 \<Rightarrow> 'c task_t option" where
  "generar_task_listar_directorio = nombre_task list_directory listar_directorio_response"

definition generar_task_leer_archivo :: "'c memcached_lib \<Rightarrow> int \<Rightarrow> u8 list \<Rightarrow> u16 \<Rightarrow> 'c task_t option" where
  "generar_task_leer_archivo lib cliente payload longitud = do {
     pedido \<leftarrow> deserializar_pedido_leer_archivo payload (unat longitud);
     path \<leftarrow> c_string (pl_nombre pedido);
     Some \<lparr>run = read_file lib,
       t_params = no_params\<lparr>p_path := path, bytes_to_read := pl_size pedido, p_offset := pl_offset pedido, p_socket := cliente\<rparr>,
       deliver_response = leer_archivo_response\<rparr> }"

definition generar_task_obtener_atributos :: "int \<Rightarrow> u8 list \<Rightarrow> u16 \<Rightarrow> 'c task_t option" where
  "generar_task_obtener_atributos = nombre_task getattr obtener_atributos_response"

definition generar_task_crear_archivo :: "int \<Rightarrow> u8 list \<Rightarrow> u16 \<Rightarrow> 'c task_t option" where
  "generar_task_crear_archivo cliente payload longitud = do {
     pedido \<leftarrow> deserializar_pedido_modo_nombre payload (unat longitud);
     path \<leftarrow> c_string (pmn_nombre pedido);
     Some \<lparr>run = create_file_dir,
       t_params = no_params\<lparr>p_path := path, p_mode := pmn_modo pedido, p_file := True, p_socket := cliente\<rparr>,
       deliver_response = crear_archivo_response\<rparr> }"

definition generar_task_escribir_archivo :: "'c memcached_lib \<Rightarrow> int \<Rightarrow> u8 list \<Rightarrow> u16 \<Rightarrow> 'c task_t option" where
  "generar_task_escribir_archivo lib cliente payload longitud = do {
     pedido \<leftarrow> deserializar_pedido_escribir_archivo payload (unat longitud);
     path \<leftarrow> c_string (pe_nombre pedido);
     Some \<lparr>run = write_file lib,
       t_params = no_params\<lparr>p_path := path, p_offset := pe_offset pedido, bytes_to_write := pe_size pedido,
         write_buffer := pe_buffer pedido, p_socket := cliente\<rparr>,
       deliver_response = escribir_archivo_response\<rparr> }"

definition generar_task_crear_directorio :: "int \<Rightarrow> u8 list \<Rightarrow> u16 \<Rightarrow> 'c task_t option" where
  "generar_task_crear_directorio cliente payload longitud = do {
     pedido \<leftarrow> deserializar_pedido_modo_nombre payload (unat longitud);
     path \<leftarrow> c_string (pmn_nombre pedido);
     Some \<lparr>run = create_file_dir,
       t_params = no_params\<lparr>p_path := path, p_mode := pmn_modo pedido, p_file := False, p_socket := cliente\<rparr>,
       deliver_response = crear_directorio_response\<rparr> }"

definition generar_task_eliminar_archivo :: "'c memcached_lib \<Rightarrow> int \<Rightarrow> u8 list \<Rightarrow> u16 \<Rightarrow> 'c task_t option" where
  "generar_task_eliminar_archivo lib = nombre_task (delete_file lib) eliminar_archivo_response"

definition generar_task_eliminar_directorio :: "int \<Rightarrow> u8 list \<Rightarrow> u16 \<Rightarrow> 'c task_t option" where
  "generar_task_eliminar_directorio = nombre_task delete_dir eliminar_directorio_response"

definition generar_task_truncar_archivo :: "'c memcached_lib \<Rightarrow> int \<Rightarrow> u8 list \<Rightarrow> u16 \<Rightarrow> 'c task_t option" where
  "generar_task_truncar_archivo lib cliente payload longitud = do {
     pedido \<leftarrow> deserializar_pedido_truncar_archivo payload (unat longitud);
     path \<leftarrow> c_string (pt_nombre pedido);
     Some \<lparr>run = truncate_file lib,
       t_params = no_params\<lparr>p_path := path, p_size := ucast (pt_size pedido), p_socket := cliente\<rparr>,
       deliver_response = truncar_archivo_response\<rparr> }"

definition generar_task_abrir_archivo :: "int \<Rightarrow> u8 list \<Rightarrow> u16 \<Rightarrow> 'c task_t option" where
  "generar_task_abrir_archivo = nombre_task open_file abrir_archivo_response"

section \<open>Dispatch and workers\<close>

text \<open>The \<open>switch\<close> of the main loop; a type it does not know leaves the task uninitialised.\<close>

definition dispatch :: "'c memcached_lib \<Rightarrow> int \<Rightarrow> t_header \<Rightarrow> u8 list \<Rightarrow> 'c task_t option" where
  "dispatch lib fd header payload =
     (let tipo = h_tipo header; n = h_longitud header in
      if tipo = CREAR_ARCHIVO then generar_task_crear_archivo fd payload n
      else if tipo = CREAR_DIRECTORIO then generar_task_crear_directorio fd payload n
      else if tipo = ABRIR_ARCHIVO then generar_task_abrir_archivo fd payload n
      else if tipo = LEER_ARCHIVO then generar_task_leer_archivo lib fd payload n
      else if tipo = ESCRIBIR_ARCHIVO then generar_task_escribir_archivo lib fd payload n
      else if tipo = ELIMINAR_ARCHIVO then generar_task_eliminar_archivo lib fd payload n
      else if tipo = ELIMINAR_DIRECTORIO then generar_task_eliminar_directorio fd payload n
      else if tipo = TRUNCAR_ARCHIVO then generar_task_truncar_archivo lib fd payload n
      else if tipo = OBTENER_ATRIBUTOS then generar_task_obtener_atributos fd payload n
      else if tipo = LEER_DIRECTORIO then generar_task_listar_directorio fd payload n
      else None)"

text \<open>One readable client of the main loop: receive a request and queue its task; a closed
  connection frees the slot (\<open>False\<close>).\<close>

definition attend_client ::
  "'c memcached_lib \<Rightarrow> int \<Rightarrow> u8 list list \<Rightarrow> 'c task_t s_queue_t \<Rightarrow> (bool \<times> u8 list list \<times> 'c task_t s_queue_t) option" where
  "attend_client lib fd chunks task_queue = do {
     (header, closed, chunks) \<leftarrow> recibir_header chunks;
     if closed then Some (False, chunks, task_queue)
     else do {
       (payload, chunks) \<leftarrow> recibir_paquete chunks (h_longitud header);
       tarea \<leftarrow> dispatch lib fd header payload;
       Some (True, chunks, s_queue_push task_queue tarea) } }"

text \<open>One round of the endless loop of \<open>worker\<close> on a task: the packets sent and the new state.
  Paths of more than 40 characters are refused.\<close>

definition run_task :: "'c task_t \<Rightarrow> 'c server \<Rightarrow> (u8 list list \<times> 'c server) option" where
  "run_task task st = do {
     (solved, st) \<leftarrow> (if length (p_path (t_params task)) \<le> 40 then run task (t_params task) st
       else Some (new_result (t_params task) D_null, st\<lparr>errno := ENAMETOOLONG\<rparr>));
     deliver_response task (solved\<lparr>r_error := errno st\<rparr>) (st\<lparr>errno := 0\<rparr>) }"

definition worker :: "'c task_t s_queue_t \<Rightarrow> 'c server \<Rightarrow> (u8 list list \<times> 'c task_t s_queue_t \<times> 'c server) option" where
  "worker task_queue st = do {
     (task, task_queue) \<leftarrow> s_queue_pop task_queue;
     t \<leftarrow> task;
     (sent, st) \<leftarrow> run_task t st;
     Some (sent, task_queue, st) }"

section \<open>From packets to tasks\<close>

lemma attend_packet:
  assumes "p \<noteq> []" and "length p < 65536" and "n = length p"
  shows "\<exists>longitud :: u16. unat longitud = length p \<and>
    attend_client lib fd (packet t n p # cs) q = do {
      tarea \<leftarrow> dispatch lib fd \<lparr>h_tipo = t, h_longitud = longitud\<rparr> p;
      Some (True, cs, s_queue_push q tarea) }"
proof -
  have "unat (of_nat (length p) :: u16) = length p"
    using assms(2) by (simp only: unat_of_nat_u16 mod_less)
  then show ?thesis
    using assms by (intro exI [of _ "of_nat (length p)"])
      (simp add: attend_client_def recibir_header_packet recibir_paquete_chunk)
qed

lemma c_string_nstr_only: "CHR 0x00 \<notin> set s \<Longrightarrow> c_string (nstr s) = Some s"
  using c_string_nstr [of s "[]"] by simp

lemmas tasks_of_requests = nombre_task_def generar_task_listar_directorio_def generar_task_leer_archivo_def
  generar_task_obtener_atributos_def generar_task_crear_archivo_def generar_task_escribir_archivo_def
  generar_task_crear_directorio_def generar_task_eliminar_archivo_def generar_task_eliminar_directorio_def
  generar_task_truncar_archivo_def generar_task_abrir_archivo_def

definition task_of_nombre :: "'c memcached_lib \<Rightarrow> u8 \<Rightarrow> params_t \<Rightarrow> 'c task_t option" where
  \<comment> \<open>The operation and response that a request by name stands for.\<close>
  "task_of_nombre lib t params =
     (if t = ABRIR_ARCHIVO then Some \<lparr>run = open_file, t_params = params, deliver_response = abrir_archivo_response\<rparr>
      else if t = ELIMINAR_ARCHIVO then Some \<lparr>run = delete_file lib, t_params = params, deliver_response = eliminar_archivo_response\<rparr>
      else if t = ELIMINAR_DIRECTORIO then Some \<lparr>run = delete_dir, t_params = params, deliver_response = eliminar_directorio_response\<rparr>
      else if t = OBTENER_ATRIBUTOS then Some \<lparr>run = getattr, t_params = params, deliver_response = obtener_atributos_response\<rparr>
      else if t = LEER_DIRECTORIO then Some \<lparr>run = list_directory, t_params = params, deliver_response = listar_directorio_response\<rparr>
      else None)"

lemma attend_nombre:
  assumes "CHR 0x00 \<notin> set path" and "length path + 1 < 65536"
    and "t \<in> {ABRIR_ARCHIVO, ELIMINAR_ARCHIVO, ELIMINAR_DIRECTORIO, OBTENER_ATRIBUTOS, LEER_DIRECTORIO}"
  shows "attend_client lib fd (serializar_pedido_nombre t path # cs) q =
    map_option (\<lambda>tarea. (True, cs, s_queue_push q tarea))
      (task_of_nombre lib t (no_params\<lparr>p_path := path, p_socket := fd\<rparr>))"
proof -
  obtain longitud where "unat (longitud :: u16) = length (nstr path)"
    and "attend_client lib fd (packet t (length path + 1) (nstr path) # cs) q = do {
      tarea \<leftarrow> dispatch lib fd \<lparr>h_tipo = t, h_longitud = longitud\<rparr> (nstr path);
      Some (True, cs, s_queue_push q tarea) }"
    using assms attend_packet [of "nstr path" "length path + 1" lib fd t cs q] by auto
  with assms show ?thesis
    by (auto simp: serializar_pedido_nombre_def dispatch_def Let_def tasks_of_requests
        deserializar_pedido_nombre_def c_string_nstr_only task_of_nombre_def)
qed

lemma attend_modo_nombre:
  assumes "CHR 0x00 \<notin> set path" and "length path + 5 < 65536" and "t \<in> {CREAR_ARCHIVO, CREAR_DIRECTORIO}"
  shows "attend_client lib fd (serializar_pedido_modo_nombre t path m # cs) q =
    Some (True, cs, s_queue_push q \<lparr>run = create_file_dir,
      t_params = no_params\<lparr>p_path := path, p_mode := m, p_file := (t = CREAR_ARCHIVO), p_socket := fd\<rparr>,
      deliver_response = (if t = CREAR_ARCHIVO then crear_archivo_response else crear_directorio_response)\<rparr>)"
proof -
  obtain longitud where "unat (longitud :: u16) = length (w32 m @ nstr path)"
    and "attend_client lib fd (packet t (4 + length path + 1) (w32 m @ nstr path) # cs) q = do {
      tarea \<leftarrow> dispatch lib fd \<lparr>h_tipo = t, h_longitud = longitud\<rparr> (w32 m @ nstr path);
      Some (True, cs, s_queue_push q tarea) }"
    using assms attend_packet [of "w32 m @ nstr path" "4 + length path + 1" lib fd t cs q] by auto
  with assms show ?thesis
    by (auto simp: serializar_pedido_modo_nombre_def dispatch_def Let_def tasks_of_requests
        deserializar_pedido_modo_nombre_def c_string_nstr_only)
qed

lemma attend_leer:
  assumes "CHR 0x00 \<notin> set path" and "length path + 9 < 65536"
  shows "attend_client lib fd (serializar_pedido_leer_archivo path n offset # cs) q =
    Some (True, cs, s_queue_push q \<lparr>run = read_file lib,
      t_params = no_params\<lparr>p_path := path, bytes_to_read := n, p_offset := offset, p_socket := fd\<rparr>,
      deliver_response = leer_archivo_response\<rparr>)"
proof -
  let ?p = "w32 n @ w32 offset @ nstr path"
  obtain longitud where "unat (longitud :: u16) = length ?p"
    and "attend_client lib fd (packet LEER_ARCHIVO (4 + 4 + length path + 1) ?p # cs) q = do {
      tarea \<leftarrow> dispatch lib fd \<lparr>h_tipo = LEER_ARCHIVO, h_longitud = longitud\<rparr> ?p;
      Some (True, cs, s_queue_push q tarea) }"
    using assms attend_packet [of ?p "4 + 4 + length path + 1" lib fd LEER_ARCHIVO cs q] by auto
  with assms show ?thesis
    by (auto simp: serializar_pedido_leer_archivo_def dispatch_def Let_def tasks_of_requests
        deserializar_pedido_leer_archivo_def c_string_nstr_only r32_fields)
qed

lemma attend_escribir:
  assumes "CHR 0x00 \<notin> set path" and "unat n \<le> length buf" and "length path + unat n + 9 < 65536"
  shows "\<exists>bs. serializar_pedido_escribir_archivo path buf n offset = Some bs \<and>
    attend_client lib fd (bs # cs) q = Some (True, cs, s_queue_push q \<lparr>run = write_file lib,
      t_params = no_params\<lparr>p_path := path, p_offset := offset, bytes_to_write := n,
        write_buffer := take (unat n) buf, p_socket := fd\<rparr>,
      deliver_response = escribir_archivo_response\<rparr>)"
proof -
  let ?p = "w32 n @ w32 offset @ take (unat n) buf @ nstr path"
  obtain longitud where "unat (longitud :: u16) = length ?p"
    and "attend_client lib fd (packet ESCRIBIR_ARCHIVO (4 + 4 + unat n + length path + 1) ?p # cs) q = do {
      tarea \<leftarrow> dispatch lib fd \<lparr>h_tipo = ESCRIBIR_ARCHIVO, h_longitud = longitud\<rparr> ?p;
      Some (True, cs, s_queue_push q tarea) }"
    using assms attend_packet [of ?p "4 + 4 + unat n + length path + 1" lib fd ESCRIBIR_ARCHIVO cs q] by auto
  with assms show ?thesis
    by (auto simp: serializar_pedido_escribir_archivo_def dispatch_def Let_def tasks_of_requests
        deserializar_pedido_escribir_archivo_def c_string_nstr_only r32_fields)
qed

lemma attend_truncar:
  assumes "CHR 0x00 \<notin> set path" and "length path + 5 < 65536"
  shows "attend_client lib fd (serializar_pedido_truncar_archivo path n # cs) q =
    Some (True, cs, s_queue_push q \<lparr>run = truncate_file lib,
      t_params = no_params\<lparr>p_path := path, p_size := ucast n, p_socket := fd\<rparr>,
      deliver_response = truncar_archivo_response\<rparr>)"
proof -
  let ?p = "w32 n @ nstr path"
  obtain longitud where "unat (longitud :: u16) = length ?p"
    and "attend_client lib fd (packet TRUNCAR_ARCHIVO (4 + length path + 1) ?p # cs) q = do {
      tarea \<leftarrow> dispatch lib fd \<lparr>h_tipo = TRUNCAR_ARCHIVO, h_longitud = longitud\<rparr> ?p;
      Some (True, cs, s_queue_push q tarea) }"
    using assms attend_packet [of ?p "4 + length path + 1" lib fd TRUNCAR_ARCHIVO cs q] by auto
  with assms show ?thesis
    by (auto simp: serializar_pedido_truncar_archivo_def dispatch_def Let_def tasks_of_requests
        deserializar_pedido_truncar_archivo_def c_string_nstr_only)
qed

text \<open>
  C30: a request that a client serialised, received whole by the main loop, becomes exactly the
  task it stands for, with the client's path, mode, offset, sizes and bytes, at the end of the
  task queue, and the rest of the client's stream is left in place.
\<close>

theorem requests_become_tasks:
  assumes "CHR 0x00 \<notin> set path" and "length path + unat n + 9 < 65536" and "unat n \<le> length buf"
  shows "(\<forall>t \<in> {ABRIR_ARCHIVO, ELIMINAR_ARCHIVO, ELIMINAR_DIRECTORIO, OBTENER_ATRIBUTOS, LEER_DIRECTORIO}.
      attend_client lib fd (serializar_pedido_nombre t path # cs) q =
        map_option (\<lambda>tarea. (True, cs, s_queue_push q tarea))
          (task_of_nombre lib t (no_params\<lparr>p_path := path, p_socket := fd\<rparr>))) \<and>
    (\<forall>t \<in> {CREAR_ARCHIVO, CREAR_DIRECTORIO}.
      attend_client lib fd (serializar_pedido_modo_nombre t path m # cs) q =
        Some (True, cs, s_queue_push q \<lparr>run = create_file_dir,
          t_params = no_params\<lparr>p_path := path, p_mode := m, p_file := (t = CREAR_ARCHIVO), p_socket := fd\<rparr>,
          deliver_response = (if t = CREAR_ARCHIVO then crear_archivo_response else crear_directorio_response)\<rparr>)) \<and>
    attend_client lib fd (serializar_pedido_leer_archivo path n offset # cs) q =
      Some (True, cs, s_queue_push q \<lparr>run = read_file lib,
        t_params = no_params\<lparr>p_path := path, bytes_to_read := n, p_offset := offset, p_socket := fd\<rparr>,
        deliver_response = leer_archivo_response\<rparr>) \<and>
    (\<exists>bs. serializar_pedido_escribir_archivo path buf n offset = Some bs \<and>
      attend_client lib fd (bs # cs) q = Some (True, cs, s_queue_push q \<lparr>run = write_file lib,
        t_params = no_params\<lparr>p_path := path, p_offset := offset, bytes_to_write := n,
          write_buffer := take (unat n) buf, p_socket := fd\<rparr>,
        deliver_response = escribir_archivo_response\<rparr>)) \<and>
    attend_client lib fd (serializar_pedido_truncar_archivo path m # cs) q =
      Some (True, cs, s_queue_push q \<lparr>run = truncate_file lib,
        t_params = no_params\<lparr>p_path := path, p_size := ucast m, p_socket := fd\<rparr>,
        deliver_response = truncar_archivo_response\<rparr>)"
proof -
  have "length path + 1 < 65536" "length path + 5 < 65536" "length path + 9 < 65536" using assms(2) by linarith+
  then show ?thesis
    using attend_nombre [OF assms(1), of _ lib fd cs q] attend_modo_nombre [OF assms(1), of _ lib fd m cs q]
      attend_leer [OF assms(1), of lib fd n offset cs q] attend_escribir [OF assms(1,3,2), of offset lib fd cs q]
      attend_truncar [OF assms(1), of lib fd m cs q]
    by (intro conjI ballI) blast+
qed

lemma requests_become_tasks_witness:
  "\<exists>bs. serializar_pedido_escribir_archivo ''/a'' [1, 2, 3] 2 100 = Some bs \<and>
    attend_client map_lib 4 [bs] s_queue_create = Some (True, [], s_queue_push s_queue_create \<lparr>run = write_file map_lib,
      t_params = no_params\<lparr>p_path := ''/a'', p_offset := 100, bytes_to_write := 2, write_buffer := [1, 2], p_socket := 4\<rparr>,
      deliver_response = escribir_archivo_response\<rparr>)"
proof -
  have "CHR 0x00 \<notin> set ''/a''" "length ''/a'' + unat (2 :: u32) + 9 < 65536" "unat (2 :: u32) \<le> length [1, 2, 3 :: u8]" by simp_all
  from requests_become_tasks [OF this, of map_lib 4 "[]" s_queue_create 0 100] show ?thesis by simp
qed

end
