(* ===== verification/Servidor.thy ===== *)
theory Servidor
  imports Pedidos "HOL-Library.Multiset"
begin

text \<open>
  The threads of \<^verbatim>\<open>rfs/main.c\<close>: the table of clients the main loop polls, one round of that
  loop, and the main thread and the workers around the task queue as a step relation in which
  \<open>s_queue_push\<close> and \<open>s_queue_pop\<close> take two steps each, the semaphore and the queue under its
  mutex. An operation on the file system and its answer are one step.
\<close>

section \<open>The table of clients\<close>

record pollfd =
  fd :: int
  events :: u16
  revents :: u16

definition POLLIN :: u16 where "POLLIN = 1"
definition BACKLOG :: nat where "BACKLOG = 100"

definition inicializar_vector :: "pollfd list \<Rightarrow> nat \<Rightarrow> pollfd list option" where
  \<comment> \<open>\<open>None\<close> is a write past the array.\<close>
  "inicializar_vector clientes cantidad_clientes =
     (if cantidad_clientes \<le> length clientes
      then Some (replicate cantidad_clientes \<lparr>fd = 0, events = POLLIN, revents = 0\<rparr> @ drop cantidad_clientes clientes)
      else None)"

text \<open>The descriptor \<open>sockete_aceptar\<close> returns is a parameter.\<close>

function aceptar_loop :: "pollfd list \<Rightarrow> int \<Rightarrow> nat \<Rightarrow> nat \<Rightarrow> (nat \<times> pollfd list) option" where
  "aceptar_loop clientes nuevo i indice =
     (if i \<le> indice then
        if i < length clientes then
          if fd (clientes ! i) = 0 then aceptar_loop (clientes[i := (clientes ! i)\<lparr>fd := nuevo\<rparr>]) nuevo (i + 1) i
          else aceptar_loop clientes nuevo (i + 1) indice
        else None
      else Some (indice, clientes))"
  by pat_completeness auto
termination by (relation "measure (\<lambda>(clientes, nuevo, i, indice). Suc indice - i)") auto

declare aceptar_loop.simps [simp del]

definition aceptar_cliente :: "pollfd list \<Rightarrow> int \<Rightarrow> nat \<Rightarrow> (nat \<times> pollfd list) option" where
  "aceptar_cliente clientes nuevo cantidad_clientes = aceptar_loop clientes nuevo 0 cantidad_clientes"

section \<open>The main loop\<close>

record 'c principal =
  read_fds :: "pollfd list"
  streams :: "int \<Rightarrow> u8 list list"
  enviado :: "(int \<times> u8 list) list"
  tareas :: "'c task_t s_queue_t"

definition poll :: "(nat \<Rightarrow> u16) \<Rightarrow> pollfd list \<Rightarrow> nat \<Rightarrow> pollfd list" where
  \<comment> \<open>The kernel sets \<open>revents\<close> of the first \<open>n\<close> descriptors.\<close>
  "poll ready fds n = map (\<lambda>i. if i < n then (fds ! i)\<lparr>revents := ready i\<rparr> else fds ! i) [0..<length fds]"

definition attend_slot :: "'c memcached_lib \<Rightarrow> nat \<Rightarrow> 'c principal \<Rightarrow> 'c principal option" where
  "attend_slot lib i m =
     (let slot = read_fds m ! i in
      if revents slot = POLLIN then do {
        (open', chunks, q) \<leftarrow> attend_client lib (fd slot) (streams m (fd slot)) (tareas m);
        Some (m\<lparr>read_fds := (read_fds m)[i := if open' then slot\<lparr>revents := 0\<rparr> else slot\<lparr>fd := 0\<rparr>],
                streams := (streams m)(fd slot := chunks), tareas := q\<rparr>) }
      else Some m)"

fun attend_slots :: "'c memcached_lib \<Rightarrow> nat list \<Rightarrow> 'c principal \<Rightarrow> 'c principal option" where
  "attend_slots lib [] m = Some m"
| "attend_slots lib (i # is) m = do { m \<leftarrow> attend_slot lib i m; attend_slots lib is m }"

text \<open>One round: what \<open>poll\<close> reports and the descriptor \<open>accept\<close> gives are parameters.\<close>

definition main_round :: "'c memcached_lib \<Rightarrow> (nat \<Rightarrow> u16) \<Rightarrow> int \<Rightarrow> 'c principal \<Rightarrow> 'c principal option" where
  "main_round lib ready nuevo m =
     (let m = m\<lparr>read_fds := poll ready (read_fds m) BACKLOG\<rparr> in
      if revents (read_fds m ! 0) = POLLIN then do {
        (indice, clientes) \<leftarrow> aceptar_cliente (tl (read_fds m)) nuevo BACKLOG;
        let m = m\<lparr>read_fds := hd (read_fds m) # clientes\<rparr>;
        let cliente = fd (read_fds m ! (indice + 1));
        (r, sent, chunks) \<leftarrow> server_responder_handshake (streams m cliente);
        Some (m\<lparr>streams := (streams m)(cliente := chunks), enviado := enviado m @ [(cliente, sent)]\<rparr>) }
      else attend_slots lib [1..<BACKLOG + 1] m)"

section \<open>The threads\<close>

datatype 'c hilo = En_espera | Despierto | Atendiendo "'c task_t"

text \<open>\<open>productor\<close>: the main thread has queued a task and not yet posted the semaphore. \<open>entraron\<close>
  and \<open>salieron\<close> record the tasks queued and taken so far.\<close>

record 'c sistema =
  cola :: "'c task_t s_queue_t"
  servidor :: "'c server"
  productor :: bool
  hilos :: "'c hilo list"
  entraron :: "'c task_t list"
  salieron :: "'c task_t list"
  respuestas :: "(int \<times> u8 list list) list"

inductive paso_hilo :: "'c sistema \<Rightarrow> 'c sistema \<Rightarrow> bool" where
  esperar: "i < length (hilos s) \<Longrightarrow> hilos s ! i = En_espera \<Longrightarrow> 0 < available_elements (cola s) \<Longrightarrow>
    paso_hilo s (s\<lparr>cola := (cola s)\<lparr>available_elements := available_elements (cola s) - 1\<rparr>, hilos := (hilos s)[i := Despierto]\<rparr>)"
| sacar: "i < length (hilos s) \<Longrightarrow> hilos s ! i = Despierto \<Longrightarrow> queue_pop (squeue (cola s)) = Some (Some t, q) \<Longrightarrow>
    paso_hilo s (s\<lparr>cola := (cola s)\<lparr>squeue := q\<rparr>, hilos := (hilos s)[i := Atendiendo t], salieron := salieron s @ [t]\<rparr>)"
| atender: "i < length (hilos s) \<Longrightarrow> hilos s ! i = Atendiendo t \<Longrightarrow> run_task t (servidor s) = Some (sent, st) \<Longrightarrow>
    paso_hilo s (s\<lparr>servidor := st, hilos := (hilos s)[i := En_espera],
      respuestas := respuestas s @ [(p_socket (t_params t), sent)]\<rparr>)"

inductive paso :: "'c sistema \<Rightarrow> 'c sistema \<Rightarrow> bool" where
  encolar: "\<not> productor s \<Longrightarrow>
    paso s (s\<lparr>cola := (cola s)\<lparr>squeue := queue_push (squeue (cola s)) t\<rparr>, productor := True, entraron := entraron s @ [t]\<rparr>)"
| avisar: "productor s \<Longrightarrow>
    paso s (s\<lparr>cola := (cola s)\<lparr>available_elements := available_elements (cola s) + 1\<rparr>, productor := False\<rparr>)"
| hilo: "paso_hilo s s' \<Longrightarrow> paso s s'"

inductive_cases paso_hiloE: "paso_hilo s s'"
inductive_cases pasoE: "paso s s'"

definition inicial :: "nat \<Rightarrow> 'c server \<Rightarrow> 'c sistema" where
  "inicial Nthreads st = \<lparr>cola = s_queue_create, servidor = st, productor = False,
     hilos = replicate Nthreads En_espera, entraron = [], salieron = [], respuestas = []\<rparr>"

text \<open>The two halves of each queue operation make it up.\<close>

lemma push_in_two_steps:
  "s_queue_push q t = (let q1 = q\<lparr>squeue := queue_push (squeue q) t\<rparr> in q1\<lparr>available_elements := available_elements q1 + 1\<rparr>)"
  by (simp add: s_queue_push_def)

lemma pop_in_two_steps:
  "0 < available_elements q \<Longrightarrow> queue_pop (squeue q) = Some (e, q') \<Longrightarrow>
    s_queue_pop q = Some (e, (q\<lparr>available_elements := available_elements q - 1\<rparr>)\<lparr>squeue := q'\<rparr>)"
  by (simp add: s_queue_pop_def)

section \<open>The invariant\<close>

definition despiertos :: "'c hilo list \<Rightarrow> nat" where
  "despiertos hs = length (filter (\<lambda>h. case h of Despierto \<Rightarrow> True | _ \<Rightarrow> False) hs)"

definition sistema_ok :: "'c sistema \<Rightarrow> bool" where
  "sistema_ok s \<longleftrightarrow> queue_ok (squeue (cola s)) \<and> entraron s = salieron s @ queue_contents (squeue (cola s)) \<and>
     length (queue_contents (squeue (cola s))) =
       available_elements (cola s) + despiertos (hilos s) + (if productor s then 1 else 0) \<and>
     (\<forall>t. Atendiendo t \<in> set (hilos s) \<longrightarrow> t \<in> set (salieron s))"

lemma in_update: "x \<in> set (xs[i := y]) \<Longrightarrow> x = y \<or> x \<in> set xs"
  using set_update_subset_insert [of xs i y] by blast

lemma despiertos_update:
  assumes "i < length hs"
  shows "despiertos (hs[i := h]) + (case hs ! i of Despierto \<Rightarrow> 1 | _ \<Rightarrow> 0) =
    despiertos hs + (case h of Despierto \<Rightarrow> 1 | _ \<Rightarrow> 0)"
  using length_filter_update [OF assms, of "\<lambda>h. case h of Despierto \<Rightarrow> True | _ \<Rightarrow> False" h]
  by (auto simp: despiertos_def split: hilo.splits if_splits)

lemma queue_pop_contents:
  assumes "queue_ok q" and "queue_pop q = Some (Some t, q')"
  shows "queue_ok q' \<and> queue_contents q = t # queue_contents q'"
  using assms q.pop_Nil [of q] q.pop_Cons [of q] by (cases "queue_contents q") fastforce+

lemma inicial_ok: "sistema_ok (inicial n st)"
  by (simp add: sistema_ok_def inicial_def s_queue_create_def q.create_ok despiertos_def)

lemma paso_hilo_ok: "paso_hilo s s' \<Longrightarrow> sistema_ok s \<Longrightarrow> sistema_ok s'"
proof (induction rule: paso_hilo.induct)
  case (esperar i s)
  with despiertos_update [of i "hilos s" Despierto] show ?case by (auto simp: sistema_ok_def dest!: in_update)
next
  case (sacar i s t q)
  with despiertos_update [of i "hilos s" "Atendiendo t"] queue_pop_contents [of "squeue (cola s)" t q]
  show ?case by (auto simp: sistema_ok_def dest!: in_update)
next
  case (atender i s t sent st)
  with despiertos_update [of i "hilos s" En_espera] show ?case by (auto simp: sistema_ok_def dest!: in_update)
qed

lemma paso_ok: "paso s s' \<Longrightarrow> sistema_ok s \<Longrightarrow> sistema_ok s'"
proof (induction rule: paso.induct)
  case (hilo s s')
  then show ?case by (rule paso_hilo_ok)
qed (auto simp: sistema_ok_def q.push_ok)

lemma alcanzable_ok: "paso\<^sup>*\<^sup>* (inicial n st) s \<Longrightarrow> sistema_ok s"
  by (induction rule: rtranclp_induct) (auto intro: inicial_ok paso_ok)

text \<open>A thread that passed the semaphore always finds a task.\<close>

lemma despierto_saca:
  assumes "sistema_ok s" and "i < length (hilos s)" and "hilos s ! i = Despierto"
  shows "\<exists>t q. queue_pop (squeue (cola s)) = Some (Some t, q)"
proof -
  have "0 < despiertos (hilos s)"
    using assms(2,3) nth_mem [of i "hilos s"] by (force simp: despiertos_def filter_empty_conv)
  then have "queue_contents (squeue (cola s)) \<noteq> []" using assms(1) by (auto simp: sistema_ok_def)
  then show ?thesis
    using assms(1) q.pop_Cons [of "squeue (cola s)"] by (cases "queue_contents (squeue (cola s))") (auto simp: sistema_ok_def)
qed

section \<open>Progress\<close>

definition peso :: "'c hilo \<Rightarrow> nat" where
  "peso h = (case h of En_espera \<Rightarrow> 0 | Despierto \<Rightarrow> 2 | Atendiendo t \<Rightarrow> 1)"

definition trabajo :: "'c sistema \<Rightarrow> nat" where
  "trabajo s = 3 * available_elements (cola s) + sum_list (map peso (hilos s))"

lemma sum_peso_update:
  "i < length hs \<Longrightarrow> sum_list (map peso (hs[i := h])) + peso (hs ! i) = sum_list (map peso hs) + peso h"
  by (induction hs arbitrary: i) (auto split: nat.splits)

lemma paso_hilo_trabajo: "paso_hilo s s' \<Longrightarrow> trabajo s' < trabajo s"
proof (induction rule: paso_hilo.induct)
  case (esperar i s)
  with sum_peso_update [of i "hilos s" Despierto] show ?case by (simp add: trabajo_def peso_def)
next
  case (sacar i s t q)
  with sum_peso_update [of i "hilos s" "Atendiendo t"] show ?case by (simp add: trabajo_def peso_def)
next
  case (atender i s t sent st)
  with sum_peso_update [of i "hilos s" En_espera] show ?case by (simp add: trabajo_def peso_def)
qed

lemma pasos_trabajo: "(paso_hilo ^^ k) s s' \<Longrightarrow> k + trabajo s' \<le> trabajo s"
  by (induction k arbitrary: s') (fastforce dest: paso_hilo_trabajo)+

lemma paso_hilo_frame:
  "paso_hilo s s' \<Longrightarrow> entraron s' = entraron s \<and> productor s' = productor s \<and> length (hilos s') = length (hilos s)"
  by (induction rule: paso_hilo.induct) auto

lemma pasos_hilo_frame:
  "paso_hilo\<^sup>*\<^sup>* s s' \<Longrightarrow> sistema_ok s \<Longrightarrow>
    sistema_ok s' \<and> entraron s' = entraron s \<and> productor s' = productor s \<and> length (hilos s') = length (hilos s)"
  by (induction rule: rtranclp_induct) (auto dest: paso_hilo_frame paso_hilo_ok)

lemma bloqueado:
  assumes ok: "sistema_ok s" and "\<not> productor s" and "hilos s \<noteq> []"
    and run: "\<And>t. t \<in> set (entraron s) \<Longrightarrow> run_task t (servidor s) \<noteq> None" and stuck: "\<And>s'. \<not> paso_hilo s s'"
  shows "salieron s = entraron s \<and> set (hilos s) = {En_espera}"
proof -
  have idle: "h = En_espera" if h: "h \<in> set (hilos s)" for h
  proof -
    obtain i where i: "i < length (hilos s)" "hilos s ! i = h" using h by (auto simp: in_set_conv_nth)
    show ?thesis
    proof (cases h)
      case Despierto
      with despierto_saca [OF ok i(1)] i stuck paso_hilo.sacar show ?thesis by metis
    next
      case (Atendiendo t)
      then have "t \<in> set (entraron s)" using ok h by (auto simp: sistema_ok_def)
      then obtain sent st where "run_task t (servidor s) = Some (sent, st)" using run by fastforce
      with Atendiendo i stuck paso_hilo.atender show ?thesis by metis
    qed simp
  qed
  have av: "available_elements (cola s) = 0"
    using stuck paso_hilo.esperar [of 0 s] idle assms(3) by (metis length_greater_0_conv nth_mem not_gr_zero)
  have "despiertos (hilos s) = 0" using idle by (force simp: despiertos_def filter_empty_conv)
  then have "queue_contents (squeue (cola s)) = []" using ok av assms(2) by (simp add: sistema_ok_def)
  moreover have "set (hilos s) = {En_espera}" using idle assms(3) by (cases "hilos s") force+
  ultimately show ?thesis using ok by (simp add: sistema_ok_def)
qed

lemma termina: "\<exists>s'. paso_hilo\<^sup>*\<^sup>* s s' \<and> (\<forall>s''. \<not> paso_hilo s' s'')"
proof (induction s rule: measure_induct_rule [of trabajo])
  case (less s)
  show ?case
  proof (cases "\<exists>s1. paso_hilo s s1")
    case True
    then obtain s1 where "paso_hilo s s1" ..
    with less [OF paso_hilo_trabajo] show ?thesis by (meson converse_rtranclp_into_rtranclp)
  qed blast
qed

section \<open>Answers\<close>

definition tarea_de :: "'c hilo \<Rightarrow> 'c task_t multiset" where
  "tarea_de h = (case h of Atendiendo t \<Rightarrow> {#t#} | _ \<Rightarrow> {#})"

text \<open>The answers so far are, in some order, those of the tasks taken and no longer in a thread; each
  has gone to the socket of its task and is one that \<open>R\<close> allows.\<close>

definition contestadas :: "('c task_t \<Rightarrow> u8 list list \<Rightarrow> bool) \<Rightarrow> 'c sistema \<Rightarrow> bool" where
  "contestadas R s \<longleftrightarrow> (\<exists>ts. mset ts + sum_list (map tarea_de (hilos s)) = mset (salieron s) \<and>
     list_all2 (\<lambda>t (f, sent). f = p_socket (t_params t) \<and> R t sent) ts (respuestas s))"

lemma tarea_de_update:
  "i < length hs \<Longrightarrow> sum_list (map tarea_de (hs[i := h])) + tarea_de (hs ! i) = sum_list (map tarea_de hs) + tarea_de h"
  by (induction hs arbitrary: i) (auto split: nat.splits simp: add.commute add.left_commute)

lemma tarea_de_idle: "set hs \<subseteq> {En_espera} \<Longrightarrow> sum_list (map tarea_de hs) = {#}"
  by (induction hs) (auto simp: tarea_de_def)

text \<open>An invariant \<open>I\<close> of the server state under which every task of \<open>T\<close> answers.\<close>

definition contestan :: "('c server \<Rightarrow> bool) \<Rightarrow> ('c task_t \<Rightarrow> u8 list list \<Rightarrow> bool) \<Rightarrow> 'c task_t set \<Rightarrow> bool" where
  "contestan I R T \<longleftrightarrow> (\<forall>t \<in> T. \<forall>st. I st \<longrightarrow> (\<exists>sent st'. run_task t st = Some (sent, st') \<and> I st' \<and> R t sent))"

lemma paso_hilo_contesta:
  assumes "paso_hilo s s'" and "contestan I R (set (entraron s))" and "sistema_ok s" and "I (servidor s)" and "contestadas R s"
  shows "I (servidor s') \<and> contestadas R s'"
  using assms
proof (induction rule: paso_hilo.induct)
  case (esperar i s)
  with tarea_de_update [of i "hilos s" Despierto] show ?case by (simp add: contestadas_def tarea_de_def)
next
  case (sacar i s t q)
  from sacar.prems(4) obtain ts where "mset ts + sum_list (map tarea_de (hilos s)) = mset (salieron s)"
    "list_all2 (\<lambda>t (f, sent). f = p_socket (t_params t) \<and> R t sent) ts (respuestas s)" by (auto simp: contestadas_def)
  with sacar tarea_de_update [of i "hilos s" "Atendiendo t"] show ?case
    by (simp add: contestadas_def tarea_de_def)
next
  case (atender i s t sent st)
  have "Atendiendo t \<in> set (hilos s)" using atender.hyps by (metis nth_mem)
  then have "t \<in> set (entraron s)" using atender.prems(2) by (auto simp: sistema_ok_def)
  then have r: "I st" "R t sent" using atender.prems(1,3) atender.hyps(3) by (force simp: contestan_def)+
  from atender.prems(4) obtain ts where ts: "mset ts + sum_list (map tarea_de (hilos s)) = mset (salieron s)"
    "list_all2 (\<lambda>t (f, sent). f = p_socket (t_params t) \<and> R t sent) ts (respuestas s)" by (auto simp: contestadas_def)
  have upd: "sum_list (map tarea_de ((hilos s)[i := En_espera])) + {#t#} = sum_list (map tarea_de (hilos s))"
    using tarea_de_update [of i "hilos s" En_espera] atender.hyps(1,2) by (simp add: tarea_de_def)
  have "mset (ts @ [t]) + sum_list (map tarea_de ((hilos s)[i := En_espera])) =
      mset ts + (sum_list (map tarea_de ((hilos s)[i := En_espera])) + {#t#})" by simp
  then have "mset (ts @ [t]) + sum_list (map tarea_de ((hilos s)[i := En_espera])) = mset (salieron s)"
    unfolding upd ts(1) .
  moreover have "list_all2 (\<lambda>t (f, sent). f = p_socket (t_params t) \<and> R t sent) (ts @ [t]) (respuestas s @ [(p_socket (t_params t), sent)])"
    using ts(2) r(2) by (simp add: list_all2_appendI)
  ultimately show ?case using r(1) unfolding contestadas_def by (intro conjI exI [of _ "ts @ [t]"]) simp_all
qed

lemma paso_contesta:
  assumes "paso s s'" and "contestan I R (set (entraron s))" and "sistema_ok s" and "I (servidor s)" and "contestadas R s"
  shows "I (servidor s') \<and> contestadas R s'"
  using assms
proof (induction rule: paso.induct)
  case (hilo s s')
  then show ?case by (rule paso_hilo_contesta)
qed (auto simp: contestadas_def)

lemma paso_entraron: "paso s s' \<Longrightarrow> set (entraron s) \<subseteq> set (entraron s')"
  by (induction rule: paso.induct) (auto dest: paso_hilo_frame)

lemma alcanzable_contesta:
  assumes "paso\<^sup>*\<^sup>* (inicial n st) s" and "I st" and "contestan I R (set (entraron s))"
  shows "I (servidor s) \<and> contestadas R s"
  using assms(1,3)
proof (induction rule: rtranclp_induct)
  case base
  have "sum_list (map tarea_de (replicate n En_espera)) = {#}" by (induction n) (simp_all add: tarea_de_def)
  then show ?case using assms(2) by (simp add: inicial_def contestadas_def)
next
  case (step s s')
  then have "contestan I R (set (entraron s))" using paso_entraron by (force simp: contestan_def)
  with step paso_contesta [of s s'] alcanzable_ok [of n st s] show ?case by blast
qed

text \<open>The workers alone, from a reachable state.\<close>

lemma hilos_contestan:
  assumes "paso_hilo\<^sup>*\<^sup>* s s'" and "contestan I R (set (entraron s))" and "sistema_ok s" and "I (servidor s)" and "contestadas R s"
  shows "I (servidor s') \<and> contestadas R s'"
  using assms
proof (induction rule: rtranclp_induct)
  case (step s1 s2)
  with pasos_hilo_frame [of s s1] paso_hilo_contesta [of s1 s2 I R] show ?case by simp
qed simp

lemma todas_contestadas:
  assumes reach: "paso\<^sup>*\<^sup>* (inicial n st) s" and "\<not> productor s" and "hilos s \<noteq> []" and I: "I st" and con: "contestan I R (set (entraron s))"
    and run: "paso_hilo\<^sup>*\<^sup>* s s'" and stuck: "\<And>s''. \<not> paso_hilo s' s''"
  shows "salieron s' = entraron s \<and> set (hilos s') = {En_espera} \<and> I (servidor s') \<and>
    (\<exists>ts. mset ts = mset (entraron s) \<and> list_all2 (\<lambda>t (f, sent). f = p_socket (t_params t) \<and> R t sent) ts (respuestas s'))"
proof -
  have s': "sistema_ok s'" "entraron s' = entraron s" "\<not> productor s'" "hilos s' \<noteq> []"
    using pasos_hilo_frame [OF run alcanzable_ok [OF reach]] assms(2,3) by auto
  have c: "I (servidor s')" "contestadas R s'"
    using hilos_contestan [OF run con alcanzable_ok [OF reach]] alcanzable_contesta [OF reach I con] by blast+
  have "salieron s' = entraron s' \<and> set (hilos s') = {En_espera}"
  proof (rule bloqueado [OF s'(1,3,4) _ stuck])
    show "run_task t (servidor s') \<noteq> None" if "t \<in> set (entraron s')" for t using con c(1) that s'(2) by (force simp: contestan_def)
  qed
  moreover from this have "sum_list (map tarea_de (hilos s')) = {#}"
    by (intro tarea_de_idle) simp
  ultimately show ?thesis using c s'(2) by (auto simp: contestadas_def)
qed

section \<open>An example\<close>

definition eco :: "unit task_t" where
  "eco = \<lparr>run = (\<lambda>params st. Some (new_result params D_null, st)), t_params = no_params\<lparr>p_path := ''/a''\<rparr>,
     deliver_response = (\<lambda>result st. Some ([serializar_respuesta_finalizacion RESPUESTA_OK], st))\<rparr>"

definition una_tarea :: "unit sistema" where
  "una_tarea = (inicial 2 demo_server)\<lparr>cola := s_queue_push s_queue_create eco, entraron := [eco]\<rparr>"

lemma una_tarea_alcanzable: "paso\<^sup>*\<^sup>* (inicial 2 demo_server) una_tarea"
proof -
  let ?s = "inicial 2 demo_server :: unit sistema"
  let ?s1 = "?s\<lparr>cola := (cola ?s)\<lparr>squeue := queue_push (squeue (cola ?s)) eco\<rparr>, productor := True, entraron := entraron ?s @ [eco]\<rparr>"
  let ?s2 = "?s1\<lparr>cola := (cola ?s1)\<lparr>available_elements := available_elements (cola ?s1) + 1\<rparr>, productor := False\<rparr>"
  have "paso ?s ?s1" by (rule paso.encolar) (simp add: inicial_def)
  moreover have "paso ?s1 ?s2" by (rule paso.avisar) simp
  moreover have "?s2 = una_tarea" by (simp add: una_tarea_def inicial_def s_queue_push_def)
  ultimately show ?thesis by (metis rtranclp.rtrancl_into_rtrancl r_into_rtranclp)
qed

section \<open>Properties\<close>

lemma aceptar_loop_done: "indice < i \<Longrightarrow> aceptar_loop clientes nuevo i indice = Some (indice, clientes)"
  by (simp add: aceptar_loop.simps)

lemma aceptar_loop_first:
  "i \<le> length clientes \<Longrightarrow> aceptar_loop clientes nuevo i (length clientes) =
    map_option (\<lambda>j. (j, clientes[j := (clientes ! j)\<lparr>fd := nuevo\<rparr>]))
      (List.find (\<lambda>j. fd (clientes ! j) = 0) [i..<length clientes])"
proof (induction "length clientes - i" arbitrary: i)
  case 0
  then show ?case by (simp add: aceptar_loop.simps)
next
  case (Suc d)
  then have "i < length clientes" by simp
  with Suc.hyps(1) [of "Suc i"] Suc.hyps(2) show ?case
    by (subst aceptar_loop.simps) (auto simp: aceptar_loop_done upt_conv_Cons)
qed

lemma poll_beyond: "n \<le> j \<Longrightarrow> j < length fds \<Longrightarrow> poll ready fds n ! j = fds ! j"
  by (simp add: poll_def)

lemma poll_length [simp]: "length (poll ready fds n) = length fds"
  by (simp add: poll_def)

lemma poll_first: "i < n \<Longrightarrow> i < length fds \<Longrightarrow> poll ready fds n ! i = (fds ! i)\<lparr>revents := ready i\<rparr>"
  by (simp add: poll_def)

lemma attend_slot_frame:
  assumes "attend_slot lib i m = Some m'"
  shows "length (read_fds m') = length (read_fds m) \<and> (j \<noteq> i \<longrightarrow> read_fds m' ! j = read_fds m ! j) \<and>
    (f \<noteq> fd (read_fds m ! i) \<longrightarrow> streams m' f = streams m f) \<and> (revents (read_fds m ! i) \<noteq> POLLIN \<longrightarrow> m' = m)"
  using assms by (auto simp: attend_slot_def Let_def split: if_splits bind_splits)

lemma attend_slots_frame:
  assumes "attend_slots lib is m = Some m'" and "distinct is" and "revents (read_fds m ! j) \<noteq> POLLIN"
  shows "length (read_fds m') = length (read_fds m) \<and> read_fds m' ! j = read_fds m ! j \<and>
    ((\<forall>i \<in> set is - {j}. fd (read_fds m ! i) \<noteq> f) \<longrightarrow> streams m' f = streams m f)"
  using assms
proof (induction "is" arbitrary: m)
  case (Cons i "is")
  then obtain m1 where m1: "attend_slot lib i m = Some m1" "attend_slots lib is m1 = Some m'" by (auto split: bind_splits)
  note s = attend_slot_frame [OF m1(1)]
  have j: "read_fds m1 ! j = read_fds m ! j" using s [of j] Cons.prems(3) by (cases "j = i") auto
  have "read_fds m1 ! k = read_fds m ! k" if "k \<in> set is" for k using s [of k] Cons.prems(2) that by auto
  moreover have "streams m1 f = streams m f" if "\<forall>k \<in> set (i # is) - {j}. fd (read_fds m ! k) \<noteq> f"
    using s [of _ f] that Cons.prems(3) by (cases "i = j") auto
  ultimately show ?case using Cons.IH [OF m1(2)] Cons.prems(2,3) s j by auto
qed simp

lemma aceptar_first:
  assumes "length fds = BACKLOG + 1"
  shows "aceptar_cliente (tl fds) nuevo BACKLOG =
      map_option (\<lambda>j. (j, (tl fds)[j := (tl fds ! j)\<lparr>fd := nuevo\<rparr>])) (List.find (\<lambda>j. fd (tl fds ! j) = 0) [0..<BACKLOG])"
  using assms aceptar_loop_first [of 0 "tl fds" nuevo] by (simp add: aceptar_cliente_def)

lemma aceptar_revents:
  assumes "length fds = BACKLOG + 1" and "aceptar_cliente (tl fds) nuevo BACKLOG = Some (indice, clientes)"
  shows "length (hd fds # clientes) = BACKLOG + 1 \<and> revents ((hd fds # clientes) ! BACKLOG) = revents (fds ! BACKLOG)"
proof -
  obtain j where "clientes = (tl fds)[j := (tl fds ! j)\<lparr>fd := nuevo\<rparr>]" using assms aceptar_first [OF assms(1), of nuevo] by auto
  then have "revents (clientes ! (BACKLOG - 1)) = revents (tl fds ! (BACKLOG - 1))" "length clientes = BACKLOG"
    using assms(1) by (cases "j = BACKLOG - 1"; simp add: BACKLOG_def)+
  then show ?thesis using assms(1) by (cases fds) (simp_all add: BACKLOG_def)
qed

text \<open>
  C39: the table of clients. A new connection takes the first free slot of the table and changes
  no other slot; with all slots taken \<open>aceptar_cliente\<close> goes on past the end of the table. The last
  slot, which it may fill, is never polled: what the kernel would report for it makes no difference
  to a round of the main loop. Its \<open>revents\<close> is what the memory of the array had, no round changes
  it, and while it is not \<open>POLLIN\<close> a round attends only the other slots: the last one stays as it is
  and nothing its client sends is received.
\<close>

theorem client_slots:
  assumes "length (read_fds m) = BACKLOG + 1"
  shows "aceptar_cliente (tl (read_fds m)) nuevo BACKLOG =
      map_option (\<lambda>j. (j, (tl (read_fds m))[j := (tl (read_fds m) ! j)\<lparr>fd := nuevo\<rparr>]))
        (List.find (\<lambda>j. fd (tl (read_fds m) ! j) = 0) [0..<BACKLOG]) \<and>
    main_round lib (ready(BACKLOG := r)) nuevo m = main_round lib ready nuevo m \<and>
    (main_round lib ready nuevo m = Some m' \<and> revents (read_fds m ! BACKLOG) \<noteq> POLLIN \<longrightarrow>
      length (read_fds m') = BACKLOG + 1 \<and> revents (read_fds m' ! BACKLOG) = revents (read_fds m ! BACKLOG) \<and>
      (ready 0 \<noteq> POLLIN \<longrightarrow> read_fds m' ! BACKLOG = read_fds m ! BACKLOG \<and>
        ((\<forall>i \<in> {1..<BACKLOG}. fd (read_fds m ! i) \<noteq> fd (read_fds m ! BACKLOG)) \<longrightarrow>
          streams m' (fd (read_fds m ! BACKLOG)) = streams m (fd (read_fds m ! BACKLOG)))))"
proof (intro conjI impI)
  let ?fds = "poll ready (read_fds m) BACKLOG" and ?f = "fd (read_fds m ! BACKLOG)"
  have len: "length ?fds = BACKLOG + 1" "?fds ! BACKLOG = read_fds m ! BACKLOG" using assms by (simp_all add: poll_beyond)
  have first: "revents (?fds ! 0) = ready 0" using assms by (simp add: poll_first BACKLOG_def)
  show "aceptar_cliente (tl (read_fds m)) nuevo BACKLOG =
      map_option (\<lambda>j. (j, (tl (read_fds m))[j := (tl (read_fds m) ! j)\<lparr>fd := nuevo\<rparr>]))
        (List.find (\<lambda>j. fd (tl (read_fds m) ! j) = 0) [0..<BACKLOG])" by (rule aceptar_first [OF assms])
  have "poll (ready(BACKLOG := r)) (read_fds m) BACKLOG = ?fds" by (simp add: poll_def)
  then show "main_round lib (ready(BACKLOG := r)) nuevo m = main_round lib ready nuevo m" by (simp add: main_round_def)
  assume h: "main_round lib ready nuevo m = Some m' \<and> revents (read_fds m ! BACKLOG) \<noteq> POLLIN"
  have "length (read_fds m') = BACKLOG + 1 \<and> revents (read_fds m' ! BACKLOG) = revents (read_fds m ! BACKLOG)" if acc: "ready 0 = POLLIN"
  proof -
    obtain indice clientes where a: "aceptar_cliente (tl ?fds) nuevo BACKLOG = Some (indice, clientes)" "read_fds m' = hd ?fds # clientes"
      using h acc first by (auto simp: main_round_def Let_def split: bind_splits)
    from aceptar_revents [OF len(1) a(1)] len(2) a(2) show ?thesis by simp
  qed
  moreover have "length (read_fds m') = BACKLOG + 1 \<and> read_fds m' ! BACKLOG = read_fds m ! BACKLOG \<and>
      ((\<forall>i \<in> {1..<BACKLOG}. fd (read_fds m ! i) \<noteq> ?f) \<longrightarrow> streams m' ?f = streams m ?f)" if acc: "ready 0 \<noteq> POLLIN"
  proof -
    have run: "attend_slots lib [1..<BACKLOG + 1] (m\<lparr>read_fds := ?fds\<rparr>) = Some m'" using h acc first by (simp add: main_round_def Let_def)
    have "fd (?fds ! i) = fd (read_fds m ! i)" if "i < BACKLOG" for i using that assms by (simp add: poll_first)
    then have "\<forall>i \<in> set [1..<BACKLOG + 1] - {BACKLOG}. fd (?fds ! i) = fd (read_fds m ! i)" by auto
    moreover have "distinct [1..<BACKLOG + 1]" "set [1..<BACKLOG + 1] - {BACKLOG} = {1..<BACKLOG}" by (simp_all only: distinct_upt) auto
    ultimately show ?thesis using attend_slots_frame [OF run, of BACKLOG ?f] len h by (simp del: upt_Suc)
  qed
  ultimately show "length (read_fds m') = BACKLOG + 1" "revents (read_fds m' ! BACKLOG) = revents (read_fds m ! BACKLOG)"
    "ready 0 \<noteq> POLLIN \<Longrightarrow> read_fds m' ! BACKLOG = read_fds m ! BACKLOG"
    "ready 0 \<noteq> POLLIN \<Longrightarrow> \<forall>i \<in> {1..<BACKLOG}. fd (read_fds m ! i) \<noteq> ?f \<Longrightarrow> streams m' ?f = streams m ?f"
    by metis+
qed

definition tabla_llena :: "unit principal" where
  "tabla_llena = \<lparr>read_fds = map (\<lambda>i. \<lparr>fd = int i + 3, events = POLLIN, revents = 0\<rparr>) [0..<101],
     streams = (\<lambda>_. [[1]]), enviado = [], tareas = s_queue_create\<rparr>"

definition nada_guarda :: "unit memcached_lib" where
  "nada_guarda = \<lparr>memcached_get = (\<lambda>c k. (None, c)), memcached_set = (\<lambda>c k v. c), memcached_delete = (\<lambda>c k. c)\<rparr>"

lemma tabla_llena_round: "main_round nada_guarda (\<lambda>_. 0) 7 tabla_llena \<noteq> None"
  by code_simp

lemma client_slots_witness:
  "aceptar_cliente (tl (read_fds (tabla_llena\<lparr>read_fds := replicate 101 \<lparr>fd = 0, events = POLLIN, revents = 0\<rparr>\<rparr>))) 7 BACKLOG =
    Some (0, (replicate 100 \<lparr>fd = 0, events = POLLIN, revents = 0\<rparr>)[0 := \<lparr>fd = 7, events = POLLIN, revents = 0\<rparr>]) \<and>
   (\<exists>m'. main_round nada_guarda ((\<lambda>_. 0)(BACKLOG := POLLIN)) 7 tabla_llena = Some m' \<and> streams m' 103 = [[1]])"
proof -
  let ?p = "\<lparr>fd = 0, events = POLLIN, revents = 0\<rparr>"
  have "[0..<100] = 0 # [1..<100 :: nat]" by (simp add: upt_conv_Cons)
  moreover obtain m' where m: "main_round nada_guarda (\<lambda>_. 0) 7 tabla_llena = Some m'" using tabla_llena_round by blast
  have t: "length (read_fds tabla_llena) = BACKLOG + 1" "fd (read_fds tabla_llena ! i) = int i + 3 \<and> revents (read_fds tabla_llena ! i) = 0" if "i < 101" for i
    using that by (simp_all add: tabla_llena_def BACKLOG_def)
  have "\<forall>i \<in> {1..<BACKLOG}. fd (read_fds tabla_llena ! i) \<noteq> fd (read_fds tabla_llena ! BACKLOG)"
    using t(2) by (simp add: BACKLOG_def)
  with client_slots [OF t(1) [of 0], of 7 nada_guarda "\<lambda>_. 0" POLLIN m'] m t(2) [of 100]
  have "main_round nada_guarda ((\<lambda>_. 0)(BACKLOG := POLLIN)) 7 tabla_llena = Some m' \<and> streams m' 103 = [[1]]"
    by (simp add: BACKLOG_def POLLIN_def) (simp add: tabla_llena_def)
  ultimately show ?thesis
    using client_slots [of "tabla_llena\<lparr>read_fds := replicate 101 ?p\<rparr>" 7, THEN conjunct1] by (auto simp: BACKLOG_def)
qed

text \<open>
  C5: in every reachable state of the main thread and the workers, the tasks queued are those
  taken, in the same order, followed by those still in the queue: none is lost, taken twice or
  overtaken. The semaphore never promises more than the queue holds, so a worker that has
  passed it always finds a task and never dereferences \<open>NULL\<close>.
\<close>

theorem tasks_served_in_order:
  assumes "paso\<^sup>*\<^sup>* (inicial Nthreads st) s"
  shows "entraron s = salieron s @ queue_contents (squeue (cola s)) \<and>
    available_elements (cola s) + despiertos (hilos s) + (if productor s then 1 else 0) = length (queue_contents (squeue (cola s))) \<and>
    (\<forall>i < length (hilos s). hilos s ! i = Despierto \<longrightarrow> (\<exists>t q. queue_pop (squeue (cola s)) = Some (Some t, q)))"
  using alcanzable_ok [OF assms] despierto_saca [of s] by (auto simp: sistema_ok_def)

lemma tasks_served_in_order_witness:
  "entraron una_tarea = salieron una_tarea @ queue_contents (squeue (cola una_tarea)) \<and>
   queue_contents (squeue (cola una_tarea)) = [eco] \<and> available_elements (cola una_tarea) = 1"
  using tasks_served_in_order [OF una_tarea_alcanzable] by (simp add: una_tarea_def inicial_def s_queue_push_def s_queue_create_def despiertos_def)

end
