(* ===== verification/Fsc.thy ===== *)
theory Fsc
  imports Dictionary Pedidos Registro
begin

text \<open>
  The client: \<^verbatim>\<open>fsc/sources_FSC/operaciones_fuse.c\<close> and \<^verbatim>\<open>manejador_memcached.c\<close>. FUSE calls these
  operations; each has its own connection and mutex, sends one request, reads one answer and
  keeps the shared cache of listings and attributes. The server is a parameter that answers a
  packet with chunks of bytes, libmemcached is the record of its calls, and what FUSE's
  \<open>filler\<close> and buffers receive is part of the result. \<open>None\<close> is an access outside a buffer, a
  \<open>NULL\<close> dereference or a mutex that is never released. Every operation formats its line for the
  log into a buffer of 255 bytes (\<open>anotar\<close>); what \<open>log_debug\<close> then does with the line is left out: it takes it
  for a template, so a per cent sign in a path is a conversion without an argument.
\<close>

section \<open>State\<close>

record ('c, 's) client =
  conexiones :: "u8 \<Rightarrow> u8 list list"
  mutex :: "u8 \<Rightarrow> bool"
  cache_state :: 'c
  server_state :: 's

type_synonym 's answering = "'s \<Rightarrow> u8 \<Rightarrow> u8 list \<Rightarrow> u8 list list \<times> 's"

definition mutex_lock :: "u8 \<Rightarrow> ('c, 's) client \<Rightarrow> ('c, 's) client option" where
  "mutex_lock i cl = (if mutex cl i then None else Some (cl\<lparr>mutex := (mutex cl)(i := True)\<rparr>))"

definition mutex_unlock :: "u8 \<Rightarrow> ('c, 's) client \<Rightarrow> ('c, 's) client" where
  "mutex_unlock i cl = cl\<lparr>mutex := (mutex cl)(i := False)\<rparr>"

definition enviar_paquete :: "'s answering \<Rightarrow> u8 \<Rightarrow> u8 list \<Rightarrow> ('c, 's) client \<Rightarrow> ('c, 's) client" where
  "enviar_paquete srv fd paquete cl =
     (let (answer, s) = srv (server_state cl) fd paquete
      in cl\<lparr>conexiones := (conexiones cl)(fd := conexiones cl fd @ answer), server_state := s\<rparr>)"

definition header_de :: "u8 \<Rightarrow> ('c, 's) client \<Rightarrow> (t_header \<times> ('c, 's) client) option" where
  "header_de fd cl = do {
     (h, closed, chunks) \<leftarrow> recibir_header (conexiones cl fd);
     Some (h, cl\<lparr>conexiones := (conexiones cl)(fd := chunks)\<rparr>) }"

definition paquete_de :: "u8 \<Rightarrow> u16 \<Rightarrow> ('c, 's) client \<Rightarrow> (u8 list \<times> ('c, 's) client) option" where
  "paquete_de fd longitud cl = do {
     (payload, chunks) \<leftarrow> recibir_paquete (conexiones cl fd) longitud;
     Some (payload, cl\<lparr>conexiones := (conexiones cl)(fd := chunks)\<rparr>) }"

section \<open>manejador_memcached.c\<close>

definition memcached_library_key :: "u8 \<Rightarrow> string \<Rightarrow> u8 list" where
  "memcached_library_key type path =
     (if type = LEER_DIRECTORIO then bytes_of_string ''dir-'' @ bytes_of_string path
      else bytes_of_string ''attr-'' @ bytes_of_string path)"

definition memcached_library_set ::
  "'c memcached_lib \<Rightarrow> u8 list \<Rightarrow> u8 list \<Rightarrow> u16 \<Rightarrow> ('c, 's) client \<Rightarrow> ('c, 's) client" where
  "memcached_library_set lib k v sz cl =
     cl\<lparr>cache_state := memcached_set lib (cache_state cl) k (take (unat sz) v)\<rparr>"

definition memcached_library_delete :: "'c memcached_lib \<Rightarrow> u8 list \<Rightarrow> ('c, 's) client \<Rightarrow> ('c, 's) client" where
  "memcached_library_delete lib k cl = cl\<lparr>cache_state := memcached_delete lib (cache_state cl) k\<rparr>"

text \<open>The size returned beside the value is that of a pointer.\<close>

definition memcached_library_get ::
  "'c memcached_lib \<Rightarrow> u8 list \<Rightarrow> ('c, 's) client \<Rightarrow> u8 list option \<times> nat \<times> ('c, 's) client" where
  "memcached_library_get lib k cl =
     (let (v, c) = memcached_get lib (cache_state cl) k in (v, 4, cl\<lparr>cache_state := c\<rparr>))"

definition obtener_valor_de_memcached ::
  "'c memcached_lib \<Rightarrow> u8 list \<Rightarrow> ('c, 's) client \<Rightarrow> u8 list option \<times> ('c, 's) client" where
  "obtener_valor_de_memcached lib clave cl =
     (let (v, c) = memcached_get lib (cache_state cl) clave in (v, cl\<lparr>cache_state := c\<rparr>))"

definition insertar_en_memcached ::
  "'c memcached_lib \<Rightarrow> u8 list \<Rightarrow> u8 list \<Rightarrow> nat \<Rightarrow> ('c, 's) client \<Rightarrow> ('c, 's) client" where
  "insertar_en_memcached lib clave valor sz cl =
     cl\<lparr>cache_state := memcached_set lib (cache_state cl) clave (take sz valor)\<rparr>"

section \<open>operaciones_fuse.c\<close>

text \<open>\<open>char mensaje[255]; sprintf(mensaje, ...)\<close>: text that does not fit is undefined.\<close>

definition anotar :: "string \<Rightarrow> printf_arg list \<Rightarrow> unit option" where
  "anotar formato argumentos = do {
     mensaje \<leftarrow> vsprintf formato argumentos;
     if length mensaje < 255 then Some () else None }"

text \<open>
  \<open>sprintf\<close> of a key with \<open>%s\<close>: the block of the key has no terminator, so the text goes on with the
  bytes \<open>tras\<close> that the heap has after the block, up to the next zero byte.
\<close>

definition anotar_clave :: "string \<Rightarrow> u8 list \<Rightarrow> u8 list \<Rightarrow> unit option" where
  "anotar_clave formato clave tras = do {
     texto \<leftarrow> c_string (clave @ tras);
     anotar formato [A_str texto] }"

definition get_previus_path :: "string \<Rightarrow> string option" where
  "get_previus_path path =
     (if CHR ''/'' \<in> set path then
        let size_splitted = length path - length (takeWhile (\<lambda>c. c \<noteq> CHR ''/'') (rev path)) - 1
        in Some (if size_splitted \<noteq> 0 then take size_splitted path else ''/'')
      else None)"

definition tipo_in :: "t_header \<Rightarrow> u8 list \<Rightarrow> bool" where
  "tipo_in h codes \<longleftrightarrow> h_tipo h \<in> set codes"

definition crear_archivo ::
  "'c memcached_lib \<Rightarrow> 's answering \<Rightarrow> string \<Rightarrow> u32 \<Rightarrow> ('c, 's) client \<Rightarrow> (int \<times> ('c, 's) client) option" where
  "crear_archivo lib srv path mode cl = do {
     anotar ''Operation: Create File - Path: %s'' [A_str path];
     cl \<leftarrow> mutex_lock CREAR_ARCHIVO cl;
     let cl = enviar_paquete srv CREAR_ARCHIVO (serializar_pedido_modo_nombre CREAR_ARCHIVO path mode) cl;
     (h, cl) \<leftarrow> header_de CREAR_ARCHIVO cl;
     if tipo_in h [- 17, - 36] then Some (sint (h_tipo h), mutex_unlock CREAR_ARCHIVO cl)
     else do {
       previus_path \<leftarrow> get_previus_path path;
       let cl = memcached_library_delete lib (memcached_library_key LEER_DIRECTORIO previus_path) cl;
       Some (0, mutex_unlock CREAR_ARCHIVO cl) } }"

definition abrir_archivo ::
  "'s answering \<Rightarrow> string \<Rightarrow> ('c, 's) client \<Rightarrow> (int \<times> ('c, 's) client) option" where
  "abrir_archivo srv path cl = do {
     cl \<leftarrow> mutex_lock ABRIR_ARCHIVO cl;
     anotar ''Operation: Open File - Path: %s'' [A_str path];
     let cl = enviar_paquete srv ABRIR_ARCHIVO (serializar_pedido_nombre ABRIR_ARCHIVO path) cl;
     (h, cl) \<leftarrow> header_de ABRIR_ARCHIVO cl;
     if tipo_in h [- 2, - 36] then Some (sint (h_tipo h), mutex_unlock ABRIR_ARCHIVO cl)
     else Some (0, mutex_unlock ABRIR_ARCHIVO cl) }"

text \<open>The result carries what is written to FUSE's buffer of \<open>sz\<close> bytes.\<close>

definition leer_archivo ::
  "'s answering \<Rightarrow> string \<Rightarrow> u32 \<Rightarrow> u32 \<Rightarrow> ('c, 's) client \<Rightarrow> (int \<times> u8 list \<times> ('c, 's) client) option" where
  "leer_archivo srv path sz offset cl = do {
     cl \<leftarrow> mutex_lock LEER_ARCHIVO cl;
     anotar ''Operation: Read File - Path: %s - Size: %u - Offset: %u'' [A_str path, A_uint sz, A_uint offset];
     let cl = enviar_paquete srv LEER_ARCHIVO (serializar_pedido_leer_archivo path sz offset) cl;
     (h, cl) \<leftarrow> header_de LEER_ARCHIVO cl;
     if tipo_in h [- 2, - 36] then Some (sint (h_tipo h), [], mutex_unlock LEER_ARCHIVO cl)
     else do {
       (payload, cl) \<leftarrow> paquete_de LEER_ARCHIVO (h_longitud h) cl;
       respuesta \<leftarrow> deserializar_respuesta_leer_archivo payload (unat (h_longitud h));
       (if rl_bytes_leidos respuesta \<le> sz then Some () else None);
       Some (sint (rl_bytes_leidos respuesta), rl_buffer respuesta, mutex_unlock LEER_ARCHIVO cl) } }"

definition escribir_archivo ::
  "'s answering \<Rightarrow> string \<Rightarrow> u8 list \<Rightarrow> u32 \<Rightarrow> u32 \<Rightarrow> ('c, 's) client \<Rightarrow> (int \<times> ('c, 's) client) option" where
  "escribir_archivo srv path buffer sz offset cl = do {
     cl \<leftarrow> mutex_lock ESCRIBIR_ARCHIVO cl;
     anotar ''Operation: Write File - Path: %s - Size: %u - Offset: %u'' [A_str path, A_uint sz, A_uint offset];
     stream \<leftarrow> serializar_pedido_escribir_archivo path buffer sz offset;
     let cl = enviar_paquete srv ESCRIBIR_ARCHIVO stream cl;
     (h, cl) \<leftarrow> header_de ESCRIBIR_ARCHIVO cl;
     if tipo_in h [- 2, - 36] then Some (sint (h_tipo h), mutex_unlock ESCRIBIR_ARCHIVO cl)
     else do {
       (payload, cl) \<leftarrow> paquete_de ESCRIBIR_ARCHIVO (h_longitud h) cl;
       bytes \<leftarrow> deserializar_respuesta_escribir_archivo payload (unat (h_longitud h));
       Some (sint bytes, mutex_unlock ESCRIBIR_ARCHIVO cl) } }"

definition cerrar_archivo :: "string \<Rightarrow> ('c, 's) client \<Rightarrow> (int \<times> ('c, 's) client) option" where
  "cerrar_archivo path cl = do {
     cl \<leftarrow> mutex_lock 6 cl;
     anotar ''Operation: Close File - Path: %s'' [A_str path];
     Some (0, mutex_unlock 6 cl) }"

definition truncar_archivo ::
  "'c memcached_lib \<Rightarrow> 's answering \<Rightarrow> string \<Rightarrow> u32 \<Rightarrow> ('c, 's) client \<Rightarrow> (int \<times> ('c, 's) client) option" where
  "truncar_archivo lib srv path sz cl = do {
     cl \<leftarrow> mutex_lock TRUNCAR_ARCHIVO cl;
     anotar ''Operation: Truncate File - Path: %s - Size: %u'' [A_str path, A_uint sz];
     let cl = enviar_paquete srv TRUNCAR_ARCHIVO (serializar_pedido_truncar_archivo path sz) cl;
     (h, cl) \<leftarrow> header_de TRUNCAR_ARCHIVO cl;
     if tipo_in h [- 2, - 36] then Some (sint (h_tipo h), mutex_unlock TRUNCAR_ARCHIVO cl)
     else
       let cl = memcached_library_delete lib (memcached_library_key OBTENER_ATRIBUTOS path) cl
       in Some (0, mutex_unlock TRUNCAR_ARCHIVO cl) }"

definition eliminar_archivo ::
  "'c memcached_lib \<Rightarrow> 's answering \<Rightarrow> string \<Rightarrow> ('c, 's) client \<Rightarrow> (int \<times> ('c, 's) client) option" where
  "eliminar_archivo lib srv path cl = do {
     cl \<leftarrow> mutex_lock ELIMINAR_ARCHIVO cl;
     anotar ''Operation: Unlink File - Path: %s'' [A_str path];
     let cl = enviar_paquete srv ELIMINAR_ARCHIVO (serializar_pedido_nombre ELIMINAR_ARCHIVO path) cl;
     (h, cl) \<leftarrow> header_de ELIMINAR_ARCHIVO cl;
     if tipo_in h [- 2, - 36] then Some (sint (h_tipo h), mutex_unlock ELIMINAR_ARCHIVO cl)
     else do {
       previus_path \<leftarrow> get_previus_path path;
       let cl = memcached_library_delete lib (memcached_library_key LEER_DIRECTORIO previus_path) cl;
       Some (0, mutex_unlock ELIMINAR_ARCHIVO cl) } }"

definition crear_directorio ::
  "'c memcached_lib \<Rightarrow> 's answering \<Rightarrow> string \<Rightarrow> u32 \<Rightarrow> ('c, 's) client \<Rightarrow> (int \<times> ('c, 's) client) option" where
  "crear_directorio lib srv path mode cl = do {
     cl \<leftarrow> mutex_lock CREAR_DIRECTORIO cl;
     anotar ''Operation: Create Directory - Path: %s'' [A_str path];
     let cl = enviar_paquete srv CREAR_DIRECTORIO (serializar_pedido_modo_nombre CREAR_DIRECTORIO path mode) cl;
     (h, cl) \<leftarrow> header_de CREAR_DIRECTORIO cl;
     if tipo_in h [- 17, - 36] then Some (sint (h_tipo h), mutex_unlock CREAR_DIRECTORIO cl)
     else do {
       previus_path \<leftarrow> get_previus_path path;
       let cl = memcached_library_delete lib (memcached_library_key LEER_DIRECTORIO previus_path) cl;
       Some (0, mutex_unlock CREAR_DIRECTORIO cl) } }"

definition MAX_KEY_SIZE :: nat where
  "MAX_KEY_SIZE = 44"

text \<open>The names handed to \<open>filler\<close>, in order.\<close>

definition nombres :: "u8 list \<Rightarrow> string list option" where
  "nombres valor = map_option (\<lambda>s. string_split s ''#'') (c_string valor)"

definition leer_directorio ::
  "'c memcached_lib \<Rightarrow> 's answering \<Rightarrow> string \<Rightarrow> ('c, 's) client \<Rightarrow> (int \<times> string list \<times> ('c, 's) client) option" where
  "leer_directorio lib srv path cl = do {
     cl \<leftarrow> mutex_lock LEER_DIRECTORIO cl;
     anotar ''Operation: Read Directory - Path: %s'' [A_str path];
     clave \<leftarrow> (if length (''dir-'' @ path) < MAX_KEY_SIZE then Some (bytes_of_string (''dir-'' @ path)) else None);
     let (valor_obtenido, cl) = obtener_valor_de_memcached lib clave cl;
     (case valor_obtenido of
        Some valor \<Rightarrow> do {
          vector_memcached \<leftarrow> nombres (valor @ [0]);
          Some (0, vector_memcached, mutex_unlock LEER_DIRECTORIO cl) }
      | None \<Rightarrow> do {
          let cl = enviar_paquete srv LEER_DIRECTORIO (serializar_pedido_nombre LEER_DIRECTORIO path) cl;
          (h, cl) \<leftarrow> header_de LEER_DIRECTORIO cl;
          if tipo_in h [- 2, - 36] then Some (sint (h_tipo h), [], mutex_unlock LEER_DIRECTORIO cl)
          else do {
            (payload, cl) \<leftarrow> paquete_de LEER_DIRECTORIO (h_longitud h) cl;
            let cl = insertar_en_memcached lib clave payload (unat (h_longitud h)) cl;
            vector \<leftarrow> nombres payload;
            Some (0, vector, mutex_unlock LEER_DIRECTORIO cl) } }) }"

text \<open>The bytes after the block of the key are an argument.\<close>

definition eliminar_directorio ::
  "'c memcached_lib \<Rightarrow> 's answering \<Rightarrow> u8 list \<Rightarrow> string \<Rightarrow> ('c, 's) client \<Rightarrow> (int \<times> ('c, 's) client) option" where
  "eliminar_directorio lib srv tras path cl = do {
     cl \<leftarrow> mutex_lock ELIMINAR_DIRECTORIO cl;
     anotar ''Operation: Delete Directory - Path: %s'' [A_str path];
     let cl = enviar_paquete srv ELIMINAR_DIRECTORIO (serializar_pedido_nombre ELIMINAR_DIRECTORIO path) cl;
     (h, cl) \<leftarrow> header_de ELIMINAR_DIRECTORIO cl;
     if tipo_in h [- 2, - 36] then Some (sint (h_tipo h), mutex_unlock ELIMINAR_DIRECTORIO cl)
     else do {
       previus_path \<leftarrow> get_previus_path path;
       let clave = memcached_library_key LEER_DIRECTORIO previus_path;
       let cl = memcached_library_delete lib clave cl;
       anotar_clave ''Operation: Memcached Delete- Key: %s'' clave tras;
       Some (0, mutex_unlock ELIMINAR_DIRECTORIO cl) } }"

record stat =
  st_ino :: u32
  st_mode :: u32
  st_nlink :: u32
  st_size :: u32
  st_blocks :: u32

text \<open>\<open>S_IFDIR | 0755\<close> and \<open>S_IFREG | 0444\<close>.\<close>

definition stat_de :: "t_respuesta_obtener_atributos \<Rightarrow> stat" where
  "stat_de a = \<lparr>st_ino = numero_de_inodo a,
     st_mode = (if bit (ra_modo a) 14 then 0x41ED else 0x8124),
     st_nlink = (if bit (ra_modo a) 14 then 2 else 1),
     st_size = ra_size a,
     st_blocks = cantidad_de_bloques_de_512b a\<rparr>"

text \<open>\<open>tras\<close> and \<open>tras2\<close> are the bytes after the block of the key when it is printed before and after
  the request.\<close>

definition obtener_atributos ::
  "'c memcached_lib \<Rightarrow> 's answering \<Rightarrow> u8 list \<Rightarrow> u8 list \<Rightarrow> string \<Rightarrow> ('c, 's) client \<Rightarrow> (int \<times> stat option \<times> ('c, 's) client) option" where
  "obtener_atributos lib srv tras tras2 path cl = do {
     cl \<leftarrow> mutex_lock OBTENER_ATRIBUTOS cl;
     anotar ''Operation: Get Attributes- Path: %s'' [A_str path];
     let clave = memcached_library_key OBTENER_ATRIBUTOS path;
     anotar_clave ''Operation: Memcached Get - Key: %s'' clave tras;
     let (valor, sz, cl) = memcached_library_get lib clave cl;
     (case valor of
        Some v \<Rightarrow> do {
          attrib \<leftarrow> deserializar_respuesta_obtener_atributos v sz;
          Some (0, Some (stat_de attrib), mutex_unlock OBTENER_ATRIBUTOS cl) }
      | None \<Rightarrow> do {
          let cl = enviar_paquete srv OBTENER_ATRIBUTOS (serializar_pedido_nombre OBTENER_ATRIBUTOS path) cl;
          (h, cl) \<leftarrow> header_de OBTENER_ATRIBUTOS cl;
          if tipo_in h [- 2, - 36] then Some (sint (h_tipo h), None, mutex_unlock OBTENER_ATRIBUTOS cl)
          else do {
            (payload, cl) \<leftarrow> paquete_de OBTENER_ATRIBUTOS (h_longitud h) cl;
            let cl = memcached_library_set lib clave payload (h_longitud h) cl;
            anotar_clave ''Operation: Memcached Set- Key: %s'' clave tras2;
            attrib \<leftarrow> deserializar_respuesta_obtener_atributos payload (unat (h_longitud h));
            Some (0, Some (stat_de attrib), mutex_unlock OBTENER_ATRIBUTOS cl) } }) }"

section \<open>main.c\<close>

record client_config =
  server_ip :: string
  memcached_ip :: string
  server_port :: u16
  memcached_port :: u16
  logger_path :: string

definition load_config :: "string \<Rightarrow> string option \<Rightarrow> client_config option" where
  "load_config p file = do {
     config \<leftarrow> config_create p file;
     sip \<leftarrow> config_get_string_value config ''server_ip'';
     mip \<leftarrow> config_get_string_value config ''memcached_ip'';
     sport \<leftarrow> config_get_int_value config ''server_port'';
     mport \<leftarrow> config_get_int_value config ''memcached_port'';
     lp \<leftarrow> config_get_string_value config ''logger_path'';
     Some \<lparr>server_ip = sip, memcached_ip = mip, server_port = word_of_int sport,
       memcached_port = word_of_int mport, logger_path = lp\<rparr> }"

section \<open>The lines for the log\<close>

lemma anotar_path:
  assumes "length path \<le> 40"
  shows "anotar ''Operation: Create File - Path: %s'' [A_str path] = Some ()" "anotar ''Operation: Open File - Path: %s'' [A_str path] = Some ()"
    "anotar ''Operation: Close File - Path: %s'' [A_str path] = Some ()" "anotar ''Operation: Unlink File - Path: %s'' [A_str path] = Some ()"
    "anotar ''Operation: Create Directory - Path: %s'' [A_str path] = Some ()" "anotar ''Operation: Read Directory - Path: %s'' [A_str path] = Some ()"
    "anotar ''Operation: Delete Directory - Path: %s'' [A_str path] = Some ()" "anotar ''Operation: Get Attributes- Path: %s'' [A_str path] = Some ()"
  using assms by (simp_all add: anotar_def conversion_def)

lemma dec_nat_word: "length (dec_nat (unat (w :: u32))) \<le> 10"
proof -
  have "unat w < 10 ^ 10" using unsigned_less [of w, where ?'a = nat] by simp
  then show ?thesis by (rule dec_nat_bound) simp
qed

lemma anotar_tramo:
  assumes "length path \<le> 40"
  shows "anotar ''Operation: Read File - Path: %s - Size: %u - Offset: %u'' [A_str path, A_uint sz, A_uint offset] = Some ()"
    "anotar ''Operation: Write File - Path: %s - Size: %u - Offset: %u'' [A_str path, A_uint sz, A_uint offset] = Some ()"
    "anotar ''Operation: Truncate File - Path: %s - Size: %u'' [A_str path, A_uint sz] = Some ()"
  using assms dec_nat_word [of sz] dec_nat_word [of offset] by (simp_all add: anotar_def conversion_def)

text \<open>A zero byte soon after the block of the key ends its text in time, with no per cent sign before it.\<close>

definition cierra :: "u8 list \<Rightarrow> bool" where
  "cierra tras \<longleftrightarrow> 0 \<in> set (take 170 tras) \<and> 37 \<notin> set (takeWhile (\<lambda>b. b \<noteq> 0) tras)"

lemma anotar_clave_ok:
  assumes "length path \<le> 40" and "cierra tras"
  shows "anotar_clave ''Operation: Memcached Get - Key: %s'' (memcached_library_key type path) tras = Some ()"
    "anotar_clave ''Operation: Memcached Set- Key: %s'' (memcached_library_key type path) tras = Some ()"
    "anotar_clave ''Operation: Memcached Delete- Key: %s'' (memcached_library_key type path) tras = Some ()"
proof -
  let ?k = "memcached_library_key type path"
  obtain i where i: "i < 170" "i < length tras" "tras ! i = 0" using assms(2) by (auto simp: cierra_def in_set_conv_nth)
  have k: "length ?k \<le> 45" using assms(1) by (simp add: memcached_library_key_def bytes_of_string_def)
  have z: "(?k @ tras) ! (length ?k + i) = 0" "length ?k + i < length (?k @ tras)" using i by (simp_all add: nth_append)
  then have "0 \<in> set (?k @ tras)" by (metis nth_mem)
  then obtain s where s: "c_string (?k @ tras) = Some s" "length s = length (takeWhile (\<lambda>b. b \<noteq> 0) (?k @ tras))"
    by (simp add: c_string_def)
  have "length (takeWhile (\<lambda>b. b \<noteq> 0) (?k @ tras)) \<le> length ?k + i"
  proof (rule ccontr)
    assume "\<not> ?thesis"
    then have j: "length ?k + i < length (takeWhile (\<lambda>b. b \<noteq> 0) (?k @ tras))" by simp
    from takeWhile_nth [OF j] z(1) nth_mem [OF j] have "0 \<in> set (takeWhile (\<lambda>b. b \<noteq> 0) (?k @ tras))" by simp
    then show False by (auto dest: set_takeWhileD)
  qed
  with s(2) i k have "length s \<le> 215" by simp
  then show "anotar_clave ''Operation: Memcached Get - Key: %s'' ?k tras = Some ()" "anotar_clave ''Operation: Memcached Set- Key: %s'' ?k tras = Some ()"
    "anotar_clave ''Operation: Memcached Delete- Key: %s'' ?k tras = Some ()"
    by (simp_all add: anotar_clave_def s(1) anotar_def conversion_def)
qed

section \<open>Listings and the cache\<close>

definition entry_names :: "mem \<Rightarrow> nat list \<Rightarrow> u8 list list" where
  "entry_names fs entries = map (\<lambda>e. e_name fs e (unat (e_name_len fs e))) entries"

lemma listing_packet:
  assumes names: "entry_names fs entries = map bytes_of_string (s # ss)" and ok: "\<forall>t \<in> set (s # ss). name_ok t"
    and small: "length (concat (s # ss)) + 2 * length (s # ss) \<le> 65536"
  shows "\<exists>p. serializar_respuesta_leer_directorio t fs entries = Some (packet t (length p) p) \<and> p \<noteq> [] \<and> length p < 65536 \<and>
    nombres p = Some (s # ss) \<and> nombres (p @ [0]) = Some (s # ss)"
proof -
  let ?ns = "map bytes_of_string (s # ss)" and ?j = "s @ concat (map (\<lambda>t. CHR ''#'' # t) ss)"
  have len: "length entries = length (s # ss)" "entries \<noteq> []"
    using arg_cong [OF names, of length] by (auto simp: entry_names_def)
  have cl: "length (concat ?ns) = length (concat (s # ss))" by (induction ss) simp_all
  define n where "n = length (concat (s # ss)) + 2 * length (s # ss) - 1"
  define m where "m = n - length (join_names ?ns)"
  have jl: "length (join_names ?ns) + 1 = length (concat (s # ss)) + length (s # ss)"
    using length_join_names [of ?ns] cl by simp
  have n: "sum_list (map (\<lambda>n. length n + 1) ?ns) + (length entries - 1) = n"
    unfolding sum_list_Suc_lengths cl len(1) by (simp add: n_def)
  have m: "0 < m" "length (join_names ?ns) + m = n" "n < 65536" "n mod 2 ^ 16 = n"
    using jl small by (simp_all add: n_def m_def)
  define p where "p = join_names ?ns @ replicate m 0"
  have lp: "length p = n" using m(2) by (simp add: p_def)
  have "serializar_respuesta_leer_directorio t fs entries = Some (packet t n p)"
    unfolding serializar_respuesta_leer_directorio_def entry_names_def [symmetric] names Let_def n m(4)
    using len(2) m(2) by (simp add: p_def m_def)
  moreover have "p \<noteq> []" "length p < 65536" using m lp by (auto simp: p_def)
  moreover have "nombres (p @ r) = Some (s # ss)" for r
  proof -
    have "p @ r = nstr ?j @ replicate (m - 1) 0 @ r"
      unfolding p_def join_names_strings nstr_def using m(1) by (cases m) simp_all
    moreover have "CHR 0x00 \<notin> set ?j" using ok by (auto simp: name_ok_def)
    ultimately have "c_string (p @ r) = Some ?j" using c_string_nstr by metis
    then show ?thesis using split_joined [OF ok] by (simp add: nombres_def)
  qed
  from this [of "[]"] this [of "[0]"] have "nombres p = Some (s # ss)" "nombres (p @ [0]) = Some (s # ss)" by simp_all
  ultimately show ?thesis using lp by (intro exI [of _ p]) simp
qed

lemma receive_packet:
  assumes "conexiones cl fd = [packet t (length p) p]" and "p \<noteq> []" and "length p < 65536"
  shows "header_de fd cl = Some (\<lparr>h_tipo = t, h_longitud = of_nat (length p)\<rparr>, cl\<lparr>conexiones := (conexiones cl)(fd := [p])\<rparr>)"
    and "paquete_de fd (of_nat (length p)) (cl\<lparr>conexiones := (conexiones cl)(fd := [p])\<rparr>) =
      Some (p, cl\<lparr>conexiones := (conexiones cl)(fd := [])\<rparr>)"
  using recibir_header_packet [OF assms(3), of t p "[]"] recibir_paquete_chunk [OF assms(3,2), of "[]"] assms(1,2)
  by (simp_all add: header_de_def paquete_de_def)


text \<open>Two bytes read, and the two names of a directory block.\<close>

definition listing_fs :: mem where
  "listing_fs = (\<lambda>x. if x = 6 then 1 else if x = 8 then 46 else if x = 22 then 2 else if x = 24 \<or> x = 25 then 46 else 0)"


text \<open>Names the server lists reach \<open>filler\<close> in order, and again from the cache.\<close>

lemma listing_answered:
  assumes "\<not> mutex cl LEER_DIRECTORIO" and "conexiones cl LEER_DIRECTORIO = []" and "length path < 40"
    and "k = bytes_of_string (''dir-'' @ path)"
    and "memcached_get lib (cache_state cl) k = (None, c)"
    and "\<And>v. \<exists>c'. memcached_get lib (memcached_set lib c k v) k = (Some v, c')"
    and "srv (server_state cl) LEER_DIRECTORIO (serializar_pedido_nombre LEER_DIRECTORIO path) = ([answer], s')"
    and "serializar_respuesta_leer_directorio RESPUESTA_OK fs entries = Some answer"
    and "entry_names fs entries = map bytes_of_string (n # ns)" and "\<forall>m \<in> set (n # ns). name_ok m"
    and "length (concat (n # ns)) + 2 * length (n # ns) \<le> 65536"
  shows "\<exists>cl1 cl2. leer_directorio lib srv path cl = Some (0, n # ns, cl1) \<and> server_state cl1 = s' \<and>
    leer_directorio lib srv2 path cl1 = Some (0, n # ns, cl2) \<and> server_state cl2 = s' \<and>
    \<not> mutex cl1 LEER_DIRECTORIO \<and> \<not> mutex cl2 LEER_DIRECTORIO"
proof -
  obtain p where p: "answer = packet RESPUESTA_OK (length p) p" "p \<noteq> []" "length p < 65536"
    "nombres p = Some (n # ns)" "nombres (p @ [0]) = Some (n # ns)"
    using listing_packet [OF assms(9-11), of RESPUESTA_OK] assms(8) by auto
  obtain c' where c': "memcached_get lib (memcached_set lib c k p) k = (Some p, c')" using assms(6) by blast
  have key: "length (''dir-'' @ path) < MAX_KEY_SIZE" using assms(3) by (simp add: MAX_KEY_SIZE_def)
  have line: "anotar ''Operation: Read Directory - Path: %s'' [A_str path] = Some ()" using assms(3) by (intro anotar_path) simp
  have k: "bytes_of_string (CHR ''d'' # CHR ''i'' # CHR ''r'' # CHR ''-'' # path) = k" using assms(4) by simp
  define cl0 where "cl0 = cl\<lparr>mutex := (mutex cl)(LEER_DIRECTORIO := True), cache_state := c,
    conexiones := (conexiones cl)(LEER_DIRECTORIO := [answer]), server_state := s'\<rparr>"
  have conn: "conexiones cl0 LEER_DIRECTORIO = [packet RESPUESTA_OK (length p) p]" by (simp add: cl0_def p(1))
  note rec = receive_packet [OF conn p(2,3)]
  have ul: "unat (of_nat (length p) :: u16) = length p" using p(3) by (simp only: unat_of_nat_u16 mod_less)
  let ?cl1 = "(cl0\<lparr>conexiones := (conexiones cl0)(LEER_DIRECTORIO := []), cache_state := memcached_set lib c k p\<rparr>)
    \<lparr>mutex := (mutex cl0)(LEER_DIRECTORIO := False)\<rparr>"
  have sent: "enviar_paquete srv LEER_DIRECTORIO (serializar_pedido_nombre LEER_DIRECTORIO path)
      (cl\<lparr>mutex := (mutex cl)(LEER_DIRECTORIO := True), cache_state := c\<rparr>) = cl0"
    using assms(2,7) by (simp add: enviar_paquete_def cl0_def)
  have "leer_directorio lib srv path cl = Some (0, n # ns, ?cl1)"
    using assms(1,5) key line rec sent p(4) ul
    by (simp add: leer_directorio_def mutex_lock_def mutex_unlock_def obtener_valor_de_memcached_def k
        insertar_en_memcached_def tipo_in_def Let_def cl0_def)
  moreover have "leer_directorio lib srv2 path ?cl1 =
      Some (0, n # ns, ?cl1\<lparr>cache_state := c'\<rparr>)"
    using key line c' p(5)
    by (simp add: leer_directorio_def mutex_lock_def mutex_unlock_def obtener_valor_de_memcached_def k
        Let_def cl0_def fun_upd_def)
  ultimately show ?thesis by (intro exI conjI) (assumption | simp add: cl0_def)+
qed

definition cliente :: "(u8 list \<Rightarrow> u8 list option, unit) client" where
  "cliente = \<lparr>conexiones = (\<lambda>_. []), mutex = (\<lambda>_. False), cache_state = (\<lambda>_. None), server_state = ()\<rparr>"

text \<open>
  C40: cached attributes outlive a write, for a path of at most 40 characters (longer ones the server
  refuses and the client's buffers for the log do not hold) without a per cent sign (the log would
  take it for a conversion) and with a zero byte soon after the block of the key on the heap, which
  the client prints without a terminator (\<open>cierra\<close>). Once the attributes of a path are in the cache, writing to
  the file through the same client, whatever the server answers, leaves them there, and the next
  \<open>obtener_atributos\<close> returns the attributes, with the size, from before the write, without asking
  the server.
\<close>

theorem attributes_outlive_writes:
  assumes "memcached_get lib (cache_state cl) (memcached_library_key OBTENER_ATRIBUTOS path) = (Some v, c)"
    and "deserializar_respuesta_obtener_atributos v 4 = Some a" and "\<not> mutex cl OBTENER_ATRIBUTOS"
    and "escribir_archivo srv path buf n offset cl = Some (r, cl1)" and "length path \<le> 40" and "cierra tras"
    and "CHR ''%'' \<notin> set path"
  shows "\<exists>cl2. obtener_atributos lib srv2 tras tras2 path cl1 = Some (0, Some (stat_de a), cl2) \<and>
    st_size (stat_de a) = ra_size a \<and> server_state cl2 = server_state cl1"
proof -
  have "cache_state cl1 = cache_state cl \<and> mutex cl1 OBTENER_ATRIBUTOS = mutex cl OBTENER_ATRIBUTOS"
    using assms(4)
    by (auto simp: escribir_archivo_def mutex_lock_def mutex_unlock_def enviar_paquete_def header_de_def paquete_de_def Let_def
        split: bind_splits if_splits prod.splits)
  then show ?thesis using assms(1-3) anotar_path [OF assms(5)] anotar_clave_ok [OF assms(5,6)]
    by (simp add: obtener_atributos_def mutex_lock_def mutex_unlock_def memcached_library_get_def Let_def stat_de_def)
qed

lemma attributes_outlive_writes_witness:
  "\<exists>cl1 cl2. escribir_archivo (\<lambda>s fd p. ([serializar_respuesta_escribir_archivo RESPUESTA_OK 3], s)) ''/a'' [1, 2, 3] 3 0
      (cliente\<lparr>cache_state := (\<lambda>_. Some (replicate 24 0))\<rparr>) = Some (3, cl1) \<and>
    obtener_atributos map_lib (\<lambda>s fd p. ([], s)) [0] [] ''/a'' cl1 = Some (0, Some (stat_de \<lparr>numero_de_inodo = 0, ra_modo = 0,
      numero_de_hard_links = 0, ra_size = 0, tamano_de_bloque_por_fs = 0, cantidad_de_bloques_de_512b = 0\<rparr>), cl2)"
proof -
  let ?cl = "cliente\<lparr>cache_state := (\<lambda>_. Some (replicate 24 0))\<rparr>"
  let ?srv = "\<lambda>s fd p. ([serializar_respuesta_escribir_archivo RESPUESTA_OK 3], s)"
  let ?a = "\<lparr>numero_de_inodo = 0, ra_modo = 0, numero_de_hard_links = 0, ra_size = 0, tamano_de_bloque_por_fs = 0,
    cantidad_de_bloques_de_512b = 0\<rparr>"
  let ?clw = "?cl\<lparr>mutex := (\<lambda>_. False)(ESCRIBIR_ARCHIVO := True), conexiones := (\<lambda>_. [])(ESCRIBIR_ARCHIVO := [packet RESPUESTA_OK (length (w32 3)) (w32 3)])\<rparr>"
  obtain bs where bs: "serializar_pedido_escribir_archivo ''/a'' [1, 2, 3] 3 0 = Some bs"
    by (simp add: serializar_pedido_escribir_archivo_def)
  have "conexiones ?clw ESCRIBIR_ARCHIVO = [packet RESPUESTA_OK (length (w32 3)) (w32 3)]" by simp
  note rec = receive_packet [OF this]
  have "deserializar_respuesta_escribir_archivo (w32 3) 4 = Some 3" by code_simp
  then have "\<exists>cl1. escribir_archivo ?srv ''/a'' [1, 2, 3] 3 0 ?cl = Some (3, cl1)"
    using rec bs anotar_tramo [of "''/a''"] by (simp add: escribir_archivo_def mutex_lock_def enviar_paquete_def serializar_respuesta_escribir_archivo_def
        cliente_def tipo_in_def Let_def)
  then obtain cl1 where w: "escribir_archivo ?srv ''/a'' [1, 2, 3] 3 0 ?cl = Some (3, cl1)" ..
  have g: "memcached_get map_lib (cache_state ?cl) (memcached_library_key OBTENER_ATRIBUTOS ''/a'') =
      (Some (replicate 24 0), \<lambda>_. Some (replicate 24 0))" by (simp add: map_lib_def)
  have d: "deserializar_respuesta_obtener_atributos (replicate 24 0) 4 = Some ?a" by code_simp
  have m: "\<not> mutex ?cl OBTENER_ATRIBUTOS" by (simp add: cliente_def)
  have "length ''/a'' \<le> 40" "cierra [0]" "CHR ''%'' \<notin> set ''/a''" by (simp_all add: cierra_def)
  from attributes_outlive_writes [OF g d m w this, of "\<lambda>s fd p. ([], s)" "[]"] w show ?thesis by blast
qed

end
