(* ===== verification/Arranque.thy ===== *)
theory Arranque
  imports Registro Socketes Servidor Fsc
begin

text \<open>
  Starting the programs: \<^verbatim>\<open>rfs/source_RFS/manage_fs.c\<close>, the part of \<^verbatim>\<open>rfs/main.c\<close> before its loop, and the
  connections that \<^verbatim>\<open>fsc/main.c\<close> opens. What the operating system answers is a parameter;
  the lines of the log are left out, but not that \<open>log_debug\<close> dereferences the logger.
\<close>

section \<open>The server\<close>

record sistema_operativo =
  os_config :: "string option"
  os_log :: "string \<Rightarrow> string option"
  os_open :: i32
  os_st_size :: u32
  os_mmap :: "i32 \<Rightarrow> u32 \<Rightarrow> mem option"
  os_getpid :: int
  os_socket :: t_sockete
  os_setsockopt :: i32
  os_bind :: i32
  os_listen :: i32

text \<open>\<open>Inl\<close> is \<open>exit\<close> with a status; the result has the mapped file and \<open>FS_SIZE\<close>. A file that cannot
  be opened is only reported.\<close>

definition Map_FS :: "sistema_operativo \<Rightarrow> int + mem \<times> u32" where
  "Map_FS os =
     (let fs = os_open os; FS_SIZE = os_st_size os
      in case os_mmap os fs FS_SIZE of
           None \<Rightarrow> Inl 1
         | Some mapped_fs \<Rightarrow> Inr (mapped_fs, FS_SIZE))"

definition Unmap_FS :: "i32 \<Rightarrow> i32" where
  "Unmap_FS munmap = (if munmap \<noteq> - 1 then 0 else - 1)"

record 'c arrancado =
  a_sistema :: "'c sistema"
  a_read_fds :: "pollfd list"
  a_log :: t_log
  a_abiertos :: "t_sockete set"

text \<open>
  The array of thread identifiers has a variable length, which must be positive. The results of
  \<open>sockete_bindear_servidor\<close> and \<open>sockete_escuchar\<close> are not looked at; \<open>read_fds0\<close> is what the memory of the
  array has. The first line for the log, after the first worker is created, reads the level of the
  logger, which is \<open>NULL\<close> when the log file could not be opened.
\<close>

definition arrancar ::
  "sistema_operativo \<Rightarrow> 'c \<Rightarrow> u32 list \<Rightarrow> Superblock_constants \<Rightarrow> pollfd list \<Rightarrow> (int + 'c arrancado) option" where
  "arrancar os memc0 heap0 sc0 read_fds0 = do {
     config \<leftarrow> config_create ''./config.ini'' (os_config os);
     fs_path \<leftarrow> config_get_string_value config ''FS_PATH'';
     ip \<leftarrow> config_get_string_value config ''SERVER_IP'';
     port \<leftarrow> config_get_int_value config ''SERVER_PORT'';
     cache_ip \<leftarrow> config_get_string_value config ''CACHE_IP'';
     cache_port \<leftarrow> config_get_int_value config ''CACHE_PORT'';
     Nthreads \<leftarrow> config_get_int_value config ''WORKERS'';
     sleep_value \<leftarrow> config_get_int_value config ''SLEEP_VALUE'';
     (case Map_FS os of
        Inl status \<Rightarrow> Some (Inl status)
      | Inr (fs, FS_SIZE) \<Rightarrow> do {
          let s_file = s_Mapped_File_init fs memc0 heap0 (False, sc0);
          let server_log = log_create (os_log os) (os_getpid os) (Some ''./server_log.txt'') ''Yanero_Server'' True LOG_LEVEL_DEBUG;
          let s_file = s_file\<lparr>fs_sleep := set_counter (fs_sleep s_file) (word_of_int sleep_value)\<rparr>;
          _ \<leftarrow> (if 0 < Nthreads then Some () else None);
          server_log \<leftarrow> server_log;
          let (server, abiertos) = sockete_bindear_servidor (os_socket os) (os_setsockopt os) (os_bind os) {};
          let escucha = sockete_escuchar (os_listen os);
          read_fds \<leftarrow> inicializar_vector read_fds0 BACKLOG;
          Some (Inr \<lparr>a_sistema = inicial (nat Nthreads) s_file, a_read_fds = read_fds[0 := (read_fds ! 0)\<lparr>fd := sint server\<rparr>],
            a_log = server_log, a_abiertos = abiertos\<rparr>) }) }"

section \<open>The client\<close>

text \<open>What happens to one connection: the results of \<open>socket\<close>, \<open>connect\<close> and \<open>shutdown\<close>, and what arrives on it.\<close>

record intento =
  i_socket :: t_sockete
  i_connect :: i32
  i_llega :: "u8 list list"
  i_shutdown :: i32

definition BACKLOG_FSC :: nat where
  "BACKLOG_FSC = 11"

text \<open>The client's version ends the connection with \<open>shutdown\<close>; the descriptor stays open.\<close>

definition sockete_cerrar_fsc :: "i32 \<Rightarrow> i32" where
  "sockete_cerrar_fsc shutdown = (if shutdown = - 1 then SOCKETEERROR else SOCKETEOK)"

text \<open>
  One turn of the loop over the connections: the descriptor, whether it has a connection that
  has not been ended, and the open descriptors. On the descriptor \<open>-1\<close> nothing is sent and \<open>recv\<close>
  fails, which the handshake does not report.
\<close>

definition conectar_uno :: "intento \<Rightarrow> t_sockete set \<Rightarrow> ((t_sockete \<times> bool) \<times> t_sockete set) option" where
  "conectar_uno x abiertos = do {
     let (fd, abiertos) = sockete_conectar_cliente (i_socket x) (i_connect x) abiertos;
     (h, _) \<leftarrow> cliente_recibir_handshake (if fd = - 1 then [] else i_llega x);
     Some ((fd, fd \<noteq> - 1 \<and> \<not> (h = HANDSHAKE_FAIL \<and> sockete_cerrar_fsc (i_shutdown x) = SOCKETEOK)), abiertos) }"

fun conectar_todos :: "intento list \<Rightarrow> t_sockete set \<Rightarrow> ((t_sockete \<times> bool) list \<times> t_sockete set) option" where
  "conectar_todos [] abiertos = Some ([], abiertos)"
| "conectar_todos (x # xs) abiertos = do {
     (fd, abiertos) \<leftarrow> conectar_uno x abiertos;
     (fds, abiertos) \<leftarrow> conectar_todos xs abiertos;
     Some (fd # fds, abiertos) }"

section \<open>Numbers in configuration files\<close>

lemma digit_char: "n < 10 \<Longrightarrow> digit (char_of (48 + n)) \<and> (of_char (char_of (48 + n) :: char) :: nat) = 48 + n"
  by (simp add: digit_def)

lemma dec_nat_digits: "dec_nat n \<noteq> [] \<and> (\<forall>c \<in> set (dec_nat n). digit c)"
proof (induction n rule: dec_nat.induct)
  case (1 n)
  then show ?case by (cases "n < 10") (auto simp: dec_nat.simps [of n] digit_char)
qed

lemma of_char_digit: "m < 10 \<Longrightarrow> (of_char (char_of (48 + m) :: char) :: int) = 48 + int m"
  using conjunct2 [OF digit_char, of m] by (metis of_nat_of_char of_nat_add of_nat_numeral)

lemma dec_nat_value: "foldl (\<lambda>v c. 10 * v + ((of_char c :: int) - 48)) 0 (dec_nat n) = int n"
proof (induction n rule: dec_nat.induct)
  case (1 n)
  have "10 * int (n div 10) + int (n mod 10) = int n" by (metis mult_div_mod_eq of_nat_add of_nat_mult of_nat_numeral)
  with 1 show ?case by (cases "n < 10") (simp_all add: dec_nat.simps [of n] of_char_digit)
qed

lemma atoi_dec_nat: "atoi (dec_nat m) = int m"
proof -
  obtain c t where d: "dec_nat m = c # t" "digit c" using dec_nat_digits [of m] by (cases "dec_nat m") auto
  have "takeWhile digit (dec_nat m) = dec_nat m" using dec_nat_digits by (simp add: takeWhile_eq_all_conv)
  then have "digits_value (c # t) = int m" using dec_nat_value [of m] by (simp add: digits_value_def d(1))
  moreover have "\<not> isspace c" "c \<noteq> CHR ''-''" "c \<noteq> CHR ''+''" using d(2) by (auto simp: digit_def isspace_def)
  ultimately show ?thesis by (simp add: atoi_def d(1))
qed

lemma atoi_decimal: "atoi (decimal n) = n"
proof (cases "n < 0")
  case True
  have t: "takeWhile digit (dec_nat (nat (- n))) = dec_nat (nat (- n))" using dec_nat_digits by (simp add: takeWhile_eq_all_conv)
  have "digits_value (dec_nat (nat (- n))) = - n" unfolding digits_value_def t dec_nat_value using True by simp
  then show ?thesis using True by (simp add: atoi_def decimal_def isspace_def)
qed (simp add: decimal_def atoi_dec_nat)

section \<open>What the server starts from\<close>

text \<open>The keys of the configuration file, and a file that sets them.\<close>

definition config_servidor :: "string \<Rightarrow> string \<Rightarrow> int \<Rightarrow> string \<Rightarrow> int \<Rightarrow> int \<Rightarrow> int \<Rightarrow> (string \<times> string) list" where
  "config_servidor fs_path ip port cache_ip cache_port workers sleep_value =
     [(''FS_PATH'', fs_path), (''SERVER_IP'', ip), (''SERVER_PORT'', decimal port), (''CACHE_IP'', cache_ip),
      (''CACHE_PORT'', decimal cache_port), (''WORKERS'', decimal workers), (''SLEEP_VALUE'', decimal sleep_value)]"

definition valor_ok :: "string \<Rightarrow> bool" where
  "valor_ok v \<longleftrightarrow> v \<noteq> [] \<and> CHR ''='' \<notin> set v \<and> CHR 10 \<notin> set v"

lemma decimal_ok: "valor_ok (decimal n)"
proof -
  have "digit c \<Longrightarrow> c \<noteq> CHR ''='' \<and> c \<noteq> CHR 10" for c by (auto simp: digit_def)
  then show ?thesis using dec_nat_digits by (auto simp: valor_ok_def decimal_def)
qed

lemma server_keys: "distinct (map dictionary_hash [''FS_PATH'', ''SERVER_IP'', ''SERVER_PORT'', ''CACHE_IP'', ''CACHE_PORT'', ''WORKERS'', ''SLEEP_VALUE''])"
  by code_simp

lemma config_servidor_read:
  assumes "valor_ok fs_path" "valor_ok ip" "valor_ok cache_ip"
    and kvs: "kvs = config_servidor fs_path ip port cache_ip cache_port workers sleep_value"
  shows "\<exists>c. config_create p (Some (concat (map config_line kvs))) = Some c \<and> config_get_string_value c ''FS_PATH'' = Some fs_path \<and>
    config_get_string_value c ''SERVER_IP'' = Some ip \<and> config_get_int_value c ''SERVER_PORT'' = Some port \<and>
    config_get_string_value c ''CACHE_IP'' = Some cache_ip \<and> config_get_int_value c ''CACHE_PORT'' = Some cache_port \<and>
    config_get_int_value c ''WORKERS'' = Some workers \<and> config_get_int_value c ''SLEEP_VALUE'' = Some sleep_value"
proof -
  have "config_entry_ok (k, v)" if "valor_ok v" "k \<in> {''FS_PATH'', ''SERVER_IP'', ''SERVER_PORT'', ''CACHE_IP'', ''CACHE_PORT'', ''WORKERS'', ''SLEEP_VALUE''}" for k v
    using that by (auto simp: config_line_simps valor_ok_def)
  then have ok: "\<forall>kv \<in> set kvs. config_entry_ok kv" using assms(1-3) decimal_ok by (simp add: kvs config_servidor_def)
  have "distinct (map (dictionary_hash \<circ> fst) kvs)" using server_keys by (simp add: kvs config_servidor_def)
  from config_reading [OF ok this, of p] obtain c where c: "config_create p (Some (concat (map config_line kvs))) = Some c"
    "\<forall>(k, v) \<in> set kvs. config_get_string_value c k = Some v" by blast
  from c(2) show ?thesis
    by (intro exI [of _ c] conjI c(1)) (simp_all add: kvs config_servidor_def config_get_int_value_def atoi_decimal)
qed

lemma bindear_fd: "fst (sockete_bindear_servidor s opt b abiertos) = (if s = - 1 \<or> opt = - 1 \<or> b = - 1 then - 1 else s)"
  by (simp add: sockete_bindear_servidor_def SOCKETEERROR_def Let_def)

lemma arrancar_steps:
  assumes "valor_ok fs_path" "valor_ok ip" "valor_ok cache_ip" and "0 < workers" and "length read_fds0 = BACKLOG + 1"
    and "os_config os = Some (concat (map config_line (config_servidor fs_path ip port cache_ip cache_port workers sleep_value)))"
  shows "arrancar os memc0 heap0 sc0 read_fds0 = (case os_mmap os (os_open os) (os_st_size os) of
      None \<Rightarrow> Some (Inl 1)
    | Some fs \<Rightarrow> Option.bind (log_create (os_log os) (os_getpid os) (Some ''./server_log.txt'') ''Yanero_Server'' True LOG_LEVEL_DEBUG) (\<lambda>server_log.
        let st = s_Mapped_File_init fs memc0 heap0 (False, sc0);
            (server, abiertos) = sockete_bindear_servidor (os_socket os) (os_setsockopt os) (os_bind os) {}
        in Some (Inr \<lparr>a_sistema = inicial (nat workers) (st\<lparr>fs_sleep := set_counter (fs_sleep st) (word_of_int sleep_value)\<rparr>),
             a_read_fds = \<lparr>fd = sint server, events = POLLIN, revents = 0\<rparr> #
               replicate (BACKLOG - 1) \<lparr>fd = 0, events = POLLIN, revents = 0\<rparr> @ drop BACKLOG read_fds0,
             a_log = server_log, a_abiertos = abiertos\<rparr>)))"
proof -
  from config_servidor_read [OF assms(1-3) refl, of "''./config.ini''" port cache_port workers sleep_value] obtain c where
    "config_create ''./config.ini'' (os_config os) = Some c" "config_get_string_value c ''FS_PATH'' = Some fs_path"
    "config_get_string_value c ''SERVER_IP'' = Some ip" "config_get_int_value c ''SERVER_PORT'' = Some port"
    "config_get_string_value c ''CACHE_IP'' = Some cache_ip" "config_get_int_value c ''CACHE_PORT'' = Some cache_port"
    "config_get_int_value c ''WORKERS'' = Some workers" "config_get_int_value c ''SLEEP_VALUE'' = Some sleep_value"
    unfolding assms(6) by blast
  moreover have "replicate BACKLOG e = e # replicate (BACKLOG - 1) e" for e :: pollfd
  proof -
    have "BACKLOG = Suc (BACKLOG - 1)" by (simp add: BACKLOG_def)
    then show ?thesis by (metis replicate_Suc)
  qed
  then have "inicializar_vector read_fds0 BACKLOG = Some (\<lparr>fd = 0, events = POLLIN, revents = 0\<rparr> #
      replicate (BACKLOG - 1) \<lparr>fd = 0, events = POLLIN, revents = 0\<rparr> @ drop BACKLOG read_fds0)"
    using assms(5) by (simp add: inicializar_vector_def)
  ultimately show ?thesis
    using assms(4) by (simp add: arrancar_def Map_FS_def Let_def split: option.split prod.split)
qed

section \<open>Properties\<close>

text \<open>
  C24: starting the server. With a configuration file that sets the seven keys, in any notation
  without the separators, an image that can be mapped and a log file that can be opened, the server starts with as many workers
  waiting as the file says, an empty queue, the image and its superblock constants in place, the
  delay of the file and nobody connected: the state from which tasks are served in order. The
  listening socket is in the first slot, and that is all that depends on it: when it cannot be
  bound the slot holds -1 and the server polls a table in which nothing listens. An image that
  cannot be mapped ends the program with status 1. With an image but without a log file the program
  dereferences \<open>NULL\<close> when it writes its first line.
\<close>

theorem server_starts:
  assumes "valor_ok fs_path" "valor_ok ip" "valor_ok cache_ip" and "0 < workers" and "length read_fds0 = BACKLOG + 1"
    and "os_config os = Some (concat (map config_line (config_servidor fs_path ip port cache_ip cache_port workers sleep_value)))"
  shows "case (os_mmap os (os_open os) (os_st_size os), os_log os ''./server_log.txt'') of
      (None, _) \<Rightarrow> arrancar os memc0 heap0 sc0 read_fds0 = Some (Inl 1)
    | (Some fs, None) \<Rightarrow> arrancar os memc0 heap0 sc0 read_fds0 = None
    | (Some fs, Some old) \<Rightarrow>
        \<exists>a. arrancar os memc0 heap0 sc0 read_fds0 = Some (Inr a) \<and> sistema_ok (a_sistema a) \<and>
          hilos (a_sistema a) = replicate (nat workers) En_espera \<and> queue_contents (squeue (cola (a_sistema a))) = [] \<and>
          fs_file (servidor (a_sistema a)) = fs \<and> super_set (servidor (a_sistema a)) \<and>
          Super_constants (servidor (a_sistema a)) = snd (snd (SuperBlock_read fs (False, sc0))) \<and>
          read_counter (fs_sleep (servidor (a_sistema a))) = word_of_int sleep_value \<and>
          active_file_list (servidor (a_sistema a)) = active_file_list_create \<and>
          fd (a_read_fds a ! 0) = (if os_setsockopt os = - 1 \<or> os_bind os = - 1 then - 1 else sint (os_socket os)) \<and>
          (\<forall>i. 0 < i \<and> i < BACKLOG \<longrightarrow> fd (a_read_fds a ! i) = 0 \<and> events (a_read_fds a ! i) = POLLIN) \<and>
          log_file (a_log a) = Some old \<and> detail (a_log a) = LOG_LEVEL_DEBUG"
proof (cases "os_mmap os (os_open os) (os_st_size os)")
  case None
  then show ?thesis using arrancar_steps [OF assms] by simp
next
  case (Some fs)
  let ?st = "s_Mapped_File_init fs memc0 heap0 (False, sc0)"
  obtain server abiertos where b: "sockete_bindear_servidor (os_socket os) (os_setsockopt os) (os_bind os) {} = (server, abiertos)" by fastforce
  then have "server = (if os_setsockopt os = - 1 \<or> os_bind os = - 1 then - 1 else os_socket os)"
    using bindear_fd [of "os_socket os" "os_setsockopt os" "os_bind os" "{}"] by simp
  then have "sint server = (if os_setsockopt os = - 1 \<or> os_bind os = - 1 then - 1 else sint (os_socket os))" by simp
  moreover have "fs_file ?st = fs" "super_set ?st" "Super_constants ?st = snd (snd (SuperBlock_read fs (False, sc0)))"
    "active_file_list ?st = active_file_list_create"
    by (simp_all add: s_Mapped_File_init_def Let_def case_prod_beta SuperBlock_read_def)
  moreover have "queue_contents (squeue (cola (inicial n st))) = []" for n and st :: "'a server"
    using q.create_ok by (simp add: inicial_def s_queue_create_def)
  moreover have "(a # replicate (BACKLOG - 1) e @ rest) ! i = e" if "0 < i" "i < BACKLOG" for i and a e :: pollfd and rest
    using that by (simp add: nth_Cons' nth_append)
  moreover note Some b arrancar_steps [OF assms, of memc0 heap0 sc0]
  ultimately show ?thesis
    by (cases "os_log os ''./server_log.txt''")
      (simp_all add: Let_def inicial_ok set_counter_def read_counter_def log_create_def, simp add: inicial_def)
qed

definition os_demo :: sistema_operativo where
  "os_demo = \<lparr>os_config = Some (concat (map config_line (config_servidor ''disk.img'' ''127.0.0.1'' 3087 ''127.0.0.1'' 11212 2 5))),
     os_log = (\<lambda>_. Some ''''), os_open = 3, os_st_size = 3456, os_mmap = (\<lambda>_ _. Some demo_fs), os_getpid = 7,
     os_socket = 4, os_setsockopt = 0, os_bind = - 1, os_listen = - 1\<rparr>"

lemma server_starts_witness:
  "\<exists>a. arrancar os_demo () [0] demo_sc (replicate 101 \<lparr>fd = 9, events = 0, revents = 0\<rparr>) = Some (Inr a) \<and>
    hilos (a_sistema a) = [En_espera, En_espera] \<and> fs_file (servidor (a_sistema a)) = demo_fs \<and> fd (a_read_fds a ! 0) = - 1 \<and>
    log_file (a_log a) = Some ''''"
proof -
  have v: "valor_ok ''disk.img''" "valor_ok ''127.0.0.1''" by (simp_all add: valor_ok_def)
  have l: "os_log os_demo ''./server_log.txt'' = Some ''''" by (simp add: os_demo_def)
  have c: "os_config os_demo = Some (concat (map config_line (config_servidor ''disk.img'' ''127.0.0.1'' 3087 ''127.0.0.1'' 11212 2 5)))"
    and m: "os_mmap os_demo (os_open os_demo) (os_st_size os_demo) = Some demo_fs" "os_setsockopt os_demo = 0" "os_bind os_demo = - 1"
    by (simp_all add: os_demo_def)
  have "0 < (2 :: int)" "length (replicate 101 \<lparr>fd = 9, events = 0, revents = 0\<rparr>) = BACKLOG + 1" by (simp_all add: BACKLOG_def)
  from server_starts [OF v(1,2,2) this c, of "()" "[0]" demo_sc] show ?thesis
    unfolding m l option.case prod.case by (elim exE conjE) (rule exI, intro conjI, assumption, simp_all add: numeral_2_eq_2)
qed

section \<open>The connections of the client\<close>

lemma handshake_arrives: "cliente_recibir_handshake [serializar_handshake h] = Some (h, [])" "cliente_recibir_handshake [] = Some (0, [])"
  by (simp_all add: cliente_recibir_handshake_def serializar_handshake_def packet_def sockete_recibir_def received_def
      deserializar_handshake_def recibir_loop_done Let_def numeral_3_eq_3)

lemma handshake_answered: "server_responder_handshake [cliente_iniciar_handshake] = Some (HANDSHAKE_OK, serializar_handshake HANDSHAKE_OK, [])"
  by (simp add: server_responder_handshake_def cliente_iniciar_handshake_def serializar_handshake_def packet_def sockete_recibir_def
      received_def deserializar_handshake_def recibir_loop_done Let_def numeral_3_eq_3)

definition fallido :: "intento \<Rightarrow> bool" where
  "fallido x \<longleftrightarrow> i_socket x = - 1 \<or> i_connect x = - 1"

lemma conectar_uno_ok:
  assumes "i_llega x = [serializar_handshake h]"
  shows "conectar_uno x ab = Some (if fallido x then (- 1, False) else (i_socket x, h \<noteq> HANDSHAKE_FAIL \<or> i_shutdown x = - 1), abrir (i_socket x) ab)"
  using assms
  by (cases "fallido x") (auto simp: conectar_uno_def sockete_conectar_cliente_def SOCKETEERROR_def SOCKETEOK_def fallido_def handshake_arrives
      abrir_def sockete_cerrar_fsc_def Let_def)

text \<open>
  The client keeps in its table a descriptor for every connection it tried: \<open>-1\<close> for the ones that
  failed, and one without a connection where the handshake was refused; the others are connected.
  The descriptors of failed attempts stay open.
\<close>

theorem client_connections:
  assumes "\<forall>x \<in> set xs. i_llega x = [serializar_handshake (h x)]"
  shows "conectar_todos xs ab =
    Some (map (\<lambda>x. if fallido x then (- 1, False) else (i_socket x, h x \<noteq> HANDSHAKE_FAIL \<or> i_shutdown x = - 1)) xs,
      ab \<union> (i_socket ` set xs - {- 1}))"
  using assms
proof (induction xs arbitrary: ab)
  case (Cons x xs)
  then have "conectar_uno x ab = Some (if fallido x then (- 1, False) else (i_socket x, h x \<noteq> HANDSHAKE_FAIL \<or> i_shutdown x = - 1), abrir (i_socket x) ab)"
    by (intro conectar_uno_ok) simp
  moreover have "abrir (i_socket x) ab \<union> (i_socket ` set xs - {- 1}) = ab \<union> (i_socket ` set (x # xs) - {- 1})" by (auto simp: abrir_def)
  ultimately show ?case using Cons by simp
qed simp

end
