(* ===== verification/Destruccion.thy ===== *)
theory Destruccion
  imports Arranque Rc_Engine
begin

text \<open>
  Letting go of memory and locks: the destructors of the libraries, the server, the client and the
  engine. The other theories treat a structure with one owner as a value; here a structure is the
  addresses of the blocks \<open>malloc\<close> returned for it. Freeing a block that is not allocated, and
  destroying a lock that is not initialised or that is held, are undefined (\<open>None\<close>). The locale
  \<open>destructor\<close> states that a destructor frees exactly the blocks of its argument, and derives it for
  all elements of a list.
\<close>

section \<open>Memory\<close>

text \<open>The blocks that are allocated, and the locks in them by block and place: initialised, and whether held.\<close>

record memoria =
  vivos :: "nat set"
  cerrojos :: "nat \<times> nat \<Rightarrow> bool option"

definition liberar :: "nat \<Rightarrow> memoria \<Rightarrow> memoria option" where
  "liberar p m = (if p \<in> vivos m then Some (m\<lparr>vivos := vivos m - {p}\<rparr>) else None)"

text \<open>\<open>free(NULL)\<close> does nothing.\<close>

definition liberar_ptr :: "nat option \<Rightarrow> memoria \<Rightarrow> memoria option" where
  "liberar_ptr p m = (case p of None \<Rightarrow> Some m | Some q \<Rightarrow> liberar q m)"

definition cerrojo_destruir :: "nat \<times> nat \<Rightarrow> memoria \<Rightarrow> memoria option" where
  "cerrojo_destruir l m = (if fst l \<in> vivos m \<and> cerrojos m l = Some False then Some (m\<lparr>cerrojos := (cerrojos m)(l := None)\<rparr>) else None)"

definition cerrojo_tomar :: "nat \<times> nat \<Rightarrow> memoria \<Rightarrow> memoria option" where
  "cerrojo_tomar l m = (if fst l \<in> vivos m \<and> cerrojos m l = Some False then Some (m\<lparr>cerrojos := (cerrojos m)(l := Some True)\<rparr>) else None)"

definition cerrojo_soltar :: "nat \<times> nat \<Rightarrow> memoria \<Rightarrow> memoria option" where
  "cerrojo_soltar l m = (if fst l \<in> vivos m \<and> cerrojos m l = Some True then Some (m\<lparr>cerrojos := (cerrojos m)(l := Some False)\<rparr>) else None)"

fun secuencia :: "(memoria \<Rightarrow> memoria option) list \<Rightarrow> memoria \<Rightarrow> memoria option" where
  "secuencia [] m = Some m"
| "secuencia (f # fs) m = Option.bind (f m) (secuencia fs)"

section \<open>commons/collections/list.c, queue.c and bitarray.c\<close>

text \<open>A list is its block and its nodes, each with what it points to.\<close>

record 'a lista_m =
  lista_dir :: nat
  lista_nodos :: "(nat \<times> 'a) list"

definition list_clean_m :: "'a lista_m \<Rightarrow> memoria \<Rightarrow> memoria option" where
  "list_clean_m self = secuencia (map (\<lambda>(n, _). liberar n) (lista_nodos self))"

definition list_iterate_m :: "'a lista_m \<Rightarrow> ('a \<Rightarrow> memoria \<Rightarrow> memoria option) \<Rightarrow> memoria \<Rightarrow> memoria option" where
  \<comment> \<open>The node is read again after the call, for its successor.\<close>
  "list_iterate_m self closure = secuencia (map (\<lambda>(n, x) m. do {
     m \<leftarrow> (if n \<in> vivos m then closure x m else None);
     (if n \<in> vivos m then Some m else None) }) (lista_nodos self))"

definition list_clean_and_destroy_elements ::
  "'a lista_m \<Rightarrow> ('a \<Rightarrow> memoria \<Rightarrow> memoria option) \<Rightarrow> memoria \<Rightarrow> memoria option" where
  "list_clean_and_destroy_elements self element_destroyer m = do {
     m \<leftarrow> list_iterate_m self element_destroyer m;
     list_clean_m self m }"

definition list_destroy :: "'a lista_m \<Rightarrow> memoria \<Rightarrow> memoria option" where
  "list_destroy self m = do {
     m \<leftarrow> list_clean_m self m;
     liberar (lista_dir self) m }"

definition list_destroy_and_destroy_elements ::
  "'a lista_m \<Rightarrow> ('a \<Rightarrow> memoria \<Rightarrow> memoria option) \<Rightarrow> memoria \<Rightarrow> memoria option" where
  "list_destroy_and_destroy_elements self element_destroyer m = do {
     m \<leftarrow> list_clean_and_destroy_elements self element_destroyer m;
     liberar (lista_dir self) m }"

text \<open>The three that destroy the element they take out; without one they pass \<open>NULL\<close> to the destroyer.\<close>

definition list_replace_and_destroy_element ::
  "'a t_list \<Rightarrow> int \<Rightarrow> 'a \<Rightarrow> ('a option \<Rightarrow> 's \<Rightarrow> 's option) \<Rightarrow> 's \<Rightarrow> ('a t_list \<times> 's) option" where
  "list_replace_and_destroy_element self i x element_destroyer s =
     (let (old_data, self) = list_replace self i x in map_option (Pair self) (element_destroyer old_data s))"

definition list_remove_and_destroy_element ::
  "'a t_list \<Rightarrow> int \<Rightarrow> ('a option \<Rightarrow> 's \<Rightarrow> 's option) \<Rightarrow> 's \<Rightarrow> ('a t_list \<times> 's) option" where
  "list_remove_and_destroy_element self i element_destroyer s = do {
     (x, self) \<leftarrow> list_remove self i;
     s \<leftarrow> element_destroyer x s;
     Some (self, s) }"

definition list_remove_and_destroy_by_condition ::
  "'a t_list \<Rightarrow> ('a \<Rightarrow> bool) \<Rightarrow> ('a option \<Rightarrow> 's \<Rightarrow> 's option) \<Rightarrow> 's \<Rightarrow> ('a t_list \<times> 's) option" where
  "list_remove_and_destroy_by_condition self condition element_destroyer s = do {
     (x, self) \<leftarrow> list_remove_by_condition self condition;
     s \<leftarrow> element_destroyer x s;
     Some (self, s) }"

record 'a cola_m =
  cola_dir :: nat
  cola_lista :: "'a lista_m"

definition queue_clean_and_destroy_elements ::
  "'a cola_m \<Rightarrow> ('a \<Rightarrow> memoria \<Rightarrow> memoria option) \<Rightarrow> memoria \<Rightarrow> memoria option" where
  "queue_clean_and_destroy_elements self element_destroyer = list_clean_and_destroy_elements (cola_lista self) element_destroyer"

definition queue_destroy :: "'a cola_m \<Rightarrow> memoria \<Rightarrow> memoria option" where
  "queue_destroy self m = do {
     m \<leftarrow> list_destroy (cola_lista self) m;
     liberar (cola_dir self) m }"

definition queue_destroy_and_destroy_elements ::
  "'a cola_m \<Rightarrow> ('a \<Rightarrow> memoria \<Rightarrow> memoria option) \<Rightarrow> memoria \<Rightarrow> memoria option" where
  "queue_destroy_and_destroy_elements self element_destroyer m = do {
     m \<leftarrow> list_destroy_and_destroy_elements (cola_lista self) element_destroyer m;
     liberar (cola_dir self) m }"

definition bitarray_destroy :: "nat \<Rightarrow> memoria \<Rightarrow> memoria option" where
  "bitarray_destroy self = liberar self"

section \<open>commons/collections/dictionary.c and config.c\<close>

record 'd elemento_m =
  elemento_dir :: nat
  elemento_key :: nat
  elemento_data :: 'd

record 'd diccionario_m =
  dict_dir :: nat
  dict_elements :: nat
  dict_buckets :: "'d elemento_m list list"
  data_destroyer :: "('d \<Rightarrow> memoria \<Rightarrow> memoria option) option"

definition dictionary_destroy_element :: "'d diccionario_m \<Rightarrow> 'd elemento_m \<Rightarrow> memoria \<Rightarrow> memoria option" where
  "dictionary_destroy_element self element m = do {
     m \<leftarrow> (case data_destroyer self of None \<Rightarrow> Some m | Some f \<Rightarrow> f (elemento_data element) m);
     m \<leftarrow> liberar (elemento_key element) m;
     liberar (elemento_dir element) m }"

definition dictionary_clean_m :: "'d diccionario_m \<Rightarrow> memoria \<Rightarrow> memoria option" where
  "dictionary_clean_m self = secuencia (map (dictionary_destroy_element self) (concat (dict_buckets self)))"

definition dictionary_destroy :: "'d diccionario_m \<Rightarrow> memoria \<Rightarrow> memoria option" where
  "dictionary_destroy self m = do {
     m \<leftarrow> dictionary_clean_m self m;
     m \<leftarrow> liberar (dict_elements self) m;
     liberar (dict_dir self) m }"

record config_m =
  config_dir :: nat
  config_path :: nat
  config_properties :: "nat diccionario_m"

definition config_destroy :: "config_m \<Rightarrow> memoria \<Rightarrow> memoria option" where
  "config_destroy config m = do {
     m \<leftarrow> dictionary_destroy (config_properties config) m;
     m \<leftarrow> liberar (config_path config) m;
     liberar (config_dir config) m }"

section \<open>server_threading.c\<close>

definition destroy_counter :: "nat \<Rightarrow> memoria \<Rightarrow> memoria option" where
  "destroy_counter wcounter m = do {
     m \<leftarrow> cerrojo_destruir (wcounter, 0) m;
     liberar wcounter m }"

record active_file_m =
  active_dir :: nat
  active_path :: nat

definition active_file_destroy :: "active_file_m \<Rightarrow> memoria \<Rightarrow> memoria option" where
  "active_file_destroy a_file m = do {
     m \<leftarrow> liberar (active_path a_file) m;
     m \<leftarrow> cerrojo_destruir (active_dir a_file, 0) m;
     liberar (active_dir a_file) m }"

record active_list_m =
  active_list_dir :: nat
  active_list_files :: "active_file_m lista_m"

definition active_file_list_destroy :: "active_list_m \<Rightarrow> memoria \<Rightarrow> memoria option" where
  "active_file_list_destroy a_f_l m = do {
     m \<leftarrow> cerrojo_tomar (active_list_dir a_f_l, 0) m;
     m \<leftarrow> list_destroy_and_destroy_elements (active_list_files a_f_l) active_file_destroy m;
     m \<leftarrow> cerrojo_soltar (active_list_dir a_f_l, 0) m;
     m \<leftarrow> cerrojo_destruir (active_list_dir a_f_l, 0) m;
     liberar (active_list_dir a_f_l) m }"

text \<open>The file of the logger is \<open>None\<close> when it is \<open>NULL\<close>: closing it is undefined.\<close>

record log_m =
  log_dir :: nat
  log_name :: nat
  log_stream :: "nat option"

definition log_destroy_m :: "log_m \<Rightarrow> memoria \<Rightarrow> memoria option" where
  "log_destroy_m logger m = do {
     m \<leftarrow> liberar (log_name logger) m;
     stream \<leftarrow> log_stream logger;
     m \<leftarrow> liberar stream m;
     liberar (log_dir logger) m }"

text \<open>The superblock mutex is the first lock of the structure; each array has a mutex for every group.\<close>

record mapped_m =
  mapped_dir :: nat
  mapped_writes :: nat
  mapped_sleep :: nat
  mapped_wblocks :: nat
  mapped_winodes :: nat
  mapped_wdir :: nat
  mapped_groups :: nat
  mapped_list :: active_list_m
  mapped_log :: log_m

definition s_Mapped_File_destroy :: "mapped_m \<Rightarrow> memoria \<Rightarrow> (int \<times> memoria) option" where
  "s_Mapped_File_destroy f m = do {
     m \<leftarrow> destroy_counter (mapped_writes f) m;
     m \<leftarrow> destroy_counter (mapped_sleep f) m;
     m \<leftarrow> cerrojo_destruir (mapped_dir f, 0) m;
     m \<leftarrow> secuencia (concat (map (\<lambda>var. [cerrojo_destruir (mapped_wblocks f, var), cerrojo_destruir (mapped_winodes f, var),
         cerrojo_destruir (mapped_wdir f, var)]) [0..<mapped_groups f])) m;
     m \<leftarrow> liberar (mapped_wblocks f) m;
     m \<leftarrow> liberar (mapped_winodes f) m;
     m \<leftarrow> liberar (mapped_wdir f) m;
     m \<leftarrow> active_file_list_destroy (mapped_list f) m;
     m \<leftarrow> destroy_counter (mapped_writes f) m;
     m \<leftarrow> destroy_counter (mapped_sleep f) m;
     m \<leftarrow> log_destroy_m (mapped_log f) m;
     m \<leftarrow> liberar (mapped_dir f) m;
     Some (1, m) }"

text \<open>The semaphore is lock \<open>0\<close> of the queue, its mutex lock \<open>1\<close>.\<close>

record 'a s_cola_m =
  s_cola_dir :: nat
  s_cola :: "'a cola_m"

definition s_queue_destroy :: "'a s_cola_m \<Rightarrow> memoria \<Rightarrow> memoria option" where
  "s_queue_destroy s_queue m = do {
     m \<leftarrow> queue_destroy (s_cola s_queue) m;
     m \<leftarrow> cerrojo_destruir (s_cola_dir s_queue, 0) m;
     m \<leftarrow> cerrojo_destruir (s_cola_dir s_queue, 1) m;
     liberar (s_cola_dir s_queue) m }"

record result_m =
  result_dir :: nat
  result_data :: "nat option"
  result_path :: "nat option"

definition free_result :: "result_m \<Rightarrow> memoria \<Rightarrow> memoria option" where
  "free_result result m = do {
     m \<leftarrow> liberar_ptr (result_data result) m;
     m \<leftarrow> liberar_ptr (result_path result) m;
     liberar (result_dir result) m }"

section \<open>The engine\<close>

definition justice_engine_destroy :: "nat \<Rightarrow> memoria \<Rightarrow> memoria option" where
  "justice_engine_destroy handle = liberar handle"

definition justice_engine_reset_stats :: "t_justice_engine \<Rightarrow> t_justice_engine" where
  "justice_engine_reset_stats engine = engine"

definition justice_engine_item_set_cas :: "t_justice_engine \<Rightarrow> item \<Rightarrow> u64 \<Rightarrow> t_justice_engine" where
  "justice_engine_item_set_cas engine it val = engine"

definition justice_engine_destroy_signal :: "log_m \<Rightarrow> nat \<times> nat \<Rightarrow> memoria \<Rightarrow> memoria option" where
  "justice_engine_destroy_signal logger cerrojo m = do {
     m \<leftarrow> log_destroy_m logger m;
     cerrojo_destruir cerrojo m }"

section \<open>The client\<close>

record stream_m =
  stream_dir :: nat
  stream_data :: nat

definition free_memory :: "stream_m \<Rightarrow> nat \<Rightarrow> nat option \<Rightarrow> memoria \<Rightarrow> memoria option" where
  "free_memory stream header payload m = do {
     m \<leftarrow> liberar (stream_data stream) m;
     m \<leftarrow> liberar (stream_dir stream) m;
     m \<leftarrow> liberar header m;
     liberar_ptr payload m }"

text \<open>
  What the client uses of libmemcached to connect: its calls are a parameter, with the handle and
  the list of servers as they leave them.
\<close>

record ('m, 'srv) memcached_api =
  mc_create :: 'm
  mc_binary :: "'m \<Rightarrow> 'm"
  mc_server_list_append :: "string \<Rightarrow> u16 \<Rightarrow> 'srv \<times> int"
  mc_server_push :: "'m \<Rightarrow> 'srv \<Rightarrow> 'm \<times> int"
  mc_free :: "'m \<Rightarrow> memoria \<Rightarrow> memoria option"
  mc_servers_block :: "'srv \<Rightarrow> nat"

record ('m, 'srv) memcached_struct_t =
  mst_memcached :: 'm
  mst_servers :: 'srv
  mst_response :: int

definition memcached_library_connect :: "('m, 'srv) memcached_api \<Rightarrow> string \<Rightarrow> u16 \<Rightarrow> ('m, 'srv) memcached_struct_t" where
  "memcached_library_connect api ip puerto =
     (let memcached = mc_binary api (mc_create api);
          (servers, response) = mc_server_list_append api ip puerto;
          (memcached, response) = mc_server_push api memcached servers
      in \<lparr>mst_memcached = memcached, mst_servers = servers, mst_response = response\<rparr>)"

definition conectar_con_memcached :: "('m, 'srv) memcached_api \<Rightarrow> string \<Rightarrow> u16 \<Rightarrow> 'm \<times> 'srv \<times> int" where
  "conectar_con_memcached api ip puerto =
     (let (servers, cache_remota) = mc_server_list_append api ip puerto;
          (memcached, cache_remota) = mc_server_push api (mc_create api) servers
      in (memcached, servers, cache_remota))"

text \<open>Only the size is set; the value stays \<open>NULL\<close>.\<close>

definition memcached_library_value :: "string \<Rightarrow> nat option \<times> nat" where
  "memcached_library_value value = (None, length value)"

definition memcached_library_free_struct ::
  "('m, 'srv) memcached_api \<Rightarrow> nat \<Rightarrow> ('m, 'srv) memcached_struct_t \<Rightarrow> memoria \<Rightarrow> memoria option" where
  "memcached_library_free_struct api dir memcached m = do {
     m \<leftarrow> liberar (mc_servers_block api (mst_servers memcached)) m;
     m \<leftarrow> mc_free api (mst_memcached memcached) m;
     liberar dir m }"

text \<open>The structure is freed, what its \<open>keyvalue\<close> points to is not.\<close>

definition memcached_library_free_keyvalue :: "nat \<Rightarrow> memoria \<Rightarrow> memoria option" where
  "memcached_library_free_keyvalue keyvalue = liberar keyvalue"

definition eliminar_memcached :: "('m, 'srv) memcached_api \<Rightarrow> 'm \<Rightarrow> 'srv \<Rightarrow> memoria \<Rightarrow> memoria option" where
  "eliminar_memcached api memcached servers m = do {
     m \<leftarrow> liberar (mc_servers_block api servers) m;
     mc_free api memcached m }"

text \<open>
  The client's \<open>main\<close>, with the answers of the operating system to each attempt to connect and to
  each \<open>shutdown\<close> at the end, and the result of \<open>fuse_opt_parse\<close>. In between FUSE calls the
  operations. The result is the exit status, and for each connection its descriptor and whether it
  is still connected.
\<close>

definition main_fsc ::
  "string option \<Rightarrow> intento list \<Rightarrow> int \<Rightarrow> i32 list \<Rightarrow> (nat \<times> (t_sockete \<times> bool) list \<times> t_sockete set) option" where
  "main_fsc file intentos parsed cierres = do {
     _ \<leftarrow> load_config ''cliente_config.ini'' file;
     (conexiones, abiertos) \<leftarrow> conectar_todos (take BACKLOG_FSC intentos) {};
     if parsed = - 1 then Some (1, conexiones, abiertos)
     else Some (0, map (\<lambda>((fd, conectado), r). (fd, conectado \<and> sockete_cerrar_fsc r \<noteq> SOCKETEOK)) (zip conexiones cierres), abiertos) }"

section \<open>Destructors\<close>

lemma liberar_ok: "p \<in> vivos m \<Longrightarrow> liberar p m = Some (m\<lparr>vivos := vivos m - {p}\<rparr>)"
  by (simp add: liberar_def)

lemma destruir_ok: "b \<in> vivos m \<Longrightarrow> cerrojos m (b, k) = Some False \<Longrightarrow> cerrojo_destruir (b, k) m = Some (m\<lparr>cerrojos := (cerrojos m)((b, k) := None)\<rparr>)"
  by (simp add: cerrojo_destruir_def)

locale destructor =
  fixes bloques :: "'a \<Rightarrow> nat list" and listo :: "'a \<Rightarrow> memoria \<Rightarrow> bool" and destruir :: "'a \<Rightarrow> memoria \<Rightarrow> memoria option"
  assumes libera: "\<lbrakk>distinct (bloques x); set (bloques x) \<subseteq> vivos m; listo x m\<rbrakk> \<Longrightarrow>
      \<exists>m'. destruir x m = Some m' \<and> vivos m' = vivos m - set (bloques x) \<and> (\<forall>l. fst l \<notin> set (bloques x) \<longrightarrow> cerrojos m' l = cerrojos m l)"
    and propio: "\<forall>l. fst l \<in> set (bloques x) \<longrightarrow> cerrojos m' l = cerrojos m l \<Longrightarrow> listo x m \<Longrightarrow> listo x m'"
begin

lemma libera_todos:
  assumes "distinct (concat (map bloques xs))" and "set (concat (map bloques xs)) \<subseteq> vivos m" and "\<forall>x \<in> set xs. listo x m"
  shows "\<exists>m'. secuencia (map destruir xs) m = Some m' \<and> vivos m' = vivos m - set (concat (map bloques xs)) \<and>
    (\<forall>l. fst l \<notin> set (concat (map bloques xs)) \<longrightarrow> cerrojos m' l = cerrojos m l)"
  using assms
proof (induction xs arbitrary: m)
  case (Cons x xs)
  from libera [of x m] Cons.prems obtain m1 where m1: "destruir x m = Some m1" "vivos m1 = vivos m - set (bloques x)"
    "\<forall>l. fst l \<notin> set (bloques x) \<longrightarrow> cerrojos m1 l = cerrojos m l" by auto
  have "listo y m1" if "y \<in> set xs" for y
  proof (rule propio)
    have "set (bloques y) \<inter> set (bloques x) = {}" using Cons.prems(1) that by auto
    then show "\<forall>l. fst l \<in> set (bloques y) \<longrightarrow> cerrojos m1 l = cerrojos m l" using m1(3) by blast
    show "listo y m" using Cons.prems(3) that by simp
  qed
  moreover have "set (concat (map bloques xs)) \<subseteq> vivos m1" using Cons.prems(1,2) m1(2) by auto
  ultimately obtain m2 where "secuencia (map destruir xs) m1 = Some m2" "vivos m2 = vivos m1 - set (concat (map bloques xs))"
    "\<forall>l. fst l \<notin> set (concat (map bloques xs)) \<longrightarrow> cerrojos m2 l = cerrojos m1 l" using Cons.IH [of m1] Cons.prems(1) by auto
  with m1 show ?case by (intro exI [of _ m2]) auto
qed simp

lemma itera_todos:
  assumes "distinct (concat (map (bloques \<circ> snd) ns))" and "set (concat (map (bloques \<circ> snd) ns)) \<subseteq> vivos m" and "\<forall>x \<in> snd ` set ns. listo x m"
    and "fst ` set ns \<subseteq> vivos m - set (concat (map (bloques \<circ> snd) ns))"
  shows "\<exists>m'. list_iterate_m \<lparr>lista_dir = d, lista_nodos = ns\<rparr> destruir m = Some m' \<and> vivos m' = vivos m - set (concat (map (bloques \<circ> snd) ns)) \<and>
    (\<forall>l. fst l \<notin> set (concat (map (bloques \<circ> snd) ns)) \<longrightarrow> cerrojos m' l = cerrojos m l)"
  using assms
proof (induction ns arbitrary: m)
  case (Cons e ns)
  obtain n x where e: "e = (n, x)" by (cases e)
  from libera [of x m] Cons.prems e obtain m1 where m1: "destruir x m = Some m1" "vivos m1 = vivos m - set (bloques x)"
    "\<forall>l. fst l \<notin> set (bloques x) \<longrightarrow> cerrojos m1 l = cerrojos m l" by auto
  have "listo y m1" if "y \<in> snd ` set ns" for y
  proof (rule propio)
    have "set (bloques y) \<inter> set (bloques x) = {}" using Cons.prems(1) that e by auto
    then show "\<forall>l. fst l \<in> set (bloques y) \<longrightarrow> cerrojos m1 l = cerrojos m l" using m1(3) by blast
    show "listo y m" using Cons.prems(3) that by auto
  qed
  moreover have "set (concat (map (bloques \<circ> snd) ns)) \<subseteq> vivos m1" using Cons.prems(1,2) m1(2) e by auto
  moreover have "fst ` set ns \<subseteq> vivos m1 - set (concat (map (bloques \<circ> snd) ns))" using Cons.prems(4) m1(2) e by auto
  ultimately obtain m2 where "list_iterate_m \<lparr>lista_dir = d, lista_nodos = ns\<rparr> destruir m1 = Some m2"
    "vivos m2 = vivos m1 - set (concat (map (bloques \<circ> snd) ns))"
    "\<forall>l. fst l \<notin> set (concat (map (bloques \<circ> snd) ns)) \<longrightarrow> cerrojos m2 l = cerrojos m1 l" using Cons.IH [of m1] Cons.prems(1) by auto
  moreover have "n \<in> vivos m" "n \<in> vivos m1" using Cons.prems(4) e m1(2) by auto
  ultimately show ?case using m1 e by (intro exI [of _ m2]) (auto simp: list_iterate_m_def)
qed (simp add: list_iterate_m_def)

end

interpretation bloque: destructor "\<lambda>p. [p]" "\<lambda>_ _. True" liberar
  by unfold_locales (simp_all add: liberar_def)

lemma liberar_todos:
  assumes "distinct ps" and "set ps \<subseteq> vivos m"
  shows "\<exists>m'. secuencia (map liberar ps) m = Some m' \<and> vivos m' = vivos m - set ps \<and> (\<forall>l. fst l \<notin> set ps \<longrightarrow> cerrojos m' l = cerrojos m l)"
proof -
  have "concat (map (\<lambda>p. [p]) ps) = ps" by (induction ps) simp_all
  with bloque.libera_todos [of ps m] assms show ?thesis by simp
qed

interpretation archivo: destructor "\<lambda>a. [active_path a, active_dir a]" "\<lambda>a m. cerrojos m (active_dir a, 0) = Some False" active_file_destroy
proof
  show "\<exists>m'. active_file_destroy x m = Some m' \<and> vivos m' = vivos m - set [active_path x, active_dir x] \<and>
      (\<forall>l. fst l \<notin> set [active_path x, active_dir x] \<longrightarrow> cerrojos m' l = cerrojos m l)"
    if "distinct [active_path x, active_dir x]" "set [active_path x, active_dir x] \<subseteq> vivos m" "cerrojos m (active_dir x, 0) = Some False" for x m
    using that by (auto simp: active_file_destroy_def liberar_def cerrojo_destruir_def)
qed simp

definition elemento_bloques :: "nat elemento_m \<Rightarrow> nat list" where
  "elemento_bloques e = [elemento_data e, elemento_key e, elemento_dir e]"

text \<open>The elements of a dictionary created with \<open>free\<close>, as that of a configuration is.\<close>

lemma elemento_destructor:
  assumes "data_destroyer self = Some liberar"
  shows "destructor elemento_bloques (\<lambda>_ _. True) (dictionary_destroy_element self)"
  using assms by unfold_locales (auto simp: elemento_bloques_def dictionary_destroy_element_def liberar_def)

section \<open>What is freed\<close>

definition active_list_bloques :: "active_list_m \<Rightarrow> nat list" where
  "active_list_bloques a = active_list_dir a # lista_dir (active_list_files a) # map fst (lista_nodos (active_list_files a)) @
     concat (map (\<lambda>(_, f). [active_path f, active_dir f]) (lista_nodos (active_list_files a)))"

lemma nodos_map: "map (\<lambda>(n, _). liberar n) ns = map liberar (map fst ns)"
  by auto

lemma active_file_list_destroy_ok:
  assumes d: "distinct (active_list_bloques a)" and v: "set (active_list_bloques a) \<subseteq> vivos m"
    and l: "cerrojos m (active_list_dir a, 0) = Some False" "\<forall>f \<in> snd ` set (lista_nodos (active_list_files a)). cerrojos m (active_dir f, 0) = Some False"
  shows "\<exists>m'. active_file_list_destroy a m = Some m' \<and> vivos m' = vivos m - set (active_list_bloques a)"
proof -
  obtain b ld ns where a: "a = \<lparr>active_list_dir = b, active_list_files = \<lparr>lista_dir = ld, lista_nodos = ns\<rparr>\<rparr>"
    by (cases a, cases "active_list_files a") simp
  define bs where "bs = concat (map (\<lambda>(_, f). [active_path f, active_dir f]) ns)"
  have bs: "bs = concat (map ((\<lambda>f. [active_path f, active_dir f]) \<circ> snd) ns)" unfolding bs_def by (intro arg_cong [where f = concat] map_cong) auto
  have dd: "distinct (b # ld # map fst ns @ bs)" "set (b # ld # map fst ns @ bs) \<subseteq> vivos m" using d v by (simp_all add: active_list_bloques_def a bs_def)
  define m0 where "m0 = m\<lparr>cerrojos := (cerrojos m)((b, 0) := Some True)\<rparr>"
  have m0: "cerrojo_tomar (b, 0) m = Some m0" "vivos m0 = vivos m" using l(1) dd(2) by (simp_all add: cerrojo_tomar_def m0_def a)
  have "\<forall>f \<in> snd ` set ns. cerrojos m0 (active_dir f, 0) = Some False"
  proof
    fix f assume f: "f \<in> snd ` set ns"
    then have "active_dir f \<in> set bs" by (force simp: bs_def)
    then have "active_dir f \<noteq> b" using dd(1) by auto
    then show "cerrojos m0 (active_dir f, 0) = Some False" using l(2) f by (auto simp: m0_def a)
  qed
  moreover have "fst ` set ns \<subseteq> vivos m0 - set bs" "distinct bs" "set bs \<subseteq> vivos m0" using dd m0(2) by auto
  ultimately obtain m1 where m1: "list_iterate_m \<lparr>lista_dir = ld, lista_nodos = ns\<rparr> active_file_destroy m0 = Some m1"
    "vivos m1 = vivos m0 - set bs" "\<forall>l. fst l \<notin> set bs \<longrightarrow> cerrojos m1 l = cerrojos m0 l"
    using archivo.itera_todos [of ns m0 ld] unfolding bs by blast
  have "distinct (map fst ns)" "set (map fst ns) \<subseteq> vivos m1" using dd m0(2) m1(2) by auto
  then obtain m2 where m2: "secuencia (map liberar (map fst ns)) m1 = Some m2" "vivos m2 = vivos m1 - set (map fst ns)"
    "\<forall>l. fst l \<notin> set (map fst ns) \<longrightarrow> cerrojos m2 l = cerrojos m1 l" using liberar_todos by blast
  have live: "ld \<in> vivos m2" "b \<in> vivos m2" "b \<noteq> ld" using dd m0(2) m1(2) m2(2) by auto
  have "cerrojos m2 (b, 0) = Some True" using m1(3) m2(3) dd(1) by (simp add: m0_def)
  with live m0 m1 m2 show ?thesis
    by (auto simp: a active_file_list_destroy_def list_destroy_and_destroy_elements_def list_clean_and_destroy_elements_def list_clean_m_def
        nodos_map liberar_def cerrojo_soltar_def cerrojo_destruir_def active_list_bloques_def bs_def)
qed

definition config_bloques :: "config_m \<Rightarrow> nat list" where
  "config_bloques c = config_dir c # config_path c # dict_dir (config_properties c) # dict_elements (config_properties c) #
     concat (map elemento_bloques (concat (dict_buckets (config_properties c))))"

lemma config_destroy_ok:
  assumes d: "distinct (config_bloques c)" and v: "set (config_bloques c) \<subseteq> vivos m" and f: "data_destroyer (config_properties c) = Some liberar"
  shows "\<exists>m'. config_destroy c m = Some m' \<and> vivos m' = vivos m - set (config_bloques c)"
proof -
  let ?p = "config_properties c"
  let ?es = "concat (dict_buckets ?p)"
  obtain m1 where "secuencia (map (dictionary_destroy_element ?p) ?es) m = Some m1" "vivos m1 = vivos m - set (concat (map elemento_bloques ?es))"
    using destructor.libera_todos [OF elemento_destructor [OF f], of ?es m] d v by (auto simp: config_bloques_def)
  moreover from this have "{config_dir c, config_path c, dict_dir ?p, dict_elements ?p} \<subseteq> vivos m1" using d v by (auto simp: config_bloques_def)
  ultimately show ?thesis using d
    by (auto simp: config_destroy_def dictionary_destroy_def dictionary_clean_m_def liberar_def config_bloques_def)
qed

lemma destroy_counter_vivos: "destroy_counter w m = Some m' \<Longrightarrow> w \<in> vivos m \<and> vivos m' = vivos m - {w}"
  by (auto simp: destroy_counter_def liberar_def cerrojo_destruir_def split: bind_splits if_splits)

text \<open>No destructor allocates.\<close>

definition encoge :: "(memoria \<Rightarrow> memoria option) \<Rightarrow> bool" where
  "encoge f \<longleftrightarrow> (\<forall>m m'. f m = Some m' \<longrightarrow> vivos m' \<subseteq> vivos m)"

lemma encoge_basic: "encoge (liberar p)" "encoge (cerrojo_destruir l)" "encoge (cerrojo_tomar l)" "encoge (cerrojo_soltar l)"
  by (auto simp: encoge_def liberar_def cerrojo_destruir_def cerrojo_tomar_def cerrojo_soltar_def split: if_splits)

lemma encoge_bind: "encoge f \<Longrightarrow> encoge g \<Longrightarrow> encoge (\<lambda>m. f m \<bind> g)"
  unfolding encoge_def by (auto split: bind_splits) blast

lemma encoge_secuencia: "\<forall>f \<in> set fs. encoge f \<Longrightarrow> encoge (secuencia fs)"
proof (induction fs)
  case (Cons f fs)
  then have "encoge (\<lambda>m. f m \<bind> secuencia fs)" by (intro encoge_bind) auto
  moreover have "secuencia (f # fs) = (\<lambda>m. f m \<bind> secuencia fs)" by (simp add: fun_eq_iff)
  ultimately show ?case by simp
qed (simp add: encoge_def)

lemma encoge_lista:
  assumes "\<And>x. encoge (destruir x)"
  shows "encoge (list_destroy_and_destroy_elements self destruir)"
proof -
  have "encoge (\<lambda>m. do { m \<leftarrow> (if n \<in> vivos m then destruir x m else None); (if n \<in> vivos m then Some m else None) })" for n x
    using assms [of x] by (auto simp: encoge_def split: bind_splits if_splits)
  then have "encoge (list_iterate_m self destruir)" unfolding list_iterate_m_def by (intro encoge_secuencia) auto
  moreover have "encoge (list_clean_m self)" unfolding list_clean_m_def by (intro encoge_secuencia) (auto intro: encoge_basic)
  ultimately have "encoge (\<lambda>m. (list_iterate_m self destruir m \<bind> list_clean_m self) \<bind> liberar (lista_dir self))"
    by (intro encoge_bind encoge_basic)
  then show ?thesis unfolding list_destroy_and_destroy_elements_def list_clean_and_destroy_elements_def .
qed

lemma encoge_active: "encoge (active_file_destroy f)"
  unfolding active_file_destroy_def by (intro encoge_bind encoge_basic)

lemma encoge_mapped:
  "encoge (\<lambda>m. cerrojo_destruir (b, 0) m \<bind> (\<lambda>m. secuencia (concat (map (\<lambda>var. [cerrojo_destruir (p, var), cerrojo_destruir (q, var),
     cerrojo_destruir (r, var)]) [0..<n])) m \<bind> (\<lambda>m. liberar p m \<bind> (\<lambda>m. liberar q m \<bind> (\<lambda>m. liberar r m \<bind> active_file_list_destroy a)))))"
  unfolding active_file_list_destroy_def
  by (intro encoge_bind encoge_basic encoge_lista encoge_active encoge_secuencia) (auto intro: encoge_basic)

lemma counter_destroyed_twice: "s_Mapped_File_destroy f m = None"
proof (rule ccontr)
  assume "s_Mapped_File_destroy f m \<noteq> None"
  then obtain m1 m2 m3 m4 where s: "destroy_counter (mapped_writes f) m = Some m1" "destroy_counter (mapped_sleep f) m1 = Some m2"
    "(cerrojo_destruir (mapped_dir f, 0) m2 \<bind> (\<lambda>m. secuencia (concat (map (\<lambda>var. [cerrojo_destruir (mapped_wblocks f, var), cerrojo_destruir (mapped_winodes f, var),
       cerrojo_destruir (mapped_wdir f, var)]) [0..<mapped_groups f])) m \<bind> (\<lambda>m. liberar (mapped_wblocks f) m \<bind>
       (\<lambda>m. liberar (mapped_winodes f) m \<bind> (\<lambda>m. liberar (mapped_wdir f) m \<bind> active_file_list_destroy (mapped_list f)))))) = Some m3"
    "destroy_counter (mapped_writes f) m3 = Some m4"
    unfolding s_Mapped_File_destroy_def by (auto split: bind_splits)
  have "mapped_writes f \<in> vivos m3" using destroy_counter_vivos [OF s(4)] by simp
  moreover have "vivos m3 \<subseteq> vivos m2" using encoge_mapped s(3) unfolding encoge_def by blast
  ultimately show False using destroy_counter_vivos [OF s(1)] destroy_counter_vivos [OF s(2)] by auto
qed

section \<open>Properties\<close>

text \<open>
  C36: the destructors free what they own. When the blocks of a table of active files are allocated,
  each once, and no lock is held, destroying the table ends and frees exactly these blocks; the
  same holds for a configuration with its dictionary, whatever the chains of the hash table. The
  destructor of the server's state never ends well: it destroys its two counters, and at the end
  destroys them again.
\<close>

theorem destructors_free_once:
  "(distinct (active_list_bloques a) \<and> set (active_list_bloques a) \<subseteq> vivos m \<and> cerrojos m (active_list_dir a, 0) = Some False \<and>
      (\<forall>f \<in> snd ` set (lista_nodos (active_list_files a)). cerrojos m (active_dir f, 0) = Some False) \<longrightarrow>
      (\<exists>m'. active_file_list_destroy a m = Some m' \<and> vivos m' = vivos m - set (active_list_bloques a))) \<and>
    (distinct (config_bloques c) \<and> set (config_bloques c) \<subseteq> vivos m \<and> data_destroyer (config_properties c) = Some liberar \<longrightarrow>
      (\<exists>m'. config_destroy c m = Some m' \<and> vivos m' = vivos m - set (config_bloques c))) \<and>
    s_Mapped_File_destroy f m = None"
  using active_file_list_destroy_ok config_destroy_ok counter_destroyed_twice by simp

text \<open>A table with one active file, and a configuration with one entry.\<close>

definition tabla_demo :: active_list_m where
  "tabla_demo = \<lparr>active_list_dir = 1, active_list_files = \<lparr>lista_dir = 2, lista_nodos = [(3, \<lparr>active_dir = 4, active_path = 5\<rparr>)]\<rparr>\<rparr>"

definition config_demo :: config_m where
  "config_demo = \<lparr>config_dir = 6, config_path = 7, config_properties = \<lparr>dict_dir = 8, dict_elements = 9,
     dict_buckets = [[], [\<lparr>elemento_dir = 10, elemento_key = 11, elemento_data = 12\<rparr>]], data_destroyer = Some liberar\<rparr>\<rparr>"

definition memoria_demo :: memoria where
  "memoria_demo = \<lparr>vivos = {1, 2, 3, 4, 5, 6, 7, 8, 9, 10, 11, 12}, cerrojos = (\<lambda>l. if l \<in> {(1, 0), (4, 0)} then Some False else None)\<rparr>"

lemma destructors_free_once_witness:
  "\<exists>m1 m2. active_file_list_destroy tabla_demo memoria_demo = Some m1 \<and> vivos m1 = {6, 7, 8, 9, 10, 11, 12} \<and>
    config_destroy config_demo memoria_demo = Some m2 \<and> vivos m2 = {1, 2, 3, 4, 5}"
proof -
  have t: "active_list_bloques tabla_demo = [1, 2, 3, 5, 4]" "config_bloques config_demo = [6, 7, 8, 9, 12, 11, 10]"
    by (simp_all add: active_list_bloques_def tabla_demo_def config_bloques_def config_demo_def elemento_bloques_def)
  note p = destructors_free_once [of tabla_demo memoria_demo config_demo undefined]
  have a: "\<exists>m'. active_file_list_destroy tabla_demo memoria_demo = Some m' \<and> vivos m' = vivos memoria_demo - {1, 2, 3, 5, 4}"
    using p [THEN conjunct1] unfolding t by (simp add: memoria_demo_def tabla_demo_def)
  have b: "\<exists>m'. config_destroy config_demo memoria_demo = Some m' \<and> vivos m' = vivos memoria_demo - {6, 7, 8, 9, 12, 11, 10}"
    using p [THEN conjunct2, THEN conjunct1] unfolding t by (simp add: memoria_demo_def config_demo_def)
  have "vivos memoria_demo - {1, 2, 3, 5, 4} = {6, 7, 8, 9, 10, 11, 12}" "vivos memoria_demo - {6, 7, 8, 9, 12, 11, 10} = {1, 2, 3, 4, 5}"
    by (auto simp: memoria_demo_def)
  with a b show ?thesis by metis
qed

end
