(* ===== verification/Lock_Table.thy ===== *)
theory Lock_Table
  imports Server
begin

text \<open>
  The table of active files as a map from paths to a lock and a count of users. The interface
  \<open>lock_table\<close> gives the effect of finding, locking and letting go of an entry on that map; its
  lemmas follow a thread that holds some files and reads some of them, and show that letting
  everything go restores the table. The interpretation is on the list of
  \<^verbatim>\<open>rfs/source_RFS/server_threading.c\<close>.
\<close>

type_synonym table = "string \<Rightarrow> (rwlock_t \<times> u32) option"

definition idle :: "table \<Rightarrow> bool" where
  \<comment> \<open>No lock is held, and every entry has a user.\<close>
  "idle T \<longleftrightarrow> (\<forall>p l n. T p = Some (l, n) \<longrightarrow> l = unlocked \<and> n \<noteq> 0)"

definition bump :: "(rwlock_t \<times> u32) option \<Rightarrow> u32" where
  "bump e = (case e of None \<Rightarrow> 1 | Some (l, n) \<Rightarrow> n + 1)"

definition one_reader :: rwlock_t where
  "one_reader = \<lparr>readers = 1, writer = False\<rparr>"

definition marks :: "table \<Rightarrow> string set \<Rightarrow> string set \<Rightarrow> table" where
  \<comment> \<open>The table \<open>T\<close> after a thread found the files \<open>us\<close> and read-locked those in \<open>rs\<close>.\<close>
  "marks T rs us p =
     (if p \<in> us then Some (if p \<in> rs then one_reader else unlocked, bump (T p)) else T p)"

lemma marks_empty [simp]: "marks T {} {} = T"
  by (auto simp: marks_def)

lemma lock_transitions [simp]:
  "RDLOCK unlocked = Some one_reader" "UNLOCK one_reader = Some unlocked"
  "WRLOCK unlocked = Some \<lparr>readers = 0, writer = True\<rparr>" "UNLOCK \<lparr>readers = 0, writer = True\<rparr> = Some unlocked"
  by (simp_all add: RDLOCK_def UNLOCK_def WRLOCK_def unlocked_def one_reader_def)

locale lock_table =
  fixes tab :: "'l \<Rightarrow> table"
    and inv :: "'l \<Rightarrow> bool"
    and find :: "'l \<Rightarrow> string \<Rightarrow> 'l option"
    and finished :: "'l \<Rightarrow> string \<Rightarrow> 'l option"
    and lock :: "(rwlock_t \<Rightarrow> rwlock_t option) \<Rightarrow> 'l \<Rightarrow> string \<Rightarrow> 'l option"
  assumes find_new: "inv l \<Longrightarrow> tab l p = None \<Longrightarrow>
      \<exists>l'. find l p = Some l' \<and> inv l' \<and> tab l' = (tab l)(p \<mapsto> (unlocked, 1))"
    and find_old: "inv l \<Longrightarrow> tab l p = Some (unlocked, n) \<Longrightarrow>
      \<exists>l'. find l p = Some l' \<and> inv l' \<and> tab l' = (tab l)(p \<mapsto> (unlocked, n + 1))"
    and lock_law: "inv l \<Longrightarrow> tab l p = Some (k, n) \<Longrightarrow> g k = Some k' \<Longrightarrow>
      \<exists>l'. lock g l p = Some l' \<and> inv l' \<and> tab l' = (tab l)(p \<mapsto> (k', n))"
    and finished_law: "inv l \<Longrightarrow> tab l p = Some (unlocked, n) \<Longrightarrow>
      \<exists>l'. finished l p = Some l' \<and> inv l' \<and> tab l' = (tab l)(p := if n = 1 then None else Some (unlocked, n - 1))"
begin

lemma find_marks:
  assumes "idle T" and "inv l" and "tab l = marks T rs us" and "p \<notin> us" and "p \<notin> rs"
  shows "\<exists>l'. find l p = Some l' \<and> inv l' \<and> tab l' = marks T rs (insert p us)"
proof -
  have e: "tab l p = T p" using assms(3,4) by (simp add: marks_def)
  have upd: "(tab l)(p \<mapsto> (unlocked, bump (T p))) = marks T rs (insert p us)"
    using assms(3,5) by (auto simp: marks_def)
  show ?thesis
  proof (cases "T p")
    case None
    with find_new [OF assms(2), of p] e upd show ?thesis by (simp add: bump_def)
  next
    case (Some a)
    moreover have "fst a = unlocked" using assms(1) Some by (cases a) (auto simp: idle_def)
    ultimately show ?thesis using find_old [OF assms(2), of p "snd a"] e upd by (cases a) (simp add: bump_def)
  qed
qed

lemma rdlock_marks:
  assumes "inv l" and "tab l = marks T rs us" and "p \<in> us" and "p \<notin> rs"
  shows "\<exists>l'. lock RDLOCK l p = Some l' \<and> inv l' \<and> tab l' = marks T (insert p rs) us"
proof -
  have "tab l p = Some (unlocked, bump (T p))" using assms by (simp add: marks_def)
  from lock_law [OF assms(1) this, of RDLOCK one_reader]
  obtain l' where "lock RDLOCK l p = Some l'" "inv l'" "tab l' = (tab l)(p \<mapsto> (one_reader, bump (T p)))" by auto
  moreover have "(tab l)(p \<mapsto> (one_reader, bump (T p))) = marks T (insert p rs) us"
    using assms by (auto simp: marks_def)
  ultimately show ?thesis by simp
qed

lemma unlock_marks:
  assumes "inv l" and "tab l = marks T rs us" and "p \<in> us" and "p \<in> rs"
  shows "\<exists>l'. lock UNLOCK l p = Some l' \<and> inv l' \<and> tab l' = marks T (rs - {p}) us"
proof -
  have "tab l p = Some (one_reader, bump (T p))" using assms by (simp add: marks_def)
  from lock_law [OF assms(1) this, of UNLOCK unlocked]
  obtain l' where "lock UNLOCK l p = Some l'" "inv l'" "tab l' = (tab l)(p \<mapsto> (unlocked, bump (T p)))" by auto
  moreover have "(tab l)(p \<mapsto> (unlocked, bump (T p))) = marks T (rs - {p}) us"
    using assms by (auto simp: marks_def)
  ultimately show ?thesis by simp
qed

lemma finished_marks:
  assumes "idle T" and "inv l" and "tab l = marks T rs us" and "p \<in> us" and "p \<notin> rs"
  shows "\<exists>l'. finished l p = Some l' \<and> inv l' \<and> tab l' = marks T rs (us - {p})"
proof -
  have "tab l p = Some (unlocked, bump (T p))" using assms by (simp add: marks_def)
  from finished_law [OF assms(2) this]
  obtain l' where "finished l p = Some l'" "inv l'"
    "tab l' = (tab l)(p := if bump (T p) = 1 then None else Some (unlocked, bump (T p) - 1))" by auto
  moreover have "(if bump (T p) = 1 then None else Some (unlocked, bump (T p) - 1)) = T p"
    using assms(1) by (auto simp: bump_def idle_def split: option.splits prod.splits)
  then have "(tab l)(p := if bump (T p) = 1 then None else Some (unlocked, bump (T p) - 1)) = marks T rs (us - {p})"
    using assms by (auto simp: marks_def)
  ultimately show ?thesis by simp
qed

end

section \<open>The active-file list provides the interface\<close>

definition afl_ok :: "active_file_t t_list \<Rightarrow> bool" where
  "afl_ok l \<longleftrightarrow> list_ok l \<and> distinct (map af_path (head l))"

definition afl_find :: "active_file_t list \<Rightarrow> string \<Rightarrow> active_file_t option" where
  "afl_find as p = List.find (\<lambda>a. af_path a = p) as"

definition afl_tab :: "active_file_t t_list \<Rightarrow> table" where
  "afl_tab l p = map_option (\<lambda>a. (rwlock a, is_working a)) (afl_find (head l) p)"

lemma afl_find_simps [simp]:
  "afl_find [] p = None"
  "afl_find (a # as) p = (if af_path a = p then Some a else afl_find as p)"
  by (simp_all add: afl_find_def)

lemma afl_find_append: "afl_find (as @ bs) p = (case afl_find as p of None \<Rightarrow> afl_find bs p | Some a \<Rightarrow> Some a)"
  by (induction as) auto

lemma afl_find_None: "afl_find as p = None \<longleftrightarrow> p \<notin> af_path ` set as"
  by (induction as) auto

lemma afl_find_path: "afl_find as p = Some a \<Longrightarrow> af_path a = p"
  by (induction as) (auto split: if_splits)

lemma cmp_str_eq: "cmp_str p = (\<lambda>a. af_path a = p)"
  by (auto simp: cmp_str_def strncmp_eq_def fun_eq_iff)

lemma upd_active_find:
  assumes "afl_find as p = Some a" and "f a = Some b" and "af_path b = af_path a"
  shows "\<exists>as'. upd_active p f as = Some as' \<and> map af_path as' = map af_path as \<and>
    afl_find as' = (afl_find as)(p \<mapsto> b)"
  using assms(1)
proof (induction as)
  case (Cons c cs)
  show ?case
  proof (cases "af_path c = p")
    case True
    with Cons.prems assms(2,3) show ?thesis by (auto simp: fun_eq_iff)
  next
    case False
    with Cons obtain cs' where "upd_active p f cs = Some cs'" "map af_path cs' = map af_path cs"
      "afl_find cs' = (afl_find cs)(p \<mapsto> b)" by (auto simp del: fun_upd_apply)
    with False show ?thesis by (auto simp: fun_eq_iff)
  qed
qed simp

lemma active_list_upd_law:
  assumes "afl_ok l" and "afl_find (head l) p = Some a" and "f a = Some b" and "af_path b = af_path a"
  shows "\<exists>l'. active_list_upd l p f = Some l' \<and> afl_ok l' \<and> afl_find (head l') = (afl_find (head l))(p \<mapsto> b)"
proof -
  obtain as' where "upd_active p f (head l) = Some as'" "map af_path as' = map af_path (head l)"
    "afl_find as' = (afl_find (head l))(p \<mapsto> b)"
    using upd_active_find [where f = f, OF assms(2-4)] by blast
  with assms(1) show ?thesis
    by (auto simp: active_list_upd_def afl_ok_def list_ok_def dest: map_eq_imp_length_eq)
qed

lemma afl_tab_update: "afl_find (head l') = (afl_find (head l))(p \<mapsto> b) \<Longrightarrow>
    afl_tab l' = (afl_tab l)(p \<mapsto> (rwlock b, is_working b))"
  by (auto simp: afl_tab_def fun_eq_iff)

text \<open>The guarded change of a counter: lock for writing, change, unlock.\<close>

lemma guarded_count:
  assumes ok: "afl_ok l" and a: "afl_find (head l) p = Some a" and u: "rwlock a = unlocked"
  shows "\<exists>l'. (do { l1 \<leftarrow> active_list_upd l p (on_lock WRLOCK);
        l2 \<leftarrow> active_list_upd l1 p (\<lambda>a. Some (a\<lparr>is_working := h (is_working a)\<rparr>));
        active_list_upd l2 p (on_lock UNLOCK) }) = Some l' \<and>
      afl_ok l' \<and> afl_find (head l') = (afl_find (head l))(p \<mapsto> a\<lparr>is_working := h (is_working a)\<rparr>)"
proof -
  let ?w = "\<lparr>readers = 0, writer = True\<rparr>"
  obtain l1 where l1: "active_list_upd l p (on_lock WRLOCK) = Some l1" "afl_ok l1"
    "afl_find (head l1) = (afl_find (head l))(p \<mapsto> a\<lparr>rwlock := ?w\<rparr>)"
    using active_list_upd_law [OF ok a, of "on_lock WRLOCK" "a\<lparr>rwlock := ?w\<rparr>"] u by (auto simp: on_lock_def)
  obtain l2 where l2: "active_list_upd l1 p (\<lambda>a. Some (a\<lparr>is_working := h (is_working a)\<rparr>)) = Some l2" "afl_ok l2"
    "afl_find (head l2) = (afl_find (head l))(p \<mapsto> a\<lparr>rwlock := ?w, is_working := h (is_working a)\<rparr>)"
    using active_list_upd_law [OF l1(2), of p "a\<lparr>rwlock := ?w\<rparr>"
        "\<lambda>a. Some (a\<lparr>is_working := h (is_working a)\<rparr>)" "a\<lparr>rwlock := ?w, is_working := h (is_working a)\<rparr>"] l1(3)
    by auto
  obtain l3 where "active_list_upd l2 p (on_lock UNLOCK) = Some l3" "afl_ok l3"
    "afl_find (head l3) = (afl_find (head l))(p \<mapsto> a\<lparr>is_working := h (is_working a)\<rparr>)"
    using active_list_upd_law [OF l2(2), of p "a\<lparr>rwlock := ?w, is_working := h (is_working a)\<rparr>" "on_lock UNLOCK"
        "a\<lparr>is_working := h (is_working a)\<rparr>"] l2(3) u by (auto simp: on_lock_def)
  with l1(1) l2(1) show ?thesis by auto
qed

lemma afl_find_remove_first:
  assumes "distinct (map af_path as)" and "\<And>a. a \<in> set as \<Longrightarrow> P a \<longleftrightarrow> af_path a = p"
  shows "afl_find (remove_first P as) = (afl_find as)(p := None) \<and> distinct (map af_path (remove_first P as)) \<and>
    set (remove_first P as) \<subseteq> set as"
  using assms
proof (induction as)
  case (Cons a as)
  show ?case
  proof (cases "af_path a = p")
    case True
    with Cons.prems have "P a" "afl_find as p = None" by (auto simp: afl_find_None)
    with True Cons.prems show ?thesis by (auto simp: fun_eq_iff)
  next
    case False
    with Cons show ?thesis by (fastforce simp: fun_eq_iff)
  qed
qed (simp add: fun_eq_iff)

lemma afl_remove:
  assumes "afl_ok l"
  shows "\<exists>l'. active_file_list_remove_and_destroy_element l p = Some l' \<and> afl_ok l' \<and> afl_tab l' = (afl_tab l)(p := None)"
proof -
  let ?P = "\<lambda>elem. strncmp_eq p (af_path elem) (length p + 1)"
  have P: "?P a \<longleftrightarrow> af_path a = p" for a
    by (auto simp: strncmp_eq_def) (metis Suc_n_not_le_n length_take min_def nat_le_linear take_all)
  obtain l' where "list_remove_by_condition l ?P = Some (List.find ?P (head l), l')" "list_ok l'"
    "head l' = remove_first ?P (head l)"
    using list_remove_by_condition_refine [of l ?P] assms by (auto simp: afl_ok_def)
  with afl_find_remove_first [of "head l" ?P p] assms P show ?thesis
    by (auto simp: active_file_list_remove_and_destroy_element_def afl_ok_def afl_tab_def fun_eq_iff)
qed

interpretation afl: lock_table afl_tab afl_ok active_file_list_find active_file_finished_using
  "\<lambda>g l p. active_list_upd l p (on_lock g)"
proof (unfold_locales, goal_cases)
  case (1 l p)
  then have "afl_find (head l) p = None" by (simp add: afl_tab_def)
  then have "list_find l (cmp_str p) = None" "p \<notin> af_path ` set (head l)"
    by (auto simp: list_find_refine cmp_str_eq afl_find_def afl_find_None [symmetric])
  with 1 show ?case
    by (auto simp: active_file_list_find_def list_add_refine afl_ok_def afl_tab_def afl_find_append fun_eq_iff
        active_file_create_def split: option.splits)
next
  case (2 l p n)
  then obtain a where a: "afl_find (head l) p = Some a" "rwlock a = unlocked" "is_working a = n"
    by (auto simp: afl_tab_def)
  then have "list_find l (cmp_str p) = Some a" by (simp add: list_find_refine cmp_str_eq afl_find_def)
  with guarded_count [OF 2(1) a(1,2), of "\<lambda>n. n + 1"] a afl_find_path [OF a(1)] show ?case
    by (auto simp: active_file_list_find_def dest!: afl_tab_update)
next
  case (3 l p k n g k')
  then obtain a where a: "afl_find (head l) p = Some a" "rwlock a = k" "is_working a = n"
    by (auto simp: afl_tab_def)
  with active_list_upd_law [OF 3(1) a(1), of "on_lock g" "a\<lparr>rwlock := k'\<rparr>"] 3(3) show ?case
    by (auto simp: on_lock_def dest!: afl_tab_update)
next
  case (4 l p n)
  then obtain a where a: "afl_find (head l) p = Some a" "rwlock a = unlocked" "is_working a = n"
    by (auto simp: afl_tab_def)
  from guarded_count [OF 4(1) a(1,2), of "\<lambda>n. n - 1"] a obtain l3 where
    l3: "do { l1 \<leftarrow> active_list_upd l p (on_lock WRLOCK);
        l2 \<leftarrow> active_list_upd l1 p (\<lambda>a. Some (a\<lparr>is_working := is_working a - 1\<rparr>));
        active_list_upd l2 p (on_lock UNLOCK) } = Some l3" "afl_ok l3"
      "afl_find (head l3) = (afl_find (head l))(p \<mapsto> a\<lparr>is_working := n - 1\<rparr>)" by auto
  have f: "List.find (\<lambda>a. af_path a = p) (head l3) = Some (a\<lparr>is_working := n - 1\<rparr>)"
    using l3(3) by (simp add: afl_find_def [symmetric])
  have "active_file_finished_using l p =
      (if n - 1 = 0 then active_file_list_remove_and_destroy_element l3 p else Some l3)"
    using l3(1) f by (auto simp: active_file_finished_using_def split: bind_splits)
  with afl_remove [OF l3(2), of p] afl_tab_update [OF l3(3)] a(2) l3(2) show ?case by auto
qed

end
