(* ===== verification/Lookup.thy ===== *)
theory Lookup
  imports File_Ops Lock_Table
begin

text \<open>
  Path lookup of the server as a function of the mapped file alone. The lookup in
  \<^verbatim>\<open>file_operations.c\<close> walks the tree of active files, taking and releasing their locks;
  \<open>resolve\<close> is the same walk without them. The lemmas show that the two agree and that the table
  of active files is what it was before, in every branch.
\<close>

section \<open>The walk without locks\<close>

text \<open>The inner \<open>None\<close> is a name that is not there.\<close>

fun lookup :: "'c server \<Rightarrow> string list \<Rightarrow> nat list option \<Rightarrow> u32 option option" where
  "lookup st [] es = None"
| "lookup st (c # cs) es = do {
     entries \<leftarrow> es;
     case List.find (\<lambda>e. entry_matches (fs_file st) e c) entries of
       None \<Rightarrow> Some None
     | Some e \<Rightarrow>
         if cs = [] then Some (Some (e_inode (fs_file st) e))
         else do {
           dir \<leftarrow> Inode_Global_Read (fs_file st) (Super_constants st) (e_inode (fs_file st) e);
           new_entries \<leftarrow> read_directory st dir;
           lookup st cs new_entries } }"

text \<open>The inode address, the inode number and whether \<open>errno\<close> becomes \<open>ENOENT\<close>.\<close>

definition resolve :: "'c server \<Rightarrow> string list \<Rightarrow> (nat option \<times> u32 \<times> bool) option" where
  "resolve st cs =
     (if cs = [] then Some (Inode_Global_Read (fs_file st) (Super_constants st) ROOT_INODE_NUMBER, ROOT_INODE_NUMBER, False)
      else do {
        root \<leftarrow> Inode_Global_Read (fs_file st) (Super_constants st) ROOT_INODE_NUMBER;
        root_entries \<leftarrow> read_directory st root;
        r \<leftarrow> lookup st cs root_entries;
        let inode = (case r of None \<Rightarrow> 0 | Some i \<Rightarrow> i);
        Some (if inode > 0 then Inode_Global_Read (fs_file st) (Super_constants st) inode else None, inode, r = None) })"

definition with_table :: "'c server \<Rightarrow> active_file_t t_list \<Rightarrow> bool \<Rightarrow> 'c server" where
  "with_table st l enoent = (if enoent then st\<lparr>active_file_list := l, errno := ENOENT\<rparr> else st\<lparr>active_file_list := l\<rparr>)"

definition st_path :: "string list \<Rightarrow> string" where
  "st_path cs = (if cs = [] then ''/'' else path_of cs)"

lemma with_table_fields [simp]:
  "fs_file (with_table st l b) = fs_file st" "Super_constants (with_table st l b) = Super_constants st"
  "active_file_list (with_table st l b) = l" "memc (with_table st l b) = memc st"
  by (simp_all add: with_table_def)

lemma with_table_ops:
  "st_find (with_table st l b) p = map_option (\<lambda>l. with_table st l b) (active_file_list_find l p)"
  "st_finished (with_table st l b) p = map_option (\<lambda>l. with_table st l b) (active_file_finished_using l p)"
  "st_lock g (with_table st l b) p = map_option (\<lambda>l. with_table st l b) (active_list_upd l p (on_lock g))"
  by (auto simp: st_find_def st_finished_def st_lock_def with_table_def intro!: map_option_cong)

lemma read_directory_table [simp]: "read_directory (with_table st l b) = read_directory st"
  unfolding read_directory_def ld32_def blk_at_def with_table_fields by simp

section \<open>Sequences of lock operations\<close>

lemma lock_all_marks:
  assumes "idle T" and "afl_ok l" and "afl_tab l = marks T rs us" and "distinct ps" and "set ps \<inter> us = {}" and "rs \<subseteq> us"
  shows "\<exists>l'. lock_all (with_table st l b) ps = Some (with_table st l' b) \<and> afl_ok l' \<and>
    afl_tab l' = marks T (rs \<union> set ps) (us \<union> set ps)"
  using assms(2-6)
proof (induction ps arbitrary: l rs us)
  case (Cons p ps)
  obtain l1 where l1: "active_file_list_find l p = Some l1" "afl_ok l1" "afl_tab l1 = marks T rs (insert p us)"
    using afl.find_marks [OF assms(1) Cons.prems(1,2), of p] Cons.prems by auto
  obtain l2 where l2: "active_list_upd l1 p (on_lock RDLOCK) = Some l2" "afl_ok l2"
    "afl_tab l2 = marks T (insert p rs) (insert p us)"
    using afl.rdlock_marks [OF l1(2,3), of p] Cons.prems by auto
  obtain l3 where "lock_all (with_table st l2 b) ps = Some (with_table st l3 b)" "afl_ok l3"
    "afl_tab l3 = marks T (insert p rs \<union> set ps) (insert p us \<union> set ps)"
    using Cons.IH [OF l2(2,3)] Cons.prems by auto
  with l1 l2 show ?case by (auto simp: with_table_ops)
qed auto

lemma unlock_all_marks:
  assumes "afl_ok l" and "afl_tab l = marks T rs us" and "distinct ps" and "set ps \<subseteq> rs" and "rs \<subseteq> us"
  shows "\<exists>l'. unlock_all (with_table st l b) ps = Some (with_table st l' b) \<and> afl_ok l' \<and>
    afl_tab l' = marks T (rs - set ps) us"
  using assms
proof (induction ps arbitrary: l rs)
  case (Cons p ps)
  obtain l1 where l1: "active_list_upd l p (on_lock UNLOCK) = Some l1" "afl_ok l1" "afl_tab l1 = marks T (rs - {p}) us"
    using afl.unlock_marks [OF Cons.prems(1,2), of p] Cons.prems by auto
  obtain l2 where "unlock_all (with_table st l1 b) ps = Some (with_table st l2 b)" "afl_ok l2"
    "afl_tab l2 = marks T (rs - {p} - set ps) us"
    using Cons.IH [OF l1(2,3)] Cons.prems by auto
  moreover have "rs - {p} - set ps = rs - set (p # ps)" by auto
  ultimately show ?case using l1(1) by (auto simp: with_table_ops)
qed auto

lemma finish_all_marks:
  assumes "idle T" and "afl_ok l" and "afl_tab l = marks T {} us" and "distinct ps" and "set ps \<subseteq> us"
  shows "\<exists>l'. finish_all (with_table st l b) ps = Some (with_table st l' b) \<and> afl_ok l' \<and>
    afl_tab l' = marks T {} (us - set ps)"
  using assms(2-5)
proof (induction ps arbitrary: l us)
  case (Cons p ps)
  obtain l1 where l1: "active_file_finished_using l p = Some l1" "afl_ok l1" "afl_tab l1 = marks T {} (us - {p})"
    using afl.finished_marks [OF assms(1) Cons.prems(1,2), of p] Cons.prems by auto
  obtain l2 where "finish_all (with_table st l1 b) ps = Some (with_table st l2 b)" "afl_ok l2"
    "afl_tab l2 = marks T {} (us - {p} - set ps)"
    using Cons.IH [OF l1(2,3)] Cons.prems by auto
  moreover have "us - {p} - set ps = us - set (p # ps)" by auto
  ultimately show ?case using l1(1) by (auto simp: with_table_ops)
qed auto

lemma search_marks:
  assumes "afl_ok l" and "afl_tab l = marks T (insert prev (set ps)) us" and "distinct (prev # ps)"
    and "insert prev (set ps) \<subseteq> us" and "map active_file_get_file_name ps = map Some cs"
  shows "\<exists>l'. afl_ok l' \<and> afl_tab l' = marks T {} us \<and>
    search_in_directory (with_table st l False) prev ps es =
      map_option (\<lambda>r. (case r of None \<Rightarrow> 0 | Some i \<Rightarrow> i, with_table st l' (r = None))) (lookup st cs es)"
  using assms
proof (induction ps arbitrary: l prev cs es)
  case Nil
  obtain l' where "afl_ok l'" "afl_tab l' = marks T {} us"
    using afl.unlock_marks [OF Nil(1,2), of prev] Nil by auto
  with Nil show ?case by auto
next
  case (Cons p ps)
  obtain c cs' where cs: "cs = c # cs'" "active_file_get_file_name p = Some c" "map active_file_get_file_name ps = map Some cs'"
    using Cons.prems(5) by (cases cs) auto
  note pr = Cons.prems
  have ul: "insert prev (set (p # ps)) - {prev} = insert p (set ps)" using pr(3) by auto
  obtain l1 where l1: "active_list_upd l prev (on_lock UNLOCK) = Some l1" "afl_ok l1"
    "afl_tab l1 = marks T (insert p (set ps)) us"
    using afl.unlock_marks [OF pr(1,2), of prev] pr(4) ul by auto
  have "insert prev (set (p # ps)) - set (p # ps) = {prev}" using pr(3) by auto
  then obtain l2 where l2: "unlock_all (with_table st l False) (p # ps) = Some (with_table st l2 False)" "afl_ok l2"
    "afl_tab l2 = marks T {prev} us"
    using unlock_all_marks [OF pr(1,2), of "p # ps" st False] pr(3,4) by auto
  obtain l3 where l3: "active_list_upd l2 prev (on_lock UNLOCK) = Some l3" "afl_ok l3" "afl_tab l3 = marks T {} us"
    using afl.unlock_marks [OF l2(2,3), of prev] pr(4) by auto
  show ?case
  proof (cases es)
    case None
    with l3 cs show ?thesis by auto
  next
    case (Some entries)
    show ?thesis
    proof (cases "List.find (\<lambda>e. entry_matches (fs_file st) e c) entries")
      case None
      have "(with_table st l3 False)\<lparr>errno := ENOENT\<rparr> = with_table st l3 True" by (simp add: with_table_def)
      with None Some cs l2 l3 show ?thesis
        by (intro exI [of _ l3]) (simp add: with_table_ops del: unlock_all.simps)
    next
      case (Some e)
      note found = Some \<open>es = Some entries\<close>
      show ?thesis
      proof (cases "ps = []")
        case True
        obtain l4 where "active_list_upd l1 p (on_lock UNLOCK) = Some l4" "afl_ok l4" "afl_tab l4 = marks T {} us"
          using afl.unlock_marks [OF l1(2,3), of p] pr(4) True by auto
        with found True cs l1 show ?thesis by (intro exI [of _ l4]) (simp add: with_table_ops)
      next
        case False
        then have "cs' \<noteq> []" using cs(3) by auto
        show ?thesis
        proof (cases "do { dir \<leftarrow> Inode_Global_Read (fs_file st) (Super_constants st) (e_inode (fs_file st) e); read_directory st dir }")
          case None
          with found False \<open>cs' \<noteq> []\<close> cs l3 show ?thesis by (intro exI [of _ l3]) (auto split: bind_splits)
        next
          case (Some new_entries)
          from Cons.IH [OF l1(2,3) _ _ cs(3), of new_entries] pr(3,4) obtain l5 where
            "afl_ok l5" "afl_tab l5 = marks T {} us"
            "search_in_directory (with_table st l1 False) p ps new_entries =
              map_option (\<lambda>r. (case r of None \<Rightarrow> 0 | Some i \<Rightarrow> i, with_table st l5 (r = None))) (lookup st cs' new_entries)"
            by auto
          with Some found False \<open>cs' \<noteq> []\<close> cs l1 show ?thesis
            by (intro exI [of _ l5]) (auto simp: with_table_ops split: bind_splits)
        qed
      qed
    qed
  qed
qed

section \<open>Distinct subpaths\<close>

lemma length_path_of_ge: "cs \<noteq> [] \<Longrightarrow> \<forall>c \<in> set cs. component_ok c \<Longrightarrow> 2 \<le> length (path_of cs)"
  by (cases cs) (auto simp: component_ok_def Suc_le_eq)

lemma length_path_of_take:
  assumes "\<forall>c \<in> set cs. component_ok c" and "i < j" and "j \<le> length cs"
  shows "length (path_of (take i cs)) + 2 \<le> length (path_of (take j cs))"
proof -
  have "take j cs = take i cs @ take (j - i) (drop i cs)" using assms(2) by (simp add: take_add [symmetric])
  moreover have "2 \<le> length (path_of (take (j - i) (drop i cs)))"
    using assms by (intro length_path_of_ge) (auto dest: in_set_takeD in_set_dropD)
  ultimately show ?thesis by simp
qed

lemma distinct_tree:
  assumes ok: "\<forall>c \<in> set cs. component_ok c" and ne: "cs \<noteq> []"
  shows "distinct (''/'' # tree_of cs)"
proof -
  have len: "length (tree_of cs) = length cs" using ne tree_of_nth(1) [of 0 cs] by simp
  have lt: "length (tree_of cs ! i) < length (tree_of cs ! j)" if "i < j" "j < length cs" for i j
    using tree_of_nth(2) [of i cs] tree_of_nth(2) [of j cs] length_path_of_take [OF ok, of "Suc i" "Suc j"] that by auto
  have ge: "2 \<le> length (tree_of cs ! i)" if "i < length cs" for i
    using tree_of_nth(2) [of i cs] length_path_of_take [OF ok, of 0 "Suc i"] that by auto
  have "tree_of cs ! i \<noteq> tree_of cs ! j" if "i < length cs" "j < length cs" "i \<noteq> j" for i j
    using that lt [of i j] lt [of j i] by (cases "i < j") force+
  then have "distinct (tree_of cs)" by (simp add: distinct_conv_nth len)
  moreover have "''/'' \<notin> set (tree_of cs)" using ge by (fastforce simp: in_set_conv_nth len)
  ultimately show ?thesis by simp
qed

section \<open>The lookup with its locks\<close>

lemma split_path_root: "split_path ''/'' = Some (Some [''/''])"
  by code_simp

lemma with_table_same: "with_table st (active_file_list st) False = st"
  by (simp add: with_table_def)

lemma inode_of_file_resolves:
  assumes "idle (afl_tab l)" and "afl_ok l" and "\<forall>c \<in> set cs. component_ok c"
  shows "\<exists>l'. afl_ok l' \<and> afl_tab l' = afl_tab l \<and>
    inode_of_file (with_table st l False) (st_path cs) =
      map_option (\<lambda>(a, n, e). (a, n, with_table st l' e)) (resolve st cs)"
proof (cases "cs = []")
  case True
  obtain l1 where l1: "lock_all (with_table st l False) [''/''] = Some (with_table st l1 False)" "afl_ok l1"
    "afl_tab l1 = marks (afl_tab l) {''/''} {''/''}"
    using lock_all_marks [OF assms(1,2), of "{}" "{}" "[''/'']" st False] by auto
  obtain l2 where l2: "active_list_upd l1 ''/'' (on_lock UNLOCK) = Some l2" "afl_ok l2"
    "afl_tab l2 = marks (afl_tab l) {} {''/''}"
    using afl.unlock_marks [OF l1(2,3), of "''/''"] by auto
  obtain l3 where "active_file_finished_using l2 ''/'' = Some l3" "afl_ok l3" "afl_tab l3 = afl_tab l"
    using afl.finished_marks [OF assms(1) l2(2,3), of "''/''"] by auto
  with True l1 l2 show ?thesis
    by (intro exI [of _ l3]) (simp add: inode_of_file_def split_path_root st_path_def with_table_ops resolve_def
        del: lock_all.simps)
next
  case False
  let ?ps = "''/'' # tree_of cs"
  have len: "length (tree_of cs) = length cs" using False tree_of_nth(1) [of 0 cs] by simp
  have dist: "distinct ?ps" using distinct_tree [OF assms(3) False] .
  obtain l1 where l1: "lock_all (with_table st l False) ?ps = Some (with_table st l1 False)" "afl_ok l1"
    "afl_tab l1 = marks (afl_tab l) (set ?ps) (set ?ps)"
    using lock_all_marks [OF assms(1,2), of "{}" "{}" ?ps st False] dist by auto
  have search: "\<exists>l2. afl_ok l2 \<and> afl_tab l2 = marks (afl_tab l) {} (set ?ps) \<and>
      search_in_directory (with_table st l1 False) ''/'' (tree_of cs) es =
        map_option (\<lambda>r. (case r of None \<Rightarrow> 0 | Some i \<Rightarrow> i, with_table st l2 (r = None))) (lookup st cs es)" for es
    using search_marks [OF l1(2) _ dist _ tree_names [OF assms(3) False], of "afl_tab l" "set ?ps" st es] l1(3) by simp
  have finish: "\<exists>l3. finish_all (with_table st l2 b) ?ps = Some (with_table st l3 b) \<and> afl_ok l3 \<and> afl_tab l3 = afl_tab l"
    if "afl_ok l2" "afl_tab l2 = marks (afl_tab l) {} (set ?ps)" for l2 b
    using finish_all_marks [OF assms(1) that, of ?ps st b] dist by auto
  show ?thesis
  proof (cases "do { root \<leftarrow> Inode_Global_Read (fs_file st) (Super_constants st) ROOT_INODE_NUMBER;
      es \<leftarrow> read_directory st root; lookup st cs es }")
    case None
    have stuck: "search_in_directory (with_table st l1 False) ''/'' (tree_of cs) es = None"
      if "lookup st cs es = None" for es using search [of es] that by auto
    note open_file = inode_of_file_def st_path_def l1(1) split_path_tree [OF assms(3) False] len False
    have "inode_of_file (with_table st l False) (st_path cs) = None"
    proof (cases "Inode_Global_Read (fs_file st) (Super_constants st) ROOT_INODE_NUMBER")
      case (Some root)
      then show ?thesis
        using None by (cases "read_directory st root") (simp_all add: open_file stuck del: lock_all.simps)
    qed (simp add: open_file del: lock_all.simps)
    moreover have "resolve st cs = None" using None False by (auto simp: resolve_def split: bind_splits)
    ultimately show ?thesis using assms(2) by auto
  next
    case (Some r)
    then obtain root es where re: "Inode_Global_Read (fs_file st) (Super_constants st) ROOT_INODE_NUMBER = Some root"
      "read_directory st root = Some es" "lookup st cs es = Some r" by (auto split: bind_splits)
    obtain l2 where l2: "afl_ok l2" "afl_tab l2 = marks (afl_tab l) {} (set ?ps)"
      "search_in_directory (with_table st l1 False) ''/'' (tree_of cs) es =
        Some (case r of None \<Rightarrow> 0 | Some i \<Rightarrow> i, with_table st l2 (r = None))"
      using search [of es] re(3) by auto
    obtain l3 where "finish_all (with_table st l2 (r = None)) ?ps = Some (with_table st l3 (r = None))" "afl_ok l3"
      "afl_tab l3 = afl_tab l"
      using finish [OF l2(1,2)] by blast
    with re l1(1) l2(3) False split_path_tree [OF assms(3) False] len show ?thesis
      by (intro exI [of _ l3]) (simp add: inode_of_file_def resolve_def st_path_def Let_def del: lock_all.simps finish_all.simps)
  qed
qed

section \<open>Operations that only read\<close>

text \<open>What every operation does first: find the active file, then look the path up.\<close>

definition ready :: "'c server \<Rightarrow> string list \<Rightarrow> bool" where
  "ready st cs \<longleftrightarrow> afl_ok (active_file_list st) \<and> idle (afl_tab (active_file_list st)) \<and>
     bump (afl_tab (active_file_list st) (st_path cs)) \<noteq> 0 \<and> (\<forall>c \<in> set cs. component_ok c)"

lemma find_and_resolve:
  assumes "ready st cs"
  shows "\<exists>l1 l2. st_find st (st_path cs) = Some (with_table st l1 False) \<and>
    inode_of_file (with_table st l1 False) (st_path cs) =
      map_option (\<lambda>(a, n, e). (a, n, with_table st l2 e)) (resolve st cs) \<and>
    afl_ok l2 \<and> afl_tab l2 = marks (afl_tab (active_file_list st)) {} {st_path cs}"
proof -
  let ?T = "afl_tab (active_file_list st)"
  obtain l1 where l1: "active_file_list_find (active_file_list st) (st_path cs) = Some l1" "afl_ok l1"
    "afl_tab l1 = marks ?T {} {st_path cs}"
    using afl.find_marks [of ?T "active_file_list st" "{}" "{}" "st_path cs"] assms by (auto simp: ready_def)
  have "st_find st (st_path cs) = Some (with_table st l1 False)"
    using with_table_ops(1) [of st "active_file_list st" False] l1(1) by (simp add: with_table_same)
  moreover have "idle (afl_tab l1)"
    using assms by (auto simp: l1(3) ready_def idle_def marks_def)
  with inode_of_file_resolves [of l1 cs st] l1(2,3) assms have "\<exists>l2. afl_ok l2 \<and> afl_tab l2 = marks ?T {} {st_path cs} \<and>
      inode_of_file (with_table st l1 False) (st_path cs) =
        map_option (\<lambda>(a, n, e). (a, n, with_table st l2 e)) (resolve st cs)"
    by (auto simp: ready_def)
  ultimately show ?thesis by blast
qed

lemma read_locked:
  assumes "ready st cs" and "afl_ok l2" and "afl_tab l2 = marks (afl_tab (active_file_list st)) {} {st_path cs}"
  shows "\<exists>l3 l4 l5. active_list_upd l2 (st_path cs) (on_lock RDLOCK) = Some l3 \<and>
    active_list_upd l3 (st_path cs) (on_lock UNLOCK) = Some l4 \<and>
    active_file_finished_using l4 (st_path cs) = Some l5 \<and> afl_ok l5 \<and> afl_tab l5 = afl_tab (active_file_list st)"
proof -
  let ?T = "afl_tab (active_file_list st)"
  obtain l3 where l3: "active_list_upd l2 (st_path cs) (on_lock RDLOCK) = Some l3" "afl_ok l3"
    "afl_tab l3 = marks ?T {st_path cs} {st_path cs}"
    using afl.rdlock_marks [OF assms(2,3), of "st_path cs"] by auto
  obtain l4 where l4: "active_list_upd l3 (st_path cs) (on_lock UNLOCK) = Some l4" "afl_ok l4"
    "afl_tab l4 = marks ?T {} {st_path cs}"
    using afl.unlock_marks [OF l3(2,3), of "st_path cs"] by auto
  obtain l5 where "active_file_finished_using l4 (st_path cs) = Some l5" "afl_ok l5" "afl_tab l5 = ?T"
    using afl.finished_marks [OF _ l4(2,3), of "st_path cs"] assms(1) by (auto simp: ready_def)
  with l3 l4 show ?thesis by blast
qed

section \<open>An example\<close>

definition root_params :: params_t where
  "root_params = \<lparr>p_path = ''/'', p_mode = 0, write_buffer = [], p_file = False, p_offset = 0, bytes_to_read = 0,
     bytes_to_write = 0, p_size = 0, p_socket = 0\<rparr>"

lemma demo_ready: "ready demo_server []" "p_path root_params = st_path []"
  by (simp_all add: ready_def demo_server_def afl_ok_def afl_tab_def idle_def bump_def list_create_def list_ok_def
      root_params_def st_path_def)

lemma demo_root: "resolve demo_server [] = Some (Some 128, 2, False)"
  by (simp add: resolve_def ROOT_INODE_NUMBER_def Inode_Global_Read_def Inode_Local_Read_def Inode_readTable_def
      Group_Descriptor_read_def Inode_locateGroup_def Inode_getLocalIndex_def demo_defs load32_def load_bytes_def upt_rec
      sizeof_inode_def)

definition stat_at :: "'c server \<Rightarrow> nat \<Rightarrow> u32 \<Rightarrow> reduced_stat_t" where
  "stat_at st inode n = \<lparr>rs_inode_number = n, rs_mode = ld16 st (inode + inode_off I_mode),
     rs_size = ld32 st (inode + inode_off I_size), rs_links_count = ld16 st (inode + inode_off I_links_count)\<rparr>"

lemma getattr_lookup:
  assumes "ready st cs" and "p_path params = st_path cs"
  shows "\<exists>l. afl_ok l \<and> afl_tab l = afl_tab (active_file_list st) \<and>
    getattr params st = map_option (\<lambda>(a, n, enoent).
      (new_result params (case a of None \<Rightarrow> D_null | Some inode \<Rightarrow> D_stat (stat_at st inode n)),
       with_table st l enoent)) (resolve st cs)"
proof -
  obtain l1 l2 where f: "st_find st (st_path cs) = Some (with_table st l1 False)"
    "inode_of_file (with_table st l1 False) (st_path cs) = map_option (\<lambda>(a, n, e). (a, n, with_table st l2 e)) (resolve st cs)"
    "afl_ok l2" "afl_tab l2 = marks (afl_tab (active_file_list st)) {} {st_path cs}"
    using find_and_resolve [OF assms(1)] by blast
  obtain l3 l4 l5 where l: "active_list_upd l2 (st_path cs) (on_lock RDLOCK) = Some l3"
    "active_list_upd l3 (st_path cs) (on_lock UNLOCK) = Some l4"
    "active_file_finished_using l4 (st_path cs) = Some l5" "afl_ok l5" "afl_tab l5 = afl_tab (active_file_list st)"
    using read_locked [OF assms(1) f(3,4)] by blast
  show ?thesis
    using l by (intro exI [of _ l5], cases "resolve st cs")
      (auto simp: getattr_def assms(2) f with_table_ops stat_at_def ld16_def ld32_def split: option.splits)
qed

text \<open>
  C17: \<open>getattr\<close> returns the attributes of the inode the path resolves to, or no data and
  \<open>ENOENT\<close>; it changes nothing in the mapped file, and whatever the outcome every lock it took
  on the way is released and the table of active files has the same entries, locks and user
  counts as before.
\<close>

theorem getattr_resolves:
  assumes "ready st cs" and "p_path params = st_path cs"
  shows "\<exists>l. afl_ok l \<and> afl_tab l = afl_tab (active_file_list st) \<and>
    getattr params st = map_option (\<lambda>(a, n, enoent).
      (new_result params (case a of None \<Rightarrow> D_null | Some inode \<Rightarrow> D_stat (stat_at st inode n)),
       with_table st l enoent)) (resolve st cs)"
  using assms by (rule getattr_lookup)

lemma getattr_resolves_witness:
  "\<exists>l. afl_tab l = afl_tab (active_file_list demo_server) \<and>
    getattr root_params demo_server =
      Some (new_result root_params (D_stat (stat_at demo_server 128 2)), with_table demo_server l False)"
  using getattr_resolves [OF demo_ready] by (auto simp: demo_root)

lemma open_lookup:
  assumes "ready st cs" and "p_path params = st_path cs"
  shows "\<exists>l. afl_tab l = afl_tab (active_file_list st) \<and>
    open_file params st = map_option (\<lambda>(a, n, enoent).
      (new_result params (D_word (if a = None then 1 else 0)), with_table st l enoent)) (resolve st cs)"
proof -
  obtain l1 l2 where f: "st_find st (st_path cs) = Some (with_table st l1 False)"
    "inode_of_file (with_table st l1 False) (st_path cs) = map_option (\<lambda>(a, n, e). (a, n, with_table st l2 e)) (resolve st cs)"
    "afl_ok l2" "afl_tab l2 = marks (afl_tab (active_file_list st)) {} {st_path cs}"
    using find_and_resolve [OF assms(1)] by blast
  obtain l6 where l6: "active_file_finished_using l2 (st_path cs) = Some l6" "afl_tab l6 = afl_tab (active_file_list st)"
    using afl.finished_marks [OF _ f(3,4), of "st_path cs"] assms(1) by (auto simp: ready_def)
  then show ?thesis
    by (intro exI [of _ l6], cases "resolve st cs") (auto simp: open_file_def assms(2) f with_table_ops split: option.splits)
qed

lemma i_mode_table [simp]: "i_mode (with_table st k e) inode = i_mode st inode"
  by (simp add: i_mode_def ld16_def)

lemma table_errno_ops:
  "st_lock g ((with_table st k e)\<lparr>errno := x\<rparr>) p =
    map_option (\<lambda>k. (with_table st k e)\<lparr>errno := x\<rparr>) (active_list_upd k p (on_lock g))"
  "st_finished ((with_table st k e)\<lparr>errno := x\<rparr>) p =
    map_option (\<lambda>k. (with_table st k e)\<lparr>errno := x\<rparr>) (active_file_finished_using k p)"
  by (auto simp: st_lock_def st_finished_def with_table_def intro!: map_option_cong)

lemma list_lookup:
  assumes "ready st cs" and "p_path params = st_path cs"
  shows "\<exists>l. afl_ok l \<and> afl_tab l = afl_tab (active_file_list st) \<and>
    list_directory params st = do {
      (a, n, enoent) \<leftarrow> resolve st cs;
      case a of
        None \<Rightarrow> Some (new_result params D_null, with_table st l enoent)
      | Some inode \<Rightarrow>
          if i_mode st inode AND EXT2_IFDIR \<noteq> 0 then
            map_option (\<lambda>es. (new_result params (case es of None \<Rightarrow> D_null | Some l \<Rightarrow> D_entries l), with_table st l enoent))
              (read_directory st inode)
          else Some (new_result params D_null, (with_table st l enoent)\<lparr>errno := ENOTDIR\<rparr>) }"
proof -
  obtain l1 l2 where f: "st_find st (st_path cs) = Some (with_table st l1 False)"
    "inode_of_file (with_table st l1 False) (st_path cs) = map_option (\<lambda>(a, n, e). (a, n, with_table st l2 e)) (resolve st cs)"
    "afl_ok l2" "afl_tab l2 = marks (afl_tab (active_file_list st)) {} {st_path cs}"
    using find_and_resolve [OF assms(1)] by blast
  obtain l3 l4 l5 where l: "active_list_upd l2 (st_path cs) (on_lock RDLOCK) = Some l3"
    "active_list_upd l3 (st_path cs) (on_lock UNLOCK) = Some l4"
    "active_file_finished_using l4 (st_path cs) = Some l5" "afl_ok l5" "afl_tab l5 = afl_tab (active_file_list st)"
    using read_locked [OF assms(1) f(3,4)] by blast
  show ?thesis
  proof (intro exI [of _ l5] conjI l(4,5), cases "resolve st cs")
    case (Some r)
    obtain a n e where r: "r = (a, n, e)" by (cases r)
    show "list_directory params st = do {
      (a, n, enoent) \<leftarrow> resolve st cs;
      case a of
        None \<Rightarrow> Some (new_result params D_null, with_table st l5 enoent)
      | Some inode \<Rightarrow>
          if i_mode st inode AND EXT2_IFDIR \<noteq> 0 then
            map_option (\<lambda>es. (new_result params (case es of None \<Rightarrow> D_null | Some l \<Rightarrow> D_entries l), with_table st l5 enoent))
              (read_directory st inode)
          else Some (new_result params D_null, (with_table st l5 enoent)\<lparr>errno := ENOTDIR\<rparr>) }"
    proof (cases a)
      case None
      with l Some r show ?thesis by (simp add: list_directory_def assms(2) f with_table_ops)
    next
      case (Some inode)
      show ?thesis
        using \<open>resolve st cs = Some r\<close> r Some l
        by (cases "read_directory st inode") (simp_all add: list_directory_def assms(2) f with_table_ops table_errno_ops)
    qed
  qed (simp add: list_directory_def assms(2) f)
qed

text \<open>
  \<open>open_file\<close> succeeds exactly when the path resolves to an inode, and \<open>list_directory\<close> returns
  the entries of the directory it resolves to, \<open>ENOTDIR\<close> for a file, and no data when there is
  nothing there; both leave the table of active files as it was.
\<close>

theorem open_and_list_resolve:
  assumes "ready st cs" and "p_path params = st_path cs"
  shows "\<exists>l l'. afl_tab l = afl_tab (active_file_list st) \<and> afl_tab l' = afl_tab (active_file_list st) \<and>
    open_file params st = map_option (\<lambda>(a, n, enoent).
      (new_result params (D_word (if a = None then 1 else 0)), with_table st l enoent)) (resolve st cs) \<and>
    list_directory params st = do {
      (a, n, enoent) \<leftarrow> resolve st cs;
      case a of
        None \<Rightarrow> Some (new_result params D_null, with_table st l' enoent)
      | Some inode \<Rightarrow>
          if i_mode st inode AND EXT2_IFDIR \<noteq> 0 then
            map_option (\<lambda>es. (new_result params (case es of None \<Rightarrow> D_null | Some l \<Rightarrow> D_entries l), with_table st l' enoent))
              (read_directory st inode)
          else Some (new_result params D_null, (with_table st l' enoent)\<lparr>errno := ENOTDIR\<rparr>) }"
  using open_lookup [OF assms] list_lookup [OF assms] by blast

lemma open_and_list_resolve_witness:
  "\<exists>l. afl_tab l = afl_tab (active_file_list demo_server) \<and>
    open_file root_params demo_server = Some (new_result root_params (D_word 0), with_table demo_server l False)"
  using open_and_list_resolve [OF demo_ready] by (auto simp: demo_root)

end
