(* ===== verification/File_Read.thy ===== *)
theory File_Read
  imports Lookup
begin

text \<open>
  The block cache and reading of \<^verbatim>\<open>rfs/source_RFS/file_operations.c\<close>. What is assumed of
  libmemcached is \<open>cache_laws\<close>: it may forget anything at any time, and what it returns for a
  key is the last value stored under it. With that, the cache only ever returns the block of the
  mapped file, and \<open>read_file\<close> returns the bytes of the file, except for the requests whose tail
  its block loop skips.
\<close>

section \<open>The cache\<close>

type_synonym 'c cache_view = "'c \<Rightarrow> u8 list \<Rightarrow> u8 list option"

definition cache_laws :: "'c memcached_lib \<Rightarrow> 'c cache_view \<Rightarrow> bool" where
  "cache_laws lib view \<longleftrightarrow>
     (\<forall>c k. (fst (memcached_get lib c k) \<noteq> None \<longrightarrow> view c k = fst (memcached_get lib c k)) \<and>
        view (snd (memcached_get lib c k)) \<subseteq>\<^sub>m view c) \<and>
     (\<forall>c k v. view (memcached_set lib c k v) \<subseteq>\<^sub>m (view c)(k \<mapsto> v)) \<and>
     (\<forall>c k. view (memcached_delete lib c k) \<subseteq>\<^sub>m (view c)(k := None))"

definition coherent :: "'c cache_view \<Rightarrow> 'c server \<Rightarrow> string \<Rightarrow> u32 list \<Rightarrow> bool" where
  \<comment> \<open>Whatever is cached for a block of the file is the content of that block.\<close>
  "coherent view st path file_data \<longleftrightarrow>
     (\<forall>b data. view (memc st) (generate_key path b) = Some data \<longrightarrow>
       unat b < length file_data \<and> data = block_bytes st (file_data ! unat b))"

lemma generate_key_inject [simp]: "generate_key p b = generate_key q c \<longleftrightarrow> p = q \<and> b = c"
proof
  assume k: "generate_key p b = generate_key q c"
  then have "length p = length q" by (auto simp: generate_key_def dest: arg_cong [of _ _ length])
  with k have "p = q" "le_bytes 4 (unat b) = le_bytes 4 (unat c)" by (simp_all add: generate_key_def)
  then show "p = q \<and> b = c" using unat_lt_u32 [of b] unat_lt_u32 [of c] by (simp add: le_bytes_inject word_unat_eq_iff)
qed simp

lemma block_bytes_memc [simp]: "block_bytes (st\<lparr>memc := c\<rparr>) = block_bytes st"
  by (simp add: block_bytes_def blk_at_def fun_eq_iff)

lemma cache_laws_get:
  assumes "cache_laws lib view" and "memcached_get lib c k = (r, c')"
  shows "r = Some v \<Longrightarrow> view c k = Some v" and "view c' k' = Some v \<Longrightarrow> view c k' = Some v"
proof -
  have "r \<noteq> None \<longrightarrow> view c k = r" "view c' \<subseteq>\<^sub>m view c"
    using assms unfolding cache_laws_def by (metis fst_conv, metis snd_conv)
  then show "r = Some v \<Longrightarrow> view c k = Some v" "view c' k' = Some v \<Longrightarrow> view c k' = Some v"
    by (auto simp: map_le_def dom_def)
qed

lemma cache_laws_set:
  assumes "cache_laws lib view" and "view (memcached_set lib c k v) k' = Some w"
  shows "if k' = k then w = v else view c k' = Some w"
proof -
  have "view (memcached_set lib c k v) \<subseteq>\<^sub>m (view c)(k \<mapsto> v)" using assms(1) by (simp add: cache_laws_def)
  with assms(2) have "((view c)(k \<mapsto> v)) k' = Some w" by (metis map_le_def domI)
  then show ?thesis by (auto split: if_splits)
qed

lemma cache_laws_delete:
  assumes "cache_laws lib view" and "view (memcached_delete lib c k) k' = Some w"
  shows "k' \<noteq> k" "view c k' = Some w"
proof -
  have "view (memcached_delete lib c k) \<subseteq>\<^sub>m (view c)(k := None)" using assms(1) by (simp add: cache_laws_def)
  with assms(2) have "((view c)(k := None)) k' = Some w" by (metis map_le_def domI)
  then show "k' \<noteq> k" "view c k' = Some w" by (auto split: if_splits)
qed

lemma coherent_update:
  assumes "\<And>k w. view c k = Some w \<Longrightarrow>
      if k = generate_key path b then w = block_bytes st (fd ! unat b) else view (memc st) k = Some w"
    and "coherent view st path fd" and "unat b < length fd"
  shows "coherent view (st\<lparr>memc := c\<rparr>) path fd"
    and "q \<noteq> path \<Longrightarrow> coherent view st q fq \<Longrightarrow> coherent view (st\<lparr>memc := c\<rparr>) q fq"
proof -
  show "coherent view (st\<lparr>memc := c\<rparr>) path fd"
    unfolding coherent_def
  proof (intro allI impI)
    fix b' data
    assume "view (memc (st\<lparr>memc := c\<rparr>)) (generate_key path b') = Some data"
    then have "if b' = b then data = block_bytes st (fd ! unat b) else view (memc st) (generate_key path b') = Some data"
      using assms(1) [of "generate_key path b'" data] by simp
    then show "unat b' < length fd \<and> data = block_bytes (st\<lparr>memc := c\<rparr>) (fd ! unat b')"
      using assms(2,3) by (cases "b' = b") (simp_all add: coherent_def)
  qed
  assume q: "q \<noteq> path" "coherent view st q fq"
  show "coherent view (st\<lparr>memc := c\<rparr>) q fq"
    unfolding coherent_def
  proof (intro allI impI)
    fix b' data
    assume "view (memc (st\<lparr>memc := c\<rparr>)) (generate_key q b') = Some data"
    then have "view (memc st) (generate_key q b') = Some data" using assms(1) [of "generate_key q b'" data] q(1) by simp
    then show "unat b' < length fq \<and> data = block_bytes (st\<lparr>memc := c\<rparr>) (fq ! unat b')"
      using q(2) by (simp add: coherent_def)
  qed
qed

lemma cache_get_ok:
  assumes laws: "cache_laws lib view" and co: "coherent view st (p_path params) fd" and b: "unat b < length fd"
  shows "\<exists>c flag. cache_fs_get_set lib params b st fd = Some (block_bytes st (fd ! unat b), flag, st\<lparr>memc := c\<rparr>) \<and>
    coherent view (st\<lparr>memc := c\<rparr>) (p_path params) fd \<and>
    (\<forall>q fq. q \<noteq> p_path params \<and> coherent view st q fq \<longrightarrow> coherent view (st\<lparr>memc := c\<rparr>) q fq)"
proof -
  let ?k = "generate_key (p_path params) b" and ?d = "block_bytes st (fd ! unat b)"
  obtain r c where g: "memcached_get lib (memc st) ?k = (r, c)" by (cases "memcached_get lib (memc st) ?k")
  note get = cache_laws_get [OF laws g]
  show ?thesis
  proof (cases r)
    case (Some d)
    then have d: "d = ?d" using get(1) co by (simp add: coherent_def)
    have upd: "view c k = Some w \<Longrightarrow> if k = ?k then w = ?d else view (memc st) k = Some w" for k w
      using get(2) [of k w] co by (auto simp: coherent_def)
    show ?thesis
      using Some g d coherent_update [OF upd co b]
      by (intro exI [of _ c] exI [of _ True]) (simp add: cache_fs_get_set_def)
  next
    case None
    let ?c = "memcached_set lib c ?k ?d"
    have upd: "view ?c k = Some w \<Longrightarrow> if k = ?k then w = ?d else view (memc st) k = Some w" for k w
      using cache_laws_set [OF laws, of c ?k ?d k w] get(2) [of k w] by (auto split: if_splits)
    show ?thesis
      using None g b coherent_update [OF upd co b]
      by (intro exI [of _ ?c] exI [of _ False]) (simp add: cache_fs_get_set_def Let_def)
  qed
qed

section \<open>Reading\<close>

definition bytes_from :: "'c server \<Rightarrow> u32 list \<Rightarrow> nat \<Rightarrow> u8 list" where
  \<comment> \<open>The bytes of the file from block \<open>i\<close> on.\<close>
  "bytes_from st file_data i = concat (map (block_bytes st) (drop i file_data))"

lemma bytes_from_Suc: "i < length fd \<Longrightarrow> bytes_from st fd i = block_bytes st (fd ! i) @ bytes_from st fd (Suc i)"
  by (simp add: bytes_from_def Cons_nth_drop_Suc [symmetric])

lemma bytes_from_memc [simp]: "bytes_from (st\<lparr>memc := c\<rparr>) = bytes_from st"
  by (simp add: bytes_from_def fun_eq_iff)

lemma length_block_bytes [simp]: "length (block_bytes st b) = unat (BLOCK_SIZE (Super_constants st))"
  by (simp add: block_bytes_def)

lemma length_bytes_from: "length (bytes_from st bs 0) = length bs * unat (BLOCK_SIZE (Super_constants st))"
  by (simp add: bytes_from_def length_concat o_def sum_list_triv)

lemma take_block:
  "length xs = n \<Longrightarrow> m = (if n < k then n else k) \<Longrightarrow> take k (xs @ ys) = take m xs @ take (k - m) ys"
  by auto

lemma read_blocks_ok:
  assumes laws: "cache_laws lib view" and sz: "0 < sz" "length fd < 2 ^ 32"
    and "unat (BLOCK_SIZE (Super_constants st)) = sz" and "coherent view st (p_path params) fd"
    and "rs + k \<le> length buf" and "k \<le> (length fd - unat b) * sz"
  shows "\<exists>c. read_blocks lib params st fd b (int k) rs buf =
      Some (take rs buf @ take k (bytes_from st fd (unat b)) @ drop (rs + k) buf, st\<lparr>memc := c\<rparr>) \<and>
    coherent view (st\<lparr>memc := c\<rparr>) (p_path params) fd"
  using assms(4-7)
proof (induction k arbitrary: st b rs buf rule: less_induct)
  case (less k)
  show ?case
  proof (cases "k = 0")
    case True
    with less.prems(2) show ?thesis by (intro exI [of _ "memc st"]) (simp add: read_blocks.simps)
  next
    case False
    define n where "n = (if sz < k then sz else k)"
    have ub: "uint (BLOCK_SIZE (Super_constants st)) = int sz" using less.prems(1) by (simp add: uint_nat)
    have b: "unat b < length fd" using less.prems(4) False by (metis diff_is_0_eq' mult_is_0 le_zero_eq not_less)
    obtain c flag where g: "cache_fs_get_set lib params b st fd = Some (block_bytes st (fd ! unat b), flag, st\<lparr>memc := c\<rparr>)"
      "coherent view (st\<lparr>memc := c\<rparr>) (p_path params) fd"
      using cache_get_ok [OF laws less.prems(2) b] by blast
    define buf' where "buf' = take rs buf @ take n (block_bytes st (fd ! unat b)) @ drop (rs + n) buf"
    have n: "0 < n" "n \<le> k" "n \<le> sz" using False sz(1) by (auto simp: n_def)
    have copy: "copy_out buf rs (block_bytes st (fd ! unat b)) 0 n = Some buf'"
      using n less.prems(1,3) by (simp add: copy_out_def buf'_def)
    have b1: "unat (b + 1) = Suc (unat b)" using b sz(2) by (simp add: unat_word_ariths)
    have "length fd - unat b = Suc (length fd - unat (b + 1))" using b b1 by simp
    then have "k \<le> sz + (length fd - unat (b + 1)) * sz" using less.prems(4) by simp
    then have room: "k - n \<le> (length fd - unat (b + 1)) * sz" by (auto simp: n_def)
    have len: "rs + n + (k - n) \<le> length buf'" using n less.prems(1,3) by (simp add: buf'_def)
    obtain c' where r: "read_blocks lib params (st\<lparr>memc := c\<rparr>) fd (b + 1) (int (k - n)) (rs + n) buf' =
        Some (take (rs + n) buf' @ take (k - n) (bytes_from st fd (unat (b + 1))) @ drop (rs + n + (k - n)) buf', st\<lparr>memc := c'\<rparr>)"
      "coherent view (st\<lparr>memc := c'\<rparr>) (p_path params) fd"
      using less.IH [of "k - n" "st\<lparr>memc := c\<rparr>" "rs + n" buf' "b + 1"] n less.prems(1) g(2) len room by auto
    have "read_blocks lib params st fd b (int k) rs buf =
        read_blocks lib params (st\<lparr>memc := c\<rparr>) fd (b + 1) (int (k - n)) (rs + n) buf'"
      using False sz(1) g(1) copy n
      by (subst read_blocks.simps) (simp add: ub Let_def n_def of_nat_diff split: if_splits)
    moreover have "take (rs + n) buf' = take rs buf @ take n (block_bytes st (fd ! unat b))"
      "drop (rs + n + (k - n)) buf' = drop (rs + k) buf"
      using n less.prems(1,3) by (simp_all add: buf'_def add.commute)
    moreover have "take k (bytes_from st fd (unat b)) =
        take n (block_bytes st (fd ! unat b)) @ take (k - n) (bytes_from st fd (unat (b + 1)))"
      unfolding bytes_from_Suc [OF b] b1 by (rule take_block) (simp_all add: less.prems(1) n_def)
    ultimately show ?thesis using r by (intro exI [of _ c']) simp
  qed
qed

lemma drop_blocks:
  "i \<le> length fd \<Longrightarrow> drop (i * unat (BLOCK_SIZE (Super_constants st))) (bytes_from st fd 0) = bytes_from st fd i"
proof (induction i)
  case (Suc i)
  let ?sz = "unat (BLOCK_SIZE (Super_constants st))"
  have "drop (Suc i * ?sz) (bytes_from st fd 0) = drop ?sz (drop (i * ?sz) (bytes_from st fd 0))" by simp
  also have "\<dots> = drop ?sz (bytes_from st fd i)" using Suc by simp
  also have "\<dots> = bytes_from st fd (Suc i)" using Suc.prems bytes_from_Suc [of i fd st] by simp
  finally show ?case .
qed simp

lemma blocks_of_size:
  assumes "4 \<le> unat (BLOCK_SIZE sc)" and "0 < unat isize" and "Inode_Get_Data_Adressess fs sc inode isize = Some fd"
  shows "unat isize \<le> (length fd - 1) * unat (BLOCK_SIZE sc)" "length fd < 2 ^ 32" "0 < length fd"
proof -
  let ?sz = "unat (BLOCK_SIZE sc)" and ?n = "unat isize"
  have p: "0 < ptrs_per_block sc" using assms(1) by (simp add: ptrs_per_block_def div_greater_zero_iff)
  have s: "Size_In_Blocks sc isize = ?n div ?sz + (if 0 < ?n mod ?sz then 1 else 0)"
    by (simp add: Size_In_Blocks_def unat_div unat_mod word_less_nat_alt)
  have "0 < Size_In_Blocks sc isize" using assms(1,2) unfolding s by (auto simp: div_greater_zero_iff)
  then have len: "length fd = Suc (Size_In_Blocks sc isize)"
    using assms(3) data_addresses_cases [OF p, of fs inode isize] by (auto simp: Let_def split: if_splits)
  define q r where "q = ?n div ?sz" and "r = ?n mod ?sz"
  have "?n = q * ?sz + r" unfolding q_def r_def by simp
  moreover have "r \<le> ?sz" using assms(1) by (simp add: r_def less_imp_le)
  moreover have "length fd - 1 = q + (if 0 < r then 1 else 0)" unfolding len s q_def r_def by simp
  ultimately show "?n \<le> (length fd - 1) * ?sz" by (auto simp: add_mult_distrib)
  have "?n div ?sz \<le> ?n div 4" using assms(1) by (simp add: div_le_mono2)
  then show "length fd < 2 ^ 32" using unat_lt_u32 [of isize] unfolding len s by auto
  show "0 < length fd" using len by simp
qed

lemma with_table_reads [simp]:
  "ld32 (with_table st l e) = ld32 st" "i_mode (with_table st l e) = i_mode st"
  "block_bytes (with_table st l e) = block_bytes st"
  by (simp_all add: fun_eq_iff ld32_def i_mode_def ld16_def block_bytes_def blk_at_def)

lemma with_table_cache [simp]:
  "bytes_from (with_table st l e) = bytes_from st" "coherent view (with_table st l e) = coherent view st"
  by (simp_all add: fun_eq_iff bytes_from_def coherent_def)

lemma locked_memc_ops:
  "st_lock g ((with_table st l e)\<lparr>memc := c\<rparr>) p = map_option (\<lambda>l. (with_table st l e)\<lparr>memc := c\<rparr>) (active_list_upd l p (on_lock g))"
  "st_finished ((with_table st l e)\<lparr>memc := c\<rparr>) p =
    map_option (\<lambda>l. (with_table st l e)\<lparr>memc := c\<rparr>) (active_file_finished_using l p)"
  by (auto simp: st_lock_def st_finished_def with_table_def intro!: map_option_cong)

text \<open>How many bytes a request asks for inside the file, and how many of them are read: those after
  the first block are skipped when they would fit the rest of the first block.\<close>

definition wanted :: "u32 \<Rightarrow> params_t \<Rightarrow> nat" where
  "wanted isize params = min (unat (bytes_to_read params)) (unat isize - unat (p_offset params))"

definition delivered_bytes :: "nat \<Rightarrow> u32 \<Rightarrow> params_t \<Rightarrow> nat" where
  "delivered_bytes sz isize params =
     (let rest = sz - unat (p_offset params) mod sz; w = wanted isize params
      in if w \<le> rest \<or> 2 * rest < w then w else rest)"

text \<open>The part of \<open>read_file\<close> under the lock.\<close>

lemma read_under_lock:
  assumes laws: "cache_laws lib view" and co: "coherent view st (p_path params) fd"
    and sz: "sz = unat (BLOCK_SIZE (Super_constants st))" "4 \<le> sz"
    and fd: "Inode_Get_Data_Adressess (fs_file st) (Super_constants st) inode isize = Some fd"
    and off: "p_offset params < isize"
    and b: "b = p_offset params div BLOCK_SIZE (Super_constants st)" and r: "r = unat (p_offset params) mod sz"
    and n: "n = min (wanted isize params) (sz - r)"
  shows "\<exists>c flag buf c'. cache_fs_get_set lib params b st fd = Some (block_bytes st (fd ! unat b), flag, st\<lparr>memc := c\<rparr>) \<and>
    copy_out (replicate (unat (bytes_to_read params)) 0) 0 (block_bytes st (fd ! unat b)) r n = Some buf \<and>
    (if wanted isize params - n > sz - r
     then read_blocks lib params (st\<lparr>memc := c\<rparr>) fd (b + 1) (int (wanted isize params - n)) n buf
     else Some (buf, st\<lparr>memc := c\<rparr>)) =
      Some (take (delivered_bytes sz isize params) (drop (unat (p_offset params)) (bytes_from st fd 0)) @
        replicate (unat (bytes_to_read params) - delivered_bytes sz isize params) 0, st\<lparr>memc := c'\<rparr>) \<and>
    coherent view (st\<lparr>memc := c'\<rparr>) (p_path params) fd"
proof -
  let ?o = "unat (p_offset params)" and ?w = "wanted isize params" and ?B = "unat (bytes_to_read params)"
  have o: "?o < unat isize" using off by (simp add: word_less_nat_alt)
  have sz0: "0 < sz" using sz(2) by simp
  have ub: "unat b = ?o div sz" by (simp add: b sz(1) unat_div)
  have ob: "?o = unat b * sz + r" "r < sz" using sz0 by (simp_all add: ub r)
  note fdl = blocks_of_size [OF sz(2) [unfolded sz(1)] _ fd, folded sz(1)]
  have fdl: "unat isize \<le> (length fd - 1) * sz" "length fd < 2 ^ 32" "0 < length fd" using fdl o by auto
  have "unat b * sz < (length fd - 1) * sz" using ob o fdl(1) by linarith
  then have blt: "unat b < length fd - 1" "unat b < length fd" by auto
  have wB: "?w \<le> ?B" "?w \<le> unat isize - ?o" by (simp_all add: wanted_def)
  obtain c flag where g: "cache_fs_get_set lib params b st fd = Some (block_bytes st (fd ! unat b), flag, st\<lparr>memc := c\<rparr>)"
    "coherent view (st\<lparr>memc := c\<rparr>) (p_path params) fd"
    using cache_get_ok [OF laws co blt(2)] by blast
  define buf where "buf = take n (drop r (block_bytes st (fd ! unat b))) @ replicate (?B - n) (0 :: u8)"
  have nle: "n \<le> ?B" "n + r \<le> sz" using n wB ob(2) by auto
  have copy: "copy_out (replicate ?B 0) 0 (block_bytes st (fd ! unat b)) r n = Some buf"
    using nle by (simp add: copy_out_def buf_def sz(1) add.commute)
  have first: "drop ?o (bytes_from st fd 0) = drop r (block_bytes st (fd ! unat b)) @ bytes_from st fd (Suc (unat b))"
  proof -
    have "drop ?o (bytes_from st fd 0) = drop r (drop (unat b * sz) (bytes_from st fd 0))" by (simp add: ob(1) add.commute)
    also have "\<dots> = drop r (bytes_from st fd (unat b))" using drop_blocks [of "unat b" fd st] blt by (simp add: sz(1))
    finally show ?thesis using bytes_from_Suc [of "unat b" fd st] blt ob(2) by (simp add: sz(1))
  qed
  have ld: "length (drop r (block_bytes st (fd ! unat b))) = sz - r" by (simp add: sz(1))
  show ?thesis
  proof (cases "?w - n > sz - r")
    case True
    then have n': "n = sz - r" "sz - r < ?w" "2 * (sz - r) < ?w" using n by auto
    then have d: "delivered_bytes sz isize params = ?w" by (simp add: delivered_bytes_def Let_def r)
    have b1: "unat (b + 1) = Suc (unat b)" using blt fdl(2) by (simp add: unat_word_ariths)
    have "?w \<le> (length fd - 1) * sz - ?o" using wB(2) fdl(1) by linarith
    also have "\<dots> = (sz - r) + (length fd - 1 - Suc (unat b)) * sz"
    proof -
      have "length fd - 1 = unat b + 1 + (length fd - 1 - Suc (unat b))" using blt by simp
      then have "(length fd - 1) * sz = unat b * sz + sz + (length fd - 1 - Suc (unat b)) * sz"
        by (metis add_mult_distrib mult_1)
      then show ?thesis using ob by linarith
    qed
    finally have "?w - n \<le> (length fd - 1 - Suc (unat b)) * sz" using n'(1) by linarith
    also have "\<dots> \<le> (length fd - unat (b + 1)) * sz" using b1 by (intro mult_le_mono1) simp
    finally have room: "?w - n \<le> (length fd - unat (b + 1)) * sz" .
    have len: "n + (?w - n) \<le> length buf" using n' wB(1) nle by (simp add: buf_def sz(1))
    from read_blocks_ok [OF laws sz0 fdl(2) _ g(2) len room] obtain c' where
      rb: "read_blocks lib params (st\<lparr>memc := c\<rparr>) fd (b + 1) (int (?w - n)) n buf =
        Some (take n buf @ take (?w - n) (bytes_from st fd (Suc (unat b))) @ drop (n + (?w - n)) buf, st\<lparr>memc := c'\<rparr>)"
        "coherent view (st\<lparr>memc := c'\<rparr>) (p_path params) fd" by (auto simp: sz(1) b1)
    have "take n buf = take n (drop r (block_bytes st (fd ! unat b)))" "drop (n + (?w - n)) buf = replicate (?B - ?w) 0"
      using n' wB(1) nle by (simp_all add: buf_def sz(1))
    moreover have "take ?w (drop ?o (bytes_from st fd 0)) =
        take n (drop r (block_bytes st (fd ! unat b))) @ take (?w - n) (bytes_from st fd (Suc (unat b)))"
      unfolding first by (rule take_block [OF ld]) (simp add: n')
    ultimately show ?thesis using True g copy rb d
      by (intro exI [of _ c] exI [of _ flag] exI [of _ buf] exI [of _ c'] conjI) simp_all
  next
    case False
    then have d: "delivered_bytes sz isize params = n"
      using n by (auto simp: delivered_bytes_def Let_def r [symmetric] min_def)
    have "take n (drop ?o (bytes_from st fd 0)) = take n (drop r (block_bytes st (fd ! unat b)))"
      unfolding first using n ld by simp
    with False g copy d show ?thesis
      by (intro exI [of _ c] exI [of _ flag] exI [of _ buf] exI [of _ c] conjI) (simp_all add: buf_def)
  qed
qed

lemma sint_small:
  fixes w :: u32
  assumes "w < 2 ^ 31"
  shows "sint w = uint w"
proof -
  have "uint w < 2 ^ 31" using assms by (simp add: word_less_alt)
  then show ?thesis unfolding sint_uint by (intro signed_take_bit_int_eq_self) (simp_all add: order_trans [OF _ uint_ge_0])
qed

lemma to_read_wanted:
  assumes "p_offset params < isize" and "isize < 2 ^ 31"
  shows "(if sint isize \<le> uint (p_offset params) + uint (bytes_to_read params) then uint (isize - p_offset params)
      else uint (bytes_to_read params)) = int (wanted isize params)"
proof -
  have "unat (isize - p_offset params) = unat isize - unat (p_offset params)"
    using assms by (intro unat_sub) (simp add: less_imp_le)
  moreover have "(if int i \<le> int j + int k then int (i - j) else int k) = int (min k (i - j))" if "j < i" for i j k
    using that by (auto simp: min_def)
  ultimately show ?thesis using assms(1) unfolding sint_small [OF assms(2)] wanted_def uint_nat word_less_nat_alt by metis
qed

section \<open>An example file\<close>

text \<open>
  An image with blocks of 128 bytes: inode 2 is the root, its block 5 holds the entries \<open>.\<close> and
  \<open>a\<close>, and inode 3 is the file \<open>a\<close> of 200 bytes, in blocks 6 (all 1) and 7 (all 2).
\<close>

definition file_fs :: mem where
  "file_fs = (\<lambda>x. if x = 129 then 64 else if x = 132 then 128 else if x = 168 then 5
     else if x = 257 then 128 else if x = 260 then 200 else if x = 296 then 6 else if x = 300 then 7
     else if x = 640 then 2 else if x = 644 then 12 else if x = 646 then 1 else if x = 648 then 46
     else if x = 652 then 3 else if x = 656 then 116 else if x = 658 then 1 else if x = 660 then 97
     else if 768 \<le> x \<and> x < 896 then 1 else if 896 \<le> x \<and> x < 1024 then 2 else 0)"

definition file_server :: "(u8 list \<Rightarrow> u8 list option) server" where
  "file_server = \<lparr>fs_file = file_fs, active_file_list = list_create, fs_sleep = create_counter,
     writes_to_sync = create_counter, Super_constants = demo_sc, super_set = True, errno = 0, disk = file_fs,
     memc = (\<lambda>_. None), heap_after = [0]\<rparr>"

lemma file_server_fields [simp]:
  "fs_file file_server = file_fs" "Super_constants file_server = demo_sc" "memc file_server = (\<lambda>_. None)"
  "unat (BLOCK_SIZE demo_sc) = 128" "blk_at file_server 5 = 640"
  by (simp_all add: file_server_def demo_sc_def blk_at_def block_addr_def)

lemma file_words:
  "load32 file_fs 132 = 128" "load32 file_fs 260 = 200" "load32 file_fs 168 = 5" "load32 file_fs 296 = 6" "load32 file_fs 300 = 7"
  "load16 file_fs 256 = 32768" "load32 file_fs 2056 = 0" "load32 file_fs 640 = 2" "load32 file_fs 652 = 3"
  "load16 file_fs 644 = 12" "load16 file_fs 656 = 116"
  by (simp_all add: file_fs_def load32_def load16_def load_bytes_def upt_rec)

lemma file_addresses:
  "Inode_Get_Data_Adressess file_fs demo_sc 128 128 = Some [5, 0]"
  "Inode_Get_Data_Adressess file_fs demo_sc 256 200 = Some [6, 7, 0]"
  by (subst data_addresses_cases, simp add: demo_sc_def ptrs_per_block_def,
      simp add: demo_sc_def Size_In_Blocks_def max_file_blocks_def ptrs_per_block_def file_block_def upt_rec Let_def file_words)+

lemma file_entries: "block_entries file_fs 640 768 = Some [640, 652]"
  by (simp add: block_entries.simps e_len_def e_inode_def file_words)

lemma file_resolves: "resolve file_server [''a''] = Some (Some 256, 3, False)"
proof -
  have inode: "Inode_Global_Read file_fs demo_sc n = Some (128 * unat (n - 1))" if "n \<in> {2, 3}" for n
    using that by (auto simp: Inode_Global_Read_def Inode_Local_Read_def Inode_readTable_def Group_Descriptor_read_def
        Inode_locateGroup_def Inode_getLocalIndex_def demo_sc_def sizeof_inode_def file_words)
  have "read_directory file_server 128 = Some (Some [640, 652])"
    by (simp add: read_directory_def ld32_def file_words file_addresses data_blocks_def file_entries)
  moreover have "entry_matches file_fs 652 ''a''" "\<not> entry_matches file_fs 640 ''a''" "e_inode file_fs 652 = 3"
    by (simp_all add: entry_matches_def e_name_len_def e_name_def e_inode_def bytes_of_string_def char_byte_def load_bytes_def
        file_fs_def load32_def upt_rec)
  ultimately show ?thesis by (simp add: resolve_def ROOT_INODE_NUMBER_def inode)
qed

definition read_params :: params_t where
  "read_params = \<lparr>p_path = ''/a'', p_mode = 0, write_buffer = [], p_file = False, p_offset = 0, bytes_to_read = 200,
     bytes_to_write = 0, p_size = 0, p_socket = 0\<rparr>"

lemma file_ready: "ready file_server [''a'']" "p_path read_params = st_path [''a'']"
  by (simp_all add: ready_def file_server_def afl_ok_def afl_tab_def idle_def bump_def list_create_def list_ok_def
      read_params_def st_path_def path_of_def component_ok_def separator_def)

lemma map_lib_laws: "cache_laws map_lib (\<lambda>c. c)"
  by (simp add: cache_laws_def map_lib_def)

section \<open>Properties\<close>

text \<open>
  C26: the block cache is transparent. While everything cached for a path is the content of that
  file's blocks, asking for a block returns the content of that block whether it comes from
  memcached or from the file, and neither asking, nor storing a block again, nor dropping it
  makes anything cached for this path or another one wrong, whatever memcached forgets.
\<close>

theorem block_cache_transparent:
  assumes "cache_laws lib view" and "coherent view st (p_path params) fd" and "unat b < length fd"
    and "q \<noteq> p_path params" and "coherent view st q fq"
  shows "(\<exists>c flag. cache_fs_get_set lib params b st fd = Some (block_bytes st (fd ! unat b), flag, st\<lparr>memc := c\<rparr>) \<and>
      coherent view (st\<lparr>memc := c\<rparr>) (p_path params) fd \<and> coherent view (st\<lparr>memc := c\<rparr>) q fq) \<and>
    (\<exists>st'. cache_set lib params b st fd = Some st' \<and> coherent view st' (p_path params) fd \<and> coherent view st' q fq) \<and>
    coherent view (cache_delete lib params b st) (p_path params) fd \<and> coherent view (cache_delete lib params b st) q fq"
proof -
  let ?k = "generate_key (p_path params) b" and ?d = "block_bytes st (fd ! unat b)"
  note set = cache_laws_set [OF assms(1), of "memc st" ?k ?d]
  have del: "view (memcached_delete lib (memc st) ?k) k = Some w \<Longrightarrow> if k = ?k then w = ?d else view (memc st) k = Some w" for k w
    using cache_laws_delete [OF assms(1), of "memc st" ?k k w] by auto
  show ?thesis
    using cache_get_ok [OF assms(1-3)] coherent_update [OF set assms(2,3)] coherent_update [OF del assms(2,3)] assms(3-5)
    by (auto simp: cache_set_def cache_delete_def)
qed

lemma block_cache_transparent_witness:
  "\<exists>c flag. cache_fs_get_set map_lib read_params 1 file_server [6, 7, 0] = Some (block_bytes file_server 7, flag, file_server\<lparr>memc := c\<rparr>) \<and>
    coherent (\<lambda>c. c) (file_server\<lparr>memc := c\<rparr>) ''/a'' [6, 7, 0]"
proof -
  have "coherent (\<lambda>c. c) file_server p fd" for p fd by (simp add: coherent_def)
  with block_cache_transparent [OF map_lib_laws, of file_server read_params "[6, 7, 0]" 1 "''/b''" "[]"] show ?thesis
    by (auto simp: read_params_def)
qed

lemma rest_of_block:
  fixes o' b :: u32
  assumes "0 < sz" and "sz = unat b" and "r = unat o' mod sz"
  shows "uint (b - o' mod b) = int (sz - r)" and "unat (o' mod b) = r"
proof -
  have "r < sz" using assms(1,3) by simp
  have um: "unat (o' mod b) = r" by (simp only: unat_mod assms(2,3))
  then have "o' mod b \<le> b" using \<open>r < sz\<close> by (simp only: word_le_nat_alt assms(2) less_imp_le)
  then have "unat (b - o' mod b) = sz - r" by (simp only: unat_sub um assms(2))
  then show "uint (b - o' mod b) = int (sz - r)" "unat (o' mod b) = r" by (simp_all only: uint_nat um)
qed

lemma read_file_ok:
  fixes st :: "'c server" and params :: params_t
  defines "isize inode \<equiv> ld32 st (inode + inode_off I_size)" and "sz \<equiv> unat (BLOCK_SIZE (Super_constants st))"
  assumes "ready st cs" and "p_path params = st_path cs" and "resolve st cs = Some (Some inode, n, e)"
    and "i_mode st inode AND EXT2_IFREG \<noteq> 0" and "4 \<le> sz" and "p_offset params < isize inode"
    and "Inode_Get_Data_Adressess (fs_file st) (Super_constants st) inode (isize inode) = Some fd"
    and "cache_laws lib view" and "coherent view st (p_path params) fd" and "isize inode < 2 ^ 31"
  shows "\<exists>l c. afl_ok l \<and> afl_tab l = afl_tab (active_file_list st) \<and> coherent view (st\<lparr>memc := c\<rparr>) (p_path params) fd \<and>
    read_file lib params st = Some
      ((new_result params (D_bytes (take (delivered_bytes sz (isize inode) params) (drop (unat (p_offset params)) (bytes_from st fd 0)) @
          replicate (unat (bytes_to_read params) - delivered_bytes sz (isize inode) params) 0)))
        \<lparr>read_bytes := of_nat (wanted (isize inode) params)\<rparr>,
       (with_table st l e)\<lparr>memc := c\<rparr>)"
proof -
  obtain l1 l2 where f: "st_find st (st_path cs) = Some (with_table st l1 False)"
    "inode_of_file (with_table st l1 False) (st_path cs) = Some (Some inode, n, with_table st l2 e)"
    "afl_ok l2" "afl_tab l2 = marks (afl_tab (active_file_list st)) {} {st_path cs}"
    using find_and_resolve [OF assms(3)] assms(5) by auto
  obtain l3 l4 l5 where l: "active_list_upd l2 (st_path cs) (on_lock RDLOCK) = Some l3"
    "active_list_upd l3 (st_path cs) (on_lock UNLOCK) = Some l4"
    "active_file_finished_using l4 (st_path cs) = Some l5" "afl_tab l5 = afl_tab (active_file_list st)" "afl_ok l5"
    using read_locked [OF assms(3) f(3,4)] by blast
  let ?o = "p_offset params" and ?B = "BLOCK_SIZE (Super_constants st)" and ?w = "wanted (isize inode) params"
  define r where "r = unat ?o mod sz"
  define k where "k = min ?w (sz - r)"
  let ?st = "with_table st l3 e"
  have "0 < sz" using assms(7) by simp
  note rest = rest_of_block [OF this sz_def [unfolded atomize_eq] r_def]
  have copy: "(if sz - r < ?w then int (sz - r) else int ?w) = int k" "int ?w - int k = int (?w - k)"
    by (auto simp: k_def min_def of_nat_diff)
  have h: "coherent view ?st (p_path params) fd" "sz = unat (BLOCK_SIZE (Super_constants ?st))"
    "Inode_Get_Data_Adressess (fs_file ?st) (Super_constants ?st) inode (isize inode) = Some fd"
    "?o div ?B = ?o div BLOCK_SIZE (Super_constants ?st)"
    using assms(9,11) by (simp_all add: sz_def)
  obtain c flag buf c' where u:
    "cache_fs_get_set lib params (?o div ?B) ?st fd = Some (block_bytes st (fd ! unat (?o div ?B)), flag, ?st\<lparr>memc := c\<rparr>)"
    "copy_out (replicate (unat (bytes_to_read params)) 0) 0 (block_bytes st (fd ! unat (?o div ?B))) r k = Some buf"
    "(if ?w - k > sz - r then read_blocks lib params (?st\<lparr>memc := c\<rparr>) fd (?o div ?B + 1) (int (?w - k)) k buf
      else Some (buf, ?st\<lparr>memc := c\<rparr>)) =
      Some (take (delivered_bytes sz (isize inode) params) (drop (unat ?o) (bytes_from st fd 0)) @
        replicate (unat (bytes_to_read params) - delivered_bytes sz (isize inode) params) 0, ?st\<lparr>memc := c'\<rparr>)"
    "coherent view (?st\<lparr>memc := c'\<rparr>) (p_path params) fd"
    using read_under_lock [OF assms(10) h(1,2) assms(7) h(3) assms(8) h(4) r_def k_def]
    unfolding with_table_reads with_table_cache by blast
  have "coherent view (st\<lparr>memc := c'\<rparr>) (p_path params) fd" using u(4) by (simp add: coherent_def)
  moreover have "read_file lib params st = Some
      ((new_result params (D_bytes (take (delivered_bytes sz (isize inode) params) (drop (unat ?o) (bytes_from st fd 0)) @
          replicate (unat (bytes_to_read params) - delivered_bytes sz (isize inode) params) 0)))
        \<lparr>read_bytes := of_nat ?w\<rparr>, (with_table st l5 e)\<lparr>memc := c'\<rparr>)"
  proof -
    have isz: "ld32 st (inode + inode_off I_size) = isize inode" by (simp add: isize_def)
    note simps = Let_def case_prod_conv bind.bind_lunit option.case option.map with_table_ops with_table_reads with_table_fields
      isz rest copy assms(6) if_True not_False_eq_True addresses_def nat_int of_int_of_nat_eq of_nat_less_iff
    show ?thesis
      unfolding read_file_def by (simp only: simps assms(4,9) f(1,2) l(1) to_read_wanted [OF assms(8,12)])
        (simp only: simps locked_memc_ops assms(4) l(2,3) u(1-3) [unfolded assms(4)])
  qed
  ultimately show ?thesis using l(4,5) by blast
qed

text \<open>
  C25: reading inside a regular file of less than 2 GiB, the sizes an \<open>int32_t\<close> holds without a
  sign. The answer announces the bytes asked for that lie inside the
  file and carries the bytes of the file from the offset on, followed by zeros up to the size
  asked for, and all locks are released. It carries all of the announced bytes when they end in
  the block they start in or when more than twice the rest of that block is asked for; in
  between, the bytes after the first block are announced but left zero.
\<close>

theorem read_file_bytes:
  fixes st :: "'c server" and params :: params_t
  defines "isize inode \<equiv> ld32 st (inode + inode_off I_size)" and "sz \<equiv> unat (BLOCK_SIZE (Super_constants st))"
  assumes "ready st cs" and "p_path params = st_path cs" and "resolve st cs = Some (Some inode, n, e)"
    and "i_mode st inode AND EXT2_IFREG \<noteq> 0" and "4 \<le> sz" and "p_offset params < isize inode"
    and "Inode_Get_Data_Adressess (fs_file st) (Super_constants st) inode (isize inode) = Some fd"
    and "cache_laws lib view" and "coherent view st (p_path params) fd" and "isize inode < 2 ^ 31"
  shows "\<exists>l c. afl_tab l = afl_tab (active_file_list st) \<and> coherent view (st\<lparr>memc := c\<rparr>) (p_path params) fd \<and>
    read_file lib params st = Some
      ((new_result params (D_bytes (take (delivered_bytes sz (isize inode) params) (drop (unat (p_offset params)) (bytes_from st fd 0)) @
          replicate (unat (bytes_to_read params) - delivered_bytes sz (isize inode) params) 0)))
        \<lparr>read_bytes := of_nat (wanted (isize inode) params)\<rparr>,
       (with_table st l e)\<lparr>memc := c\<rparr>)"
  using read_file_ok [OF assms(3-6) assms(7) [unfolded sz_def] assms(8) [unfolded isize_def] assms(9) [unfolded isize_def] assms(10,11) assms(12) [unfolded isize_def]]
  unfolding isize_def sz_def by blast

text \<open>All 200 bytes of the example file are announced, and only the 128 of its first block arrive.\<close>

lemma read_file_bytes_witness:
  "\<exists>l c. read_file map_lib read_params file_server = Some
    ((new_result read_params (D_bytes (take 128 (bytes_from file_server [6, 7, 0] 0) @ replicate 72 0)))\<lparr>read_bytes := 200\<rparr>,
     (with_table file_server l False)\<lparr>memc := c\<rparr>)"
proof -
  have sz: "ld32 file_server (256 + inode_off I_size) = 200" by (simp add: ld32_def file_words)
  have mode: "i_mode file_server 256 AND EXT2_IFREG \<noteq> 0" by (simp add: i_mode_def ld16_def file_words EXT2_IFREG_def)
  have co: "coherent (\<lambda>c. c) file_server p fd" for p fd by (simp add: coherent_def)
  have "Inode_Get_Data_Adressess (fs_file file_server) (Super_constants file_server) 256
      (ld32 file_server (256 + inode_off I_size)) = Some [6, 7, 0]" unfolding sz by (simp add: file_addresses)
  moreover have "p_offset read_params < ld32 file_server (256 + inode_off I_size)" unfolding sz by (simp add: read_params_def)
  moreover have "delivered_bytes 128 200 read_params = 128" "wanted 200 read_params = 200"
    by (simp_all add: delivered_bytes_def wanted_def read_params_def)
  ultimately show ?thesis
    using read_file_bytes [OF file_ready file_resolves mode _ _ _ map_lib_laws co, of "[6, 7, 0]"] unfolding sz
    by (auto simp: read_params_def)
qed

end
