(* ===== verification/File_Write.thy ===== *)
theory File_Write
  imports File_Read
begin

text \<open>
  Writing inside a file, \<open>write_file\<close> of \<^verbatim>\<open>rfs/source_RFS/file_operations.c\<close>. The bytes of the
  file, block after block, are overlaid with the bytes written; nothing outside the blocks of the
  file changes and the cached blocks stay those of the file. Which bytes are written is stated
  exactly: the loop over the blocks after the first is skipped for some lengths.
\<close>

section \<open>Overlaying a part of a list\<close>

definition overlay :: "'a list \<Rightarrow> nat \<Rightarrow> 'a list \<Rightarrow> 'a list" where
  "overlay xs p ys = take p xs @ ys @ drop (p + length ys) xs"

lemma overlay_nil [simp]: "overlay xs p [] = xs"
  by (simp add: overlay_def)

lemma length_overlay [simp]: "p + length ys \<le> length xs \<Longrightarrow> length (overlay xs p ys) = length xs"
  by (simp add: overlay_def)

lemma overlay_overlay:
  assumes "q = p + length ys" and "q + length zs \<le> length xs"
  shows "overlay (overlay xs p ys) q zs = overlay xs p (ys @ zs)"
  using assms by (simp add: overlay_def ac_simps)

lemma concat_update:
  assumes "\<forall>x \<in> set xss. length x = n" and "i < length xss" and "length y = n"
  shows "concat (xss[i := y]) = overlay (concat xss) (i * n) y"
  using assms
proof (induction xss arbitrary: i)
  case (Cons x xss)
  show ?case
  proof (cases i)
    case 0
    with Cons.prems show ?thesis by (simp add: overlay_def)
  next
    case (Suc j)
    with Cons show ?thesis by (simp add: overlay_def ac_simps)
  qed
qed simp

lemma overlay_in_block:
  assumes "\<forall>x \<in> set xss. length x = n" and "i < length xss" and "s + length ys \<le> n"
  shows "concat (xss[i := overlay (xss ! i) s ys]) = overlay (concat xss) (i * n + s) ys"
proof -
  have len: "length (xss ! i) = n" "length (overlay (xss ! i) s ys) = n" using assms by simp_all
  have "concat xss = concat (xss[i := xss ! i])" by simp
  also have "\<dots> = overlay (concat xss) (i * n) (xss ! i)" using assms(1,2) len(1) by (rule concat_update)
  finally have split: "concat xss = take (i * n) (concat xss) @ xss ! i @ drop (i * n + n) (concat xss)"
    by (simp add: overlay_def len)
  define pre post where "pre = take (i * n) (concat xss)" and "post = drop (i * n + n) (concat xss)"
  have pre: "length pre = i * n"
  proof -
    have "length (concat xss) = length xss * n" using assms(1) by (induction xss) auto
    then show ?thesis using assms(2) by (simp add: pre_def)
  qed
  have "concat (xss[i := overlay (xss ! i) s ys]) = pre @ overlay (xss ! i) s ys @ post"
    using concat_update [OF assms(1,2) len(2)] len by (simp add: overlay_def pre_def post_def)
  also have "\<dots> = overlay (pre @ xss ! i @ post) (i * n + s) ys"
    using assms(3) len pre by (simp add: overlay_def)
  finally show ?thesis using split by (simp add: pre_def post_def)
qed

section \<open>One block\<close>

definition separate :: "'c server \<Rightarrow> u32 list \<Rightarrow> bool" where
  \<comment> \<open>No two of the blocks share a byte.\<close>
  "separate st bs \<longleftrightarrow> (\<forall>i j. i < length bs \<and> j < length bs \<and> i \<noteq> j \<longrightarrow>
     disj_range (blk_at st (bs ! i)) (unat (BLOCK_SIZE (Super_constants st)))
       (blk_at st (bs ! j)) (unat (BLOCK_SIZE (Super_constants st))))"

definition outside :: "'c server \<Rightarrow> u32 list \<Rightarrow> nat \<Rightarrow> bool" where
  "outside st bs x \<longleftrightarrow> (\<forall>b \<in> set bs. disj_range (blk_at st b) (unat (BLOCK_SIZE (Super_constants st))) x 1)"

definition wrote :: "'c cache_view \<Rightarrow> string \<Rightarrow> u32 list \<Rightarrow> 'c server \<Rightarrow> 'c server \<Rightarrow> nat \<Rightarrow> u8 list \<Rightarrow> bool" where
  \<comment> \<open>From \<open>st\<close> to \<open>st'\<close> the bytes \<open>xs\<close> were written at position \<open>p\<close> of the file, and nothing else.\<close>
  "wrote view path bs st st' p xs \<longleftrightarrow>
     st' = st\<lparr>fs_file := fs_file st', memc := memc st'\<rparr> \<and> bytes_from st' bs 0 = overlay (bytes_from st bs 0) p xs \<and>
     (\<forall>x. outside st bs x \<longrightarrow> fs_file st' x = fs_file st x) \<and> coherent view st' path bs"

lemma wroteD:
  assumes "wrote view path bs st st' p xs"
  shows "Super_constants st' = Super_constants st" "blk_at st' = blk_at st" "coherent view st' path bs"
    "separate st' bs = separate st bs" "outside st' bs = outside st bs"
    "length (bytes_from st' bs 0) = length (bytes_from st bs 0)"
proof -
  have st': "st' = st\<lparr>fs_file := fs_file st', memc := memc st'\<rparr>" using assms by (simp add: wrote_def)
  show c: "Super_constants st' = Super_constants st" by (subst st') simp
  then show b: "blk_at st' = blk_at st" by (simp add: blk_at_def fun_eq_iff)
  show "coherent view st' path bs" using assms by (simp add: wrote_def)
  show "separate st' bs = separate st bs" "outside st' bs = outside st bs"
    using b c by (simp_all add: separate_def outside_def fun_eq_iff)
  show "length (bytes_from st' bs 0) = length (bytes_from st bs 0)"
    using c by (simp add: bytes_from_def length_concat o_def)
qed

lemma only_image_and_cache:
  "st1 = st\<lparr>fs_file := f1, memc := c1\<rparr> \<Longrightarrow> st2 = st1\<lparr>fs_file := f2, memc := c2\<rparr> \<Longrightarrow> st2 = st\<lparr>fs_file := f2, memc := c2\<rparr>"
  by simp

lemma wrote_trans:
  assumes "wrote view path bs st st1 p xs" and "wrote view path bs st1 st2 (p + length xs) ys"
    and "p + length xs + length ys \<le> length (bytes_from st bs 0)"
  shows "wrote view path bs st st2 p (xs @ ys)"
proof -
  have "st1 = st\<lparr>fs_file := fs_file st1, memc := memc st1\<rparr>" "st2 = st1\<lparr>fs_file := fs_file st2, memc := memc st2\<rparr>"
    using assms(1,2) unfolding wrote_def by blast+
  then have "st2 = st\<lparr>fs_file := fs_file st2, memc := memc st2\<rparr>" by (rule only_image_and_cache)
  with assms wroteD(5) [OF assms(1)] show ?thesis by (simp add: wrote_def overlay_overlay)
qed

lemma wrote_nothing: "coherent view st path bs \<Longrightarrow> wrote view path bs st st p []"
  by (simp add: wrote_def)

lemma write_block:
  assumes laws: "cache_laws lib view" and sep: "separate st bs" and co: "coherent view st (p_path params) bs"
    and b: "unat b < length bs" "unat b < length fd" "fd ! unat b = bs ! unat b"
    and sz: "sz = unat (BLOCK_SIZE (Super_constants st))" and n: "s + n \<le> sz" "from + n \<le> length (write_buffer params)"
  shows "\<exists>st1 st2. copy_in st fd b s (write_buffer params) from n = Some st1 \<and> cache_set lib params b st1 fd = Some st2 \<and>
    wrote view (p_path params) bs st st2 (unat b * sz + s) (take n (drop from (write_buffer params)))"
proof -
  let ?i = "unat b" and ?xs = "take n (drop from (write_buffer params))"
  define st1 where "st1 = st\<lparr>fs_file := store_bytes (fs_file st) (blk_at st (bs ! ?i) + s) ?xs\<rparr>"
  define st2 where "st2 = st1\<lparr>memc := memcached_set lib (memc st) (generate_key (p_path params) b) (block_bytes st1 (bs ! ?i))\<rparr>"
  have lx: "length ?xs = n" using n(2) by simp
  have blk: "block_bytes st1 (bs ! j) = (if j = ?i then overlay (block_bytes st (bs ! j)) s ?xs else block_bytes st (bs ! j))"
    if "j < length bs" for j
    proof (cases "j = ?i")
      case True
      have "load_bytes (store_bytes m (a + s) ?xs) a sz = overlay (load_bytes m a sz) s ?xs" for m a
        using n(1) lx by (intro nth_equalityI) (auto simp: store_bytes_def overlay_def nth_append)
      with True show ?thesis by (simp add: block_bytes_def st1_def sz blk_at_def)
    next
      case False
      then have "disj_range (blk_at st (bs ! ?i)) sz (blk_at st (bs ! j)) sz"
        using sep b(1) that by (auto simp: separate_def sz)
      then have "disj_range (blk_at st (bs ! ?i) + s) (length ?xs) (blk_at st (bs ! j)) sz"
        using n(1) lx by (auto simp: disj_range_def)
      from load_bytes_store_frame [OF this] False show ?thesis by (simp add: block_bytes_def st1_def sz blk_at_def)
    qed
  have st2: "block_bytes st2 = block_bytes st1" by (simp add: st2_def)
  have "map (block_bytes st2) bs = (map (block_bytes st) bs)[?i := overlay (map (block_bytes st) bs ! ?i) s ?xs]"
    using b(1) blk by (intro nth_equalityI) (auto simp: st2 nth_list_update)
  then have "bytes_from st2 bs 0 = overlay (bytes_from st bs 0) (?i * sz + s) ?xs"
    using overlay_in_block [of "map (block_bytes st) bs" sz ?i s ?xs] b(1) n(1) lx by (simp add: bytes_from_def sz)
  moreover have "fs_file st2 x = fs_file st x" if "outside st bs x" for x
  proof -
    have "disj_range (blk_at st (bs ! ?i)) sz x 1" using that b(1) by (simp add: outside_def sz)
    then have "disj_range (blk_at st (bs ! ?i) + s) (length ?xs) x 1" using n(1) lx by (auto simp: disj_range_def)
    from store_bytes_outside [OF this] show ?thesis by (simp add: st2_def st1_def)
  qed
  moreover have "coherent view st2 (p_path params) bs"
    unfolding coherent_def
  proof (intro allI impI)
    fix b' data
    assume "view (memc st2) (generate_key (p_path params) b') = Some data"
    then have "if b' = b then data = block_bytes st1 (bs ! ?i) else view (memc st) (generate_key (p_path params) b') = Some data"
      using cache_laws_set [OF laws, of "memc st" "generate_key (p_path params) b"] by (simp add: st2_def)
    then show "unat b' < length bs \<and> data = block_bytes st2 (bs ! unat b')"
      using co b(1) blk [of "unat b'"] by (auto simp: coherent_def st2 word_unat_eq_iff split: if_splits)
  qed
  moreover have "st2 = st\<lparr>fs_file := fs_file st2, memc := memc st2\<rparr>" by (simp add: st2_def st1_def)
  ultimately have "wrote view (p_path params) bs st st2 (?i * sz + s) ?xs" by (simp add: wrote_def)
  moreover have "copy_in st fd b s (write_buffer params) from n = Some st1" "cache_set lib params b st1 fd = Some st2"
    using b n(2) by (simp_all add: copy_in_def cache_set_def st1_def st2_def)
  ultimately show ?thesis by blast
qed

section \<open>The blocks after the first\<close>

lemma write_blocks_ok:
  assumes laws: "cache_laws lib view" and sz: "0 < sz" and fd: "fd = take m bs @ [0]" "m = unat count" "m \<le> length bs"
    and "separate st bs" and "coherent view st (p_path params) bs" and "sz = unat (BLOCK_SIZE (Super_constants st))"
    and "rs + k \<le> length (write_buffer params)" and "k \<le> (m - unat b) * sz"
  shows "\<exists>st'. write_blocks lib params st fd count b (int k) rs = Some (False, rs + k, st') \<and>
    wrote view (p_path params) bs st st' (unat b * sz) (take k (drop rs (write_buffer params)))"
  using assms(6-10)
proof (induction k arbitrary: st b rs rule: less_induct)
  case (less k)
  show ?case
  proof (cases "k = 0")
    case True
    with less.prems(2) show ?thesis by (simp add: write_blocks.simps wrote_nothing)
  next
    case False
    define n where "n = (if sz < k then sz else k)"
    have n: "0 < n" "n \<le> k" "n \<le> sz" using False sz by (auto simp: n_def)
    have ub: "uint (BLOCK_SIZE (Super_constants st)) = int sz" by (simp only: uint_nat less.prems(3))
    have b: "unat b < m" using less.prems(5) False by (metis diff_is_0_eq' mult_is_0 le_zero_eq not_less)
    have b1: "unat (b + 1) = Suc (unat b)" using b fd(2) unat_lt_u32 [of count] by (simp add: unat_word_ariths)
    obtain st1 st2 where w: "copy_in st fd b 0 (write_buffer params) rs n = Some st1" "cache_set lib params b st1 fd = Some st2"
      "wrote view (p_path params) bs st st2 (unat b * sz) (take n (drop rs (write_buffer params)))"
      using write_block [OF laws less.prems(1,2), of b fd sz 0 n rs] less.prems(3,4) b fd n by (auto simp: nth_append)
    note w' = wroteD [OF w(3)]
    have "m - unat b = Suc (m - unat (b + 1))" using b b1 by simp
    then have "k \<le> sz + (m - unat (b + 1)) * sz" using less.prems(5) by simp
    then have room: "k - n \<le> (m - unat (b + 1)) * sz" by (auto simp: n_def)
    obtain st' where r: "write_blocks lib params st2 fd count (b + 1) (int (k - n)) (rs + n) = Some (False, rs + n + (k - n), st')"
      "wrote view (p_path params) bs st2 st' (unat (b + 1) * sz) (take (k - n) (drop (rs + n) (write_buffer params)))"
      using less.IH [of "k - n" st2 "rs + n" "b + 1"] less.prems(1,3,4) w' n room by auto
    have "write_blocks lib params st fd count b (int k) rs = write_blocks lib params st2 fd count (b + 1) (int (k - n)) (rs + n)"
      using False sz w(1,2) n b fd(2)
      by (subst write_blocks.simps) (simp add: ub Let_def n_def of_nat_diff word_less_nat_alt split: if_splits)
    moreover have "wrote view (p_path params) bs st st' (unat b * sz) (take k (drop rs (write_buffer params)))"
    proof -
      have "take k (drop rs (write_buffer params)) = take n (drop rs (write_buffer params)) @ take (k - n) (drop (rs + n) (write_buffer params))"
        using n(2) take_add [of n "k - n" "drop rs (write_buffer params)"] by (simp add: add.commute)
      moreover have "unat b * sz + k \<le> length bs * sz"
      proof -
        have "unat b * sz + k \<le> unat b * sz + (m - unat b) * sz" using less.prems(5) by simp
        also have "\<dots> = m * sz" using b by (simp flip: add_mult_distrib)
        also have "\<dots> \<le> length bs * sz" using fd(3) by simp
        finally show ?thesis .
      qed
      moreover have "wrote view (p_path params) bs st2 st' (unat b * sz + n) (take (k - n) (drop (rs + n) (write_buffer params)))"
      proof (cases "n < k")
        case True
        with r(2) b1 show ?thesis by (simp add: n_def add.commute split: if_splits)
      next
        case False
        with n(2) r have "st' = st2" by (simp add: write_blocks.simps)
        with False w'(3) show ?thesis by (simp add: wrote_nothing)
      qed
      ultimately show ?thesis
        using wrote_trans [OF w(3), of st' "take (k - n) (drop (rs + n) (write_buffer params))"] less.prems(4) n
        by (simp add: length_bytes_from less.prems(3))
    qed
    ultimately show ?thesis using r(1) n(2) by simp
  qed
qed

section \<open>Under the lock\<close>

definition written_bytes :: "nat \<Rightarrow> params_t \<Rightarrow> nat" where
  "written_bytes sz params =
     (let rest = sz - unat (p_offset params) mod sz; n = unat (bytes_to_write params)
      in if n \<le> rest \<or> 2 * rest < n then n else rest)"

lemma write_under_lock:
  assumes laws: "cache_laws lib view" and sep: "separate st bs" and co: "coherent view st (p_path params) bs"
    and sz: "sz = unat (BLOCK_SIZE (Super_constants st))" "0 < sz"
    and fd: "fd = take m bs @ [0]" "m = unat count" "m \<le> length bs"
    and n: "n = unat (bytes_to_write params)" "n = length (write_buffer params)" "unat (p_offset params) + n \<le> m * sz" "0 < n"
    and b: "b = p_offset params div BLOCK_SIZE (Super_constants st)" and r: "r = unat (p_offset params) mod sz"
    and k: "k = min n (sz - r)"
  shows "\<exists>st1 st2 st3. copy_in st fd b r (write_buffer params) 0 k = Some st1 \<and> cache_set lib params b st1 fd = Some st2 \<and>
    (if n - k > k then write_blocks lib params st2 fd count (b + 1) (int (n - k)) k else Some (False, k, st2)) =
      Some (False, written_bytes sz params, st3) \<and>
    wrote view (p_path params) bs st st3 (unat (p_offset params)) (take (written_bytes sz params) (write_buffer params))"
proof -
  let ?o = "unat (p_offset params)" and ?buf = "write_buffer params"
  have ub: "unat b = ?o div sz" by (simp add: b sz(1) unat_div)
  have ob: "?o = unat b * sz + r" "r < sz" using sz(2) by (simp_all add: ub r)
  have "unat b * sz < m * sz" using ob n(3,4) by linarith
  then have blt: "unat b < m" by simp
  obtain st1 st2 where w: "copy_in st fd b r ?buf 0 k = Some st1" "cache_set lib params b st1 fd = Some st2"
    "wrote view (p_path params) bs st st2 ?o (take k ?buf)"
  proof -
    have "unat b < length bs" "unat b < length fd" "fd ! unat b = bs ! unat b" using blt fd(1,3) by (auto simp: nth_append)
    moreover have "r + k \<le> sz" "0 + k \<le> length ?buf" using ob(2) k n(2) by auto
    ultimately show ?thesis using that write_block [OF laws sep co _ _ _ sz(1)] ob(1) by fastforce
  qed
  note w' = wroteD [OF w(3)]
  show ?thesis
  proof (cases "n - k > k")
    case True
    then have k': "k = sz - r" "sz - r < n" "2 * (sz - r) < n" using k by auto
    have wb: "written_bytes sz params = n" using k' by (simp add: written_bytes_def Let_def n(1) r)
    have b1: "unat (b + 1) = Suc (unat b)" using blt fd(2) unat_lt_u32 [of count] by (simp add: unat_word_ariths)
    have "unat b * sz + sz + (n - k) \<le> m * sz" using n(3) ob k' by linarith
    moreover have "m * sz = unat b * sz + sz + (m - unat (b + 1)) * sz"
      using blt b1 by (metis Suc_leI add.commute add_mult_distrib le_add_diff_inverse mult_Suc)
    ultimately have room: "n - k \<le> (m - unat (b + 1)) * sz" by linarith
    obtain st3 where s3: "write_blocks lib params st2 fd count (b + 1) (int (n - k)) k = Some (False, k + (n - k), st3)"
      "wrote view (p_path params) bs st2 st3 (unat (b + 1) * sz) (take (n - k) (drop k ?buf))"
      using write_blocks_ok [OF laws sz(2) fd, of st2 params k "n - k" "b + 1"] w' sep sz(1) n(2) k' room by auto
    have pos: "unat (b + 1) * sz = ?o + length (take k ?buf)" using b1 ob k' n(2) by simp
    have split: "take k ?buf @ take (n - k) (drop k ?buf) = ?buf" using n(2) k' by (simp flip: take_add)
    have "m * sz \<le> length bs * sz" using fd(3) by simp
    with wrote_trans [OF w(3) s3(2) [unfolded pos]] n k' have "wrote view (p_path params) bs st st3 ?o ?buf"
      by (simp add: length_bytes_from split flip: sz(1))
    with True w s3 wb n(2) k' show ?thesis by (intro exI [of _ st1] exI [of _ st2] exI [of _ st3]) simp
  next
    case False
    then have "written_bytes sz params = k"
      using k by (auto simp: written_bytes_def Let_def min_def simp flip: n(1) r)
    with False w show ?thesis by (intro exI [of _ st1] exI [of _ st2] exI [of _ st2]) simp
  qed
qed

lemma write_locked:
  assumes "ready st cs" and "afl_ok l2" and "afl_tab l2 = marks (afl_tab (active_file_list st)) {} {st_path cs}"
  shows "\<exists>l3 l4 l5. active_list_upd l2 (st_path cs) (on_lock WRLOCK) = Some l3 \<and>
    active_list_upd l3 (st_path cs) (on_lock UNLOCK) = Some l4 \<and>
    active_file_finished_using l4 (st_path cs) = Some l5 \<and> afl_ok l5 \<and> afl_tab l5 = afl_tab (active_file_list st)"
proof -
  let ?T = "afl_tab (active_file_list st)" and ?p = "st_path cs"
  have e: "afl_tab l2 ?p = Some (unlocked, bump (?T ?p))" by (simp add: assms(3) marks_def)
  obtain l3 where l3: "active_list_upd l2 ?p (on_lock WRLOCK) = Some l3" "afl_ok l3"
    "afl_tab l3 = (afl_tab l2)(?p \<mapsto> (\<lparr>readers = 0, writer = True\<rparr>, bump (?T ?p)))"
    using afl.lock_law [OF assms(2) e, of WRLOCK] by auto
  then have e3: "afl_tab l3 ?p = Some (\<lparr>readers = 0, writer = True\<rparr>, bump (?T ?p))" by simp
  obtain l4 where l4: "active_list_upd l3 ?p (on_lock UNLOCK) = Some l4" "afl_ok l4"
    "afl_tab l4 = (afl_tab l3)(?p \<mapsto> (unlocked, bump (?T ?p)))"
    using afl.lock_law [OF l3(2) e3, of UNLOCK] by auto
  have "afl_tab l4 = marks ?T {} {?p}" using l3(3) l4(3) e assms(3) by (auto simp: fun_eq_iff)
  with afl.finished_marks [OF _ l4(2), of ?T "{}" "{?p}" ?p] assms(1) l3(1) l4(1) show ?thesis by (auto simp: ready_def)
qed

section \<open>The whole operation\<close>

definition file_blocks :: "'c server \<Rightarrow> nat \<Rightarrow> u32 list" where
  "file_blocks st inode = map (file_block (fs_file st) (Super_constants st) inode)
     [0..<Size_In_Blocks (Super_constants st) (ld32 st (inode + inode_off I_size))]"

lemma blocks_nat:
  assumes "0 < unat (BLOCK_SIZE sc)"
  shows "Size_In_Blocks sc w = (unat w + unat (BLOCK_SIZE sc) - 1) div unat (BLOCK_SIZE sc)"
proof -
  define s q r where "s = unat (BLOCK_SIZE sc)" and "q = unat w div s" and "r = unat w mod s"
  have w: "unat w = q * s + r" "r < s" using assms by (simp_all add: s_def q_def r_def)
  have "(unat w + s - 1) div s = q + (if 0 < r then 1 else 0)"
  proof (cases "r = 0")
    case True
    then have eq: "unat w + s - 1 = q * s + (s - 1)" using w by simp
    have "(unat w + s - 1) div s = q" unfolding eq using w(2) by (subst div_mult_self3) auto
    then show ?thesis using True by simp
  next
    case False
    then have "unat w + s - 1 = (q + 1) * s + (r - 1)" using w by simp
    moreover have "((q + 1) * s + (r - 1)) div s = q + 1" using w(2) False by (subst div_mult_self3) auto
    ultimately show ?thesis using False by simp
  qed
  then show ?thesis by (simp add: Size_In_Blocks_def unat_div unat_mod word_less_nat_alt s_def q_def r_def)
qed

lemma blocks_mono:
  assumes "0 < unat (BLOCK_SIZE sc)" and "unat v \<le> unat w"
  shows "Size_In_Blocks sc v \<le> Size_In_Blocks sc w"
  unfolding blocks_nat [OF assms(1)] using assms(2) by (intro div_le_mono) simp

lemma blocks_cover:
  assumes "0 < unat (BLOCK_SIZE sc)"
  shows "unat w \<le> Size_In_Blocks sc w * unat (BLOCK_SIZE sc)" and "Size_In_Blocks sc w \<le> unat w"
    and "0 < unat w \<Longrightarrow> 0 < Size_In_Blocks sc w"
proof -
  let ?s = "unat (BLOCK_SIZE sc)"
  have "(unat w + ?s - 1) div ?s * ?s + (unat w + ?s - 1) mod ?s = unat w + ?s - 1" by simp
  moreover have "(unat w + ?s - 1) mod ?s < ?s" using assms by (rule mod_less_divisor)
  ultimately show "unat w \<le> Size_In_Blocks sc w * ?s" using assms unfolding blocks_nat [OF assms] by linarith
  show "Size_In_Blocks sc w \<le> unat w"
  proof (cases "unat w")
    case (Suc v)
    then have "unat w + ?s - 1 \<le> unat w * ?s" using assms by simp
    then have "(unat w + ?s - 1) div ?s \<le> (unat w * ?s) div ?s" by (rule div_le_mono)
    then show ?thesis using assms unfolding blocks_nat [OF assms] by simp
  qed (simp add: blocks_nat [OF assms] assms)
  show "0 < unat w \<Longrightarrow> 0 < Size_In_Blocks sc w"
    unfolding blocks_nat [OF assms] using assms by (simp add: div_greater_zero_iff)
qed

lemma grow_inside:
  assumes "ld32 st (inode + inode_off I_size) = isize" and "unat offset + n \<le> unat isize"
  shows "grow_inode st inode offset (of_nat n) = st"
proof -
  have "unat (of_nat n :: u32) = n" using assms(2) unat_lt_u32 [of isize] by (simp add: unat_of_nat_u32)
  then have "unat (offset + of_nat n) = unat offset + n"
    using assms(2) unat_lt_u32 [of isize] by (simp add: unat_word_ariths)
  then have "\<not> offset + of_nat n > isize" using assms(2) by (simp add: word_less_nat_alt)
  then show ?thesis using assms(1) by (simp add: grow_inode_def Let_def)
qed

lemma wrote_size:
  assumes "wrote view path bs st st' p xs" and "\<forall>i < 4. outside st bs (a + i)"
  shows "ld32 st' a = ld32 st a"
  using assms unfolding ld32_def wrote_def by (intro load32_eqI) auto

lemma write_extent:
  fixes o' n end_pos :: u32 and st :: "'c server"
  defines "sc \<equiv> Super_constants st" and "isize inode \<equiv> ld32 st (inode + inode_off I_size)"
  assumes sz: "4 \<le> unat (BLOCK_SIZE sc)" and fits: "unat o' + unat n \<le> unat (isize inode)" and "0 < unat n"
    and "length (file_blocks st inode) \<le> max_file_blocks sc"
    and e: "end_pos = of_int (uint o' + uint n)" and m: "m = Size_In_Blocks sc end_pos"
  shows "unat o' + unat n \<le> m * unat (BLOCK_SIZE sc)" "0 < m" "m \<le> length (file_blocks st inode)" "unat (of_nat m :: u32) = m"
    "unat (of_nat m - 1 :: u32) = m - 1" "\<not> o' div BLOCK_SIZE sc > of_nat m" "\<not> Size_In_Blocks sc end_pos > Size_In_Blocks sc (isize inode)"
    "Inode_Get_Data_Adressess (fs_file st) sc inode end_pos = Some (take m (file_blocks st inode) @ [0])"
    "0 \<notin> set (file_blocks st inode) \<Longrightarrow> (take m (file_blocks st inode) @ [0]) ! (m - 1) \<noteq> 0"
proof -
  have s0: "0 < unat (BLOCK_SIZE sc)" using sz by simp
  have "end_pos = of_nat (unat o' + unat n)" by (simp add: e)
  moreover have "unat o' + unat n < 2 ^ 32" using fits unat_lt_u32 [of "isize inode"] by simp
  ultimately have ep: "unat end_pos = unat o' + unat n" by (simp only: unat_of_nat_u32) simp
  show cover: "unat o' + unat n \<le> m * unat (BLOCK_SIZE sc)" using blocks_cover(1) [OF s0, of end_pos] by (simp only: m ep)
  show m0: "0 < m" using blocks_cover(3) [OF s0, of end_pos] assms(5) by (simp only: m ep)
  have le: "m \<le> Size_In_Blocks sc (isize inode)" using blocks_mono [OF s0, of end_pos "isize inode"] fits by (simp only: m ep)
  then show lb: "m \<le> length (file_blocks st inode)" by (simp add: file_blocks_def sc_def isize_def)
  from le show "\<not> Size_In_Blocks sc end_pos > Size_In_Blocks sc (isize inode)" by (simp add: m)
  have "m \<le> unat end_pos" using blocks_cover(2) [OF s0, of end_pos] by (simp only: m)
  then show um: "unat (of_nat m :: u32) = m" using unat_lt_u32 [of end_pos] by (simp add: unat_of_nat_u32)
  have "1 \<le> (of_nat m :: u32)" using m0 um by (simp add: word_le_nat_alt)
  then show "unat (of_nat m - 1 :: u32) = m - 1" using um by (simp add: unat_sub)
  have "unat o' div unat (BLOCK_SIZE sc) \<le> m"
    using cover s0 by (metis add_leD1 div_le_mono nonzero_mult_div_cancel_right not_gr_zero)
  then show "\<not> o' div BLOCK_SIZE sc > of_nat m" using um by (simp add: word_less_nat_alt unat_div not_less)
  have "0 < ptrs_per_block sc" using sz by (simp add: ptrs_per_block_def div_greater_zero_iff)
  moreover have "take m (file_blocks st inode) = map (file_block (fs_file st) sc inode) [0..<m]"
    using lb by (simp add: file_blocks_def sc_def take_map)
  moreover have "max 1 (Size_In_Blocks sc end_pos) = m" using m0 by (simp add: m)
  ultimately show "Inode_Get_Data_Adressess (fs_file st) sc inode end_pos = Some (take m (file_blocks st inode) @ [0])"
    using data_addresses_cases [of sc "fs_file st" inode end_pos] lb assms(6) by (simp add: Let_def)
  have "file_blocks st inode ! (m - 1) \<in> set (file_blocks st inode)" using m0 lb by simp
  then have "0 \<notin> set (file_blocks st inode) \<Longrightarrow> file_blocks st inode ! (m - 1) \<noteq> 0" by metis
  then show "0 \<notin> set (file_blocks st inode) \<Longrightarrow> (take m (file_blocks st inode) @ [0]) ! (m - 1) \<noteq> 0"
    using m0 lb by (simp add: nth_append)
qed

text \<open>The branches of \<open>write_file\<close> that a write inside the file takes.\<close>

lemma write_file_steps:
  fixes params :: params_t
  defines "o' \<equiv> p_offset params" and "path \<equiv> p_path params"
  assumes "st_find st path = Some sta" and "inode_of_file sta path = Some (Some inode, n, stb)"
    and "i_mode stb inode AND EXT2_IFREG \<noteq> 0" and "st_lock WRLOCK stb path = Some stc"
    and "sc = Super_constants stb" and "Super_constants stc = sc" and "isize = ld32 stc (inode + inode_off I_size)" and "\<not> o' > isize"
    and "end_pos = of_int (uint o' + uint (bytes_to_write params))" and "\<not> Size_In_Blocks sc end_pos > Size_In_Blocks sc isize"
    and "Inode_Get_Data_Adressess (fs_file stc) sc inode end_pos = Some fd"
    and "count = of_nat (Size_In_Blocks sc end_pos)" and "\<not> o' div BLOCK_SIZE sc > count"
    and "unat (count - 1) < length fd" and "fd ! unat (count - 1) \<noteq> 0"
    and "int rest = uint (BLOCK_SIZE sc - o' mod BLOCK_SIZE sc)" and "len = unat (bytes_to_write params)" and "k = min len rest"
    and "copy_in stc fd (o' div BLOCK_SIZE sc) (unat (o' mod BLOCK_SIZE sc)) (write_buffer params) 0 k = Some st1"
    and "cache_set lib params (o' div BLOCK_SIZE sc) st1 fd = Some st2"
    and "(if len - k > k then write_blocks lib params st2 fd count (o' div BLOCK_SIZE sc + 1) (int (len - k)) k else Some (False, k, st2)) =
      Some (False, w, st3)"
    and "grow_inode st3 inode o' (of_nat w) = st3"
  shows "write_file lib params st =
    do { st \<leftarrow> st_lock UNLOCK (st3\<lparr>writes_to_sync := update_counter (writes_to_sync st3)\<rparr>) path; st \<leftarrow> st_finished st path;
         Some (new_result params (D_word (of_nat w)), st) }"
proof -
  have a: "clear_tail stc inode o' = Some stc" using assms(8-10) by (simp add: clear_tail_def Let_def)
  have b: "uint (bytes_to_write params) = int len" by (simp add: assms(19))
  have c: "(if len < rest then int len else int rest) = int k" "int k < int len - int k \<longleftrightarrow> k < len - k" "int len - int k = int (len - k)"
    by (auto simp: assms(20))
  have d: "of_int (sint isize + (uint o' + int len - sint isize)) = end_pos" "of_int (uint o' + int len) = end_pos" by (simp_all add: assms(11,19))
  note simps = Let_def bind.bind_lunit case_prod_conv option.case option.map addresses_def if_True if_False not_False_eq_True
    not_True_eq_False of_nat_less_iff
  show ?thesis
    unfolding write_file_def o'_def [symmetric] path_def [symmetric]
    by (simp only: simps assms(3-6) a b assms(7) [symmetric] assms(8) assms(9) [symmetric] d assms(12,13) assms(14) [symmetric] assms(15-17)
        assms(18) [symmetric] c nat_int assms(21-24))
qed

lemma write_inside:
  fixes st :: "'c server" and params :: params_t
  defines "sz \<equiv> unat (BLOCK_SIZE (Super_constants st))" and "w \<equiv> written_bytes (unat (BLOCK_SIZE (Super_constants st))) params"
  assumes "ready st cs" and "p_path params = st_path cs" and "resolve st cs = Some (Some inode, n, e)"
    and "i_mode st inode AND EXT2_IFREG \<noteq> 0" and "4 \<le> sz" and "length (file_blocks st inode) \<le> max_file_blocks (Super_constants st)"
    and "0 < bytes_to_write params" and "unat (bytes_to_write params) = length (write_buffer params)"
    and "unat (p_offset params) + unat (bytes_to_write params) \<le> unat (ld32 st (inode + inode_off I_size))"
    and "separate st (file_blocks st inode)" and "0 \<notin> set (file_blocks st inode)"
    and "\<forall>i < 4. outside st (file_blocks st inode) (inode + inode_off I_size + i)"
    and "cache_laws lib view" and "coherent view st (p_path params) (file_blocks st inode)"
  shows "\<exists>l st3 l'. wrote view (p_path params) (file_blocks st inode) (with_table st l e) st3 (unat (p_offset params)) (take w (write_buffer params)) \<and>
    afl_tab l' = afl_tab (active_file_list st) \<and> ld32 st3 (inode + inode_off I_size) = ld32 st (inode + inode_off I_size) \<and>
    write_file lib params st = Some (new_result params (D_word (of_nat w)),
      st3\<lparr>writes_to_sync := update_counter (writes_to_sync st3), active_file_list := l'\<rparr>)"
proof -
  let ?sc = "Super_constants st" and ?o = "p_offset params" and ?B = "BLOCK_SIZE (Super_constants st)" and ?p = "st_path cs"
  define bs where "bs = file_blocks st inode"
  define len where "len = unat (bytes_to_write params)"
  define end_pos where "end_pos = (of_int (uint ?o + uint (bytes_to_write params)) :: u32)"
  define m where "m = Size_In_Blocks ?sc end_pos"
  define r where "r = unat ?o mod sz"
  define k where "k = min len (sz - r)"
  define fd where "fd = take m bs @ [0]"
  have sz0: "0 < sz" using assms(7) by simp
  have len0: "0 < len" using assms(9) by (simp add: len_def word_less_nat_alt)
  note ext = write_extent [OF assms(7) [unfolded sz_def] assms(11) len0 [unfolded len_def] assms(8) end_pos_def m_def, folded sz_def bs_def len_def]
  obtain l1 l2 where f: "st_find st ?p = Some (with_table st l1 False)"
    "inode_of_file (with_table st l1 False) ?p = Some (Some inode, n, with_table st l2 e)"
    "afl_ok l2" "afl_tab l2 = marks (afl_tab (active_file_list st)) {} {?p}"
    using find_and_resolve [OF assms(3)] assms(5) by auto
  obtain l3 l4 l5 where l: "active_list_upd l2 ?p (on_lock WRLOCK) = Some l3" "active_list_upd l3 ?p (on_lock UNLOCK) = Some l4"
    "active_file_finished_using l4 ?p = Some l5" "afl_tab l5 = afl_tab (active_file_list st)"
    using write_locked [OF assms(3) f(3,4)] by blast
  let ?st = "with_table st l3 e"
  have "separate ?st bs" "coherent view ?st (p_path params) bs" "sz = unat (BLOCK_SIZE (Super_constants ?st))"
    "?o div ?B = ?o div BLOCK_SIZE (Super_constants ?st)"
    using assms(12,16) by (simp_all add: separate_def bs_def sz_def blk_at_def)
  from write_under_lock [OF assms(15) this(1-3) sz0 fd_def ext(4) [symmetric] ext(3) len_def _ ext(1) len0 this(4) r_def k_def]
  obtain st1 st2 st3 where u: "copy_in ?st fd (?o div ?B) r (write_buffer params) 0 k = Some st1"
    "cache_set lib params (?o div ?B) st1 fd = Some st2"
    "(if len - k > k then write_blocks lib params st2 fd (of_nat m) (?o div ?B + 1) (int (len - k)) k else Some (False, k, st2)) = Some (False, w, st3)"
    "wrote view (p_path params) bs ?st st3 (unat ?o) (take w (write_buffer params))"
    using assms(10) by (auto simp: len_def w_def sz_def)
  have st3: "st3 = ?st\<lparr>fs_file := fs_file st3, memc := memc st3\<rparr>" using u(4) by (simp add: wrote_def)
  have size3: "ld32 st3 (inode + inode_off I_size) = ld32 st (inode + inode_off I_size)"
    using wrote_size [OF u(4)] assms(14) by (simp add: outside_def bs_def blk_at_def)
  have "w \<le> len" by (auto simp: w_def written_bytes_def Let_def len_def)
  then have "unat ?o + w \<le> unat (ld32 st (inode + inode_off I_size))" using assms(11) by (simp add: len_def)
  note grow = grow_inside [OF size3 this]
  note rest = rest_of_block [OF sz0 sz_def [unfolded atomize_eq] r_def]
  have "\<not> ?o > ld32 st (inode + inode_off I_size)" using assms(11) by (simp add: word_less_nat_alt)
  then have "write_file lib params st =
    do { st \<leftarrow> st_lock UNLOCK (st3\<lparr>writes_to_sync := update_counter (writes_to_sync st3)\<rparr>) ?p; st \<leftarrow> st_finished st ?p;
         Some (new_result params (D_word (of_nat w)), st) }"
    using write_file_steps [where st = st and params = params and lib = lib and sta = "with_table st l1 False" and stb = "with_table st l2 e"
        and stc = ?st and inode = inode and n = n and fd = fd and k = k and len = len and rest = "sz - r" and ?st1.0 = st1 and ?st2.0 = st2
        and ?st3.0 = st3 and w = w and count = "of_nat m" and end_pos = end_pos and sc = ?sc and isize = "ld32 st (inode + inode_off I_size)"]
      assms(4,6) f(1,2) l(1) ext assms(13) rest u grow
    by (simp add: with_table_ops end_pos_def m_def len_def k_def fd_def bs_def)
  moreover have "active_file_list st3 = l3" by (subst st3) simp
  ultimately show ?thesis
    using l(2-4) u(4) size3 by (intro exI [of _ l3] exI [of _ st3] exI [of _ l5]) (simp add: st_lock_def st_finished_def flip: bs_def)
qed

text \<open>
  C8: writing inside a regular file. The answer counts the bytes written; the contents of the file,
  block after block, are overlaid from the offset on with that many bytes of the buffer, no byte
  outside the blocks of the file changes, what is cached for the file is its new contents, the
  size stays, and the locks are released. All the bytes are written when they end in the block
  they start in or when there are more than twice as many as fit in the rest of that block; in
  between, only those that fit in the first block are.
\<close>

theorem write_inside_file:
  fixes st :: "'c server" and params :: params_t
  defines "sz \<equiv> unat (BLOCK_SIZE (Super_constants st))" and "w \<equiv> written_bytes (unat (BLOCK_SIZE (Super_constants st))) params"
  assumes "ready st cs" and "p_path params = st_path cs" and "resolve st cs = Some (Some inode, n, e)"
    and "i_mode st inode AND EXT2_IFREG \<noteq> 0" and "4 \<le> sz" and "length (file_blocks st inode) \<le> max_file_blocks (Super_constants st)"
    and "0 < bytes_to_write params" and "unat (bytes_to_write params) = length (write_buffer params)"
    and "unat (p_offset params) + unat (bytes_to_write params) \<le> unat (ld32 st (inode + inode_off I_size))"
    and "separate st (file_blocks st inode)" and "0 \<notin> set (file_blocks st inode)"
    and "\<forall>i < 4. outside st (file_blocks st inode) (inode + inode_off I_size + i)"
    and "cache_laws lib view" and "coherent view st (p_path params) (file_blocks st inode)"
  shows "\<exists>st'. write_file lib params st = Some (new_result params (D_word (of_nat w)), st') \<and>
    bytes_from st' (file_blocks st inode) 0 =
      overlay (bytes_from st (file_blocks st inode) 0) (unat (p_offset params)) (take w (write_buffer params)) \<and>
    (\<forall>x. outside st (file_blocks st inode) x \<longrightarrow> fs_file st' x = fs_file st x) \<and>
    ld32 st' (inode + inode_off I_size) = ld32 st (inode + inode_off I_size) \<and>
    coherent view st' (p_path params) (file_blocks st inode) \<and>
    afl_tab (active_file_list st') = afl_tab (active_file_list st)"
proof -
  let ?bs = "file_blocks st inode"
  obtain l st3 l' where u: "wrote view (p_path params) ?bs (with_table st l e) st3 (unat (p_offset params)) (take w (write_buffer params))"
    "afl_tab l' = afl_tab (active_file_list st)" "ld32 st3 (inode + inode_off I_size) = ld32 st (inode + inode_off I_size)"
    "write_file lib params st = Some (new_result params (D_word (of_nat w)),
      st3\<lparr>writes_to_sync := update_counter (writes_to_sync st3), active_file_list := l'\<rparr>)"
    using write_inside [OF assms(3-6) assms(7) [unfolded sz_def] assms(8-16)] unfolding w_def by blast
  define st' where "st' = st3\<lparr>writes_to_sync := update_counter (writes_to_sync st3), active_file_list := l'\<rparr>"
  have bb: "block_bytes st' = block_bytes st3" by (simp add: st'_def fun_eq_iff block_bytes_def blk_at_def)
  moreover have "coherent view st' = coherent view st3" "ld32 st' = ld32 st3" "fs_file st' = fs_file st3"
    unfolding coherent_def bb by (simp_all add: st'_def fun_eq_iff ld32_def)
  ultimately show ?thesis
    using u by (intro exI [of _ st']) (simp add: wrote_def outside_def blk_at_def bytes_from_def st'_def)
qed

text \<open>Three bytes across the end of the first block of the example file: two are written.\<close>

definition write_params :: params_t where
  "write_params = read_params\<lparr>write_buffer := [7, 8, 9], bytes_to_write := 3, p_offset := 126\<rparr>"

lemma write_inside_file_witness:
  "\<exists>st'. write_file map_lib write_params file_server = Some (new_result write_params (D_word 2), st') \<and>
    bytes_from st' [6, 7] 0 = overlay (bytes_from file_server [6, 7] 0) 126 [7, 8]"
proof -
  have blocks: "file_blocks file_server 256 = [6, 7]"
    by (simp add: file_blocks_def ld32_def file_words Size_In_Blocks_def file_block_def upt_rec demo_sc_def)
  have at: "blk_at file_server 6 = 768" "blk_at file_server 7 = 896"
    by (simp_all add: blk_at_def block_addr_def demo_sc_def)
  have sep: "separate file_server (file_blocks file_server 256)"
    by (auto simp: blocks separate_def disj_range_def at less_Suc_eq numeral_2_eq_2)
  have out: "\<forall>i < 4. outside file_server (file_blocks file_server 256) (256 + inode_off I_size + i)"
    by (auto simp: blocks outside_def disj_range_def at)
  have co: "coherent (\<lambda>c. c) file_server (p_path write_params) (file_blocks file_server 256)" by (simp add: coherent_def)
  have pp: "p_path write_params = st_path [''a'']" using file_ready(2) by (simp add: write_params_def)
  have small: "4 \<le> unat (BLOCK_SIZE (Super_constants file_server))"
    "length (file_blocks file_server 256) \<le> max_file_blocks (Super_constants file_server)"
    "0 < bytes_to_write write_params" "unat (bytes_to_write write_params) = length (write_buffer write_params)"
    "unat (p_offset write_params) + unat (bytes_to_write write_params) \<le> unat (ld32 file_server (256 + inode_off I_size))"
    by (simp_all add: blocks max_file_blocks_def write_params_def ld32_def file_words)
  have reg: "i_mode file_server 256 AND EXT2_IFREG \<noteq> 0" "0 \<notin> set (file_blocks file_server 256)"
    by (simp_all add: i_mode_def ld16_def file_words EXT2_IFREG_def blocks)
  from write_inside_file [OF file_ready(1) pp file_resolves reg(1) small sep reg(2) out map_lib_laws co]
  show ?thesis by (auto simp: blocks written_bytes_def write_params_def)
qed

end
