(* ===== verification/Image_Example.thy ===== *)
theory Image_Example
  imports File_Write
begin

text \<open>
  A small image with everything in place: one group of 24 blocks of 128 bytes, bitmaps in blocks 17
  and 18, the inode table from block 24 on, the root directory in block 23 with the names \<open>.\<close>
  and \<open>a\<close>, and the file \<open>/a\<close> of 200 bytes in blocks 19 and 21. Blocks 20 and 22 are free.
\<close>

definition image_fs :: mem where
  "image_fs = (\<lambda>x. if x = 2056 then 24
     else if x = 3201 then 64 else if x = 3204 then 128 else if x = 3228 then 1 else if x = 3240 then 23
     else if x = 3329 then 128 else if x = 3332 then 200 else if x = 3368 then 19 else if x = 3372 then 21
     else if x = 2944 then 2 else if x = 2948 then 12 else if x = 2950 then 1 else if x = 2952 then 46
     else if x = 2956 then 3 else if x = 2960 then 116 else if x = 2962 then 1 else if x = 2964 then 97
     else if 2432 \<le> x \<and> x < 2560 then 1 else if 2688 \<le> x \<and> x < 2816 then 2 else demo_fs x)"

definition image_server :: "(u8 list \<Rightarrow> u8 list option) server" where
  "image_server = \<lparr>fs_file = image_fs, active_file_list = list_create, fs_sleep = create_counter,
     writes_to_sync = create_counter, Super_constants = demo_sc, super_set = True, errno = 0, disk = image_fs,
     memc = (\<lambda>_. None), heap_after = [0]\<rparr>"

lemma image_fields [simp]:
  "fs_file image_server = image_fs" "Super_constants image_server = demo_sc" "memc image_server = (\<lambda>_. None)"
  "active_file_list image_server = list_create"
  by (simp_all add: image_server_def)

section \<open>Allocation\<close>

lemma image_simps:
  "bm_word Blocks image_fs demo_sc 0 = 17" "bm_word Inodes image_fs demo_sc 0 = 18"
  "cnt Blocks image_fs demo_sc 0 = 2" "cnt Inodes image_fs demo_sc 0 = 1" "tot Blocks image_fs = 2" "tot Inodes image_fs = 1"
  by (simp_all add: image_fs_def demo_defs gd_addr_def bm_word_def cnt_def tot_def load32_def
      load16_def load_bytes_def upt_rec superblock_field_def SUPERBLOCK_START_def)

lemma image_bitmaps: "bitarray (bm Blocks image_fs demo_sc 0) = 2176" "bitarray (bm Inodes image_fs demo_sc 0) = 2304"
  by (simp_all add: image_simps, simp_all add: demo_sc_def)

lemma image_bitmap_bytes: "2080 \<le> x \<Longrightarrow> x < 2432 \<Longrightarrow> image_fs x = demo_fs x"
  by (simp add: image_fs_def)

lemma image_avail: "avail K image_fs demo_sc 0 = avail K demo_fs demo_sc 0"
proof (rule avail_frame)
  show "bm_word K image_fs demo_sc 0 = bm_word K demo_fs demo_sc 0" by (cases K) (simp_all add: image_simps demo_simps)
  show "per_group K demo_sc \<le> 8 * bsize demo_sc" by (cases K) (simp_all add: demo_simps)
  show "image_fs (bitarray (bm K demo_fs demo_sc 0) + i) = demo_fs (bitarray (bm K demo_fs demo_sc 0) + i)" if "i < bsize demo_sc" for i
    using that by (cases K) (simp_all add: demo_simps, simp_all add: image_bitmap_bytes demo_sc_def)
qed

lemma image_free_set: "free_set K image_fs demo_sc = free_set K demo_fs demo_sc"
  by (auto simp: free_set_def demo_simps image_avail)

lemma ex_resource: "(\<exists>K. P K) \<longleftrightarrow> P Blocks \<or> P Inodes"
  by (metis resource.exhaust)

lemma image_meta: "is_meta image_fs demo_sc x \<longleftrightarrow> x < 2080 \<or> 2176 \<le> x \<and> x < 2432"
proof -
  have "(\<exists>K g. g < groups demo_sc \<and> bitarray (bm K image_fs demo_sc g) \<le> x \<and> x < bitarray (bm K image_fs demo_sc g) + bsize demo_sc) \<longleftrightarrow>
      2176 \<le> x \<and> x < 2432"
    by (simp add: ex_resource demo_simps image_bitmaps del: bm_simps) auto
  then show ?thesis by (simp add: is_meta_def demo_simps)
qed

lemma image_layout: "layout image_fs demo_sc"
proof -
  have "Group_Number image_fs demo_sc 2048 = 0"
    by (simp add: Group_Number_def image_fs_def demo_defs load32_def load_bytes_def upt_rec)
  moreover have "2048 \<le> unat (GDT_START demo_sc)" by (simp add: demo_sc_def)
  ultimately show ?thesis
    unfolding layout_def resource_all by (simp add: demo_simps image_bitmaps disj_range_def del: bm_simps)
qed

lemma image_ok: "srv_ok image_server"
proof -
  have "fs_ok image_fs demo_sc"
    unfolding fs_ok_def using image_layout
    by (auto simp: resource_all image_free_set image_avail demo_free_set demo_simps image_simps demo_avail num_def demo_block_addr image_meta)
  then show ?thesis by (simp add: srv_ok_def image_server_def)
qed

lemma image_free_nums: "free_nums Blocks image_server = {20, 22}"
  by (simp add: free_nums_def image_free_set demo_free_set num_def demo_simps)

lemma image_blk_at: "blk_at image_server 19 = 2432" "blk_at image_server 20 = 2560" "blk_at image_server 21 = 2688"
  "blk_at image_server 22 = 2816" "blk_at image_server 23 = 2944"
  by (simp_all add: blk_at_def block_addr_def demo_sc_def)

lemma image_valid_nums: "{19, 21} \<subseteq> valid_nums Blocks image_server"
proof -
  have "(0, 18) \<in> usable Blocks image_fs demo_sc" "(0, 20) \<in> usable Blocks image_fs demo_sc"
    by (simp_all add: usable_def demo_simps num_def image_meta block_addr_def, simp_all add: demo_sc_def)
  then have "num Blocks demo_sc (0, 18) \<in> valid_nums Blocks image_server" "num Blocks demo_sc (0, 20) \<in> valid_nums Blocks image_server"
    unfolding valid_nums_def by simp_all
  then show ?thesis by (simp add: num_def)
qed

section \<open>The names\<close>

lemma image_words:
  "load32 image_fs 3204 = 128" "load32 image_fs 3332 = 200" "load32 image_fs 3240 = 23" "load32 image_fs 3368 = 19" "load32 image_fs 3372 = 21"
  "load16 image_fs 3328 = 32768" "load32 image_fs 2056 = 24" "load32 image_fs 2944 = 2" "load32 image_fs 2956 = 3"
  "load16 image_fs 2948 = 12" "load16 image_fs 2960 = 116"
  by (simp_all add: image_fs_def demo_fs_def load32_def load16_def load_bytes_def upt_rec)

lemma image_addresses:
  "Inode_Get_Data_Adressess image_fs demo_sc 3200 128 = Some [23, 0]"
  by (subst data_addresses_cases, simp add: demo_sc_def ptrs_per_block_def,
      simp add: demo_sc_def Size_In_Blocks_def max_file_blocks_def ptrs_per_block_def file_block_def upt_rec Let_def image_words)+

lemma image_entries: "block_entries image_fs 2944 3072 = Some [2944, 2956]"
  by (simp add: block_entries.simps e_len_def e_inode_def image_words)

lemma image_resolves: "resolve image_server [''a''] = Some (Some 3328, 3, False)"
proof -
  have inode: "Inode_Global_Read image_fs demo_sc n = Some (3072 + 128 * unat (n - 1))" if "n \<in> {2, 3}" for n
    using that by (auto simp: Inode_Global_Read_def Inode_Local_Read_def Inode_readTable_def Group_Descriptor_read_def
        Inode_locateGroup_def Inode_getLocalIndex_def demo_sc_def sizeof_inode_def image_words)
  have "read_directory image_server 3200 = Some (Some [2944, 2956])"
    by (simp add: read_directory_def ld32_def image_words image_addresses data_blocks_def image_entries image_blk_at)
  moreover have "entry_matches image_fs 2956 ''a''" "\<not> entry_matches image_fs 2944 ''a''" "e_inode image_fs 2956 = 3"
    by (simp_all add: entry_matches_def e_name_len_def e_name_def e_inode_def bytes_of_string_def char_byte_def load_bytes_def
        image_fs_def demo_fs_def load32_def upt_rec)
  ultimately show ?thesis by (simp add: resolve_def ROOT_INODE_NUMBER_def inode)
qed

lemma image_ready: "ready image_server [''a'']"
  by (simp add: ready_def afl_ok_def afl_tab_def idle_def bump_def list_create_def list_ok_def component_ok_def separator_def)

lemma image_mode: "i_mode image_server 3328 AND EXT2_IFREG \<noteq> 0"
  by (simp add: i_mode_def ld16_def image_words EXT2_IFREG_def)

lemma image_file_blocks: "file_blocks image_server 3328 = [19, 21]"
  by (simp add: file_blocks_def file_block_def ld32_def image_words Size_In_Blocks_def demo_sc_def upt_rec)

end
