(* ===== verification/Truncate.thy ===== *)
theory Truncate
  imports Image_Example
begin

text \<open>
  Truncating a file, \<open>truncate_file\<close> of \<^verbatim>\<open>rfs/source_RFS/file_operations.c\<close>, on files whose old and new
  size need no index block. The allocator, the pointers of the inode, the block cache and the
  locks are followed together: which blocks the file has afterwards, which are free, and what
  happens when there are too few.
\<close>

section \<open>Changes of the image\<close>

lemma srv_ok_nonmeta:
  assumes ok: "srv_ok st" and "\<And>x. is_meta (fs_file st) (Super_constants st) x \<Longrightarrow> fs' x = fs_file st x"
  shows "srv_ok (st\<lparr>fs_file := fs'\<rparr>)" "free_nums K (st\<lparr>fs_file := fs'\<rparr>) = free_nums K st"
    "valid_nums K (st\<lparr>fs_file := fs'\<rparr>) = valid_nums K st" "is_meta fs' (Super_constants st) = is_meta (fs_file st) (Super_constants st)"
proof -
  have fok: "fs_ok (fs_file st) (Super_constants st)" using ok by (simp add: srv_ok_def)
  note n = nonmeta_change [OF fs_okD(1) [OF fok] assms(2)]
  show "srv_ok (st\<lparr>fs_file := fs'\<rparr>)" using ok fs_ok_cong [OF fok assms(2)] by (simp add: srv_ok_def)
  show "free_nums K (st\<lparr>fs_file := fs'\<rparr>) = free_nums K st" using n(4) by (simp add: free_nums_def)
  show "valid_nums K (st\<lparr>fs_file := fs'\<rparr>) = valid_nums K st" using usable_cong [OF n(1)] by (simp add: valid_nums_def)
  show "is_meta fs' (Super_constants st) = is_meta (fs_file st) (Super_constants st)" by (rule same_words_meta [OF n(1)])
qed

lemma srv_ok_cache [simp]:
  "srv_ok (st\<lparr>memc := c\<rparr>) = srv_ok st" "free_nums K (st\<lparr>memc := c\<rparr>) = free_nums K st" "valid_nums K (st\<lparr>memc := c\<rparr>) = valid_nums K st"
  by (simp_all add: srv_ok_def free_nums_def valid_nums_def)

lemma srv_ok_table [simp]:
  "srv_ok (with_table st l e) = srv_ok st" "free_nums K (with_table st l e) = free_nums K st" "valid_nums K (with_table st l e) = valid_nums K st"
  by (simp_all add: srv_ok_def free_nums_def valid_nums_def with_table_def)

lemma release_number:
  assumes ok: "srv_ok st" and b: "b \<in> valid_nums K st" "b \<notin> free_nums K st"
  shows "\<exists>fs'. (case K of Blocks \<Rightarrow> setFreeBlockBitmap | Inodes \<Rightarrow> setFreeInodeBitmap) st b = Some (st\<lparr>fs_file := fs'\<rparr>) \<and>
    srv_ok (st\<lparr>fs_file := fs'\<rparr>) \<and> (\<forall>L. free_nums L (st\<lparr>fs_file := fs'\<rparr>) = (if L = K then insert b (free_nums L st) else free_nums L st)) \<and>
    (\<forall>L. valid_nums L (st\<lparr>fs_file := fs'\<rparr>) = valid_nums L st) \<and>
    is_meta fs' (Super_constants st) = is_meta (fs_file st) (Super_constants st) \<and>
    (\<forall>x. \<not> is_meta (fs_file st) (Super_constants st) x \<longrightarrow> fs' x = fs_file st x)"
proof -
  let ?sc = "Super_constants st" and ?fs = "fs_file st"
  obtain g j where p: "b = num K ?sc (g, j)" "(g, j) \<in> usable K ?fs ?sc" using b(1) by (auto simp: valid_nums_def)
  then have gj: "g < groups ?sc" "j < per_group K ?sc" by (auto simp: usable_def)
  have fok: "fs_ok ?fs ?sc" using ok by (simp add: srv_ok_def)
  have "(g, j) \<notin> free_set K ?fs ?sc" using b(2) p(1) by (auto simp: free_nums_def)
  note rel = release_ok [OF fok p(2) this]
  show ?thesis
    unfolding p(1) setFree_release [OF ok gj]
    using ok rel usable_cong [OF rel(3)] same_words_meta [OF rel(3)]
    by (intro exI [of _ "release_mem K ?fs ?sc g j"]) (simp add: srv_ok_def free_nums_def valid_nums_def)
qed

lemma release_block:
  assumes ok: "srv_ok st" and b: "b \<in> valid_nums Blocks st" "b \<notin> free_nums Blocks st"
  shows "\<exists>fs'. setFreeBlockBitmap st b = Some (st\<lparr>fs_file := fs'\<rparr>) \<and> srv_ok (st\<lparr>fs_file := fs'\<rparr>) \<and>
    free_nums Blocks (st\<lparr>fs_file := fs'\<rparr>) = insert b (free_nums Blocks st) \<and> valid_nums Blocks (st\<lparr>fs_file := fs'\<rparr>) = valid_nums Blocks st \<and>
    free_nums Inodes (st\<lparr>fs_file := fs'\<rparr>) = free_nums Inodes st \<and> valid_nums Inodes (st\<lparr>fs_file := fs'\<rparr>) = valid_nums Inodes st \<and>
    is_meta fs' (Super_constants st) = is_meta (fs_file st) (Super_constants st) \<and>
    (\<forall>x. \<not> is_meta (fs_file st) (Super_constants st) x \<longrightarrow> fs' x = fs_file st x)"
  using release_number [OF ok b] by auto

section \<open>Files without index blocks\<close>

abbreviation slot :: "nat \<Rightarrow> nat \<Rightarrow> nat" where
  "slot inode i \<equiv> pointer_data_0 inode i"

definition direct_file :: "'c server \<Rightarrow> nat \<Rightarrow> bool" where
  "direct_file st inode \<longleftrightarrow>
     (let bs = file_blocks st inode in
      length bs \<le> 12 \<and> distinct bs \<and> set bs \<subseteq> valid_nums Blocks st - free_nums Blocks st \<and>
      (\<forall>i. length bs \<le> i \<and> i < 12 \<longrightarrow> ld32 st (slot inode i) = 0) \<and>
      (\<forall>k < 128. \<not> is_meta (fs_file st) (Super_constants st) (inode + k)) \<and>
      (\<forall>b \<in> set bs \<union> free_nums Blocks st. disj_range (blk_at st b) (bsize (Super_constants st)) inode 128))"

lemma file_blocks_direct:
  assumes "Size_In_Blocks (Super_constants st) (ld32 st (inode + inode_off I_size)) \<le> 12"
  shows "file_blocks st inode = map (\<lambda>i. ld32 st (slot inode i)) [0..<Size_In_Blocks (Super_constants st) (ld32 st (inode + inode_off I_size))]"
  using assms by (simp add: file_blocks_def file_block_def ld32_def)

lemma remove_direct:
  assumes ok: "srv_ok st" and i: "i < 12" and meta: "\<forall>k < 128. \<not> is_meta (fs_file st) (Super_constants st) (inode + k)"
    and b: "ld32 st (slot inode i) \<in> valid_nums Blocks st - free_nums Blocks st"
  shows "\<exists>fs'. Remove_Block st inode (of_nat i) = Some (st\<lparr>fs_file := fs'\<rparr>) \<and> srv_ok (st\<lparr>fs_file := fs'\<rparr>) \<and>
    free_nums Blocks (st\<lparr>fs_file := fs'\<rparr>) = insert (ld32 st (slot inode i)) (free_nums Blocks st) \<and>
    valid_nums Blocks (st\<lparr>fs_file := fs'\<rparr>) = valid_nums Blocks st \<and>
    free_nums Inodes (st\<lparr>fs_file := fs'\<rparr>) = free_nums Inodes st \<and> valid_nums Inodes (st\<lparr>fs_file := fs'\<rparr>) = valid_nums Inodes st \<and>
    is_meta fs' (Super_constants st) = is_meta (fs_file st) (Super_constants st) \<and> load32 fs' (slot inode i) = 0 \<and>
    (\<forall>x. \<not> is_meta (fs_file st) (Super_constants st) x \<and> disj_range (slot inode i) 4 x 1 \<longrightarrow> fs' x = fs_file st x)"
proof -
  let ?sc = "Super_constants st"
  obtain fs1 where r: "setFreeBlockBitmap st (ld32 st (slot inode i)) = Some (st\<lparr>fs_file := fs1\<rparr>)" "srv_ok (st\<lparr>fs_file := fs1\<rparr>)"
    "free_nums Blocks (st\<lparr>fs_file := fs1\<rparr>) = insert (ld32 st (slot inode i)) (free_nums Blocks st)"
    "valid_nums Blocks (st\<lparr>fs_file := fs1\<rparr>) = valid_nums Blocks st" "is_meta fs1 ?sc = is_meta (fs_file st) ?sc"
    "\<forall>x. \<not> is_meta (fs_file st) ?sc x \<longrightarrow> fs1 x = fs_file st x"
    "free_nums Inodes (st\<lparr>fs_file := fs1\<rparr>) = free_nums Inodes st" "valid_nums Inodes (st\<lparr>fs_file := fs1\<rparr>) = valid_nums Inodes st"
    using release_block [OF ok, of "ld32 st (slot inode i)"] b by blast
  define fs2 where "fs2 = store32 fs1 (slot inode i) 0"
  have u: "unat (of_nat i :: u32) = i" using i by (simp add: unat_of_nat_u32)
  have "uint (of_nat i :: u32) = int i" using u by (metis uint_nat)
  then have si: "sint (of_nat i :: u32) = int i" using i by (simp add: sint_uint signed_take_bit_int_eq_self)
  have "find_block_coordinates ?sc (of_nat i) = [int i, -1, -1, -1]"
    using i by (simp add: find_block_coordinates_def word_le_nat_alt u si)
  then have run: "Remove_Block st inode (of_nat i) = Some (st\<lparr>fs_file := fs2\<rparr>)"
    using r(1) by (simp add: Remove_Block_def coordinates_level_def fs2_def st32_def)
  have m: "fs2 x = fs1 x" if "is_meta fs1 ?sc x" for x
  proof -
    have "\<not> (inode + 40 + 4 * i \<le> x \<and> x < inode + 40 + 4 * i + 4)"
    proof
      assume x: "inode + 40 + 4 * i \<le> x \<and> x < inode + 40 + 4 * i + 4"
      then have "x - inode < 128" "inode + (x - inode) = x" using i by linarith+
      then show False using meta that by (metis r(5))
    qed
    then show ?thesis by (auto simp: fs2_def store32_def store_bytes_def)
  qed
  have "fs2 x = fs1 x" if "disj_range (slot inode i) 4 x 1" for x using that by (simp add: fs2_def mem_simps)
  moreover have "load32 fs2 (slot inode i) = 0" by (simp add: fs2_def mem_simps)
  ultimately show ?thesis using run r srv_ok_nonmeta [OF r(2), of fs2] m by (intro exI [of _ fs2]) simp
qed

section \<open>Removing blocks\<close>

definition only_image :: "'c server \<Rightarrow> 'c server \<Rightarrow> bool" where
  "only_image st st' \<longleftrightarrow> st' = st\<lparr>fs_file := fs_file st', memc := memc st'\<rparr>"

lemma only_imageI [simp]: "only_image st (st\<lparr>fs_file := fs'\<rparr>)" "only_image st (st\<lparr>memc := c\<rparr>)"
  "only_image st (st\<lparr>fs_file := fs', memc := c\<rparr>)" "only_image st st"
  by (simp_all add: only_image_def)

lemma only_image_trans: "only_image st st1 \<Longrightarrow> only_image st1 st2 \<Longrightarrow> only_image st st2"
  unfolding only_image_def by (rule only_image_and_cache)

lemma only_image_fields:
  assumes "only_image st st'"
  shows "Super_constants st' = Super_constants st" "active_file_list st' = active_file_list st" "blk_at st' = blk_at st"
    "errno st' = errno st"
proof -
  note e = assms [unfolded only_image_def]
  show s: "Super_constants st' = Super_constants st" by (subst e) simp
  show "active_file_list st' = active_file_list st" by (subst e) simp
  show "errno st' = errno st" by (subst e) simp
  show "blk_at st' = blk_at st" using s by (simp add: blk_at_def fun_eq_iff)
qed

definition removed :: "'c cache_view \<Rightarrow> string \<Rightarrow> nat \<Rightarrow> nat list \<Rightarrow> 'c server \<Rightarrow> 'c server \<Rightarrow> bool" where
  \<comment> \<open>From \<open>st\<close> to \<open>st'\<close> the blocks \<open>is\<close> of the file were given back, and nothing else.\<close>
  "removed view path inode is st st' \<longleftrightarrow> only_image st st' \<and> srv_ok st' \<and>
     free_nums Blocks st' = free_nums Blocks st \<union> (\<lambda>i. ld32 st (slot inode i)) ` set is \<and> valid_nums Blocks st' = valid_nums Blocks st \<and>
     free_nums Inodes st' = free_nums Inodes st \<and> valid_nums Inodes st' = valid_nums Inodes st \<and>
     is_meta (fs_file st') (Super_constants st) = is_meta (fs_file st) (Super_constants st) \<and>
     (\<forall>i \<in> set is. ld32 st' (slot inode i) = 0) \<and>
     (\<forall>x. \<not> is_meta (fs_file st) (Super_constants st) x \<and> (\<forall>i \<in> set is. disj_range (slot inode i) 4 x 1) \<longrightarrow> fs_file st' x = fs_file st x) \<and>
     (\<forall>k v. view (memc st') k = Some v \<longrightarrow> view (memc st) k = Some v \<and> (\<forall>i \<in> set is. k \<noteq> generate_key path (of_nat i)))"

lemma removed_slot:
  assumes "removed view path inode is st st'" and "\<forall>k < 128. \<not> is_meta (fs_file st) (Super_constants st) (inode + k)"
    and "j < 12" and "j \<notin> set is"
  shows "ld32 st' (slot inode j) = ld32 st (slot inode j)"
  unfolding ld32_def
proof (rule load32_eqI)
  fix b :: nat assume b: "b < 4"
  have n: "\<not> is_meta (fs_file st) (Super_constants st) (slot inode j + b)"
    using assms(2) [rule_format, of "40 + 4 * j + b"] assms(3) b by (simp add: add.assoc)
  have "disj_range (slot inode i) 4 (slot inode j + b) 1" if "i \<in> set is" for i
  proof -
    have "i \<noteq> j" using that assms(4) by blast
    then have "i < j \<or> j < i" by (rule nat_neq_iff [THEN iffD1])
    then show ?thesis using b by (auto simp: disj_range_def)
  qed
  with n assms(1) show "fs_file st' (slot inode j + b) = fs_file st (slot inode j + b)" unfolding removed_def by blast
qed

lemma removed_Cons:
  assumes step: "removed view path inode [i] st s1" and rest: "removed view path inode is s1 st'"
    and meta: "\<forall>k < 128. \<not> is_meta (fs_file st) (Super_constants st) (inode + k)" and i: "i < 12" "i \<notin> set is" "\<forall>j \<in> set is. j < 12"
  shows "removed view path inode (i # is) st st'"
proof -
  let ?sc = "Super_constants st" and ?b = "\<lambda>s i. ld32 s (slot inode i)"
  have sc: "Super_constants s1 = ?sc" using step only_image_fields(1) by (auto simp: removed_def)
  have m1: "is_meta (fs_file s1) ?sc = is_meta (fs_file st) ?sc" using step by (simp add: removed_def)
  have same: "?b s1 ` set is = ?b st ` set is"
    using removed_slot [OF step meta] i by (intro image_cong) auto
  have "\<forall>k < 128. \<not> is_meta (fs_file s1) (Super_constants s1) (inode + k)" unfolding sc m1 by (rule meta)
  from removed_slot [OF rest this i(1,2)] have i0: "?b st' i = 0" using step unfolding removed_def by simp
  show ?thesis unfolding removed_def
  proof (intro conjI)
    have "only_image st s1" "only_image s1 st'" using step rest by (simp_all add: removed_def)
    then show "only_image st st'" by (rule only_image_trans)
    show "free_nums Blocks st' = free_nums Blocks st \<union> ?b st ` set (i # is)"
    proof -
      have "free_nums Blocks st' = free_nums Blocks s1 \<union> ?b s1 ` set is" using rest unfolding removed_def by (elim conjE)
      moreover have "free_nums Blocks s1 = free_nums Blocks st \<union> ?b st ` set [i]" using step unfolding removed_def by (elim conjE)
      ultimately show ?thesis unfolding same by auto
    qed
    show "\<forall>j \<in> set (i # is). ?b st' j = 0" using i0 rest by (simp add: removed_def)
    show "\<forall>x. \<not> is_meta (fs_file st) ?sc x \<and> (\<forall>i \<in> set (i # is). disj_range (slot inode i) 4 x 1) \<longrightarrow> fs_file st' x = fs_file st x"
    proof (intro allI impI)
      fix x assume x: "\<not> is_meta (fs_file st) ?sc x \<and> (\<forall>i \<in> set (i # is). disj_range (slot inode i) 4 x 1)"
      then have "fs_file s1 x = fs_file st x" using step unfolding removed_def by simp
      moreover have "fs_file st' x = fs_file s1 x" using rest x unfolding removed_def sc m1 by simp
      ultimately show "fs_file st' x = fs_file st x" by simp
    qed
    show "\<forall>k v. view (memc st') k = Some v \<longrightarrow> view (memc st) k = Some v \<and> (\<forall>i \<in> set (i # is). k \<noteq> generate_key path (of_nat i))"
      using step rest unfolding removed_def by (metis list.set_intros(1) set_ConsD)
  qed (use step rest sc m1 in \<open>simp_all add: removed_def\<close>)
qed

lemma remove_range_ok:
  assumes laws: "cache_laws lib view" and ok: "srv_ok st" and meta: "\<forall>k < 128. \<not> is_meta (fs_file st) (Super_constants st) (inode + k)"
    and i: "\<forall>i \<in> set is. i < 12" "distinct (map (\<lambda>i. ld32 st (slot inode i)) is)"
      "\<forall>i \<in> set is. ld32 st (slot inode i) \<in> valid_nums Blocks st - free_nums Blocks st"
  shows "\<exists>st'. remove_range lib params inode is st = Some st' \<and> removed view (p_path params) inode is st st'"
  using ok meta i
proof (induction "is" arbitrary: st)
  case Nil
  then show ?case by (simp add: removed_def)
next
  case (Cons i "is")
  let ?sc = "Super_constants st"
  obtain fs1 where r: "Remove_Block st inode (of_nat i) = Some (st\<lparr>fs_file := fs1\<rparr>)" "srv_ok (st\<lparr>fs_file := fs1\<rparr>)"
    "free_nums Blocks (st\<lparr>fs_file := fs1\<rparr>) = insert (ld32 st (slot inode i)) (free_nums Blocks st)"
    "valid_nums Blocks (st\<lparr>fs_file := fs1\<rparr>) = valid_nums Blocks st" "is_meta fs1 ?sc = is_meta (fs_file st) ?sc"
    "load32 fs1 (slot inode i) = 0"
    "\<forall>x. \<not> is_meta (fs_file st) ?sc x \<and> disj_range (slot inode i) 4 x 1 \<longrightarrow> fs1 x = fs_file st x"
    "free_nums Inodes (st\<lparr>fs_file := fs1\<rparr>) = free_nums Inodes st" "valid_nums Inodes (st\<lparr>fs_file := fs1\<rparr>) = valid_nums Inodes st"
    using remove_direct [OF Cons.prems(1) _ Cons.prems(2), of i] Cons.prems(3,5) by auto
  define c where "c = memcached_delete lib (memc st) (generate_key (p_path params) (of_nat i))"
  define s1 where "s1 = st\<lparr>fs_file := fs1, memc := c\<rparr>"
  have del: "cache_delete lib params (of_nat i) (st\<lparr>fs_file := fs1\<rparr>) = s1" by (simp add: cache_delete_def s1_def c_def)
  have ok1: "srv_ok s1" "free_nums Blocks s1 = insert (ld32 st (slot inode i)) (free_nums Blocks st)" "valid_nums Blocks s1 = valid_nums Blocks st"
    "free_nums Inodes s1 = free_nums Inodes st" "valid_nums Inodes s1 = valid_nums Inodes st"
    unfolding s1_def srv_ok_cache using r(2-4,8,9) by blast+
  have f: "fs_file s1 = fs1" "memc s1 = c" "only_image st s1" by (simp_all add: s1_def)
  have cache: "view c k = Some v \<Longrightarrow> view (memc st) k = Some v \<and> k \<noteq> generate_key (p_path params) (of_nat i)" for k v
    using cache_laws_delete [OF laws, of "memc st" "generate_key (p_path params) (of_nat i)" k v] by (simp add: c_def)
  have step: "removed view (p_path params) inode [i] st s1"
    unfolding removed_def f ok1(2-5) using ok1(1) r(5-7) cache f(1,3) by (simp add: ld32_def)
  have ne: "i \<notin> set is" using Cons.prems(4) by auto
  have same: "ld32 s1 (slot inode j) = ld32 st (slot inode j)" if "j \<in> set is" for j
    using removed_slot [OF step Cons.prems(2), of j] that ne Cons.prems(3) by auto
  have "\<exists>st'. remove_range lib params inode is s1 = Some st' \<and> removed view (p_path params) inode is s1 st'"
  proof (rule Cons.IH [OF ok1(1)])
    show "\<forall>k < 128. \<not> is_meta (fs_file s1) (Super_constants s1) (inode + k)" using Cons.prems(2) r(5) by (simp add: s1_def)
    show "\<forall>i \<in> set is. i < 12" using Cons.prems(3) by simp
    show "distinct (map (\<lambda>i. ld32 s1 (slot inode i)) is)" using Cons.prems(4) same by (simp cong: map_cong)
    have "ld32 st (slot inode i) \<notin> (\<lambda>i. ld32 st (slot inode i)) ` set is" using Cons.prems(4) by simp
    then have "\<forall>j \<in> set is. ld32 st (slot inode j) \<noteq> ld32 st (slot inode i)" by (metis imageI)
    then show "\<forall>j \<in> set is. ld32 s1 (slot inode j) \<in> valid_nums Blocks s1 - free_nums Blocks s1"
      using Cons.prems(5) same ok1(2,3) by auto
  qed
  then obtain st' where s': "remove_range lib params inode is s1 = Some st'" "removed view (p_path params) inode is s1 st'" by blast
  have "removed view (p_path params) inode (i # is) st st'"
    using removed_Cons [OF step s'(2) Cons.prems(2) _ ne] Cons.prems(3) by simp
  then show ?case using r(1) s'(1) del by (simp only: remove_range.simps bind.bind_lunit) blast
qed

section \<open>Attaching blocks\<close>

lemma get_blocks:
  assumes ok: "srv_ok st" and k: "0 < k" "k < 2 ^ 32" "k \<le> card (free_nums Blocks st)"
  shows "\<exists>bs fs'. Get_Free_Blocks st (of_nat k) = Some (Some bs, st\<lparr>fs_file := fs'\<rparr>) \<and> srv_ok (st\<lparr>fs_file := fs'\<rparr>) \<and>
    length bs = k \<and> distinct bs \<and> set bs \<subseteq> free_nums Blocks st \<and> free_nums Blocks (st\<lparr>fs_file := fs'\<rparr>) = free_nums Blocks st - set bs \<and>
    valid_nums Blocks (st\<lparr>fs_file := fs'\<rparr>) = valid_nums Blocks st \<and>
    is_meta fs' (Super_constants st) = is_meta (fs_file st) (Super_constants st) \<and>
    (\<forall>x. \<not> is_meta (fs_file st) (Super_constants st) x \<and> (\<forall>b \<in> set bs. \<not> in_block (Super_constants st) b x) \<longrightarrow> fs' x = fs_file st x) \<and>
    free_nums Inodes (st\<lparr>fs_file := fs'\<rparr>) = free_nums Inodes st \<and> same_words (Super_constants st) (fs_file st) fs'"
proof -
  let ?sc = "Super_constants st" and ?fs = "fs_file st"
  have n: "unat (of_nat k :: u32) = k" "(of_nat k :: u32) \<noteq> 0" using k(1,2) by (simp_all add: unat_of_nat_u32 unat_eq_zero [symmetric])
  obtain ps fs' where r: "Get_Free_Blocks st (of_nat k) = Some (Some (map (num Blocks ?sc) ps), st\<lparr>fs_file := fs'\<rparr>)"
    "same_words ?sc ?fs fs'" "free_set Inodes fs' ?sc = free_set Inodes ?fs ?sc"
    "\<forall>x. \<not> is_meta ?fs ?sc x \<longrightarrow> fs' x = (if \<exists>p \<in> set (butlast ps). in_block ?sc (num Blocks ?sc p) x then 0 else ?fs x)"
    using Get_Free_Blocks_ok [OF ok n(2)] n(1) k(3) card_free_nums [OF ok, of Blocks] by auto
  have "fs' x = ?fs x" if "\<not> is_meta ?fs ?sc x" "\<forall>b \<in> set (map (num Blocks ?sc) ps). \<not> in_block ?sc b x" for x
    using r(4) that in_set_butlastD [of _ ps] by auto
  moreover have "free_nums Inodes (st\<lparr>fs_file := fs'\<rparr>) = free_nums Inodes st" using r(3) by (simp add: free_nums_def)
  ultimately show ?thesis
    using blk.alloc_ok [OF ok, of k] k r(1,2) same_words_meta [OF r(2)]
    by (intro exI [of _ "map (num Blocks ?sc) ps"] exI [of _ fs']) auto
qed

lemma used_direct:
  assumes "n \<le> 12" and "\<forall>i < n. ld32 st (slot inode i) \<noteq> 0" and "n < 12 \<longrightarrow> ld32 st (slot inode n) = 0"
  shows "used_entries st (slot inode 0) 12 = n"
proof -
  let ?ws = "load32s (fs_file st) (slot inode 0) 12"
  have "takeWhile (\<lambda>w. w \<noteq> 0) ?ws = take n ?ws"
    using assms by (intro takeWhile_eq_take_P_nth) (auto simp: ld32_def)
  then show ?thesis using assms(1) by (simp add: used_entries_def)
qed

lemma attach_direct:
  assumes ok: "srv_ok st" and meta: "\<forall>k < 128. \<not> is_meta (fs_file st) (Super_constants st) (inode + k)"
    and used: "\<forall>i < n. ld32 st (slot inode i) \<noteq> 0" "n < 12 \<longrightarrow> ld32 st (slot inode n) = 0"
    and k: "0 < k" "n + k \<le> 12"
  shows "if k \<le> card (free_nums Blocks st) then
      \<exists>bs fs'. Attach_Blocks st inode (of_nat k) = Some (0, st\<lparr>fs_file := fs'\<rparr>) \<and> srv_ok (st\<lparr>fs_file := fs'\<rparr>) \<and>
        length bs = k \<and> distinct bs \<and> set bs \<subseteq> free_nums Blocks st \<and> free_nums Blocks (st\<lparr>fs_file := fs'\<rparr>) = free_nums Blocks st - set bs \<and>
        valid_nums Blocks (st\<lparr>fs_file := fs'\<rparr>) = valid_nums Blocks st \<and>
        is_meta fs' (Super_constants st) = is_meta (fs_file st) (Super_constants st) \<and> (\<forall>i < k. load32 fs' (slot inode (n + i)) = bs ! i) \<and>
        (\<forall>x. \<not> is_meta (fs_file st) (Super_constants st) x \<and> disj_range (slot inode n) (4 * k) x 1 \<and>
          (\<forall>b \<in> set bs. \<not> in_block (Super_constants st) b x) \<longrightarrow> fs' x = fs_file st x) \<and>
        free_nums Inodes (st\<lparr>fs_file := fs'\<rparr>) = free_nums Inodes st \<and> same_words (Super_constants st) (fs_file st) fs'
    else Attach_Blocks st inode (of_nat k) = Some (of_nat (12 - n), st\<lparr>errno := ENOSPC\<rparr>)"
proof -
  let ?sc = "Super_constants st"
  have uk: "unat (of_nat k :: u32) = k" using k by (simp add: unat_of_nat_u32)
  have us: "used_entries st (slot inode 0) 12 = n" using used k by (intro used_direct) simp_all
  have c: "(if k < 12 - n then k else 12 - n) = k" using k by simp linarith
  have level0: "Attach_Blocks_level0 st inode (of_nat k) = do {
      (new_entries, st) \<leftarrow> Get_Free_Blocks st (of_nat k);
      case new_entries of None \<Rightarrow> Some (Some (of_nat (12 - n)), of_nat k, st)
      | Some bs \<Rightarrow> Some (None, of_nat k - of_nat k, st\<lparr>fs_file := store32s (fs_file st) (slot inode n) bs\<rparr>) }"
    using k by (simp only: Attach_Blocks_level0_def Let_def us uk c) simp
  show ?thesis
  proof (cases "k \<le> card (free_nums Blocks st)")
    case False
    then have "card (free_set Blocks (fs_file st) ?sc) < unat (of_nat k :: u32)" using uk card_free_nums [OF ok, of Blocks] by simp
    from Get_Free_full(1) [OF ok this] False show ?thesis by (simp add: Attach_Blocks_def level0)
  next
    case True
    obtain bs fs1 where g: "Get_Free_Blocks st (of_nat k) = Some (Some bs, st\<lparr>fs_file := fs1\<rparr>)" "srv_ok (st\<lparr>fs_file := fs1\<rparr>)"
      "length bs = k" "distinct bs" "set bs \<subseteq> free_nums Blocks st" "free_nums Blocks (st\<lparr>fs_file := fs1\<rparr>) = free_nums Blocks st - set bs"
      "valid_nums Blocks (st\<lparr>fs_file := fs1\<rparr>) = valid_nums Blocks st" "is_meta fs1 ?sc = is_meta (fs_file st) ?sc"
      "\<forall>x. \<not> is_meta (fs_file st) ?sc x \<and> (\<forall>b \<in> set bs. \<not> in_block ?sc b x) \<longrightarrow> fs1 x = fs_file st x"
      "free_nums Inodes (st\<lparr>fs_file := fs1\<rparr>) = free_nums Inodes st" "same_words ?sc (fs_file st) fs1"
      using get_blocks [OF ok k(1) _ True] k(2) by auto
    define fs2 where "fs2 = store32s fs1 (slot inode n) bs"
    have out: "fs2 x = fs1 x" if "disj_range (slot inode n) (4 * k) x 1" for x
      using that by (simp add: fs2_def store32s_outside g(3))
    have keep: "fs2 x = fs1 x" if x: "is_meta fs1 ?sc x" for x
    proof (rule out, rule ccontr)
      assume "\<not> disj_range (slot inode n) (4 * k) x 1"
      then have "x - inode < 128" "inode + (x - inode) = x" using k(2) by (auto simp: disj_range_def)
      then show False using meta x by (metis g(8))
    qed
    note nm = srv_ok_nonmeta [OF g(2), of fs2, simplified, OF this]
    have "layout fs1 ?sc" using g(2) fs_okD(1) by (auto simp: srv_ok_def)
    note w = same_words_trans [OF g(11) nonmeta_change(1) [OF this keep]]
    have "load32 fs2 (slot inode (n + i)) = bs ! i" if "i < k" for i
      using load32_store32s_nth [of i bs fs1 "slot inode n"] that g(3) by (simp add: fs2_def algebra_simps)
    moreover have "Attach_Blocks st inode (of_nat k) = Some (0, st\<lparr>fs_file := fs2\<rparr>)"
      by (simp add: Attach_Blocks_def level0 g(1) fs2_def)
    ultimately show ?thesis using True g nm out w by (auto intro!: exI [of _ bs] exI [of _ fs2])
  qed
qed

section \<open>Locks\<close>

lemma upd_active_fails: "List.find (\<lambda>a. af_path a = p) as = Some a \<Longrightarrow> f a = None \<Longrightarrow> upd_active p f as = None"
  by (induction as) (auto split: if_splits)

lemma unlock_free: "afl_tab l p = Some (unlocked, n) \<Longrightarrow> active_list_upd l p (on_lock UNLOCK) = None"
  by (auto simp: afl_tab_def afl_find_def active_list_upd_def on_lock_def UNLOCK_def unlocked_def intro!: upd_active_fails)

lemma unlock_twice:
  assumes "ready st cs" and "afl_ok l2" and "afl_tab l2 = marks (afl_tab (active_file_list st)) {} {st_path cs}"
  shows "\<exists>l3 l4. active_list_upd l2 (st_path cs) (on_lock WRLOCK) = Some l3 \<and>
    active_list_upd l3 (st_path cs) (on_lock UNLOCK) = Some l4 \<and> active_list_upd l4 (st_path cs) (on_lock UNLOCK) = None"
proof -
  let ?T = "afl_tab (active_file_list st)" and ?p = "st_path cs"
  have e: "afl_tab l2 ?p = Some (unlocked, bump (?T ?p))" by (simp add: assms(3) marks_def)
  obtain l3 where l3: "active_list_upd l2 ?p (on_lock WRLOCK) = Some l3" "afl_ok l3"
    "afl_tab l3 ?p = Some (\<lparr>readers = 0, writer = True\<rparr>, bump (?T ?p))"
    using afl.lock_law [OF assms(2) e, of WRLOCK] by auto
  obtain l4 where "active_list_upd l3 ?p (on_lock UNLOCK) = Some l4" "afl_tab l4 ?p = Some (unlocked, bump (?T ?p))"
    using afl.lock_law [OF l3(2,3), of UNLOCK] by auto
  with l3(1) unlock_free show ?thesis by blast
qed

section \<open>The whole operation\<close>

lemma truncate_steps:
  fixes params :: params_t
  defines "path \<equiv> p_path params" and "new \<equiv> ucast (p_size params) :: u32"
  assumes "st_find st path = Some sta" and "inode_of_file sta path = Some (Some inode, n, stb)"
    and "i_mode stb inode AND EXT2_IFREG \<noteq> 0" and "st_lock WRLOCK stb path = Some stc" and "sc = Super_constants stb"
    and "diff = int (Size_In_Blocks sc new) - int (Size_In_Blocks sc (ld32 stc (inode + inode_off I_size)))"
    and "(if diff > 0 then Attach_Blocks stc inode (of_int diff)
      else if diff < 0 then map_option (Pair 0) (Remove_Blocks lib stc inode diff params) else Some (0, stc)) = Some (na, st1)"
  shows "na = 0 \<Longrightarrow> truncate_file lib params st = do {
      st \<leftarrow> st_lock UNLOCK (set_blocks (set_size st1 inode new) inode (of_nat (Size_In_Blocks sc new div 512))) path;
      st \<leftarrow> st_finished st path; Some (new_result params (D_word 0), st) }"
    and "na > 0 \<Longrightarrow> \<exists>w v. truncate_file lib params st = do {
      st \<leftarrow> st_lock UNLOCK (set_blocks (set_size st1 inode w) inode v) path;
      st \<leftarrow> st_lock UNLOCK (set_blocks (set_size st inode new) inode (of_nat (Size_In_Blocks sc new div 512))) path;
      st \<leftarrow> st_finished st path; Some (new_result params (D_word 0), st) }"
proof -
  note simps = Let_def bind.bind_lunit case_prod_conv option.case if_True if_False not_False_eq_True not_True_eq_False
  note e = truncate_file_def [of lib params st, folded path_def new_def]
  show "na = 0 \<Longrightarrow> truncate_file lib params st = do {
      st \<leftarrow> st_lock UNLOCK (set_blocks (set_size st1 inode new) inode (of_nat (Size_In_Blocks sc new div 512))) path;
      st \<leftarrow> st_finished st path; Some (new_result params (D_word 0), st) }"
    using assms(5) by (simp only: e simps assms(3,4,6) assms(7) [symmetric] assms(8) [symmetric] assms(9) less_irrefl)
  show "na > 0 \<Longrightarrow> \<exists>w v. truncate_file lib params st = do {
      st \<leftarrow> st_lock UNLOCK (set_blocks (set_size st1 inode w) inode v) path;
      st \<leftarrow> st_lock UNLOCK (set_blocks (set_size st inode new) inode (of_nat (Size_In_Blocks sc new div 512))) path;
      st \<leftarrow> st_finished st path; Some (new_result params (D_word 0), st) }"
    using assms(5) by (simp only: e simps assms(3,4,6) assms(7) [symmetric] assms(8) [symmetric] assms(9)) blast
qed

text \<open>What removing or attaching blocks does, before size and block count are stored.\<close>

definition resized :: "'c cache_view \<Rightarrow> string \<Rightarrow> nat \<Rightarrow> u32 set \<Rightarrow> u32 list \<Rightarrow> u32 set \<Rightarrow> 'c server \<Rightarrow> 'c server \<Rightarrow> bool" where
  "resized view path inode new_bs bs' F st st1 \<longleftrightarrow> only_image st st1 \<and> srv_ok st1 \<and> free_nums Blocks st1 = F \<and>
     valid_nums Blocks st1 = valid_nums Blocks st \<and> is_meta (fs_file st1) (Super_constants st) = is_meta (fs_file st) (Super_constants st) \<and>
     (\<forall>i < 12. ld32 st1 (slot inode i) = (if i < length bs' then bs' ! i else 0)) \<and>
     (\<forall>x. \<not> is_meta (fs_file st) (Super_constants st) x \<and> disj_range inode 128 x 1 \<and> (\<forall>b \<in> new_bs. \<not> in_block (Super_constants st) b x) \<longrightarrow>
       fs_file st1 x = fs_file st x) \<and>
     (\<forall>i v. view (memc st1) (generate_key path i) = Some v \<longrightarrow> view (memc st) (generate_key path i) = Some v \<and> unat i < length bs')"

definition no_wrap :: "Superblock_constants \<Rightarrow> bool" where
  \<comment> \<open>The image is not larger than 32-bit addresses reach.\<close>
  "no_wrap sc \<longleftrightarrow> (groups sc * per_group Blocks sc + 1) * bsize sc \<le> 2 ^ 32"

lemma valid_apart:
  assumes ok: "srv_ok st" and w: "no_wrap (Super_constants st)" and b: "b \<in> valid_nums Blocks st" "c \<in> valid_nums Blocks st" "b \<noteq> c"
  shows "disj_range (blk_at st b) (bsize (Super_constants st)) (blk_at st c) (bsize (Super_constants st))"
proof -
  let ?sc = "Super_constants st"
  have lay: "layout (fs_file st) ?sc" using ok fs_okD(1) by (auto simp: srv_ok_def)
  have addr: "blk_at st d = unat d * bsize ?sc" if d: "d \<in> valid_nums Blocks st" for d
  proof -
    obtain g j where gj: "d = num Blocks ?sc (g, j)" "g < groups ?sc" "j < per_group Blocks ?sc"
      using d by (auto simp: valid_nums_def usable_def)
    have "g * per_group Blocks ?sc + j + 1 \<le> Suc g * per_group Blocks ?sc" using gj(3) by simp
    also have "\<dots> \<le> groups ?sc * per_group Blocks ?sc" using gj(2) by (intro mult_le_mono1) simp
    finally have "unat d \<le> groups ?sc * per_group Blocks ?sc" using num_unat [OF lay gj(2,3)] gj(1) by simp
    moreover have "0 < bsize ?sc" using layoutD(1,3) [OF lay, of Blocks] by simp
    ultimately have "unat d * bsize ?sc < (groups ?sc * per_group Blocks ?sc + 1) * bsize ?sc" by (intro mult_less_mono1) simp_all
    then have "unat d * bsize ?sc < 2 ^ 32" using w by (simp add: no_wrap_def)
    then show ?thesis by (simp add: blk_at_def block_addr_def bsize_def unat_word_ariths)
  qed
  have "unat b < unat c \<or> unat c < unat b" using b(3) by (metis linorder_neqE_nat word_unat_eq_iff)
  then show ?thesis
  proof
    assume "unat b < unat c"
    then have "Suc (unat b) * bsize ?sc \<le> unat c * bsize ?sc" by (intro mult_le_mono1) simp
    then show ?thesis by (simp add: disj_range_def addr b)
  next
    assume "unat c < unat b"
    then have "Suc (unat c) * bsize ?sc \<le> unat b * bsize ?sc" by (intro mult_le_mono1) simp
    then show ?thesis by (simp add: disj_range_def addr b)
  qed
qed

lemma valid_not_meta:
  assumes "b \<in> valid_nums Blocks st" and "in_block (Super_constants st) b x"
  shows "\<not> is_meta (fs_file st) (Super_constants st) x"
  using assms usable_not_meta by (auto simp: valid_nums_def)

lemma inode_stored:
  assumes ok: "srv_ok st" and meta: "\<forall>k < 128. \<not> is_meta (fs_file st) (Super_constants st) (inode + k)"
    and st'_def: "st' = set_blocks (set_size st inode w) inode v"
  shows "srv_ok st'" "free_nums K st' = free_nums K st" "valid_nums K st' = valid_nums K st"
    "is_meta (fs_file st') (Super_constants st) = is_meta (fs_file st) (Super_constants st)" "only_image st st'" "memc st' = memc st"
    "ld32 st' (inode + inode_off I_size) = w" "ld32 st' (inode + inode_off I_blocks) = v" "ld32 st' (slot inode i) = ld32 st (slot inode i)"
    "disj_range inode 128 x 1 \<Longrightarrow> fs_file st' x = fs_file st x"
proof -
  let ?fs' = "store32 (store32 (fs_file st) (inode + inode_off I_size) w) (inode + inode_off I_blocks) v"
  have st': "st' = st\<lparr>fs_file := ?fs'\<rparr>" by (simp add: st'_def set_blocks_def set_size_def st32_def)
  have out: "?fs' x = fs_file st x" if "disj_range inode 128 x 1" for x
    using that by (auto simp: mem_simps disj_range_def)
  have m: "?fs' x = fs_file st x" if "is_meta (fs_file st) (Super_constants st) x" for x
  proof (rule out, rule ccontr)
    assume "\<not> disj_range inode 128 x 1"
    then have "x - inode < 128" "inode + (x - inode) = x" by (auto simp: disj_range_def)
    then show False using meta that by metis
  qed
  show "srv_ok st'" "free_nums K st' = free_nums K st" "valid_nums K st' = valid_nums K st"
    "is_meta (fs_file st') (Super_constants st) = is_meta (fs_file st) (Super_constants st)"
    unfolding st' using srv_ok_nonmeta [OF ok m] by simp_all
  show "only_image st st'" "memc st' = memc st" by (simp_all add: st')
  show "ld32 st' (inode + inode_off I_size) = w" "ld32 st' (inode + inode_off I_blocks) = v" "ld32 st' (slot inode i) = ld32 st (slot inode i)"
    by (simp_all add: st' ld32_def mem_simps disj_range_def)
  show "disj_range inode 128 x 1 \<Longrightarrow> fs_file st' x = fs_file st x" using out by (simp add: st')
qed

lemma block_bytes_eqI:
  assumes "blk_at st' b = blk_at st b" and "Super_constants st' = Super_constants st"
    and "\<And>x. in_block (Super_constants st) b x \<Longrightarrow> fs_file st' x = fs_file st x"
  shows "block_bytes st' b = block_bytes st b"
proof -
  have "load_bytes (fs_file st') (blk_at st b) n = load_bytes (fs_file st) (blk_at st b) n" if "n = bsize (Super_constants st)" for n
    using assms(3) that by (intro load_bytes_eqI) (simp add: in_block_def blk_at_def)
  then show ?thesis using assms(1,2) by (simp add: block_bytes_def bsize_def)
qed

lemma resized_stored:
  assumes r: "resized view path inode new_bs bs' F st st1" and st2: "st2 = set_blocks (set_size st1 inode w) inode v"
    and meta: "\<forall>k < 128. \<not> is_meta (fs_file st) (Super_constants st) (inode + k)"
    and w: "Size_In_Blocks (Super_constants st) w = length bs'" "length bs' \<le> 12"
    and bs': "distinct bs'" "set bs' \<subseteq> valid_nums Blocks st - F"
    and apart: "\<forall>b \<in> set bs' \<union> F. disj_range (blk_at st b) (bsize (Super_constants st)) inode 128"
    and apart': "\<forall>b c x. b \<in> set bs' - new_bs \<longrightarrow> c \<in> new_bs \<longrightarrow> in_block (Super_constants st) b x \<longrightarrow> \<not> in_block (Super_constants st) c x"
    and co: "coherent view st path bs" and old': "\<forall>i. i < length bs \<longrightarrow> i < length bs' \<longrightarrow> bs' ! i = bs ! i \<and> bs' ! i \<notin> new_bs"
  shows "srv_ok st2" "free_nums Blocks st2 = F" "only_image st st2" "file_blocks st2 inode = bs'" "direct_file st2 inode"
    "ld32 st2 (inode + inode_off I_size) = w" "ld32 st2 (inode + inode_off I_blocks) = v"
    "\<forall>b \<in> set bs' - new_bs. block_bytes st2 b = block_bytes st b" "coherent view st2 path bs'"
proof -
  let ?sc = "Super_constants st"
  note keep = apart' [rule_format] and old = old' [rule_format]
  have o1: "only_image st st1" using r by (simp add: resized_def)
  note f1 = only_image_fields [OF o1]
  have ok1: "srv_ok st1" "free_nums Blocks st1 = F" "valid_nums Blocks st1 = valid_nums Blocks st"
    and m1: "is_meta (fs_file st1) ?sc = is_meta (fs_file st) ?sc" using r by (simp_all add: resized_def)
  have "\<forall>k < 128. \<not> is_meta (fs_file st1) (Super_constants st1) (inode + k)" using meta by (simp add: f1 m1)
  note i = inode_stored [OF ok1(1) this st2]
  show "srv_ok st2" "free_nums Blocks st2 = F" using i(1,2) ok1(2) by simp_all
  show o2: "only_image st st2" by (rule only_image_trans [OF o1 i(5)])
  note f2 = only_image_fields [OF o2]
  show size: "ld32 st2 (inode + inode_off I_size) = w" "ld32 st2 (inode + inode_off I_blocks) = v" by (rule i(7), rule i(8))
  have slots: "\<forall>i < 12. ld32 st2 (slot inode i) = (if i < length bs' then bs' ! i else 0)"
    using r i(9) unfolding resized_def by auto
  have "file_blocks st2 inode = map (\<lambda>i. ld32 st2 (slot inode i)) [0..<length bs']"
    using file_blocks_direct [of st2 inode] w by (simp only: f2 size)
  also have "\<dots> = bs'" using slots w(2) by (intro nth_equalityI) auto
  finally show fb: "file_blocks st2 inode = bs'" .
  have m2: "is_meta (fs_file st2) ?sc = is_meta (fs_file st) ?sc" using i(4) by (simp add: f1 m1)
  show "direct_file st2 inode"
    unfolding direct_file_def Let_def fb f2 m2 i(2,3) ok1(2,3) using w(2) bs' slots meta apart by simp
  show bytes: "\<forall>b \<in> set bs' - new_bs. block_bytes st2 b = block_bytes st b"
  proof
    fix b assume b: "b \<in> set bs' - new_bs"
    show "block_bytes st2 b = block_bytes st b"
    proof (rule block_bytes_eqI)
      fix x assume x: "in_block ?sc b x"
      have "disj_range inode 128 x 1"
      proof -
        have "disj_range (block_addr ?sc b) (bsize ?sc) inode 128" using apart b by (simp add: blk_at_def)
        then show ?thesis using x by (auto simp: in_block_def disj_range_def)
      qed
      moreover have "\<not> is_meta (fs_file st) ?sc x" using valid_not_meta [of b st x] bs'(2) b x by blast
      moreover have "\<forall>c \<in> new_bs. \<not> in_block ?sc c x" using keep b x by blast
      ultimately have "fs_file st1 x = fs_file st x" using r unfolding resized_def by blast
      then show "fs_file st2 x = fs_file st x" using i(10) \<open>disj_range inode 128 x 1\<close> by simp
    qed (simp_all add: f2)
  qed
  show "coherent view st2 path bs'" unfolding coherent_def
  proof (intro allI impI)
    fix b data assume v: "view (memc st2) (generate_key path b) = Some data"
    then have u: "view (memc st) (generate_key path b) = Some data" "unat b < length bs'" using r i(6) unfolding resized_def by simp_all
    then have "unat b < length bs" "data = block_bytes st (bs ! unat b)" using co unfolding coherent_def by blast+
    moreover have "bs' ! unat b = bs ! unat b" "bs' ! unat b \<in> set bs' - new_bs" using u(2) old [of "unat b"] calculation nth_mem [OF u(2)] by auto
    ultimately show "unat b < length bs' \<and> data = block_bytes st2 (bs' ! unat b)" using u(2) bytes by auto
  qed
qed

lemma direct_fileD:
  fixes st :: "'c server"
  defines "bs inode \<equiv> file_blocks st inode"
  assumes "direct_file st inode"
  shows "length (bs inode) \<le> 12" "distinct (bs inode)" "set (bs inode) \<subseteq> valid_nums Blocks st - free_nums Blocks st"
    "\<forall>k < 128. \<not> is_meta (fs_file st) (Super_constants st) (inode + k)"
    "\<forall>b \<in> set (bs inode) \<union> free_nums Blocks st. disj_range (blk_at st b) (bsize (Super_constants st)) inode 128"
    "length (bs inode) = Size_In_Blocks (Super_constants st) (ld32 st (inode + inode_off I_size))"
    "i < 12 \<Longrightarrow> ld32 st (slot inode i) = (if i < length (bs inode) then bs inode ! i else 0)"
    "i < length (bs inode) \<Longrightarrow> ld32 st (slot inode i) = bs inode ! i"
proof -
  show "length (bs inode) \<le> 12" "distinct (bs inode)" "set (bs inode) \<subseteq> valid_nums Blocks st - free_nums Blocks st"
    "\<forall>k < 128. \<not> is_meta (fs_file st) (Super_constants st) (inode + k)"
    "\<forall>b \<in> set (bs inode) \<union> free_nums Blocks st. disj_range (blk_at st b) (bsize (Super_constants st)) inode 128"
    using assms(2) by (simp_all add: direct_file_def Let_def bs_def)
  have zero: "i < 12 \<Longrightarrow> \<not> i < length (bs inode) \<Longrightarrow> ld32 st (slot inode i) = 0"
    using assms(2) by (simp add: direct_file_def Let_def bs_def)
  show len: "length (bs inode) = Size_In_Blocks (Super_constants st) (ld32 st (inode + inode_off I_size))"
    by (simp add: bs_def file_blocks_def)
  then show nth: "i < length (bs inode) \<Longrightarrow> ld32 st (slot inode i) = bs inode ! i"
    using file_blocks_direct [of st inode] \<open>length (bs inode) \<le> 12\<close> unfolding bs_def by simp
  show "i < 12 \<Longrightarrow> ld32 st (slot inode i) = (if i < length (bs inode) then bs inode ! i else 0)"
    using nth zero by simp
qed

lemma shrink_resized:
  assumes laws: "cache_laws lib view" and ok: "srv_ok st" and d: "direct_file st inode" and bs: "bs = file_blocks st inode" and m: "m \<le> length bs"
    and co: "coherent view st (p_path params) bs"
  shows "\<exists>st1. remove_range lib params inode [m..<length bs] st = Some st1 \<and>
    resized view (p_path params) inode {} (take m bs) (free_nums Blocks st \<union> set (drop m bs)) st st1 \<and>
    free_nums Inodes st1 = free_nums Inodes st \<and> valid_nums Inodes st1 = valid_nums Inodes st"
proof -
  note df = direct_fileD [OF d, folded bs]
  let ?b = "\<lambda>i. ld32 st (slot inode i)"
  have nth: "?b i = bs ! i" if "i \<in> set [m..<length bs]" for i using that df(8) by simp
  have "map ?b [m..<length bs] = map ((!) bs) [m..<length bs]" using nth by (intro map_cong) auto
  also have "\<dots> = drop m bs" using m by (intro nth_equalityI) auto
  finally have blocks: "map ?b [m..<length bs] = drop m bs" .
  have "distinct (map ?b [m..<length bs])" unfolding blocks using df(2) by simp
  moreover have "?b i \<in> valid_nums Blocks st - free_nums Blocks st" if "i \<in> set [m..<length bs]" for i
    unfolding nth [OF that] using that df(3) by (intro subsetD [OF df(3)] nth_mem) simp
  moreover have "\<forall>i \<in> set [m..<length bs]. i < 12" using df(1) by simp
  ultimately obtain st1 where r: "remove_range lib params inode [m..<length bs] st = Some st1"
    "removed view (p_path params) inode [m..<length bs] st st1"
    using remove_range_ok [OF laws ok df(4)] by blast
  have "resized view (p_path params) inode {} (take m bs) (free_nums Blocks st \<union> set (drop m bs)) st st1"
    unfolding resized_def
  proof (intro conjI allI impI)
    show "free_nums Blocks st1 = free_nums Blocks st \<union> set (drop m bs)"
      using r(2) blocks unfolding removed_def by (metis list.set_map)
    show "ld32 st1 (slot inode i) = (if i < length (take m bs) then take m bs ! i else 0)" if i: "i < 12" for i
    proof (cases "i \<in> set [m..<length bs]")
      case True
      then show ?thesis using r(2) unfolding removed_def by auto
    next
      case False
      then show ?thesis using removed_slot [OF r(2) df(4) i] df(7) [OF i] m by auto
    qed
    show "fs_file st1 x = fs_file st x"
      if "\<not> is_meta (fs_file st) (Super_constants st) x \<and> disj_range inode 128 x 1 \<and> (\<forall>b \<in> {}. \<not> in_block (Super_constants st) b x)" for x
    proof -
      have "disj_range (slot inode i) 4 x 1" if "i \<in> set [m..<length bs]" for i
        using that df(1) \<open>_ \<and> disj_range inode 128 x 1 \<and> _\<close> by (auto simp: disj_range_def)
      then show ?thesis using r(2) that unfolding removed_def by blast
    qed
    fix i v assume v: "view (memc st1) (generate_key (p_path params) i) = Some v"
    then show u: "view (memc st) (generate_key (p_path params) i) = Some v" using r(2) unfolding removed_def by blast
    have "unat i < length bs" using u co unfolding coherent_def by blast
    moreover have "unat i \<notin> set [m..<length bs]"
    proof
      assume "unat i \<in> set [m..<length bs]"
      then have "generate_key (p_path params) i \<noteq> generate_key (p_path params) (of_nat (unat i))" using v r(2) unfolding removed_def by blast
      then show False by simp
    qed
    ultimately show "unat i < length (take m bs)" by simp
  qed (use r(2) in \<open>simp_all add: removed_def\<close>)
  moreover have "free_nums Inodes st1 = free_nums Inodes st" "valid_nums Inodes st1 = valid_nums Inodes st"
    using r(2) by (simp_all add: removed_def)
  ultimately show ?thesis using r(1) by blast
qed

lemma valid_nonzero:
  assumes "srv_ok st" and "b \<in> valid_nums Blocks st"
  shows "b \<noteq> 0"
proof -
  have "layout (fs_file st) (Super_constants st)" using assms(1) fs_okD(1) by (auto simp: srv_ok_def)
  then show ?thesis using assms(2) num_split(3) [of "fs_file st" "Super_constants st"] by (auto simp: valid_nums_def usable_def)
qed

lemma grow_resized:
  assumes ok: "srv_ok st" and d: "direct_file st inode" and bs: "bs = file_blocks st inode"
    and k: "0 < k" "length bs + k \<le> 12" and co: "coherent view st path bs"
  shows "if k \<le> card (free_nums Blocks st) then \<exists>nb st1. Attach_Blocks st inode (of_nat k) = Some (0, st1) \<and>
      length nb = k \<and> distinct nb \<and> set nb \<subseteq> free_nums Blocks st \<and>
      resized view path inode (set nb) (bs @ nb) (free_nums Blocks st - set nb) st st1
    else Attach_Blocks st inode (of_nat k) = Some (of_nat (12 - length bs), st\<lparr>errno := ENOSPC\<rparr>)"
proof -
  note df = direct_fileD [OF d, folded bs]
  have used: "\<forall>i < length bs. ld32 st (slot inode i) \<noteq> 0"
  proof (intro allI impI)
    fix i assume i: "i < length bs"
    have "bs ! i \<in> valid_nums Blocks st" using df(3) nth_mem [OF i] by blast
    then show "ld32 st (slot inode i) \<noteq> 0" using valid_nonzero [OF ok] df(8) [OF i] by metis
  qed
  have "length bs < 12 \<longrightarrow> ld32 st (slot inode (length bs)) = 0" using df(7) by simp
  note a = attach_direct [OF ok df(4) used this k]
  show ?thesis
  proof (cases "k \<le> card (free_nums Blocks st)")
    case True
    then obtain nb fs' where n: "Attach_Blocks st inode (of_nat k) = Some (0, st\<lparr>fs_file := fs'\<rparr>)" "srv_ok (st\<lparr>fs_file := fs'\<rparr>)"
      "length nb = k" "distinct nb" "set nb \<subseteq> free_nums Blocks st" "free_nums Blocks (st\<lparr>fs_file := fs'\<rparr>) = free_nums Blocks st - set nb"
      "valid_nums Blocks (st\<lparr>fs_file := fs'\<rparr>) = valid_nums Blocks st" "is_meta fs' (Super_constants st) = is_meta (fs_file st) (Super_constants st)"
      "\<forall>i < k. load32 fs' (slot inode (length bs + i)) = nb ! i"
      "\<forall>x. \<not> is_meta (fs_file st) (Super_constants st) x \<and> disj_range (slot inode (length bs)) (4 * k) x 1 \<and>
          (\<forall>b \<in> set nb. \<not> in_block (Super_constants st) b x) \<longrightarrow> fs' x = fs_file st x"
      using a by auto
    have in_inode: "\<not> in_block (Super_constants st) b (inode + j)" if "b \<in> set nb" "j < 128" for b j
      using df(5) n(5) that by (force simp: in_block_def disj_range_def blk_at_def)
    have same: "load32 fs' (slot inode i) = ld32 st (slot inode i)" if i: "i < 12" "i < length bs \<or> length bs + k \<le> i" for i
      unfolding ld32_def
    proof (rule load32_eqI)
      fix j :: nat assume j: "j < 4"
      have "slot inode i + j = inode + (40 + 4 * i + j)" "40 + 4 * i + j < 128" using i(1) j by simp_all
      moreover have "disj_range (slot inode (length bs)) (4 * k) (slot inode i + j) 1" using i(2) j by (auto simp: disj_range_def)
      ultimately show "fs' (slot inode i + j) = fs_file st (slot inode i + j)" using n(10) df(4) in_inode by metis
    qed
    have slots: "load32 fs' (slot inode i) = (if i < length (bs @ nb) then (bs @ nb) ! i else 0)" if i: "i < 12" for i
    proof (cases "i < length bs \<or> length bs + k \<le> i")
      case True
      then show ?thesis using same [OF i True] df(7) [OF i] n(3) by (auto simp: nth_append)
    next
      case False
      then obtain j where "i = length bs + j" "j < k" by (metis le_add_diff_inverse nat_le_linear nat_add_left_cancel_less not_le)
      then show ?thesis using n(3,9) by (simp add: nth_append)
    qed
    have "disj_range (slot inode (length bs)) (4 * k) x 1" if "disj_range inode 128 x 1" for x
      using that k(2) by (auto simp: disj_range_def)
    moreover have "unat i < length (bs @ nb)" if "view (memc st) (generate_key path i) = Some v" for i v
    proof -
      have "unat i < length bs" using co that unfolding coherent_def by blast
      then show ?thesis by simp
    qed
    ultimately have "resized view path inode (set nb) (bs @ nb) (free_nums Blocks st - set nb) st (st\<lparr>fs_file := fs'\<rparr>)"
      unfolding resized_def using n(2,6-8,10) slots by (auto simp: ld32_def)
    then show ?thesis using True n(1,3-5) by auto
  qed (use a in simp)
qed

lemma table_file [simp]:
  "file_blocks (with_table st l e) inode = file_blocks st inode" "blk_at (with_table st l e) = blk_at st"
  "direct_file (with_table st l e) inode = direct_file st inode"
  by (simp_all add: file_blocks_def blk_at_def direct_file_def fun_eq_iff)

lemma remove_blocks_range:
  assumes "n = Size_In_Blocks (Super_constants st) (ld32 st (inode + inode_off I_size))" and "n < 2 ^ 31" and "m < n"
  shows "Remove_Blocks lib st inode (int m - int n) params = remove_range lib params inode [m..<n] st"
proof -
  have u: "unat (of_nat n :: u32) = n" "unat (of_nat m :: u32) = m" using assms by (simp_all add: unat_of_nat_u32)
  have "uint (of_nat n :: u32) + (int m - int n) = int m" using u(1) by (simp only: uint_nat)
  then have "(of_int (uint (of_nat n :: u32) + (int m - int n)) :: u32) = of_nat m" by (simp only: of_int_of_nat_eq)
  moreover have "\<not> int m - int n > 0" using assms(3) by simp
  ultimately show ?thesis by (simp only: Remove_Blocks_def Let_def assms(1) [symmetric] u if_False)
qed

text \<open>The part of \<open>truncate_file\<close> under the lock.\<close>

definition resize_blocks ::
  "'c memcached_lib \<Rightarrow> params_t \<Rightarrow> nat \<Rightarrow> nat \<Rightarrow> nat \<Rightarrow> 'c server \<Rightarrow> (u32 \<times> 'c server) option" where
  "resize_blocks lib params inode m n st =
     (let diff = int m - int n in
      if diff > 0 then Attach_Blocks st inode (of_int diff)
      else if diff < 0 then map_option (Pair 0) (Remove_Blocks lib st inode diff params) else Some (0, st))"

lemma resize_blocks_ok:
  assumes laws: "cache_laws lib view" and ok: "srv_ok st" and d: "direct_file st inode" and bs: "bs = file_blocks st inode" and m: "m \<le> 12"
    and co: "coherent view st (p_path params) bs" and F: "F = free_nums Blocks st"
  shows "if m \<le> length bs \<or> m - length bs \<le> card F
    then \<exists>nb st1. resize_blocks lib params inode m (length bs) st = Some (0, st1) \<and> length nb = m - length bs \<and> distinct nb \<and> set nb \<subseteq> F \<and>
      resized view (p_path params) inode (set nb) (take m bs @ nb) (F \<union> set (drop m bs) - set nb) st st1
    else resize_blocks lib params inode m (length bs) st = Some (of_nat (12 - length bs), st\<lparr>errno := ENOSPC\<rparr>) \<and> length bs < 12"
proof (cases "m \<le> length bs")
  case True
  obtain st1 where s: "remove_range lib params inode [m..<length bs] st = Some st1"
    "resized view (p_path params) inode {} (take m bs) (F \<union> set (drop m bs)) st st1"
    using shrink_resized [OF laws ok d bs True co] by (auto simp: F)
  have "resize_blocks lib params inode m (length bs) st = Some (0, st1)"
  proof (cases "m = length bs")
    case True
    then show ?thesis using s(1) by (simp add: resize_blocks_def)
  next
    case False
    then have "m < length bs" "length bs < 2 ^ 31" using True direct_fileD(1) [OF d] by (simp_all add: bs)
    from remove_blocks_range [OF direct_fileD(6) [OF d, folded bs] this(2,1)] s(1) this show ?thesis
      by (simp add: resize_blocks_def del: of_int_diff)
  qed
  with True s(2) show ?thesis by (auto intro!: exI [of _ "[]"])
next
  case False
  then have k: "0 < m - length bs" "length bs + (m - length bs) \<le> 12" and t: "take m bs = bs" "drop m bs = []" using m by simp_all
  have e: "resize_blocks lib params inode m (length bs) st = Attach_Blocks st inode (of_nat (m - length bs))"
    using False by (simp add: resize_blocks_def of_nat_diff)
  from grow_resized [OF ok d bs k co] False m show ?thesis unfolding e F t by (auto split: if_splits)
qed

lemma truncate_direct:
  fixes st :: "'c server" and params :: params_t
  defines "new \<equiv> ucast (p_size params) :: u32"
  assumes "ready st cs" and "p_path params = st_path cs" and "resolve st cs = Some (Some inode, n, e)"
    and "i_mode st inode AND EXT2_IFREG \<noteq> 0" and "length bs = Size_In_Blocks (Super_constants st) (ld32 st (inode + inode_off I_size))"
    and "m = Size_In_Blocks (Super_constants st) new"
  shows "\<exists>l3. (\<forall>na st1. resize_blocks lib params inode m (length bs) (with_table st l3 e) = Some (na, st1) \<and> active_file_list st1 = l3 \<longrightarrow>
    (if na = 0 then \<exists>l5. afl_tab l5 = afl_tab (active_file_list st) \<and> truncate_file lib params st =
        Some (new_result params (D_word 0), with_table (set_blocks (set_size st1 inode new) inode (of_nat (m div 512))) l5 False)
     else truncate_file lib params st = None))"
proof -
  let ?p = "st_path cs"
  obtain l1 l2 where f: "st_find st ?p = Some (with_table st l1 False)"
    "inode_of_file (with_table st l1 False) ?p = Some (Some inode, n, with_table st l2 e)"
    "afl_ok l2" "afl_tab l2 = marks (afl_tab (active_file_list st)) {} {?p}"
    using find_and_resolve [OF assms(2)] assms(4) by auto
  obtain l3 l4 l5 where l: "active_list_upd l2 ?p (on_lock WRLOCK) = Some l3" "active_list_upd l3 ?p (on_lock UNLOCK) = Some l4"
    "active_file_finished_using l4 ?p = Some l5" "afl_tab l5 = afl_tab (active_file_list st)"
    using write_locked [OF assms(2) f(3,4)] by blast
  have twice: "active_list_upd l4 ?p (on_lock UNLOCK) = None" using unlock_twice [OF assms(2) f(3,4)] l(1,2) by auto
  have lockc: "st_lock WRLOCK (with_table st l2 e) ?p = Some (with_table st l3 e)" using l(1) by (simp add: with_table_ops)
  have keep: "active_file_list (set_blocks (set_size s inode w) inode v) = active_file_list s" for s :: "'c server" and w v
    by (simp add: set_blocks_def set_size_def st32_def)
  show ?thesis
  proof (intro exI [of _ l3] allI impI)
    fix na st1 assume r: "resize_blocks lib params inode m (length bs) (with_table st l3 e) = Some (na, st1) \<and> active_file_list st1 = l3"
    define diff where "diff = int m - int (length bs)"
    have "diff = int (Size_In_Blocks (Super_constants st) new) - int (Size_In_Blocks (Super_constants st) (ld32 (with_table st l3 e) (inode + inode_off I_size)))"
      by (simp add: diff_def assms(6,7))
    moreover have "(if diff > 0 then Attach_Blocks (with_table st l3 e) inode (of_int diff)
      else if diff < 0 then map_option (Pair 0) (Remove_Blocks lib (with_table st l3 e) inode diff params) else Some (0, with_table st l3 e)) = Some (na, st1)"
      using r unfolding resize_blocks_def diff_def Let_def by (rule conjunct1)
    ultimately have steps: "na = 0 \<Longrightarrow> truncate_file lib params st = do {
          st \<leftarrow> st_lock UNLOCK (set_blocks (set_size st1 inode new) inode (of_nat (m div 512))) ?p;
          st \<leftarrow> st_finished st ?p; Some (new_result params (D_word 0), st) }"
        "na > 0 \<Longrightarrow> \<exists>w v. truncate_file lib params st = do {
          st \<leftarrow> st_lock UNLOCK (set_blocks (set_size st1 inode w) inode v) ?p;
          st \<leftarrow> st_lock UNLOCK (set_blocks (set_size st inode new) inode (of_nat (m div 512))) ?p;
          st \<leftarrow> st_finished st ?p; Some (new_result params (D_word 0), st) }"
      using truncate_steps [of st params "with_table st l1 False" inode n "with_table st l2 e" "with_table st l3 e" "Super_constants st" diff lib na st1]
        assms(3,5,7) f(1,2) lockc by (simp_all add: new_def)
    show "if na = 0 then \<exists>l5. afl_tab l5 = afl_tab (active_file_list st) \<and> truncate_file lib params st =
        Some (new_result params (D_word 0), with_table (set_blocks (set_size st1 inode new) inode (of_nat (m div 512))) l5 False)
     else truncate_file lib params st = None"
    proof (cases "na = 0")
      case True
      then show ?thesis using steps(1) l(2-4) r by (auto simp: st_lock_def st_finished_def keep with_table_def)
    next
      case False
      then obtain w v where "truncate_file lib params st = do {
          st \<leftarrow> st_lock UNLOCK (set_blocks (set_size st1 inode w) inode v) ?p;
          st \<leftarrow> st_lock UNLOCK (set_blocks (set_size st inode new) inode (of_nat (m div 512))) ?p;
          st \<leftarrow> st_finished st ?p; Some (new_result params (D_word 0), st) }"
        using steps(2) by (auto simp: word_gt_0)
      then show ?thesis using False l(2) twice r by (simp add: st_lock_def keep)
    qed
  qed
qed

lemma resized_result:
  fixes st :: "'c server"
  defines "F \<equiv> free_nums Blocks st"
  assumes "srv_ok st" and "no_wrap (Super_constants st)" and "direct_file st inode" and bs: "bs = file_blocks st inode"
    and m: "m = Size_In_Blocks (Super_constants st) new" "m \<le> 12" and co: "coherent view st path bs"
    and nb: "length nb = m - length bs" "distinct nb" "set nb \<subseteq> F"
    and r: "resized view path inode (set nb) (take m bs @ nb) (F \<union> set (drop m bs) - set nb) st st1"
    and st2: "st2 = set_blocks (set_size st1 inode new) inode v"
  shows "srv_ok st2" "free_nums Blocks st2 = F \<union> set (drop m bs) - set nb" "file_blocks st2 inode = take m bs @ nb" "direct_file st2 inode"
    "ld32 st2 (inode + inode_off I_size) = new" "ld32 st2 (inode + inode_off I_blocks) = v"
    "\<forall>b \<in> set (take m bs). block_bytes st2 b = block_bytes st b" "coherent view st2 path (take m bs @ nb)"
proof -
  let ?sc = "Super_constants st"
  note df = direct_fileD [OF assms(4), folded bs]
  have len: "length (take m bs @ nb) = m" using nb(1) by simp
  have Fv: "F \<subseteq> valid_nums Blocks st" unfolding F_def by (rule blk.free_valid [OF assms(2)])
  have disj: "set bs \<inter> F = {}" "set (take m bs) \<inter> set (drop m bs) = {}"
    using df(2,3) set_take_disj_set_drop_if_distinct [of bs m m] by (auto simp: F_def)
  have sub: "set (take m bs) \<subseteq> set bs" "set (drop m bs) \<subseteq> set bs" by (rule set_take_subset, rule set_drop_subset)
  have keep: "\<forall>b c x. b \<in> set (take m bs @ nb) - set nb \<longrightarrow> c \<in> set nb \<longrightarrow> in_block ?sc b x \<longrightarrow> \<not> in_block ?sc c x"
  proof (intro allI impI)
    fix b c x assume that: "b \<in> set (take m bs @ nb) - set nb" "c \<in> set nb" "in_block ?sc b x"
    have "b \<in> valid_nums Blocks st" "c \<in> valid_nums Blocks st" "b \<noteq> c" using that sub(1) df(3) nb(3) Fv by auto
    from valid_apart [OF assms(2,3) this] that(3) show "\<not> in_block ?sc c x" by (auto simp: disj_range_def in_block_def blk_at_def)
  qed
  have size: "Size_In_Blocks ?sc new = length (take m bs @ nb)" "length (take m bs @ nb) \<le> 12" using m len by simp_all
  have set': "distinct (take m bs @ nb)" "set (take m bs @ nb) \<subseteq> valid_nums Blocks st - (F \<union> set (drop m bs) - set nb)"
    using df(2,3) nb(2,3) sub disj Fv by (auto simp: F_def)
  have apart: "\<forall>b \<in> set (take m bs @ nb) \<union> (F \<union> set (drop m bs) - set nb). disj_range (blk_at st b) (bsize ?sc) inode 128"
    using df(5) sub nb(3) by (auto simp: F_def)
  have old: "\<forall>i. i < length bs \<longrightarrow> i < length (take m bs @ nb) \<longrightarrow> (take m bs @ nb) ! i = bs ! i \<and> (take m bs @ nb) ! i \<notin> set nb"
  proof (intro allI impI)
    fix i assume that: "i < length bs" "i < length (take m bs @ nb)"
    have "i < m" using that len by simp
    moreover have "bs ! i \<notin> set nb" using nth_mem [OF that(1)] disj(1) nb(3) by blast
    ultimately show "(take m bs @ nb) ! i = bs ! i \<and> (take m bs @ nb) ! i \<notin> set nb" using that by (simp add: nth_append)
  qed
  note s = resized_stored [OF r st2 df(4) size set' apart keep co old]
  show "srv_ok st2" "free_nums Blocks st2 = F \<union> set (drop m bs) - set nb" "file_blocks st2 inode = take m bs @ nb" "direct_file st2 inode"
    "ld32 st2 (inode + inode_off I_size) = new" "ld32 st2 (inode + inode_off I_blocks) = v" "coherent view st2 path (take m bs @ nb)"
    using s by blast+
  show "\<forall>b \<in> set (take m bs). block_bytes st2 b = block_bytes st b" using s(8) sub(1) disj(1) nb(3) by auto
qed

lemma image_direct: "direct_file image_server 3328"
proof -
  have "disj_range (blk_at image_server b) 128 3328 128" if "b \<in> {19, 20, 21, 22}" for b
    using that by (auto simp: image_blk_at disj_range_def)
  moreover have "ld32 image_server (slot 3328 i) = 0" if "2 \<le> i" "i < 12" for i
  proof -
    have "image_fs x = 0" if "3376 \<le> x" for x using that by (simp add: image_fs_def demo_fs_def)
    then show ?thesis using \<open>2 \<le> i\<close> by (simp add: ld32_def load32_def load_bytes_def upt_rec)
  qed
  ultimately show ?thesis
    using image_valid_nums by (simp add: direct_file_def image_file_blocks image_free_nums demo_simps image_meta)
qed

lemma image_truncate:
  assumes "p_path params = ''/a''"
  shows "ready image_server [''a'']" "p_path params = st_path [''a'']" "no_wrap (Super_constants image_server)"
    "coherent (\<lambda>c. c) image_server (p_path params) [19, 21]" "[19, 21] = file_blocks image_server 3328"
  using assms by (simp_all add: image_ready st_path_def path_of_def separator_def no_wrap_def demo_simps coherent_def image_file_blocks)



end
