(* ===== verification/Dir_Chain.thy ===== *)
theory Dir_Chain
  imports Directory
begin

text \<open>
  A directory block as the list of its entries. \<open>dchain\<close> is the shape of a well-formed block:
  entries one after the other, each at least as long as its padded name, filling the block.
  On such a block reading, attaching and deleting of \<^verbatim>\<open>file_operations.c\<close> end, stay inside the
  block and keep the shape, and on the list of pairs of inode and name they are a filter, an
  insertion and the removal of one element.
\<close>

section \<open>Well-formed blocks\<close>

fun dchain :: "mem \<Rightarrow> nat \<Rightarrow> nat \<Rightarrow> nat list \<Rightarrow> bool" where
  "dchain fs a limit [] \<longleftrightarrow> a = limit"
| "dchain fs a limit (e # es) \<longleftrightarrow> e = a \<and> get_padded_size fs a \<le> unat (e_len fs a) \<and> 4 dvd unat (e_len fs a) \<and>
     a + unat (e_len fs a) \<le> limit \<and> dchain fs (a + unat (e_len fs a)) limit es"

definition entry_of :: "mem \<Rightarrow> nat \<Rightarrow> u32 \<times> u8 list" where
  "entry_of fs e = (e_inode fs e, e_name fs e (unat (e_name_len fs e)))"

definition same_on :: "nat \<Rightarrow> nat \<Rightarrow> mem \<Rightarrow> mem \<Rightarrow> bool" where
  "same_on a b fs fs' \<longleftrightarrow> (\<forall>x. a \<le> x \<and> x < b \<longrightarrow> fs' x = fs x)"

definition same_outside :: "nat \<Rightarrow> nat \<Rightarrow> mem \<Rightarrow> mem \<Rightarrow> bool" where
  "same_outside a b fs fs' \<longleftrightarrow> (\<forall>x. x < a \<or> b \<le> x \<longrightarrow> fs' x = fs x)"

lemma padded_bounds: "n \<le> padded n" "4 dvd padded n" "4 dvd m \<Longrightarrow> n \<le> m \<Longrightarrow> padded n \<le> m"
proof -
  have "n = 4 * (n div 4) + n mod 4" "n mod 4 < 4" by simp_all
  then obtain q r where n: "n = 4 * q + r" "r < 4" by blast
  have p: "padded n = (if r = 0 then 4 * q else 4 * q + 4)"
    using n by (simp add: padded_def)
  show "n \<le> padded n" "4 dvd padded n" unfolding p using n by auto
  show "padded n \<le> m" if m: "4 dvd m" "n \<le> m"
  proof -
    obtain k where "m = 4 * k" using m(1) unfolding dvd_def by blast
    then show ?thesis unfolding p using n m(2) by (auto, presburger)
  qed
qed

lemma padded_size_ge: "8 + unat (e_name_len fs e) \<le> get_padded_size fs e"
  using padded_bounds(1) [of "8 + unat (e_name_len fs e)"] by (simp add: get_padded_size_def sizeof_entry_def)

lemma dchain_le: "dchain fs a limit es \<Longrightarrow> a \<le> limit"
  by (cases es) auto

lemma dchain_first:
  assumes "dchain fs a limit (e # es)"
  shows "0 < unat (e_len fs a)" "a < limit"
  using assms padded_size_ge [of fs a] by auto

lemma entry_frame:
  assumes "same_on e (e + 8 + unat (e_name_len fs e)) fs fs'"
  shows "e_len fs' e = e_len fs e" "e_name_len fs' e = e_name_len fs e" "entry_of fs' e = entry_of fs e"
    "get_padded_size fs' e = get_padded_size fs e"
proof -
  have s: "fs' (e + i) = fs (e + i)" if "i < 8 + unat (e_name_len fs e)" for i
    using assms that by (simp add: same_on_def)
  have "e_inode fs' e = e_inode fs e"
    unfolding e_inode_def by (intro load32_eqI) (simp add: s)
  show l: "e_len fs' e = e_len fs e"
    unfolding e_len_def by (intro load16_eqI) (simp add: s add.assoc)
  show n: "e_name_len fs' e = e_name_len fs e"
    by (simp add: e_name_len_def s)
  have "e_name fs' e (unat (e_name_len fs e)) = e_name fs e (unat (e_name_len fs e))"
    unfolding e_name_def by (intro load_bytes_eqI) (simp add: s add.assoc)
  with n \<open>e_inode fs' e = e_inode fs e\<close> show "entry_of fs' e = entry_of fs e"
    by (simp add: entry_of_def)
  show "get_padded_size fs' e = get_padded_size fs e" by (simp add: get_padded_size_def n)
qed

lemma same_on_sub: "same_on a b fs fs' \<Longrightarrow> a \<le> c \<Longrightarrow> d \<le> b \<Longrightarrow> same_on c d fs fs'"
  by (auto simp: same_on_def)

lemma dchain_frame:
  assumes "dchain fs a limit es" and "same_on a limit fs fs'"
  shows "dchain fs' a limit es \<and> map (entry_of fs') es = map (entry_of fs) es"
  using assms
proof (induction es arbitrary: a)
  case (Cons e es)
  then have e: "e = a" "get_padded_size fs a \<le> unat (e_len fs a)" "a + unat (e_len fs a) \<le> limit"
    "4 dvd unat (e_len fs a)" by auto
  then have "same_on a (a + 8 + unat (e_name_len fs a)) fs fs'"
    using padded_size_ge [of fs a] by (intro same_on_sub [OF Cons.prems(2)]) auto
  note f = entry_frame [OF this]
  moreover have "dchain fs' (a + unat (e_len fs a)) limit es \<and> map (entry_of fs') es = map (entry_of fs) es"
    using Cons.IH [of "a + unat (e_len fs a)"] Cons.prems same_on_sub [OF Cons.prems(2)] by simp
  ultimately show ?case using e by simp
qed simp

section \<open>Reading\<close>

lemma block_entries_chain:
  "dchain fs a limit es \<Longrightarrow> block_entries fs a limit = Some (filter (\<lambda>e. e_inode fs e \<noteq> 0) es)"
proof (induction es arbitrary: a)
  case Nil
  then show ?case by (subst block_entries.simps) simp
next
  case (Cons e es)
  from dchain_first [OF Cons.prems] Cons show ?case
    by (subst block_entries.simps) (simp add: unat_gt_0)
qed

section \<open>Attaching\<close>

definition new_entry_ok :: "entry_t \<Rightarrow> nat \<Rightarrow> bool" where
  "new_entry_ok ne n \<longleftrightarrow> 0 < n \<and> n < 256 \<and> name_len ne = of_nat n \<and> entry_len ne = of_nat (8 + n) \<and>
     length (file_name ne) = n"

lemma new_entry_len:
  assumes "new_entry_ok ne n"
  shows "unat (entry_len ne) = 8 + n"
proof -
  have "entry_len ne = of_nat (8 + n)" "8 + n < 65536" using assms by (auto simp: new_entry_ok_def)
  then show ?thesis by (simp only: unat_of_nat_u16 mod_less)
qed

lemma copy_new_entry_fields:
  assumes "new_entry_ok ne n" and "fs' = copy_new_entry fs to (ne\<lparr>entry_len := w\<rparr>)"
  shows "e_len fs' to = w" "e_name_len fs' to = of_nat n" "entry_of fs' to = (inode_number ne, file_name ne)"
    "same_outside to (to + 8 + n) fs fs'"
proof -
  have n: "unat (of_nat n :: u8) = n" "length (file_name ne) = n" "name_len ne = of_nat n"
    using assms(1) by (simp_all add: new_entry_ok_def u_simps)
  show "e_len fs' to = w"
    by (simp add: assms(2) n copy_new_entry_def Let_def e_len_def mem_simps disj_range_def)
  show nl: "e_name_len fs' to = of_nat n"
    by (simp add: assms(2) n copy_new_entry_def Let_def e_name_len_def mem_simps disj_range_def)
  have "e_inode fs' to = inode_number ne"
    by (simp add: assms(2) n copy_new_entry_def Let_def e_inode_def mem_simps disj_range_def)
  moreover have "e_name fs' to n = file_name ne"
    using load_bytes_store_same [of n "file_name ne" _ "to + 8"]
    by (simp add: assms(2) n copy_new_entry_def Let_def e_name_def)
  ultimately show "entry_of fs' to = (inode_number ne, file_name ne)"
    by (simp add: entry_of_def nl n)
  show "same_outside to (to + 8 + n) fs fs'"
    by (auto simp: same_outside_def assms(2) n copy_new_entry_def Let_def store_bytes_def store16_def store32_def)
qed

text \<open>The free space after the name of an entry.\<close>

definition slack :: "mem \<Rightarrow> nat \<Rightarrow> nat" where
  "slack fs e = unat (e_len fs e) - get_padded_size fs e"

lemma same_outside_on: "same_outside a b fs fs' \<Longrightarrow> d \<le> a \<or> b \<le> c \<Longrightarrow> same_on c d fs fs'"
  by (auto simp: same_outside_def same_on_def)

lemma attach_split:
  assumes ne: "new_entry_ok ne n" and dv: "4 dvd unat (e_len fs e)" and sl: "8 + n < slack fs e"
    and fs': "fs' = copy_new_entry (set_e_len fs e (of_nat (get_padded_size fs e))) (e + get_padded_size fs e)
      (ne\<lparr>entry_len := of_nat (slack fs e)\<rparr>)"
  shows "dchain fs' e (e + unat (e_len fs e)) [e, e + get_padded_size fs e]"
    and "map (entry_of fs') [e, e + get_padded_size fs e] = [entry_of fs e, (inode_number ne, file_name ne)]"
    and "same_outside e (e + unat (e_len fs e)) fs fs'"
proof -
  let ?p = "get_padded_size fs e" and ?l = "unat (e_len fs e)"
  let ?f = "set_e_len fs e (of_nat ?p)"
  have pl: "?p < ?l" "?p + slack fs e = ?l" using sl by (auto simp: slack_def)
  have "?p < 65536" "slack fs e < 65536" using pl unat_lt_u16 [of "e_len fs e"] by linarith+
  then have up: "unat (of_nat ?p :: u16) = ?p" "unat (of_nat (slack fs e) :: u16) = slack fs e"
    by (simp_all only: unat_of_nat_u16 mod_less)
  have d4: "4 dvd ?p" "4 dvd slack fs e"
    using dv padded_bounds(2) [of "sizeof_entry + unat (e_name_len fs e)"]
    by (simp_all add: slack_def get_padded_size_def dvd_diff_nat)
  note new = copy_new_entry_fields [OF ne fs']
  have out1: "same_outside (e + 4) (e + 6) fs ?f"
    by (auto simp: same_outside_def set_e_len_def mem_simps disj_range_def)
  have out2: "fs' x = fs x" if "x < e + 4 \<or> e + 6 \<le> x" "x < e + ?p \<or> e + ?l \<le> x" for x
    using that out1 new(4) sl pl by (auto simp: same_outside_def)
  then show "same_outside e (e + ?l) fs fs'" using padded_size_ge [of fs e] pl by (auto simp: same_outside_def)
  have nl: "e_name_len fs' e = e_name_len fs e"
    using out2 [of "e + 6"] padded_size_ge [of fs e] by (simp add: e_name_len_def)
  have p': "get_padded_size fs' e = ?p" by (simp add: get_padded_size_def nl)
  have "e_len fs' e = e_len ?f e"
    unfolding e_len_def using new(4) padded_size_ge [of fs e]
    by (intro load16_eqI) (auto simp: same_outside_def)
  then have el: "unat (e_len fs' e) = ?p" by (simp add: e_len_def set_e_len_def mem_simps up)
  have "e_inode fs' e = e_inode fs e"
    unfolding e_inode_def using out2 padded_size_ge [of fs e] by (intro load32_eqI) auto
  moreover have "e_name fs' e (unat (e_name_len fs e)) = e_name fs e (unat (e_name_len fs e))"
    unfolding e_name_def using out2 padded_size_ge [of fs e] by (intro load_bytes_eqI) auto
  ultimately have "entry_of fs' e = entry_of fs e" by (simp add: entry_of_def nl)
  with new(3) show "map (entry_of fs') [e, e + ?p] = [entry_of fs e, (inode_number ne, file_name ne)]" by simp
  have "unat (e_name_len fs' (e + ?p)) = n" using new(2) ne by (simp add: new_entry_ok_def u_simps)
  then have "get_padded_size fs' (e + ?p) \<le> slack fs e"
    using padded_bounds(3) [OF d4(2)] sl by (simp add: get_padded_size_def sizeof_entry_def)
  then show "dchain fs' e (e + ?l) [e, e + ?p]"
    using d4 pl by (simp add: el p' new(1) up)
qed

lemma attach_in_place:
  assumes ne: "new_entry_ok ne n" and dv: "4 dvd unat (e_len fs e)" and sl: "8 + n < slack fs e"
    and p8: "get_padded_size fs e \<le> 8" and fs': "fs' = copy_new_entry fs e (ne\<lparr>entry_len := e_len fs e\<rparr>)"
  shows "dchain fs' e (e + unat (e_len fs e)) [e]"
    and "entry_of fs' e = (inode_number ne, file_name ne)" and "same_outside e (e + unat (e_len fs e)) fs fs'"
proof -
  note new = copy_new_entry_fields [OF ne fs']
  have l: "8 + n \<le> unat (e_len fs e)" using sl by (simp add: slack_def)
  have "unat (e_name_len fs' e) = n" using new(2) ne by (simp add: new_entry_ok_def u_simps)
  then have "get_padded_size fs' e \<le> unat (e_len fs e)"
    using padded_bounds(3) [OF dv l] by (simp add: get_padded_size_def sizeof_entry_def)
  with new dv show "dchain fs' e (e + unat (e_len fs e)) [e]" "entry_of fs' e = (inode_number ne, file_name ne)" by auto
  show "same_outside e (e + unat (e_len fs e)) fs fs'" using new(4) l by (auto simp: same_outside_def)
qed

lemma dchain_append:
  "dchain fs a b xs \<Longrightarrow> dchain fs b c ys \<Longrightarrow> dchain fs a c (xs @ ys)"
  by (induction xs arbitrary: a) (auto dest: dchain_le)

definition attached_contents :: "mem \<Rightarrow> nat list \<Rightarrow> nat \<Rightarrow> nat list \<Rightarrow> entry_t \<Rightarrow> (u32 \<times> u8 list) list" where
  \<comment> \<open>The new entry comes after the one that gives the space, or replaces it when that one has no name.\<close>
  "attached_contents fs before e after ne =
     map (entry_of fs) before @ (if e_name_len fs e = 0 then [] else [entry_of fs e]) @
     (inode_number ne, file_name ne) # map (entry_of fs) after"

lemma attach_here:
  assumes ne: "new_entry_ok ne n" and ch: "dchain fs e limit (e # es)" and sl: "8 + n < slack fs e"
  shows "\<exists>fs' es'. attach_in_block fs e limit ne = Some (True, fs') \<and> dchain fs' e limit es' \<and>
    map (entry_of fs') es' = attached_contents fs [] e es ne \<and> same_outside e (e + unat (e_len fs e)) fs fs'"
proof -
  let ?p = "get_padded_size fs e" and ?b = "e + unat (e_len fs e)"
  have rest: "dchain fs ?b limit es" "?b \<le> limit" and dv: "4 dvd unat (e_len fs e)" using ch by auto
  have p: "?p < unat (e_len fs e)" using sl by (simp add: slack_def)
  note el = new_entry_len [OF ne]
  have p8: "8 < ?p \<longleftrightarrow> e_name_len fs e \<noteq> 0"
    using padded_size_ge [of fs e] by (auto simp: get_padded_size_def sizeof_entry_def padded_def unat_eq_zero)
      (metis add_0_right less_numeral_extra(3) unat_eq_zero not_gr_zero nat_neq_iff)
  have att: "attach_in_block fs e limit ne =
      Some (True, if 8 < ?p
        then copy_new_entry (set_e_len fs e (of_nat ?p)) (e + ?p) (ne\<lparr>entry_len := of_nat (slack fs e)\<rparr>)
        else copy_new_entry fs e (ne\<lparr>entry_len := e_len fs e\<rparr>))"
    using dchain_first [OF ch] sl p el by (subst attach_in_block.simps) (simp add: Let_def slack_def)
  show ?thesis
  proof (cases "8 < ?p")
    case True
    define fs' where fs': "fs' = copy_new_entry (set_e_len fs e (of_nat ?p)) (e + ?p) (ne\<lparr>entry_len := of_nat (slack fs e)\<rparr>)"
    note h = attach_split [OF ne dv sl fs']
    from dchain_frame [OF rest(1)] same_outside_on [OF h(3), of limit ?b]
    have r: "dchain fs' ?b limit es" "map (entry_of fs') es = map (entry_of fs) es" by auto
    have "dchain fs' e limit ([e, e + ?p] @ es)" using dchain_append [OF h(1) r(1)] .
    moreover have "map (entry_of fs') ([e, e + ?p] @ es) = attached_contents fs [] e es ne"
      using h(2) r(2) True p8 by (simp add: attached_contents_def)
    moreover have "attach_in_block fs e limit ne = Some (True, fs')" using att True fs' by simp
    ultimately show ?thesis using h(3) by blast
  next
    case False
    define fs' where fs': "fs' = copy_new_entry fs e (ne\<lparr>entry_len := e_len fs e\<rparr>)"
    note h = attach_in_place [OF ne dv sl _ fs']
    from dchain_frame [OF rest(1)] same_outside_on [OF h(3), of limit ?b] False
    have r: "dchain fs' ?b limit es" "map (entry_of fs') es = map (entry_of fs) es" by auto
    have "dchain fs' e limit ([e] @ es)" using dchain_append [OF h(1) r(1)] False by simp
    moreover have "map (entry_of fs') ([e] @ es) = attached_contents fs [] e es ne"
      using h(2) r(2) False p8 by (simp add: attached_contents_def)
    moreover have "attach_in_block fs e limit ne = Some (True, fs')" using att False fs' by simp
    ultimately show ?thesis using h(3) False by (metis leI)
  qed
qed

lemma attach_chain:
  assumes ne: "new_entry_ok ne n" and ch: "dchain fs a limit es"
  shows "case List.find (\<lambda>e. 8 + n < slack fs e) es of
      None \<Rightarrow> attach_in_block fs a limit ne = Some (False, fs)
    | Some e \<Rightarrow> \<exists>fs' es' before after. es = before @ e # after \<and> attach_in_block fs a limit ne = Some (True, fs') \<and>
        dchain fs' a limit es' \<and> map (entry_of fs') es' = attached_contents fs before e after ne \<and> same_outside a limit fs fs'"
  using ch
proof (induction es arbitrary: a)
  case Nil
  then show ?case by (subst attach_in_block.simps) simp
next
  case (Cons x es)
  have x: "x = a" "a < limit" "0 < unat (e_len fs a)" using dchain_first [OF Cons.prems] Cons.prems by auto
  have rest: "dchain fs (a + unat (e_len fs a)) limit es" "a + unat (e_len fs a) \<le> limit" using Cons.prems by auto
  show ?case
  proof (cases "8 + n < slack fs a")
    case True
    with attach_here [OF ne, of fs a limit es] Cons.prems x rest show ?thesis
      by (force simp: same_outside_def)
  next
    case False
    note el = new_entry_len [OF ne]
    have step: "attach_in_block fs a limit ne = attach_in_block fs (a + unat (e_len fs a)) limit ne"
      using x False el by (subst attach_in_block.simps) (simp add: Let_def slack_def)
    show ?thesis
    proof (cases "List.find (\<lambda>e. 8 + n < slack fs e) es")
      case None
      with Cons.IH [OF rest(1)] step False x show ?thesis by simp
    next
      case (Some e)
      with Cons.IH [OF rest(1)] obtain fs' es' before after where
        h: "es = before @ e # after" "attach_in_block fs (a + unat (e_len fs a)) limit ne = Some (True, fs')"
          "dchain fs' (a + unat (e_len fs a)) limit es'" "map (entry_of fs') es' = attached_contents fs before e after ne"
          "same_outside (a + unat (e_len fs a)) limit fs fs'" by auto
      have "same_on a (a + 8 + unat (e_name_len fs a)) fs fs'"
        using Cons.prems padded_size_ge [of fs a] by (intro same_outside_on [OF h(5)]) auto
      note f = entry_frame [OF this]
      have "dchain fs' a limit (a # es')" using Cons.prems h(3) f by auto
      moreover have "map (entry_of fs') (a # es') = attached_contents fs (a # before) e after ne"
        using h(4) f by (simp add: attached_contents_def)
      moreover have "same_outside a limit fs fs'" using h(5) by (auto simp: same_outside_def)
      ultimately show ?thesis using Some False x step h(1,2)
        by (simp del: dchain.simps list.map)
          (metis append_Cons)
    qed
  qed
qed

section \<open>Deleting\<close>

lemma add_e_len:
  "unat (e_len fs a) + unat (e_len fs b) < 65536 \<Longrightarrow> unat (e_len fs a + e_len fs b) = unat (e_len fs a) + unat (e_len fs b)"
  by (simp add: unat_word_ariths)

lemma absorb_next_fields:
  assumes p: "get_padded_size fs e \<le> unat (e_len fs e)" and x: "x = e + unat (e_len fs e)"
    and px: "get_padded_size fs x \<le> unat (e_len fs x)" and sum: "unat (e_len fs e) + unat (e_len fs x) < 65536"
    and fits: "unat (e_name_len fs x) \<le> unat (e_len fs e)"
  obtains fs' where "absorb_next fs e = Some fs'" and "unat (e_len fs' e) = unat (e_len fs e) + unat (e_len fs x)"
    and "e_name_len fs' e = e_name_len fs x" and "entry_of fs' e = entry_of fs x"
    and "same_outside e (x + unat (e_len fs x)) fs fs'"
proof -
  let ?n = "unat (e_name_len fs x)" and ?w = "e_len fs x + e_len fs e"
  define f1 where "f1 = set_e_len fs x ?w"
  define f2 where "f2 = store32 f1 e (e_inode fs x)"
  define f3 where "f3 = store16 f2 (e + 4) ?w"
  define f4 where "f4 = f3(e + 6 := e_name_len fs x)"
  define f5 where "f5 = f4(e + 7 := fs (x + 7))"
  define f6 where "f6 = store_bytes f5 (e + 8) (e_name fs x ?n)"
  have ge: "8 \<le> unat (e_len fs e)" "8 + ?n \<le> unat (e_len fs x)"
    using p px padded_size_ge [of fs e] padded_size_ge [of fs x] by auto
  note defs = e_inode_def e_len_def e_name_len_def e_name_def set_e_len_def
  have r1: "load32 f1 x = e_inode fs x" "load16 f1 (x + 4) = ?w" "f1 (x + 6) = e_name_len fs x" "f1 (x + 7) = fs (x + 7)"
    "load_bytes f1 (x + 8) ?n = e_name fs x ?n"
    by (simp_all add: f1_def defs mem_simps disj_range_def)
  have r2: "load16 f2 (x + 4) = ?w" "f3 (x + 6) = e_name_len fs x" "f4 (x + 7) = fs (x + 7)" "f5 (x + 6) = e_name_len fs x"
    "load_bytes f5 (x + 8) ?n = e_name fs x ?n"
    using r1 ge x by (simp_all add: f2_def f3_def f4_def f5_def mem_simps disj_range_def)
  have steps: "store32 f1 e (load32 f1 x) = f2" "store16 f2 (e + 4) (load16 f2 (x + 4)) = f3"
    "f3(e + 6 := f3 (x + 6)) = f4" "f4(e + 7 := f4 (x + 7)) = f5"
    by (simp_all only: r1 r2 f2_def [symmetric] f3_def [symmetric] f4_def [symmetric] f5_def [symmetric])
  have dis: "disj_range e ?n x ?n" using fits x by (simp add: disj_range_def)
  have copy: "copy_entry f1 e x = Some f6"
    unfolding copy_entry_def entry_off.simps add_0_right Let_def steps unfolding r2(4,5) f6_def using dis by simp
  have len: "length (e_name fs x ?n) = ?n" by (simp add: e_name_def)
  have "unat (e_len f6 e) = unat (e_len fs e) + unat (e_len fs x)"
    using sum add_e_len [of fs x e] by (simp add: f6_def f5_def f4_def f3_def e_len_def [of _ e] mem_simps disj_range_def add.commute)
  moreover have nl: "e_name_len f6 e = e_name_len fs x"
    by (simp add: f6_def f5_def f4_def e_name_len_def [of _ e] mem_simps disj_range_def)
  moreover have "e_inode f6 e = e_inode fs x"
    by (simp add: f6_def f5_def f4_def f3_def f2_def e_inode_def [of _ e] mem_simps disj_range_def)
  then have "entry_of f6 e = entry_of fs x"
    using nl load_bytes_store_same [OF len [symmetric]] by (simp add: entry_of_def f6_def e_name_def [of _ e])
  moreover have "same_outside e (x + unat (e_len fs x)) fs f6"
    using ge x len by (auto simp: same_outside_def f6_def f5_def f4_def f3_def f2_def f1_def set_e_len_def mem_simps disj_range_def)
  ultimately show ?thesis using that [of f6] copy by (simp add: absorb_next_def f1_def x)
qed

lemma delete_step:
  assumes ch: "dchain fs it limit (it # es)" and acum: "acum + (limit - it) = bsz" and small: "bsz < 65536"
  shows "delete_in_block fs it limit bsz acum name =
    (let e = it + unat (e_len fs it)
     in if entry_matches fs e name then
          (if e + unat (e_len fs e) = limit then Some (True, set_e_len fs it (e_len fs it + e_len fs e))
           else map_option (Pair True) (absorb_next fs e))
        else delete_in_block fs e limit bsz (acum + unat (e_len fs it)) name)"
proof -
  note first = dchain_first [OF ch]
  let ?e = "it + unat (e_len fs it)"
  have le: "?e \<le> limit" using ch by simp
  let ?acum = "acum + unat (e_len fs it)"
  have le': "?acum \<le> bsz" using le acum first by linarith
  have "unat (of_nat bsz - of_nat ?acum :: u32) = bsz - ?acum"
    using le' small by (simp only: of_nat_diff [symmetric] unat_of_nat_u32) simp
  also have "\<dots> = limit - ?e" using acum le first by linarith
  finally have "unat (e_len fs ?e) = unat (of_nat bsz - of_nat ?acum :: u32) \<longleftrightarrow> ?e + unat (e_len fs ?e) = limit"
    using le by linarith
  then show ?thesis
    using first by (subst delete_in_block.simps) (simp add: Let_def)
qed


fun shift_ok :: "mem \<Rightarrow> nat list \<Rightarrow> bool" where
  \<comment> \<open>The name moved over the deleted entry does not overlap its own copy.\<close>
  "shift_ok fs (e # x # es) \<longleftrightarrow> unat (e_name_len fs x) \<le> unat (e_len fs e)"
| "shift_ok fs es \<longleftrightarrow> True"

lemma absorb_chain:
  assumes ch: "dchain fs e limit (e # x # xs)" and small: "limit - e < 65536" and sh: "shift_ok fs (e # x # xs)"
  shows "\<exists>fs'. absorb_next fs e = Some fs' \<and> dchain fs' e limit (e # xs) \<and>
    map (entry_of fs') (e # xs) = map (entry_of fs) (x # xs) \<and> same_outside e limit fs fs'"
proof -
  have x: "x = e + unat (e_len fs e)" and pe: "get_padded_size fs e \<le> unat (e_len fs e)" "4 dvd unat (e_len fs e)"
    and px: "get_padded_size fs x \<le> unat (e_len fs x)" "4 dvd unat (e_len fs x)" "x + unat (e_len fs x) \<le> limit"
    and rest: "dchain fs (x + unat (e_len fs x)) limit xs"
    using ch by auto
  have "unat (e_len fs e) + unat (e_len fs x) < 65536" using x px small by linarith
  moreover have "unat (e_name_len fs x) \<le> unat (e_len fs e)" using sh by simp
  ultimately obtain fs' where a: "absorb_next fs e = Some fs'"
    and l: "unat (e_len fs' e) = unat (e_len fs e) + unat (e_len fs x)"
    and n: "e_name_len fs' e = e_name_len fs x" "entry_of fs' e = entry_of fs x"
    and out: "same_outside e (x + unat (e_len fs x)) fs fs'"
    using absorb_next_fields [OF pe(1) x px(1)] by metis
  have r: "dchain fs' (x + unat (e_len fs x)) limit xs \<and> map (entry_of fs') xs = map (entry_of fs) xs"
    by (intro dchain_frame [OF rest] same_outside_on [OF out]) simp
  have "dchain fs' e limit (e # xs)"
    using r l n x px pe by (simp add: get_padded_size_def add.assoc)
  moreover have "same_outside e limit fs fs'" using out px by (auto simp: same_outside_def)
  ultimately show ?thesis using a n r by simp
qed

lemma delete_here:
  assumes ch: "dchain fs it limit (it # e # aft)" and acum: "acum + (limit - it) = bsz" and small: "bsz < 65536"
    and m: "entry_matches fs e name" and sh: "shift_ok fs (e # aft)"
  shows "\<exists>fs' es'. delete_in_block fs it limit bsz acum name = Some (True, fs') \<and> dchain fs' it limit es' \<and>
    map (entry_of fs') es' = map (entry_of fs) (it # aft) \<and> same_outside it limit fs fs'"
proof -
  have e: "e = it + unat (e_len fs it)" and it: "get_padded_size fs it \<le> unat (e_len fs it)" "4 dvd unat (e_len fs it)"
    and pe: "get_padded_size fs e \<le> unat (e_len fs e)" "4 dvd unat (e_len fs e)" "e + unat (e_len fs e) \<le> limit"
    and rest: "dchain fs (e + unat (e_len fs e)) limit aft"
    using ch by auto
  have sm: "limit - it < 65536" using acum small by simp
  note d = delete_step [OF ch acum small, of name, folded e, unfolded Let_def if_P [OF m]]
  show ?thesis
  proof (cases aft)
    case Nil
    define fs' where "fs' = set_e_len fs it (e_len fs it + e_len fs e)"
    have lim: "e + unat (e_len fs e) = limit" using rest Nil by simp
    have out: "same_outside (it + 4) (it + 6) fs fs'"
      by (auto simp: same_outside_def fs'_def set_e_len_def mem_simps disj_range_def)
    have l: "unat (e_len fs' it) = unat (e_len fs it) + unat (e_len fs e)"
      using add_e_len [of fs it e] lim e sm by (simp add: fs'_def set_e_len_def e_len_def [of _ it] mem_simps)
    have nl: "e_name_len fs' it = e_name_len fs it" "e_inode fs' it = e_inode fs it"
      "e_name fs' it k = e_name fs it k" for k
      by (simp_all add: fs'_def set_e_len_def e_name_len_def e_inode_def e_name_def mem_simps disj_range_def)
    then have "dchain fs' it limit [it]" "entry_of fs' it = entry_of fs it"
      using l it pe lim e by (simp_all add: get_padded_size_def entry_of_def)
    moreover have "same_outside it limit fs fs'"
      using out lim e it padded_size_ge [of fs it] by (auto simp: same_outside_def)
    ultimately show ?thesis using d lim Nil by (intro exI [of _ fs'] exI [of _ "[it]"]) (simp add: fs'_def)
  next
    case (Cons x xs)
    have ce: "dchain fs e limit (e # x # xs)" and lim: "e + unat (e_len fs e) \<noteq> limit"
      using ch Cons padded_size_ge [of fs x] by auto
    have "limit - e < 65536" "shift_ok fs (e # x # xs)" using sm e sh Cons by simp_all
    from absorb_chain [OF ce this] Cons obtain fs' where a: "absorb_next fs e = Some fs'" "dchain fs' e limit (e # xs)"
      "map (entry_of fs') (e # xs) = map (entry_of fs) aft" and out: "same_outside e limit fs fs'" by blast
    have "same_on it (it + 8 + unat (e_name_len fs it)) fs fs'"
      using e it padded_size_ge [of fs it] by (intro same_outside_on [OF out]) auto
    note f = entry_frame [OF this]
    have "dchain fs' it limit (it # e # xs)"
      using a(2) f it e dchain_le [OF a(2)] by (simp del: dchain.simps(2) add: dchain.simps(2) [of _ it])
    moreover have "same_outside it limit fs fs'" using out e by (auto simp: same_outside_def)
    ultimately show ?thesis using d lim a f
      by (intro exI [of _ fs'] exI [of _ "it # e # xs"]) (simp del: dchain.simps)
  qed
qed

text \<open>On the contents, deleting is the removal of the first entry of that name.\<close>

fun remove_named :: "u8 list \<Rightarrow> (u32 \<times> u8 list) list \<Rightarrow> (u32 \<times> u8 list) list" where
  "remove_named nm [] = []"
| "remove_named nm (x # xs) = (if snd x = nm then xs else x # remove_named nm xs)"

fun removal_ok :: "mem \<Rightarrow> u8 list \<Rightarrow> nat list \<Rightarrow> bool" where
  "removal_ok fs nm [] \<longleftrightarrow> True"
| "removal_ok fs nm (e # es) \<longleftrightarrow> (if snd (entry_of fs e) = nm then shift_ok fs (e # es) else removal_ok fs nm es)"

lemma matches_entry: "entry_matches fs e name \<longleftrightarrow> snd (entry_of fs e) = bytes_of_string name"
proof -
  have "unat (e_name_len fs e) = length name" if "e_name fs e (unat (e_name_len fs e)) = bytes_of_string name"
    using arg_cong [OF that, of length] by (simp add: e_name_def bytes_of_string_def)
  then show ?thesis by (auto simp: entry_matches_def entry_of_def)
qed

lemma delete_chain:
  assumes "dchain fs it limit (it # es)" and "acum + (limit - it) = bsz" and small: "bsz < 65536"
    and nm: "nm = bytes_of_string name"
    and past: "\<not> entry_matches fs limit name" and "snd (entry_of fs it) \<noteq> nm" and "removal_ok fs nm es"
  shows "\<exists>fs' es'. delete_in_block fs it limit bsz acum name = Some (nm \<in> snd ` entry_of fs ` set es, fs') \<and>
    dchain fs' it limit es' \<and> map (entry_of fs') es' = remove_named nm (map (entry_of fs) (it # es)) \<and>
    same_outside it limit fs fs' \<and> (nm \<notin> snd ` entry_of fs ` set es \<longrightarrow> fs' = fs)"
  using assms(1,2,6,7)
proof (induction es arbitrary: it acum)
  case Nil
  have "it + unat (e_len fs it) = limit" using Nil.prems by simp
  then have "delete_in_block fs it limit bsz acum name = Some (False, fs)"
    using delete_step [OF Nil.prems(1,2) small, of name] past by (simp add: delete_in_block.simps [of fs limit])
  then show ?case using Nil.prems by (intro exI [of _ fs] exI [of _ "[it]"]) (simp add: same_outside_def)
next
  case (Cons e es)
  have e: "e = it + unat (e_len fs it)" "e \<le> limit" "it \<le> e" using Cons.prems(1) by auto
  have rest: "dchain fs e limit (e # es)" using Cons.prems(1) by simp
  show ?case
  proof (cases "snd (entry_of fs e) = nm")
    case True
    then have "entry_matches fs e name" using nm by (simp add: matches_entry)
    from delete_here [OF Cons.prems(1,2) small this] True Cons.prems(3,4) show ?thesis by simp
  next
    case False
    then have nom: "\<not> entry_matches fs e name" using nm by (simp add: matches_entry)
    have "acum + unat (e_len fs it) + (limit - e) = bsz" using Cons.prems(2) e by simp
    from Cons.IH [OF rest this] False Cons.prems(4) obtain fs' es' where
      h: "delete_in_block fs e limit bsz (acum + unat (e_len fs it)) name = Some (nm \<in> snd ` entry_of fs ` set es, fs')"
        "dchain fs' e limit es'" "map (entry_of fs') es' = remove_named nm (map (entry_of fs) (e # es))"
        "same_outside e limit fs fs'" "nm \<notin> snd ` entry_of fs ` set es \<longrightarrow> fs' = fs" by (auto simp del: dchain.simps list.map remove_named.simps)
    have "same_on it (it + 8 + unat (e_name_len fs it)) fs fs'"
      using Cons.prems(1) e padded_size_ge [of fs it] by (intro same_outside_on [OF h(4)]) auto
    note f = entry_frame [OF this]
    have "dchain fs' it limit (it # es')" using Cons.prems(1) f h(2) e by auto
    moreover have "delete_in_block fs it limit bsz acum name = Some (nm \<in> snd ` entry_of fs ` set (e # es), fs')"
      using delete_step [OF Cons.prems(1,2) small, of name] e(1) nom h(1) False by (simp add: Let_def)
    moreover have "same_outside it limit fs fs'" using h(4) e by (auto simp: same_outside_def)
    ultimately show ?thesis using h(3,5) f Cons.prems(3)
      by (intro exI [of _ fs'] exI [of _ "it # es'"]) (simp del: dchain.simps)
  qed
qed

lemma absorb_next_overlap:
  assumes "unat (e_len fs e) < unat (e_name_len fs (e + unat (e_len fs e)))" and "8 \<le> unat (e_len fs e)"
  shows "absorb_next fs e = None"
proof -
  define x where "x = e + unat (e_len fs e)"
  define f1 where "f1 = set_e_len fs x (e_len fs x + e_len fs e)"
  define f2 where "f2 = store32 f1 e (load32 f1 x)"
  define f3 where "f3 = store16 f2 (e + 4) (load16 f2 (x + 4))"
  have "f3 (x + 6) = e_name_len fs x"
    using assms(2) by (simp add: f3_def f2_def f1_def x_def set_e_len_def e_name_len_def mem_simps disj_range_def)
  then have "\<not> disj_range e (unat (f3 (x + 6))) x (unat (f3 (x + 6)))"
    using assms by (simp add: disj_range_def x_def)
  then have "copy_entry f1 e x = None"
    using assms(2) by (simp add: copy_entry_def Let_def f2_def [symmetric] f3_def [symmetric] x_def [symmetric]) (simp add: x_def)
  then show ?thesis by (simp add: absorb_next_def f1_def x_def Let_def)
qed

section \<open>Whole directories\<close>

type_synonym contents = "(u32 \<times> u8 list) list"

definition block_holds :: "mem \<Rightarrow> nat \<Rightarrow> nat \<Rightarrow> contents \<Rightarrow> bool" where
  "block_holds fs a sz c \<longleftrightarrow> (\<exists>es. dchain fs a (a + sz) es \<and> map (entry_of fs) es = c)"

definition dir_holds :: "'c server \<Rightarrow> u32 list \<Rightarrow> contents list \<Rightarrow> bool" where
  "dir_holds st bs cs \<longleftrightarrow>
     list_all2 (\<lambda>b. block_holds (fs_file st) (blk_at st b) (unat (BLOCK_SIZE (Super_constants st)))) bs cs"

definition apart :: "'c server \<Rightarrow> u32 list \<Rightarrow> bool" where
  \<comment> \<open>The blocks do not overlap.\<close>
  "apart st bs \<longleftrightarrow> (let sz = unat (BLOCK_SIZE (Super_constants st)) in
     sorted_wrt (\<lambda>b b'. disj_range (blk_at st b) sz (blk_at st b') sz) bs)"

lemma blk_at_fs_file [simp]: "blk_at (st\<lparr>fs_file := fs\<rparr>) = blk_at st"
  by (simp add: blk_at_def fun_eq_iff)

lemma block_holds_frame:
  assumes "block_holds fs a sz c" and "same_outside a' (a' + sz) fs fs'" and "disj_range a' sz a sz"
  shows "block_holds fs' a sz c"
proof -
  obtain es where es: "dchain fs a (a + sz) es" "map (entry_of fs) es = c"
    using assms(1) by (auto simp: block_holds_def)
  have "same_on a (a + sz) fs fs'"
    using assms(2,3) by (auto simp: same_outside_def same_on_def disj_range_def)
  from dchain_frame [OF es(1) this] es(2) show ?thesis by (auto simp: block_holds_def)
qed

lemma dir_holds_frame:
  assumes "dir_holds st bs cs" and "same_outside a (a + sz) (fs_file st) fs'" and "sz = unat (BLOCK_SIZE (Super_constants st))"
    and "\<And>b. b \<in> set bs \<Longrightarrow> disj_range a sz (blk_at st b) sz"
  shows "dir_holds (st\<lparr>fs_file := fs'\<rparr>) bs cs"
  using assms(1) unfolding dir_holds_def
  by (auto elim!: list.rel_mono_strong simp flip: assms(3) intro: block_holds_frame [OF _ assms(2)] assms(4))

lemma read_blocks_chain:
  assumes "dir_holds st bs cs" and sz: "sz = unat (BLOCK_SIZE (Super_constants st))"
  shows "\<exists>ess. those (map (\<lambda>b. block_entries (fs_file st) (blk_at st b) (blk_at st b + sz)) bs) = Some ess \<and>
    map (entry_of (fs_file st)) (concat ess) = filter (\<lambda>x. fst x \<noteq> 0) (concat cs)"
  using assms(1) unfolding dir_holds_def sz [symmetric]
proof (induction rule: list_all2_induct)
  case (Cons b bs c cs)
  then obtain es ess where es: "dchain (fs_file st) (blk_at st b) (blk_at st b + sz) es" "map (entry_of (fs_file st)) es = c"
    "those (map (\<lambda>b. block_entries (fs_file st) (blk_at st b) (blk_at st b + sz)) bs) = Some ess"
    "map (entry_of (fs_file st)) (concat ess) = filter (\<lambda>x. fst x \<noteq> 0) (concat cs)"
    by (auto simp: block_holds_def)
  have "map (entry_of (fs_file st)) (filter (\<lambda>e. e_inode (fs_file st) e \<noteq> 0) es) = filter (\<lambda>x. fst x \<noteq> 0) c"
    unfolding es(2) [symmetric] filter_map by (simp add: o_def entry_of_def)
  with es block_entries_chain [OF es(1)] show ?case by auto
qed simp

lemma read_directory_blocks:
  assumes "map_option data_blocks (Inode_Get_Data_Adressess (fs_file st) (Super_constants st) inode
      (ld32 st (inode + inode_off I_size))) = Some bs"
    and "dir_holds st bs cs"
  shows "\<exists>entries. read_directory st inode = Some (Some entries) \<and>
    map (entry_of (fs_file st)) entries = filter (\<lambda>entry. fst entry \<noteq> 0) (concat cs)"
  using assms(1) read_blocks_chain [OF assms(2) refl]
  by (auto simp: read_directory_def split: option.splits)

inductive inserted :: "u32 \<times> u8 list \<Rightarrow> contents \<Rightarrow> contents \<Rightarrow> bool" for new where
  after: "inserted new (xs @ ys) (xs @ new # ys)"
| reuse: "inserted new (xs @ (i, []) # ys) (xs @ new # ys)"

lemma inserted_context: "inserted new xs ys \<Longrightarrow> inserted new (us @ xs @ vs) (us @ ys @ vs)"
  by (induction rule: inserted.induct)
    (metis append.assoc append_Cons inserted.after, metis append.assoc append_Cons inserted.reuse)

lemma attached_inserted:
  "inserted (inode_number ne, file_name ne) (map (entry_of fs) (before @ e # after)) (attached_contents fs before e after ne)"
proof (cases "e_name_len fs e = 0")
  case True
  then have "entry_of fs e = (e_inode fs e, [])" by (simp add: entry_of_def e_name_def load_bytes_def)
  with True show ?thesis by (auto simp: attached_contents_def intro: inserted.reuse)
next
  case False
  then show ?thesis
    using inserted.after [of "(inode_number ne, file_name ne)" "map (entry_of fs) (before @ [e])" "map (entry_of fs) after"]
    by (simp add: attached_contents_def)
qed

lemma attach_block:
  assumes "new_entry_ok ne n" and "dchain fs a limit es"
  shows "\<exists>ok fs' es'. attach_in_block fs a limit ne = Some (ok, fs') \<and> dchain fs' a limit es' \<and> same_outside a limit fs fs' \<and>
    (ok \<longleftrightarrow> (\<exists>e \<in> set es. 8 + n < slack fs e)) \<and>
    (if ok then inserted (inode_number ne, file_name ne) (map (entry_of fs) es) (map (entry_of fs') es') else fs' = fs \<and> es' = es)"
proof (cases "List.find (\<lambda>e. 8 + n < slack fs e) es")
  case None
  with attach_chain [OF assms] assms(2) show ?thesis by (auto simp: find_None_iff same_outside_def)
next
  case (Some e)
  with attach_chain [OF assms] obtain fs' es' before after where
    h: "es = before @ e # after" "attach_in_block fs a limit ne = Some (True, fs')" "dchain fs' a limit es'"
      "map (entry_of fs') es' = attached_contents fs before e after ne" "same_outside a limit fs fs'" by auto
  have "8 + n < slack fs e" using Some by (auto simp: find_Some_iff)
  with h attached_inserted [of ne fs before e after] show ?thesis by (intro exI conjI) auto
qed

lemma dchain_unique: "dchain fs a limit es \<Longrightarrow> dchain fs a limit es' \<Longrightarrow> es = es'"
proof (induction es arbitrary: a es')
  case Nil
  then show ?case using dchain_first(2) by (cases es') fastforce+
next
  case (Cons e es)
  then have "a < limit" using dchain_first(2) by blast
  with Cons show ?case by (cases es') auto
qed

definition block_room :: "mem \<Rightarrow> nat \<Rightarrow> nat \<Rightarrow> nat \<Rightarrow> bool" where
  "block_room fs a sz n \<longleftrightarrow> (\<exists>es. dchain fs a (a + sz) es \<and> (\<exists>e \<in> set es. 8 + n < slack fs e))"

lemma dir_holds_Cons:
  "dir_holds st (b # bs) (c # cs) \<longleftrightarrow>
     block_holds (fs_file st) (blk_at st b) (unat (BLOCK_SIZE (Super_constants st))) c \<and> dir_holds st bs cs"
  by (simp add: dir_holds_def)

definition same_off_blocks :: "'c server \<Rightarrow> u32 list \<Rightarrow> mem \<Rightarrow> bool" where
  \<comment> \<open>The two images differ only inside the blocks.\<close>
  "same_off_blocks st bs fs' \<longleftrightarrow> (let sz = unat (BLOCK_SIZE (Super_constants st)) in
     \<forall>x. (\<forall>b \<in> set bs. x < blk_at st b \<or> blk_at st b + sz \<le> x) \<longrightarrow> fs' x = fs_file st x)"

lemma same_off_blocks_refl [simp]: "same_off_blocks st bs (fs_file st)"
  by (simp add: same_off_blocks_def Let_def)

lemma same_off_blocks_Cons:
  "same_off_blocks st bs fs' \<Longrightarrow> same_off_blocks st (b # bs) fs'"
  "same_outside (blk_at st b) (blk_at st b + unat (BLOCK_SIZE (Super_constants st))) (fs_file st) fs' \<Longrightarrow>
    same_off_blocks st (b # bs) fs'"
  by (auto simp: same_off_blocks_def Let_def same_outside_def)

lemma apart_Cons:
  assumes "apart st (b # bs)"
  shows "apart st bs" and "b' \<in> set bs \<Longrightarrow> disj_range (blk_at st b) (unat (BLOCK_SIZE (Super_constants st))) (blk_at st b')
    (unat (BLOCK_SIZE (Super_constants st)))"
  using assms by (auto simp: apart_def Let_def)

lemma block_holds_off_blocks:
  assumes "block_holds (fs_file st) (blk_at st b) sz c" and sz: "sz = unat (BLOCK_SIZE (Super_constants st))"
    and "apart st (b # bs)" and off: "same_off_blocks st bs fs'"
  shows "block_holds fs' (blk_at st b) sz c"
proof -
  obtain es where es: "dchain (fs_file st) (blk_at st b) (blk_at st b + sz) es" "map (entry_of (fs_file st)) es = c"
    using assms(1) by (auto simp: block_holds_def)
  have "x < blk_at st b' \<or> blk_at st b' + sz \<le> x"
    if "b' \<in> set bs" and "blk_at st b \<le> x" and "x < blk_at st b + sz" for x b'
    using apart_Cons(2) [OF assms(3) that(1)] that(2,3) unfolding disj_range_def sz [symmetric] by linarith
  then have "same_on (blk_at st b) (blk_at st b + sz) (fs_file st) fs'"
    using off unfolding same_off_blocks_def same_on_def Let_def sz [symmetric] by blast
  from dchain_frame [OF es(1) this] es(2) show ?thesis by (auto simp: block_holds_def)
qed

lemma attach_blocks_chain:
  assumes ne: "new_entry_ok ne n" and "dir_holds st bs cs" and "apart st bs" and sz: "sz = unat (BLOCK_SIZE (Super_constants st))"
  shows "\<exists>ok fs' cs'. attach_in_blocks st bs ne = Some (ok, st\<lparr>fs_file := fs'\<rparr>) \<and> dir_holds (st\<lparr>fs_file := fs'\<rparr>) bs cs' \<and>
    (ok \<longleftrightarrow> (\<exists>b \<in> set bs. block_room (fs_file st) (blk_at st b) sz n)) \<and>
    (if ok then inserted (inode_number ne, file_name ne) (concat cs) (concat cs') else fs' = fs_file st \<and> cs' = cs) \<and>
    same_off_blocks st bs fs'"
  using assms(2,3)
proof (induction bs arbitrary: cs)
  case Nil
  then show ?case by (auto simp: dir_holds_def)
next
  case (Cons b bs)
  obtain c cs0 where cs: "cs = c # cs0" and hb: "block_holds (fs_file st) (blk_at st b) sz c" and hr: "dir_holds st bs cs0"
    using Cons.prems(1) sz by (cases cs) (auto simp: dir_holds_def)
  from hb obtain es where es: "dchain (fs_file st) (blk_at st b) (blk_at st b + sz) es" "map (entry_of (fs_file st)) es = c"
    by (auto simp: block_holds_def)
  note disj = apart_Cons(2) [OF Cons.prems(2), folded sz]
  obtain ok fs' es' where h: "attach_in_block (fs_file st) (blk_at st b) (blk_at st b + sz) ne = Some (ok, fs')"
    "dchain fs' (blk_at st b) (blk_at st b + sz) es'" "same_outside (blk_at st b) (blk_at st b + sz) (fs_file st) fs'"
    "ok \<longleftrightarrow> (\<exists>e \<in> set es. 8 + n < slack (fs_file st) e)"
    "if ok then inserted (inode_number ne, file_name ne) c (map (entry_of fs') es') else fs' = fs_file st \<and> es' = es"
    using attach_block [OF ne es(1)] es(2) by auto
  have room: "block_room (fs_file st) (blk_at st b) sz n \<longleftrightarrow> ok"
    unfolding block_room_def h(4) using es(1) dchain_unique [OF es(1)] by blast
  show ?case
  proof (cases ok)
    case True
    have "dir_holds (st\<lparr>fs_file := fs'\<rparr>) (b # bs) (map (entry_of fs') es' # cs0)"
      using dir_holds_frame [OF hr h(3) sz disj] h(2) by (auto simp: dir_holds_Cons block_holds_def sz)
    moreover have "inserted (inode_number ne, file_name ne) (concat cs) (concat (map (entry_of fs') es' # cs0))"
      using inserted_context [of _ c _ "[]" "concat cs0"] h(5) True cs by simp
    moreover have "same_off_blocks st (b # bs) fs'" using same_off_blocks_Cons(2) h(3) sz by simp
    ultimately show ?thesis using h(1) True room sz by (intro exI [of _ True] exI [of _ fs'] exI) auto
  next
    case False
    from Cons.IH [OF hr apart_Cons(1) [OF Cons.prems(2)]] obtain ok' fs2 cs' where
      i: "attach_in_blocks st bs ne = Some (ok', st\<lparr>fs_file := fs2\<rparr>)" "dir_holds (st\<lparr>fs_file := fs2\<rparr>) bs cs'"
        "ok' \<longleftrightarrow> (\<exists>b \<in> set bs. block_room (fs_file st) (blk_at st b) sz n)"
        "if ok' then inserted (inode_number ne, file_name ne) (concat cs0) (concat cs') else fs2 = fs_file st \<and> cs' = cs0"
        "same_off_blocks st bs fs2"
      by blast
    have "dir_holds (st\<lparr>fs_file := fs2\<rparr>) (b # bs) (c # cs')"
      using i(2) block_holds_off_blocks [OF hb sz Cons.prems(2) i(5)] by (simp add: dir_holds_Cons sz)
    moreover have "if ok' then inserted (inode_number ne, file_name ne) (concat cs) (concat (c # cs')) else fs2 = fs_file st \<and> c # cs' = cs"
      using inserted_context [of _ "concat cs0" _ c "[]"] i(4) cs by auto
    moreover have "attach_in_blocks st (b # bs) ne = Some (ok', st\<lparr>fs_file := fs2\<rparr>)"
      using h(1,5) False i(1) sz by simp
    ultimately show ?thesis using False room i(3) same_off_blocks_Cons(1) [OF i(5)]
      by (intro exI [of _ ok'] exI [of _ fs2] exI [of _ "c # cs'"]) simp
  qed
qed

definition deletable :: "mem \<Rightarrow> nat \<Rightarrow> nat \<Rightarrow> string \<Rightarrow> bool" where
  \<comment> \<open>Deleting the name from this block stays inside it: the bytes after the block do not look like an entry of
    that name, the entry is not the only one, it does not leave the code's condition for dropping the block
    true by accident, and no name is copied over itself.\<close>
  "deletable fs a sz name \<longleftrightarrow> \<not> entry_matches fs (a + sz) name \<and>
     (\<exists>es. dchain fs a (a + sz) es \<and> es \<noteq> [] \<and> removal_ok fs (bytes_of_string name) es \<and>
       (entry_matches fs a name \<longrightarrow> 1 < length es \<and> unat (e_len fs a) + get_padded_size fs a \<noteq> sz))"

lemma remove_named_append:
  "remove_named nm (xs @ ys) = (if nm \<in> snd ` set xs then remove_named nm xs @ ys else xs @ remove_named nm ys)"
  by (induction xs) auto

lemma remove_named_absent: "nm \<notin> snd ` set xs \<Longrightarrow> remove_named nm xs = xs"
  by (induction xs) auto

text \<open>One round of the loop of \<open>delete_entry\<close> over the blocks.\<close>

lemma delete_one_block:
  fixes st :: "'c server"
  assumes del: "deletable (fs_file st) (blk_at st b) sz name" and hb: "block_holds (fs_file st) (blk_at st b) sz c"
    and sz: "sz = unat (BLOCK_SIZE (Super_constants st))" and small: "sz < 65536"
  shows "\<exists>fs' c'. delete_in_blocks st inode (b # bs) var name =
      (if bytes_of_string name \<in> snd ` set c then Some (st\<lparr>fs_file := fs'\<rparr>)
       else delete_in_blocks st inode bs (Suc var) name) \<and>
    block_holds fs' (blk_at st b) sz c' \<and> c' = remove_named (bytes_of_string name) c \<and>
    same_outside (blk_at st b) (blk_at st b + sz) (fs_file st) fs'"
proof -
  let ?fs = "fs_file st" and ?a = "blk_at st b" and ?nm = "bytes_of_string name"
  obtain es where es: "dchain ?fs ?a (?a + sz) es" "es \<noteq> []" "removal_ok ?fs ?nm es"
    and first: "entry_matches ?fs ?a name \<longrightarrow> 1 < length es \<and> unat (e_len ?fs ?a) + get_padded_size ?fs ?a \<noteq> sz"
    and past: "\<not> entry_matches ?fs (?a + sz) name" using del by (auto simp: deletable_def)
  obtain rest where r: "es = ?a # rest" using es(1,2) by (cases es) auto
  have c: "c = map (entry_of ?fs) (?a # rest)" using hb dchain_unique [OF es(1)] unfolding block_holds_def r by blast
  show ?thesis
  proof (cases "entry_matches ?fs ?a name")
    case True
    obtain x xs where x: "rest = x # xs" using first True r by (cases rest) auto
    have "get_padded_size ?fs ?a \<le> sz" using es(1) r by auto
    then have "unat (BLOCK_SIZE (Super_constants st) - of_nat (get_padded_size ?fs ?a)) = sz - get_padded_size ?fs ?a"
      using small sz by (subst unat_sub) (simp_all add: word_le_nat_alt unat_of_nat_u32)
    then have no: "ucast (e_len ?fs ?a) \<noteq> BLOCK_SIZE (Super_constants st) - of_nat (get_padded_size ?fs ?a)"
      using first True unat_ucast_u16 [of "e_len ?fs ?a"] \<open>get_padded_size ?fs ?a \<le> sz\<close> by (metis le_add_diff_inverse2)
    have nm: "snd (entry_of ?fs ?a) = ?nm" using True by (simp add: matches_entry)
    have "dchain ?fs ?a (?a + sz) (?a # x # xs)" "?a + sz - ?a < 65536" "shift_ok ?fs (?a # x # xs)"
      using es(1,3) r x small nm by simp_all
    from absorb_chain [OF this] obtain fs' where a: "absorb_next ?fs ?a = Some fs'" "dchain fs' ?a (?a + sz) (?a # xs)"
      "map (entry_of fs') (?a # xs) = map (entry_of ?fs) (x # xs)" "same_outside ?a (?a + sz) ?fs fs'" by blast
    have "block_holds fs' ?a sz (map (entry_of ?fs) rest)" using a(2,3) x unfolding block_holds_def by blast
    moreover have "remove_named ?nm c = map (entry_of ?fs) rest" using nm by (simp add: c)
    moreover have "?nm \<in> snd ` set c" using nm by (simp add: c image_iff)
    ultimately show ?thesis using True no a(1,4)
      by (intro exI [of _ fs'] exI [of _ "map (entry_of ?fs) rest"]) (simp add: Let_def)
  next
    case False
    then have nm: "snd (entry_of ?fs ?a) \<noteq> ?nm" by (simp add: matches_entry)
    have ch: "dchain ?fs ?a (?a + sz) (?a # rest)" "removal_ok ?fs ?nm rest" using es r nm by simp_all
    obtain fs' es' where d: "delete_in_block ?fs ?a (?a + sz) sz 0 name = Some (?nm \<in> snd ` entry_of ?fs ` set rest, fs')"
      "dchain fs' ?a (?a + sz) es'" "map (entry_of fs') es' = remove_named ?nm c" "same_outside ?a (?a + sz) ?fs fs'"
      "?nm \<notin> snd ` entry_of ?fs ` set rest \<longrightarrow> fs' = ?fs"
      using delete_chain [OF ch(1) _ small refl past nm ch(2), of 0] unfolding c by auto
    have "?nm \<in> snd ` set c \<longleftrightarrow> ?nm \<in> snd ` entry_of ?fs ` set rest" using nm by (auto simp: c)
    moreover have "block_holds fs' ?a sz (remove_named ?nm c)" using d(2,3) unfolding block_holds_def by blast
    ultimately show ?thesis using False d(1,4,5) sz
      by (intro exI [of _ fs'] exI [of _ "remove_named ?nm c"]) (auto simp: Let_def)
  qed
qed

lemma delete_blocks_chain:
  assumes "dir_holds st bs cs" and "apart st bs" and sz: "sz = unat (BLOCK_SIZE (Super_constants st))" and small: "sz < 65536"
    and "\<And>b. b \<in> set bs \<Longrightarrow> deletable (fs_file st) (blk_at st b) sz name"
  shows "\<exists>fs' cs'. delete_in_blocks st inode bs var name = Some (st\<lparr>fs_file := fs'\<rparr>) \<and>
    dir_holds (st\<lparr>fs_file := fs'\<rparr>) bs cs' \<and> concat cs' = remove_named (bytes_of_string name) (concat cs) \<and>
    same_off_blocks st bs fs'"
  using assms(1,2,5)
proof (induction bs arbitrary: cs var)
  case Nil
  then show ?case by (intro exI [of _ "fs_file st"] exI [of _ "[]"]) (auto simp: dir_holds_def)
next
  case (Cons b bs)
  let ?nm = "bytes_of_string name"
  obtain c cs0 where cs: "cs = c # cs0" and hb: "block_holds (fs_file st) (blk_at st b) sz c" and hr: "dir_holds st bs cs0"
    using Cons.prems(1) sz by (cases cs) (auto simp: dir_holds_def)
  from delete_one_block [OF Cons.prems(3) hb sz small, of inode bs var]
  obtain fs1 where o: "delete_in_blocks st inode (b # bs) var name =
      (if ?nm \<in> snd ` set c then Some (st\<lparr>fs_file := fs1\<rparr>) else delete_in_blocks st inode bs (Suc var) name)"
    "block_holds fs1 (blk_at st b) sz (remove_named ?nm c)" "same_outside (blk_at st b) (blk_at st b + sz) (fs_file st) fs1" by auto
  show ?case
  proof (cases "?nm \<in> snd ` set c")
    case True
    have "dir_holds (st\<lparr>fs_file := fs1\<rparr>) (b # bs) (remove_named ?nm c # cs0)"
      using dir_holds_frame [OF hr o(3) sz apart_Cons(2) [OF Cons.prems(2), folded sz]] o(2) by (simp add: dir_holds_Cons sz)
    with o True cs sz show ?thesis
      by (intro exI [of _ fs1] exI [of _ "remove_named ?nm c # cs0"])
        (simp add: remove_named_append same_off_blocks_Cons(2))
  next
    case False
    from Cons.IH [OF hr apart_Cons(1) [OF Cons.prems(2)] Cons.prems(3), of "Suc var"] obtain fs' cs' where
      i: "delete_in_blocks st inode bs (Suc var) name = Some (st\<lparr>fs_file := fs'\<rparr>)"
        "dir_holds (st\<lparr>fs_file := fs'\<rparr>) bs cs'" "concat cs' = remove_named ?nm (concat cs0)" "same_off_blocks st bs fs'" by auto
    have "dir_holds (st\<lparr>fs_file := fs'\<rparr>) (b # bs) (c # cs')"
      using i(2) block_holds_off_blocks [OF hb sz Cons.prems(2) i(4)] by (simp add: dir_holds_Cons sz)
    with o(1) i False cs show ?thesis
      by (intro exI [of _ fs'] exI [of _ "c # cs'"]) (simp add: remove_named_append same_off_blocks_Cons(1))
  qed
qed

section \<open>When a scan ends\<close>

inductive scanned :: "mem \<Rightarrow> nat \<Rightarrow> nat \<Rightarrow> nat \<Rightarrow> bool" for fs limit where
  start: "a < limit \<Longrightarrow> scanned fs limit a a"
| step: "a < limit \<Longrightarrow> scanned fs limit (a + unat (e_len fs a)) e \<Longrightarrow> scanned fs limit a e"

inductive_cases scannedE: "scanned fs limit a e"

text \<open>
  An entry of length 0 keeps a loop where it is: a run that returned from it would have returned
  from the same entry one step before.
\<close>

lemma entries_stay:
  assumes ret: "block_entries fs a limit = Some es"
  shows "\<not> (a < limit \<and> e_len fs a = 0)"
proof (rule block_entries.raw_induct [where P = "\<lambda>fs a limit es. \<not> (a < limit \<and> e_len fs a = 0)", OF _ ret])
  fix f fs a limit and es :: "nat list"
  assume IH: "\<And>fs a limit es. f fs a limit = Some es \<Longrightarrow> \<not> (a < limit \<and> e_len fs a = 0)"
    and eq: "(if a < limit then Option.bind (f fs (a + unat (e_len fs a)) limit)
        (\<lambda>rest. Some (if e_inode fs a \<noteq> 0 then a # rest else rest)) else Some []) = Some es"
  show "\<not> (a < limit \<and> e_len fs a = 0)"
    using eq IH [of fs a limit] by (auto split: bind_splits)
qed

lemma attach_stays:
  assumes ret: "attach_in_block fs a limit ne = Some r"
  shows "\<not> (a < limit \<and> e_len fs a = 0)"
proof (rule attach_in_block.raw_induct [where P = "\<lambda>fs a limit ne r. \<not> (a < limit \<and> e_len fs a = 0)", OF _ ret])
  fix f fs a limit ne r
  assume IH: "\<And>fs a limit ne r. f fs a limit ne = Some r \<Longrightarrow> \<not> (a < limit \<and> e_len fs a = 0)"
    and eq: "(if a < limit then
        let padded_size = get_padded_size fs a; len = unat (e_len fs a); free_space = len - padded_size
        in if len > padded_size \<and> free_space > unat (entry_len ne) then
             (if padded_size > 8 then
                Some (True, copy_new_entry (set_e_len fs a (of_nat padded_size)) (a + padded_size)
                  (ne\<lparr>entry_len := of_nat free_space\<rparr>))
              else Some (True, copy_new_entry fs a (ne\<lparr>entry_len := e_len fs a\<rparr>)))
           else f fs (a + len) limit ne
      else Some (False, fs)) = Some r"
  show "\<not> (a < limit \<and> e_len fs a = 0)"
    using eq IH [of fs a limit ne r] by (auto simp: Let_def split: if_splits)
qed

lemma entries_returns:
  assumes "\<And>e. scanned fs limit a e \<Longrightarrow> e_len fs e \<noteq> 0"
  shows "\<exists>es. block_entries fs a limit = Some es"
  using assms
proof (induction "limit - a" arbitrary: a rule: less_induct)
  case less
  show ?case
  proof (cases "a < limit")
    case True
    with less.prems have "e_len fs a \<noteq> 0" by (blast intro: scanned.start)
    with True have "limit - (a + unat (e_len fs a)) < limit - a" by (simp add: unat_gt_0 diff_less_mono2)
    from less.hyps [OF this] True obtain es where "block_entries fs (a + unat (e_len fs a)) limit = Some es"
      using less.prems by (blast intro: scanned.step)
    with True show ?thesis by (subst block_entries.simps) simp
  qed (subst block_entries.simps, simp)
qed

lemma attach_returns:
  assumes "\<And>e. scanned fs limit a e \<Longrightarrow> e_len fs e \<noteq> 0"
  shows "\<exists>r. attach_in_block fs a limit ne = Some r"
  using assms
proof (induction "limit - a" arbitrary: a rule: less_induct)
  case less
  show ?case
  proof (cases "a < limit")
    case True
    with less.prems have "e_len fs a \<noteq> 0" by (blast intro: scanned.start)
    with True have "limit - (a + unat (e_len fs a)) < limit - a" by (simp add: unat_gt_0 diff_less_mono2)
    from less.hyps [OF this] True obtain r where "attach_in_block fs (a + unat (e_len fs a)) limit ne = Some r"
      using less.prems by (blast intro: scanned.step)
    with True show ?thesis by (subst attach_in_block.simps) (auto simp: Let_def)
  qed (subst attach_in_block.simps, auto)
qed

lemma scan_none: "block_entries fs a limit = None \<longleftrightarrow> (\<exists>e. scanned fs limit a e \<and> e_len fs e = 0)"
proof
  show "\<exists>e. scanned fs limit a e \<and> e_len fs e = 0" if "block_entries fs a limit = None"
    using that entries_returns [of fs limit a] by force
  have "block_entries fs a limit = None" if "scanned fs limit a e" and "e_len fs e = 0" for e
    using that
  proof induction
    case (start a)
    then show ?case using entries_stay [of fs a limit] by (cases "block_entries fs a limit") auto
  qed (subst block_entries.simps, simp)
  then show "block_entries fs a limit = None" if "\<exists>e. scanned fs limit a e \<and> e_len fs e = 0"
    using that by blast
qed

section \<open>An example directory\<close>

text \<open>The inode is at 1000 and its only block is block 1, with the entries \<open>.\<close>, \<open>..\<close> and \<open>hola\<close>.\<close>

definition dir_fs :: mem where
  "dir_fs = (\<lambda>x. if x = 1004 then 128 else if x = 1028 then 1 else if x = 1040 then 1
     else if x = 128 then 2 else if x = 132 then 12 else if x = 134 then 1 else if x = 136 then 46
     else if x = 140 then 2 else if x = 144 then 12 else if x = 146 then 2 else if x = 148 \<or> x = 149 then 46
     else if x = 152 then 12 else if x = 156 then 104 else if x = 158 then 4 else if x = 160 then 104
     else if x = 161 then 111 else if x = 162 then 108 else if x = 163 then 97 else 0)"

definition dir_server :: "unit server" where
  "dir_server = demo_server\<lparr>fs_file := dir_fs\<rparr>"

lemma dir_server_fields [simp]:
  "fs_file dir_server = dir_fs" "Super_constants dir_server = demo_sc" "blk_at dir_server 1 = 128"
  "unat (BLOCK_SIZE demo_sc) = 128"
  by (simp_all add: dir_server_def demo_server_def blk_at_def block_addr_def demo_sc_def)

lemma dir_fs_entries [simp]:
  "e_len dir_fs 128 = 12" "e_len dir_fs 140 = 12" "e_len dir_fs 152 = 104"
  "e_name_len dir_fs 128 = 1" "e_name_len dir_fs 140 = 2" "e_name_len dir_fs 152 = 4"
  "entry_of dir_fs 128 = (2, [46])" "entry_of dir_fs 140 = (2, [46, 46])" "entry_of dir_fs 152 = (12, [104, 111, 108, 97])"
  by (simp_all add: entry_of_def e_len_def e_name_len_def e_inode_def e_name_def dir_fs_def load16_def load32_def
      load_bytes_def upt_rec)

lemma dir_chain: "dchain dir_fs 128 256 [128, 140, 152]"
  by (simp add: get_padded_size_def sizeof_entry_def padded_def)

lemma dir_contents:
  "dir_holds dir_server [1] [[(2, [46]), (2, [46, 46]), (12, [104, 111, 108, 97])]]" "apart dir_server [1]"
  using dir_chain by (auto simp: dir_holds_def block_holds_def apart_def simp del: dchain.simps intro!: exI [of _ "[128, 140, 152]"])

lemma dir_addresses:
  "map_option data_blocks (Inode_Get_Data_Adressess (fs_file dir_server) (Super_constants dir_server) 1000
     (ld32 dir_server (1000 + inode_off I_size))) = Some [1]"
  "map_option data_blocks (Inode_Get_Data_Adressess (fs_file dir_server) (Super_constants dir_server) 1000
     (ld32 dir_server (1000 + inode_off I_blocks) * 512)) = Some [1]"
  by (subst data_addresses_cases, simp add: demo_sc_def ptrs_per_block_def, simp add: ld32_def demo_sc_def Size_In_Blocks_def max_file_blocks_def ptrs_per_block_def file_block_def
      load32_def load_bytes_def upt_rec Let_def data_blocks_def dir_fs_def)+

section \<open>Correctness of the directory operations\<close>

text \<open>
  C33: reading a directory whose blocks are well formed ends and returns, in order and across
  blocks, exactly the entries in use (those with an inode other than 0).
\<close>

theorem read_directory_contents:
  assumes "map_option data_blocks (Inode_Get_Data_Adressess (fs_file st) (Super_constants st) inode
      (ld32 st (inode + inode_off I_size))) = Some bs"
    and "dir_holds st bs cs"
  shows "\<exists>entries. read_directory st inode = Some (Some entries) \<and>
    map (entry_of (fs_file st)) entries = filter (\<lambda>entry. fst entry \<noteq> 0) (concat cs)"
  using assms by (rule read_directory_blocks)

lemma read_directory_contents_witness:
  "\<exists>entries. read_directory dir_server 1000 = Some (Some entries) \<and>
    map (entry_of dir_fs) entries = [(2, [46]), (2, [46, 46]), (12, [104, 111, 108, 97])]"
  using read_directory_contents [OF dir_addresses(1) dir_contents(1)] by simp

text \<open>
  C37: the loop that reads a block, which tests only the end of the block and advances by each
  entry's length, ends if and only if it meets no entry of length 0. The loop that attaches an
  entry ends when none is met, and never ends from an entry of length 0. A well-formed block has
  no such entry.
\<close>

theorem scan_ends_iff:
  "((\<exists>es. block_entries fs a limit = Some es) \<longleftrightarrow> (\<forall>e. scanned fs limit a e \<longrightarrow> e_len fs e \<noteq> 0)) \<and>
   ((\<forall>e. scanned fs limit a e \<longrightarrow> e_len fs e \<noteq> 0) \<longrightarrow> (\<exists>r. attach_in_block fs a limit ne = Some r)) \<and>
   (a < limit \<and> e_len fs a = 0 \<longrightarrow> attach_in_block fs a limit ne = None) \<and>
   (dchain fs a limit es \<longrightarrow> (\<forall>e. scanned fs limit a e \<longrightarrow> e_len fs e \<noteq> 0))"
proof (intro conjI impI)
  show "(\<exists>es. block_entries fs a limit = Some es) \<longleftrightarrow> (\<forall>e. scanned fs limit a e \<longrightarrow> e_len fs e \<noteq> 0)"
    using scan_none [of fs a limit] by auto
  show "attach_in_block fs a limit ne = None" if "a < limit \<and> e_len fs a = 0"
    using that attach_stays [of fs a limit ne] by (cases "attach_in_block fs a limit ne") auto
  show "\<exists>r. attach_in_block fs a limit ne = Some r" if "\<forall>e. scanned fs limit a e \<longrightarrow> e_len fs e \<noteq> 0"
    using that attach_returns [of fs limit a ne] by blast
  show "\<forall>e. scanned fs limit a e \<longrightarrow> e_len fs e \<noteq> 0" if "dchain fs a limit es"
    using block_entries_chain [OF that] scan_none [of fs a limit] by auto
qed

lemma scan_ends_iff_witness:
  "(\<exists>es. block_entries dir_fs 128 256 = Some es) \<and>
   attach_in_block dir_fs 256 384 (create_entry ''x'' 7) = None"
  using scan_ends_iff [of dir_fs 128 256 _ "[128, 140, 152]"] scan_ends_iff [of dir_fs 256 384 "create_entry ''x'' 7"] dir_chain
  by (simp add: e_len_def load16_def load_bytes_def upt_rec dir_fs_def del: dchain.simps)

text \<open>
  C4: attaching a new entry to the blocks of a well-formed directory succeeds exactly when some
  entry has more free space after its name than the new one needs. It then inserts the new pair
  of inode and name at one place, or puts it in place of a nameless entry, keeps every other
  entry and the shape of every block, and writes nothing outside these blocks.
\<close>

theorem attach_inserts_entry:
  assumes "dir_holds st bs cs" and "apart st bs" and "0 < length name" and "length name < 256"
  shows "\<exists>ok fs' cs'. attach_in_blocks st bs (create_entry name ino) = Some (ok, st\<lparr>fs_file := fs'\<rparr>) \<and>
    dir_holds (st\<lparr>fs_file := fs'\<rparr>) bs cs' \<and> same_off_blocks st bs fs' \<and>
    (ok \<longleftrightarrow> (\<exists>b \<in> set bs. block_room (fs_file st) (blk_at st b) (unat (BLOCK_SIZE (Super_constants st))) (length name))) \<and>
    (if ok then inserted (ino, bytes_of_string name) (concat cs) (concat cs') else fs' = fs_file st \<and> cs' = cs)"
proof -
  have "new_entry_ok (create_entry name ino) (length name)"
    using assms(3,4) by (simp add: new_entry_ok_def create_entry_def sizeof_entry_def)
  moreover have "inode_number (create_entry name ino) = ino" "file_name (create_entry name ino) = bytes_of_string name"
    by (simp_all add: create_entry_def)
  ultimately show ?thesis using attach_blocks_chain [OF _ assms(1,2) refl, of "create_entry name ino" "length name"]
    by metis
qed

lemma attach_inserts_entry_witness:
  "\<exists>fs' cs'. attach_in_blocks dir_server [1] (create_entry ''nuevo'' 9) = Some (True, dir_server\<lparr>fs_file := fs'\<rparr>) \<and>
    inserted (9, bytes_of_string ''nuevo'') [(2, [46]), (2, [46, 46]), (12, [104, 111, 108, 97])] (concat cs')"
proof -
  have "block_room dir_fs 128 128 (length ''nuevo'')"
    using dir_chain by (auto simp: block_room_def slack_def get_padded_size_def sizeof_entry_def padded_def intro!: exI [of _ "[128, 140, 152]"])
  moreover have "0 < length ''nuevo''" "length ''nuevo'' < 256" by simp_all
  note attach_inserts_entry [OF dir_contents this, of 9]
  ultimately show ?thesis by (auto simp del: attach_in_blocks.simps list.size simp: list.size(3))
qed

text \<open>
  C16: deleting a name from a well-formed directory removes the first entry of that name from the
  contents and nothing else, keeps the shape of every block and writes nothing outside them, as
  long as no block holds that entry alone and no longer name is moved over a shorter entry.
\<close>

theorem delete_removes_entry:
  assumes "map_option data_blocks (Inode_Get_Data_Adressess (fs_file st) (Super_constants st) inode
      (ld32 st (inode + inode_off I_blocks) * 512)) = Some bs"
    and "active_file_get_file_name path = Some name"
    and "dir_holds st bs cs" and "apart st bs" and "unat (BLOCK_SIZE (Super_constants st)) < 65536"
    and "\<forall>b \<in> set bs. deletable (fs_file st) (blk_at st b) (unat (BLOCK_SIZE (Super_constants st))) name"
  shows "\<exists>fs' cs'. delete_entry st inode path = Some (st\<lparr>fs_file := fs'\<rparr>) \<and> dir_holds (st\<lparr>fs_file := fs'\<rparr>) bs cs' \<and>
    concat cs' = remove_named (bytes_of_string name) (concat cs) \<and> same_off_blocks st bs fs'"
  using assms(1,2) delete_blocks_chain [OF assms(3,4) refl assms(5), of name inode 0] assms(6)
  by (auto simp: delete_entry_def split: option.splits)

lemma delete_removes_entry_witness:
  "\<exists>fs' cs'. delete_entry dir_server 1000 ''/hola'' = Some (dir_server\<lparr>fs_file := fs'\<rparr>) \<and>
    concat (cs' :: contents list) = [(2, [46]), (2, [46, 46])]"
proof -
  have nm: "active_file_get_file_name ''/hola'' = Some ''hola''" by code_simp
  have b: "bytes_of_string ''hola'' = [104, 111, 108, 97]" by (simp add: bytes_of_string_def char_byte_def)
  have "e_name_len dir_fs 256 = 0" by (simp add: e_name_len_def dir_fs_def)
  then have "deletable dir_fs 128 128 ''hola''"
    using dir_chain by (auto simp: deletable_def entry_matches_def b intro!: exI [of _ "[128, 140, 152]"])
  with delete_removes_entry [OF dir_addresses(2) nm dir_contents] b show ?thesis by auto
qed

text \<open>
  Deleting the only entry of a block takes the block for a longer one: what lies after the
  block is copied over the deleted entry, whose length then reaches past the end of the block.
\<close>

theorem deleting_only_entry_leaves_block:
  fixes st :: "'c server"
  defines "fs \<equiv> fs_file st" and "sz \<equiv> unat (BLOCK_SIZE (Super_constants st))"
  assumes "dchain fs (blk_at st b) (blk_at st b + sz) [blk_at st b]" and "entry_matches fs (blk_at st b) name"
    and "get_padded_size fs (blk_at st b + sz) \<le> unat (e_len fs (blk_at st b + sz))"
    and "sz + unat (e_len fs (blk_at st b + sz)) < 65536" and "unat (e_name_len fs (blk_at st b + sz)) \<le> sz"
  shows "\<exists>fs'. delete_in_blocks st inode (b # bs) var name = Some (st\<lparr>fs_file := fs'\<rparr>) \<and>
    entry_of fs' (blk_at st b) = entry_of fs (blk_at st b + sz) \<and>
    unat (e_len fs' (blk_at st b)) = sz + unat (e_len fs (blk_at st b + sz))"
proof -
  let ?a = "blk_at st b"
  have l: "unat (e_len fs ?a) = sz" "get_padded_size fs ?a \<le> sz" using assms(3) by auto
  have p: "8 \<le> get_padded_size fs ?a" using padded_size_ge [of fs ?a] by simp
  have "unat (BLOCK_SIZE (Super_constants st) - of_nat (get_padded_size fs ?a)) = sz - get_padded_size fs ?a"
    using l assms(6) by (subst unat_sub) (simp_all add: word_le_nat_alt unat_of_nat_u32 sz_def)
  then have no: "ucast (e_len fs ?a) \<noteq> BLOCK_SIZE (Super_constants st) - of_nat (get_padded_size fs ?a)"
    using unat_ucast_u16 [of "e_len fs ?a"] l p by (metis diff_is_0_eq diff_le_self le_antisym le_zero_eq diff_diff_cancel not_numeral_le_zero)
  obtain fs' where "absorb_next fs ?a = Some fs'" "unat (e_len fs' ?a) = unat (e_len fs ?a) + unat (e_len fs (?a + sz))"
    "entry_of fs' ?a = entry_of fs (?a + sz)"
    using absorb_next_fields [of fs ?a "?a + sz"] l assms(5-7) by metis
  with no assms(4) l show ?thesis by (auto simp: fs_def Let_def)
qed

text \<open>The example directory with \<open>hola\<close> alone in block 1 and another file in the block after it.\<close>

definition lone_fs :: mem where
  "lone_fs = (\<lambda>x. if x = 128 then 12 else if x = 132 then 128 else if x = 134 then 1 else if x = 136 then 97
     else if x = 256 then 13 else if x = 260 then 128 else if x = 262 then 1 else if x = 264 then 98 else 0)"

lemma deleting_only_entry_leaves_block_witness:
  "\<exists>fs'. delete_in_blocks (dir_server\<lparr>fs_file := lone_fs\<rparr>) 1000 [1] 0 ''a'' = Some (dir_server\<lparr>fs_file := fs'\<rparr>) \<and>
    entry_of fs' 128 = (13, [98]) \<and> unat (e_len fs' 128) = 256"
proof -
  let ?st = "dir_server\<lparr>fs_file := lone_fs\<rparr>"
  note d = lone_fs_def e_len_def e_name_len_def e_inode_def e_name_def load16_def load32_def load_bytes_def upt_rec
  have "dchain lone_fs 128 256 [128]" "get_padded_size lone_fs 256 \<le> unat (e_len lone_fs 256)"
    by (simp_all add: get_padded_size_def sizeof_entry_def padded_def d)
  moreover have "entry_matches lone_fs 128 ''a''"
    by (simp add: entry_matches_def bytes_of_string_def char_byte_def d)
  moreover have "unat (e_len lone_fs 256) = 128" "unat (e_name_len lone_fs 256) \<le> 128" "entry_of lone_fs 256 = (13, [98])"
    by (simp_all add: entry_of_def d)
  ultimately show ?thesis
    using deleting_only_entry_leaves_block [of ?st 1 "''a''" 1000 "[]" 0] by simp
qed

end
