(* ===== verification/Borrado.thy ===== *)
theory Borrado
  imports Truncate Dir_Chain
begin

text \<open>
  Deleting a file, \<open>delete_file\<close> of \<^verbatim>\<open>rfs/source_RFS/file_operations.c\<close>: the lookups of the file and of its
  parent directory, the two write locks, the directory entry, the blocks with their cached
  copies, the inode and its bit are followed together. The file has no index block.
\<close>

section \<open>Two active files\<close>

lemma two_write_locks:
  assumes "idle T" and "afl_ok l" and "afl_tab l = marks T {} {p, q}" and "p \<noteq> q"
  shows "\<exists>l1 l2 l3 l4 l5 l6. active_list_upd l q (on_lock WRLOCK) = Some l1 \<and> active_list_upd l1 p (on_lock WRLOCK) = Some l2 \<and>
    active_list_upd l2 p (on_lock UNLOCK) = Some l3 \<and> active_list_upd l3 q (on_lock UNLOCK) = Some l4 \<and>
    active_file_finished_using l4 p = Some l5 \<and> active_file_finished_using l5 q = Some l6 \<and> afl_ok l6 \<and> afl_tab l6 = T"
proof -
  let ?w = "\<lparr>readers = 0, writer = True\<rparr>"
  have e: "afl_tab l q = Some (unlocked, bump (T q))" "afl_tab l p = Some (unlocked, bump (T p))" by (simp_all add: assms(3) marks_def)
  obtain l1 where l1: "active_list_upd l q (on_lock WRLOCK) = Some l1" "afl_ok l1" "afl_tab l1 = (afl_tab l)(q \<mapsto> (?w, bump (T q)))"
    using afl.lock_law [OF assms(2) e(1), of WRLOCK] by auto
  then have e1: "afl_tab l1 p = Some (unlocked, bump (T p))" using e(2) assms(4) by simp
  obtain l2 where l2: "active_list_upd l1 p (on_lock WRLOCK) = Some l2" "afl_ok l2" "afl_tab l2 = (afl_tab l1)(p \<mapsto> (?w, bump (T p)))"
    using afl.lock_law [OF l1(2) e1, of WRLOCK] by auto
  then have e2: "afl_tab l2 p = Some (?w, bump (T p))" by simp
  obtain l3 where l3: "active_list_upd l2 p (on_lock UNLOCK) = Some l3" "afl_ok l3" "afl_tab l3 = (afl_tab l2)(p \<mapsto> (unlocked, bump (T p)))"
    using afl.lock_law [OF l2(2) e2, of UNLOCK] by auto
  then have e3: "afl_tab l3 q = Some (?w, bump (T q))" using l1(3) l2(3) assms(4) by simp
  obtain l4 where l4: "active_list_upd l3 q (on_lock UNLOCK) = Some l4" "afl_ok l4" "afl_tab l4 = (afl_tab l3)(q \<mapsto> (unlocked, bump (T q)))"
    using afl.lock_law [OF l3(2) e3, of UNLOCK] by auto
  have "afl_tab l4 = marks T {} {p, q}" using l1(3) l2(3) l3(3) l4(3) e assms(3) by (auto simp: fun_eq_iff)
  then obtain l5 where l5: "active_file_finished_using l4 p = Some l5" "afl_ok l5" "afl_tab l5 = marks T {} ({p, q} - {p})"
    using afl.finished_marks [OF assms(1) l4(2), of "{}" "{p, q}" p] by auto
  have "marks T {} ({p, q} - {p} - {q}) = T" by (auto simp: marks_def fun_eq_iff)
  then obtain l6 where "active_file_finished_using l5 q = Some l6" "afl_ok l6" "afl_tab l6 = T"
    using afl.finished_marks [OF assms(1) l5(2,3), of q] assms(4) by (metis Diff_iff empty_iff insertCI singletonD)
  then show ?thesis using l1(1) l2(1) l3(1) l4(1) l5(1) by auto
qed

lemma find_second:
  fixes st :: "'c server"
  defines "T \<equiv> afl_tab (active_file_list st)"
  assumes "idle T" and "ready st ds" and "p \<noteq> st_path ds" and "afl_ok l" and "afl_tab l = marks T {} {p}" and "bump (T p) \<noteq> 0"
    and "resolve st ds = Some (b, m, False)"
  shows "\<exists>l3 l4. st_find (with_table st l False) (st_path ds) = Some (with_table st l3 False) \<and>
    inode_of_file (with_table st l3 False) (st_path ds) = Some (b, m, with_table st l4 False) \<and>
    afl_ok l4 \<and> afl_tab l4 = marks T {} {p, st_path ds}"
proof -
  obtain l3 where l3: "active_file_list_find l (st_path ds) = Some l3" "afl_ok l3" "afl_tab l3 = marks T {} {st_path ds, p}"
    using afl.find_marks [OF assms(2,5,6), of "st_path ds"] assms(4) by auto
  have "idle (afl_tab l3)" using assms(3,7) by (auto simp: l3(3) ready_def idle_def marks_def T_def)
  then obtain l4 where "afl_ok l4" "afl_tab l4 = afl_tab l3"
    "inode_of_file (with_table st l3 False) (st_path ds) = Some (b, m, with_table st l4 False)"
    using inode_of_file_resolves [of l3 ds st] l3(2) assms(3,8) by (auto simp: ready_def)
  moreover have "st_find (with_table st l False) (st_path ds) = Some (with_table st l3 False)"
    using l3(1) by (simp add: with_table_ops)
  ultimately show ?thesis using l3(3) by (auto simp: insert_commute)
qed

lemma find_two:
  fixes st :: "'c server"
  defines "T \<equiv> afl_tab (active_file_list st)"
  assumes "ready st cs" and "ready st ds" and "st_path cs \<noteq> st_path ds"
    and "resolve st cs = Some (a, n, False)" and "resolve st ds = Some (b, m, False)"
  shows "\<exists>l1 l2 l3 l4. st_find st (st_path cs) = Some (with_table st l1 False) \<and>
    inode_of_file (with_table st l1 False) (st_path cs) = Some (a, n, with_table st l2 False) \<and>
    st_find (with_table st l2 False) (st_path ds) = Some (with_table st l3 False) \<and>
    inode_of_file (with_table st l3 False) (st_path ds) = Some (b, m, with_table st l4 False) \<and>
    afl_ok l4 \<and> afl_tab l4 = marks T {} {st_path cs, st_path ds}"
proof -
  obtain l1 l2 where f: "st_find st (st_path cs) = Some (with_table st l1 False)"
    "inode_of_file (with_table st l1 False) (st_path cs) = Some (a, n, with_table st l2 False)"
    "afl_ok l2" "afl_tab l2 = marks T {} {st_path cs}"
    using find_and_resolve [OF assms(2)] assms(5) by (auto simp: T_def)
  have "idle T" "bump (T (st_path cs)) \<noteq> 0" using assms(2) by (simp_all add: ready_def T_def)
  from find_second [OF this(1) [unfolded T_def] assms(3,4) f(3) f(4) [unfolded T_def] this(2) [unfolded T_def] assms(6)]
  show ?thesis using f(1,2) by (auto simp: T_def)
qed

lemma parent_path_of:
  assumes "component_ok c" and "\<forall>d \<in> set ds. component_ok d" and "length ds \<le> 1"
  shows "parent_path (st_path (ds @ [c])) = Some (st_path ds)"
proof -
  have t: "split_path (path_of (ds @ [c])) = Some (Some (''/'' # tree_of (ds @ [c])))"
    using assms by (intro split_path_tree) auto
  have ne: "\<not> strncmp_eq x (path_of (ds @ [c])) (length (path_of (ds @ [c])))" if "length x < length (path_of (ds @ [c]))" for x
    using that unfolding strncmp_eq_def by (metis length_take min.absorb2 order_refl nat_less_le take_all_iff)
  have eq: "strncmp_eq (path_of (ds @ [c])) (path_of (ds @ [c])) (length (path_of (ds @ [c])))" by (simp add: strncmp_eq_def)
  have c: "0 < length c" using assms(1) by (auto simp: component_ok_def)
  show ?thesis
  proof (cases ds)
    case Nil
    then show ?thesis using t ne [of "''/''"] eq c by (simp add: parent_path_def st_path_def tree_of_def upt_rec)
  next
    case (Cons d es)
    then have "ds = [d]" using assms(3) by simp
    then show ?thesis using t ne [of "''/''"] ne [of "path_of [d]"] eq c by (simp add: parent_path_def st_path_def tree_of_def upt_rec)
  qed
qed

lemma path_and_name:
  assumes "component_ok c" and "\<forall>d \<in> set ds. component_ok d"
  shows "st_path (ds @ [c]) \<noteq> st_path ds \<and> active_file_get_file_name (st_path (ds @ [c])) = Some c"
proof -
  have "length (st_path ds) < length (st_path (ds @ [c]))" using assms(1) by (auto simp: st_path_def component_ok_def)
  moreover have "active_file_get_file_name (path_of (ds @ [c])) = Some c" using file_name_path_of [of "ds @ [c]" "[]"] assms by simp
  ultimately show ?thesis by (auto simp: st_path_def)
qed

section \<open>The directory entry\<close>

text \<open>
  The place of a file in a directory: \<open>ds\<close> are the blocks of the directory with contents \<open>cs\<close>, all of
  them in use and away from the file and its inode, and the inode number is in use.
\<close>

definition linked_file ::
  "'c server \<Rightarrow> nat \<Rightarrow> nat \<Rightarrow> u32 \<Rightarrow> string \<Rightarrow> u32 list \<Rightarrow> contents list \<Rightarrow> bool" where
  "linked_file st parent inode number name ds cs \<longleftrightarrow>
     map_option data_blocks (Inode_Get_Data_Adressess (fs_file st) (Super_constants st) parent
       (ld32 st (parent + inode_off I_blocks) * 512)) = Some ds \<and>
     dir_holds st ds cs \<and> apart st ds \<and> bsize (Super_constants st) < 65536 \<and>
     (\<forall>b \<in> set ds. deletable (fs_file st) (blk_at st b) (bsize (Super_constants st)) name) \<and>
     set ds \<subseteq> valid_nums Blocks st - free_nums Blocks st - set (file_blocks st inode) \<and>
     (\<forall>b \<in> set ds. disj_range (blk_at st b) (bsize (Super_constants st)) inode 128) \<and>
     number \<in> valid_nums Inodes st - free_nums Inodes st"

lemma file_frame:
  assumes "direct_file st inode" and "Super_constants st' = Super_constants st"
    and "\<forall>x. \<not> disj_range inode 128 x 1 \<longrightarrow> fs_file st' x = fs_file st x"
  shows "ld32 st' (inode + inode_off I_size) = ld32 st (inode + inode_off I_size)" "i < 12 \<Longrightarrow> ld32 st' (slot inode i) = ld32 st (slot inode i)"
    "file_blocks st' inode = file_blocks st inode"
proof -
  have l: "ld32 st' (inode + k) = ld32 st (inode + k)" if "k + 4 \<le> 128" for k
    unfolding ld32_def using that by (intro load32_eqI assms(3) [rule_format]) (simp add: disj_range_def)
  from l [of 4] show s: "ld32 st' (inode + inode_off I_size) = ld32 st (inode + inode_off I_size)" by simp
  have i: "ld32 st' (slot inode i) = ld32 st (slot inode i)" if "i < 12" for i using l [of "40 + 4 * i"] that by (simp add: add.assoc)
  then show "i < 12 \<Longrightarrow> ld32 st' (slot inode i) = ld32 st (slot inode i)" .
  have len: "Size_In_Blocks (Super_constants st) (ld32 st (inode + inode_off I_size)) \<le> 12" using direct_fileD(1,6) [OF assms(1)] by simp
  note a = file_blocks_direct [of st' inode, unfolded assms(2) s, OF this] and b = file_blocks_direct [OF this]
  show "file_blocks st' inode = file_blocks st inode" unfolding a b using len by (intro map_cong refl i) simp
qed

lemma direct_file_frame:
  assumes "direct_file st inode" and "Super_constants st' = Super_constants st"
    and "\<forall>x. \<not> disj_range inode 128 x 1 \<longrightarrow> fs_file st' x = fs_file st x"
    and "free_nums Blocks st' = free_nums Blocks st" "valid_nums Blocks st' = valid_nums Blocks st"
    and "is_meta (fs_file st') (Super_constants st) = is_meta (fs_file st) (Super_constants st)"
  shows "direct_file st' inode"
proof -
  note f = file_frame [OF assms(1-3)]
  have "blk_at st' = blk_at st" by (simp add: blk_at_def assms(2) fun_eq_iff)
  then show ?thesis using assms(1) f(2) unfolding direct_file_def Let_def f(3) by (simp add: assms(2,4-6))
qed

lemma unlink_entry:
  fixes st :: "'c server"
  defines "sc \<equiv> Super_constants st"
  assumes ok: "srv_ok st" and w: "no_wrap sc" and d: "direct_file st inode" and bs: "bs = file_blocks st inode"
    and co: "coherent view st path bs" and l: "linked_file st parent inode n name ds cs" and nm: "active_file_get_file_name path = Some name"
  shows "\<exists>fs1 cs'. delete_entry st parent path = Some (st\<lparr>fs_file := fs1\<rparr>) \<and> srv_ok (st\<lparr>fs_file := fs1\<rparr>) \<and>
    (\<forall>K. free_nums K (st\<lparr>fs_file := fs1\<rparr>) = free_nums K st) \<and> (\<forall>K. valid_nums K (st\<lparr>fs_file := fs1\<rparr>) = valid_nums K st) \<and>
    is_meta fs1 sc = is_meta (fs_file st) sc \<and> direct_file (st\<lparr>fs_file := fs1\<rparr>) inode \<and> file_blocks (st\<lparr>fs_file := fs1\<rparr>) inode = bs \<and>
    coherent view (st\<lparr>fs_file := fs1\<rparr>) path bs \<and> dir_holds (st\<lparr>fs_file := fs1\<rparr>) ds cs' \<and>
    concat cs' = remove_named (bytes_of_string name) (concat cs) \<and>
    (\<forall>x. is_meta (fs_file st) sc x \<or> (\<exists>b \<in> set bs. in_block sc b x) \<longrightarrow> fs1 x = fs_file st x)"
proof -
  have lf: "map_option data_blocks (Inode_Get_Data_Adressess (fs_file st) sc parent (ld32 st (parent + inode_off I_blocks) * 512)) = Some ds"
    "dir_holds st ds cs" "apart st ds" "bsize sc < 65536" "\<forall>b \<in> set ds. deletable (fs_file st) (blk_at st b) (bsize sc) name"
    "set ds \<subseteq> valid_nums Blocks st - free_nums Blocks st - set bs" "\<forall>b \<in> set ds. disj_range (blk_at st b) (bsize sc) inode 128"
    using l unfolding linked_file_def sc_def bs by blast+
  obtain fs1 cs' where r: "delete_in_blocks st parent ds 0 name = Some (st\<lparr>fs_file := fs1\<rparr>)" "dir_holds (st\<lparr>fs_file := fs1\<rparr>) ds cs'"
    "concat cs' = remove_named (bytes_of_string name) (concat cs)" "same_off_blocks st ds fs1"
    using delete_blocks_chain [OF lf(2,3), of "bsize sc" name parent 0] lf(4,5) by (auto simp: bsize_def sc_def)
  have run: "delete_entry st parent path = Some (st\<lparr>fs_file := fs1\<rparr>)"
    using lf(1) r(1) nm by (auto simp: delete_entry_def sc_def split: option.splits)
  have out: "fs1 x = fs_file st x" if "\<And>b. b \<in> set ds \<Longrightarrow> \<not> in_block sc b x" for x
    using r(4) that unfolding same_off_blocks_def Let_def by (auto simp: in_block_def sc_def blk_at_def bsize_def not_le not_less)
  have meta: "fs1 x = fs_file st x" if "is_meta (fs_file st) sc x" for x
    using that lf(6) valid_not_meta [of _ st x] by (intro out) (auto simp: sc_def)
  note ok1 = srv_ok_nonmeta [OF ok meta [unfolded sc_def]]
  have inode: "fs1 x = fs_file st x" if "\<not> disj_range inode 128 x 1" for x
    using that lf(7) by (intro out) (fastforce simp: in_block_def disj_range_def blk_at_def sc_def)
  have blocks: "file_blocks (st\<lparr>fs_file := fs1\<rparr>) inode = bs"
    using file_frame(3) [OF d, of "st\<lparr>fs_file := fs1\<rparr>"] inode by (simp add: bs)
  have direct: "direct_file (st\<lparr>fs_file := fs1\<rparr>) inode"
    using inode ok1(2-4) by (intro direct_file_frame [OF d]) simp_all
  have own: "fs1 x = fs_file st x" if b: "b \<in> set bs" and x: "in_block sc b x" for b x
  proof (rule out)
    fix c assume c: "c \<in> set ds"
    have "b \<in> valid_nums Blocks st" "c \<in> valid_nums Blocks st" "b \<noteq> c" using b c lf(6) direct_fileD(3) [OF d] by (auto simp: bs)
    from valid_apart [OF ok w [unfolded sc_def] this] x show "\<not> in_block sc c x" by (auto simp: disj_range_def in_block_def blk_at_def sc_def)
  qed
  have "block_bytes (st\<lparr>fs_file := fs1\<rparr>) b = block_bytes st b" if b: "b \<in> set bs" for b
    using own [OF b] by (intro block_bytes_eqI) (simp_all add: sc_def)
  then have "coherent view (st\<lparr>fs_file := fs1\<rparr>) path bs" using co unfolding coherent_def by (auto simp: nth_mem)
  with run ok1 direct blocks r(2,3) own meta show ?thesis unfolding sc_def by blast
qed

section \<open>The blocks and the inode\<close>

lemma meta_off_inode:
  assumes "\<forall>k < 128. \<not> is_meta fs sc (inode + k)" and "is_meta fs sc x" and "\<And>y. disj_range inode 128 y 1 \<Longrightarrow> fs' y = fs'' y"
  shows "fs' x = fs'' x"
proof (rule assms(3), rule ccontr)
  assume "\<not> disj_range inode 128 x 1"
  then have "x - inode < 128" "inode + (x - inode) = x" by (auto simp: disj_range_def)
  then show False using assms(1,2) by metis
qed

lemma inode_write:
  assumes "srv_ok st" and meta: "\<forall>k < 128. \<not> is_meta (fs_file st) (Super_constants st) (inode + k)"
    and out: "\<And>x. disj_range inode 128 x 1 \<Longrightarrow> fs' x = fs_file st x"
  shows "srv_ok (st\<lparr>fs_file := fs'\<rparr>)" "free_nums K (st\<lparr>fs_file := fs'\<rparr>) = free_nums K st"
    "valid_nums K (st\<lparr>fs_file := fs'\<rparr>) = valid_nums K st" "is_meta fs' (Super_constants st) = is_meta (fs_file st) (Super_constants st)"
proof -
  have "fs' x = fs_file st x" if "is_meta (fs_file st) (Super_constants st) x" for x
    by (rule meta_off_inode [OF meta that out])
  from srv_ok_nonmeta [OF assms(1) this] show "srv_ok (st\<lparr>fs_file := fs'\<rparr>)" "free_nums K (st\<lparr>fs_file := fs'\<rparr>) = free_nums K st"
    "valid_nums K (st\<lparr>fs_file := fs'\<rparr>) = valid_nums K st" "is_meta fs' (Super_constants st) = is_meta (fs_file st) (Super_constants st)"
    by blast+
qed

lemma init_inode_outside: "disj_range inode 128 x 1 \<Longrightarrow> init_inode fs inode b l m z x = fs x"
  by (auto simp: init_inode_def mem_simps store32s_outside disj_range_def)

lemma remove_all_range:
  assumes "n = Size_In_Blocks (Super_constants st) (ld32 st (inode + inode_off I_size))" and "n < 2 ^ 31"
  shows "Remove_Blocks lib st inode (int n) params = remove_range lib params inode [0..<n] st"
proof -
  have u: "unat (of_nat n :: u32) = n" using assms(2) by (simp add: unat_of_nat_u32)
  then have "uint (of_nat n :: u32) = int n" by (simp only: uint_nat)
  then have "uint (of_nat n :: u32) + (if int n > 0 then - int n else int n) = 0" by auto
  then show ?thesis by (simp only: Remove_Blocks_def Let_def assms(1) [symmetric] u of_int_0 unat_0)
qed

lemma release_file:
  fixes s :: "'c server"
  defines "sc \<equiv> Super_constants s"
  assumes laws: "cache_laws lib view" and ok: "srv_ok s" and d: "direct_file s inode" and bs: "bs = file_blocks s inode"
    and co: "coherent view s (p_path params) bs" and n: "n \<in> valid_nums Inodes s - free_nums Inodes s"
  shows "\<exists>s2 st'. Remove_Blocks lib s inode (int (Size_In_Blocks sc (ld32 s (inode + inode_off I_size)))) params = Some s2 \<and>
    setFreeInodeBitmap (Clear_Inode s2 inode) n = Some st' \<and> only_image s st' \<and> srv_ok st' \<and>
    free_nums Blocks st' = free_nums Blocks s \<union> set bs \<and> free_nums Inodes st' = insert n (free_nums Inodes s) \<and>
    (\<forall>i. view (memc st') (generate_key (p_path params) i) = None) \<and>
    (\<forall>x. \<not> is_meta (fs_file s) sc x \<and> disj_range inode 128 x 1 \<longrightarrow> fs_file st' x = fs_file s x)"
proof -
  note df = direct_fileD [OF d, folded bs]
  obtain s2 where s2: "remove_range lib params inode [0..<length bs] s = Some s2"
    "resized view (p_path params) inode {} (take 0 bs) (free_nums Blocks s \<union> set (drop 0 bs)) s s2"
    "free_nums Inodes s2 = free_nums Inodes s" "valid_nums Inodes s2 = valid_nums Inodes s"
    using shrink_resized [OF laws ok d bs _ co, of 0] by auto
  have "length bs < 2 ^ 31" using df(1) by simp
  then have run: "Remove_Blocks lib s inode (int (length bs)) params = Some s2"
    using remove_all_range [OF df(6), of lib params] s2(1) by simp
  have rs: "only_image s s2" "srv_ok s2" "free_nums Blocks s2 = free_nums Blocks s \<union> set bs" "is_meta (fs_file s2) sc = is_meta (fs_file s) sc"
    "\<forall>x. \<not> is_meta (fs_file s) sc x \<and> disj_range inode 128 x 1 \<longrightarrow> fs_file s2 x = fs_file s x"
    "\<And>i v. view (memc s2) (generate_key (p_path params) i) = Some v \<Longrightarrow> False"
    using s2(2) by (simp_all add: resized_def sc_def)
  have sc2: "Super_constants s2 = sc" using only_image_fields(1) [OF rs(1)] by (simp add: sc_def)
  define fs3 where "fs3 = init_inode (fs_file s2) inode 0 0 0 0"
  have "\<forall>k < 128. \<not> is_meta (fs_file s2) (Super_constants s2) (inode + k)" using df(4) by (simp add: sc2 rs(4), simp add: sc_def)
  note i = inode_write [OF rs(2) this, of fs3, OF init_inode_outside [of inode _ "fs_file s2" 0 0 0 0, folded fs3_def]]
  have "n \<in> valid_nums Inodes (s2\<lparr>fs_file := fs3\<rparr>)" "n \<notin> free_nums Inodes (s2\<lparr>fs_file := fs3\<rparr>)" using n s2(3,4) i(2,3) by auto
  from release_number [OF i(1) this] obtain fs4 where f: "setFreeInodeBitmap (s2\<lparr>fs_file := fs3\<rparr>) n = Some (s2\<lparr>fs_file := fs4\<rparr>)"
    "srv_ok (s2\<lparr>fs_file := fs4\<rparr>)" "free_nums Inodes (s2\<lparr>fs_file := fs4\<rparr>) = insert n (free_nums Inodes (s2\<lparr>fs_file := fs3\<rparr>))"
    "free_nums Blocks (s2\<lparr>fs_file := fs4\<rparr>) = free_nums Blocks (s2\<lparr>fs_file := fs3\<rparr>)"
    "\<forall>x. \<not> is_meta fs3 sc x \<longrightarrow> fs4 x = fs3 x"
    by (auto simp: sc2)
  have "fs4 x = fs_file s x" if "\<not> is_meta (fs_file s) sc x" "disj_range inode 128 x 1" for x
    using that f(5) i(4) rs(4,5) init_inode_outside [OF that(2), of "fs_file s2" 0 0 0 0] by (simp add: sc2 fs3_def)
  moreover have "only_image s (s2\<lparr>fs_file := fs4\<rparr>)" by (rule only_image_trans [OF rs(1)]) simp
  moreover have "view (memc s2) (generate_key (p_path params) k) = None" for k using rs(6) by (cases "view (memc s2) (generate_key (p_path params) k)") auto
  ultimately show ?thesis
    using run f(1-4) i(2) rs(3) s2(3) df(6)
    by (intro exI [of _ s2] exI [of _ "s2\<lparr>fs_file := fs4\<rparr>"]) (simp add: Clear_Inode_def fs3_def sc_def)
qed

section \<open>The whole operation\<close>

lemma dir_holds_blocks:
  assumes "dir_holds st ds cs" and "Super_constants st' = Super_constants st"
    and "\<forall>b \<in> set ds. \<forall>x. in_block (Super_constants st) b x \<longrightarrow> fs_file st' x = fs_file st x"
  shows "dir_holds st' ds cs"
proof -
  have b: "blk_at st' = blk_at st" by (simp add: blk_at_def assms(2) fun_eq_iff)
  have "block_holds (fs_file st') (blk_at st b) (unat (BLOCK_SIZE (Super_constants st))) c"
    if h: "b \<in> set ds" "block_holds (fs_file st) (blk_at st b) (unat (BLOCK_SIZE (Super_constants st))) c" for b c
  proof -
    have "same_on (blk_at st b) (blk_at st b + unat (BLOCK_SIZE (Super_constants st))) (fs_file st) (fs_file st')"
      using assms(3) h(1) by (auto simp: same_on_def in_block_def blk_at_def bsize_def)
    moreover obtain es where es: "dchain (fs_file st) (blk_at st b) (blk_at st b + unat (BLOCK_SIZE (Super_constants st))) es" "map (entry_of (fs_file st)) es = c"
      using h(2) by (auto simp: block_holds_def)
    ultimately show ?thesis using dchain_frame [OF es(1)] es(2) by (auto simp: block_holds_def)
  qed
  then show ?thesis using assms(1) unfolding dir_holds_def b assms(2) by (auto elim!: list.rel_mono_strong)
qed

lemma delete_file_steps:
  assumes "p_path params = path" and "st_find st path = Some s1" and "inode_of_file s1 path = Some (Some inode, n, s2)"
    and "parent_path path = Some pdir" and "st_find s2 pdir = Some s3" and "inode_of_file s3 pdir = Some (Some parent, m, s4)"
    and "st_lock WRLOCK s4 pdir = Some s5" and "delete_entry s5 parent path = Some s6" and "st_lock WRLOCK s6 path = Some s7"
    and "Remove_Blocks lib s7 inode (int (Size_In_Blocks (Super_constants s7) (ld32 s7 (inode + inode_off I_size)))) params = Some s8"
    and "setFreeInodeBitmap (Clear_Inode s8 inode) n = Some s9" and "st_lock UNLOCK s9 path = Some s10"
    and "st_lock UNLOCK s10 pdir = Some s11" and "st_finished s11 path = Some s12" and "st_finished s12 pdir = Some s13"
  shows "delete_file lib params st = Some (new_result params (D_word 0), s13)"
  using assms by (simp add: delete_file_def finish2_def Let_def)

lemma table_image:
  "linked_file (st\<lparr>active_file_list := l\<rparr>) = linked_file st" "coherent view (st\<lparr>active_file_list := l\<rparr>) = coherent view st"
  "direct_file (st\<lparr>active_file_list := l\<rparr>) = direct_file st" "file_blocks (st\<lparr>active_file_list := l\<rparr>) = file_blocks st"
  "srv_ok (st\<lparr>active_file_list := l\<rparr>) = srv_ok st" "free_nums K (st\<lparr>active_file_list := l\<rparr>) = free_nums K st"
  "valid_nums K (st\<lparr>active_file_list := l\<rparr>) = valid_nums K st" "dir_holds (st\<lparr>active_file_list := l\<rparr>) = dir_holds st"
  "blk_at (st\<lparr>active_file_list := l\<rparr>) = blk_at st"
proof -
  show b: "blk_at (st\<lparr>active_file_list := l\<rparr>) = blk_at st" by (simp add: blk_at_def fun_eq_iff)
  show s: "srv_ok (st\<lparr>active_file_list := l\<rparr>) = srv_ok st" and f: "free_nums K (st\<lparr>active_file_list := l\<rparr>) = free_nums K st"
    and v: "valid_nums K (st\<lparr>active_file_list := l\<rparr>) = valid_nums K st" for K
    by (simp_all add: srv_ok_def free_nums_def valid_nums_def)
  show fb: "file_blocks (st\<lparr>active_file_list := l\<rparr>) = file_blocks st" by (simp add: file_blocks_def ld32_def fun_eq_iff)
  show dh: "dir_holds (st\<lparr>active_file_list := l\<rparr>) = dir_holds st" by (simp add: dir_holds_def b fun_eq_iff)
  show "direct_file (st\<lparr>active_file_list := l\<rparr>) = direct_file st" by (simp add: direct_file_def fb f v b ld32_def fun_eq_iff)
  show "coherent view (st\<lparr>active_file_list := l\<rparr>) = coherent view st" by (simp add: coherent_def block_bytes_def b fun_eq_iff)
  show "linked_file (st\<lparr>active_file_list := l\<rparr>) = linked_file st"
    by (simp add: linked_file_def fb f v b dh apart_def ld32_def fun_eq_iff)
qed

section \<open>Properties\<close>

lemma release_keeps_directory:
  assumes "dir_holds st es cs" and "set es \<subseteq> valid_nums Blocks st"
    and "\<forall>b \<in> set es. disj_range (blk_at st b) (bsize (Super_constants st)) inode 128"
    and "Super_constants st' = Super_constants st"
    and "\<forall>x. \<not> is_meta (fs_file st) (Super_constants st) x \<and> disj_range inode 128 x 1 \<longrightarrow> fs_file st' x = fs_file st x"
  shows "dir_holds st' es cs"
proof (rule dir_holds_blocks [OF assms(1,4)], intro ballI allI impI)
  fix b x assume b: "b \<in> set es" "in_block (Super_constants st) b x"
  have "\<not> is_meta (fs_file st) (Super_constants st) x" using valid_not_meta [of b st x] b assms(2) by blast
  moreover have "disj_range inode 128 x 1" using assms(3) b by (fastforce simp: disj_range_def in_block_def blk_at_def)
  ultimately show "fs_file st' x = fs_file st x" using assms(5) by blast
qed

text \<open>
  C12: deleting a file of direct blocks in the root directory or in a directory named directly in it
  (\<open>length ds \<le> 1\<close>: deeper, \<open>parent_path\<close> does not give the parent), where the blocks of that directory
  are well formed and \<open>deletable\<close>: the bytes after a block do not look like an entry of the name, the
  entry is not the only one of its block, a first entry does not meet by accident the code's
  condition for dropping the block, and no name is copied over itself. The answer is 0; the first
  entry of its name is gone from the directory, the other entries are as they were; exactly the
  blocks of the file and its inode number are free in addition, with bitmaps and counters
  consistent; nothing is cached under its path; and both locks are released, with the table of
  active files as it was.
\<close>

theorem delete_file_contract:
  fixes st :: "'c server" and params :: params_t
  assumes "ready st (ds @ [c])" and "ready st ds" and "length ds \<le> 1" and "p_path params = st_path (ds @ [c])"
    and "resolve st (ds @ [c]) = Some (Some inode, n, False)" and "resolve st ds = Some (Some parent, m, False)"
    and "srv_ok st" and "no_wrap (Super_constants st)" and "direct_file st inode"
    and "linked_file st parent inode n c es cs" and "cache_laws lib view" and "coherent view st (p_path params) (file_blocks st inode)"
  shows "\<exists>st' cs'. delete_file lib params st = Some (new_result params (D_word 0), st') \<and> srv_ok st' \<and>
    dir_holds st' es cs' \<and> concat cs' = remove_named (bytes_of_string c) (concat cs) \<and>
    free_nums Blocks st' = free_nums Blocks st \<union> set (file_blocks st inode) \<and> free_nums Inodes st' = insert n (free_nums Inodes st) \<and>
    (\<forall>i. view (memc st') (generate_key (p_path params) i) = None) \<and> afl_tab (active_file_list st') = afl_tab (active_file_list st)"
proof -
  let ?p = "st_path (ds @ [c])" and ?q = "st_path ds" and ?T = "afl_tab (active_file_list st)" and ?sc = "Super_constants st"
  have comp: "component_ok c" "\<forall>d \<in> set ds. component_ok d" using assms(1) by (simp_all add: ready_def)
  have pq: "?p \<noteq> ?q" and name: "active_file_get_file_name ?p = Some c"
    using path_and_name [OF comp] by simp_all
  obtain l1 l2 l3 l4 where f: "st_find st ?p = Some (with_table st l1 False)" "inode_of_file (with_table st l1 False) ?p = Some (Some inode, n, with_table st l2 False)"
    "st_find (with_table st l2 False) ?q = Some (with_table st l3 False)" "inode_of_file (with_table st l3 False) ?q = Some (Some parent, m, with_table st l4 False)"
    "afl_ok l4" "afl_tab l4 = marks ?T {} {?p, ?q}"
    using find_two [OF assms(1,2) pq assms(5,6)] by blast
  have idle: "idle ?T" using assms(1) by (simp add: ready_def)
  obtain k1 k2 k3 k4 k5 k6 where k: "active_list_upd l4 ?q (on_lock WRLOCK) = Some k1" "active_list_upd k1 ?p (on_lock WRLOCK) = Some k2"
    "active_list_upd k2 ?p (on_lock UNLOCK) = Some k3" "active_list_upd k3 ?q (on_lock UNLOCK) = Some k4"
    "active_file_finished_using k4 ?p = Some k5" "active_file_finished_using k5 ?q = Some k6" "afl_tab k6 = ?T"
    using two_write_locks [OF idle f(5,6) pq] by blast
  define s5 where "s5 = st\<lparr>active_file_list := k1\<rparr>"
  have "coherent view s5 ?p (file_blocks st inode)" using assms(4,12) by (simp add: s5_def table_image)
  moreover have "srv_ok s5" "no_wrap (Super_constants s5)" "direct_file s5 inode" "file_blocks st inode = file_blocks s5 inode" "linked_file s5 parent inode n c es cs"
    using assms(7-10) by (simp_all add: s5_def table_image)
  ultimately obtain fs1 cs' where d: "delete_entry s5 parent ?p = Some (s5\<lparr>fs_file := fs1\<rparr>)" "srv_ok (s5\<lparr>fs_file := fs1\<rparr>)"
    "\<forall>K. free_nums K (s5\<lparr>fs_file := fs1\<rparr>) = free_nums K s5" "\<forall>K. valid_nums K (s5\<lparr>fs_file := fs1\<rparr>) = valid_nums K s5"
    "direct_file (s5\<lparr>fs_file := fs1\<rparr>) inode" "file_blocks (s5\<lparr>fs_file := fs1\<rparr>) inode = file_blocks st inode"
    "coherent view (s5\<lparr>fs_file := fs1\<rparr>) ?p (file_blocks st inode)" "dir_holds (s5\<lparr>fs_file := fs1\<rparr>) es cs'"
    "concat cs' = remove_named (bytes_of_string c) (concat cs)"
    using unlink_entry [of s5 inode "file_blocks st inode" view ?p parent n c es cs] name by blast
  define s7 where "s7 = st\<lparr>fs_file := fs1, active_file_list := k2\<rparr>"
  have s7: "s7 = (s5\<lparr>fs_file := fs1\<rparr>)\<lparr>active_file_list := k2\<rparr>" by (simp add: s5_def s7_def)
  have nums: "free_nums K s7 = free_nums K st" "valid_nums K s7 = valid_nums K st" for K
    using d(3,4) unfolding s7 table_image s5_def by blast+
  have "srv_ok s7" "direct_file s7 inode" "file_blocks st inode = file_blocks s7 inode" "coherent view s7 (p_path params) (file_blocks st inode)"
    using d(2,5-7) assms(4) unfolding s7 table_image by simp_all
  moreover have "n \<in> valid_nums Inodes s7 - free_nums Inodes s7" using assms(10) by (simp add: nums linked_file_def)
  ultimately obtain s8 s9 where r: "Remove_Blocks lib s7 inode (int (Size_In_Blocks (Super_constants s7) (ld32 s7 (inode + inode_off I_size)))) params = Some s8"
    "setFreeInodeBitmap (Clear_Inode s8 inode) n = Some s9" "only_image s7 s9" "srv_ok s9"
    "free_nums Blocks s9 = free_nums Blocks s7 \<union> set (file_blocks st inode)" "free_nums Inodes s9 = insert n (free_nums Inodes s7)"
    "\<forall>i. view (memc s9) (generate_key (p_path params) i) = None"
    "\<forall>x. \<not> is_meta (fs_file s7) (Super_constants s7) x \<and> disj_range inode 128 x 1 \<longrightarrow> fs_file s9 x = fs_file s7 x"
    using release_file [OF assms(11), of s7 inode "file_blocks st inode" params n] by blast
  note o9 = only_image_fields [OF r(3)]
  have l9: "active_file_list s9 = k2" using o9(2) by (simp add: s7_def)
  define st' where "st' = s9\<lparr>active_file_list := k6\<rparr>"
  have "delete_file lib params st = Some (new_result params (D_word 0), st')"
  proof (rule delete_file_steps [OF assms(4) f(1,2) parent_path_of [OF comp assms(3)] f(3,4)])
    show "st_lock WRLOCK (with_table st l4 False) ?q = Some s5" using k(1) by (simp add: with_table_ops s5_def) (simp add: with_table_def)
    show "delete_entry s5 parent ?p = Some (s5\<lparr>fs_file := fs1\<rparr>)" by (rule d(1))
    show "st_lock WRLOCK (s5\<lparr>fs_file := fs1\<rparr>) ?p = Some s7" using k(2) by (simp add: st_lock_def s5_def s7_def)
    show "st_lock UNLOCK s9 ?p = Some (s9\<lparr>active_file_list := k3\<rparr>)" using k(3) by (simp add: st_lock_def l9)
    show "st_lock UNLOCK (s9\<lparr>active_file_list := k3\<rparr>) ?q = Some (s9\<lparr>active_file_list := k4\<rparr>)" using k(4) by (simp add: st_lock_def)
    show "st_finished (s9\<lparr>active_file_list := k4\<rparr>) ?p = Some (s9\<lparr>active_file_list := k5\<rparr>)" using k(5) by (simp add: st_finished_def)
    show "st_finished (s9\<lparr>active_file_list := k5\<rparr>) ?q = Some st'" using k(6) by (simp add: st_finished_def st'_def)
  qed (rule r(1), rule r(2))
  moreover have "dir_holds s9 es cs'"
  proof (rule release_keeps_directory [OF _ _ _ o9(1) r(8)])
    show "dir_holds s7 es cs'" using d(8) unfolding s7 table_image .
    show "set es \<subseteq> valid_nums Blocks s7" "\<forall>b \<in> set es. disj_range (blk_at s7 b) (bsize (Super_constants s7)) inode 128"
      using assms(10) by (auto simp: linked_file_def nums) (simp add: s7_def blk_at_def)
  qed
  ultimately show ?thesis
    using r(4-7) d(9) k(7) by (intro exI [of _ st'] exI [of _ cs']) (simp add: st'_def table_image nums)
qed

section \<open>The example\<close>

lemma image_root: "resolve image_server [] = Some (Some 3200, 2, False)" "ready image_server []"
proof -
  show "resolve image_server [] = Some (Some 3200, 2, False)"
    by (simp add: resolve_def ROOT_INODE_NUMBER_def Inode_Global_Read_def Inode_Local_Read_def Inode_readTable_def Group_Descriptor_read_def
        Inode_locateGroup_def Inode_getLocalIndex_def demo_sc_def sizeof_inode_def image_words)
  show "ready image_server []"
    by (simp add: ready_def afl_ok_def afl_tab_def idle_def bump_def list_create_def list_ok_def)
qed

lemma image_entry_fields:
  "unat (e_len image_fs 2944) = 12" "unat (e_len image_fs 2956) = 116" "e_name_len image_fs 2944 = 1" "e_name_len image_fs 2956 = 1"
  "e_name_len image_fs 3072 = 0" "entry_of image_fs 2944 = (2, [46])" "entry_of image_fs 2956 = (3, [97])"
  by (simp_all add: entry_of_def e_len_def e_name_len_def e_inode_def e_name_def image_words,
      simp_all add: image_fs_def demo_fs_def load_bytes_def upt_rec)

lemma image_chain: "dchain image_fs 2944 3072 [2944, 2956]"
  by (simp add: image_entry_fields get_padded_size_def sizeof_entry_def padded_def)

lemma image_directory: "map_option data_blocks (Inode_Get_Data_Adressess image_fs demo_sc 3200 (ld32 image_server (3200 + inode_off I_blocks) * 512)) = Some [23]"
proof -
  have z: "image_fs x = 0" if "3244 \<le> x" "x < 3328" for x using that by (simp add: image_fs_def demo_fs_def)
  have "ld32 image_server (3200 + inode_off I_blocks) = 1" by (simp add: ld32_def load32_def load_bytes_def upt_rec image_fs_def demo_fs_def)
  moreover have "load32 image_fs 3244 = 0" "load32 image_fs 3248 = 0" "load32 image_fs 3252 = 0"
    by (simp_all add: load32_def load_bytes_def upt_rec z)
  then have "Inode_Get_Data_Adressess image_fs demo_sc 3200 512 = Some [23, 0, 0, 0, 0]"
    by (subst data_addresses_cases, simp add: demo_sc_def ptrs_per_block_def)
      (simp add: demo_sc_def Size_In_Blocks_def max_file_blocks_def ptrs_per_block_def file_block_def upt_rec Let_def image_words)
  ultimately show ?thesis by (simp add: data_blocks_def)
qed

lemma image_numbers: "23 \<in> valid_nums Blocks image_server" "3 \<in> valid_nums Inodes image_server" "free_nums Inodes image_server = {6}"
proof -
  have "(0, 22) \<in> usable Blocks image_fs demo_sc" "(0, 2) \<in> usable Inodes image_fs demo_sc"
    by (simp_all add: usable_def demo_simps num_def image_meta block_addr_def, simp_all add: demo_sc_def)
  then have "num Blocks demo_sc (0, 22) \<in> valid_nums Blocks image_server" "num Inodes demo_sc (0, 2) \<in> valid_nums Inodes image_server"
    unfolding valid_nums_def by simp_all
  then show "23 \<in> valid_nums Blocks image_server" "3 \<in> valid_nums Inodes image_server" by (simp_all add: num_def)
  show "free_nums Inodes image_server = {6}" by (simp add: free_nums_def image_free_set demo_free_set num_def demo_simps)
qed

lemma image_linked: "linked_file image_server 3200 3328 3 ''a'' [23] [[(2, [46]), (3, [97])]]"
proof -
  have "bytes_of_string ''a'' = [97]" by (simp add: bytes_of_string_def char_byte_def)
  then have m: "entry_matches image_fs e ''a'' \<longleftrightarrow> snd (entry_of image_fs e) = [97]" for e by (simp add: matches_entry)
  have "block_holds image_fs 2944 128 [(2, [46]), (3, [97])]"
    unfolding block_holds_def using image_chain by (intro exI [of _ "[2944, 2956]"]) (simp add: image_entry_fields)
  moreover have "\<not> entry_matches image_fs 3072 ''a''" by (simp add: entry_matches_def image_entry_fields)
  then have "deletable image_fs 2944 128 ''a''"
    unfolding deletable_def using image_chain \<open>bytes_of_string ''a'' = [97]\<close>
    by (intro conjI exI [of _ "[2944, 2956]"]) (simp_all add: m image_entry_fields)
  ultimately show ?thesis
    unfolding linked_file_def using image_directory image_numbers
    by (simp add: dir_holds_def apart_def image_blk_at image_file_blocks image_free_nums demo_simps disj_range_def)
qed

lemma delete_file_contract_witness:
  "\<exists>st' cs'. delete_file map_lib read_params image_server = Some (new_result read_params (D_word 0), st') \<and> srv_ok st' \<and>
    dir_holds st' [23] cs' \<and> concat cs' = [(2, [46])] \<and> free_nums Blocks st' = {19, 20, 21, 22} \<and> free_nums Inodes st' = {3, 6}"
proof -
  have p: "p_path read_params = ''/a''" by (simp add: read_params_def)
  note t = image_truncate [OF p]
  have "bytes_of_string ''a'' = [97]" by (simp add: bytes_of_string_def char_byte_def)
  moreover have "ready image_server ([] @ [''a''])" "p_path read_params = st_path ([] @ [''a''])" "length ([] :: string list) \<le> 1"
    "resolve image_server ([] @ [''a'']) = Some (Some 3328, 3, False)" using t(1,2) image_resolves by simp_all
  from delete_file_contract [OF this(1) image_root(2) this(3,2,4) image_root(1) image_ok t(3) image_direct image_linked map_lib_laws t(4) [unfolded t(5)]]
  obtain st' cs' where "delete_file map_lib read_params image_server = Some (new_result read_params (D_word 0), st')" "srv_ok st'"
    "dir_holds st' [23] cs'" "concat cs' = remove_named (bytes_of_string ''a'') (concat [[(2, [46]), (3, [97])]])"
    "free_nums Blocks st' = free_nums Blocks image_server \<union> set (file_blocks image_server 3328)"
    "free_nums Inodes st' = insert 3 (free_nums Inodes image_server)" by blast
  ultimately show ?thesis by (auto simp: image_free_nums image_file_blocks image_numbers)
qed

end
