(* ===== verification/Creacion.thy ===== *)
theory Creacion
  imports Borrado
begin

text \<open>
  Creating a file, the branch of \<open>create_file_dir\<close> of \<^verbatim>\<open>rfs/source_RFS/file_operations.c\<close> for regular files:
  the two lookups, the inode taken from the bitmap, the entry put into the directory, the fields
  of the inode and the two locks. The directory has room and no index block.
\<close>

section \<open>Addresses that do not move\<close>

lemma inode_address_frame:
  assumes "same_words sc fs fs'"
  shows "Inode_Global_Read fs' sc n = Inode_Global_Read fs sc n"
proof -
  have "Inode_readTable fs' sc g = Inode_readTable fs sc g" for g
  proof (cases "g < TOTAL_GROUPS sc")
    case True
    then have "table_word fs' sc (unat g) = table_word fs sc (unat g)"
      using assms by (simp add: same_words_def groups_def word_less_nat_alt)
    then show ?thesis
      by (simp add: Inode_readTable_def Group_Descriptor_read_def sizeof_Group_Descriptor_def table_word_def gd_addr_def)
  qed (simp add: Inode_readTable_def Group_Descriptor_read_def)
  then show ?thesis by (simp add: Inode_Global_Read_def Inode_Local_Read_def)
qed

lemma direct_addresses_frame:
  assumes "0 < ptrs_per_block sc" and "Size_In_Blocks sc z \<le> 12"
    and "\<forall>x. \<not> disj_range inode 128 x 1 \<longrightarrow> fs' x = fs x"
  shows "Inode_Get_Data_Adressess fs' sc inode z = Inode_Get_Data_Adressess fs sc inode z"
proof -
  have "file_block fs' sc inode i = file_block fs sc inode i" if "i < 12" for i
  proof -
    have "load32 fs' (pointer_data_0 inode i) = load32 fs (pointer_data_0 inode i)"
      using that by (intro load32_eqI assms(3) [rule_format]) (simp add: disj_range_def)
    then show ?thesis using that by (simp add: file_block_def)
  qed
  moreover have "max 1 (Size_In_Blocks sc z) \<le> 12" using assms(2) by simp
  ultimately have "map (file_block fs' sc inode) [0..<max 1 (Size_In_Blocks sc z)] = map (file_block fs sc inode) [0..<max 1 (Size_In_Blocks sc z)]"
    by (intro map_cong refl) simp
  then show ?thesis by (simp only: data_addresses_cases [OF assms(1)] Let_def)
qed

lemma get_inode:
  assumes ok: "srv_ok st" and free: "free_nums Inodes st \<noteq> {}"
  shows "\<exists>n fs'. Get_Free_Inodes st 1 = Some (Some [n], st\<lparr>fs_file := fs'\<rparr>) \<and> srv_ok (st\<lparr>fs_file := fs'\<rparr>) \<and> n \<in> free_nums Inodes st \<and>
    n \<noteq> 0 \<and> free_nums Inodes (st\<lparr>fs_file := fs'\<rparr>) = free_nums Inodes st - {n} \<and> free_nums Blocks (st\<lparr>fs_file := fs'\<rparr>) = free_nums Blocks st \<and>
    (\<forall>K. valid_nums K (st\<lparr>fs_file := fs'\<rparr>) = valid_nums K st) \<and> same_words (Super_constants st) (fs_file st) fs' \<and>
    (\<forall>x. \<not> is_meta (fs_file st) (Super_constants st) x \<longrightarrow> fs' x = fs_file st x)"
proof -
  let ?sc = "Super_constants st" and ?fs = "fs_file st"
  have lay: "layout ?fs ?sc" using ok fs_okD(1) by (auto simp: srv_ok_def)
  obtain p fs' where r: "Get_Free_Inodes st 1 = Some (Some [num Inodes ?sc p], st\<lparr>fs_file := fs'\<rparr>)"
    and p: "p \<in> free_set Inodes ?fs ?sc" and fs': "fs_ok fs' ?sc" "same_words ?sc ?fs fs'"
      "\<forall>L. free_set L fs' ?sc = free_set L ?fs ?sc - (if L = Inodes then {p} else {})"
      "\<forall>x. \<not> is_meta ?fs ?sc x \<longrightarrow> fs' x = ?fs x"
    using Get_Free_Inodes_ok [OF ok] free unfolding free_nums_def by blast
  have sub: "{p} \<subseteq> {..<groups ?sc} \<times> {..<per_group Inodes ?sc}" using p free_set_sub by blast
  from num_image_diff [OF lay free_set_sub sub, of ?fs]
  have "num Inodes ?sc ` free_set Inodes fs' ?sc = free_nums Inodes st - {num Inodes ?sc p}"
    using fs'(3) by (simp add: free_nums_def)
  moreover have "num Inodes ?sc p \<noteq> 0" using num_split(3) [OF lay, of "fst p" "snd p" Inodes] sub by auto
  ultimately show ?thesis using r p fs' ok usable_cong [OF fs'(2)]
    by (intro exI [of _ "num Inodes ?sc p"] exI [of _ fs']) (auto simp: srv_ok_def free_nums_def valid_nums_def)
qed

section \<open>The directory\<close>

text \<open>
  A directory \<open>parent\<close> without index blocks that has room for a name: \<open>es\<close> are its blocks, by the size
  and by the count of the inode, and \<open>cs\<close> their contents.
\<close>

definition roomy_dir :: "'c server \<Rightarrow> nat \<Rightarrow> string \<Rightarrow> u32 list \<Rightarrow> contents list \<Rightarrow> bool" where
  "roomy_dir st parent name es cs \<longleftrightarrow>
     0 < ptrs_per_block (Super_constants st) \<and>
     (\<forall>z \<in> {ld32 st (parent + inode_off I_size), ld32 st (parent + inode_off I_blocks) * 512}.
        Size_In_Blocks (Super_constants st) z \<le> 12 \<and>
        map_option data_blocks (Inode_Get_Data_Adressess (fs_file st) (Super_constants st) parent z) = Some es) \<and>
     dir_holds st es cs \<and> apart st es \<and> set es \<subseteq> valid_nums Blocks st \<and>
     (\<exists>b \<in> set es. block_room (fs_file st) (blk_at st b) (bsize (Super_constants st)) (length name)) \<and>
     (\<forall>k < 128. \<not> is_meta (fs_file st) (Super_constants st) (parent + k)) \<and>
     (\<forall>b \<in> set es. disj_range (blk_at st b) (bsize (Super_constants st)) parent 128)"

text \<open>The places of the free inodes, away from the directory.\<close>

definition free_inodes_apart :: "'c server \<Rightarrow> nat \<Rightarrow> u32 list \<Rightarrow> bool" where
  "free_inodes_apart st parent es \<longleftrightarrow> (\<forall>n \<in> free_nums Inodes st. \<exists>inode.
     Inode_Global_Read (fs_file st) (Super_constants st) n = Some inode \<and>
     (\<forall>k < 128. \<not> is_meta (fs_file st) (Super_constants st) (inode + k)) \<and> disj_range inode 128 parent 128 \<and>
     (\<forall>b \<in> set es. disj_range (blk_at st b) (bsize (Super_constants st)) inode 128))"

lemma slack_frame:
  assumes "dchain fs a limit ds" and "same_on a limit fs fs'" and "e \<in> set ds"
  shows "slack fs' e = slack fs e"
  using assms
proof (induction ds arbitrary: a)
  case (Cons d ds)
  then have d: "d = a" "get_padded_size fs a \<le> unat (e_len fs a)" "a + unat (e_len fs a) \<le> limit" by auto
  show ?case
  proof (cases "e = d")
    case True
    have "same_on a (a + 8 + unat (e_name_len fs a)) fs fs'"
      using d padded_size_ge [of fs a] by (intro same_on_sub [OF Cons.prems(2)]) auto
    from entry_frame [OF this] True d(1) show ?thesis by (simp add: slack_def)
  next
    case False
    then show ?thesis using Cons.IH [of "a + unat (e_len fs a)"] Cons.prems same_on_sub [OF Cons.prems(2)] by simp
  qed
qed simp

lemma block_room_frame:
  assumes "block_room fs a sz n" and "same_on a (a + sz) fs fs'"
  shows "block_room fs' a sz n"
  using assms dchain_frame [OF _ assms(2)] slack_frame [OF _ assms(2)] unfolding block_room_def by metis

lemma roomy_dirD:
  assumes "roomy_dir st parent name es cs"
  shows "0 < ptrs_per_block (Super_constants st)" "dir_holds st es cs" "apart st es" "set es \<subseteq> valid_nums Blocks st"
    "\<exists>b \<in> set es. block_room (fs_file st) (blk_at st b) (bsize (Super_constants st)) (length name)"
    "\<forall>k < 128. \<not> is_meta (fs_file st) (Super_constants st) (parent + k)"
    "\<forall>b \<in> set es. disj_range (blk_at st b) (bsize (Super_constants st)) parent 128"
    "Size_In_Blocks (Super_constants st) (ld32 st (parent + inode_off I_size)) \<le> 12"
    "map_option data_blocks (Inode_Get_Data_Adressess (fs_file st) (Super_constants st) parent (ld32 st (parent + inode_off I_size))) = Some es"
    "Size_In_Blocks (Super_constants st) (ld32 st (parent + inode_off I_blocks) * 512) \<le> 12"
    "map_option data_blocks (Inode_Get_Data_Adressess (fs_file st) (Super_constants st) parent (ld32 st (parent + inode_off I_blocks) * 512)) = Some es"
  using assms unfolding roomy_dir_def by blast+

lemma directory_blocks_frame:
  assumes "roomy_dir st parent name es cs" and "Super_constants st' = Super_constants st"
    and same: "\<forall>x. \<not> disj_range parent 128 x 1 \<longrightarrow> fs_file st' x = fs_file st x"
  shows "map_option data_blocks (Inode_Get_Data_Adressess (fs_file st') (Super_constants st) parent (ld32 st' (parent + inode_off I_size))) = Some es"
    "map_option data_blocks (Inode_Get_Data_Adressess (fs_file st') (Super_constants st) parent (ld32 st' (parent + inode_off I_blocks) * 512)) = Some es"
    "ld32 st' (parent + inode_off I_size) = ld32 st (parent + inode_off I_size)"
    "ld32 st' (parent + inode_off I_blocks) = ld32 st (parent + inode_off I_blocks)"
proof -
  note d = roomy_dirD [OF assms(1)]
  have l: "ld32 st' (parent + k) = ld32 st (parent + k)" if "k + 4 \<le> 128" for k
    unfolding ld32_def using that by (intro load32_eqI same [rule_format]) (simp add: disj_range_def)
  from l [of 4] l [of 28] show z: "ld32 st' (parent + inode_off I_size) = ld32 st (parent + inode_off I_size)"
    "ld32 st' (parent + inode_off I_blocks) = ld32 st (parent + inode_off I_blocks)" by simp_all
  show "map_option data_blocks (Inode_Get_Data_Adressess (fs_file st') (Super_constants st) parent (ld32 st' (parent + inode_off I_size))) = Some es"
    "map_option data_blocks (Inode_Get_Data_Adressess (fs_file st') (Super_constants st) parent (ld32 st' (parent + inode_off I_blocks) * 512)) = Some es"
    unfolding z using d(9,11) direct_addresses_frame [OF d(1,8) same] direct_addresses_frame [OF d(1,10) same] by simp_all
qed

lemma not_meta_range:
  assumes "\<forall>k < 128. \<not> is_meta fs sc (inode + k)" and "\<not> disj_range inode 128 x 1"
  shows "\<not> is_meta fs sc x"
proof -
  have "x - inode < 128" "inode + (x - inode) = x" using assms(2) by (auto simp: disj_range_def)
  then show ?thesis using assms(1) by metis
qed

lemma roomy_dir_frame:
  assumes d: "roomy_dir st parent name es cs" and sc: "Super_constants st' = Super_constants st"
    and same: "\<forall>x. \<not> is_meta (fs_file st) (Super_constants st) x \<longrightarrow> fs_file st' x = fs_file st x"
    and meta: "is_meta (fs_file st') (Super_constants st) = is_meta (fs_file st) (Super_constants st)"
    and "valid_nums Blocks st' = valid_nums Blocks st"
  shows "roomy_dir st' parent name es cs"
proof -
  note r = roomy_dirD [OF d]
  have "\<forall>x. \<not> disj_range parent 128 x 1 \<longrightarrow> fs_file st' x = fs_file st x" using same not_meta_range [OF r(6)] by blast
  note f = directory_blocks_frame [OF d sc this]
  have b: "blk_at st' = blk_at st" by (simp add: blk_at_def sc fun_eq_iff)
  have in_es: "fs_file st' x = fs_file st x" if "b \<in> set es" "in_block (Super_constants st) b x" for b x
    using same valid_not_meta [of b st x] that r(4) by blast
  then have "dir_holds st' es cs" by (intro dir_holds_blocks [OF r(2) sc]) blast
  moreover have "\<exists>b \<in> set es. block_room (fs_file st') (blk_at st b) (bsize (Super_constants st)) (length name)"
  proof -
    obtain c where c: "c \<in> set es" "block_room (fs_file st) (blk_at st c) (bsize (Super_constants st)) (length name)" using r(5) by blast
    have "same_on (blk_at st c) (blk_at st c + bsize (Super_constants st)) (fs_file st) (fs_file st')"
      using in_es [OF c(1)] by (auto simp: same_on_def in_block_def blk_at_def)
    from block_room_frame [OF c(2) this] c(1) show ?thesis by blast
  qed
  ultimately show ?thesis
    unfolding roomy_dir_def using f r assms(5) by (simp add: sc b meta apart_def)
qed

lemma link_entry:
  fixes st :: "'c server"
  defines "sc \<equiv> Super_constants st"
  assumes ok: "srv_ok st" and d: "roomy_dir st parent name es cs" and nm: "0 < length name" "length name < 256"
  shows "\<exists>fs' cs'. attach_entry st parent (create_entry name n) = Some (True, st\<lparr>fs_file := fs'\<rparr>) \<and> srv_ok (st\<lparr>fs_file := fs'\<rparr>) \<and>
    (\<forall>K. free_nums K (st\<lparr>fs_file := fs'\<rparr>) = free_nums K st) \<and> same_words sc (fs_file st) fs' \<and>
    dir_holds (st\<lparr>fs_file := fs'\<rparr>) es cs' \<and> inserted (n, bytes_of_string name) (concat cs) (concat cs') \<and>
    (\<forall>x. (\<forall>b \<in> set es. \<not> in_block sc b x) \<longrightarrow> fs' x = fs_file st x)"
proof -
  note r = roomy_dirD [OF d]
  have ne: "new_entry_ok (create_entry name n) (length name)" "inode_number (create_entry name n) = n"
    "file_name (create_entry name n) = bytes_of_string name"
    using nm by (simp_all add: new_entry_ok_def create_entry_def sizeof_entry_def)
  obtain fs' cs' where a: "attach_in_blocks st es (create_entry name n) = Some (True, st\<lparr>fs_file := fs'\<rparr>)"
    "dir_holds (st\<lparr>fs_file := fs'\<rparr>) es cs'" "inserted (n, bytes_of_string name) (concat cs) (concat cs')" "same_off_blocks st es fs'"
    using attach_blocks_chain [OF ne(1) r(2,3) refl] r(5) ne(2,3) by (auto simp: bsize_def)
  have run: "attach_entry st parent (create_entry name n) = Some (True, st\<lparr>fs_file := fs'\<rparr>)"
    using r(11) a(1) by (subst attach_entry.simps) (auto simp: sc_def)
  have out: "fs' x = fs_file st x" if "\<forall>b \<in> set es. \<not> in_block sc b x" for x
    using a(4) that unfolding same_off_blocks_def Let_def by (auto simp: in_block_def sc_def blk_at_def bsize_def not_le not_less)
  have m: "fs' x = fs_file st x" if "is_meta (fs_file st) (Super_constants st) x" for x
    using that r(4) valid_not_meta [of _ st x] by (intro out) (auto simp: sc_def)
  have "layout (fs_file st) (Super_constants st)" using ok fs_okD(1) by (auto simp: srv_ok_def)
  note nonmeta_change(1) [OF this m]
  with run srv_ok_nonmeta(1,2) [OF ok m] a(2,3) out show ?thesis unfolding sc_def by blast
qed

section \<open>The inode\<close>

lemma init_inode_fields:
  "load32 (init_inode fs a b l m z) (a + inode_off I_size) = z" "load16 (init_inode fs a b l m z) (a + inode_off I_mode) = m"
  "load16 (init_inode fs a b l m z) (a + inode_off I_links_count) = l"
  by (auto simp: init_inode_def mem_simps store32s_outside disj_range_def load_frames)

lemma make_inode:
  fixes st :: "'c server" and inode :: nat and mode :: u32
  defines "st' \<equiv> setFileInode st inode mode"
  assumes ok: "srv_ok st" and meta: "\<forall>k < 128. \<not> is_meta (fs_file st) (Super_constants st) (inode + k)"
  shows "srv_ok st'" "free_nums K st' = free_nums K st" "same_words (Super_constants st) (fs_file st) (fs_file st')"
    "stat_at st' inode n = \<lparr>rs_inode_number = n, rs_mode = ucast (mode OR EXT2_IFREG), rs_size = 0, rs_links_count = 1\<rparr>"
    "file_blocks st' inode = []" "disj_range inode 128 x 1 \<Longrightarrow> fs_file st' x = fs_file st x" "Super_constants st' = Super_constants st"
proof -
  let ?fs' = "init_inode (fs_file st) inode 0 1 (ucast (mode OR EXT2_IFREG)) 0"
  have st': "st' = st\<lparr>fs_file := ?fs'\<rparr>" by (simp add: st'_def setFileInode_def)
  show "srv_ok st'" "free_nums K st' = free_nums K st"
    unfolding st' using inode_write(1,2) [OF ok meta, of ?fs'] init_inode_outside by blast+
  show "disj_range inode 128 x 1 \<Longrightarrow> fs_file st' x = fs_file st x" by (simp add: st' init_inode_outside)
  have m: "?fs' x = fs_file st x" if "is_meta (fs_file st) (Super_constants st) x" for x
    using not_meta_range [OF meta, of x] that by (intro init_inode_outside) blast
  have "layout (fs_file st) (Super_constants st)" using ok fs_okD(1) by (auto simp: srv_ok_def)
  from nonmeta_change(1) [OF this m] show "same_words (Super_constants st) (fs_file st) (fs_file st')" by (simp add: st')
  note f = init_inode_fields [of "fs_file st" inode 0 1 "ucast (mode OR EXT2_IFREG)" 0]
  have z: "ld32 st' (inode + inode_off I_size) = 0" using f(1) by (simp add: st' ld32_def)
  then show "stat_at st' inode n = \<lparr>rs_inode_number = n, rs_mode = ucast (mode OR EXT2_IFREG), rs_size = 0, rs_links_count = 1\<rparr>"
    using f(2,3) by (simp add: stat_at_def st' ld16_def)
  show "file_blocks st' inode = []" unfolding file_blocks_def z by (simp add: Size_In_Blocks_def)
  show "Super_constants st' = Super_constants st" by (simp add: st')
qed

section \<open>The name\<close>

lemma lookup_snoc:
  "ds \<noteq> [] \<Longrightarrow> lookup st (ds @ [c]) es = do {
     r \<leftarrow> lookup st ds es;
     case r of None \<Rightarrow> Some None
     | Some i \<Rightarrow> do { dir \<leftarrow> Inode_Global_Read (fs_file st) (Super_constants st) i; e \<leftarrow> read_directory st dir; lookup st [c] e } }"
proof (induction ds arbitrary: es)
  case (Cons d ds)
  show ?case
  proof (cases es)
    case (Some entries)
    then show ?thesis
      using Cons.IH by (cases "ds = []") (auto split: option.splits bind_splits)
  qed simp
qed simp

lemma resolve_snoc:
  assumes "resolve st ds = Some (Some parent, m, False)"
  shows "resolve st (ds @ [c]) = do {
    e \<leftarrow> read_directory st parent;
    r \<leftarrow> lookup st [c] e;
    let inode = (case r of None \<Rightarrow> 0 | Some i \<Rightarrow> i);
    Some (if inode > 0 then Inode_Global_Read (fs_file st) (Super_constants st) inode else None, inode, r = None) }"
proof (cases "ds = []")
  case True
  then show ?thesis using assms by (simp add: resolve_def)
next
  case False
  then obtain root es i where r: "Inode_Global_Read (fs_file st) (Super_constants st) ROOT_INODE_NUMBER = Some root"
    "read_directory st root = Some es" "lookup st ds es = Some (Some i)" "Inode_Global_Read (fs_file st) (Super_constants st) i = Some parent"
    using assms by (auto simp: resolve_def Let_def split: bind_splits option.splits if_splits)
  then show ?thesis using False by (simp add: resolve_def lookup_snoc)
qed

lemma inserted_set: "inserted new xs ys \<Longrightarrow> new \<in> set ys \<and> set ys \<subseteq> insert new (set xs)"
  by (induction rule: inserted.induct) auto

lemma lookup_new_name:
  assumes "map (entry_of (fs_file st)) entries = filter (\<lambda>x. fst x \<noteq> 0) (concat cs')"
    and "inserted (n, bytes_of_string c) (concat cs) (concat cs')" and "n \<noteq> 0"
    and "\<forall>x \<in> set (concat cs). fst x \<noteq> 0 \<longrightarrow> snd x \<noteq> bytes_of_string c"
  shows "lookup st [c] (Some entries) = Some (Some n)"
proof -
  let ?P = "\<lambda>e. entry_matches (fs_file st) e c"
  have s: "entry_of (fs_file st) ` set entries = {x \<in> set (concat cs'). fst x \<noteq> 0}" using assms(1) by (metis set_filter set_map)
  have only: "entry_of (fs_file st) e = (n, bytes_of_string c)" if e: "e \<in> set entries" "?P e" for e
  proof -
    have "entry_of (fs_file st) e \<in> {x \<in> set (concat cs'). fst x \<noteq> 0}" using e(1) s by blast
    then show ?thesis using inserted_set [OF assms(2)] assms(4) e(2) unfolding matches_entry by blast
  qed
  have "(n, bytes_of_string c) \<in> entry_of (fs_file st) ` set entries" using s inserted_set [OF assms(2)] assms(3) by simp
  then obtain e where "e \<in> set entries" "?P e" by (auto simp: matches_entry) (metis snd_conv)
  then obtain e' where "List.find ?P entries = Some e'" "e' \<in> set entries" "?P e'"
    by (cases "List.find ?P entries") (auto simp: find_None_iff find_Some_iff)
  with only show ?thesis by (auto simp: entry_of_def)
qed

lemma missing_name:
  assumes "resolve st ds = Some (Some parent, m, False)" and "resolve st (ds @ [c]) = Some (None, 0, True)"
    and "read_directory st parent = Some (Some entries)" and "map (entry_of (fs_file st)) entries = filter (\<lambda>x. fst x \<noteq> 0) (concat cs)"
  shows "\<forall>x \<in> set (concat cs). fst x \<noteq> 0 \<longrightarrow> snd x \<noteq> bytes_of_string c"
proof -
  have s: "entry_of (fs_file st) ` set entries = {x \<in> set (concat cs). fst x \<noteq> 0}" using assms(4) by (metis set_filter set_map)
  have "List.find (\<lambda>e. entry_matches (fs_file st) e c) entries = None"
    using assms(2,3) resolve_snoc [OF assms(1), of c] by (auto simp: Let_def split: bind_splits option.splits)
  then have "\<forall>e \<in> set entries. snd (entry_of (fs_file st) e) \<noteq> bytes_of_string c" by (auto simp: find_None_iff matches_entry)
  then show ?thesis using s by (metis (mono_tags, lifting) image_iff mem_Collect_eq)
qed

section \<open>A root directory that stays as it is\<close>

text \<open>
  A byte that creating an entry in the blocks \<open>es\<close> does not write: no bitmap or counter, outside \<open>es\<close>,
  the free inodes and the free blocks.
\<close>

definition kept :: "'c server \<Rightarrow> u32 list \<Rightarrow> nat \<Rightarrow> bool" where
  "kept st es x \<longleftrightarrow> (let sc = Super_constants st; fs = fs_file st in \<not> is_meta fs sc x \<and> (\<forall>b \<in> set es. \<not> in_block sc b x) \<and>
     (\<forall>b \<in> free_nums Blocks st. \<not> in_block sc b x) \<and>
     (\<forall>n \<in> free_nums Inodes st. \<forall>inode. Inode_Global_Read fs sc n = Some inode \<longrightarrow> disj_range inode 128 x 1))"

text \<open>A well-formed root directory without index blocks, away from the directory with the blocks \<open>es\<close>.\<close>

definition root_apart :: "'c server \<Rightarrow> u32 list \<Rightarrow> bool" where
  "root_apart st es \<longleftrightarrow> (\<exists>root rs rcs. let sc = Super_constants st; fs = fs_file st; z = ld32 st (root + inode_off I_size) in
     Inode_Global_Read fs sc ROOT_INODE_NUMBER = Some root \<and> Size_In_Blocks sc z \<le> 12 \<and>
     map_option data_blocks (Inode_Get_Data_Adressess fs sc root z) = Some rs \<and> dir_holds st rs rcs \<and>
     (\<forall>x. \<not> disj_range root 128 x 1 \<longrightarrow> kept st es x) \<and> (\<forall>b \<in> set rs. \<forall>x. in_block sc b x \<longrightarrow> kept st es x))"

lemma block_entries_frame:
  assumes "dchain fs a limit es" and "same_on a limit fs fs'"
  shows "block_entries fs' a limit = block_entries fs a limit" "e \<in> set es \<Longrightarrow> entry_of fs' e = entry_of fs e"
proof -
  note f = dchain_frame [OF assms]
  then show same: "entry_of fs' e = entry_of fs e" if "e \<in> set es" for e using that by (simp add: map_eq_conv)
  have "e_inode fs' e = e_inode fs e" if "e \<in> set es" for e using same [OF that] by (simp add: entry_of_def)
  then show "block_entries fs' a limit = block_entries fs a limit"
    using f block_entries_chain [OF assms(1)] block_entries_chain [of fs' a limit es] by (simp cong: filter_cong)
qed

lemma those_mem: "those xs = Some ys \<Longrightarrow> y \<in> set ys \<Longrightarrow> Some y \<in> set xs"
  by (induction xs arbitrary: ys) (auto split: option.splits)

lemma root_directory_frame:
  fixes st st' :: "'c server"
  defines "sc \<equiv> Super_constants st"
  assumes root: "root_apart st es" and p: "0 < ptrs_per_block sc" and sc: "Super_constants st' = sc"
    and w: "same_words sc (fs_file st) (fs_file st')" and same: "\<forall>x. kept st es x \<longrightarrow> fs_file st' x = fs_file st x"
  shows "resolve st' [d] = resolve st [d]"
proof -
  obtain root rs rcs where r: "Inode_Global_Read (fs_file st) sc ROOT_INODE_NUMBER = Some root"
    "Size_In_Blocks sc (ld32 st (root + inode_off I_size)) \<le> 12"
    "map_option data_blocks (Inode_Get_Data_Adressess (fs_file st) sc root (ld32 st (root + inode_off I_size))) = Some rs"
    "dir_holds st rs rcs" "\<forall>x. \<not> disj_range root 128 x 1 \<longrightarrow> kept st es x" "\<forall>b \<in> set rs. \<forall>x. in_block sc b x \<longrightarrow> kept st es x"
    using root unfolding root_apart_def Let_def sc_def by blast
  have out: "\<forall>x. \<not> disj_range root 128 x 1 \<longrightarrow> fs_file st' x = fs_file st x" using r(5) same by blast
  have z: "ld32 st' (root + inode_off I_size) = ld32 st (root + inode_off I_size)"
    unfolding ld32_def by (intro load32_eqI out [rule_format]) (simp add: disj_range_def)
  have b: "blk_at st' = blk_at st" by (simp add: blk_at_def sc sc_def fun_eq_iff)
  have blk: "\<exists>es. dchain (fs_file st) (blk_at st b) (blk_at st b + bsize sc) es \<and>
      same_on (blk_at st b) (blk_at st b + bsize sc) (fs_file st) (fs_file st')" if "b \<in> set rs" for b
  proof -
    obtain i where i: "i < length rs" "b = rs ! i" using \<open>b \<in> set rs\<close> by (auto simp: in_set_conv_nth)
    from list_all2_nthD [OF r(4) [unfolded dir_holds_def] i(1)] have
      "block_holds (fs_file st) (blk_at st b) (unat (BLOCK_SIZE (Super_constants st))) (rcs ! i)" by (simp add: i(2))
    moreover have "same_on (blk_at st b) (blk_at st b + bsize sc) (fs_file st) (fs_file st')"
      using r(6) same that by (auto simp: same_on_def in_block_def blk_at_def sc_def)
    ultimately show ?thesis by (auto simp: block_holds_def bsize_def sc_def)
  qed
  let ?e = "\<lambda>s b. block_entries (fs_file s) (blk_at st b) (blk_at st b + bsize sc)"
  have e: "?e st' b = ?e st b" if "b \<in> set rs" for b using blk [OF that] block_entries_frame(1) by blast
  have run: "read_directory s root = (case those (map (?e s) rs) of None \<Rightarrow> None | Some ess \<Rightarrow> Some (Some (concat ess)))"
    if "s = st \<or> s = st'" for s
    using that direct_addresses_frame [OF p r(2) out] r(3) z
    by (auto simp: read_directory_def sc b sc_def bsize_def split: option.splits)
  have "map (?e st') rs = map (?e st) rs" using e by simp
  then have dir: "read_directory st' root = read_directory st root"
    unfolding run [OF disjI1, OF refl] run [OF disjI2, OF refl] by (rule arg_cong)
  have same_entry: "entry_of (fs_file st') e = entry_of (fs_file st) e"
    if "read_directory st root = Some (Some entries)" "e \<in> set entries" for e entries
  proof -
    obtain ess where ess: "those (map (?e st) rs) = Some ess" "entries = concat ess"
      using \<open>read_directory st root = _\<close> unfolding run [OF disjI1, OF refl] by (auto split: option.splits)
    with \<open>e \<in> set entries\<close> obtain l where "l \<in> set ess" "e \<in> set l" by auto
    with those_mem [OF ess(1)] obtain b where bl: "b \<in> set rs" "?e st b = Some l" "e \<in> set l" by force
    with blk obtain es' where "dchain (fs_file st) (blk_at st b) (blk_at st b + bsize sc) es'"
      "same_on (blk_at st b) (blk_at st b + bsize sc) (fs_file st) (fs_file st')" by blast
    with bl block_entries_chain block_entries_frame(2) show ?thesis by fastforce
  qed
  have "lookup st' [d] (Some entries) = lookup st [d] (Some entries)" if "read_directory st root = Some (Some entries)" for entries
  proof -
    have "List.find (\<lambda>e. entry_matches (fs_file st') e d) entries = List.find (\<lambda>e. entry_matches (fs_file st) e d) entries"
      using same_entry [OF that] by (intro find_cong refl) (simp add: matches_entry)
    moreover have "e_inode (fs_file st') e = e_inode (fs_file st) e" if "List.find P entries = Some e" for P e
    proof -
      have "e \<in> set entries" using that by (auto simp: find_Some_iff)
      from same_entry [OF \<open>read_directory st root = Some (Some entries)\<close> this] show ?thesis by (simp add: entry_of_def)
    qed
    ultimately show ?thesis by (auto split: option.splits)
  qed
  moreover have "lookup s [d] None = None" for s :: "'c server" by simp
  ultimately have l: "lookup st' [d] es = lookup st [d] es" if "read_directory st root = Some es" for es
    using that by (cases es) (simp_all del: lookup.simps)
  have inode: "Inode_Global_Read (fs_file st') (Super_constants st') = Inode_Global_Read (fs_file st) (Super_constants st)"
    using inode_address_frame [OF w] by (simp add: sc sc_def fun_eq_iff)
  show ?thesis
    using l dir r(1) unfolding resolve_def inode sc_def
    by (cases "read_directory st root") (simp_all del: lookup.simps)
qed

section \<open>The operation on the image\<close>

definition same_image :: "'c server \<Rightarrow> 'c server \<Rightarrow> bool" where
  "same_image a b \<longleftrightarrow> fs_file a = fs_file b \<and> Super_constants a = Super_constants b \<and> super_set a = super_set b \<and> heap_after a = heap_after b"

lemma same_image_facts:
  assumes "same_image a b"
  shows "srv_ok a = srv_ok b" "free_nums K a = free_nums K b" "valid_nums K a = valid_nums K b" "blk_at a = blk_at b"
    "dir_holds a = dir_holds b" "file_blocks a = file_blocks b" "stat_at a = stat_at b" "read_directory a = read_directory b"
    "lookup a = lookup b" "resolve a = resolve b" "roomy_dir a = roomy_dir b" "free_inodes_apart a = free_inodes_apart b"
    "kept a = kept b"
proof -
  have e: "fs_file a = fs_file b" "Super_constants a = Super_constants b" "super_set a = super_set b" "heap_after a = heap_after b"
    using assms by (simp_all add: same_image_def)
  show s: "srv_ok a = srv_ok b" and f: "free_nums K a = free_nums K b" and v: "valid_nums K a = valid_nums K b" for K
    by (simp_all add: srv_ok_def free_nums_def valid_nums_def e)
  show b: "blk_at a = blk_at b" by (simp add: blk_at_def e fun_eq_iff)
  show dh: "dir_holds a = dir_holds b" by (simp add: dir_holds_def b e fun_eq_iff)
  show "file_blocks a = file_blocks b" by (simp add: file_blocks_def ld32_def e fun_eq_iff)
  show "stat_at a = stat_at b" by (simp add: stat_at_def ld32_def ld16_def e fun_eq_iff)
  show r: "read_directory a = read_directory b" by (intro ext) (simp only: read_directory_def ld32_def b e)
  have "lookup a cs = lookup b cs" for cs
    by (induction cs) (simp, intro ext, simp only: lookup.simps e r)
  then show l: "lookup a = lookup b" by (simp add: fun_eq_iff)
  show "resolve a = resolve b" unfolding resolve_def e r l by simp
  show "roomy_dir a = roomy_dir b" by (simp add: roomy_dir_def apart_def ld32_def dh b v e fun_eq_iff)
  show "free_inodes_apart a = free_inodes_apart b" by (simp add: free_inodes_apart_def f b e fun_eq_iff)
  show "kept a = kept b" by (simp add: kept_def f e fun_eq_iff)
qed

text \<open>From \<open>st\<close> to \<open>st'\<close> the empty file \<open>name\<close> with number \<open>n\<close> and inode at \<open>inode\<close> came into the directory.\<close>

definition file_created ::
  "'c server \<Rightarrow> 'c server \<Rightarrow> u32 list \<Rightarrow> contents list \<Rightarrow> string \<Rightarrow> u32 \<Rightarrow> u32 \<Rightarrow> nat \<Rightarrow> bool" where
  "file_created st st' es cs name mode n inode \<longleftrightarrow> srv_ok st' \<and>
     n \<in> free_nums Inodes st \<and> free_nums Inodes st' = free_nums Inodes st - {n} \<and> free_nums Blocks st' = free_nums Blocks st \<and>
     Inode_Global_Read (fs_file st) (Super_constants st) n = Some inode \<and> Inode_Global_Read (fs_file st') (Super_constants st') n = Some inode \<and>
     stat_at st' inode n = \<lparr>rs_inode_number = n, rs_mode = ucast (mode OR EXT2_IFREG), rs_size = 0, rs_links_count = 1\<rparr> \<and>
     file_blocks st' inode = [] \<and>
     (\<exists>cs'. dir_holds st' es cs' \<and> inserted (n, bytes_of_string name) (concat cs) (concat cs'))"

lemma file_created_image:
  assumes "same_image s st" and "same_image s' st'"
  shows "file_created s s' = file_created st st'"
  using assms by (simp add: file_created_def same_image_facts [OF assms(1)] same_image_facts [OF assms(2)] fun_eq_iff)
    (simp add: same_image_def)

lemma new_entry_image:
  fixes st :: "'c server"
  defines "sc \<equiv> Super_constants st"
  assumes ok: "srv_ok st" and free: "free_nums Inodes st \<noteq> {}" and d: "roomy_dir st parent name es cs"
    and apart: "free_inodes_apart st parent es" and nm: "0 < length name" "length name < 256"
  shows "\<exists>n inode fs1 fs2 cs'. let s2 = st\<lparr>fs_file := fs2\<rparr> in
    Get_Free_Inodes st 1 = Some (Some [n], st\<lparr>fs_file := fs1\<rparr>) \<and>
    attach_entry (st\<lparr>fs_file := fs1, active_file_list := k\<rparr>) parent (create_entry name n) = Some (True, st\<lparr>fs_file := fs2, active_file_list := k\<rparr>) \<and>
    n \<noteq> 0 \<and> n \<in> free_nums Inodes st \<and> srv_ok s2 \<and> free_nums Inodes s2 = free_nums Inodes st - {n} \<and> free_nums Blocks s2 = free_nums Blocks st \<and>
    same_words sc (fs_file st) fs2 \<and> dir_holds s2 es cs' \<and> inserted (n, bytes_of_string name) (concat cs) (concat cs') \<and>
    Inode_Global_Read (fs_file st) sc n = Some inode \<and> (\<forall>k < 128. \<not> is_meta (fs_file st) sc (inode + k)) \<and>
    disj_range inode 128 parent 128 \<and> (\<forall>b \<in> set es. disj_range (blk_at st b) (bsize sc) inode 128) \<and>
    (\<forall>x. \<not> disj_range parent 128 x 1 \<or> kept st es x \<longrightarrow> fs2 x = fs_file st x)"
proof -
  obtain n fs1 where g: "Get_Free_Inodes st 1 = Some (Some [n], st\<lparr>fs_file := fs1\<rparr>)" "srv_ok (st\<lparr>fs_file := fs1\<rparr>)" "n \<in> free_nums Inodes st"
    "n \<noteq> 0" "free_nums Inodes (st\<lparr>fs_file := fs1\<rparr>) = free_nums Inodes st - {n}" "free_nums Blocks (st\<lparr>fs_file := fs1\<rparr>) = free_nums Blocks st"
    "\<forall>K. valid_nums K (st\<lparr>fs_file := fs1\<rparr>) = valid_nums K st" "same_words sc (fs_file st) fs1"
    "\<forall>x. \<not> is_meta (fs_file st) sc x \<longrightarrow> fs1 x = fs_file st x"
    using get_inode [OF ok free] unfolding sc_def by blast
  define s where "s = st\<lparr>fs_file := fs1, active_file_list := k\<rparr>"
  have s: "same_image s (st\<lparr>fs_file := fs1\<rparr>)" by (simp add: s_def same_image_def)
  have "roomy_dir (st\<lparr>fs_file := fs1\<rparr>) parent name es cs"
    using g(7-9) same_words_meta [OF g(8)] by (intro roomy_dir_frame [OF d]) (simp_all add: sc_def)
  then have ds: "srv_ok s" "roomy_dir s parent name es cs" using g(2) by (simp_all add: same_image_facts [OF s])
  obtain fs2 cs' where a: "attach_entry s parent (create_entry name n) = Some (True, s\<lparr>fs_file := fs2\<rparr>)" "srv_ok (s\<lparr>fs_file := fs2\<rparr>)"
    "\<forall>K. free_nums K (s\<lparr>fs_file := fs2\<rparr>) = free_nums K s" "same_words sc fs1 fs2" "dir_holds (s\<lparr>fs_file := fs2\<rparr>) es cs'"
    "inserted (n, bytes_of_string name) (concat cs) (concat cs')" "\<forall>x. (\<forall>b \<in> set es. \<not> in_block sc b x) \<longrightarrow> fs2 x = fs1 x"
    using link_entry [OF ds nm, of n] by (auto simp: s_def sc_def)
  obtain inode where i: "Inode_Global_Read (fs_file st) sc n = Some inode" "\<forall>k < 128. \<not> is_meta (fs_file st) sc (inode + k)"
    "disj_range inode 128 parent 128" "\<forall>b \<in> set es. disj_range (blk_at st b) (bsize sc) inode 128"
    using apart g(3) unfolding free_inodes_apart_def sc_def by blast
  define s2 where "s2 = st\<lparr>fs_file := fs2\<rparr>"
  have s2: "same_image (s\<lparr>fs_file := fs2\<rparr>) s2" by (simp add: s_def s2_def same_image_def)
  note q = same_image_facts [OF s2] same_image_facts [OF s]
  have "fs2 x = fs_file st x" if x: "\<not> disj_range parent 128 x 1" for x
  proof -
    have "\<forall>b \<in> set es. \<not> in_block sc b x"
      using roomy_dirD(7) [OF d] x by (fastforce simp: disj_range_def in_block_def blk_at_def sc_def)
    then have "fs2 x = fs1 x" using a(7) by blast
    also have "fs1 x = fs_file st x" using g(9) not_meta_range [OF roomy_dirD(6) [OF d] x] by (simp add: sc_def)
    finally show ?thesis .
  qed
  moreover have "fs2 x = fs_file st x" if "kept st es x" for x
    using a(7) g(9) that by (auto simp: kept_def Let_def sc_def)
  moreover have "srv_ok s2" "free_nums Inodes s2 = free_nums Inodes st - {n}" "free_nums Blocks s2 = free_nums Blocks st" "dir_holds s2 es cs'"
    using a(2,3,5) g(5,6) q by simp_all
  moreover have "attach_entry (st\<lparr>fs_file := fs1, active_file_list := k\<rparr>) parent (create_entry name n) = Some (True, st\<lparr>fs_file := fs2, active_file_list := k\<rparr>)"
    using a(1) by (simp add: s_def)
  moreover note same_words_trans [OF g(8) a(4)]
  ultimately show ?thesis using g(1,3,4) a(6) i unfolding Let_def s2_def by blast
qed

lemma new_file_image:
  fixes st :: "'c server" and mode :: u32
  defines "sc \<equiv> Super_constants st"
  assumes ok: "srv_ok st" and free: "free_nums Inodes st \<noteq> {}" and d: "roomy_dir st parent name es cs"
    and apart: "free_inodes_apart st parent es" and nm: "0 < length name" "length name < 256"
  shows "\<exists>n inode fs1 fs2. let st' = setFileInode (st\<lparr>fs_file := fs2\<rparr>) inode mode in
    Get_Free_Inodes st 1 = Some (Some [n], st\<lparr>fs_file := fs1\<rparr>) \<and>
    attach_entry (st\<lparr>fs_file := fs1, active_file_list := k\<rparr>) parent (create_entry name n) = Some (True, st\<lparr>fs_file := fs2, active_file_list := k\<rparr>) \<and>
    Inode_Global_Read fs2 sc n = Some inode \<and> n \<noteq> 0 \<and> file_created st st' es cs name mode n inode \<and> same_words sc (fs_file st) (fs_file st') \<and>
    map_option data_blocks (Inode_Get_Data_Adressess (fs_file st') sc parent (ld32 st' (parent + inode_off I_size))) = Some es \<and>
    (\<forall>x. kept st es x \<longrightarrow> fs_file st' x = fs_file st x)"
proof -
  obtain n inode fs1 fs2 cs' where g: "Get_Free_Inodes st 1 = Some (Some [n], st\<lparr>fs_file := fs1\<rparr>)"
    "attach_entry (st\<lparr>fs_file := fs1, active_file_list := k\<rparr>) parent (create_entry name n) = Some (True, st\<lparr>fs_file := fs2, active_file_list := k\<rparr>)"
    "n \<noteq> 0" "n \<in> free_nums Inodes st" and a: "srv_ok (st\<lparr>fs_file := fs2\<rparr>)" "free_nums Inodes (st\<lparr>fs_file := fs2\<rparr>) = free_nums Inodes st - {n}"
    "free_nums Blocks (st\<lparr>fs_file := fs2\<rparr>) = free_nums Blocks st" "same_words sc (fs_file st) fs2"
    "dir_holds (st\<lparr>fs_file := fs2\<rparr>) es cs'" "inserted (n, bytes_of_string name) (concat cs) (concat cs')"
    "\<forall>x. \<not> disj_range parent 128 x 1 \<or> kept st es x \<longrightarrow> fs2 x = fs_file st x"
    and i: "Inode_Global_Read (fs_file st) sc n = Some inode" "\<forall>k < 128. \<not> is_meta (fs_file st) sc (inode + k)"
    "disj_range inode 128 parent 128" "\<forall>b \<in> set es. disj_range (blk_at st b) (bsize sc) inode 128"
    using new_entry_image [OF ok free d apart nm, of k] unfolding Let_def sc_def by blast
  define s2 where "s2 = st\<lparr>fs_file := fs2\<rparr>"
  define st' where "st' = setFileInode s2 inode mode"
  have "srv_ok s2" "\<forall>k < 128. \<not> is_meta (fs_file s2) (Super_constants s2) (inode + k)"
    using a(1) i(2) same_words_meta [OF a(4)] by (simp_all add: s2_def sc_def)
  note m = make_inode [OF this, where mode = mode, folded st'_def]
  have sc': "Super_constants st' = sc" "Super_constants s2 = sc" using m(7) by (simp_all add: s2_def sc_def)
  have w: "same_words sc (fs_file st) (fs_file st')" using same_words_trans [OF a(4)] m(3) by (simp add: s2_def sc_def)
  have "dir_holds st' es cs'"
  proof (rule dir_holds_blocks)
    show "dir_holds s2 es cs'" using a(5) by (simp add: s2_def)
    show "\<forall>b \<in> set es. \<forall>x. in_block (Super_constants s2) b x \<longrightarrow> fs_file st' x = fs_file s2 x"
      using i(4) by (intro ballI allI impI m(6)) (fastforce simp: disj_range_def in_block_def blk_at_def sc_def s2_def)
  qed (simp add: sc')
  moreover have "free_nums Inodes st' = free_nums Inodes st - {n}" "free_nums Blocks st' = free_nums Blocks st" "srv_ok st'"
    using m(1,2) a(2,3) by (simp_all add: s2_def)
  ultimately have "file_created st st' es cs name mode n inode"
    unfolding file_created_def using m(4,5) a(6) g(4) i(1) inode_address_frame [OF w] sc' by (auto simp: sc_def)
  moreover have "\<forall>x. \<not> disj_range parent 128 x 1 \<longrightarrow> fs_file st' x = fs_file st x"
  proof (intro allI impI)
    fix x assume x: "\<not> disj_range parent 128 x 1"
    have "fs_file st' x = fs2 x" using m(6) [of x] i(3) x by (auto simp: s2_def disj_range_def)
    then show "fs_file st' x = fs_file st x" using a(7) x by simp
  qed
  from directory_blocks_frame(1) [OF d _ this] have
    "map_option data_blocks (Inode_Get_Data_Adressess (fs_file st') sc parent (ld32 st' (parent + inode_off I_size))) = Some es"
    using sc' by (simp add: sc_def)
  moreover have "fs_file st' x = fs_file st x" if x: "kept st es x" for x
  proof -
    have "disj_range inode 128 x 1" using x g(4) i(1) by (auto simp: kept_def Let_def sc_def)
    then have "fs_file st' x = fs2 x" using m(6) [of x] by (simp add: s2_def)
    then show ?thesis using a(7) x by simp
  qed
  moreover have "Inode_Global_Read fs2 sc n = Some inode" using inode_address_frame [OF a(4)] i(1) by simp
  ultimately show ?thesis
    using g w unfolding Let_def st'_def s2_def by (intro exI [of _ n] exI [of _ inode] exI [of _ fs1] exI [of _ fs2]) simp
qed

section \<open>The whole operation\<close>

lemma find_missing:
  fixes st :: "'c server"
  defines "T \<equiv> afl_tab (active_file_list st)" and "s0 \<equiv> st\<lparr>errno := 0\<rparr>"
  assumes "ready st cs" and "ready st ds" and "st_path cs \<noteq> st_path ds"
    and "resolve st cs = Some (None, n, True)" and "resolve st ds = Some (b, m, False)"
  shows "\<exists>l1 l2 l3 l4. st_find st (st_path cs) = Some (with_table st l1 False) \<and>
    inode_of_file (with_table st l1 False) (st_path cs) = Some (None, n, with_table st l2 True) \<and>
    st_find ((with_table st l2 True)\<lparr>errno := 0\<rparr>) (st_path ds) = Some (with_table s0 l3 False) \<and>
    inode_of_file (with_table s0 l3 False) (st_path ds) = Some (b, m, with_table s0 l4 False) \<and>
    afl_ok l4 \<and> afl_tab l4 = marks T {} {st_path cs, st_path ds}"
proof -
  obtain l1 l2 where f: "st_find st (st_path cs) = Some (with_table st l1 False)"
    "inode_of_file (with_table st l1 False) (st_path cs) = Some (None, n, with_table st l2 True)"
    "afl_ok l2" "afl_tab l2 = marks T {} {st_path cs}"
    using find_and_resolve [OF assms(3)] assms(6) by (auto simp: T_def)
  have "same_image s0 st" by (simp add: s0_def same_image_def)
  note r = same_image_facts(10) [OF this]
  have t: "afl_tab (active_file_list s0) = T" "ready s0 ds" "idle T" "bump (T (st_path cs)) \<noteq> 0"
    using assms(3,4) by (simp_all add: s0_def T_def ready_def)
  have e: "(with_table st l True)\<lparr>errno := 0\<rparr> = with_table s0 l False" for l by (simp add: with_table_def s0_def)
  have "resolve s0 ds = Some (b, m, False)" using assms(7) by (simp add: r)
  from find_second [of s0, unfolded t(1), OF t(3,2) assms(5) f(3,4) t(4) this]
  show ?thesis using f(1,2) unfolding e by blast
qed

lemma create_file_steps:
  assumes "p_path params = path" and "p_file params" and "st_find st path = Some s1" and "inode_of_file s1 path = Some (None, k, s2)"
    and "parent_path path = Some pdir" and "st_find (s2\<lparr>errno := 0\<rparr>) pdir = Some s3" and "inode_of_file s3 pdir = Some (Some parent, m, s4)"
    and "Get_Free_Inodes s4 1 = Some (Some [n], s5)" and "active_file_get_file_name path = Some name" and "st_lock WRLOCK s5 pdir = Some s6"
    and "attach_entry s6 parent (create_entry name n) = Some (True, s7)" and "Inode_Global_Read (fs_file s7) (Super_constants s7) n = Some inode"
    and "st_lock WRLOCK s7 path = Some s8" and "st_lock UNLOCK (setFileInode s8 inode (p_mode params)) path = Some s9"
    and "st_lock UNLOCK s9 pdir = Some s10" and "st_finished s10 path = Some s11" and "st_finished s11 pdir = Some s12"
  shows "create_file_dir params st = Some (new_result params (D_word 0), s12\<lparr>errno := 0\<rparr>)"
  using assms by (simp add: create_file_dir_def finish2_def Let_def)

lemma create_full:
  assumes "ready st (ds @ [c])" and "ready st ds" and "length ds \<le> 1" and "p_path params = st_path (ds @ [c])"
    and "resolve st (ds @ [c]) = Some (None, 0, True)" and "resolve st ds = Some (Some parent, m, False)"
    and "srv_ok st" and "free_nums Inodes st = {}"
  shows "\<exists>l. create_file_dir params st = Some (new_result params (D_word 1), st\<lparr>active_file_list := l, errno := ENOSPC\<rparr>) \<and>
    afl_tab l = afl_tab (active_file_list st)"
proof -
  let ?p = "st_path (ds @ [c])" and ?q = "st_path ds" and ?T = "afl_tab (active_file_list st)" and ?s0 = "st\<lparr>errno := 0\<rparr>"
  have comp: "component_ok c" "\<forall>d \<in> set ds. component_ok d" using assms(1) by (simp_all add: ready_def)
  have pq: "?p \<noteq> ?q" using path_and_name [OF comp] by simp
  obtain l1 l2 l3 l4 where f: "st_find st ?p = Some (with_table st l1 False)"
    "inode_of_file (with_table st l1 False) ?p = Some (None, 0, with_table st l2 True)"
    "st_find ((with_table st l2 True)\<lparr>errno := 0\<rparr>) ?q = Some (with_table ?s0 l3 False)"
    "inode_of_file (with_table ?s0 l3 False) ?q = Some (Some parent, m, with_table ?s0 l4 False)"
    "afl_ok l4" "afl_tab l4 = marks ?T {} {?p, ?q}"
    using find_missing [OF assms(1,2) pq assms(5,6)] by blast
  have "idle ?T" using assms(1) by (simp add: ready_def)
  obtain l5 where l5: "active_file_finished_using l4 ?p = Some l5" "afl_ok l5" "afl_tab l5 = marks ?T {} ({?p, ?q} - {?p})"
    using afl.finished_marks [OF \<open>idle ?T\<close> f(5,6), of ?p] by auto
  have "marks ?T {} ({?p, ?q} - {?p} - {?q}) = ?T" by (auto simp: marks_def fun_eq_iff)
  then obtain l6 where l6: "active_file_finished_using l5 ?q = Some l6" "afl_tab l6 = ?T"
    using afl.finished_marks [OF \<open>idle ?T\<close> l5(2,3), of ?q] pq by (metis Diff_iff empty_iff insertCI singletonD)
  define s4 where "s4 = with_table ?s0 l4 False"
  have s4: "same_image s4 st" by (simp add: s4_def with_table_def same_image_def)
  have "srv_ok s4" "free_nums Inodes s4 = {}" using assms(7,8) by (simp_all add: same_image_facts [OF s4])
  then have full: "Get_Free_Inodes s4 1 = Some (None, s4\<lparr>errno := ENOSPC\<rparr>)"
    using Get_Free_full(2) [of s4 1] by (simp add: free_nums_def)
  have "create_file_dir params st = Some (new_result params (D_word 1), st\<lparr>active_file_list := l6, errno := ENOSPC\<rparr>)"
    using f(1-4) parent_path_of [OF comp assms(3)] full l5(1) l6(1)
    by (simp add: create_file_dir_def assms(4) finish2_def Let_def s4_def [symmetric])
      (simp add: s4_def with_table_def st_finished_def)
  with l6(2) show ?thesis by blast
qed

lemma create_runs:
  fixes st :: "'c server" and params :: params_t
  defines "sc \<equiv> Super_constants st"
  assumes "ready st (ds @ [c])" and "ready st ds" and "length ds \<le> 1" and "p_path params = st_path (ds @ [c])" and "p_file params"
    and "resolve st (ds @ [c]) = Some (None, 0, True)" and "resolve st ds = Some (Some parent, m, False)"
    and "srv_ok st" and "free_nums Inodes st \<noteq> {}" and "roomy_dir st parent c es cs" and "free_inodes_apart st parent es" and "length c < 256"
  shows "\<exists>st' n inode. create_file_dir params st = Some (new_result params (D_word 0), st') \<and> n \<noteq> 0 \<and>
    file_created st st' es cs c (p_mode params) n inode \<and> afl_tab (active_file_list st') = afl_tab (active_file_list st) \<and>
    same_words sc (fs_file st) (fs_file st') \<and> Super_constants st' = sc \<and> errno st' = 0 \<and>
    map_option data_blocks (Inode_Get_Data_Adressess (fs_file st') sc parent (ld32 st' (parent + inode_off I_size))) = Some es \<and>
    (\<forall>x. kept st es x \<longrightarrow> fs_file st' x = fs_file st x)"
proof -
  let ?p = "st_path (ds @ [c])" and ?q = "st_path ds" and ?T = "afl_tab (active_file_list st)" and ?s0 = "st\<lparr>errno := 0\<rparr>"
  have comp: "component_ok c" "\<forall>d \<in> set ds. component_ok d" using assms(2) by (simp_all add: ready_def)
  have pq: "?p \<noteq> ?q" and name: "active_file_get_file_name ?p = Some c" using path_and_name [OF comp] by simp_all
  have idle: "idle ?T" using assms(2) by (simp add: ready_def)
  obtain l1 l2 l3 l4 where f: "st_find st ?p = Some (with_table st l1 False)"
    "inode_of_file (with_table st l1 False) ?p = Some (None, 0, with_table st l2 True)"
    "st_find ((with_table st l2 True)\<lparr>errno := 0\<rparr>) ?q = Some (with_table ?s0 l3 False)"
    "inode_of_file (with_table ?s0 l3 False) ?q = Some (Some parent, m, with_table ?s0 l4 False)"
    "afl_ok l4" "afl_tab l4 = marks ?T {} {?p, ?q}"
    using find_missing [OF assms(2,3) pq assms(7,8)] by blast
  obtain k1 k2 k3 k4 k5 k6 where k: "active_list_upd l4 ?q (on_lock WRLOCK) = Some k1" "active_list_upd k1 ?p (on_lock WRLOCK) = Some k2"
    "active_list_upd k2 ?p (on_lock UNLOCK) = Some k3" "active_list_upd k3 ?q (on_lock UNLOCK) = Some k4"
    "active_file_finished_using k4 ?p = Some k5" "active_file_finished_using k5 ?q = Some k6" "afl_tab k6 = ?T"
    using two_write_locks [OF idle f(5,6) pq] by blast
  define s4 where "s4 = with_table ?s0 l4 False"
  have s4: "same_image s4 st" by (simp add: s4_def with_table_def same_image_def)
  note q = same_image_facts [OF s4]
  have sc4: "Super_constants s4 = sc" "fs_file s4 = fs_file st" using s4 by (simp_all add: same_image_def sc_def)
  have "srv_ok s4" "free_nums Inodes s4 \<noteq> {}" "roomy_dir s4 parent c es cs" "free_inodes_apart s4 parent es" "0 < length c"
    using assms(9-12) q comp by (auto simp: component_ok_def)
  from new_file_image [OF this assms(13), where k = k1 and mode = "p_mode params"] obtain n inode fs1 fs2
    where g: "Get_Free_Inodes s4 1 = Some (Some [n], s4\<lparr>fs_file := fs1\<rparr>)"
      "attach_entry (s4\<lparr>fs_file := fs1, active_file_list := k1\<rparr>) parent (create_entry c n) = Some (True, s4\<lparr>fs_file := fs2, active_file_list := k1\<rparr>)"
      "Inode_Global_Read fs2 sc n = Some inode" "n \<noteq> 0"
    and new: "file_created s4 (setFileInode (s4\<lparr>fs_file := fs2\<rparr>) inode (p_mode params)) es cs c (p_mode params) n inode"
      "same_words sc (fs_file st) (fs_file (setFileInode (s4\<lparr>fs_file := fs2\<rparr>) inode (p_mode params)))"
      "map_option data_blocks (Inode_Get_Data_Adressess (fs_file (setFileInode (s4\<lparr>fs_file := fs2\<rparr>) inode (p_mode params))) sc parent
        (ld32 (setFileInode (s4\<lparr>fs_file := fs2\<rparr>) inode (p_mode params)) (parent + inode_off I_size))) = Some es"
      "\<forall>x. kept s4 es x \<longrightarrow> fs_file (setFileInode (s4\<lparr>fs_file := fs2\<rparr>) inode (p_mode params)) x = fs_file st x"
    unfolding Let_def sc4 by blast
  define fs3 where "fs3 = fs_file (setFileInode (s4\<lparr>fs_file := fs2\<rparr>) inode (p_mode params))"
  define st' where "st' = s4\<lparr>fs_file := fs3, active_file_list := k6, errno := 0\<rparr>"
  have set: "setFileInode (s4\<lparr>fs_file := fs2, active_file_list := l\<rparr>) inode (p_mode params) = s4\<lparr>fs_file := fs3, active_file_list := l\<rparr>" for l
    by (simp add: setFileInode_def fs3_def)
  have "create_file_dir params st = Some (new_result params (D_word 0), (s4\<lparr>fs_file := fs3, active_file_list := k6\<rparr>)\<lparr>errno := 0\<rparr>)"
  proof (rule create_file_steps [OF assms(5,6) f(1,2) parent_path_of [OF comp assms(4)] f(3) f(4) [folded s4_def] g(1) name _ g(2) _ _ _ _ _])
    have a4: "active_file_list s4 = l4" by (simp add: s4_def)
    show "st_lock WRLOCK (s4\<lparr>fs_file := fs1\<rparr>) ?q = Some (s4\<lparr>fs_file := fs1, active_file_list := k1\<rparr>)" using k(1) by (simp add: st_lock_def a4)
    show "Inode_Global_Read (fs_file (s4\<lparr>fs_file := fs2, active_file_list := k1\<rparr>)) (Super_constants (s4\<lparr>fs_file := fs2, active_file_list := k1\<rparr>)) n = Some inode"
      using g(3) by (simp add: sc4)
    show "st_lock WRLOCK (s4\<lparr>fs_file := fs2, active_file_list := k1\<rparr>) ?p = Some (s4\<lparr>fs_file := fs2, active_file_list := k2\<rparr>)" using k(2) by (simp add: st_lock_def)
    show "st_lock UNLOCK (setFileInode (s4\<lparr>fs_file := fs2, active_file_list := k2\<rparr>) inode (p_mode params)) ?p = Some (s4\<lparr>fs_file := fs3, active_file_list := k3\<rparr>)"
      using k(3) by (simp only: set) (simp add: st_lock_def)
    show "st_lock UNLOCK (s4\<lparr>fs_file := fs3, active_file_list := k3\<rparr>) ?q = Some (s4\<lparr>fs_file := fs3, active_file_list := k4\<rparr>)" using k(4) by (simp add: st_lock_def)
    show "st_finished (s4\<lparr>fs_file := fs3, active_file_list := k4\<rparr>) ?p = Some (s4\<lparr>fs_file := fs3, active_file_list := k5\<rparr>)" using k(5) by (simp add: st_finished_def)
    show "st_finished (s4\<lparr>fs_file := fs3, active_file_list := k5\<rparr>) ?q = Some (s4\<lparr>fs_file := fs3, active_file_list := k6\<rparr>)" using k(6) by (simp add: st_finished_def)
  qed
  moreover have im: "same_image (setFileInode (s4\<lparr>fs_file := fs2\<rparr>) inode (p_mode params)) st'"
    by (simp add: same_image_def st'_def fs3_def setFileInode_def)
  ultimately show ?thesis
    using g(4) new file_created_image [OF s4 im] k(7) sc4(1) im
    by (intro exI [of _ st'] exI [of _ n] exI [of _ inode]) (simp add: st'_def same_image_def ld32_def q)
qed

lemma new_name_resolves:
  fixes st st' :: "'c server"
  defines "sc \<equiv> Super_constants st"
  assumes "resolve st (ds @ [c]) = Some (None, 0, True)" and "resolve st ds = Some (Some parent, m, False)" and "roomy_dir st parent c es cs"
    and sc: "Super_constants st' = sc" and w: "same_words sc (fs_file st) (fs_file st')"
    and es: "map_option data_blocks (Inode_Get_Data_Adressess (fs_file st') sc parent (ld32 st' (parent + inode_off I_size))) = Some es"
    and c': "dir_holds st' es cs'" "inserted (n, bytes_of_string c) (concat cs) (concat cs')"
    and i: "Inode_Global_Read (fs_file st') sc n = Some inode" and n: "n \<noteq> 0"
    and ds: "length ds \<le> 1" "ds \<noteq> [] \<longrightarrow> root_apart st es" and same: "\<forall>x. kept st es x \<longrightarrow> fs_file st' x = fs_file st x"
  shows "resolve st' (ds @ [c]) = Some (Some inode, n, False)"
proof -
  obtain entries where e: "read_directory st parent = Some (Some entries)"
    "map (entry_of (fs_file st)) entries = filter (\<lambda>x. fst x \<noteq> 0) (concat cs)"
    using read_directory_blocks [OF roomy_dirD(9,2) [OF assms(4)]] by blast
  obtain entries' where e': "read_directory st' parent = Some (Some entries')"
    "map (entry_of (fs_file st')) entries' = filter (\<lambda>x. fst x \<noteq> 0) (concat cs')"
    using read_directory_blocks [OF _ c'(1)] sc es by metis
  have "lookup st' [c] (Some entries') = Some (Some n)"
    by (rule lookup_new_name [OF e'(2) c'(2) n missing_name [OF assms(3,2) e]])
  moreover have "resolve st' [] = resolve st []" using inode_address_frame [OF w] sc by (simp add: resolve_def sc_def)
  moreover have "resolve st' [d] = resolve st [d]" if "ds = [d]" for d
    using ds(2) that root_directory_frame [OF _ roomy_dirD(1) [OF assms(4)] _ _ same] sc w by (simp add: sc_def)
  then have "resolve st' ds = resolve st ds" if "ds \<noteq> []" using that ds(1) by (cases ds) auto
  ultimately show ?thesis
    using resolve_snoc [of st' ds parent m c] assms(3) e'(1) n sc i by (cases "ds = []") (simp_all add: word_neq_0_conv)
qed


section \<open>Properties\<close>

text \<open>
  C10: creating a file whose name is not there, in the root directory or in a directory named directly
  in it (\<open>length ds \<le> 1\<close>: deeper, \<open>parent_path\<close> does not give the parent), with room and no index block. For
  the second case the root is a well-formed directory, away from the parent, from the free inodes and
  from the free blocks. With a free inode the answer is 0: one free inode is taken and no block, its inode is that of an empty regular file with the
  mode asked for, and the directory has the name with this number in addition, everything else of
  it as it was; the path now resolves to the new inode, and both locks are released, with the
  table of active files as it was. With no free inode the answer is 1 with \<open>ENOSPC\<close> and the image
  is unchanged.
\<close>

theorem create_file_contract:
  fixes st :: "'c server" and params :: params_t
  assumes "ready st (ds @ [c])" and "ready st ds" and "length ds \<le> 1" and "p_path params = st_path (ds @ [c])" and "p_file params"
    and "resolve st (ds @ [c]) = Some (None, 0, True)" and "resolve st ds = Some (Some parent, m, False)"
    and "srv_ok st" and "roomy_dir st parent c es cs" and "free_inodes_apart st parent es" and "length c < 256"
    and "ds \<noteq> [] \<longrightarrow> root_apart st es"
  shows "if free_nums Inodes st = {} then
      \<exists>l. create_file_dir params st = Some (new_result params (D_word 1), st\<lparr>active_file_list := l, errno := ENOSPC\<rparr>) \<and>
        afl_tab l = afl_tab (active_file_list st)
    else \<exists>st' n inode. create_file_dir params st = Some (new_result params (D_word 0), st') \<and>
      file_created st st' es cs c (p_mode params) n inode \<and> afl_tab (active_file_list st') = afl_tab (active_file_list st) \<and>
      resolve st' (ds @ [c]) = Some (Some inode, n, False)"
proof (cases "free_nums Inodes st = {}")
  case True
  from create_full [OF assms(1-4,6-8) True] True show ?thesis by simp
next
  case False
  obtain st' n inode where r: "create_file_dir params st = Some (new_result params (D_word 0), st')" "n \<noteq> 0"
    "file_created st st' es cs c (p_mode params) n inode" "afl_tab (active_file_list st') = afl_tab (active_file_list st)"
    "same_words (Super_constants st) (fs_file st) (fs_file st')" "Super_constants st' = Super_constants st"
    "map_option data_blocks (Inode_Get_Data_Adressess (fs_file st') (Super_constants st) parent (ld32 st' (parent + inode_off I_size))) = Some es"
    "\<forall>x. kept st es x \<longrightarrow> fs_file st' x = fs_file st x"
    using create_runs [OF assms(1-8) False assms(9-11)] by blast
  obtain cs' where c': "dir_holds st' es cs'" "inserted (n, bytes_of_string c) (concat cs) (concat cs')"
    and i: "Inode_Global_Read (fs_file st') (Super_constants st) n = Some inode" using r(3,6) by (auto simp: file_created_def)
  note new_name_resolves [OF assms(6,7,9) r(6,5,7) c' i r(2) assms(3,12) r(8)]
  with False r(1,3,4) show ?thesis by (simp only: if_False) blast
qed

text \<open>The file \<open>/b\<close> in the example image gets inode 6.\<close>

definition new_params :: params_t where
  "new_params = \<lparr>p_path = ''/b'', p_mode = 0x1A4, write_buffer = [], p_file = True, p_offset = 0, bytes_to_read = 0,
     bytes_to_write = 0, p_size = 0, p_socket = 0\<rparr>"

lemma image_inode: "n \<in> {2, 6} \<Longrightarrow> Inode_Global_Read image_fs demo_sc n = Some (3072 + 128 * unat (n - 1))"
  by (auto simp: Inode_Global_Read_def Inode_Local_Read_def Inode_readTable_def Group_Descriptor_read_def
      Inode_locateGroup_def Inode_getLocalIndex_def demo_sc_def sizeof_inode_def image_words)

lemma image_read: "read_directory image_server 3200 = Some (Some [2944, 2956])"
  by (simp add: read_directory_def ld32_def image_words image_addresses data_blocks_def image_entries image_blk_at)

lemma image_missing: "resolve image_server ([] @ [''b'']) = Some (None, 0, True)"
proof -
  have "\<not> entry_matches image_fs 2944 ''b''" "\<not> entry_matches image_fs 2956 ''b''"
    by (simp_all add: matches_entry image_entry_fields bytes_of_string_def char_byte_def)
  then show ?thesis using image_inode [of 2] image_read by (simp add: resolve_def ROOT_INODE_NUMBER_def)
qed

lemma image_roomy: "roomy_dir image_server 3200 ''b'' [23] [[(2, [46]), (3, [97])]]" "free_inodes_apart image_server 3200 [23]"
proof -
  have l: "linked_file image_server 3200 3328 3 ''a'' [23] [[(2, [46]), (3, [97])]]" by (rule image_linked)
  have "block_room image_fs 2944 128 1"
    unfolding block_room_def using image_chain
    by (intro exI [of _ "[2944, 2956]"]) (simp add: slack_def get_padded_size_def sizeof_entry_def padded_def image_entry_fields)
  moreover have "ld32 image_server (3200 + inode_off I_size) = 128" by (simp add: ld32_def image_words)
  moreover have "Size_In_Blocks demo_sc (ld32 image_server (3200 + inode_off I_blocks) * 512) \<le> 12"
    by (simp add: Size_In_Blocks_def demo_sc_def ld32_def load32_def load_bytes_def upt_rec image_fs_def demo_fs_def)
  moreover have "Size_In_Blocks demo_sc 128 \<le> 12" "0 < ptrs_per_block demo_sc" by (simp_all add: Size_In_Blocks_def demo_sc_def ptrs_per_block_def)
  ultimately show "roomy_dir image_server 3200 ''b'' [23] [[(2, [46]), (3, [97])]]"
    using l image_directory image_numbers(1)
    by (simp add: roomy_dir_def linked_file_def image_addresses data_blocks_def image_blk_at demo_simps image_meta disj_range_def)
  show "free_inodes_apart image_server 3200 [23]"
    using image_inode [of 6] by (simp add: free_inodes_apart_def image_numbers(3) image_meta image_blk_at demo_simps disj_range_def)
qed

lemma create_file_contract_witness:
  "\<exists>st' cs'. create_file_dir new_params image_server = Some (new_result new_params (D_word 0), st') \<and>
    resolve st' [''b''] = Some (Some 3712, 6, False) \<and> rs_mode (stat_at st' 3712 6) = 0x81A4 \<and>
    dir_holds st' [23] cs' \<and> inserted (6, [98]) [(2, [46]), (3, [97])] (concat cs')"
proof -
  have "ready image_server ([] @ [''b''])"
    by (simp add: ready_def afl_ok_def afl_tab_def idle_def bump_def list_create_def list_ok_def component_ok_def separator_def)
  moreover have "p_path new_params = st_path ([] @ [''b''])" "p_file new_params" "length ([] :: string list) \<le> 1" "length ''b'' < 256"
    by (simp_all add: new_params_def st_path_def separator_def)
  ultimately obtain st' n inode where r: "create_file_dir new_params image_server = Some (new_result new_params (D_word 0), st')"
    "file_created image_server st' [23] [[(2, [46]), (3, [97])]] ''b'' (p_mode new_params) n inode"
    "resolve st' ([] @ [''b'']) = Some (Some inode, n, False)"
    using create_file_contract [OF _ image_root(2) _ _ _ image_missing image_root(1) image_ok image_roomy, of new_params] image_numbers(3) by auto
  have b: "bytes_of_string ''b'' = [98]" by (simp add: bytes_of_string_def char_byte_def)
  have n: "n = 6" "inode = 3712" using r(2) image_numbers(3) image_inode [of 6] by (auto simp: file_created_def)
  have "rs_mode (stat_at st' 3712 6) = 0x81A4" using r(2) by (simp add: file_created_def n new_params_def EXT2_IFREG_def)
  then show ?thesis using r by (auto simp: file_created_def n b)
qed

end
