(* ===== verification/Borrado_Dir.thy ===== *)
theory Borrado_Dir
  imports Borrado
begin

text \<open>
  Deleting a directory, \<open>delete_dir\<close> of \<^verbatim>\<open>rfs/source_RFS/file_operations.c\<close>, for a directory of one block: the
  lookups, the two write locks, the entry in the parent, the test that nothing but the two
  entries of every directory is left, the block, the inode, its bit and the count of directories
  of the group are followed together. The entry goes before the test.
\<close>

section \<open>The count of directories\<close>

definition dirs_addr :: "Superblock_constants \<Rightarrow> nat \<Rightarrow> nat" where
  "dirs_addr sc g = gd_addr sc g + Group_Descriptor_off GD_NUMBER_DIRECTORIES_GROUP"

definition directories :: "'c server \<Rightarrow> nat \<Rightarrow> u16" where
  "directories st g = load16 (fs_file st) (dirs_addr (Super_constants st) g)"

lemma dirs_addr_meta: "g < groups sc \<Longrightarrow> i < 2 \<Longrightarrow> dirs_addr sc g + i < gdt_end sc"
  using gd_lt_gdt_end [of g sc "16 + i"] by (simp add: dirs_addr_def add.assoc)

lemma directories_frame:
  assumes "g < groups (Super_constants st)" and "Super_constants st' = Super_constants st"
    and "\<forall>x. is_meta (fs_file st) (Super_constants st) x \<longrightarrow> fs_file st' x = fs_file st x"
  shows "directories st' g = directories st g"
  unfolding directories_def assms(2)
  using dirs_addr_meta [OF assms(1)] by (intro load16_eqI assms(3) [rule_format]) (simp add: is_meta_def)

lemma release_keeps_directories:
  assumes ok: "srv_ok st" and b: "b \<in> valid_nums K st" and h: "h < groups (Super_constants st)"
    and run: "(case K of Blocks \<Rightarrow> setFreeBlockBitmap | Inodes \<Rightarrow> setFreeInodeBitmap) st b = Some st'"
  shows "directories st' h = directories st h"
proof -
  let ?sc = "Super_constants st" and ?fs = "fs_file st"
  obtain g j where p: "b = num K ?sc (g, j)" "(g, j) \<in> usable K ?fs ?sc" using b by (auto simp: valid_nums_def)
  then have gj: "g < groups ?sc" "j < per_group K ?sc" by (auto simp: usable_def)
  have lay: "layout ?fs ?sc" using ok fs_okD(1) by (auto simp: srv_ok_def)
  have st': "st' = st\<lparr>fs_file := release_mem K ?fs ?sc g j\<rparr>"
    using run setFree_release [OF ok gj] by (simp add: p(1))
  let ?c = "gd_addr ?sc g + Group_Descriptor_off (cnt_field K)" and ?t = "superblock_field (tot_field K)"
  have "load16 (bitarray_clean_bit (bm K ?fs ?sc g) ?fs j) (dirs_addr ?sc h) = load16 ?fs (dirs_addr ?sc h)"
  proof (rule load16_eqI)
    fix i :: nat assume "i < 2"
    then have "dirs_addr ?sc h + i < gdt_end ?sc" by (rule dirs_addr_meta [OF h])
    moreover have "gdt_end ?sc \<le> bitarray (bm K ?fs ?sc g)" using lay gj(1) by (simp add: layout_def del: bm_simps)
    ultimately show "bitarray_clean_bit (bm K ?fs ?sc g) ?fs j (dirs_addr ?sc h + i) = ?fs (dirs_addr ?sc h + i)"
      using clean_bit_step(1) [OF lay gj] by (simp add: disj_range_def del: bm_simps)
  qed
  moreover have "disj_range ?c 2 (dirs_addr ?sc h) 2"
    by (cases "h = g"; cases "h < g"; cases K) (auto simp: disj_range_def gd_addr_def dirs_addr_def)
  moreover have "disj_range ?t 4 (dirs_addr ?sc h) 2"
    using lay by (cases K) (auto simp: layout_def disj_range_def gd_addr_def dirs_addr_def superblock_field_def SUPERBLOCK_START_def)
  ultimately show ?thesis by (simp add: directories_def st' release_mem_def Let_def load_frames)
qed

lemma store_dirs:
  fixes fs sc g w
  defines "fs' \<equiv> store16 fs (dirs_addr sc g) w"
  assumes "layout fs sc" and g: "g < groups sc"
  shows "same_words sc fs fs'" and "cnt L fs' sc h = cnt L fs sc h" and "tot L fs' = tot L fs"
    and "gdt_end sc \<le> x \<Longrightarrow> fs' x = fs x" and "free_set L fs' sc = free_set L fs sc"
    and "h < groups sc \<Longrightarrow> avail L fs' sc h = avail L fs sc h"
proof -
  have gdt: "2048 \<le> unat (GDT_START sc)" using assms(2) by (simp add: layout_def)
  show w: "same_words sc fs fs'"
    unfolding same_words_def bm_word_def table_word_def fs'_def
  proof (intro conjI allI impI load_frames)
    fix L h
    show "disj_range (dirs_addr sc g) 2 (gd_addr sc h + Group_Descriptor_off (bm_field L)) 4"
      by (cases "h = g"; cases "h < g"; cases L) (auto simp: dirs_addr_def disj_range_def gd_addr_def)
    show "disj_range (dirs_addr sc g) 2 (gd_addr sc h + Group_Descriptor_off GD_START_INODE_TABLE) 4"
      by (cases "h = g"; cases "h < g") (auto simp: dirs_addr_def disj_range_def gd_addr_def)
  qed
  have "disj_range (dirs_addr sc g) 2 (gd_addr sc h + Group_Descriptor_off (cnt_field L)) 2"
    by (cases "h = g"; cases "h < g"; cases L) (auto simp: dirs_addr_def disj_range_def gd_addr_def)
  then show "cnt L fs' sc h = cnt L fs sc h" by (simp add: cnt_def fs'_def load_frames)
  have "disj_range (dirs_addr sc g) 2 (superblock_field (tot_field L)) 4"
    using gdt by (cases L) (auto simp: disj_range_def dirs_addr_def gd_addr_def superblock_field_def SUPERBLOCK_START_def)
  then show "tot L fs' = tot L fs" by (simp add: tot_def fs'_def load_frames)
  show high: "gdt_end sc \<le> x \<Longrightarrow> fs' x = fs x" for x
    using dirs_addr_meta [OF g, of 1] by (auto simp: fs'_def mem_simps disj_range_def)
  show "free_set L fs' sc = free_set L fs sc" "h < groups sc \<Longrightarrow> avail L fs' sc h = avail L fs sc h"
    using high_frame [OF assms(2) w high] by auto
qed

lemma count_directories:
  fixes st :: "'c server" and w :: u16
  defines "sc \<equiv> Super_constants st"
  assumes ok: "srv_ok st" and g: "g < groups sc" and st': "st' = st16 st (dirs_addr sc g) w"
  shows "srv_ok st'" "free_nums K st' = free_nums K st" "valid_nums K st' = valid_nums K st"
    "is_meta (fs_file st') sc = is_meta (fs_file st) sc" "\<not> is_meta (fs_file st) sc x \<Longrightarrow> fs_file st' x = fs_file st x" "directories st' g = w"
proof -
  have fok: "fs_ok (fs_file st) sc" using ok by (simp add: srv_ok_def sc_def)
  note s = store_dirs [OF fs_okD(1) [OF fok] g, where w = w]
  have e: "fs_file st' = store16 (fs_file st) (dirs_addr sc g) w" "Super_constants st' = sc" by (simp_all add: st' st16_def sc_def)
  have "fs_ok (fs_file st') sc"
  proof (rule fs_okI)
    show "layout (fs_file st') sc" using same_words_layout [OF s(1)] fs_okD(1) [OF fok] by (simp add: e)
    show "free_set Blocks (fs_file st') sc \<subseteq> usable Blocks (fs_file st') sc"
      using fs_okD(4) [OF fok, of Blocks] usable_cong [OF s(1)] s(5) by (simp add: e)
  qed (use fs_okD(2,3) [OF fok] s(2,3,5,6) in \<open>simp_all add: e\<close>)
  then show "srv_ok st'" using ok e(2) by (simp add: srv_ok_def st' st16_def)
  show "free_nums K st' = free_nums K st" using s(5) by (simp add: free_nums_def e sc_def [symmetric])
  show "valid_nums K st' = valid_nums K st" using usable_cong [OF s(1)] by (simp add: valid_nums_def e sc_def [symmetric])
  show "is_meta (fs_file st') sc = is_meta (fs_file st) sc" using same_words_meta [OF s(1)] by (simp add: e)
  show "\<not> is_meta (fs_file st) sc x \<Longrightarrow> fs_file st' x = fs_file st x" using s(4) by (simp add: e is_meta_def)
  show "directories st' g = w" by (simp add: directories_def e mem_simps)
qed

section \<open>The block, the inode and the bit\<close>

lemma group_of_inode:
  assumes "srv_ok st" and "n \<in> valid_nums Inodes st"
  shows "\<exists>g. g < groups (Super_constants st) \<and> Inode_locateGroup (Super_constants st) n = of_nat g \<and>
    Group_Descriptor_read (Super_constants st) (of_nat g) = Some (gd_addr (Super_constants st) g) \<and> unat (of_nat g :: u32) = g"
proof -
  let ?sc = "Super_constants st"
  obtain g j where p: "n = num Inodes ?sc (g, j)" "(g, j) \<in> usable Inodes (fs_file st) ?sc" using assms(2) by (auto simp: valid_nums_def)
  then have gj: "g < groups ?sc" "j < per_group Inodes ?sc" by (auto simp: usable_def)
  have "layout (fs_file st) ?sc" using assms(1) fs_okD(1) by (auto simp: srv_ok_def)
  from num_split(1) [OF this gj] have "Inode_locateGroup ?sc n = of_nat g" by (simp add: Inode_locateGroup_def p(1))
  moreover have "unat (of_nat g :: u32) = g"
    using gj(1) unat_lt_u32 [of "TOTAL_GROUPS ?sc"] by (simp add: groups_def unat_of_nat_u32)
  ultimately show ?thesis using gd_read [OF gj(1)] gj(1) by blast
qed

lemma release_directory:
  fixes s :: "'c server"
  defines "sc \<equiv> Super_constants s"
  assumes ok: "srv_ok s" and d: "direct_file s inode" and b: "file_blocks s inode = [b0]"
    and n: "n \<in> valid_nums Inodes s - free_nums Inodes s" and g: "g < groups sc"
  shows "\<exists>s2 fs'. Remove_Block s inode 0 = Some s2 \<and>
    setFreeInodeBitmap (st16 (Clear_Inode s2 inode) (dirs_addr sc g) (ld16 (Clear_Inode s2 inode) (dirs_addr sc g) - 1)) n = Some (s\<lparr>fs_file := fs'\<rparr>) \<and>
    Super_constants s2 = sc \<and> srv_ok (s\<lparr>fs_file := fs'\<rparr>) \<and> free_nums Blocks (s\<lparr>fs_file := fs'\<rparr>) = insert b0 (free_nums Blocks s) \<and>
    free_nums Inodes (s\<lparr>fs_file := fs'\<rparr>) = insert n (free_nums Inodes s) \<and> directories (s\<lparr>fs_file := fs'\<rparr>) g = directories s g - 1 \<and>
    (\<forall>x. \<not> is_meta (fs_file s) sc x \<and> disj_range inode 128 x 1 \<longrightarrow> fs' x = fs_file s x)"
proof -
  note df = direct_fileD [OF d, unfolded b]
  have slot: "ld32 s (slot inode 0) = b0" using df(7) [of 0] by simp
  then have b0: "ld32 s (slot inode 0) \<in> valid_nums Blocks s - free_nums Blocks s" using df(3) by simp
  obtain fs1 where r: "Remove_Block s inode (of_nat 0) = Some (s\<lparr>fs_file := fs1\<rparr>)" "srv_ok (s\<lparr>fs_file := fs1\<rparr>)"
    "free_nums Blocks (s\<lparr>fs_file := fs1\<rparr>) = insert (ld32 s (slot inode 0)) (free_nums Blocks s)"
    "free_nums Inodes (s\<lparr>fs_file := fs1\<rparr>) = free_nums Inodes s" "valid_nums Inodes (s\<lparr>fs_file := fs1\<rparr>) = valid_nums Inodes s"
    "is_meta fs1 (Super_constants s) = is_meta (fs_file s) (Super_constants s)"
    "\<forall>x. \<not> is_meta (fs_file s) (Super_constants s) x \<and> disj_range (slot inode 0) 4 x 1 \<longrightarrow> fs1 x = fs_file s x"
    using remove_direct [OF ok _ df(4) b0] by auto
  obtain s0 where s0: "setFreeBlockBitmap s b0 = Some s0" "s\<lparr>fs_file := fs1\<rparr> = st32 s0 (slot inode 0) 0"
    using r(1) slot by (auto simp: Remove_Block_def find_block_coordinates_def coordinates_level_def split: bind_splits)
  let ?s1 = "s\<lparr>fs_file := fs1\<rparr>"
  have "b0 \<in> valid_nums Blocks s" using df(3) by simp
  with s0(1) have dirs0: "directories s0 g = directories s g" "Super_constants s0 = sc"
    using release_keeps_directories [OF ok, of b0 Blocks g s0] release_block [OF ok, of b0] g df(3) by (auto simp: sc_def)
  have "gdt_end sc \<le> inode + 40" using df(4) [rule_format, of 40] by (simp add: is_meta_def sc_def)
  then have "disj_range (slot inode 0) 4 (dirs_addr sc g) 2" using dirs_addr_meta [OF g, of 1] by (simp add: disj_range_def)
  then have dirs1: "directories ?s1 g = directories s g"
    using dirs0 by (simp add: s0(2) directories_def st32_def load_frames)
  define s3 where "s3 = Clear_Inode ?s1 inode"
  have s3: "s3 = s\<lparr>fs_file := init_inode fs1 inode 0 0 0 0\<rparr>" by (simp add: s3_def Clear_Inode_def)
  have m1: "\<forall>k < 128. \<not> is_meta (fs_file ?s1) (Super_constants ?s1) (inode + k)" using df(4) r(6) by simp
  note i = inode_write [OF r(2) m1 init_inode_outside [of inode _ "fs_file ?s1" 0 0 0 0], simplified, folded s3]
  have low: "fs_file s3 x = fs1 x" if "is_meta fs1 sc x" for x
    by (rule meta_off_inode [OF m1 [simplified, folded sc_def] that]) (simp add: s3 init_inode_outside)
  have dirs3: "directories s3 g = directories s g"
    using directories_frame [of g ?s1 s3] dirs1 low g by (simp add: s3 sc_def)
  define s4 where "s4 = st16 s3 (dirs_addr sc g) (ld16 s3 (dirs_addr sc g) - 1)"
  have c: "srv_ok s4" "\<And>K. free_nums K s4 = free_nums K s3" "\<And>K. valid_nums K s4 = valid_nums K s3"
    "is_meta (fs_file s4) sc = is_meta (fs_file s3) sc" "\<And>x. \<not> is_meta (fs_file s3) sc x \<Longrightarrow> fs_file s4 x = fs_file s3 x"
    "directories s4 g = ld16 s3 (dirs_addr sc g) - 1"
    using count_directories [OF i(1), of g s4] g by (simp_all add: s4_def s3 sc_def)
  have n4: "n \<in> valid_nums Inodes s4" "n \<notin> free_nums Inodes s4" using n c(2,3) i(2,3) r(4,5) by auto
  obtain fs' where f: "setFreeInodeBitmap s4 n = Some (s4\<lparr>fs_file := fs'\<rparr>)" "srv_ok (s4\<lparr>fs_file := fs'\<rparr>)"
    "free_nums Inodes (s4\<lparr>fs_file := fs'\<rparr>) = insert n (free_nums Inodes s4)" "free_nums Blocks (s4\<lparr>fs_file := fs'\<rparr>) = free_nums Blocks s4"
    "\<forall>x. \<not> is_meta (fs_file s4) (Super_constants s4) x \<longrightarrow> fs' x = fs_file s4 x"
    using release_number [OF c(1) n4] by auto
  have s4: "s4\<lparr>fs_file := fs'\<rparr> = s\<lparr>fs_file := fs'\<rparr>" "Super_constants s4 = sc" by (simp_all add: s4_def s3 st16_def sc_def)
  have "directories (s4\<lparr>fs_file := fs'\<rparr>) g = directories s4 g"
    using release_keeps_directories [OF c(1) n4(1), of g] f(1) g s4(2) by simp
  moreover have "directories s3 g = ld16 s3 (dirs_addr sc g)" by (simp add: directories_def ld16_def s3 sc_def)
  ultimately have dirs: "directories (s\<lparr>fs_file := fs'\<rparr>) g = directories s g - 1" using c(6) dirs3 s4(1) by simp
  have "fs' x = fs_file s x" if x: "\<not> is_meta (fs_file s) sc x" "disj_range inode 128 x 1" for x
  proof -
    have "disj_range (slot inode 0) 4 x 1" using x(2) by (auto simp: disj_range_def)
    then have "fs1 x = fs_file s x" using r(7) x(1) by (simp add: sc_def)
    moreover have "fs_file s3 x = fs1 x" using init_inode_outside [OF x(2)] by (simp add: s3)
    moreover have "\<not> is_meta (fs_file s3) sc x" using x(1) i(4) r(6) by (simp add: sc_def s3)
    ultimately show ?thesis using c(4,5) f(5) s4(2) by simp
  qed
  then show ?thesis
    using r(1,3) slot f(1-4) c(2) i(2) r(4) dirs
    by (intro exI [of _ ?s1] exI [of _ fs']) (simp add: s4 s4_def [symmetric] s3_def [symmetric] sc_def [symmetric])
qed

section \<open>The test that the directory is empty\<close>

text \<open>
  The block of a directory: well formed, with at least the two entries for itself and its parent,
  the first of them without slack, which is what creating it and every later change leave.
\<close>

definition own_entries :: "'c server \<Rightarrow> u32 \<Rightarrow> nat list \<Rightarrow> bool" where
  "own_entries st b xs \<longleftrightarrow> 2 \<le> length xs \<and>
     dchain (fs_file st) (blk_at st b) (blk_at st b + bsize (Super_constants st)) xs \<and>
     unat (e_len (fs_file st) (blk_at st b)) = get_padded_size (fs_file st) (blk_at st b)"

lemma empty_test:
  assumes "dchain fs a (a + bsize sc) xs" and "2 \<le> length xs" and "unat (e_len fs a) = get_padded_size fs a"
  shows "ucast (e_len fs (a + unat (e_len fs a))) = BLOCK_SIZE sc - of_nat (get_padded_size fs a) \<longleftrightarrow> length xs = 2"
    and "16 \<le> bsize sc"
proof -
  obtain e1 e2 ys where xs: "xs = e1 # e2 # ys" using assms(2) by (cases xs; cases "tl xs") auto
  let ?l = "unat (e_len fs a)" and ?s = "a + unat (e_len fs a)"
  have second: "dchain fs ?s (a + bsize sc) (e2 # ys)" using assms(1) by (simp add: xs)
  then have c: "dchain fs (?s + unat (e_len fs ?s)) (a + bsize sc) ys" "?s + unat (e_len fs ?s) \<le> a + bsize sc" by auto
  have big: "8 \<le> ?l" "8 \<le> unat (e_len fs ?s)"
    using assms(1,3) second padded_size_ge [of fs a] padded_size_ge [of fs ?s] by auto
  show "16 \<le> bsize sc" using big c(2) by simp
  have last: "?l + unat (e_len fs ?s) = bsize sc \<longleftrightarrow> length xs = 2"
  proof (cases ys)
    case Nil
    then show ?thesis using c(1) by (simp add: xs)
  next
    case (Cons y zs)
    then show ?thesis using dchain_first(2) [OF c(1) [unfolded Cons]] by (simp add: xs)
  qed
  have l: "?l < 4294967296" "?l \<le> bsize sc" using unat_lt_u16 [of "e_len fs a"] c(2) by simp_all
  have "unat (BLOCK_SIZE sc - of_nat k) = bsize sc - k" if "k < 4294967296" "k \<le> bsize sc" for k
    using that by (simp add: unat_sub word_le_nat_alt unat_of_nat_u32 bsize_def)
  from this [OF l] have "unat (BLOCK_SIZE sc - of_nat ?l) = bsize sc - ?l" .
  moreover have "unat (ucast (e_len fs ?s) :: u32) = unat (e_len fs ?s)" by (simp add: unat_ucast_u16)
  ultimately have "ucast (e_len fs ?s) = BLOCK_SIZE sc - of_nat ?l \<longleftrightarrow> unat (e_len fs ?s) = bsize sc - ?l"
    by (simp add: word_unat_eq_iff)
  then show "ucast (e_len fs ?s) = BLOCK_SIZE sc - of_nat (get_padded_size fs a) \<longleftrightarrow> length xs = 2"
    using last l(2) by (simp add: assms(3)) linarith
qed

lemma own_entries_frame:
  assumes "own_entries st b xs" and "Super_constants st' = Super_constants st"
    and "\<forall>x. in_block (Super_constants st) b x \<longrightarrow> fs_file st' x = fs_file st x"
  shows "own_entries st' b xs"
proof -
  let ?a = "blk_at st b"
  have a: "blk_at st' b = ?a" by (simp add: blk_at_def assms(2))
  note e = assms(1) [unfolded own_entries_def]
  have same: "same_on ?a (?a + bsize (Super_constants st)) (fs_file st) (fs_file st')"
    using assms(3) by (auto simp: same_on_def in_block_def blk_at_def)
  have "8 + unat (e_name_len (fs_file st) ?a) \<le> bsize (Super_constants st)"
    using e padded_size_ge [of "fs_file st" ?a] by (cases xs) auto
  then have "same_on ?a (?a + 8 + unat (e_name_len (fs_file st) ?a)) (fs_file st) (fs_file st')"
    by (intro same_on_sub [OF same]) auto
  note f = entry_frame [OF this]
  show ?thesis using e dchain_frame [OF _ same] f by (simp add: own_entries_def a assms(2))
qed

lemma first_address:
  assumes "direct_file st inode" and "file_blocks st inode = [b]" and "16 \<le> bsize (Super_constants st)"
  shows "Inode_Get_Data_Adressess (fs_file st) (Super_constants st) inode (ld32 st (inode + inode_off I_size)) = Some [b, 0]"
proof -
  let ?sc = "Super_constants st"
  have one: "Size_In_Blocks ?sc (ld32 st (inode + inode_off I_size)) = 1" using direct_fileD(6) [OF assms(1)] assms(2) by simp
  have "0 < ptrs_per_block ?sc" using assms(3) by (simp add: ptrs_per_block_def bsize_def)
  moreover have "file_block (fs_file st) ?sc inode 0 = b" using assms(2) one by (simp add: file_blocks_def)
  ultimately show ?thesis using one by (simp add: data_addresses_cases max_file_blocks_def)
qed

section \<open>The whole operation\<close>

lemma delete_dir_steps:
  fixes st :: "'c server"
  assumes "p_path params = path" and "st_find st path = Some s1" and "inode_of_file s1 path = Some (Some inode, n, s2)"
    and "ld32 s2 (inode + inode_off I_blocks) \<le> BLOCK_SIZE (Super_constants s2) div 512"
    and "parent_path path = Some pdir" and "st_find s2 pdir = Some s3" and "inode_of_file s3 pdir = Some (Some parent, m, s4)"
    and "st_lock WRLOCK s4 pdir = Some s5" and "st_lock WRLOCK s5 path = Some s6"
    and "Inode_Get_Data_Adressess (fs_file s6) (Super_constants s6) inode (ld32 s6 (inode + inode_off I_size)) = Some (b # bs)"
    and "delete_entry s6 parent path = Some s7" and "blk_at s7 b = a" and "Super_constants s7 = Super_constants s6"
    and "ucast (e_len (fs_file s7) (a + unat (e_len (fs_file s7) a))) = BLOCK_SIZE (Super_constants s6) - of_nat (get_padded_size (fs_file s7) a) \<longleftrightarrow> alone"
    and "\<not> alone \<Longrightarrow> s9 = s7\<lparr>errno := ENOTEMPTY\<rparr>"
    and "alone \<Longrightarrow> Remove_Block s7 inode 0 = Some s8"
    and "alone \<Longrightarrow> Group_Descriptor_read (Super_constants s6) (Inode_locateGroup (Super_constants s6) n) = Some gd"
    and "alone \<Longrightarrow> gd + Group_Descriptor_off GD_NUMBER_DIRECTORIES_GROUP = dirs"
    and "alone \<Longrightarrow> setFreeInodeBitmap (st16 (Clear_Inode s8 inode) dirs (ld16 (Clear_Inode s8 inode) dirs - 1)) n = Some s9"
    and "st_lock UNLOCK s9 path = Some s10" and "st_lock UNLOCK s10 pdir = Some s11"
    and "st_finished s11 path = Some s12" and "st_finished s12 pdir = Some s13"
  shows "delete_dir params st = Some (new_result params (D_word (if alone then 0 else 1)), s13)"
  using assms by (cases alone) (simp_all add: delete_dir_def finish2_def Let_def word_le_nat_alt word_less_nat_alt blk_at_def)

lemma directory_outcome:
  fixes s :: "'c server"
  defines "sc \<equiv> Super_constants s"
  assumes ok: "srv_ok s" and d: "direct_file s inode" and b: "file_blocks s inode = [b0]"
    and n: "n \<in> valid_nums Inodes s - free_nums Inodes s" and g: "g = unat (Inode_locateGroup sc n)"
  shows "\<exists>s8 s9. (\<not> alone \<longrightarrow> s9 = s\<lparr>errno := ENOTEMPTY\<rparr>) \<and>
    (alone \<longrightarrow> Remove_Block s inode 0 = Some s8 \<and> Group_Descriptor_read sc (Inode_locateGroup sc n) = Some (gd_addr sc g) \<and>
      setFreeInodeBitmap (st16 (Clear_Inode s8 inode) (dirs_addr sc g) (ld16 (Clear_Inode s8 inode) (dirs_addr sc g) - 1)) n = Some s9) \<and>
    srv_ok s9 \<and> active_file_list s9 = active_file_list s \<and> Super_constants s9 = sc \<and>
    (\<forall>x. \<not> is_meta (fs_file s) sc x \<and> disj_range inode 128 x 1 \<longrightarrow> fs_file s9 x = fs_file s x) \<and>
    (if alone then free_nums Blocks s9 = insert b0 (free_nums Blocks s) \<and> free_nums Inodes s9 = insert n (free_nums Inodes s) \<and>
        directories s9 g = directories s g - 1
     else errno s9 = ENOTEMPTY \<and> (\<forall>K. free_nums K s9 = free_nums K s) \<and> directories s9 g = directories s g)"
proof (cases alone)
  case True
  obtain h where h: "h < groups sc" "Inode_locateGroup sc n = of_nat h" "Group_Descriptor_read sc (of_nat h) = Some (gd_addr sc h)"
    "unat (of_nat h :: u32) = h"
    using group_of_inode [OF ok, of n] n by (auto simp: sc_def)
  then have "g = h" using g by simp
  with h True release_directory [OF ok d b n, of g] show ?thesis by (auto simp: sc_def)
next
  case False
  then show ?thesis using ok by (auto simp: srv_ok_def free_nums_def directories_def sc_def)
qed

lemma table_own: "own_entries (st\<lparr>active_file_list := l\<rparr>) = own_entries st" "directories (st\<lparr>active_file_list := l\<rparr>) = directories st"
  by (simp_all add: own_entries_def directories_def blk_at_def fun_eq_iff)

lemma unlink_directory:
  fixes s :: "'c server"
  defines "sc \<equiv> Super_constants s"
  assumes ok: "srv_ok s" and w: "no_wrap sc" and d: "direct_file s inode" and b: "file_blocks s inode = [b0]"
    and l: "linked_file s parent inode n name es cs" and own: "own_entries s b0 xs" and nm: "active_file_get_file_name path = Some name"
  shows "\<exists>s7 cs'. delete_entry s parent path = Some s7 \<and> s7 = s\<lparr>fs_file := fs_file s7\<rparr> \<and> srv_ok s7 \<and> direct_file s7 inode \<and>
    file_blocks s7 inode = [b0] \<and> (\<forall>K. free_nums K s7 = free_nums K s) \<and> (\<forall>K. valid_nums K s7 = valid_nums K s) \<and>
    dir_holds s7 es cs' \<and> concat cs' = remove_named (bytes_of_string name) (concat cs) \<and>
    (\<forall>x. is_meta (fs_file s) sc x \<longrightarrow> fs_file s7 x = fs_file s x) \<and>
    Inode_Get_Data_Adressess (fs_file s) sc inode (ld32 s (inode + inode_off I_size)) = Some [b0, 0] \<and>
    (ucast (e_len (fs_file s7) (blk_at s b0 + unat (e_len (fs_file s7) (blk_at s b0)))) =
      BLOCK_SIZE sc - of_nat (get_padded_size (fs_file s7) (blk_at s b0)) \<longleftrightarrow> length xs = 2)"
proof -
  have "coherent (\<lambda>_ _. None) s path [b0]" by (simp add: coherent_def)
  then obtain fs1 cs' where r: "delete_entry s parent path = Some (s\<lparr>fs_file := fs1\<rparr>)" "srv_ok (s\<lparr>fs_file := fs1\<rparr>)"
    "\<forall>K. free_nums K (s\<lparr>fs_file := fs1\<rparr>) = free_nums K s" "\<forall>K. valid_nums K (s\<lparr>fs_file := fs1\<rparr>) = valid_nums K s"
    "direct_file (s\<lparr>fs_file := fs1\<rparr>) inode" "file_blocks (s\<lparr>fs_file := fs1\<rparr>) inode = [b0]" "dir_holds (s\<lparr>fs_file := fs1\<rparr>) es cs'"
    "concat cs' = remove_named (bytes_of_string name) (concat cs)"
    "\<forall>x. is_meta (fs_file s) sc x \<or> (\<exists>b \<in> set [b0]. in_block sc b x) \<longrightarrow> fs1 x = fs_file s x"
    using unlink_entry [OF ok _ d b [symmetric] _ l nm, of "\<lambda>_ _. None"] w by (auto simp: sc_def)
  have "own_entries (s\<lparr>fs_file := fs1\<rparr>) b0 xs" using r(9) by (intro own_entries_frame [OF own]) (simp_all add: sc_def)
  then have "dchain fs1 (blk_at s b0) (blk_at s b0 + bsize sc) xs" "2 \<le> length xs" "unat (e_len fs1 (blk_at s b0)) = get_padded_size fs1 (blk_at s b0)"
    by (simp_all add: own_entries_def sc_def)
  note t = empty_test [OF this]
  show ?thesis
    using r first_address [OF d b] t by (intro exI [of _ "s\<lparr>fs_file := fs1\<rparr>"] exI [of _ cs']) (simp add: sc_def)
qed

text \<open>
  C13: deleting a directory of one block in the root directory or in a directory named directly in it
  (\<open>length ds \<le> 1\<close>: deeper, \<open>parent_path\<close> does not give the parent), where the blocks of the parent are
  well formed and \<open>deletable\<close>: the bytes after a block do not look like an entry of the name, the entry
  is not the only one of its block, a first entry does not meet by accident the code's condition for
  dropping the block, and no name is copied over itself. When it has
  only the two entries of every directory, the answer is 0, its block and its inode number are free in
  addition and the count of directories of its group is one less; otherwise the answer is 1 with
  \<open>ENOTEMPTY\<close> and the directory stays allocated. In both cases its entry is gone from the parent, so a
  directory that is not empty can no longer be reached; bitmaps and counters are consistent and both
  locks are released.
\<close>

theorem delete_dir_contract:
  fixes st :: "'c server" and params :: params_t
  defines "sc \<equiv> Super_constants st"
  assumes "ready st (ds @ [c])" and "ready st ds" and "length ds \<le> 1" and "p_path params = st_path (ds @ [c])"
    and "resolve st (ds @ [c]) = Some (Some inode, n, False)" and "resolve st ds = Some (Some parent, m, False)"
    and "srv_ok st" and "no_wrap sc" and "direct_file st inode" and "file_blocks st inode = [b]"
    and "ld32 st (inode + inode_off I_blocks) \<le> BLOCK_SIZE sc div 512"
    and "linked_file st parent inode n c es cs" and "own_entries st b xs" and "g = unat (Inode_locateGroup sc n)"
  shows "\<exists>st' cs'. delete_dir params st = Some (new_result params (D_word (if length xs = 2 then 0 else 1)), st') \<and> srv_ok st' \<and>
    dir_holds st' es cs' \<and> concat cs' = remove_named (bytes_of_string c) (concat cs) \<and>
    afl_tab (active_file_list st') = afl_tab (active_file_list st) \<and>
    (if length xs = 2 then free_nums Blocks st' = insert b (free_nums Blocks st) \<and> free_nums Inodes st' = insert n (free_nums Inodes st) \<and>
        directories st' g = directories st g - 1
     else errno st' = ENOTEMPTY \<and> (\<forall>K. free_nums K st' = free_nums K st) \<and> directories st' g = directories st g)"
proof -
  let ?p = "st_path (ds @ [c])" and ?q = "st_path ds" and ?T = "afl_tab (active_file_list st)"
  have comp: "component_ok c" "\<forall>d \<in> set ds. component_ok d" using assms(2) by (simp_all add: ready_def)
  have pq: "?p \<noteq> ?q" and name: "active_file_get_file_name ?p = Some c" using path_and_name [OF comp] by simp_all
  obtain l1 l2 l3 l4 where f: "st_find st ?p = Some (with_table st l1 False)" "inode_of_file (with_table st l1 False) ?p = Some (Some inode, n, with_table st l2 False)"
    "st_find (with_table st l2 False) ?q = Some (with_table st l3 False)" "inode_of_file (with_table st l3 False) ?q = Some (Some parent, m, with_table st l4 False)"
    "afl_ok l4" "afl_tab l4 = marks ?T {} {?p, ?q}"
    using find_two [OF assms(2,3) pq assms(6,7)] by blast
  have idle: "idle ?T" using assms(2) by (simp add: ready_def)
  obtain k1 k2 k3 k4 k5 k6 where k: "active_list_upd l4 ?q (on_lock WRLOCK) = Some k1" "active_list_upd k1 ?p (on_lock WRLOCK) = Some k2"
    "active_list_upd k2 ?p (on_lock UNLOCK) = Some k3" "active_list_upd k3 ?q (on_lock UNLOCK) = Some k4"
    "active_file_finished_using k4 ?p = Some k5" "active_file_finished_using k5 ?q = Some k6" "afl_tab k6 = ?T"
    using two_write_locks [OF idle f(5,6) pq] by blast
  define s6 where "s6 = st\<lparr>active_file_list := k2\<rparr>"
  have fields: "Super_constants s6 = sc" "fs_file s6 = fs_file st" "active_file_list s6 = k2" by (simp_all add: s6_def sc_def)
  have s6: "srv_ok s6" "no_wrap (Super_constants s6)" "direct_file s6 inode" "file_blocks s6 inode = [b]" "linked_file s6 parent inode n c es cs" "own_entries s6 b xs"
    using assms(8-14) by (simp_all add: s6_def table_image table_own sc_def)
  obtain s7 cs' where d: "delete_entry s6 parent ?p = Some s7" "s7 = s6\<lparr>fs_file := fs_file s7\<rparr>" "srv_ok s7" "direct_file s7 inode"
    "file_blocks s7 inode = [b]" "\<forall>K. free_nums K s7 = free_nums K s6" "\<forall>K. valid_nums K s7 = valid_nums K s6" "dir_holds s7 es cs'"
    "concat cs' = remove_named (bytes_of_string c) (concat cs)" "\<forall>x. is_meta (fs_file s6) sc x \<longrightarrow> fs_file s7 x = fs_file s6 x"
    "Inode_Get_Data_Adressess (fs_file s6) sc inode (ld32 s6 (inode + inode_off I_size)) = Some [b, 0]"
    "ucast (e_len (fs_file s7) (blk_at s6 b + unat (e_len (fs_file s7) (blk_at s6 b)))) =
      BLOCK_SIZE sc - of_nat (get_padded_size (fs_file s7) (blk_at s6 b)) \<longleftrightarrow> length xs = 2"
    using unlink_directory [OF s6 name] unfolding fields by blast
  have s7: "Super_constants s7 = sc" "blk_at s7 = blk_at s6" "active_file_list s7 = k2" by (subst d(2), simp add: fields)+
  have n: "n \<in> valid_nums Inodes st - free_nums Inodes st" using assms(13) by (simp add: linked_file_def)
  have nums: "free_nums K s7 = free_nums K st" "valid_nums K s7 = valid_nums K st" for K
    using d(6,7) by (simp_all add: s6_def table_image)
  obtain s8 s9 where r: "\<not> length xs = 2 \<longrightarrow> s9 = s7\<lparr>errno := ENOTEMPTY\<rparr>"
    "length xs = 2 \<longrightarrow> Remove_Block s7 inode 0 = Some s8 \<and> Group_Descriptor_read sc (Inode_locateGroup sc n) = Some (gd_addr sc g) \<and>
      setFreeInodeBitmap (st16 (Clear_Inode s8 inode) (dirs_addr sc g) (ld16 (Clear_Inode s8 inode) (dirs_addr sc g) - 1)) n = Some s9"
    "srv_ok s9" "active_file_list s9 = k2" "Super_constants s9 = sc"
    "\<forall>x. \<not> is_meta (fs_file s7) sc x \<and> disj_range inode 128 x 1 \<longrightarrow> fs_file s9 x = fs_file s7 x"
    "if length xs = 2 then free_nums Blocks s9 = insert b (free_nums Blocks st) \<and> free_nums Inodes s9 = insert n (free_nums Inodes st) \<and>
        directories s9 g = directories s7 g - 1
     else errno s9 = ENOTEMPTY \<and> (\<forall>K. free_nums K s9 = free_nums K st) \<and> directories s9 g = directories s7 g"
    using directory_outcome [OF d(3-5), of n g "length xs = 2", unfolded s7 nums, OF n assms(15)] by blast
  define st' where "st' = s9\<lparr>active_file_list := k6\<rparr>"
  have "delete_dir params st = Some (new_result params (D_word (if length xs = 2 then 0 else 1)), st')"
  proof (rule delete_dir_steps [OF assms(5) f(1,2) _ parent_path_of [OF comp assms(4)] f(3,4)])
    show "st_lock WRLOCK (with_table st l4 False) ?q = Some (st\<lparr>active_file_list := k1\<rparr>)" using k(1) by (simp add: with_table_ops) (simp add: with_table_def)
    show "st_lock WRLOCK (st\<lparr>active_file_list := k1\<rparr>) ?p = Some s6" using k(2) by (simp add: st_lock_def s6_def)
    show "ld32 (with_table st l2 False) (inode + inode_off I_blocks) \<le> BLOCK_SIZE (Super_constants (with_table st l2 False)) div 512"
      using assms(12) by (simp add: ld32_def sc_def)
    show "Remove_Block s7 inode 0 = Some s8" "Group_Descriptor_read (Super_constants s6) (Inode_locateGroup (Super_constants s6) n) = Some (gd_addr sc g)"
      "setFreeInodeBitmap (st16 (Clear_Inode s8 inode) (dirs_addr sc g) (ld16 (Clear_Inode s8 inode) (dirs_addr sc g) - 1)) n = Some s9"
      if "length xs = 2" using r(2) that by (simp_all add: fields)
    show "st_lock UNLOCK s9 ?p = Some (s9\<lparr>active_file_list := k3\<rparr>)" using k(3) by (simp add: st_lock_def r(4))
    show "st_lock UNLOCK (s9\<lparr>active_file_list := k3\<rparr>) ?q = Some (s9\<lparr>active_file_list := k4\<rparr>)" using k(4) by (simp add: st_lock_def)
    show "st_finished (s9\<lparr>active_file_list := k4\<rparr>) ?p = Some (s9\<lparr>active_file_list := k5\<rparr>)" using k(5) by (simp add: st_finished_def)
    show "st_finished (s9\<lparr>active_file_list := k5\<rparr>) ?q = Some st'" using k(6) by (simp add: st_finished_def st'_def)
  qed (use r(1) d(1,11,12) in \<open>simp_all add: s7 fields dirs_addr_def\<close>)
  moreover have "dir_holds s9 es cs'"
    using release_keeps_directory [OF d(8), of inode s9] assms(13) r(5,6) by (auto simp: linked_file_def nums s7 blk_at_def s6_def sc_def)
  moreover have "g < groups sc" using group_of_inode [OF assms(8), of n] n assms(15) by (auto simp: sc_def)
  then have "directories s7 g = directories st g" using directories_frame [of g st s7] d(10) by (simp add: s7 fields sc_def)
  ultimately show ?thesis
    using r(3,7) d(9) k(7) nums by (intro exI [of _ st'] exI [of _ cs']) (simp add: st'_def table_image table_own)
qed

section \<open>The example\<close>

text \<open>
  The example image with a directory in the place of the file: \<open>/a\<close> in block 19, with its own two
  entries and, when \<open>busy\<close>, a file \<open>f\<close>. Its group counts two directories.
\<close>

definition small_dir_fs :: "bool \<Rightarrow> mem" where
  "small_dir_fs busy = (\<lambda>x. if x = 2064 then 2 else if x = 3329 then 64 else if x = 3332 then 128 else if x = 3372 then 0
     else if x = 2432 then 3 else if x = 2436 then 12 else if x = 2438 then 1 else if x = 2440 then 46
     else if x = 2444 then 2 else if x = 2448 then (if busy then 12 else 116) else if x = 2450 then 2 else if x = 2452 then 46 else if x = 2453 then 46
     else if busy \<and> x = 2456 then 4 else if busy \<and> x = 2460 then 104 else if busy \<and> x = 2462 then 1 else if busy \<and> x = 2464 then 102
     else if 2432 \<le> x \<and> x < 2560 then 0 else image_fs x)"

definition small_dir_server :: "bool \<Rightarrow> (u8 list \<Rightarrow> u8 list option) server" where
  "small_dir_server busy = image_server\<lparr>fs_file := small_dir_fs busy\<rparr>"

lemma small_dir_fields [simp]:
  "fs_file (small_dir_server busy) = small_dir_fs busy" "Super_constants (small_dir_server busy) = demo_sc" "active_file_list (small_dir_server busy) = list_create"
  by (simp_all add: small_dir_server_def)

lemma small_dir_words:
  "load32 (small_dir_fs busy) 3332 = 128" "load32 (small_dir_fs busy) 3204 = 128" "load32 (small_dir_fs busy) 3240 = 23" "load32 (small_dir_fs busy) 3368 = 19"
  "load32 (small_dir_fs busy) 2056 = 24" "load32 (small_dir_fs busy) 3228 = 1" "load32 (small_dir_fs busy) 3356 = 0" "load16 (small_dir_fs busy) 2064 = 2"
  by (simp_all add: small_dir_fs_def image_fs_def demo_fs_def load32_def load16_def load_bytes_def upt_rec)

lemma small_dir_parent: "same_on 2944 3072 image_fs (small_dir_fs busy)"
  by (simp add: same_on_def small_dir_fs_def)

lemma small_dir_facts: "srv_ok (small_dir_server busy)" "free_nums K (small_dir_server busy) = free_nums K image_server"
  "valid_nums K (small_dir_server busy) = valid_nums K image_server" "is_meta (small_dir_fs busy) demo_sc = is_meta image_fs demo_sc"
proof -
  let ?s = "st16 image_server (dirs_addr demo_sc 0) 2"
  have a: "dirs_addr demo_sc 0 = 2064" by (simp add: dirs_addr_def demo_simps)
  have c: "srv_ok ?s" "\<And>K. free_nums K ?s = free_nums K image_server" "\<And>K. valid_nums K ?s = valid_nums K image_server"
    "is_meta (fs_file ?s) demo_sc = is_meta image_fs demo_sc"
    using count_directories [OF image_ok, of 0 ?s 2] by (simp_all add: demo_simps)
  have s: "?s\<lparr>fs_file := small_dir_fs busy\<rparr> = small_dir_server busy" "Super_constants ?s = demo_sc" by (simp_all add: small_dir_server_def st16_def)
  have bytes: "fs_file ?s x = (if x = 2064 then 2 else image_fs x)" for x
  proof -
    have "le_bytes (Suc (Suc 0)) 2 = [2, 0]" by simp
    then have "le_bytes 2 (unat (2 :: u16)) = [2, 0]" by (simp add: Suc_1 flip: One_nat_def)
    moreover have "image_fs x = 0" if "2064 \<le> x" "x < 2066" using that by (simp add: image_fs_def demo_fs_def)
    ultimately show ?thesis by (auto simp: st16_def a store16_def store_bytes_def)
  qed
  have "small_dir_fs busy x = fs_file ?s x" if "is_meta (fs_file ?s) demo_sc x" for x
  proof -
    have "x < 2432" using that unfolding c(4) image_meta by linarith
    then show ?thesis by (simp add: bytes small_dir_fs_def)
  qed
  note n = srv_ok_nonmeta [OF c(1), of "small_dir_fs busy", unfolded s, OF this]
  show "srv_ok (small_dir_server busy)" "free_nums K (small_dir_server busy) = free_nums K image_server"
    "valid_nums K (small_dir_server busy) = valid_nums K image_server" "is_meta (small_dir_fs busy) demo_sc = is_meta image_fs demo_sc"
    using n c by simp_all
qed

lemma small_dir_blk_at: "blk_at (small_dir_server busy) = blk_at image_server"
  by (simp add: blk_at_def fun_eq_iff)

lemma small_dir_file: "file_blocks (small_dir_server busy) 3328 = [19]" "direct_file (small_dir_server busy) 3328"
proof -
  show b: "file_blocks (small_dir_server busy) 3328 = [19]"
    by (simp add: file_blocks_def file_block_def ld32_def small_dir_words Size_In_Blocks_def demo_sc_def upt_rec)
  have "disj_range (blk_at image_server b) 128 3328 128" if "b \<in> {19, 20, 21, 22}" for b
    using that by (auto simp: image_blk_at disj_range_def)
  moreover have "ld32 (small_dir_server busy) (slot 3328 i) = 0" if "1 \<le> i" "i < 12" for i
  proof -
    have "small_dir_fs busy x = 0" if "3372 \<le> x" for x using that by (simp add: small_dir_fs_def image_fs_def demo_fs_def)
    then show ?thesis using \<open>1 \<le> i\<close> by (simp add: ld32_def load32_def load_bytes_def upt_rec)
  qed
  ultimately show "direct_file (small_dir_server busy) 3328"
    using image_valid_nums by (simp add: direct_file_def b small_dir_facts small_dir_blk_at image_free_nums demo_simps image_meta)
qed

lemma small_dir_chain: "dchain (small_dir_fs busy) 2944 3072 [2944, 2956]" "entry_of (small_dir_fs busy) 2944 = (2, [46])" "entry_of (small_dir_fs busy) 2956 = (3, [97])"
proof -
  from dchain_frame [OF image_chain small_dir_parent [of busy]] have c: "dchain (small_dir_fs busy) 2944 3072 [2944, 2956]"
    "map (entry_of (small_dir_fs busy)) [2944, 2956] = map (entry_of image_fs) [2944, 2956]" by blast+
  show "dchain (small_dir_fs busy) 2944 3072 [2944, 2956]" by (rule c(1))
  show "entry_of (small_dir_fs busy) 2944 = (2, [46])" "entry_of (small_dir_fs busy) 2956 = (3, [97])" using c(2) by (simp_all add: image_entry_fields)
qed

lemma small_dir_inode: "n \<in> {2, 3} \<Longrightarrow> Inode_Global_Read (small_dir_fs busy) demo_sc n = Some (3072 + 128 * unat (n - 1))"
  by (auto simp: Inode_Global_Read_def Inode_Local_Read_def Inode_readTable_def Group_Descriptor_read_def
      Inode_locateGroup_def Inode_getLocalIndex_def demo_sc_def sizeof_inode_def small_dir_words)

lemma small_dir_addresses: "Inode_Get_Data_Adressess (small_dir_fs busy) demo_sc 3200 128 = Some [23, 0]"
  by (subst data_addresses_cases, simp add: demo_sc_def ptrs_per_block_def,
      simp add: demo_sc_def Size_In_Blocks_def max_file_blocks_def ptrs_per_block_def file_block_def upt_rec Let_def small_dir_words)

lemma small_dir_resolves:
  "resolve (small_dir_server busy) [''a''] = Some (Some 3328, 3, False)" "resolve (small_dir_server busy) [] = Some (Some 3200, 2, False)"
proof -
  have e: "e_inode (small_dir_fs busy) 2944 = 2" "e_inode (small_dir_fs busy) 2956 = 3" using small_dir_chain(2,3) by (simp_all add: entry_of_def)
  then have "block_entries (small_dir_fs busy) 2944 3072 = Some [2944, 2956]" using block_entries_chain [OF small_dir_chain(1)] by simp
  then have "read_directory (small_dir_server busy) 3200 = Some (Some [2944, 2956])"
    by (simp add: read_directory_def ld32_def small_dir_words small_dir_addresses data_blocks_def small_dir_blk_at image_blk_at)
  moreover have "entry_matches (small_dir_fs busy) 2956 ''a''" "\<not> entry_matches (small_dir_fs busy) 2944 ''a''"
    by (simp_all add: matches_entry small_dir_chain bytes_of_string_def char_byte_def)
  ultimately show "resolve (small_dir_server busy) [''a''] = Some (Some 3328, 3, False)" "resolve (small_dir_server busy) [] = Some (Some 3200, 2, False)"
    by (simp_all add: resolve_def ROOT_INODE_NUMBER_def small_dir_inode e)
qed

lemma small_dir_own_fields:
  "unat (e_len (small_dir_fs busy) 2432) = 12" "unat (e_len (small_dir_fs busy) 2444) = (if busy then 12 else 116)" "unat (e_len (small_dir_fs True) 2456) = 104"
  "e_name_len (small_dir_fs busy) 2432 = 1" "e_name_len (small_dir_fs busy) 2444 = 2" "e_name_len (small_dir_fs True) 2456 = 1"
  by (simp_all add: e_len_def e_name_len_def small_dir_fs_def load16_def load_bytes_def upt_rec)

lemma small_dir_parent_fields:
  "unat (e_len (small_dir_fs busy) 2944) = 12" "unat (e_len (small_dir_fs busy) 2956) = 116" "e_name_len (small_dir_fs busy) 2944 = 1" "e_name_len (small_dir_fs busy) 2956 = 1"
  by (simp_all add: e_len_def e_name_len_def small_dir_fs_def image_fs_def demo_fs_def load16_def load_bytes_def upt_rec)

lemma small_dir_own: "own_entries (small_dir_server busy) 19 (if busy then [2432, 2444, 2456] else [2432, 2444])"
  by (cases busy) (simp_all add: own_entries_def small_dir_blk_at image_blk_at demo_simps small_dir_own_fields get_padded_size_def sizeof_entry_def padded_def)

lemma small_dir_linked: "linked_file (small_dir_server busy) 3200 3328 3 ''a'' [23] [[(2, [46]), (3, [97])]]"
proof -
  have b: "bytes_of_string ''a'' = [97]" by (simp add: bytes_of_string_def char_byte_def)
  have "ld32 (small_dir_server busy) (3200 + inode_off I_blocks) * 512 = 512" by (simp add: ld32_def small_dir_words)
  moreover have "Inode_Get_Data_Adressess (small_dir_fs busy) demo_sc 3200 512 = Some [23, 0, 0, 0, 0]"
  proof -
    have "load32 (small_dir_fs busy) 3244 = 0" "load32 (small_dir_fs busy) 3248 = 0" "load32 (small_dir_fs busy) 3252 = 0"
      by (simp_all add: load32_def load_bytes_def upt_rec small_dir_fs_def image_fs_def demo_fs_def)
    then show ?thesis
      by (subst data_addresses_cases, simp add: demo_sc_def ptrs_per_block_def)
        (simp add: demo_sc_def Size_In_Blocks_def max_file_blocks_def ptrs_per_block_def file_block_def upt_rec Let_def small_dir_words)
  qed
  ultimately have a: "map_option data_blocks (Inode_Get_Data_Adressess (small_dir_fs busy) demo_sc 3200 (ld32 (small_dir_server busy) (3200 + inode_off I_blocks) * 512)) = Some [23]"
    by (simp only:) (simp add: data_blocks_def)
  have "block_holds (small_dir_fs busy) 2944 128 [(2, [46]), (3, [97])]"
    unfolding block_holds_def using small_dir_chain [of busy] by (intro exI [of _ "[2944, 2956]"]) (simp del: dchain.simps)
  moreover have "e_name_len (small_dir_fs busy) 3072 = 0" by (simp add: e_name_len_def small_dir_fs_def image_fs_def demo_fs_def)
  then have "\<not> entry_matches (small_dir_fs busy) 3072 ''a''" by (simp add: entry_matches_def)
  then have "deletable (small_dir_fs busy) 2944 128 ''a''"
    unfolding deletable_def using small_dir_chain [of busy] b
    by (intro conjI exI [of _ "[2944, 2956]"]) (simp_all add: matches_entry small_dir_parent_fields)
  ultimately show ?thesis
    unfolding linked_file_def using a image_numbers small_dir_file(1)
    by (simp add: dir_holds_def apart_def small_dir_blk_at image_blk_at small_dir_facts image_free_nums demo_simps disj_range_def)
qed

lemma delete_dir_contract_witness:
  "(\<exists>st'. delete_dir read_params (small_dir_server False) = Some (new_result read_params (D_word 0), st') \<and>
      free_nums Blocks st' = {19, 20, 22} \<and> free_nums Inodes st' = {3, 6} \<and> directories st' 0 = 1) \<and>
   (\<exists>st' cs'. delete_dir read_params (small_dir_server True) = Some (new_result read_params (D_word 1), st') \<and> errno st' = ENOTEMPTY \<and>
      free_nums Blocks st' = {20, 22} \<and> free_nums Inodes st' = {6} \<and> directories st' 0 = 2 \<and>
      dir_holds st' [23] cs' \<and> concat cs' = [(2, [46])])"
proof -
  have r: "ready (small_dir_server busy) ([] @ [''a''])" "ready (small_dir_server busy) []" for busy
    by (simp_all add: ready_def afl_ok_def afl_tab_def idle_def bump_def list_create_def list_ok_def component_ok_def separator_def)
  have p: "p_path read_params = st_path ([] @ [''a''])" "length ([] :: string list) \<le> 1"
    by (simp_all add: read_params_def st_path_def path_of_def separator_def)
  have res: "resolve (small_dir_server busy) ([] @ [''a'']) = Some (Some 3328, 3, False)" for busy using small_dir_resolves by simp
  have w: "no_wrap (Super_constants (small_dir_server busy))" for busy by (simp add: no_wrap_def demo_simps)
  have bl: "ld32 (small_dir_server busy) (3328 + inode_off I_blocks) \<le> BLOCK_SIZE (Super_constants (small_dir_server busy)) div 512" for busy
    by (simp add: ld32_def small_dir_words)
  have g: "0 = unat (Inode_locateGroup (Super_constants (small_dir_server busy)) 3)" for busy by (simp add: Inode_locateGroup_def demo_sc_def)
  have b: "bytes_of_string ''a'' = [97]" by (simp add: bytes_of_string_def char_byte_def)
  have two: "directories (small_dir_server busy) 0 = 2" for busy by (simp add: directories_def dirs_addr_def demo_simps small_dir_words)
  note use = delete_dir_contract [OF r p(2,1) res small_dir_resolves(2) small_dir_facts(1) w small_dir_file(2,1) bl small_dir_linked small_dir_own g]
  show ?thesis
    using use [of False] use [of True]
    by (auto simp: small_dir_facts image_free_nums image_numbers two b)
qed

end
