(* ===== verification/Creacion_Dir.thy ===== *)
theory Creacion_Dir
  imports Creacion Borrado_Dir
begin

text \<open>
  Creating a directory, the other branch of \<open>create_file_dir\<close> of \<^verbatim>\<open>rfs/source_RFS/file_operations.c\<close>: the
  inode of a directory, its first block, the entries for itself and its parent, and the count of
  directories. What is left is a block as \<open>delete_dir\<close> expects it.
\<close>

section \<open>The two entries\<close>

lemma two_entries:
  assumes l: "unat (e_len fs a) = l" "24 \<le> l" "4 dvd l" and e: "entry_of fs a = (n, [46])"
  shows "\<exists>fs'. attach_in_block fs a (a + l) (create_entry ''..'' m) = Some (True, fs') \<and> dchain fs' a (a + l) [a, a + 12] \<and>
    map (entry_of fs') [a, a + 12] = [(n, [46]), (m, [46, 46])] \<and> unat (e_len fs' a) = get_padded_size fs' a \<and> same_outside a (a + l) fs fs'"
proof -
  have name: "unat (e_name_len f a) = 1" if "entry_of f a = (n, [46])" for f
  proof -
    have "load_bytes f (a + 8) (unat (e_name_len f a)) = [46]" using that by (simp add: entry_of_def e_name_def)
    from arg_cong [OF this, of length] show ?thesis by simp
  qed
  have pad: "get_padded_size f a = 12" if "entry_of f a = (n, [46])" for f
    using name [OF that] by (simp add: get_padded_size_def sizeof_entry_def padded_def)
  have ne: "new_entry_ok (create_entry ''..'' m) 2" "inode_number (create_entry ''..'' m) = m" "file_name (create_entry ''..'' m) = [46, 46]"
    by (simp_all add: new_entry_ok_def create_entry_def sizeof_entry_def bytes_of_string_def char_byte_def)
  have sl: "slack fs a = l - 12" using pad [OF e] l(1) by (simp add: slack_def)
  define fs' where "fs' = copy_new_entry (set_e_len fs a (of_nat (get_padded_size fs a))) (a + get_padded_size fs a)
    ((create_entry ''..'' m)\<lparr>entry_len := of_nat (slack fs a)\<rparr>)"
  have "8 + 2 < slack fs a" "4 dvd unat (e_len fs a)" using sl l by simp_all
  note h = attach_split [OF ne(1) this(2,1) fs'_def, unfolded pad [OF e] l(1) ne e]
  have "10 < l - 12" using l(2) by simp
  then have "attach_in_block fs a (a + l) (create_entry ''..'' m) = Some (True, fs')"
    using new_entry_len [OF ne(1)] l pad [OF e] sl by (subst attach_in_block.simps) (simp add: Let_def fs'_def)
  moreover have "unat (e_len fs' a) = 12" using h(1) by simp
  moreover have "get_padded_size fs' a = 12" using h(2) by (intro pad) simp
  ultimately show ?thesis using h by (intro exI [of _ fs']) (simp del: dchain.simps)
qed

section \<open>The inode\<close>

lemma init_inode_pointers:
  assumes "i < 12"
  shows "load32 (init_inode fs a b l m z) (slot a i) = 0"
proof -
  let ?fs = "store32 (store16 (store16 (store32 fs (a + 28) b) (a + 26) l) a m) (a + 4) z"
  have "load32 (store32s ?fs (a + 40) (replicate 12 0)) (slot a i) = 0"
    using load32_store32s_nth [of i "replicate 12 (0 :: u32)" ?fs "a + 40"] assms by (simp add: algebra_simps)
  then show ?thesis using assms by (simp add: init_inode_def mem_simps disj_range_def)
qed

lemma init_inode_blocks: "load32 (init_inode fs a b l m z) (a + inode_off I_blocks) = b"
  by (auto simp: init_inode_def mem_simps store32s_outside disj_range_def load_frames)

lemma make_dir_inode:
  fixes st :: "'c server" and inode :: nat and mode :: u32
  defines "sc \<equiv> Super_constants st"
  assumes ok: "srv_ok st" and meta: "\<forall>k < 128. \<not> is_meta (fs_file st) sc (inode + k)" and g: "g = unat (n div INODES_PER_GROUP sc)" "g < groups sc"
  shows "\<exists>st'. setDirInode st inode mode n = Some st' \<and> st' = st\<lparr>fs_file := fs_file st'\<rparr> \<and> srv_ok st' \<and>
    (\<forall>K. free_nums K st' = free_nums K st) \<and> (\<forall>K. valid_nums K st' = valid_nums K st) \<and> same_words sc (fs_file st) (fs_file st') \<and>
    directories st' g = directories st g + 1 \<and>
    (\<forall>i < 12. ld32 st' (slot inode i) = 0) \<and> ld32 st' (inode + inode_off I_size) = BLOCK_SIZE sc \<and>
    ld32 st' (inode + inode_off I_blocks) = BLOCK_SIZE sc div 512 \<and> ld16 st' (inode + inode_off I_mode) = ucast (mode OR EXT2_IFDIR) \<and>
    ld16 st' (inode + inode_off I_links_count) = 1 \<and>
    (\<forall>x. \<not> is_meta (fs_file st) sc x \<and> disj_range inode 128 x 1 \<longrightarrow> fs_file st' x = fs_file st x)"
proof -
  define s0 where "s0 = st16 st (dirs_addr sc g) (ld16 st (dirs_addr sc g) + 1)"
  have sc0: "Super_constants s0 = sc" "s0 = st\<lparr>fs_file := fs_file s0\<rparr>" by (simp_all add: s0_def st16_def sc_def)
  note c = count_directories [OF ok, of g s0 "ld16 st (dirs_addr sc g) + 1", folded sc_def, OF g(2) s0_def]
  define fs' where "fs' = init_inode (fs_file s0) inode (BLOCK_SIZE sc div 512) 1 (ucast (mode OR EXT2_IFDIR)) (BLOCK_SIZE sc)"
  have "n div INODES_PER_GROUP sc < TOTAL_GROUPS sc" using g by (simp add: word_less_nat_alt groups_def)
  then have "Group_Descriptor_read sc (n div INODES_PER_GROUP sc) = Some (gd_addr sc g)"
    by (simp add: Group_Descriptor_read_def gd_addr_def g(1) sizeof_Group_Descriptor_def)
  then have run: "setDirInode st inode mode n = Some (s0\<lparr>fs_file := fs'\<rparr>)"
    by (simp add: setDirInode_def sc_def [symmetric] Let_def dirs_addr_def [symmetric] s0_def [symmetric] fs'_def del: Group_Descriptor_off.simps)
  have meta0: "\<forall>k < 128. \<not> is_meta (fs_file s0) (Super_constants s0) (inode + k)" using meta by (simp add: sc0(1) c(4))
  have out: "fs' x = fs_file s0 x" if "disj_range inode 128 x 1" for x using that by (simp add: fs'_def init_inode_outside)
  note i = inode_write [OF c(1) meta0 out]
  have low: "fs' x = fs_file s0 x" if "is_meta (fs_file s0) sc x" for x
    by (rule meta_off_inode [OF meta0 [unfolded sc0(1)] that out])
  have lay: "layout (fs_file st) sc" using ok fs_okD(1) by (auto simp: srv_ok_def sc_def)
  have w: "same_words sc (fs_file st) (fs_file s0)" using store_dirs(1) [OF lay g(2)] by (simp add: s0_def st16_def)
  have w': "same_words sc (fs_file st) fs'"
    using same_words_trans [OF w nonmeta_change(1) [OF _ low]] same_words_layout [OF w] lay by simp
  have "directories s0 g = ld16 st (dirs_addr sc g) + 1" by (rule c(6))
  then have "directories s0 g = directories st g + 1" by (simp add: directories_def ld16_def sc_def)
  moreover have "directories (s0\<lparr>fs_file := fs'\<rparr>) g = directories s0 g"
    using low g(2) by (intro directories_frame) (simp_all add: sc0(1))
  moreover have "s0\<lparr>fs_file := fs'\<rparr> = st\<lparr>fs_file := fs'\<rparr>" by (subst sc0(2)) simp
  moreover have "fs' x = fs_file st x" if "\<not> is_meta (fs_file st) sc x" "disj_range inode 128 x 1" for x
    using out [OF that(2)] c(5) [OF that(1)] by simp
  ultimately show ?thesis
    using run i(1-3) c(2,3) w' init_inode_pointers init_inode_fields init_inode_blocks
    by (intro exI [of _ "s0\<lparr>fs_file := fs'\<rparr>"]) (simp add: ld32_def ld16_def fs'_def [symmetric]; simp add: fs'_def)
qed

section \<open>The new directory\<close>

text \<open>
  Where the code for a new directory is defined: blocks that hold the two entries and whose size fits
  an entry, a place for the inode away from the bitmaps and the free blocks, and a group for the
  count, which is computed without subtracting one from the inode number.
\<close>

definition dir_inode_ok :: "'c server \<Rightarrow> u32 \<Rightarrow> nat \<Rightarrow> bool" where
  "dir_inode_ok st n inode \<longleftrightarrow> (let sc = Super_constants st in
     24 \<le> bsize sc \<and> bsize sc < 65536 \<and> 4 dvd bsize sc \<and> (\<forall>k < 128. \<not> is_meta (fs_file st) sc (inode + k)) \<and>
     (\<forall>b \<in> free_nums Blocks st. disj_range (blk_at st b) (bsize sc) inode 128) \<and> unat (n div INODES_PER_GROUP sc) < groups sc)"

text \<open>The directory \<open>n\<close> with inode at \<open>inode\<close> and block \<open>b\<close>, whose parent has number \<open>m\<close>.\<close>

definition directory_made :: "'c server \<Rightarrow> u32 \<Rightarrow> u32 \<Rightarrow> nat \<Rightarrow> u32 \<Rightarrow> u32 \<Rightarrow> bool" where
  "directory_made st mode n inode m b \<longleftrightarrow> direct_file st inode \<and> file_blocks st inode = [b] \<and>
     own_entries st b [blk_at st b, blk_at st b + 12] \<and>
     dir_holds st [b] [[(n, bytes_of_string ''.''), (m, bytes_of_string ''..'')]] \<and>
     ld32 st (inode + inode_off I_blocks) = BLOCK_SIZE (Super_constants st) div 512 \<and>
     stat_at st inode n = \<lparr>rs_inode_number = n, rs_mode = ucast (mode OR EXT2_IFDIR), rs_size = BLOCK_SIZE (Super_constants st), rs_links_count = 1\<rparr>"

lemma one_block:
  assumes "0 < bsize sc" and "unat z \<le> bsize sc"
  shows "max 1 (Size_In_Blocks sc z) = 1" "unat z = bsize sc \<Longrightarrow> Size_In_Blocks sc z = 1"
proof -
  have b: "Size_In_Blocks sc z = (unat z + bsize sc - 1) div bsize sc" using blocks_nat [of sc z] assms(1) by (simp add: bsize_def)
  also have "\<dots> \<le> (2 * bsize sc - 1) div bsize sc" using assms by (intro div_le_mono) simp
  also have "\<dots> = 1" using assms(1) by (simp add: div_nat_eqI)
  finally show "max 1 (Size_In_Blocks sc z) = 1" by simp
  show "unat z = bsize sc \<Longrightarrow> Size_In_Blocks sc z = 1" using assms(1) unfolding b by (simp add: div_nat_eqI)
qed

lemma single_address:
  assumes "16 \<le> bsize sc" and "unat z \<le> bsize sc" and "load32 fs (slot inode 0) = b" and "b \<noteq> 0"
  shows "map_option data_blocks (Inode_Get_Data_Adressess fs sc inode z) = Some [b]"
proof -
  have "0 < ptrs_per_block sc" using assms(1) by (simp add: ptrs_per_block_def bsize_def)
  moreover have "max 1 (Size_In_Blocks sc z) = 1" using one_block(1) [of sc z] assms(1,2) by simp
  ultimately show ?thesis
    using assms(3,4) by (simp only: data_addresses_cases Let_def) (simp add: max_file_blocks_def file_block_def data_blocks_def)
qed

lemma whole_sectors: "unat (w div 512 * 512 :: u32) \<le> unat w"
proof -
  have "unat (w div 512 * 512) \<le> unat (w div 512) * 512" by (simp add: unat_word_ariths(2) del: unat_div)
  also have "\<dots> \<le> unat w" by (simp add: unat_div)
  finally show ?thesis .
qed

lemma first_block:
  fixes s1 :: "'c server"
  defines "sc \<equiv> Super_constants s1"
  assumes ok: "srv_ok s1" and meta: "\<forall>k < 128. \<not> is_meta (fs_file s1) sc (inode + k)" and z: "\<forall>i < 12. ld32 s1 (slot inode i) = 0"
    and apart: "\<forall>b \<in> free_nums Blocks s1. disj_range (blk_at s1 b) (bsize sc) inode 128" and free: "free_nums Blocks s1 \<noteq> {}"
  shows "\<exists>b fs2. Attach_Blocks s1 inode 1 = Some (0, s1\<lparr>fs_file := fs2\<rparr>) \<and> b \<in> free_nums Blocks s1 \<and> srv_ok (s1\<lparr>fs_file := fs2\<rparr>) \<and>
    free_nums Blocks (s1\<lparr>fs_file := fs2\<rparr>) = free_nums Blocks s1 - {b} \<and> free_nums Inodes (s1\<lparr>fs_file := fs2\<rparr>) = free_nums Inodes s1 \<and>
    valid_nums Blocks (s1\<lparr>fs_file := fs2\<rparr>) = valid_nums Blocks s1 \<and> same_words sc (fs_file s1) fs2 \<and>
    load32 fs2 (slot inode 0) = b \<and> (\<forall>k < 128. k < 40 \<or> 44 \<le> k \<longrightarrow> fs2 (inode + k) = fs_file s1 (inode + k)) \<and>
    (\<forall>x. \<not> is_meta (fs_file s1) sc x \<and> disj_range inode 128 x 1 \<and> \<not> in_block sc b x \<longrightarrow> fs2 x = fs_file s1 x)"
proof -
  have "finite (free_nums Blocks s1)" unfolding free_nums_def by (simp add: finite_free_set)
  then have "1 \<le> card (free_nums Blocks s1)" using free by (simp add: Suc_le_eq card_gt_0_iff)
  then obtain bs fs2 where r: "Attach_Blocks s1 inode (of_nat 1) = Some (0, s1\<lparr>fs_file := fs2\<rparr>)" "srv_ok (s1\<lparr>fs_file := fs2\<rparr>)"
    "length bs = 1" "set bs \<subseteq> free_nums Blocks s1" "free_nums Blocks (s1\<lparr>fs_file := fs2\<rparr>) = free_nums Blocks s1 - set bs"
    "valid_nums Blocks (s1\<lparr>fs_file := fs2\<rparr>) = valid_nums Blocks s1" "\<forall>i < 1. load32 fs2 (slot inode (0 + i)) = bs ! i"
    "\<forall>x. \<not> is_meta (fs_file s1) sc x \<and> disj_range (slot inode 0) (4 * 1) x 1 \<and> (\<forall>b \<in> set bs. \<not> in_block sc b x) \<longrightarrow> fs2 x = fs_file s1 x"
    "free_nums Inodes (s1\<lparr>fs_file := fs2\<rparr>) = free_nums Inodes s1" "same_words sc (fs_file s1) fs2"
    using attach_direct [OF ok meta [unfolded sc_def], of 0 1] z unfolding sc_def by (simp only: if_True) auto
  then obtain b where b: "bs = [b]" by (cases bs) auto
  have "fs2 (inode + k) = fs_file s1 (inode + k)" if "k < 128" "k < 40 \<or> 44 \<le> k" for k
  proof (rule r(8) [rule_format], intro conjI)
    show "\<not> is_meta (fs_file s1) sc (inode + k)" using meta that(1) by blast
    show "disj_range (slot inode 0) (4 * 1) (inode + k) 1" using that by (auto simp: disj_range_def)
    show "\<forall>b \<in> set bs. \<not> in_block sc b (inode + k)"
      using apart r(4) that(1) b by (auto simp: disj_range_def in_block_def blk_at_def sc_def)
  qed
  moreover have "disj_range (slot inode 0) (4 * 1) x 1" if "disj_range inode 128 x 1" for x using that by (auto simp: disj_range_def)
  ultimately show ?thesis using r b by (intro exI [of _ b] exI [of _ fs2]) auto
qed

lemma write_own_entries:
  fixes s :: "'c server" and b n m :: u32
  defines "sc \<equiv> Super_constants s" and "a \<equiv> blk_at s b"
  assumes sz: "24 \<le> bsize sc" "bsize sc < 65536" "4 dvd bsize sc" and b: "b \<noteq> 0" "load32 (fs_file s) (slot inode 0) = b"
    and blocks: "ld32 s (inode + inode_off I_blocks) = BLOCK_SIZE sc div 512" and apart: "disj_range a (bsize sc) inode 128"
  shows "\<exists>fs'. attach_entry (s\<lparr>fs_file := copy_new_entry (fs_file s) a ((create_entry ''.'' n)\<lparr>entry_len := ucast (BLOCK_SIZE sc)\<rparr>)\<rparr>) inode
      (create_entry ''..'' m) = Some (True, s\<lparr>fs_file := fs'\<rparr>) \<and> dchain fs' a (a + bsize sc) [a, a + 12] \<and>
    map (entry_of fs') [a, a + 12] = [(n, [46]), (m, [46, 46])] \<and> unat (e_len fs' a) = get_padded_size fs' a \<and>
    (\<forall>x. \<not> in_block sc b x \<longrightarrow> fs' x = fs_file s x)"
proof -
  define fs1 where "fs1 = copy_new_entry (fs_file s) a ((create_entry ''.'' n)\<lparr>entry_len := ucast (BLOCK_SIZE sc)\<rparr>)"
  have ne: "new_entry_ok (create_entry ''.'' n) 1" "inode_number (create_entry ''.'' n) = n" "file_name (create_entry ''.'' n) = [46]"
    by (simp_all add: new_entry_ok_def create_entry_def sizeof_entry_def bytes_of_string_def char_byte_def)
  note c = copy_new_entry_fields [OF ne(1) fs1_def, unfolded ne]
  have "unat (ucast (BLOCK_SIZE sc) :: u16) = bsize sc"
    using sz(2) by (simp add: bsize_def unsigned_ucast_eq take_bit_eq_mod)
  then have "unat (e_len fs1 a) = bsize sc" using c(1) by simp
  note two = two_entries [OF this sz(1,3) c(3), of m]
  obtain fs' where r: "attach_in_block fs1 a (a + bsize sc) (create_entry ''..'' m) = Some (True, fs')"
    "dchain fs' a (a + bsize sc) [a, a + 12]" "map (entry_of fs') [a, a + 12] = [(n, [46]), (m, [46, 46])]"
    "unat (e_len fs' a) = get_padded_size fs' a" "same_outside a (a + bsize sc) fs1 fs'"
    by (rule exE [OF two], elim conjE, rule that)
  have out: "fs1 x = fs_file s x" if "\<not> (a \<le> x \<and> x < a + bsize sc)" for x
    using c(4) that sz(1) by (auto simp: same_outside_def)
  have in_inode: "\<not> (a \<le> inode + k + i \<and> inode + k + i < a + bsize sc)" if "k + 4 \<le> 128" "i < 4" for k i
    using apart that by (auto simp: disj_range_def)
  have keep: "load32 fs1 (inode + k) = load32 (fs_file s) (inode + k)" if "k + 4 \<le> 128" for k
    using in_inode that by (intro load32_eqI out) auto
  define s1 where "s1 = s\<lparr>fs_file := fs1\<rparr>"
  have "ld32 s1 (inode + inode_off I_blocks) = BLOCK_SIZE sc div 512" "load32 fs1 (slot inode 0) = b"
    using keep [of 28] keep [of 40] blocks b(2) by (simp_all add: s1_def ld32_def)
  then have "map_option data_blocks (Inode_Get_Data_Adressess (fs_file s1) (Super_constants s1) inode (ld32 s1 (inode + inode_off I_blocks) * 512)) = Some [b]"
    using sz(1) b(1) whole_sectors [of "BLOCK_SIZE sc"] by (intro single_address) (simp_all add: s1_def sc_def bsize_def)
  moreover have "attach_in_blocks s1 [b] (create_entry ''..'' m) = Some (True, s\<lparr>fs_file := fs'\<rparr>)"
    using r(1) by (simp add: s1_def a_def sc_def bsize_def)
  ultimately have "attach_entry s1 inode (create_entry ''..'' m) = Some (True, s\<lparr>fs_file := fs'\<rparr>)"
    by (subst attach_entry.simps) (auto split: option.splits simp del: attach_in_blocks.simps)
  moreover have "\<forall>x. \<not> in_block sc b x \<longrightarrow> fs' x = fs_file s x"
    using r(5) out by (auto simp: same_outside_def in_block_def a_def blk_at_def sc_def not_le not_less)
  ultimately show ?thesis using r(2-4) unfolding s1_def fs1_def by (intro exI [of _ fs'] conjI)
qed

lemma directory_madeI:
  fixes st :: "'c server" and b n m mode :: u32
  defines "sc \<equiv> Super_constants st" and "a \<equiv> blk_at st b"
  assumes b: "b \<in> valid_nums Blocks st - free_nums Blocks st" and meta: "\<forall>k < 128. \<not> is_meta (fs_file st) sc (inode + k)"
    and apart: "\<forall>c \<in> insert b (free_nums Blocks st). disj_range (blk_at st c) (bsize sc) inode 128"
    and slots: "ld32 st (slot inode 0) = b" "\<forall>i < 12. 0 < i \<longrightarrow> ld32 st (slot inode i) = 0"
    and size: "ld32 st (inode + inode_off I_size) = BLOCK_SIZE sc" "24 \<le> bsize sc"
    and fields: "ld32 st (inode + inode_off I_blocks) = BLOCK_SIZE sc div 512" "ld16 st (inode + inode_off I_mode) = ucast (mode OR EXT2_IFDIR)"
      "ld16 st (inode + inode_off I_links_count) = 1"
    and ch: "dchain (fs_file st) a (a + bsize sc) [a, a + 12]" "map (entry_of (fs_file st)) [a, a + 12] = [(n, [46]), (m, [46, 46])]"
      "unat (e_len (fs_file st) a) = get_padded_size (fs_file st) a"
  shows "directory_made st mode n inode m b"
proof -
  have "0 < bsize sc" "unat (BLOCK_SIZE sc) \<le> bsize sc" "unat (BLOCK_SIZE sc) = bsize sc" using size(2) by (simp_all add: bsize_def [of sc])
  note one = one_block(2) [OF this]
  have fb: "file_blocks st inode = [b]"
    unfolding file_blocks_def sc_def [symmetric] size(1) one using slots(1) by (simp add: file_block_def ld32_def)
  moreover have "ld32 st (slot inode i) = 0" if "Suc 0 \<le> i" "i < 12" for i using slots(2) that by simp
  ultimately have "direct_file st inode" using b meta apart by (simp add: direct_file_def sc_def)
  moreover have "own_entries st b [a, a + 12]" using ch(1,3) by (simp add: own_entries_def a_def sc_def del: dchain.simps)
  moreover have "block_holds (fs_file st) a (bsize sc) [(n, bytes_of_string ''.''), (m, bytes_of_string ''..'')]"
    unfolding block_holds_def using ch(1,2)
    by (intro exI [of _ "[a, a + 12]"] conjI) (simp_all add: bytes_of_string_def char_byte_def del: dchain.simps)
  then have "dir_holds st [b] [[(n, bytes_of_string ''.''), (m, bytes_of_string ''..'')]]" by (simp add: dir_holds_def a_def sc_def bsize_def)
  ultimately show ?thesis using fb size(1) fields by (simp add: directory_made_def stat_at_def a_def sc_def)
qed

lemma new_directory_ok:
  fixes s :: "'c server"
  defines "sc \<equiv> Super_constants s"
  assumes ok: "srv_ok s" and place: "dir_inode_ok s n inode" and free: "free_nums Blocks s \<noteq> {}" and e: "errno s \<noteq> ENOSPC"
  shows "\<exists>b fs'. new_directory s inode params n parent m = Some (True, s\<lparr>fs_file := fs'\<rparr>) \<and> b \<in> free_nums Blocks s \<and>
    srv_ok (s\<lparr>fs_file := fs'\<rparr>) \<and> free_nums Blocks (s\<lparr>fs_file := fs'\<rparr>) = free_nums Blocks s - {b} \<and>
    free_nums Inodes (s\<lparr>fs_file := fs'\<rparr>) = free_nums Inodes s \<and> same_words sc (fs_file s) fs' \<and>
    directory_made (s\<lparr>fs_file := fs'\<rparr>) (p_mode params) n inode m b \<and>
    (\<forall>x. \<not> is_meta (fs_file s) sc x \<and> disj_range inode 128 x 1 \<and> \<not> in_block sc b x \<longrightarrow> fs' x = fs_file s x)"
proof -
  have p: "24 \<le> bsize sc" "bsize sc < 65536" "4 dvd bsize sc" "\<forall>k < 128. \<not> is_meta (fs_file s) sc (inode + k)"
    "\<forall>b \<in> free_nums Blocks s. disj_range (blk_at s b) (bsize sc) inode 128" "unat (n div INODES_PER_GROUP sc) < groups sc"
    using place by (simp_all add: dir_inode_ok_def Let_def sc_def)
  obtain s1 where s1: "setDirInode s inode (p_mode params) n = Some s1" "s1 = s\<lparr>fs_file := fs_file s1\<rparr>" "srv_ok s1"
    "\<forall>K. free_nums K s1 = free_nums K s" "\<forall>K. valid_nums K s1 = valid_nums K s" "same_words sc (fs_file s) (fs_file s1)"
    "\<forall>i < 12. ld32 s1 (slot inode i) = 0" "ld32 s1 (inode + inode_off I_size) = BLOCK_SIZE sc"
    "ld32 s1 (inode + inode_off I_blocks) = BLOCK_SIZE sc div 512" "ld16 s1 (inode + inode_off I_mode) = ucast (p_mode params OR EXT2_IFDIR)"
    "ld16 s1 (inode + inode_off I_links_count) = 1"
    "\<forall>x. \<not> is_meta (fs_file s) sc x \<and> disj_range inode 128 x 1 \<longrightarrow> fs_file s1 x = fs_file s x"
    using make_dir_inode [of s inode _ n "p_mode params", folded sc_def, OF ok p(4) refl p(6)] by blast
  have sc1: "Super_constants s1 = sc" "blk_at s1 = blk_at s" "errno s1 = errno s" by (subst s1(2), simp add: sc_def)+
  have m1: "is_meta (fs_file s1) sc = is_meta (fs_file s) sc" by (rule same_words_meta [OF s1(6)])
  obtain b fs2 where r: "Attach_Blocks s1 inode 1 = Some (0, s1\<lparr>fs_file := fs2\<rparr>)" "b \<in> free_nums Blocks s" "srv_ok (s1\<lparr>fs_file := fs2\<rparr>)"
    "free_nums Blocks (s1\<lparr>fs_file := fs2\<rparr>) = free_nums Blocks s - {b}" "free_nums Inodes (s1\<lparr>fs_file := fs2\<rparr>) = free_nums Inodes s"
    "valid_nums Blocks (s1\<lparr>fs_file := fs2\<rparr>) = valid_nums Blocks s" "same_words sc (fs_file s1) fs2" "load32 fs2 (slot inode 0) = b"
    "\<forall>k < 128. k < 40 \<or> 44 \<le> k \<longrightarrow> fs2 (inode + k) = fs_file s1 (inode + k)"
    "\<forall>x. \<not> is_meta (fs_file s) sc x \<and> disj_range inode 128 x 1 \<and> \<not> in_block sc b x \<longrightarrow> fs2 x = fs_file s1 x"
    using first_block [of s1 inode, unfolded sc1 m1 s1(4) [rule_format] s1(5) [rule_format], OF s1(3) p(4) s1(7) p(5) free] by blast
  define s2 where "s2 = s\<lparr>fs_file := fs2\<rparr>"
  have s2: "s1\<lparr>fs_file := fs2\<rparr> = s2" by (subst s1(2)) (simp add: s2_def)
  have sc2: "Super_constants s2 = sc" "blk_at s2 = blk_at s" "fs_file s2 = fs2" by (simp_all add: s2_def sc_def)
  note r2 = r(1,3-6) [unfolded s2]
  have bv: "b \<in> valid_nums Blocks s" using r(2) blk.free_valid [OF ok] by blast
  have keep: "fs2 (inode + k) = fs_file s1 (inode + k)" if "k < 128" "k < 40 \<or> 44 \<le> k" for k using r(9) that by blast
  have k32: "ld32 s2 (inode + k) = ld32 s1 (inode + k)" if "k + 4 \<le> 40 \<or> 44 \<le> k \<and> k + 4 \<le> 128" for k
    unfolding ld32_def sc2(3) add.assoc using that by (intro load32_eqI) (simp only: add.assoc, intro keep, auto)
  have k16: "ld16 s2 (inode + k) = ld16 s1 (inode + k)" if "k + 2 \<le> 40" for k
    unfolding ld16_def sc2(3) add.assoc using that by (intro load16_eqI) (simp only: add.assoc, intro keep, auto)
  have "disj_range (blk_at s b) (bsize sc) inode 128" using p(5) r(2) by blast
  with write_own_entries [of s2 b inode n m, unfolded sc2, OF p(1-3) _ r(8) _ this] obtain fs' where
    a: "attach_entry (s2\<lparr>fs_file := copy_new_entry fs2 (blk_at s b) ((create_entry ''.'' n)\<lparr>entry_len := ucast (BLOCK_SIZE sc)\<rparr>)\<rparr>) inode
      (create_entry ''..'' m) = Some (True, s2\<lparr>fs_file := fs'\<rparr>)" "dchain fs' (blk_at s b) (blk_at s b + bsize sc) [blk_at s b, blk_at s b + 12]"
    "map (entry_of fs') [blk_at s b, blk_at s b + 12] = [(n, [46]), (m, [46, 46])]" "unat (e_len fs' (blk_at s b)) = get_padded_size fs' (blk_at s b)"
    "\<forall>x. \<not> in_block sc b x \<longrightarrow> fs' x = fs2 x"
    using k32 [of 28] s1(9) valid_nonzero [OF ok bv] by auto
  have run: "new_directory s inode params n parent m = Some (True, s2\<lparr>fs_file := fs'\<rparr>)"
    using r(8) e by (simp add: new_directory_def s1(1) r2(1) Let_def ld32_def a(1) sc2 s2_def [symmetric]) (use a(1) in \<open>simp add: s2_def sc_def\<close>)
  define st' where "st' = s2\<lparr>fs_file := fs'\<rparr>"
  have st': "st' = s\<lparr>fs_file := fs'\<rparr>" "Super_constants st' = sc" "blk_at st' = blk_at s" "fs_file st' = fs'"
    by (simp_all add: st'_def s2_def sc_def)
  have same: "fs' x = fs2 x" if "is_meta fs2 sc x" for x
    using a(5) valid_not_meta [OF bv] that same_words_meta [OF same_words_trans [OF s1(6) r(7)]] by (auto simp: sc_def)
  note ok' = srv_ok_nonmeta [OF r2(2), of fs', unfolded sc2, OF same, folded st'_def]
  have lay: "layout fs2 sc" using r2(2) fs_okD(1) by (auto simp: srv_ok_def sc2)
  have w: "same_words sc (fs_file s) fs'"
    using same_words_trans [OF same_words_trans [OF s1(6) r(7)] nonmeta_change(1) [OF lay]] same by blast
  have inode: "fs' (inode + k) = fs2 (inode + k)" if "k < 128" for k
    using a(5) p(5) r(2) that by (auto simp: in_block_def blk_at_def disj_range_def sc_def)
  have l32: "ld32 st' (inode + k) = ld32 s2 (inode + k)" and l16: "ld16 st' (inode + k) = ld16 s2 (inode + k)" if "k + 4 \<le> 128" for k
    unfolding ld32_def ld16_def st'(4) sc2(3) using that by (intro load32_eqI load16_eqI; simp only: add.assoc, intro inode, simp)+
  have "directory_made st' (p_mode params) n inode m b"
  proof (rule directory_madeI)
    show "b \<in> valid_nums Blocks st' - free_nums Blocks st'" using bv r2(3,5) ok'(2,3) by simp
    show "\<forall>k < 128. \<not> is_meta (fs_file st') (Super_constants st') (inode + k)" unfolding st'(2,4) same_words_meta [OF w] by (rule p(4))
    show "\<forall>c \<in> insert b (free_nums Blocks st'). disj_range (blk_at st' c) (bsize (Super_constants st')) inode 128"
      unfolding st'(2,3) using p(5) r(2) r2(3) ok'(2) by auto
    show "ld32 st' (slot inode 0) = b" using l32 [of 40] r(8) by (simp add: ld32_def sc2)
    show "\<forall>i < 12. 0 < i \<longrightarrow> ld32 st' (slot inode i) = 0"
      using s1(7) l32 [of "40 + 4 * i" for i] k32 [of "40 + 4 * i" for i] by (simp add: add.assoc)
    show "ld32 st' (inode + inode_off I_size) = BLOCK_SIZE (Super_constants st')" using l32 [of 4] k32 [of 4] s1(8) by (simp add: st'(2))
    show "ld32 st' (inode + inode_off I_blocks) = BLOCK_SIZE (Super_constants st') div 512" using l32 [of 28] k32 [of 28] s1(9) by (simp add: st'(2))
    show "ld16 st' (inode + inode_off I_mode) = ucast (p_mode params OR EXT2_IFDIR)" using l16 [of 0] k16 [of 0] s1(10) by simp
    show "ld16 st' (inode + inode_off I_links_count) = 1" using l16 [of 26] k16 [of 26] s1(11) by simp
    show "24 \<le> bsize (Super_constants st')" unfolding st'(2) by (rule p(1))
  qed (unfold st'(2-4), rule a(2), rule a(3), rule a(4))
  moreover have "fs' x = fs_file s x" if "\<not> is_meta (fs_file s) sc x" "disj_range inode 128 x 1" "\<not> in_block sc b x" for x
    using a(5) r(10) s1(12) that by simp
  ultimately show ?thesis
    using run r(2) ok'(1,2) r2(3,4) w unfolding st'_def [symmetric] st'(1) by (intro exI [of _ b] exI [of _ fs'] conjI) auto
qed

section \<open>The operation on the image\<close>

text \<open>
  What creating a directory needs besides room in the parent: the parent and its blocks are away from
  the free blocks, and every free inode has a place for a directory.
\<close>

definition place_for_dir :: "'c server \<Rightarrow> nat \<Rightarrow> u32 list \<Rightarrow> bool" where
  "place_for_dir st parent es \<longleftrightarrow> no_wrap (Super_constants st) \<and> set es \<inter> free_nums Blocks st = {} \<and>
     (\<forall>b \<in> free_nums Blocks st. disj_range (blk_at st b) (bsize (Super_constants st)) parent 128) \<and>
     (\<forall>n \<in> free_nums Inodes st. \<forall>inode. Inode_Global_Read (fs_file st) (Super_constants st) n = Some inode \<longrightarrow> dir_inode_ok st n inode)"

text \<open>From \<open>st\<close> to \<open>st'\<close> the directory \<open>name\<close> with number \<open>n\<close> and inode at \<open>inode\<close> came into the directory \<open>m\<close>.\<close>

definition dir_created ::
  "'c server \<Rightarrow> 'c server \<Rightarrow> u32 list \<Rightarrow> contents list \<Rightarrow> string \<Rightarrow> u32 \<Rightarrow> u32 \<Rightarrow> u32 \<Rightarrow> nat \<Rightarrow> bool" where
  "dir_created st st' es cs name mode m n inode \<longleftrightarrow> srv_ok st' \<and>
     n \<in> free_nums Inodes st \<and> free_nums Inodes st' = free_nums Inodes st - {n} \<and>
     (\<exists>b \<in> free_nums Blocks st. free_nums Blocks st' = free_nums Blocks st - {b} \<and> directory_made st' mode n inode m b) \<and>
     Inode_Global_Read (fs_file st) (Super_constants st) n = Some inode \<and> Inode_Global_Read (fs_file st') (Super_constants st') n = Some inode \<and>
     (\<exists>cs'. dir_holds st' es cs' \<and> inserted (n, bytes_of_string name) (concat cs) (concat cs'))"

lemma same_image_dir:
  assumes "same_image a b"
  shows "direct_file a = direct_file b" "own_entries a = own_entries b" "directory_made a = directory_made b" "dir_inode_ok a = dir_inode_ok b"
    "place_for_dir a = place_for_dir b"
proof -
  have e: "fs_file a = fs_file b" "Super_constants a = Super_constants b" using assms by (simp_all add: same_image_def)
  note q = same_image_facts [OF assms]
  show d: "direct_file a = direct_file b" by (simp add: direct_file_def q ld32_def e fun_eq_iff)
  show o: "own_entries a = own_entries b" by (simp add: own_entries_def q e fun_eq_iff)
  show "directory_made a = directory_made b" unfolding directory_made_def fun_eq_iff d o q ld32_def e by simp
  show i: "dir_inode_ok a = dir_inode_ok b" by (simp add: dir_inode_ok_def q e fun_eq_iff)
  show "place_for_dir a = place_for_dir b" by (simp add: place_for_dir_def q i e fun_eq_iff)
qed

lemma dir_created_image:
  assumes "same_image s st" and "same_image s' st'"
  shows "dir_created s s' = dir_created st st'"
  using assms by (simp add: dir_created_def same_image_facts [OF assms(1)] same_image_facts [OF assms(2)] same_image_dir [OF assms(2)] fun_eq_iff)
    (simp add: same_image_def)

lemma new_dir_image:
  fixes st :: "'c server" and params :: params_t
  defines "sc \<equiv> Super_constants st"
  assumes ok: "srv_ok st" and free: "free_nums Inodes st \<noteq> {}" "free_nums Blocks st \<noteq> {}" and d: "roomy_dir st parent name es cs"
    and apart: "free_inodes_apart st parent es" and nm: "0 < length name" "length name < 256" and place: "place_for_dir st parent es" and e: "errno st \<noteq> ENOSPC"
  shows "\<exists>n inode fs1 fs2 fs3. Get_Free_Inodes st 1 = Some (Some [n], st\<lparr>fs_file := fs1\<rparr>) \<and>
    attach_entry (st\<lparr>fs_file := fs1, active_file_list := k\<rparr>) parent (create_entry name n) = Some (True, st\<lparr>fs_file := fs2, active_file_list := k\<rparr>) \<and>
    Inode_Global_Read fs2 sc n = Some inode \<and> n \<noteq> 0 \<and>
    new_directory (st\<lparr>fs_file := fs2, active_file_list := k'\<rparr>) inode params n parent m = Some (True, st\<lparr>fs_file := fs3, active_file_list := k'\<rparr>) \<and>
    dir_created st (st\<lparr>fs_file := fs3\<rparr>) es cs name (p_mode params) m n inode \<and> same_words sc (fs_file st) fs3 \<and>
    map_option data_blocks (Inode_Get_Data_Adressess fs3 sc parent (load32 fs3 (parent + inode_off I_size))) = Some es \<and>
    (\<forall>x. kept st es x \<longrightarrow> fs3 x = fs_file st x)"
proof -
  obtain n inode fs1 fs2 cs' where g: "Get_Free_Inodes st 1 = Some (Some [n], st\<lparr>fs_file := fs1\<rparr>)"
    "attach_entry (st\<lparr>fs_file := fs1, active_file_list := k\<rparr>) parent (create_entry name n) = Some (True, st\<lparr>fs_file := fs2, active_file_list := k\<rparr>)"
    "n \<noteq> 0" "n \<in> free_nums Inodes st" and a: "srv_ok (st\<lparr>fs_file := fs2\<rparr>)" "free_nums Inodes (st\<lparr>fs_file := fs2\<rparr>) = free_nums Inodes st - {n}"
    "free_nums Blocks (st\<lparr>fs_file := fs2\<rparr>) = free_nums Blocks st" "same_words sc (fs_file st) fs2"
    "dir_holds (st\<lparr>fs_file := fs2\<rparr>) es cs'" "inserted (n, bytes_of_string name) (concat cs) (concat cs')"
    "\<forall>x. \<not> disj_range parent 128 x 1 \<or> kept st es x \<longrightarrow> fs2 x = fs_file st x"
    and i: "Inode_Global_Read (fs_file st) sc n = Some inode" "\<forall>k < 128. \<not> is_meta (fs_file st) sc (inode + k)"
    "disj_range inode 128 parent 128" "\<forall>b \<in> set es. disj_range (blk_at st b) (bsize sc) inode 128"
    using new_entry_image [OF ok free(1) d apart nm, of k] unfolding Let_def sc_def by blast
  define s where "s = st\<lparr>fs_file := fs2, active_file_list := k'\<rparr>"
  have s: "same_image s (st\<lparr>fs_file := fs2\<rparr>)" "Super_constants s = sc" "fs_file s = fs2" "blk_at s = blk_at st" "errno s = errno st"
    by (simp_all add: s_def same_image_def sc_def blk_at_def fun_eq_iff)
  note q = same_image_facts [OF s(1)]
  have "dir_inode_ok st n inode" using place g(4) i(1) by (simp add: place_for_dir_def sc_def)
  then have "dir_inode_ok s n inode"
    using same_words_meta [OF a(4)] by (simp add: dir_inode_ok_def Let_def s(2-4) q a(3)) (simp add: sc_def)
  then obtain b fs3 where r: "new_directory s inode params n parent m = Some (True, s\<lparr>fs_file := fs3\<rparr>)" "b \<in> free_nums Blocks st"
    "srv_ok (s\<lparr>fs_file := fs3\<rparr>)" "free_nums Blocks (s\<lparr>fs_file := fs3\<rparr>) = free_nums Blocks st - {b}"
    "free_nums Inodes (s\<lparr>fs_file := fs3\<rparr>) = free_nums Inodes st - {n}" "same_words sc fs2 fs3"
    "directory_made (s\<lparr>fs_file := fs3\<rparr>) (p_mode params) n inode m b"
    "\<forall>x. \<not> is_meta fs2 sc x \<and> disj_range inode 128 x 1 \<and> \<not> in_block sc b x \<longrightarrow> fs3 x = fs2 x"
    using new_directory_ok [of s n inode params parent m, unfolded s(2-5) q a(2,3), OF a(1) _ free(2) e] by blast
  note w = same_words_trans [OF a(4) r(6)] and meta = same_words_meta [OF a(4)]
  have bv: "b \<in> valid_nums Blocks st" using r(2) blk.free_valid [OF ok] by blast
  have "fs3 x = fs2 x" if c: "c \<in> set es" "in_block sc c x" for c x
  proof (rule r(8) [rule_format], intro conjI)
    have cv: "c \<in> valid_nums Blocks st" "c \<noteq> b" using c(1) roomy_dirD(4) [OF d] place r(2) by (auto simp: place_for_dir_def)
    show "\<not> is_meta fs2 sc x" unfolding meta using valid_not_meta [OF cv(1)] c(2) by (simp add: sc_def)
    show "disj_range inode 128 x 1" using i(4) c by (fastforce simp: disj_range_def in_block_def blk_at_def sc_def)
    have "no_wrap (Super_constants st)" using place by (simp add: place_for_dir_def)
    from valid_apart [OF ok this cv(1) bv cv(2)] c(2) show "\<not> in_block sc b x" by (auto simp: disj_range_def in_block_def blk_at_def sc_def)
  qed
  then have dh: "dir_holds (st\<lparr>fs_file := fs3\<rparr>) es cs'" by (intro dir_holds_blocks [OF a(5)]) (simp_all add: sc_def)
  have "fs3 x = fs_file st x" if x: "\<not> disj_range parent 128 x 1" for x
  proof -
    have "\<not> is_meta fs2 sc x" unfolding meta using not_meta_range [OF roomy_dirD(6) [OF d] x] by (simp add: sc_def)
    moreover have "disj_range inode 128 x 1" using i(3) x by (auto simp: disj_range_def)
    moreover have "\<not> in_block sc b x"
      using place r(2) x by (fastforce simp: place_for_dir_def disj_range_def in_block_def blk_at_def sc_def)
    ultimately have "fs3 x = fs2 x" using r(8) by blast
    then show ?thesis using a(7) x by simp
  qed
  then have es: "map_option data_blocks (Inode_Get_Data_Adressess fs3 sc parent (load32 fs3 (parent + inode_off I_size))) = Some es"
    using directory_blocks_frame(1) [OF d, of "st\<lparr>fs_file := fs3\<rparr>"] by (simp add: ld32_def sc_def)
  have im: "same_image (s\<lparr>fs_file := fs3\<rparr>) (st\<lparr>fs_file := fs3\<rparr>)" by (simp add: s_def same_image_def)
  have "dir_created st (st\<lparr>fs_file := fs3\<rparr>) es cs name (p_mode params) m n inode"
    unfolding dir_created_def using r(2-5,7) g(4) i(1) dh a(6) inode_address_frame [OF w]
    by (auto simp: same_image_facts [OF im] same_image_dir [OF im] sc_def)
  moreover have "fs3 x = fs_file st x" if x: "kept st es x" for x
  proof -
    have "\<not> is_meta fs2 sc x" "disj_range inode 128 x 1" "\<not> in_block sc b x"
      using x g(4) i(1) r(2) meta by (auto simp: kept_def Let_def sc_def)
    then show ?thesis using r(8) a(7) x by simp
  qed
  moreover have "Inode_Global_Read fs2 sc n = Some inode" using inode_address_frame [OF a(4)] i(1) by simp
  moreover have "new_directory (st\<lparr>fs_file := fs2, active_file_list := k'\<rparr>) inode params n parent m =
      Some (True, st\<lparr>fs_file := fs3, active_file_list := k'\<rparr>)" using r(1) by (simp add: s_def)
  ultimately show ?thesis using g(1-3) w es by blast
qed

section \<open>The whole operation\<close>

lemma create_dir_steps:
  assumes "p_path params = path" and "\<not> p_file params" and "st_find st path = Some s1" and "inode_of_file s1 path = Some (None, k, s2)"
    and "parent_path path = Some pdir" and "st_find (s2\<lparr>errno := 0\<rparr>) pdir = Some s3" and "inode_of_file s3 pdir = Some (Some parent, m, s4)"
    and "Get_Free_Inodes s4 1 = Some (Some [n], s5)" and "active_file_get_file_name path = Some name" and "st_lock WRLOCK s5 pdir = Some s6"
    and "attach_entry s6 parent (create_entry name n) = Some (True, s7)" and "Inode_Global_Read (fs_file s7) (Super_constants s7) n = Some inode"
    and "st_lock WRLOCK s7 path = Some s8" and "new_directory s8 inode params n parent m = Some (True, s9)" and "st_lock UNLOCK s9 path = Some s10"
    and "st_lock UNLOCK s10 pdir = Some s11" and "st_finished s11 path = Some s12" and "st_finished s12 pdir = Some s13"
  shows "create_file_dir params st = Some (new_result params (D_word 0), s13\<lparr>errno := 0\<rparr>)"
  using assms by (simp add: create_file_dir_def finish2_def Let_def)

lemma create_dir_runs:
  fixes st :: "'c server" and params :: params_t
  defines "sc \<equiv> Super_constants st"
  assumes "ready st (ds @ [c])" and "ready st ds" and "length ds \<le> 1" and "p_path params = st_path (ds @ [c])" and "\<not> p_file params"
    and "resolve st (ds @ [c]) = Some (None, 0, True)" and "resolve st ds = Some (Some parent, m, False)"
    and "srv_ok st" and "free_nums Inodes st \<noteq> {}" and "free_nums Blocks st \<noteq> {}"
    and "roomy_dir st parent c es cs" and "free_inodes_apart st parent es" and "place_for_dir st parent es" and "length c < 256"
  shows "\<exists>st' n inode. create_file_dir params st = Some (new_result params (D_word 0), st') \<and> n \<noteq> 0 \<and>
    dir_created st st' es cs c (p_mode params) m n inode \<and> afl_tab (active_file_list st') = afl_tab (active_file_list st) \<and>
    same_words sc (fs_file st) (fs_file st') \<and> Super_constants st' = sc \<and>
    map_option data_blocks (Inode_Get_Data_Adressess (fs_file st') sc parent (ld32 st' (parent + inode_off I_size))) = Some es \<and>
    (\<forall>x. kept st es x \<longrightarrow> fs_file st' x = fs_file st x)"
proof -
  let ?p = "st_path (ds @ [c])" and ?q = "st_path ds" and ?T = "afl_tab (active_file_list st)" and ?s0 = "st\<lparr>errno := 0\<rparr>"
  have comp: "component_ok c" "\<forall>d \<in> set ds. component_ok d" using assms(2) by (simp_all add: ready_def)
  have pq: "?p \<noteq> ?q" and name: "active_file_get_file_name ?p = Some c" using path_and_name [OF comp] by simp_all
  have idle: "idle ?T" using assms(2) by (simp add: ready_def)
  obtain l1 l2 l3 l4 where f: "st_find st ?p = Some (with_table st l1 False)"
    "inode_of_file (with_table st l1 False) ?p = Some (None, 0, with_table st l2 True)"
    "st_find ((with_table st l2 True)\<lparr>errno := 0\<rparr>) ?q = Some (with_table ?s0 l3 False)"
    "inode_of_file (with_table ?s0 l3 False) ?q = Some (Some parent, m, with_table ?s0 l4 False)"
    "afl_ok l4" "afl_tab l4 = marks ?T {} {?p, ?q}"
    using find_missing [OF assms(2,3) pq assms(7,8)] by blast
  obtain k1 k2 k3 k4 k5 k6 where k: "active_list_upd l4 ?q (on_lock WRLOCK) = Some k1" "active_list_upd k1 ?p (on_lock WRLOCK) = Some k2"
    "active_list_upd k2 ?p (on_lock UNLOCK) = Some k3" "active_list_upd k3 ?q (on_lock UNLOCK) = Some k4"
    "active_file_finished_using k4 ?p = Some k5" "active_file_finished_using k5 ?q = Some k6" "afl_tab k6 = ?T"
    using two_write_locks [OF idle f(5,6) pq] by blast
  define s4 where "s4 = with_table ?s0 l4 False"
  have s4: "same_image s4 st" and sc4: "Super_constants s4 = sc" "fs_file s4 = fs_file st" "active_file_list s4 = l4" "errno s4 \<noteq> ENOSPC"
    by (simp_all add: s4_def with_table_def same_image_def sc_def)
  note q = same_image_facts [OF s4] same_image_dir [OF s4]
  have "srv_ok s4" "free_nums Inodes s4 \<noteq> {}" "free_nums Blocks s4 \<noteq> {}" "roomy_dir s4 parent c es cs" "free_inodes_apart s4 parent es"
    "0 < length c" "place_for_dir s4 parent es"
    using assms(9-14) q comp by (auto simp: component_ok_def)
  from new_dir_image [OF this(1-6) assms(15) this(7) sc4(4), of k1 k2 params m, unfolded sc4] obtain n inode fs1 fs2 fs3
    where g: "Get_Free_Inodes s4 1 = Some (Some [n], s4\<lparr>fs_file := fs1\<rparr>)"
      "attach_entry (s4\<lparr>fs_file := fs1, active_file_list := k1\<rparr>) parent (create_entry c n) = Some (True, s4\<lparr>fs_file := fs2, active_file_list := k1\<rparr>)"
      "Inode_Global_Read fs2 sc n = Some inode" "n \<noteq> 0"
      "new_directory (s4\<lparr>fs_file := fs2, active_file_list := k2\<rparr>) inode params n parent m = Some (True, s4\<lparr>fs_file := fs3, active_file_list := k2\<rparr>)"
    and new: "dir_created s4 (s4\<lparr>fs_file := fs3\<rparr>) es cs c (p_mode params) m n inode" "same_words sc (fs_file st) fs3"
      "map_option data_blocks (Inode_Get_Data_Adressess fs3 sc parent (load32 fs3 (parent + inode_off I_size))) = Some es"
      "\<forall>x. kept s4 es x \<longrightarrow> fs3 x = fs_file st x" by blast
  define st' where "st' = s4\<lparr>fs_file := fs3, active_file_list := k6, errno := 0\<rparr>"
  have "create_file_dir params st = Some (new_result params (D_word 0), (s4\<lparr>fs_file := fs3, active_file_list := k6\<rparr>)\<lparr>errno := 0\<rparr>)"
  proof (rule create_dir_steps [OF assms(5,6) f(1,2) parent_path_of [OF comp assms(4)] f(3) f(4) [folded s4_def] g(1) name _ g(2) _ _ g(5)])
    show "st_lock WRLOCK (s4\<lparr>fs_file := fs1\<rparr>) ?q = Some (s4\<lparr>fs_file := fs1, active_file_list := k1\<rparr>)" using k(1) by (simp add: st_lock_def sc4)
    show "st_lock UNLOCK (s4\<lparr>fs_file := fs3, active_file_list := k2\<rparr>) ?p = Some (s4\<lparr>fs_file := fs3, active_file_list := k3\<rparr>)" using k(3) by (simp add: st_lock_def)
    show "st_lock UNLOCK (s4\<lparr>fs_file := fs3, active_file_list := k3\<rparr>) ?q = Some (s4\<lparr>fs_file := fs3, active_file_list := k4\<rparr>)" using k(4) by (simp add: st_lock_def)
    show "st_finished (s4\<lparr>fs_file := fs3, active_file_list := k4\<rparr>) ?p = Some (s4\<lparr>fs_file := fs3, active_file_list := k5\<rparr>)" using k(5) by (simp add: st_finished_def)
  qed (use k(2,6) g(3) in \<open>simp_all add: st_lock_def st_finished_def sc4\<close>)
  moreover have im: "same_image (s4\<lparr>fs_file := fs3\<rparr>) st'" by (simp add: same_image_def st'_def)
  ultimately show ?thesis
    using g(4) new dir_created_image [OF s4 im] k(7) sc4(1)
    by (intro exI [of _ st'] exI [of _ n] exI [of _ inode]) (simp add: st'_def ld32_def q)
qed

section \<open>Properties\<close>


text \<open>The directory \<open>/b\<close> in the example image gets inode 6 and one of the blocks 20 and 22.\<close>

lemma image_place_for_dir: "place_for_dir image_server 3200 [23]"
  using image_inode [of 6]
  by (simp add: place_for_dir_def dir_inode_ok_def no_wrap_def image_numbers(3) image_free_nums image_blk_at image_meta demo_simps disj_range_def)
    (simp add: demo_sc_def)

text \<open>
  The second case: the directory \<open>/a/b\<close> in the image whose \<open>/a\<close> is an empty directory in block 19, with
  as many blocks of 512 bytes counted in its inode as one block of a directory needs.
\<close>

definition nested_server :: "(u8 list \<Rightarrow> u8 list option) server" where
  "nested_server = (small_dir_server False)\<lparr>fs_file := (small_dir_fs False)(3356 := 1)\<rparr>"

lemma nested_fields [simp]:
  "fs_file nested_server = (small_dir_fs False)(3356 := 1)" "Super_constants nested_server = demo_sc" "active_file_list nested_server = list_create"
  by (simp_all add: nested_server_def)

lemma nested_facts: "srv_ok nested_server" "free_nums Blocks nested_server = {20, 22}" "free_nums Inodes nested_server = {6}"
  "19 \<in> valid_nums Blocks nested_server" "is_meta ((small_dir_fs False)(3356 := 1)) demo_sc x \<longleftrightarrow> x < 2080 \<or> 2176 \<le> x \<and> x < 2432"
proof -
  have "((small_dir_fs False)(3356 := 1)) x = fs_file (small_dir_server False) x"
    if "is_meta (fs_file (small_dir_server False)) (Super_constants (small_dir_server False)) x" for x
    using that by (auto simp: small_dir_facts image_meta)
  note n = srv_ok_nonmeta [OF small_dir_facts(1) [of False] this, folded nested_server_def]
  show "srv_ok nested_server" "free_nums Blocks nested_server = {20, 22}" "free_nums Inodes nested_server = {6}" "19 \<in> valid_nums Blocks nested_server"
    using n image_valid_nums by (simp_all add: small_dir_facts image_free_nums image_numbers)
  show "is_meta ((small_dir_fs False)(3356 := 1)) demo_sc x \<longleftrightarrow> x < 2080 \<or> 2176 \<le> x \<and> x < 2432"
    using n(4) by (simp add: small_dir_facts image_meta fun_upd_def)
qed

lemma nested_blk_at: "blk_at nested_server = blk_at image_server"
  by (simp add: blk_at_def fun_eq_iff)

lemma nested_words:
  "load32 ((small_dir_fs False)(3356 := 1)) 3332 = 128" "load32 ((small_dir_fs False)(3356 := 1)) 3356 = 1" "load32 ((small_dir_fs False)(3356 := 1)) 3204 = 128"
  "load32 ((small_dir_fs False)(3356 := 1)) 3240 = 23" "load32 ((small_dir_fs False)(3356 := 1)) 3368 = 19" "load32 ((small_dir_fs False)(3356 := 1)) 2056 = 24"
  by (simp_all add: small_dir_fs_def image_fs_def demo_fs_def load32_def load_bytes_def upt_rec)

lemma nested_inode: "n \<in> {2, 3, 6} \<Longrightarrow> Inode_Global_Read ((small_dir_fs False)(3356 := 1)) demo_sc n = Some (3072 + 128 * unat (n - 1))"
  by (auto simp: Inode_Global_Read_def Inode_Local_Read_def Inode_readTable_def Group_Descriptor_read_def
      Inode_locateGroup_def Inode_getLocalIndex_def demo_sc_def sizeof_inode_def nested_words)

lemma nested_addresses:
  "Inode_Get_Data_Adressess ((small_dir_fs False)(3356 := 1)) demo_sc 3200 128 = Some [23, 0]"
  "Inode_Get_Data_Adressess ((small_dir_fs False)(3356 := 1)) demo_sc 3328 128 = Some [19, 0]"
  "Inode_Get_Data_Adressess ((small_dir_fs False)(3356 := 1)) demo_sc 3328 512 = Some [19, 0, 0, 0, 0]"
proof -
  have z: "load32 ((small_dir_fs False)(3356 := 1)) x = 0" if "3372 \<le> x" for x
    using that by (simp add: load32_def load_bytes_def upt_rec small_dir_fs_def image_fs_def demo_fs_def)
  show "Inode_Get_Data_Adressess ((small_dir_fs False)(3356 := 1)) demo_sc 3200 128 = Some [23, 0]"
    "Inode_Get_Data_Adressess ((small_dir_fs False)(3356 := 1)) demo_sc 3328 128 = Some [19, 0]"
    "Inode_Get_Data_Adressess ((small_dir_fs False)(3356 := 1)) demo_sc 3328 512 = Some [19, 0, 0, 0, 0]"
    by (subst data_addresses_cases, simp add: demo_sc_def ptrs_per_block_def,
        simp add: demo_sc_def Size_In_Blocks_def max_file_blocks_def ptrs_per_block_def file_block_def upt_rec Let_def nested_words z)+
qed

lemma nested_chains:
  "dchain ((small_dir_fs False)(3356 := 1)) 2944 3072 [2944, 2956]" "map (entry_of ((small_dir_fs False)(3356 := 1))) [2944, 2956] = [(2, [46]), (3, [97])]"
  "dchain ((small_dir_fs False)(3356 := 1)) 2432 2560 [2432, 2444]" "map (entry_of ((small_dir_fs False)(3356 := 1))) [2432, 2444] = [(3, [46]), (2, [46, 46])]"
proof -
  have "same_on 2944 3072 (small_dir_fs False) ((small_dir_fs False)(3356 := 1))" by (simp add: same_on_def)
  from dchain_frame [OF small_dir_chain(1) this] small_dir_chain(2,3) [of False]
  show "dchain ((small_dir_fs False)(3356 := 1)) 2944 3072 [2944, 2956]" "map (entry_of ((small_dir_fs False)(3356 := 1))) [2944, 2956] = [(2, [46]), (3, [97])]"
    by (simp_all del: dchain.simps)
  have s: "same_on 2432 2560 (small_dir_fs False) ((small_dir_fs False)(3356 := 1))" by (simp add: same_on_def)
  have "dchain (small_dir_fs False) 2432 2560 [2432, 2444]" by (simp add: small_dir_own_fields get_padded_size_def sizeof_entry_def padded_def)
  moreover have "map (entry_of (small_dir_fs False)) [2432, 2444] = [(3, [46]), (2, [46, 46])]"
    by (simp add: entry_of_def e_inode_def e_name_def small_dir_own_fields, simp add: load32_def load_bytes_def upt_rec small_dir_fs_def)
  ultimately show "dchain ((small_dir_fs False)(3356 := 1)) 2432 2560 [2432, 2444]" "map (entry_of ((small_dir_fs False)(3356 := 1))) [2432, 2444] = [(3, [46]), (2, [46, 46])]"
    using dchain_frame [OF _ s] by (metis (no_types, lifting))+
qed

lemma nested_resolves:
  "resolve nested_server [''a''] = Some (Some 3328, 3, False)" "resolve nested_server ([''a''] @ [''b'']) = Some (None, 0, True)"
proof -
  let ?fs = "(small_dir_fs False)(3356 := 1)"
  have e: "entry_of ?fs 2944 = (2, [46])" "entry_of ?fs 2956 = (3, [97])" "entry_of ?fs 2432 = (3, [46])" "entry_of ?fs 2444 = (2, [46, 46])"
    using nested_chains(2,4) by simp_all
  then have i: "e_inode ?fs 2944 = 2" "e_inode ?fs 2956 = 3" "e_inode ?fs 2432 = 3" "e_inode ?fs 2444 = 2" by (simp_all add: entry_of_def)
  have "block_entries ?fs 2944 3072 = Some [2944, 2956]" "block_entries ?fs 2432 2560 = Some [2432, 2444]"
    using block_entries_chain [OF nested_chains(1)] block_entries_chain [OF nested_chains(3)] i by simp_all
  then have r: "read_directory nested_server 3200 = Some (Some [2944, 2956])" "read_directory nested_server 3328 = Some (Some [2432, 2444])"
    by (simp_all add: read_directory_def ld32_def nested_words nested_addresses data_blocks_def nested_blk_at image_blk_at)
  have m: "entry_matches ?fs 2956 ''a''" "\<not> entry_matches ?fs 2944 ''a''" "\<not> entry_matches ?fs 2432 ''b''" "\<not> entry_matches ?fs 2444 ''b''"
    by (simp_all add: matches_entry e bytes_of_string_def char_byte_def)
  show a: "resolve nested_server [''a''] = Some (Some 3328, 3, False)"
    using r m by (simp add: resolve_def ROOT_INODE_NUMBER_def nested_inode i)
  show "resolve nested_server ([''a''] @ [''b'']) = Some (None, 0, True)"
    using resolve_snoc [OF a, of "''b''"] r m by simp
qed

lemma nested_roomy: "roomy_dir nested_server 3328 ''b'' [19] [[(3, [46]), (2, [46, 46])]]" "free_inodes_apart nested_server 3328 [19]"
  "place_for_dir nested_server 3328 [19]" "root_apart nested_server [19]"
proof -
  let ?fs = "(small_dir_fs False)(3356 := 1)"
  have w: "ld32 nested_server 3332 = 128" "ld32 nested_server 3356 = 1" "ld32 nested_server 3204 = 128" by (simp_all add: ld32_def nested_words)
  have "unat (e_len ?fs 2432) = 12" "unat (e_len ?fs 2444) = 116" "e_name_len ?fs 2432 = 1" "e_name_len ?fs 2444 = 2"
    by (simp_all add: e_len_def e_name_len_def small_dir_fs_def load16_def load_bytes_def upt_rec)
  then have room: "block_room ?fs 2432 128 1"
    unfolding block_room_def using nested_chains(3)
    by (intro exI [of _ "[2432, 2444]"]) (simp add: slack_def get_padded_size_def sizeof_entry_def padded_def)
  have own: "block_holds ?fs 2432 128 [(3, [46]), (2, [46, 46])]"
    unfolding block_holds_def using nested_chains(3,4) by (intro exI [of _ "[2432, 2444]"]) (simp del: dchain.simps)
  have root: "block_holds ?fs 2944 128 [(2, [46]), (3, [97])]"
    unfolding block_holds_def using nested_chains(1,2) by (intro exI [of _ "[2944, 2956]"]) (simp del: dchain.simps)
  have sz: "Size_In_Blocks demo_sc 128 \<le> 12" "Size_In_Blocks demo_sc 512 \<le> 12" "0 < ptrs_per_block demo_sc"
    by (simp_all add: Size_In_Blocks_def demo_sc_def ptrs_per_block_def)
  show "roomy_dir nested_server 3328 ''b'' [19] [[(3, [46]), (2, [46, 46])]]"
    using room own sz nested_facts(4)
    by (simp add: roomy_dir_def w nested_addresses data_blocks_def nested_blk_at image_blk_at demo_simps nested_facts(5) disj_range_def
        dir_holds_def apart_def)
  show "free_inodes_apart nested_server 3328 [19]"
    using nested_inode [of 6] by (simp add: free_inodes_apart_def nested_facts nested_blk_at image_blk_at demo_simps disj_range_def)
  show "place_for_dir nested_server 3328 [19]"
    using nested_inode [of 6]
    by (simp add: place_for_dir_def dir_inode_ok_def no_wrap_def nested_facts nested_blk_at image_blk_at demo_simps disj_range_def)
      (simp add: demo_sc_def)
  have in_b: "in_block demo_sc 19 x \<longleftrightarrow> 2432 \<le> x \<and> x < 2560" "in_block demo_sc 20 x \<longleftrightarrow> 2560 \<le> x \<and> x < 2688"
    "in_block demo_sc 22 x \<longleftrightarrow> 2816 \<le> x \<and> x < 2944" "in_block demo_sc 23 x \<longleftrightarrow> 2944 \<le> x \<and> x < 3072" for x
    using image_blk_at by (simp_all add: in_block_def blk_at_def demo_simps)
  have k: "kept nested_server [19] x" if "2944 \<le> x" "x < 3328" for x
    using that nested_inode [of 6] by (simp add: kept_def nested_facts in_b disj_range_def)
  have "dir_holds nested_server [23] [[(2, [46]), (3, [97])]]" using root by (simp add: dir_holds_def nested_blk_at image_blk_at demo_simps)
  moreover have "Inode_Global_Read ?fs demo_sc ROOT_INODE_NUMBER = Some 3200" using nested_inode [of 2] by (simp add: ROOT_INODE_NUMBER_def)
  ultimately show "root_apart nested_server [19]"
    unfolding root_apart_def Let_def using k in_b(4) sz(1)
    by (intro exI [of _ 3200] exI [of _ "[23]"] exI [of _ "[[(2, [46]), (3, [97])]]"])
      (simp add: w nested_addresses data_blocks_def disj_range_def)
qed


end
