(* ===== verification/Block_Layout.thy ===== *)
theory Block_Layout
  imports Block_Tree
begin

text \<open>
  The pointer tree of an inode as a layout of slots: the words, from the data block up to the
  inode, through which the \<open>i\<close>-th block of a file is reached. \<open>find_block_coordinates\<close>,
  \<open>Remove_Block\<close> and \<open>RemoveIndirect\<close> are shown to work on exactly those slots, so that removing
  block \<open>i\<close> releases the block that \<open>Inode_Get_Data_Adressess\<close> lists at \<open>i\<close>.
\<close>

section \<open>Coordinates\<close>

lemma int32_of_u64:
  fixes w :: u64
  assumes "unat w < 2 ^ 31"
  shows "sint (ucast w :: u32) = int (unat w)"
proof -
  define n where "n = unat w"
  have n: "n < 2147483648" "uint w = int n" using assms by (simp_all only: uint_nat n_def) simp
  have "uint (ucast w :: u32) = take_bit 32 (uint w)" by (simp add: unsigned_ucast_eq)
  also have "\<dots> = int n" using n by (simp add: take_bit_int_eq_self)
  finally have "sint (ucast w :: u32) = signed_take_bit 31 (int n)" by (simp add: sint_uint)
  also have "\<dots> = int n" using n(1) by (intro signed_take_bit_int_eq_self) simp_all
  finally show ?thesis by (simp only: n_def)
qed

lemma unat_widen: "unat (ucast (w :: u32) :: u64) = unat w"
  using unat_lt_u32 [of w] by (simp add: unsigned_ucast_eq take_bit_nat_eq_self_iff)

lemma unat_offset:
  fixes i lo :: u32
  assumes "unat lo \<le> unat i"
  shows "unat (ucast (i - lo) :: u64) = unat i - unat lo"
  using assms unat_sub [of lo i] by (simp only: unat_widen word_le_nat_alt)

definition coordinates :: "nat \<Rightarrow> nat \<Rightarrow> int list" where
  "coordinates P i =
     (if i < 12 then [int i, -1, -1, -1]
      else if i < 12 + P then [0, int (i - 12), -1, -1]
      else if i < 12 + P + P ^ 2 then let m = i - 12 - P in [0, int (m mod P), int (m div P), -1]
      else if i < 12 + P + P ^ 2 + P ^ 3 then
        let m = i - 12 - P - P ^ 2 in [0, int (m mod P ^ 2 mod P), int (m mod P ^ 2 div P), int (m div P ^ 2)]
      else [-1, -1, -1, -1])"

lemma level_bounds:
  assumes P: "12 + P + P ^ 2 + P ^ 3 < 2 ^ 32"
  shows "unat (of_nat P :: u64) = P" "unat (of_nat P * of_nat P :: u64) = P ^ 2"
    "unat (11 + ucast (of_nat P :: u64) :: u32) = 11 + P"
    "unat (11 + ucast (of_nat P :: u64) + ucast (of_nat P * of_nat P :: u64) :: u32) = 11 + P + P ^ 2"
    "unat (11 + ucast (of_nat P :: u64) + ucast (of_nat P * of_nat P :: u64) +
      ucast (of_nat P * of_nat P * of_nat P :: u64) :: u32) = 11 + P + P ^ 2 + P ^ 3"
proof -
  have narrow: "(ucast (of_nat k :: u64) :: u32) = of_nat k" if "k < 2 ^ 32" for k
    using that by (intro word_unat_eq_iff [THEN iffD2])
      (simp add: unsigned_ucast_eq unsigned_of_nat take_bit_nat_eq_self_iff take_bit_nat_eq_self)
  have sq: "of_nat P * of_nat P = (of_nat (P ^ 2) :: u64)" "of_nat (P ^ 2) * of_nat P = (of_nat (P ^ 3) :: u64)"
    by (simp_all add: power2_eq_square power3_eq_cube)
  have lt: "P < 2 ^ 32" "P ^ 2 < 2 ^ 32" "P ^ 3 < 2 ^ 32" using P by simp_all
  have sum: "11 + of_nat P = (of_nat (11 + P) :: u32)" "of_nat (11 + P) + of_nat (P ^ 2) = (of_nat (11 + P + P ^ 2) :: u32)"
    "of_nat (11 + P + P ^ 2) + of_nat (P ^ 3) = (of_nat (11 + P + P ^ 2 + P ^ 3) :: u32)" by simp_all
  have un: "unat (of_nat k :: u32) = k" "unat (of_nat k :: u64) = k" if "k < 2 ^ 32" for k
    using that by (simp_all add: unsigned_of_nat take_bit_nat_eq_self)
  show "unat (of_nat P :: u64) = P" "unat (of_nat P * of_nat P :: u64) = P ^ 2"
    unfolding sq using un(2) lt by blast+
  show "unat (11 + ucast (of_nat P :: u64) :: u32) = 11 + P"
    unfolding narrow [OF lt(1)] sum using P by (intro un(1)) simp
  show "unat (11 + ucast (of_nat P :: u64) + ucast (of_nat P * of_nat P :: u64) :: u32) = 11 + P + P ^ 2"
    unfolding sq narrow [OF lt(1)] narrow [OF lt(2)] sum using P by (intro un(1)) simp
  show "unat (11 + ucast (of_nat P :: u64) + ucast (of_nat P * of_nat P :: u64) +
      ucast (of_nat P * of_nat P * of_nat P :: u64) :: u32) = 11 + P + P ^ 2 + P ^ 3"
    unfolding sq narrow [OF lt(1)] narrow [OF lt(2)] narrow [OF lt(3)] sum using P by (intro un(1)) simp
qed

lemma coordinates_found:
  assumes "max_file_blocks sc < 2 ^ 32" and "0 < ptrs_per_block sc"
  shows "find_block_coordinates sc i = coordinates (ptrs_per_block sc) (unat i)"
proof -
  define P where "P = ptrs_per_block sc"
  have lt: "12 + P + P ^ 2 + P ^ 3 < 2 ^ 32" using assms(1) by (simp add: max_file_blocks_def P_def)
  note b = level_bounds [OF lt]
  have "0 < P" using assms(2) by (simp add: P_def)
  then have "P \<le> P ^ 2" "P ^ 2 \<le> P ^ 3" by (simp_all add: power_increasing self_le_power)
  have i32: "sint (ucast w :: u32) = int (unat w)" if "unat w < P" for w :: u64
    using that lt \<open>P \<le> P ^ 2\<close> \<open>P ^ 2 \<le> P ^ 3\<close> by (intro int32_of_u64) simp
  let ?p = "of_nat P :: u64"
  have i32_mod: "sint (ucast (w mod ?p) :: u32) = int (unat w mod P)" for w
    using i32 [of "w mod ?p"] \<open>0 < P\<close> by (simp only: unat_mod b(1) mod_less_divisor)
  have i32_div: "sint (ucast (w div ?p) :: u32) = int (unat w div P)" if "unat w < P ^ 2" for w
    using i32 [of "w div ?p"] that by (simp only: unat_div b(1) power2_eq_square less_mult_imp_div_less)
  have i32_sq: "sint (ucast (w div (?p * ?p)) :: u32) = int (unat w div P ^ 2)" if "unat w < P ^ 3" for w
  proof -
    have "unat w < P * P ^ 2" using that by (simp only: power2_eq_square power3_eq_cube mult.assoc)
    with i32 [of "w div (?p * ?p)"] show ?thesis by (simp only: unat_div b(2) less_mult_imp_div_less)
  qed
  define n where "n = unat i"
  define h1 where "h1 = (11 + ucast ?p :: u32)"
  define h2 where "h2 = (11 + ucast ?p + ucast (?p * ?p) :: u32)"
  define h3 where "h3 = (11 + ucast ?p + ucast (?p * ?p) + ucast (?p * ?p * ?p) :: u32)"
  have h: "unat h1 = 11 + P" "unat h2 = 11 + P + P ^ 2" "unat h3 = 11 + P + P ^ 2 + P ^ 3"
    unfolding h1_def h2_def h3_def by (simp_all only: b)
  have s: "unat (h1 + 1) = 12 + P" "unat (h2 + 1) = 12 + P + P ^ 2"
    using lt by (simp_all add: unat_word_ariths h)
  have le: "i \<le> 11 \<longleftrightarrow> n < 12" "12 \<le> i \<longleftrightarrow> 12 \<le> n" "i \<le> h1 \<longleftrightarrow> n < 12 + P" "h1 + 1 \<le> i \<longleftrightarrow> 12 + P \<le> n"
    "i \<le> h2 \<longleftrightarrow> n < 12 + P + P ^ 2" "h2 + 1 \<le> i \<longleftrightarrow> 12 + P + P ^ 2 \<le> n" "i \<le> h3 \<longleftrightarrow> n < 12 + P + P ^ 2 + P ^ 3"
    unfolding word_le_nat_alt n_def [symmetric] h s by auto
  have off: "unat (ucast (i - 12) :: u64) = n - 12" if "12 \<le> n" using that unat_offset [of 12 i] by (simp add: n_def)
  have off1: "unat (ucast (i - (h1 + 1)) :: u64) = n - 12 - P" if "12 + P \<le> n"
    using that unat_offset [of "h1 + 1" i] by (simp add: n_def s)
  have off2: "unat (ucast (i - (h2 + 1)) :: u64) = n - 12 - P - P ^ 2" if "12 + P + P ^ 2 \<le> n"
    using that unat_offset [of "h2 + 1" i] by (simp add: n_def s)
  have eq: "find_block_coordinates sc i =
      (if n < 12 then [sint i, -1, -1, -1]
       else if 12 \<le> n \<and> n < 12 + P then [0, sint (ucast (ucast (i - 12) mod ?p) :: u32), -1, -1]
       else if 12 + P \<le> n \<and> n < 12 + P + P ^ 2 then
         [0, sint (ucast (ucast (i - (h1 + 1)) mod ?p) :: u32), sint (ucast (ucast (i - (h1 + 1)) div ?p) :: u32), -1]
       else if 12 + P + P ^ 2 \<le> n \<and> n < 12 + P + P ^ 2 + P ^ 3 then
         [0, sint (ucast (ucast (i - (h2 + 1)) mod (?p * ?p) mod ?p) :: u32),
          sint (ucast (ucast (i - (h2 + 1)) mod (?p * ?p) div ?p) :: u32), sint (ucast (ucast (i - (h2 + 1)) div (?p * ?p)) :: u32)]
       else [-1, -1, -1, -1])"
    unfolding find_block_coordinates_def Let_def P_def [symmetric] h1_def [symmetric] h2_def [folded h1_def, symmetric]
      h3_def [folded h2_def h1_def, symmetric] le ..
  consider "n < 12" | "12 \<le> n" "n < 12 + P" | "12 + P \<le> n" "n < 12 + P + P ^ 2"
    | "12 + P + P ^ 2 \<le> n" "n < 12 + P + P ^ 2 + P ^ 3" | "12 + P + P ^ 2 + P ^ 3 \<le> n" by linarith
  then show ?thesis
  proof cases
    case 1
    have "unat (ucast i :: u64) = n" by (simp only: unat_widen n_def)
    moreover have "(ucast (ucast i :: u64) :: u32) = i" by transfer simp
    ultimately have "sint i = int n" using 1 int32_of_u64 [of "ucast i"] by simp
    with 1 show ?thesis by (simp add: eq coordinates_def flip: n_def P_def)
  next
    case 2
    then show ?thesis by (simp add: eq coordinates_def i32_mod off flip: n_def P_def)
  next
    case 3
    then have "unat (ucast (i - (h1 + 1)) :: u64) < P ^ 2" using off1 by simp
    with 3 show ?thesis by (simp add: eq coordinates_def i32_mod i32_div off1 Let_def flip: n_def P_def)
  next
    case 4
    have m: "unat (w mod (?p * ?p)) = unat w mod P ^ 2" for w by (simp only: unat_mod b(2))
    have d: "sint (ucast (w mod (?p * ?p) div ?p) :: u32) = int (unat w mod P ^ 2 div P)" for w
      using i32_div [of "w mod (?p * ?p)"] \<open>0 < P\<close> by (simp add: m)
    from 4 have "unat (ucast (i - (h2 + 1)) :: u64) < P ^ 3" using off2 by simp
    with 4 show ?thesis by (simp add: eq coordinates_def i32_mod d i32_sq m off2 Let_def flip: n_def P_def)
  next
    case 5
    then show ?thesis by (simp add: eq coordinates_def flip: n_def P_def)
  qed
qed

section \<open>Slots\<close>

fun ind_slots :: "mem \<Rightarrow> Superblock_constants \<Rightarrow> nat \<Rightarrow> nat \<Rightarrow> nat \<Rightarrow> nat list" where
  "ind_slots fs sc slot 0 i = [slot]"
| "ind_slots fs sc slot (Suc l) i =
     ind_slots fs sc (block_addr sc (load32 fs slot) + 4 * (i div ptrs_per_block sc ^ l)) l (i mod ptrs_per_block sc ^ l) @ [slot]"

definition file_slots :: "mem \<Rightarrow> Superblock_constants \<Rightarrow> nat \<Rightarrow> nat \<Rightarrow> nat list" where
  "file_slots fs sc anInode i =
     (let P = ptrs_per_block sc in
      if i < 12 then [pointer_data_0 anInode i]
      else if i < 12 + P then ind_slots fs sc (pointer_data_1 anInode) 1 (i - 12)
      else if i < 12 + P + P ^ 2 then ind_slots fs sc (pointer_data_2 anInode) 2 (i - 12 - P)
      else ind_slots fs sc (pointer_data_3 anInode) 3 (i - 12 - P - P ^ 2))"

fun prune :: "'c server \<Rightarrow> nat list \<Rightarrow> 'c server option" where
  \<comment> \<open>From the innermost index block up, release those that have become empty.\<close>
  "prune st [] = Some st"
| "prune st (slot # slots) = do {
     (empty, st) \<leftarrow> deleteIfEmpty st (ld32 st slot);
     if empty then prune (st32 st slot 0) slots else Some st }"

lemma ind_slots_block: "ind_slots fs sc slot l i \<noteq> [] \<and> load32 fs (hd (ind_slots fs sc slot l i)) = ind_block fs sc (load32 fs slot) l i"
  by (induction l arbitrary: slot i) simp_all

lemma file_slots_block: "file_slots fs sc ino i \<noteq> [] \<and> load32 fs (hd (file_slots fs sc ino i)) = file_block fs sc ino i"
  by (simp add: file_slots_def file_block_def Let_def ind_slots_block del: ind_slots.simps ind_block.simps)

lemma file_slots_levels:
  fixes sc :: Superblock_constants and i :: nat
  defines "P \<equiv> ptrs_per_block sc"
  shows "i < 12 \<Longrightarrow> file_slots fs sc ino i = [pointer_data_0 ino i]"
    and "12 \<le> i \<Longrightarrow> i < 12 + P \<Longrightarrow> file_slots fs sc ino i =
      [block_addr sc (load32 fs (pointer_data_1 ino)) + 4 * (i - 12), pointer_data_1 ino]"
    and "12 + P \<le> i \<Longrightarrow> i < 12 + P + P ^ 2 \<Longrightarrow> file_slots fs sc ino i =
      (let ind2 = block_addr sc (load32 fs (pointer_data_2 ino)) + 4 * ((i - 12 - P) div P)
       in [block_addr sc (load32 fs ind2) + 4 * ((i - 12 - P) mod P), ind2, pointer_data_2 ino])"
    and "12 + P + P ^ 2 \<le> i \<Longrightarrow> file_slots fs sc ino i =
      (let m = i - 12 - P - P ^ 2;
           ind3 = block_addr sc (load32 fs (pointer_data_3 ino)) + 4 * (m div P ^ 2);
           ind2 = block_addr sc (load32 fs ind3) + 4 * (m mod P ^ 2 div P)
       in [block_addr sc (load32 fs ind2) + 4 * (m mod P ^ 2 mod P), ind2, ind3, pointer_data_3 ino])"
  by (simp_all add: file_slots_def P_def Let_def numeral_2_eq_2 numeral_3_eq_3)

lemma coordinates_levels:
  shows "i < 12 \<Longrightarrow> coordinates_level (coordinates P i) = Some 0 \<and> coordinates P i ! 0 = int i"
    and "12 \<le> i \<Longrightarrow> i < 12 + P \<Longrightarrow> coordinates_level (coordinates P i) = Some 1 \<and> coordinates P i ! 1 = int (i - 12)"
    and "12 + P \<le> i \<Longrightarrow> i < 12 + P + P ^ 2 \<Longrightarrow> coordinates_level (coordinates P i) = Some 2 \<and>
      coordinates P i ! 1 = int ((i - 12 - P) mod P) \<and> coordinates P i ! 2 = int ((i - 12 - P) div P)"
    and "12 + P + P ^ 2 \<le> i \<Longrightarrow> i < 12 + P + P ^ 2 + P ^ 3 \<Longrightarrow> coordinates_level (coordinates P i) = Some 3 \<and>
      coordinates P i ! 1 = int ((i - 12 - P - P ^ 2) mod P ^ 2 mod P) \<and>
      coordinates P i ! 2 = int ((i - 12 - P - P ^ 2) mod P ^ 2 div P) \<and>
      coordinates P i ! 3 = int ((i - 12 - P - P ^ 2) div P ^ 2)"
    and "12 + P + P ^ 2 + P ^ 3 \<le> i \<Longrightarrow> coordinates_level (coordinates P i) = None"
proof -
  have "int k \<noteq> -1" for k by simp
  then show "i < 12 \<Longrightarrow> coordinates_level (coordinates P i) = Some 0 \<and> coordinates P i ! 0 = int i"
    and "12 \<le> i \<Longrightarrow> i < 12 + P \<Longrightarrow> coordinates_level (coordinates P i) = Some 1 \<and> coordinates P i ! 1 = int (i - 12)"
    and "12 + P \<le> i \<Longrightarrow> i < 12 + P + P ^ 2 \<Longrightarrow> coordinates_level (coordinates P i) = Some 2 \<and>
      coordinates P i ! 1 = int ((i - 12 - P) mod P) \<and> coordinates P i ! 2 = int ((i - 12 - P) div P)"
    and "12 + P + P ^ 2 \<le> i \<Longrightarrow> i < 12 + P + P ^ 2 + P ^ 3 \<Longrightarrow> coordinates_level (coordinates P i) = Some 3 \<and>
      coordinates P i ! 1 = int ((i - 12 - P - P ^ 2) mod P ^ 2 mod P) \<and>
      coordinates P i ! 2 = int ((i - 12 - P - P ^ 2) mod P ^ 2 div P) \<and>
      coordinates P i ! 3 = int ((i - 12 - P - P ^ 2) div P ^ 2)"
    and "12 + P + P ^ 2 + P ^ 3 \<le> i \<Longrightarrow> coordinates_level (coordinates P i) = None"
    by (simp_all add: coordinates_def coordinates_level_def Let_def numeral_2_eq_2 numeral_3_eq_3
        del: of_nat_mod of_nat_div of_nat_diff)
qed

lemma remove_indirect_prunes:
  fixes st :: "'c server"
  defines "sc \<equiv> Super_constants st"
  assumes "max_file_blocks sc < 2 ^ 32" and "0 < ptrs_per_block sc" and "unat i < max_file_blocks sc"
  shows "RemoveIndirect st inode i = prune st (tl (file_slots (fs_file st) sc inode (unat i)))"
proof -
  define P where "P = ptrs_per_block sc"
  define n where "n = unat i"
  have "n < 12 + P + P ^ 2 + P ^ 3" using assms(4) by (simp add: max_file_blocks_def P_def n_def)
  then consider "n < 12" | "12 \<le> n" "n < 12 + P" | "12 + P \<le> n" "n < 12 + P + P ^ 2"
    | "12 + P + P ^ 2 \<le> n" "n < 12 + P + P ^ 2 + P ^ 3" by linarith
  note cases = this
  note found = coordinates_found [OF assms(2,3), of i, folded P_def n_def]
  note remove = RemoveIndirect_def [of st inode i, folded sc_def, unfolded found Let_def]
  note ops = Let_def ld32_def blk_at_def sc_def [symmetric] numeral_2_eq_2 numeral_3_eq_3 if_distrib [of Some]
  from cases show ?thesis
  proof cases
    case 1
    then show ?thesis by (simp add: remove coordinates_levels file_slots_levels flip: n_def)
  next
    case 2
    from coordinates_levels(2) [OF 2] file_slots_levels(2) [where i = n and sc = sc, folded P_def, OF 2]
    show ?thesis by (simp add: remove ops flip: n_def del: of_nat_diff cong: if_cong)
  next
    case 3
    from coordinates_levels(3) [OF 3] file_slots_levels(3) [where i = n and sc = sc, folded P_def, OF 3]
    show ?thesis by (simp add: remove ops flip: n_def del: of_nat_diff cong: if_cong)
  next
    case 4
    from coordinates_levels(4) [OF 4] file_slots_levels(4) [where i = n and sc = sc, folded P_def, OF 4(1)]
    show ?thesis by (simp add: remove ops flip: n_def del: of_nat_diff cong: if_cong)
  qed
qed

lemma remove_block_slot:
  fixes st :: "'c server"
  defines "sc \<equiv> Super_constants st"
  assumes "max_file_blocks sc < 2 ^ 32" and "0 < ptrs_per_block sc" and "unat i < max_file_blocks sc"
  shows "Remove_Block st inode i =
    (let slot = hd (file_slots (fs_file st) sc inode (unat i)) in do {
       st' \<leftarrow> setFreeBlockBitmap st (ld32 st slot);
       if unat i < 12 then Some (st32 st' slot 0) else RemoveIndirect (st32 st' slot 0) inode i })"
proof -
  define P where "P = ptrs_per_block sc"
  define n where "n = unat i"
  have "n < 12 + P + P ^ 2 + P ^ 3" using assms(4) by (simp add: max_file_blocks_def P_def n_def)
  then consider "n < 12" | "12 \<le> n" "n < 12 + P" | "12 + P \<le> n" "n < 12 + P + P ^ 2"
    | "12 + P + P ^ 2 \<le> n" "n < 12 + P + P ^ 2 + P ^ 3" by linarith
  note cases = this
  note found = coordinates_found [OF assms(2,3), of i, folded P_def n_def]
  note remove = Remove_Block_def [of st inode i, folded sc_def, unfolded found Let_def]
  note ops = Let_def ld32_def blk_at_def sc_def [symmetric] numeral_2_eq_2 numeral_3_eq_3
  from cases show ?thesis
  proof cases
    case 1
    then show ?thesis by (simp add: remove coordinates_levels file_slots_levels Let_def flip: n_def)
  next
    case 2
    from coordinates_levels(2) [OF 2] file_slots_levels(2) [where i = n and sc = sc, folded P_def, OF 2] 2
    show ?thesis by (simp add: remove ops flip: n_def del: of_nat_diff cong: if_cong)
  next
    case 3
    from coordinates_levels(3) [OF 3] file_slots_levels(3) [where i = n and sc = sc, folded P_def, OF 3] 3
    show ?thesis by (simp add: remove ops flip: n_def del: of_nat_diff cong: if_cong)
  next
    case 4
    from coordinates_levels(4) [OF 4] file_slots_levels(4) [where i = n and sc = sc, folded P_def, OF 4(1)] 4
    show ?thesis by (simp add: remove ops flip: n_def del: of_nat_diff cong: if_cong)
  qed
qed

lemma setFree_constants:
  assumes "setFreeBlockBitmap st b = Some st'" and "super_set st"
  shows "Super_constants st' = Super_constants st"
  using assms by (auto simp: setFreeBlockBitmap_def st_SuperBlock_read_set Let_def split: bind_splits)

text \<open>
  C27: removing block \<open>i\<close> of a file. For every index the layout of the inode has, \<open>Remove_Block\<close>
  releases the block that the layout has at \<open>i\<close>, clears the one word that held its number and then
  goes up the index blocks on the way to it, from the innermost one, releasing each one that has
  become empty and clearing the word that held it, up to the first that is still in use. An index
  beyond the layout changes nothing. So the 32-bit coordinates agree with the order in which
  \<open>Inode_Get_Data_Adressess\<close> lists the blocks.
\<close>

theorem remove_block_follows_layout:
  assumes "4 \<le> BLOCK_SIZE (Super_constants st)" and "max_file_blocks (Super_constants st) < 2 ^ 32" and "super_set st"
  shows "Remove_Block st inode i =
    (if unat i < max_file_blocks (Super_constants st) then
       let slots = (\<lambda>st. file_slots (fs_file st) (Super_constants st) inode (unat i)) in do {
         st1 \<leftarrow> setFreeBlockBitmap st (file_block (fs_file st) (Super_constants st) inode (unat i));
         let st2 = st32 st1 (hd (slots st)) 0;
         prune st2 (tl (slots st2)) }
     else Some st)"
proof -
  let ?sc = "Super_constants st"
  have P: "0 < ptrs_per_block ?sc"
    using assms(1) by (simp add: word_le_nat_alt ptrs_per_block_def div_greater_zero_iff)
  note found = coordinates_found [OF assms(2) P, of i]
  show ?thesis
  proof (cases "unat i < max_file_blocks ?sc")
    case True
    have prune: "RemoveIndirect (st32 st1 a 0) inode i =
        prune (st32 st1 a 0) (tl (file_slots (fs_file (st32 st1 a 0)) (Super_constants (st32 st1 a 0)) inode (unat i)))"
      if "setFreeBlockBitmap st b = Some st1" for st1 a b
    proof -
      have "Super_constants (st32 st1 a 0) = ?sc" using setFree_constants [OF that assms(3)] by (simp add: st32_def)
      then show ?thesis using remove_indirect_prunes [of "st32 st1 a 0" i inode] assms(2) P True by simp
    qed
    have direct: "unat i < 12 \<Longrightarrow> tl (file_slots fs sc inode (unat i)) = []" for fs sc by (simp add: file_slots_levels(1))
    show ?thesis using True
      by (cases "setFreeBlockBitmap st (file_block (fs_file st) ?sc inode (unat i))")
        (simp_all add: remove_block_slot [OF assms(2) P True] file_slots_block ld32_def Let_def prune direct)
  next
    case False
    then show ?thesis
      by (simp add: Remove_Block_def found coordinates_levels(5) max_file_blocks_def Let_def)
  qed
qed

lemma remove_block_follows_layout_witness:
  "Remove_Block demo_server 128 1 =
    do { st1 \<leftarrow> setFreeBlockBitmap demo_server (file_block demo_fs demo_sc 128 1); Some (st32 st1 172 0) }"
proof -
  have h: "4 \<le> BLOCK_SIZE (Super_constants demo_server)" "max_file_blocks (Super_constants demo_server) < 2 ^ 32" "super_set demo_server"
    by (simp_all add: demo_defs max_file_blocks_def ptrs_per_block_def)
  show ?thesis
    using remove_block_follows_layout [OF h, of 128 1] h(2)
    by (simp add: demo_server_def max_file_blocks_def file_slots_levels(1) Let_def)
qed

end
