(* ===== verification/Extremo_a_Extremo.thy ===== *)
theory Extremo_a_Extremo
  imports File_Read Dir_Chain Fsc
begin

text \<open>
  Client and server together: the client of \<open>Fsc\<close> connected to a server that receives the packet
  in its main loop, queues the task and has a worker run and answer it. The lemmas compose path
  lookup, the task, the response and the wire protocol for the requests of attributes, of the names
  in a directory and of the bytes of a file.
\<close>

section \<open>A server that answers packets\<close>

definition atender_pedido :: "'c memcached_lib \<Rightarrow> 'c server answering" where
  "atender_pedido lib st conexion paquete =
     (case attend_client lib (uint conexion) [paquete] s_queue_create of
        Some (True, chunks, q) \<Rightarrow>
          (case worker q st of Some (sent, q', st') \<Rightarrow> (sent, st') | None \<Rightarrow> ([], st))
      | _ \<Rightarrow> ([], st))"

lemma worker_one_task:
  "worker (s_queue_push s_queue_create t) st =
    map_option (\<lambda>(sent, st'). (sent, snd (the (s_queue_pop (s_queue_push s_queue_create t))), st')) (run_task t st)"
proof -
  obtain q' where "queue_pop (queue_push queue_create t) = Some (Some t, q')"
    using q.pop_first_pushed [OF q.create_ok, of t "[]"] by auto
  then have "\<exists>q. s_queue_pop (s_queue_push s_queue_create t) = Some (Some t, q)"
    by (simp add: s_queue_pop_def s_queue_push_def s_queue_create_def)
  then show ?thesis by (cases "run_task t st") (auto simp: worker_def)
qed

lemma with_active_file_ok:
  assumes "ready st cs"
  shows "\<exists>l l'. with_active_file (st_path cs) respond st =
      map_option (\<lambda>sent. (sent, with_table st l' False)) (respond (with_table st l False)) \<and>
    afl_ok l' \<and> afl_tab l' = afl_tab (active_file_list st)"
proof -
  let ?T = "afl_tab (active_file_list st)"
  obtain l1 where l1: "active_file_list_find (active_file_list st) (st_path cs) = Some l1" "afl_ok l1"
    "afl_tab l1 = marks ?T {} {st_path cs}"
    using afl.find_marks [of ?T "active_file_list st" "{}" "{}" "st_path cs"] assms by (auto simp: ready_def)
  obtain l3 l4 l5 where l: "active_list_upd l1 (st_path cs) (on_lock RDLOCK) = Some l3"
    "active_list_upd l3 (st_path cs) (on_lock UNLOCK) = Some l4"
    "active_file_finished_using l4 (st_path cs) = Some l5" "afl_ok l5" "afl_tab l5 = ?T"
    using read_locked [OF assms l1(2,3)] by blast
  have "st_find st (st_path cs) = Some (with_table st l1 False)"
    using with_table_ops(1) [of st "active_file_list st" False] l1(1) by (simp add: with_table_same)
  then have "with_active_file (st_path cs) respond st =
      map_option (\<lambda>sent. (sent, with_table st l5 False)) (respond (with_table st l3 False))"
    using l by (cases "respond (with_table st l3 False)") (simp_all add: with_active_file_def with_table_ops)
  with l show ?thesis by blast
qed

lemma run_task_answers:
  assumes "run t (t_params t) st = Some (res, st1)" and "length (p_path (t_params t)) \<le> 40"
    and "ready (st1\<lparr>errno := 0\<rparr>) cs" and "r_path res = st_path cs"
    and "\<And>result. deliver_response t result = with_active_file (r_path result) (respond result)"
    and "\<And>l. respond (res\<lparr>r_error := errno st1\<rparr>) (with_table (st1\<lparr>errno := 0\<rparr>) l False) = Some sent"
  shows "\<exists>l. run_task t st = Some (sent, st1\<lparr>active_file_list := l, errno := 0\<rparr>) \<and> afl_ok l \<and> afl_tab l = afl_tab (active_file_list st1)"
proof -
  obtain l l' where "with_active_file (st_path cs) (respond (res\<lparr>r_error := errno st1\<rparr>)) (st1\<lparr>errno := 0\<rparr>) =
      map_option (\<lambda>sent. (sent, with_table (st1\<lparr>errno := 0\<rparr>) l' False)) (respond (res\<lparr>r_error := errno st1\<rparr>) (with_table (st1\<lparr>errno := 0\<rparr>) l False))"
    "afl_ok l'" "afl_tab l' = afl_tab (active_file_list (st1\<lparr>errno := 0\<rparr>))"
    using with_active_file_ok [OF assms(3), of "respond (res\<lparr>r_error := errno st1\<rparr>)"] by blast
  then show ?thesis
    using assms(1,2,4-6) by (intro exI [of _ l']) (simp add: run_task_def with_table_def)
qed

lemma atender_tarea:
  assumes "attend_client lib (uint fd) [paquete] s_queue_create = Some (True, [], s_queue_push s_queue_create t)"
    and "run_task t st = Some (sent, st')"
  shows "atender_pedido lib st fd paquete = (sent, st')"
  using assms by (simp add: atender_pedido_def worker_one_task)

section \<open>Attributes\<close>

definition atributos_de :: "'c server \<Rightarrow> nat \<Rightarrow> u32 \<Rightarrow> t_respuesta_obtener_atributos" where
  "atributos_de st inode n = (let s = stat_at st inode n in
     \<lparr>numero_de_inodo = rs_inode_number s, ra_modo = ucast (rs_mode s), numero_de_hard_links = ucast (rs_links_count s),
      ra_size = rs_size s, tamano_de_bloque_por_fs = BLOCK_SIZE (Super_constants st),
      cantidad_de_bloques_de_512b = of_nat (Size_In_Blocks (Super_constants st) (rs_size s))\<rparr>)"

lemma with_table_errno [simp]: "with_table (st\<lparr>errno := e\<rparr>) l False = (with_table st l False)\<lparr>errno := e\<rparr>"
  by (simp add: with_table_def)

definition tarea_atributos :: "int \<Rightarrow> string list \<Rightarrow> 'c task_t" where
  "tarea_atributos fd cs = \<lparr>run = getattr, t_params = no_params\<lparr>p_path := st_path cs, p_socket := fd\<rparr>,
     deliver_response = obtener_atributos_response\<rparr>"

definition respuesta_atributos :: "'c server \<Rightarrow> nat option \<Rightarrow> u32 \<Rightarrow> u8 list" where
  "respuesta_atributos st a n = (case a of
       Some inode \<Rightarrow> serializar_respuesta_obtener_atributos RESPUESTA_OK (atributos_de st inode n)
     | None \<Rightarrow> serializar_respuesta_finalizacion (- 2))"

lemma pedido_atributos:
  assumes "length (st_path cs) \<le> 40" and "CHR 0x00 \<notin> set (st_path cs)"
  shows "attend_client lib fd [serializar_pedido_nombre OBTENER_ATRIBUTOS (st_path cs)] q = Some (True, [], s_queue_push q (tarea_atributos fd cs))"
  using attend_nombre [OF assms(2), of OBTENER_ATRIBUTOS lib fd "[]" q] assms(1) by (simp add: task_of_nombre_def tarea_atributos_def)

lemma run_atributos:
  fixes st :: "'c server"
  assumes r: "ready st cs" and path: "length (st_path cs) \<le> 40" and res: "resolve st cs = Some (a, n, e)" and a: "a = None \<longrightarrow> e"
  shows "\<exists>l. run_task (tarea_atributos fd cs) st = Some ([respuesta_atributos st a n], st\<lparr>active_file_list := l, errno := 0\<rparr>) \<and>
    afl_ok l \<and> afl_tab l = afl_tab (active_file_list st)"
proof -
  let ?params = "no_params\<lparr>p_path := st_path cs, p_socket := fd\<rparr>"
  let ?t = "tarea_atributos fd cs :: 'c task_t"
  have pp: "p_path ?params = st_path cs" by simp
  obtain l where l: "afl_ok l" "afl_tab l = afl_tab (active_file_list st)"
    "getattr ?params st = Some (new_result ?params (case a of None \<Rightarrow> D_null | Some inode \<Rightarrow> D_stat (stat_at st inode n)),
       with_table st l e)"
    using getattr_lookup [OF r pp] res by auto
  let ?st = "(with_table st l e)\<lparr>errno := 0\<rparr>"
  have rdy: "ready ?st cs" using r l(1,2) by (simp add: ready_def)
  define res where "res = new_result ?params (case a of None \<Rightarrow> D_null | Some inode \<Rightarrow> D_stat (stat_at st inode n))"
  define answer where "answer = respuesta_atributos st a n"
  define respond where "respond = (\<lambda>(result :: operation_result_t) (st :: 'c server).
       case r_data result of
         D_null \<Rightarrow> map_option (\<lambda>p. [p]) (find_packet [(ENOENT, - 2), (ENAMETOOLONG, - 36)] (r_error result))
       | D_stat atributos \<Rightarrow> Some [serializar_respuesta_obtener_atributos RESPUESTA_OK
           \<lparr>numero_de_inodo = rs_inode_number atributos, ra_modo = ucast (rs_mode atributos),
            numero_de_hard_links = ucast (rs_links_count atributos), ra_size = rs_size atributos,
            tamano_de_bloque_por_fs = BLOCK_SIZE (Super_constants st),
            cantidad_de_bloques_de_512b = of_nat (Size_In_Blocks (Super_constants st) (rs_size atributos))\<rparr>]
       | _ \<Rightarrow> None)"
  have "respond (res\<lparr>r_error := errno (with_table st l e)\<rparr>) (with_table ?st l1 False) = Some [answer]" for l1
  proof (cases a)
    case None
    then have "errno (with_table st l e) = ENOENT" using a by (simp add: with_table_def)
    then show ?thesis using None by (simp add: respond_def res_def new_result_def answer_def respuesta_atributos_def)
  next
    case (Some inode)
    then show ?thesis by (simp add: respond_def res_def new_result_def answer_def respuesta_atributos_def atributos_de_def Let_def)
  qed
  with run_task_answers [of ?t st res "with_table st l e" cs respond "[answer]"] l(2,3) path(1) rdy
  obtain l' where l': "run_task ?t st = Some ([answer], (with_table st l e)\<lparr>active_file_list := l', errno := 0\<rparr>)"
    "afl_ok l'" "afl_tab l' = afl_tab (active_file_list st)"
    by (auto simp: res_def new_result_def respond_def obtener_atributos_response_def tarea_atributos_def)
  have "(with_table st l e)\<lparr>active_file_list := l', errno := 0\<rparr> = st\<lparr>active_file_list := l', errno := 0\<rparr>" by (simp add: with_table_def)
  with l' show ?thesis by (auto simp: answer_def)
qed

lemma atender_atributos:
  fixes st :: "'c server"
  assumes r: "ready st cs" and path: "length (st_path cs) \<le> 40" "CHR 0x00 \<notin> set (st_path cs)"
    and res: "resolve st cs = Some (a, n, e)" and a: "a = None \<longrightarrow> e"
  shows "\<exists>l. atender_pedido lib st fd (serializar_pedido_nombre OBTENER_ATRIBUTOS (st_path cs)) =
      ([respuesta_atributos st a n], st\<lparr>active_file_list := l, errno := 0\<rparr>) \<and> afl_tab l = afl_tab (active_file_list st)"
  using run_atributos [OF r path(1) res a] atender_tarea [OF pedido_atributos [OF path]] by blast

section \<open>The whole request\<close>

lemma atributos_roundtrip:
  "\<exists>p. serializar_respuesta_obtener_atributos t at = packet t (length p) p \<and> length p = 24 \<and>
    deserializar_respuesta_obtener_atributos p n = Some at"
proof -
  let ?p = "w32 (numero_de_inodo at) @ w32 (ra_modo at) @ w32 (numero_de_hard_links at) @
    w32 (ra_size at) @ w32 (tamano_de_bloque_por_fs at) @ w32 (cantidad_de_bloques_de_512b at)"
  have "r32 ?p 0 = numero_de_inodo at" using r32_w32 [of "[]" 0 "numero_de_inodo at"] by simp
  then show ?thesis
    by (intro exI [of _ ?p]) (simp add: serializar_respuesta_obtener_atributos_def deserializar_respuesta_obtener_atributos_def
        r32_fields)
qed

lemma obtener_atributos_answered:
  assumes free: "\<not> mutex cl OBTENER_ATRIBUTOS" and conn: "conexiones cl OBTENER_ATRIBUTOS = []"
    and k: "k = memcached_library_key OBTENER_ATRIBUTOS path"
    and miss: "memcached_get lib (cache_state cl) k = (None, c)"
    and srv: "srv (server_state cl) OBTENER_ATRIBUTOS (serializar_pedido_nombre OBTENER_ATRIBUTOS path) = ([answer], s')"
    and path: "length path \<le> 40" and tras: "cierra tras" "cierra tras2"
  shows "answer = serializar_respuesta_obtener_atributos RESPUESTA_OK at \<Longrightarrow> \<exists>p.
      obtener_atributos lib srv tras tras2 path cl = Some (0, Some (stat_de at),
        cl\<lparr>cache_state := memcached_set lib c k p, server_state := s'\<rparr>) \<and>
      deserializar_respuesta_obtener_atributos p 4 = Some at"
    and "answer = serializar_respuesta_finalizacion (- 2) \<Longrightarrow>
      obtener_atributos lib srv tras tras2 path cl = Some (- 2, None, cl\<lparr>cache_state := c, server_state := s'\<rparr>)"
proof -
  note lines = anotar_path [OF path] anotar_clave_ok [OF path tras(1)] anotar_clave_ok [OF path tras(2)]
  define asked where "asked = cl\<lparr>mutex := (mutex cl)(OBTENER_ATRIBUTOS := True), cache_state := c,
    conexiones := (conexiones cl)(OBTENER_ATRIBUTOS := [answer]), server_state := s'\<rparr>"
  have sent: "enviar_paquete srv OBTENER_ATRIBUTOS (serializar_pedido_nombre OBTENER_ATRIBUTOS path)
      (cl\<lparr>mutex := (mutex cl)(OBTENER_ATRIBUTOS := True), cache_state := c\<rparr>) = asked"
    using conn srv by (simp add: enviar_paquete_def asked_def)
  have restored: "(conexiones cl)(OBTENER_ATRIBUTOS := []) = conexiones cl" "(mutex cl)(OBTENER_ATRIBUTOS := False) = mutex cl"
    using free conn by (auto simp: fun_eq_iff)
  {
    assume ans: "answer = serializar_respuesta_obtener_atributos RESPUESTA_OK at"
    obtain p where p: "answer = packet RESPUESTA_OK (length p) p" "length p = 24"
      "deserializar_respuesta_obtener_atributos p n = Some at" for n
      using atributos_roundtrip [of RESPUESTA_OK at] ans
      by (metis deserializar_respuesta_obtener_atributos_def)
    have "conexiones asked OBTENER_ATRIBUTOS = [packet RESPUESTA_OK (length p) p]" using p(1) by (simp add: asked_def)
    from receive_packet [OF this] p(2)
    have "header_de OBTENER_ATRIBUTOS asked = Some (\<lparr>h_tipo = RESPUESTA_OK, h_longitud = 24\<rparr>,
        asked\<lparr>conexiones := (conexiones asked)(OBTENER_ATRIBUTOS := [p])\<rparr>)"
      "paquete_de OBTENER_ATRIBUTOS 24 (asked\<lparr>conexiones := (conexiones asked)(OBTENER_ATRIBUTOS := [p])\<rparr>) =
        Some (p, asked\<lparr>conexiones := (conexiones asked)(OBTENER_ATRIBUTOS := [])\<rparr>)"
      by (force)+
    then show "\<exists>p. obtener_atributos lib srv tras tras2 path cl = Some (0, Some (stat_de at),
        cl\<lparr>cache_state := memcached_set lib c k p, server_state := s'\<rparr>) \<and>
      deserializar_respuesta_obtener_atributos p 4 = Some at"
      using p free miss sent lines unfolding k
      by (intro exI [of _ p]) (simp add: obtener_atributos_def mutex_lock_def mutex_unlock_def memcached_library_get_def
          memcached_library_set_def tipo_in_def asked_def Let_def restored)
  }
  {
    assume "answer = serializar_respuesta_finalizacion (- 2)"
    then have "header_de OBTENER_ATRIBUTOS asked = Some (\<lparr>h_tipo = - 2, h_longitud = 0\<rparr>,
        asked\<lparr>conexiones := (conexiones asked)(OBTENER_ATRIBUTOS := [])\<rparr>)"
      using recibir_header_packet [of 0 "- 2" "[]" "[]"]
      by (simp add: header_de_def asked_def serializar_respuesta_finalizacion_def)
    then show "obtener_atributos lib srv tras tras2 path cl = Some (- 2, None, cl\<lparr>cache_state := c, server_state := s'\<rparr>)"
      using free miss sent lines unfolding k
      by (simp add: obtener_atributos_def mutex_lock_def mutex_unlock_def memcached_library_get_def
          tipo_in_def asked_def Let_def restored)
  }
qed

lemma atender_listado:
  fixes st :: "'c server"
  assumes r: "ready st cs" and path: "length (st_path cs) \<le> 40" "CHR 0x00 \<notin> set (st_path cs)"
    and res: "resolve st cs = Some (Some inode, n, e)" and dir: "i_mode st inode AND EXT2_IFDIR \<noteq> 0"
    and entries: "read_directory st inode = Some (Some entries)"
    and answer: "serializar_respuesta_leer_directorio RESPUESTA_OK (fs_file st) entries = Some answer"
  shows "\<exists>l. atender_pedido lib st fd (serializar_pedido_nombre LEER_DIRECTORIO (st_path cs)) =
      ([answer], st\<lparr>active_file_list := l, errno := 0\<rparr>) \<and> afl_tab l = afl_tab (active_file_list st)"
proof -
  let ?params = "no_params\<lparr>p_path := st_path cs, p_socket := uint fd\<rparr>"
  let ?t = "\<lparr>run = list_directory, t_params = ?params, deliver_response = listar_directorio_response\<rparr> :: 'c task_t"
  have small: "length (st_path cs) + 1 < 65536" using path(1) by simp
  have att: "attend_client lib (uint fd) [serializar_pedido_nombre LEER_DIRECTORIO (st_path cs)] s_queue_create =
      Some (True, [], s_queue_push s_queue_create ?t)"
    using attend_nombre [OF path(2) small, of LEER_DIRECTORIO lib "uint fd" "[]" s_queue_create]
    by (simp add: task_of_nombre_def)
  have pp: "p_path ?params = st_path cs" by simp
  obtain l where l: "afl_ok l" "afl_tab l = afl_tab (active_file_list st)"
    "list_directory ?params st = Some (new_result ?params (D_entries entries), with_table st l e)"
    using list_lookup [OF r pp] res dir entries by auto
  have rdy: "ready ((with_table st l e)\<lparr>errno := 0\<rparr>) cs" using r l(1,2) by (simp add: ready_def)
  define respond where "respond = (\<lambda>(result :: operation_result_t) (st :: 'c server).
     case r_data result of
       D_null \<Rightarrow> map_option (\<lambda>p. [p]) (find_packet [(ENOENT, - 2), (ENAMETOOLONG, - 36)] (r_error result))
     | D_entries entries \<Rightarrow> map_option (\<lambda>p. [p]) (serializar_respuesta_leer_directorio RESPUESTA_OK (fs_file st) entries)
     | _ \<Rightarrow> None)"
  obtain l' where l': "run_task ?t st = Some ([answer], (with_table st l e)\<lparr>active_file_list := l', errno := 0\<rparr>)"
    "afl_tab l' = afl_tab (active_file_list st)"
    using run_task_answers [of ?t st _ "with_table st l e" cs respond "[answer]", OF _ _ rdy] l(2,3) path(1) answer
    by (auto simp: new_result_def respond_def listar_directorio_response_def)
  have "(with_table st l e)\<lparr>active_file_list := l', errno := 0\<rparr> = st\<lparr>active_file_list := l', errno := 0\<rparr>" by (simp add: with_table_def)
  with atender_tarea [OF att l'(1)] l'(2) show ?thesis by auto
qed

lemma directory_names:
  assumes "map_option data_blocks (Inode_Get_Data_Adressess (fs_file st) (Super_constants st) inode
      (ld32 st (inode + inode_off I_size))) = Some bs" and "dir_holds st bs contents"
  shows "\<exists>entries. read_directory st inode = Some (Some entries) \<and>
    entry_names (fs_file st) entries = map snd (filter (\<lambda>entry. fst entry \<noteq> 0) (concat contents))"
proof -
  obtain entries where e: "read_directory st inode = Some (Some entries)"
    "map (entry_of (fs_file st)) entries = filter (\<lambda>entry. fst entry \<noteq> 0) (concat contents)"
    using read_directory_blocks [OF assms(1,2)] by blast
  have "entry_names (fs_file st) entries = map snd (map (entry_of (fs_file st)) entries)"
    by (simp add: entry_names_def entry_of_def)
  with e show ?thesis by simp
qed

text \<open>
  C1: \<open>stat\<close> from end to end, for a path of at most 40 characters (the limit of the server) without a
  per cent sign (the client's log would take it for a conversion) and with a zero byte soon after the
  block of the cache key on the heap, which the client prints without a terminator (\<open>cierra\<close>). The client asks for the attributes of a path it has not cached, the
  server of the file system image receives the packet, queues the task, resolves the path under
  the locks of the active files and answers. When the path resolves to an inode, FUSE gets that
  inode's number, type, size and blocks, and the client's cache then holds them; when some
  component does not exist, FUSE gets \<open>-ENOENT\<close> and nothing is cached. Either way the image is
  unchanged, the table of active files has the contents it had and the client's mutex is free.
\<close>

theorem stat_end_to_end:
  fixes cl :: "('k, 'c server) client"
  assumes "ready (server_state cl) cs" and "length (st_path cs) \<le> 40" and "CHR 0x00 \<notin> set (st_path cs)"
    and "resolve (server_state cl) cs = Some (a, n, enoent)" and "a = None \<longrightarrow> enoent"
    and "\<not> mutex cl OBTENER_ATRIBUTOS" and "conexiones cl OBTENER_ATRIBUTOS = []"
    and "k = memcached_library_key OBTENER_ATRIBUTOS (st_path cs)"
    and "memcached_get libc (cache_state cl) k = (None, c)" and "cierra tras" and "cierra tras2" and "CHR ''%'' \<notin> set (st_path cs)"
  shows "\<exists>cl'. obtener_atributos libc (atender_pedido lib) tras tras2 (st_path cs) cl =
      Some (case a of Some inode \<Rightarrow> (0, Some (stat_de (atributos_de (server_state cl) inode n)), cl') | None \<Rightarrow> (- 2, None, cl')) \<and>
    fs_file (server_state cl') = fs_file (server_state cl) \<and>
    afl_tab (active_file_list (server_state cl')) = afl_tab (active_file_list (server_state cl)) \<and>
    mutex cl' = mutex cl \<and> conexiones cl' = conexiones cl \<and>
    (case a of None \<Rightarrow> cache_state cl' = c
     | Some inode \<Rightarrow> \<exists>p. cache_state cl' = memcached_set libc c k p \<and>
         deserializar_respuesta_obtener_atributos p 4 = Some (atributos_de (server_state cl) inode n))"
proof -
  obtain l where served: "atender_pedido lib (server_state cl) OBTENER_ATRIBUTOS (serializar_pedido_nombre OBTENER_ATRIBUTOS (st_path cs)) =
      ([respuesta_atributos (server_state cl) a n], (server_state cl)\<lparr>active_file_list := l, errno := 0\<rparr>)"
    "afl_tab l = afl_tab (active_file_list (server_state cl))"
    using atender_atributos [OF assms(1-5)] by blast
  note answered = obtener_atributos_answered [of cl k "st_path cs" libc c "atender_pedido lib", OF assms(6-9) served(1) assms(2,10,11)]
  show ?thesis
  proof (cases a)
    case None
    from answered(2) None served(2) respuesta_atributos_def [of "server_state cl" a n] show ?thesis by simp
  next
    case (Some inode)
    from answered(1) [of "atributos_de (server_state cl) inode n"] Some served(2) respuesta_atributos_def [of "server_state cl" a n] show ?thesis by fastforce
  qed
qed


section \<open>Reading\<close>

definition leido :: "'c server \<Rightarrow> u32 list \<Rightarrow> u32 \<Rightarrow> params_t \<Rightarrow> u8 list" where
  \<comment> \<open>What a read of a file of size \<open>isize\<close> returns: the bytes read and zeros for those skipped.\<close>
  "leido st bs isize params =
     (let w = wanted isize params; d = delivered_bytes (unat (BLOCK_SIZE (Super_constants st))) isize params
      in take d (drop (unat (p_offset params)) (bytes_from st bs 0)) @ replicate (w - d) 0)"

lemma leido_buffer:
  assumes "4 \<le> unat (BLOCK_SIZE (Super_constants st))" and "p_offset params < isize"
    and "Inode_Get_Data_Adressess (fs_file st) (Super_constants st) inode isize = Some bs"
  defines "d \<equiv> delivered_bytes (unat (BLOCK_SIZE (Super_constants st))) isize params" and "w \<equiv> wanted isize params"
  defines "buf \<equiv> take d (drop (unat (p_offset params)) (bytes_from st bs 0)) @ replicate (unat (bytes_to_read params) - d) 0"
  shows "length buf = unat (bytes_to_read params)" "take w buf = leido st bs isize params" "length (leido st bs isize params) = w"
proof -
  have "unat (p_offset params) < unat isize" using assms(2) by (simp add: word_less_nat_alt)
  then have "unat isize \<le> (length bs - 1) * unat (BLOCK_SIZE (Super_constants st))" using blocks_of_size(1) [OF assms(1) _ assms(3)] by simp
  also have "\<dots> \<le> length (bytes_from st bs 0)" by (simp add: length_bytes_from)
  finally have len: "unat isize \<le> length (bytes_from st bs 0)" .
  have w: "w \<le> unat (bytes_to_read params)" "w \<le> unat isize - unat (p_offset params)" by (simp_all add: w_def wanted_def)
  have d: "d \<le> w" by (auto simp: d_def w_def delivered_bytes_def Let_def)
  show "length buf = unat (bytes_to_read params)" using len w d by (simp add: buf_def)
  have ld: "length (take d (drop (unat (p_offset params)) (bytes_from st bs 0))) = d" using len w d by simp
  show "take w buf = leido st bs isize params"
    unfolding buf_def take_append ld using w d ld by (simp add: leido_def Let_def d_def [symmetric] w_def [symmetric] min_def)
  show "length (leido st bs isize params) = w"
    using ld d by (simp add: leido_def Let_def flip: d_def w_def)
qed

lemma atender_lectura:
  fixes st :: "'c server" and o' sz :: u32
  assumes r: "ready st cs" and path: "length (st_path cs) \<le> 40" "CHR 0x00 \<notin> set (st_path cs)"
    and res: "resolve st cs = Some (Some inode, n, e)" "i_mode st inode AND EXT2_IFREG \<noteq> 0"
    and bsz: "4 \<le> unat (BLOCK_SIZE (Super_constants st))" and isize: "isize = ld32 st (inode + inode_off I_size)" and off: "o' < isize"
    and params: "params = no_params\<lparr>p_path := st_path cs, bytes_to_read := sz, p_offset := o', p_socket := uint fd\<rparr>"
    and small: "wanted isize params + 4 < 65536"
    and blocks: "Inode_Get_Data_Adressess (fs_file st) (Super_constants st) inode isize = Some bs"
    and co: "cache_laws lib view" "coherent view st (st_path cs) bs" and pos: "isize < 2 ^ 31"
  shows "\<exists>l c answer. atender_pedido lib st fd (serializar_pedido_leer_archivo (st_path cs) sz o') =
      ([answer], st\<lparr>active_file_list := l, errno := 0, memc := c\<rparr>) \<and> afl_tab l = afl_tab (active_file_list st) \<and>
    (let p = w32 (of_nat (wanted isize params)) @ leido st bs isize params in answer = packet RESPUESTA_OK (length p) p)"
proof -
  let ?t = "\<lparr>run = read_file lib, t_params = params, deliver_response = leer_archivo_response\<rparr> :: 'c task_t"
  have att: "attend_client lib (uint fd) [serializar_pedido_leer_archivo (st_path cs) sz o'] s_queue_create =
      Some (True, [], s_queue_push s_queue_create ?t)"
    using attend_leer [OF path(2), of lib "uint fd" sz o' "[]" s_queue_create] path(1) by (simp add: params)
  have pp: "p_path params = st_path cs" "p_offset params = o'" "bytes_to_read params = sz" by (simp_all add: params)
  define d buf where "d = delivered_bytes (unat (BLOCK_SIZE (Super_constants st))) isize params"
    and "buf = take d (drop (unat o') (bytes_from st bs 0)) @ replicate (unat sz - d) 0"
  obtain l c where l: "afl_ok l" "afl_tab l = afl_tab (active_file_list st)"
    "read_file lib params st = Some ((new_result params (D_bytes buf))\<lparr>read_bytes := of_nat (wanted isize params)\<rparr>, (with_table st l e)\<lparr>memc := c\<rparr>)"
    using read_file_ok [where lib = lib and fd = bs and view = view, OF r pp(1) res bsz] off blocks co pos by (auto simp: pp isize buf_def d_def)
  note buf = leido_buffer [of st params isize inode bs, OF bsz _ blocks, unfolded pp, OF off, folded d_def, folded buf_def]
  let ?w = "wanted isize params"
  have w: "?w \<le> unat sz" "unat (of_nat ?w :: u32) = ?w" using small by (simp_all add: wanted_def pp unat_of_nat_u32)
  define answer where "answer = packet RESPUESTA_OK (4 + ?w) (w32 (of_nat ?w) @ leido st bs isize params)"
  have ser: "serializar_respuesta_leer_archivo RESPUESTA_OK (of_nat ?w) buf = Some answer"
    using w buf small by (simp add: serializar_respuesta_leer_archivo_def Let_def answer_def)
  let ?st = "(with_table st l e)\<lparr>memc := c\<rparr>"
  have rdy: "ready (?st\<lparr>errno := 0\<rparr>) cs" using r l(1,2) by (simp add: ready_def)
  define respond where "respond = (\<lambda>(result :: operation_result_t) (st :: 'c server).
     case r_data result of
       D_null \<Rightarrow> if r_error result = ENOENT \<or> r_error result = ENAMETOOLONG then Some [] else None
     | D_bytes bs \<Rightarrow> map_option (\<lambda>p. [p]) (serializar_respuesta_leer_archivo RESPUESTA_OK (read_bytes result) bs)
     | _ \<Rightarrow> None)"
  obtain l' where l': "run_task ?t st = Some ([answer], ?st\<lparr>active_file_list := l', errno := 0\<rparr>)" "afl_tab l' = afl_tab (active_file_list st)"
    using run_task_answers [of ?t st _ ?st cs respond "[answer]", OF _ _ rdy] l(2,3) path(1) ser pp
    by (auto simp: new_result_def respond_def leer_archivo_response_def)
  have "?st\<lparr>active_file_list := l', errno := 0\<rparr> = st\<lparr>active_file_list := l', errno := 0, memc := c\<rparr>" by (simp add: with_table_def)
  with atender_tarea [OF att l'(1)] l'(2) buf(3) show ?thesis by (auto simp: answer_def Let_def)
qed

lemma leer_archivo_answered:
  assumes free: "\<not> mutex cl LEER_ARCHIVO" and conn: "conexiones cl LEER_ARCHIVO = []"
    and srv: "srv (server_state cl) LEER_ARCHIVO (serializar_pedido_leer_archivo path sz offset) = ([packet RESPUESTA_OK (length p) p], s')"
    and p: "p = w32 (of_nat w) @ datos" "length datos = w" "w + 4 < 65536" "w \<le> unat sz" and path: "length path \<le> 40"
  shows "leer_archivo srv path sz offset cl = Some (int w, datos, cl\<lparr>server_state := s'\<rparr>)"
proof -
  define asked where "asked = cl\<lparr>mutex := (mutex cl)(LEER_ARCHIVO := True),
    conexiones := (conexiones cl)(LEER_ARCHIVO := [packet RESPUESTA_OK (length p) p]), server_state := s'\<rparr>"
  have sent: "enviar_paquete srv LEER_ARCHIVO (serializar_pedido_leer_archivo path sz offset)
      (cl\<lparr>mutex := (mutex cl)(LEER_ARCHIVO := True)\<rparr>) = asked"
    using conn srv by (simp add: enviar_paquete_def asked_def)
  have restored: "(conexiones cl)(LEER_ARCHIVO := []) = conexiones cl" "(mutex cl)(LEER_ARCHIVO := False) = mutex cl"
    using free conn by (auto simp: fun_eq_iff)
  have lp: "length p = w + 4" "p \<noteq> []" using p by auto
  note lines = anotar_tramo [OF path]
  have un: "unat (of_nat w :: u32) = w" using p(3) by (simp add: unat_of_nat_u32)
  have "sint (of_nat w :: u32) = int w"
    using p(3) by (simp add: signed_of_nat) (intro signed_take_bit_int_eq_self, simp_all)
  moreover have "(of_nat w :: u32) \<le> sz" using p(4) un by (simp add: word_le_nat_alt)
  moreover have "deserializar_respuesta_leer_archivo p m = Some \<lparr>rl_buffer = datos, rl_bytes_leidos = of_nat w\<rparr>" for m
    using p un by (simp add: deserializar_respuesta_leer_archivo_def Let_def)
  moreover have "conexiones asked LEER_ARCHIVO = [packet RESPUESTA_OK (length p) p]" by (simp add: asked_def)
  note receive_packet [OF this lp(2)]
  ultimately show ?thesis
    using free sent lp p(3) lines
    by (simp add: leer_archivo_def mutex_lock_def mutex_unlock_def tipo_in_def asked_def Let_def restored)
qed

text \<open>
  C7: reading from end to end. The client reads \<open>size\<close> bytes at \<open>offset\<close> of a path of at most 40
  characters, without a per cent sign (the client's log would take it for a conversion), that
  resolves, on the server, to a regular file of less than 2 GiB (the server compares its size as a
  signed number), with the offset inside the file and an answer that fits into the 16 bits of a
  packet's length: FUSE gets as many bytes as lie inside
  the file, and they are the bytes of the file, block after block, as far as the server's loop reads
  them, then zeros. The image is unchanged, the table of active files is as before, and the client's
  mutex is free.
\<close>

theorem read_end_to_end:
  fixes cl :: "('k, 'c server) client"
  defines "st \<equiv> server_state cl"
  assumes "ready st cs" and "length (st_path cs) \<le> 40" and "CHR 0x00 \<notin> set (st_path cs)"
    and "resolve st cs = Some (Some inode, n, e)" and "i_mode st inode AND EXT2_IFREG \<noteq> 0" and "4 \<le> unat (BLOCK_SIZE (Super_constants st))"
    and "isize = ld32 st (inode + inode_off I_size)" and "offset < isize"
    and "params = no_params\<lparr>p_path := st_path cs, bytes_to_read := sz, p_offset := offset, p_socket := uint LEER_ARCHIVO\<rparr>"
    and "wanted isize params + 4 < 65536" and "Inode_Get_Data_Adressess (fs_file st) (Super_constants st) inode isize = Some bs"
    and "cache_laws lib view" and "coherent view st (st_path cs) bs"
    and "\<not> mutex cl LEER_ARCHIVO" and "conexiones cl LEER_ARCHIVO = []" and "isize < 2 ^ 31" and "CHR ''%'' \<notin> set (st_path cs)"
  shows "\<exists>cl'. leer_archivo (atender_pedido lib) (st_path cs) sz offset cl =
      Some (int (wanted isize params), leido st bs isize params, cl') \<and>
    fs_file (server_state cl') = fs_file st \<and> afl_tab (active_file_list (server_state cl')) = afl_tab (active_file_list st) \<and>
    mutex cl' = mutex cl \<and> conexiones cl' = conexiones cl"
proof -
  define p where "p = w32 (of_nat (wanted isize params)) @ leido st bs isize params"
  obtain l c where served: "atender_pedido lib st LEER_ARCHIVO (serializar_pedido_leer_archivo (st_path cs) sz offset) =
      ([packet RESPUESTA_OK (length p) p], st\<lparr>active_file_list := l, errno := 0, memc := c\<rparr>)" "afl_tab l = afl_tab (active_file_list st)"
    using atender_lectura [OF assms(2-14,17)] by (auto simp: p_def Let_def)
  have "length (leido st bs isize params) = wanted isize params"
    using leido_buffer(3) [OF assms(7) _ assms(12), of params] assms(9,10) by simp
  moreover have "wanted isize params \<le> unat sz" by (simp add: wanted_def assms(10))
  ultimately show ?thesis
    using leer_archivo_answered [where srv = "atender_pedido lib", OF assms(15,16) served(1) [unfolded st_def] p_def _ assms(11) _ assms(3)] served(2) by (simp add: st_def)
qed

definition sin_cache :: "unit memcached_lib" where
  \<comment> \<open>A server cache that keeps nothing.\<close>
  "sin_cache = \<lparr>memcached_get = (\<lambda>c k. (None, c)), memcached_set = (\<lambda>c k v. c), memcached_delete = (\<lambda>c k. c)\<rparr>"

definition cliente_demo :: "(u8 list \<Rightarrow> u8 list option, unit server) client" where
  "cliente_demo = \<lparr>conexiones = (\<lambda>_. []), mutex = (\<lambda>_. False), cache_state = (\<lambda>_. None), server_state = demo_server\<rparr>"

lemma stat_end_to_end_witness:
  "\<exists>cl'. obtener_atributos map_lib (atender_pedido sin_cache) [7, 0] [0] ''/'' cliente_demo =
      Some (0, Some (stat_de (atributos_de demo_server 128 2)), cl') \<and> fs_file (server_state cl') = fs_file demo_server"
proof -
  have "memcached_get map_lib (cache_state cliente_demo) k = (None, \<lambda>_. None)" for k by (simp add: map_lib_def cliente_demo_def)
  then show ?thesis
    using stat_end_to_end [of cliente_demo "[]" "Some 128" 2 False _ map_lib "\<lambda>_. None" "[7, 0]" "[0]" sin_cache] demo_ready(1) demo_root
    by (auto simp: st_path_def cliente_demo_def cierra_def)
qed

definition cliente_file :: "(u8 list \<Rightarrow> u8 list option, (u8 list \<Rightarrow> u8 list option) server) client" where
  "cliente_file = \<lparr>conexiones = (\<lambda>_. []), mutex = (\<lambda>_. False), cache_state = (\<lambda>_. None), server_state = file_server\<rparr>"

lemma file_root:
  "ready file_server []" "resolve file_server [] = Some (Some 128, 2, False)" "i_mode file_server 128 AND EXT2_IFDIR \<noteq> 0"
  "map_option data_blocks (Inode_Get_Data_Adressess (fs_file file_server) (Super_constants file_server) 128
     (ld32 file_server (128 + inode_off I_size))) = Some [5]"
  "dir_holds file_server [5] [[(2, [46]), (3, [97])]]"
proof -
  show "ready file_server []"
    by (simp add: ready_def file_server_def afl_ok_def afl_tab_def idle_def bump_def list_create_def list_ok_def)
  show "resolve file_server [] = Some (Some 128, 2, False)"
    by (simp add: resolve_def ROOT_INODE_NUMBER_def Inode_Global_Read_def Inode_Local_Read_def Inode_readTable_def
        Group_Descriptor_read_def Inode_locateGroup_def Inode_getLocalIndex_def demo_sc_def sizeof_inode_def file_words)
  show "i_mode file_server 128 AND EXT2_IFDIR \<noteq> 0"
    by (simp add: i_mode_def ld16_def EXT2_IFDIR_def file_fs_def load16_def load_bytes_def upt_rec)
  show "map_option data_blocks (Inode_Get_Data_Adressess (fs_file file_server) (Super_constants file_server) 128
     (ld32 file_server (128 + inode_off I_size))) = Some [5]"
    by (simp add: ld32_def file_words file_addresses data_blocks_def)
  have e: "e_len file_fs 640 = 12" "e_len file_fs 652 = 116" "e_name_len file_fs 640 = 1" "e_name_len file_fs 652 = 1"
    "entry_of file_fs 640 = (2, [46])" "entry_of file_fs 652 = (3, [97])"
    by (simp_all add: entry_of_def e_len_def e_name_len_def e_inode_def e_name_def file_words) (simp_all add: file_fs_def load_bytes_def upt_rec)
  then have "dchain file_fs 640 768 [640, 652]" by (simp add: get_padded_size_def sizeof_entry_def padded_def)
  with e show "dir_holds file_server [5] [[(2, [46]), (3, [97])]]"
    by (auto simp: dir_holds_def block_holds_def simp del: dchain.simps intro!: exI [of _ "[640, 652]"])
qed


lemma read_end_to_end_witness:
  "\<exists>cl'. leer_archivo (atender_pedido map_lib) ''/a'' 100 100 cliente_file =
    Some (100, take 100 (drop 100 (bytes_from file_server [6, 7, 0] 0)), cl')"
proof -
  define ps where "ps = no_params\<lparr>p_path := st_path [''a''], bytes_to_read := 100, p_offset := 100, p_socket := uint LEER_ARCHIVO\<rparr>"
  have s: "server_state cliente_file = file_server" "\<not> mutex cliente_file LEER_ARCHIVO" "conexiones cliente_file LEER_ARCHIVO = []"
    by (simp_all add: cliente_file_def)
  have p: "length (st_path [''a'']) \<le> 40" "CHR 0x00 \<notin> set (st_path [''a''])" "st_path [''a''] = ''/a''"
    by (simp_all add: st_path_def path_of_def separator_def)
  have reg: "i_mode file_server 256 AND EXT2_IFREG \<noteq> 0" "4 \<le> unat (BLOCK_SIZE (Super_constants file_server))"
    "200 = ld32 file_server (256 + inode_off I_size)" "(100 :: u32) < 200"
    by (simp_all add: i_mode_def ld16_def ld32_def file_words EXT2_IFREG_def)
  have w: "wanted 200 ps = 100" by (simp add: wanted_def ps_def)
  then have d: "leido file_server [6, 7, 0] 200 ps = take 100 (drop 100 (bytes_from file_server [6, 7, 0] 0))"
    by (simp add: leido_def delivered_bytes_def Let_def) (simp add: ps_def)
  have bs: "Inode_Get_Data_Adressess (fs_file file_server) (Super_constants file_server) 256 200 = Some [6, 7, 0]"
    by (simp add: file_addresses)
  have co: "coherent (\<lambda>c. c) file_server (st_path [''a'']) [6, 7, 0]" by (simp add: coherent_def)
  have small: "wanted 200 ps + 4 < 65536" unfolding w by simp
  from read_end_to_end [of cliente_file "[''a'']", unfolded s(1), OF file_ready(1) p(1,2) file_resolves reg ps_def small bs map_lib_laws co s(2,3)]
  show ?thesis unfolding w d p(3) by auto
qed

end
