(* ===== verification/Atencion.thy ===== *)
theory Atencion
  imports Servidor Extremo_a_Extremo
begin

text \<open>
  The worker threads of \<^verbatim>\<open>rfs/main.c\<close> on tasks that the main loop makes from packets: requests of
  attributes, queued while the workers wait, are all answered.
\<close>

section \<open>Tasks of attribute requests\<close>

text \<open>States of the server that differ from \<open>st\<close> in the table of active files, where nothing is in use.\<close>

definition en_reposo :: "'c server \<Rightarrow> 'c server \<Rightarrow> bool" where
  "en_reposo st st' \<longleftrightarrow> (\<exists>l e. st' = st\<lparr>active_file_list := l, errno := e\<rparr> \<and> afl_ok l \<and> afl_tab l = afl_tab (active_file_list st))"

lemma reposo_fields:
  assumes "en_reposo st st'"
  shows "read_directory st' = read_directory st" "ready st cs \<Longrightarrow> ready st' cs" "resolve st' cs = resolve st cs"
    "respuesta_atributos st' a n = respuesta_atributos st a n"
proof -
  obtain l e where st': "st' = st\<lparr>active_file_list := l, errno := e\<rparr>" "afl_ok l" "afl_tab l = afl_tab (active_file_list st)"
    using assms by (auto simp: en_reposo_def)
  have e: "fs_file st' = fs_file st" "Super_constants st' = Super_constants st" by (simp_all add: st'(1))
  have b: "blk_at st' = blk_at st" by (simp add: blk_at_def e fun_eq_iff)
  show r: "read_directory st' = read_directory st" by (intro ext) (simp only: read_directory_def ld32_def b e)
  show "ready st' cs" if "ready st cs" using that st' by (simp add: ready_def)
  have "lookup st' cs = lookup st cs" for cs
    by (induction cs) (simp, intro ext, simp only: lookup.simps e r)
  then have l: "lookup st' = lookup st" by (simp add: fun_eq_iff)
  show "resolve st' cs = resolve st cs" unfolding resolve_def e r l by simp
  show "respuesta_atributos st' a n = respuesta_atributos st a n"
    by (simp add: respuesta_atributos_def atributos_de_def stat_at_def ld32_def ld16_def e split: option.split)
qed

text \<open>The answers a task of \<open>tareas\<close> may give: the one to the path it asks for.\<close>

definition contesta_atributos :: "'c server \<Rightarrow> 'c task_t \<Rightarrow> u8 list list \<Rightarrow> bool" where
  "contesta_atributos st t sent \<longleftrightarrow> (\<exists>fd cs a n e. t = tarea_atributos fd cs \<and> resolve st cs = Some (a, n, e) \<and> sent = [respuesta_atributos st a n])"

lemma tareas_contestan:
  assumes "\<forall>t \<in> T. \<exists>fd cs a n e. t = tarea_atributos fd cs \<and> ready st cs \<and> length (st_path cs) \<le> 40 \<and>
    resolve st cs = Some (a, n, e) \<and> (a = None \<longrightarrow> e)"
  shows "contestan (en_reposo st) (contesta_atributos st) T"
  unfolding contestan_def
proof (intro ballI allI impI)
  fix t st' assume t: "t \<in> T" and st': "en_reposo st st'"
  obtain fd cs a n e where c: "t = tarea_atributos fd cs" "ready st cs" "length (st_path cs) \<le> 40" "resolve st cs = Some (a, n, e)" "a = None \<longrightarrow> e"
    using assms t by blast
  note f = reposo_fields [OF st']
  have "resolve st' cs = Some (a, n, e)" using c(4) by (simp add: f(3))
  from run_atributos [OF f(2) [OF c(2)] c(3) this c(5), of fd] obtain l where
    l: "run_task t st' = Some ([respuesta_atributos st' a n], st'\<lparr>active_file_list := l, errno := 0\<rparr>)" "afl_ok l"
      "afl_tab l = afl_tab (active_file_list st')" by (auto simp: c(1))
  have "en_reposo st (st'\<lparr>active_file_list := l, errno := 0\<rparr>)"
    using st' l(2,3) unfolding en_reposo_def by (elim exE conjE) (intro exI [of _ l] exI [of _ 0], simp)
  moreover have "contesta_atributos st t [respuesta_atributos st a n]" using c(1,4) unfolding contesta_atributos_def by blast
  ultimately show "\<exists>sent st''. run_task t st' = Some (sent, st'') \<and> en_reposo st st'' \<and> contesta_atributos st t sent"
    using l(1) by (auto simp: f(4))
qed

section \<open>Properties\<close>

text \<open>
  C23: the workers serve every queued task. From a reachable state in which the main thread is not
  half way through queueing, the workers can only make a bounded number of steps on their own, and
  when none of them can move every task queued has been taken, all workers wait, and the answers sent
  are, in some order, exactly one per task, each to the socket of its task and each one that \<open>R\<close> allows
  for it. This needs a worker and an invariant \<open>I\<close> of the server state, which holds at the start, such
  that each of these tasks, run in a state of \<open>I\<close>, returns with an answer of \<open>R\<close> in a state of \<open>I\<close>.
\<close>

theorem queued_tasks_are_served:
  fixes I :: "'c server \<Rightarrow> bool" and R :: "'c task_t \<Rightarrow> u8 list list \<Rightarrow> bool"
  assumes "paso\<^sup>*\<^sup>* (inicial Nthreads st) s" and "\<not> productor s" and "hilos s \<noteq> []" and "I st"
    and "\<forall>t \<in> set (entraron s). \<forall>st. I st \<longrightarrow> (\<exists>sent st'. run_task t st = Some (sent, st') \<and> I st' \<and> R t sent)"
  shows "((paso_hilo ^^ k) s s' \<longrightarrow> k \<le> trabajo s) \<and>
    (paso_hilo\<^sup>*\<^sup>* s s' \<and> (\<forall>s''. \<not> paso_hilo s' s'') \<longrightarrow>
      salieron s' = entraron s \<and> set (hilos s') = {En_espera} \<and> I (servidor s') \<and>
      (\<exists>ts. mset ts = mset (entraron s) \<and> list_all2 (\<lambda>t (f, sent). f = p_socket (t_params t) \<and> R t sent) ts (respuestas s')))"
proof (intro conjI impI)
  show "k \<le> trabajo s" if "(paso_hilo ^^ k) s s'" using pasos_trabajo [OF that] by simp
  assume h: "paso_hilo\<^sup>*\<^sup>* s s' \<and> (\<forall>s''. \<not> paso_hilo s' s'')"
  have "contestan I R (set (entraron s))" using assms(5) by (simp add: contestan_def)
  from todas_contestadas [OF assms(1-4) this conjunct1 [OF h]] h
  show "salieron s' = entraron s" "set (hilos s') = {En_espera}" "I (servidor s')"
    "\<exists>ts. mset ts = mset (entraron s) \<and> list_all2 (\<lambda>t (f, sent). f = p_socket (t_params t) \<and> R t sent) ts (respuestas s')" by blast+
qed

text \<open>Two requests, for a file and for the root directory, as the main loop queues them.\<close>

definition dos_pedidos :: "(u8 list \<Rightarrow> u8 list option) sistema" where
  "dos_pedidos = (inicial 2 file_server)\<lparr>
     cola := s_queue_push (s_queue_push s_queue_create (tarea_atributos 5 [''a''])) (tarea_atributos 6 []),
     entraron := [tarea_atributos 5 [''a''], tarea_atributos 6 []]\<rparr>"

lemma encolada:
  assumes "paso\<^sup>*\<^sup>* (inicial n st) s" and "\<not> productor s"
  shows "paso\<^sup>*\<^sup>* (inicial n st) (s\<lparr>cola := s_queue_push (cola s) t, entraron := entraron s @ [t]\<rparr>)"
proof -
  let ?s1 = "s\<lparr>cola := (cola s)\<lparr>squeue := queue_push (squeue (cola s)) t\<rparr>, productor := True, entraron := entraron s @ [t]\<rparr>"
  let ?s2 = "?s1\<lparr>cola := (cola ?s1)\<lparr>available_elements := available_elements (cola ?s1) + 1\<rparr>, productor := False\<rparr>"
  have "paso s ?s1" using assms(2) by (rule paso.encolar)
  moreover have "paso ?s1 ?s2" by (rule paso.avisar) simp
  moreover have "?s2 = s\<lparr>cola := s_queue_push (cola s) t, entraron := entraron s @ [t]\<rparr>" using assms(2) by (simp add: s_queue_push_def)
  ultimately show ?thesis using assms(1) by (metis rtranclp.rtrancl_into_rtrancl)
qed

lemma dos_pedidos_alcanzable: "paso\<^sup>*\<^sup>* (inicial 2 file_server) dos_pedidos"
proof -
  have "paso\<^sup>*\<^sup>* (inicial 2 file_server) (inicial 2 file_server)" by simp
  from encolada [OF encolada [OF this]] show ?thesis by (simp add: dos_pedidos_def inicial_def)
qed

lemma queued_tasks_are_served_witness:
  "attend_client map_lib 5 [serializar_pedido_nombre OBTENER_ATRIBUTOS ''/a''] s_queue_create =
     Some (True, [], s_queue_push s_queue_create (tarea_atributos 5 [''a''])) \<and>
   (\<exists>s' ts. paso_hilo\<^sup>*\<^sup>* dos_pedidos s' \<and> mset ts = {#tarea_atributos 5 [''a''], tarea_atributos 6 []#} \<and>
     list_all2 (\<lambda>t (f, sent). f = p_socket (t_params t) \<and> contesta_atributos file_server t sent) ts (respuestas s') \<and>
     set (hilos s') = {En_espera})"
proof
  have p: "st_path [''a''] = ''/a''" "st_path [] = ''/''" by (simp_all add: st_path_def path_of_def separator_def)
  show "attend_client map_lib 5 [serializar_pedido_nombre OBTENER_ATRIBUTOS ''/a''] s_queue_create =
     Some (True, [], s_queue_push s_queue_create (tarea_atributos 5 [''a'']))"
    using pedido_atributos [of "[''a'']" map_lib 5 s_queue_create] by (simp add: p)
  have e: "entraron dos_pedidos = [tarea_atributos 5 [''a''], tarea_atributos 6 []]" "\<not> productor dos_pedidos" "hilos dos_pedidos \<noteq> []"
    by (simp_all add: dos_pedidos_def inicial_def)
  have I: "en_reposo file_server file_server"
    unfolding en_reposo_def using file_ready(1) by (intro exI [of _ "active_file_list file_server"] exI [of _ "errno file_server"]) (simp add: ready_def)
  note ready = file_ready(1) file_root(1)
  have one: "\<exists>fd cs a n e. t = tarea_atributos fd cs \<and> ready file_server cs \<and> length (st_path cs) \<le> 40 \<and>
      resolve file_server cs = Some (a, n, e) \<and> (a = None \<longrightarrow> e)"
    if "t = tarea_atributos fd cs" "ready file_server cs" "length (st_path cs) \<le> 40" "resolve file_server cs = Some (Some i, n, False)" for t fd cs i n
    using that by blast
  have "contestan (en_reposo file_server) (contesta_atributos file_server) (set (entraron dos_pedidos))"
  proof (rule tareas_contestan, rule ballI)
    fix t assume "t \<in> set (entraron dos_pedidos)"
    then consider "t = tarea_atributos 5 [''a'']" | "t = tarea_atributos 6 []" unfolding e by auto
    then show "\<exists>fd cs a n e. t = tarea_atributos fd cs \<and> ready file_server cs \<and> length (st_path cs) \<le> 40 \<and>
      resolve file_server cs = Some (a, n, e) \<and> (a = None \<longrightarrow> e)"
    proof cases
      case 1
      show ?thesis by (rule one [OF 1 ready(1) _ file_resolves]) (simp add: p)
    next
      case 2
      show ?thesis by (rule one [OF 2 ready(2) _ file_root(2)]) (simp add: p)
    qed
  qed
  then have T: "\<forall>t \<in> set (entraron dos_pedidos). \<forall>st. en_reposo file_server st \<longrightarrow>
      (\<exists>sent st'. run_task t st = Some (sent, st') \<and> en_reposo file_server st' \<and> contesta_atributos file_server t sent)"
    unfolding contestan_def .
  obtain s' where s': "paso_hilo\<^sup>*\<^sup>* dos_pedidos s'" "\<forall>s''. \<not> paso_hilo s' s''" using termina by blast
  from queued_tasks_are_served [OF dos_pedidos_alcanzable e(2,3) I T, of 0 s'] s' e(1)
  show "\<exists>s' ts. paso_hilo\<^sup>*\<^sup>* dos_pedidos s' \<and> mset ts = {#tarea_atributos 5 [''a''], tarea_atributos 6 []#} \<and>
     list_all2 (\<lambda>t (f, sent). f = p_socket (t_params t) \<and> contesta_atributos file_server t sent) ts (respuestas s') \<and>
     set (hilos s') = {En_espera}" by auto
qed

end
