(* ===== verification/Spec2Isabelle.thy ===== *)
theory Spec2Isabelle
  imports Rc_Volcado Rc_Sesion Destruccion Creacion_Dir Block_Layout Atencion
begin

text \<open>
  A verification library for a remote file system of three programs.

  \<^item> \<^verbatim>\<open>src/rfs\<close> is the server. It maps an ext2 image into memory; a main thread polls the clients
    and turns every packet into a task, worker threads take the tasks from a queue, run them on
    the image and write the answer. Blocks of files pass through a memcached cache.
  \<^item> \<^verbatim>\<open>src/fsc\<close> is the client. FUSE calls its operations; each sends one request over its own
    connection, reads one answer, and some keep listings and attributes in a memcached cache.
  \<^item> \<^verbatim>\<open>src/rc\<close> is the storage engine of that cache, loaded by memcached: partitions of one block of
    memory, of dynamic size or from a buddy system.

  \<^bold>\<open>Conventions.\<close> The build is for i686: \<^verbatim>\<open>size_t\<close>, \<^verbatim>\<open>off_t\<close>, \<^verbatim>\<open>unsigned long\<close> and pointers have 32
  bits; integers are words of their width wherever wrap-around can be seen. The mapped image is a
  function from addresses to bytes with little-endian loads and stores (\<open>Prelude\<close>), and a pointer
  into it is its offset. A structure with one owner is a value, a structure that is shared is in
  a store: active files are a list keyed by path, partitions of the cache are cells linked by
  index. An error the code reports is a value (an \<^verbatim>\<open>errno\<close> in the result, an engine code). A result
  \<^term>\<open>None\<close> of an operation is an execution that C or POSIX leaves undefined or that never returns:
  a \<^verbatim>\<open>NULL\<close> dereference, an access outside a buffer, a lock that is never granted, a scan over
  entries of length zero. So a theorem whose conclusion is \<open>= Some \<dots>\<close> also says that the call
  returns, within the limits listed under \<open>Not modelled\<close>. No fuel is used: a loop is structural, has
  a termination proof, or is a \<open>partial_function\<close>, where \<^term>\<open>None\<close> is also the value of a recursion
  that never ends; that such a loop ends is then a theorem (\<open>scan_ends_iff\<close> for the scan of a directory
  block).

  \<^bold>\<open>The server's libraries\<close> (\<^verbatim>\<open>rfs/commons\<close>; \<^verbatim>\<open>fsc\<close> and \<^verbatim>\<open>rc\<close> carry copies of the same files).
  \<open>Bitarray\<close> is \<^verbatim>\<open>bitarray.c\<close>; the locale \<open>bitmap\<close> states what setting and clearing a bit does to the
  others and proves the scan for free bits once, and it is interpreted on the bytes of the image.
  \<open>Collections\<close> is \<^verbatim>\<open>list.c\<close> and \<^verbatim>\<open>queue.c\<close>: list operations refine sequences, and the locale \<open>fifo\<close>,
  interpreted on the queue, is what the task queue relies on. \<open>Strings\<close> is \<^verbatim>\<open>string.c\<close> with the path
  splitting of the server. \<open>Dictionary\<close> is \<^verbatim>\<open>dictionary.c\<close> and \<^verbatim>\<open>config.c\<close>: the locale
  \<open>keyed_sequences\<close>, interpreted on the hash table, gives one first-in-first-out sequence of values
  per hash code across resizes, and a configuration file reads back what it sets. \<open>Registro\<close> is \<^verbatim>\<open>log.c\<close>,
  \<^verbatim>\<open>temporal.c\<close> and \<^verbatim>\<open>error.c\<close> with what they use of \<^verbatim>\<open>printf\<close>: the line a call appends, and when its
  buffers are large enough. \<open>Socketes\<close> is the sending side of \<^verbatim>\<open>sockete.c\<close> and its wrappers of the calls that
  open and close connections: which messages arrive whole.

  \<^bold>\<open>The image.\<close> \<open>Ext2\<close> is \<^verbatim>\<open>ext2_block_types.h\<close> and \<^verbatim>\<open>ex2_block_types.c\<close>: field offsets, group and inode
  addressing, allocation in one group, and the walk over direct and indirect pointers, which is
  shown equal to the layout of ext2. \<open>Alloc\<close> holds the contracts of the allocators of
  \<^verbatim>\<open>server_threading.c\<close>: under \<open>srv_ok\<close> the bitmaps, the group counters and the superblock agree; the
  locale \<open>allocator\<close>, with an interpretation for blocks and one for inodes, says that allocation
  hands out distinct free numbers, fails exactly when there are too few, and that releasing undoes
  it. \<open>Block_Tree\<close> is the block management of \<^verbatim>\<open>file_operations.c\<close> (coordinates of a block, attaching
  and removing at the four levels, new inodes), and \<open>Block_Layout\<close> shows that removing block \<open>i\<close>
  releases the block the pointer walk lists at \<open>i\<close> and the index blocks that became empty.
  \<open>Directory\<close> holds the entries of a directory; \<open>Dir_Chain\<close> shows that on well-formed blocks reading,
  attaching and deleting end, stay inside the block and are a filter, an insertion and a removal on
  the list of names, and when they do not.

  \<^bold>\<open>The server.\<close> \<open>Server\<close> has the state of \<^verbatim>\<open>server_threading.h\<close> and the operations on counters, locks,
  active files, the queue, the allocators and the two service threads. \<open>Lock_Table\<close> is the table of
  active files as an interface: the locale \<open>lock_table\<close> follows a thread through the locks it takes
  and is interpreted on the list of the server. \<open>File_Ops\<close> has the ten operations the workers run,
  with the locks they take and the cache calls they make. \<open>Lookup\<close> shows that a path lookup is a
  function of the image and leaves the table of active files as it was; \<open>File_Read\<close> and \<open>File_Write\<close>
  show that the block cache is transparent and which bytes are read and written; \<open>Truncate\<close> composes
  allocator, block tree, cache and locks into the contract of \<^verbatim>\<open>truncate_file\<close> for files without
  index blocks, with the well-formed image of \<open>Image_Example\<close> as its instance, and \<open>Borrado\<close> does the
  same for \<^verbatim>\<open>delete_file\<close>, with the directory entry, the inode and two locks; \<open>Borrado_Dir\<close> is the contract of \<^verbatim>\<open>delete_dir\<close> on a
  directory of one block, empty or not, with the count of directories of its group; \<open>Creacion\<close> and
  \<open>Creacion_Dir\<close> are those of \<^verbatim>\<open>create_file_dir\<close> for files and for directories, after which the new path
  resolves and a new directory has the block \<^verbatim>\<open>delete_dir\<close> expects. \<open>Protocol\<close> is the wire
  format of \<^verbatim>\<open>serializadores.c\<close> and the receiving side of \<^verbatim>\<open>sockete.c\<close> and \<^verbatim>\<open>manejador_de_socketes.c\<close>:
  the locale \<open>packet_codec\<close> proves the delivery of a packet followed by other bytes from a round trip
  of its payload and is interpreted on every kind of packet that carries one. \<open>Pedidos\<close> is \<^verbatim>\<open>procesador_de_pedidos.c\<close>, the
  dispatch of \<^verbatim>\<open>main.c\<close> and one round of a worker. \<open>Servidor\<close> is the table of polled clients, one round
  of the main loop, and the main thread and the workers as a step relation around semaphore and
  queue: tasks are served in the order of their requests, and workers left alone serve them all;
  \<open>Atencion\<close> makes the latter one answer per task, for tasks that return, and has the tasks of two
  \<^verbatim>\<open>stat\<close> requests as its instance.
  \<open>Arranque\<close> is \<^verbatim>\<open>manage_fs.c\<close> and the part of \<^verbatim>\<open>main.c\<close> before the loop: a configuration file leads to the
  initial state of \<open>Servidor\<close>; it also has the connections the client opens.

  \<^bold>\<open>The client.\<close> \<open>Fsc\<close> is \<^verbatim>\<open>operaciones_fuse.c\<close> and \<^verbatim>\<open>manejador_memcached.c\<close> over a connection that
  answers packets; the lines it formats for its log are part of it, since their buffers of 255 bytes
  limit the paths and the key of the cache in them has no terminator, so what the heap has after its
  block is an argument. \<open>Extremo_a_Extremo\<close> connects it to the server of \<open>Servidor\<close> and composes the lemmas
  of all components for the three requests that return data: attributes, listings and reads.

  \<^bold>\<open>The cache engine.\<close> \<open>Rc_Diccionario\<close>, \<open>Rc_Dinamicas\<close>, \<open>Rc_Buddy\<close> and \<open>Rc_Engine\<close> are the four files of
  \<^verbatim>\<open>rc/source\<close>. \<open>Rc_Tabla\<close> gives the shape of the table of partitions (linked both ways, contiguous,
  covering the memory) and shows that searching is a search in a list and that allocating from a
  free partition keeps the shape; \<open>Rc_Cache\<close> shows what memcached can rely on: a stored value is found again,
  the lock is let go, and where eviction, compaction and the buddy table go wrong. \<open>Rc_Liberacion\<close> shows
  that deleting a key joins its partition with its free neighbours and keeps the memory covered, and
  which backward link is left wrong. \<open>Rc_Hermanos\<close> is the same for the buddy system: partitions are
  powers of two aligned to their size, the sibling found by counting is the one addresses give, halving
  and joining keep the shape, and an allocation that fits always succeeds. \<open>Rc_Sesion\<close> takes this to
  the engine: a step relation of requests one after the other from the start of the engine, an
  invariant of every state reached, and what each request is answered in all of them. \<open>Rc_Volcado\<close> has the dump of the table and the log message of an
  operation, in which a key is used as a template.

  \<^bold>\<open>Destructors.\<close> \<open>Destruccion\<close> has the functions of all three programs that only give back memory and
  locks, over a store of the blocks that are allocated. The locale \<open>destructor\<close> derives that a
  collection is freed once from the same for its elements; it is interpreted on blocks and active files
  and used for the elements of a dictionary. One destructor frees twice.

  \<^bold>\<open>Parameters.\<close> libmemcached is a record of its calls over an abstract state; the law assumed
  (\<open>cache_laws\<close>) is that it may forget, and otherwise returns what was last stored under a key. The
  operating system appears as the results of its calls (\<^verbatim>\<open>poll\<close>, \<^verbatim>\<open>send\<close>, \<^verbatim>\<open>recv\<close>, \<^verbatim>\<open>mmap\<close> and so on), the clock as an argument.
  What FUSE's \<^verbatim>\<open>filler\<close> receives is part of the result of a listing. What the allocator left where
  the code reads or writes past its blocks is an argument: the bytes after the key of the cache in
  the client (\<open>tras\<close>), and the cell after the array of nodes of the engine (\<open>outside\<close>), which the start
  writes; it may be missing, and then the start is \<^term>\<open>None\<close>. Each assumption has an instance for which
  it holds in the witnesses.

  \<^bold>\<open>Bounds of the model.\<close> One operation of a worker with its answer is one step of \<open>Servidor\<close>; inside
  an operation the locks are explicit state, so a second request for a held lock shows as \<^term>\<open>None\<close>,
  but two operations do not interleave between their own accesses to the image.

  The contracts of creating and deleting are for entries of the root directory and of directories
  directly under it, because deeper the name that \<^verbatim>\<open>split_path\<close> gives the parent keeps a trailing
  slash. Sizes of regular files stay below 2 GiB where a theorem says so, because the code
  compares them as signed numbers.

  \<^bold>\<open>Not modelled.\<close> The lines of the log once they are formatted. The server and the engine do not thread
  them: \<^verbatim>\<open>arrancar\<close> has the \<^verbatim>\<open>NULL\<close> of a logger that could not be made, and the operations after it assume
  a logger, and a path short enough for its buffer of 1024 bytes (those a request may name have 40
  characters). The client formats them into its own buffers, as above, and then passes the text to
  \<^verbatim>\<open>log_debug\<close> as a template, which is left out: a per cent sign in a path reads an argument that is not
  there. The theorems on \<^verbatim>\<open>stat\<close>, reads and writes through the client exclude such paths; the one
  on listings says nothing of what its log line does. The \<^verbatim>\<open>*_expose\<close> functions print; what FUSE, the signals and the thread library do between the calls is
  theirs; \<^verbatim>\<open>config_get_double_value\<close>, which nothing calls, is the \<^verbatim>\<open>atof\<close> of the C library. The copies of
  the libraries in \<^verbatim>\<open>fsc/commons\<close> and \<^verbatim>\<open>rc/commons\<close> have no definitions of their own where they do not differ.
  \<^verbatim>\<open>src/memcached-1.6\<close> is third-party code the engine is loaded into.

  \<^bold>\<open>Open ends.\<close> Truncating and deleting a file with index blocks, a write that grows a file,
  directories that need or have a second block, and the way back when a new directory gets no block are
  modelled operation by operation, and their parts (allocation, attaching, removal, directory entries)
  have theorems; contracts of the whole operations are what would come next.
\<close>

end
